(* ===== verification/Cdev_Prelude.thy ===== *)
theory Cdev_Prelude
  imports Main "HOL-Library.AList"
begin

text \<open>
  The vocabulary shared by every component model of the cdev daemon.

  \<^item> Go's \<open>time.Time\<close> is an integer number of nanoseconds since the Unix epoch; the clock is never
    read by a model, every operation that calls \<open>time.Now()\<close> takes the instant as an argument.
  \<^item> A Go map is an association list with pairwise different keys (\<open>wf_map\<close>), updated by the
    library's \<open>AList.update\<close> and \<open>AList.delete\<close>. Go leaves the iteration order of a map open:
    where the result of a \<open>range\<close> loop can depend on it, the operation takes the order as an
    argument (\<open>valid_order\<close>, \<open>range_entries\<close>) and the properties hold for every order.
  \<^item> An \<open>error\<close> result is the left part of a sum.

  The locale \<open>go_map\<close> states the laws of a map the components rely on, and proves once, inside it,
  the facts about sizes and bounded insertion that several of them need.
\<close>

named_theorems map_laws \<open>lookup, size and key facts of the association-list maps\<close>
named_theorems invs \<open>preservation of component invariants\<close>

section \<open>Time\<close>

type_synonym time = int

definition second :: time where
  "second = 1000000000"

definition minute :: time where
  "minute = 60 * second"

definition hour :: time where
  "hour = 60 * minute"

text \<open>The zero value of \<open>time.Time\<close> is the first instant of year 1.\<close>

definition zero_time :: time where
  "zero_time = - 62135596800 * second"

text \<open>\<open>Unix()\<close> rounds towards minus infinity.\<close>

definition unix :: "time \<Rightarrow> int" where
  "unix t = t div second"

lemma second_pos [simp]: "0 < second"
  by (simp add: second_def)

lemma unix_mono: "s \<le> t \<Longrightarrow> unix s \<le> unix t"
  by (simp add: unix_def zdiv_mono1)

lemma unix_add_seconds: "unix (t + n * second) = unix t + n"
  by (simp add: unix_def second_def)

section \<open>Association-list maps\<close>

type_synonym ('k, 'v) gomap = "('k \<times> 'v) list"

definition wf_map :: "('k, 'v) gomap \<Rightarrow> bool" where
  "wf_map m \<longleftrightarrow> distinct (map fst m)"

abbreviation mget :: "('k, 'v) gomap \<Rightarrow> 'k \<Rightarrow> 'v option" where
  "mget m k \<equiv> map_of m k"

abbreviation mput :: "'k \<Rightarrow> 'v \<Rightarrow> ('k, 'v) gomap \<Rightarrow> ('k, 'v) gomap" where
  "mput k v m \<equiv> AList.update k v m"

abbreviation mdel :: "'k \<Rightarrow> ('k, 'v) gomap \<Rightarrow> ('k, 'v) gomap" where
  "mdel k m \<equiv> AList.delete k m"

text \<open>Deleting, inside a \<open>range\<close> loop, every entry that satisfies a condition.\<close>

definition mdel_if :: "('k \<Rightarrow> 'v \<Rightarrow> bool) \<Rightarrow> ('k, 'v) gomap \<Rightarrow> ('k, 'v) gomap" where
  "mdel_if p m = filter (\<lambda>(k, v). \<not> p k v) m"

definition mem_key :: "'k \<Rightarrow> ('k, 'v) gomap \<Rightarrow> bool" where
  "mem_key k m \<longleftrightarrow> mget m k \<noteq> None"

text \<open>The entries in the order in which a \<open>range\<close> loop visits the keys.\<close>

definition valid_order :: "'k list \<Rightarrow> ('k, 'v) gomap \<Rightarrow> bool" where
  "valid_order ks m \<longleftrightarrow> distinct ks \<and> set ks = fst ` set m"

definition range_entries :: "'k list \<Rightarrow> ('k, 'v) gomap \<Rightarrow> ('k \<times> 'v) list" where
  "range_entries ks m = concat (map (\<lambda>k. case mget m k of None \<Rightarrow> [] | Some v \<Rightarrow> [(k, v)]) ks)"

lemma wf_map_Nil [simp, invs]: "wf_map []"
  by (simp add: wf_map_def)

lemma wf_map_mput [simp, invs]: "wf_map m \<Longrightarrow> wf_map (mput k v m)"
  by (simp add: wf_map_def distinct_update)

lemma wf_map_mdel [simp, invs]: "wf_map m \<Longrightarrow> wf_map (mdel k m)"
  by (simp add: wf_map_def distinct_delete)

lemma wf_map_filter [simp, invs]: "wf_map m \<Longrightarrow> wf_map (filter P m)"
  by (simp add: wf_map_def distinct_map_filter)

lemma wf_map_mdel_if [simp, invs]: "wf_map m \<Longrightarrow> wf_map (mdel_if p m)"
  by (simp add: mdel_if_def)

lemma mget_mput [simp, map_laws]: "mget (mput k v m) k' = (if k' = k then Some v else mget m k')"
  by (simp add: update_conv')

lemma mget_mdel [simp, map_laws]: "mget (mdel k m) k' = (if k' = k then None else mget m k')"
  by (simp add: delete_conv')

lemma mget_filter_key:
  "wf_map m \<Longrightarrow> mget (filter P m) k =
    (case mget m k of None \<Rightarrow> None | Some v \<Rightarrow> if P (k, v) then Some v else None)"
proof (induction m)
  case Nil
  then show ?case by simp
next
  case (Cons x m)
  obtain k' v' where x: "x = (k', v')" by (cases x)
  have wf: "wf_map m" and new: "k' \<notin> fst ` set m"
    using Cons.prems by (simp_all add: wf_map_def x)
  have gone: "mget (filter P m) k' = None"
    using new by (auto simp: map_of_eq_None_iff)
  show ?case
    using Cons.IH [OF wf] gone by (auto simp: x)
qed

lemma mget_mdel_if [map_laws]:
  "wf_map m \<Longrightarrow> mget (mdel_if p m) k =
    (case mget m k of None \<Rightarrow> None | Some v \<Rightarrow> if p k v then None else Some v)"
  by (simp add: mdel_if_def mget_filter_key split: option.split)

lemma mget_mdel_if_SomeD:
  "mget (mdel_if p m) k = Some v \<Longrightarrow> wf_map m \<Longrightarrow> mget m k = Some v \<and> \<not> p k v"
  by (simp add: mget_mdel_if split: option.splits if_splits)

lemma mget_in_set: "mget m k = Some v \<Longrightarrow> (k, v) \<in> set m"
  by (rule map_of_SomeD)

lemma mget_iff_in_set: "wf_map m \<Longrightarrow> mget m k = Some v \<longleftrightarrow> (k, v) \<in> set m"
  by (simp add: wf_map_def)

lemma length_mput:
  "length (mput k v m) = (if mget m k = None then Suc (length m) else length m)"
  by (induction m) auto

lemma mdel_eq_filter: "mdel k m = filter (\<lambda>(k', v). k \<noteq> k') m"
  by (induction m) auto

lemma length_mdel:
  "wf_map m \<Longrightarrow> length (mdel k m) = (if mget m k = None then length m else length m - 1)"
proof (induction m)
  case Nil
  then show ?case by simp
next
  case (Cons x m)
  obtain k' v' where x: "x = (k', v')" by (cases x)
  have wf: "wf_map m" and new: "k' \<notin> fst ` set m"
    using Cons.prems by (simp_all add: wf_map_def x)
  show ?case
  proof (cases "k = k'")
    case True
    then show ?thesis using new by (simp add: x)
  next
    case False
    have "mget m k \<noteq> None \<Longrightarrow> 0 < length m" by (cases m) auto
    then show ?thesis using Cons.IH [OF wf] False by (auto simp: x)
  qed
qed

lemma length_mdel_if: "length (mdel_if p m) \<le> length m"
  by (simp add: mdel_if_def)

lemma set_mdel_if [simp]: "set (mdel_if p m) = {(k, v) \<in> set m. \<not> p k v}"
  by (auto simp: mdel_if_def)

lemma keys_mget: "k \<in> fst ` set m \<longleftrightarrow> mget m k \<noteq> None"
  by (simp add: map_of_eq_None_iff)

lemma set_range_entries_mget:
  "set (range_entries ks m) = {(k, v). k \<in> set ks \<and> mget m k = Some v}"
  by (auto simp: range_entries_def split: option.splits)

lemma set_range_entries:
  "valid_order ks m \<Longrightarrow> wf_map m \<Longrightarrow> set (range_entries ks m) = set m"
  unfolding set_range_entries_mget
  by (force simp: valid_order_def mget_iff_in_set)

lemma range_entries_keys:
  assumes "valid_order ks m"
  shows "map fst (range_entries ks m) = ks"
proof -
  have "map fst (range_entries ls m) = ls" if "\<forall>k \<in> set ls. mget m k \<noteq> None" for ls
    using that by (induction ls) (auto simp: range_entries_def)
  moreover have "\<forall>k \<in> set ks. mget m k \<noteq> None"
    using assms keys_mget [of _ m] unfolding valid_order_def by blast
  ultimately show ?thesis .
qed

lemma valid_order_own: "wf_map m \<Longrightarrow> valid_order (map fst m) m"
  by (simp add: valid_order_def wf_map_def)

section \<open>The interface of a map\<close>

locale go_map =
  fixes lookup :: "'m \<Rightarrow> 'k \<Rightarrow> 'v option"
    and put :: "'k \<Rightarrow> 'v \<Rightarrow> 'm \<Rightarrow> 'm"
    and del :: "'k \<Rightarrow> 'm \<Rightarrow> 'm"
    and count :: "'m \<Rightarrow> nat"
    and ok :: "'m \<Rightarrow> bool"
  assumes lookup_put: "lookup (put k v m) k' = (if k' = k then Some v else lookup m k')"
    and lookup_del: "lookup (del k m) k' = (if k' = k then None else lookup m k')"
    and ok_put: "ok m \<Longrightarrow> ok (put k v m)"
    and ok_del: "ok m \<Longrightarrow> ok (del k m)"
    and count_put: "ok m \<Longrightarrow> count (put k v m) = (if lookup m k = None then Suc (count m) else count m)"
    and count_del: "ok m \<Longrightarrow> count (del k m) = (if lookup m k = None then count m else count m - 1)"
begin

text \<open>Overwriting a present key, and removing a key twice, never change the size.\<close>

lemma count_overwrite: "ok m \<Longrightarrow> lookup m k = Some w \<Longrightarrow> count (put k v m) = count m"
  by (simp add: count_put)

lemma count_del_del: "ok m \<Longrightarrow> count (del k (del k m)) = count (del k m)"
  by (simp add: count_del [OF ok_del] lookup_del)

lemma lookup_del_put: "lookup (del k (put k v m)) k' = lookup (del k m) k'"
  by (simp add: lookup_put lookup_del)

text \<open>
  Making room before inserting: a map at its limit from which one present key is removed first is
  within the limit again after the insertion.
\<close>

lemma bounded_insert:
  assumes "ok m" "count m \<le> n" "0 < n"
    and room: "n \<le> count m \<Longrightarrow> lookup m e \<noteq> None"
  shows "count (put k v (if n \<le> count m then del e m else m)) \<le> n"
proof (cases "n \<le> count m")
  case True
  then have "count (del e m) < n"
    using assms by (simp add: count_del)
  then show ?thesis
    using True assms(1) by (simp add: count_put ok_del)
next
  case False
  then show ?thesis
    using assms(1) by (simp add: count_put)
qed

lemma bounded_insert_over:
  assumes "ok m" "lookup m e \<noteq> None"
  shows "count (put k v (del e m)) \<le> max 1 (count m)"
  using assms by (auto simp: count_put ok_del count_del)

end

interpretation gm: go_map "map_of" "AList.update" "AList.delete" "length" "wf_map"
  by unfold_locales (simp_all add: length_mput length_mdel)

section \<open>The oldest entry of a map\<close>

text \<open>
  The daemon finds an entry to evict with one loop, written out in two components: remember the key
  and the creation time of the first entry, and replace them whenever a visited entry is older. The
  empty key marks "nothing found yet".
\<close>

fun oldest_loop :: "('v \<Rightarrow> time) \<Rightarrow> (string \<times> 'v) list \<Rightarrow> string \<Rightarrow> time \<Rightarrow> string" where
  "oldest_loop created [] op ot = op"
| "oldest_loop created ((p, d) # xs) op ot =
     (if op = [] \<or> created d < ot then oldest_loop created xs p (created d)
      else oldest_loop created xs op ot)"

lemma oldest_loop_in:
  "oldest_loop created xs op ot \<in> insert op (fst ` set xs)"
  by (induction created xs op ot rule: oldest_loop.induct) auto

lemma oldest_loop_found:
  assumes "op \<noteq> []" "[] \<notin> fst ` set xs"
  shows "\<exists>t \<le> ot. (oldest_loop created xs op ot = op \<and> t = ot \<or>
      (\<exists>d. (oldest_loop created xs op ot, d) \<in> set xs \<and> created d = t)) \<and>
    (\<forall>kd \<in> set xs. t \<le> created (snd kd))"
  using assms
proof (induction created xs op ot rule: oldest_loop.induct)
  case (1 created op ot)
  then show ?case by simp
next
  case (2 created p d xs op ot)
  have p: "p \<noteq> []" and xs: "[] \<notin> fst ` set xs"
    using "2.prems" by auto
  show ?case
  proof (cases "created d < ot")
    case True
    then have c: "op = [] \<or> created d < ot" by simp
    from "2.IH"(1) [OF c p xs] obtain t where t: "t \<le> created d"
      and r: "oldest_loop created xs p (created d) = p \<and> t = created d \<or>
        (\<exists>e. (oldest_loop created xs p (created d), e) \<in> set xs \<and> created e = t)"
      and min: "\<forall>kd \<in> set xs. t \<le> created (snd kd)"
      by metis
    show ?thesis
      using t r min True by (intro exI [of _ t]) auto
  next
    case False
    then have c: "\<not> (op = [] \<or> created d < ot)" using "2.prems"(1) by simp
    from "2.IH"(2) [OF c "2.prems"(1) xs] obtain t where t: "t \<le> ot"
      and r: "oldest_loop created xs op ot = op \<and> t = ot \<or>
        (\<exists>e. (oldest_loop created xs op ot, e) \<in> set xs \<and> created e = t)"
      and min: "\<forall>kd \<in> set xs. t \<le> created (snd kd)"
      by metis
    show ?thesis
      using t r min c False by (intro exI [of _ t]) auto
  qed
qed

text \<open>On a map without the empty key the loop returns a key of minimal creation time.\<close>

lemma oldest_loop_min:
  assumes "xs \<noteq> []" "[] \<notin> fst ` set xs"
  obtains d where "(oldest_loop created xs [] ot, d) \<in> set xs"
    and "\<And>k d'. (k, d') \<in> set xs \<Longrightarrow> created d \<le> created d'"
proof -
  obtain p d ys where xs: "xs = (p, d) # ys"
    using assms(1) by (cases xs) auto
  have p: "p \<noteq> []" and ys: "[] \<notin> fst ` set ys"
    using assms(2) by (auto simp: xs)
  have step: "oldest_loop created xs [] ot = oldest_loop created ys p (created d)"
    by (simp add: xs)
  obtain t where t: "t \<le> created d"
    and r: "oldest_loop created ys p (created d) = p \<and> t = created d \<or>
      (\<exists>d'. (oldest_loop created ys p (created d), d') \<in> set ys \<and> created d' = t)"
    and min: "\<forall>kd \<in> set ys. t \<le> created (snd kd)"
    using oldest_loop_found [OF p ys] by metis
  from r obtain d' where d': "(oldest_loop created xs [] ot, d') \<in> set xs" "created d' = t"
    unfolding step by (auto simp: xs)
  have "created d' \<le> created e" if "(k, e) \<in> set xs" for k e
    using that t min d'(2) by (auto simp: xs)
  with d'(1) show thesis by (rule that)
qed

lemma oldest_loop_nonempty:
  assumes "xs \<noteq> []" "[] \<notin> fst ` set xs"
  shows "oldest_loop created xs [] ot \<noteq> []"
  using assms by (metis oldest_loop_min fst_conv image_eqI)

section \<open>A table whose entries are taken once\<close>

text \<open>
  Pending requests are handed out by an operation that looks an entry up and removes it in one
  critical section. \<open>run_takes\<close> lets any number of takers come in any order and collects what they got.
\<close>

fun run_takes :: "(string \<Rightarrow> 's \<Rightarrow> 'r option \<times> 's) \<Rightarrow> string list \<Rightarrow> 's \<Rightarrow> (string \<times> 'r) list \<times> 's" where
  "run_takes tk [] s = ([], s)"
| "run_takes tk (k # ks) s =
     (let (r, s') = tk k s; (rs, s'') = run_takes tk ks s'
      in (case r of None \<Rightarrow> rs | Some x \<Rightarrow> (k, x) # rs, s''))"

locale taken_once =
  fixes look :: "'s \<Rightarrow> string \<Rightarrow> 'r option"
    and tk :: "string \<Rightarrow> 's \<Rightarrow> 'r option \<times> 's"
  assumes take_result: "fst (tk k s) = look s k"
    and look_take: "look (snd (tk k s)) k' = (if k' = k then None else look s k')"
begin

lemma take_twice: "fst (tk k (snd (tk k s))) = None"
  by (simp add: take_result look_take)

lemma take_other: "k' \<noteq> k \<Longrightarrow> fst (tk k' (snd (tk k s))) = fst (tk k' s)"
  by (simp add: take_result look_take)

text \<open>However many takers there are and in whatever order they come, an entry has one winner.\<close>

lemma takes_absent: "look s k = None \<Longrightarrow> k \<notin> fst ` set (fst (run_takes tk ks s))"
proof (induction ks arbitrary: s)
  case Nil
  then show ?case by simp
next
  case (Cons k' ks)
  obtain r s' where t: "tk k' s = (r, s')" by fastforce
  have "look s' k = None" using Cons.prems look_take [of k' s k] t by (auto split: if_splits)
  then have "k \<notin> fst ` set (fst (run_takes tk ks s'))" by (rule Cons.IH)
  moreover have "r \<noteq> None \<Longrightarrow> k' \<noteq> k" using Cons.prems take_result [of k' s] t by auto
  ultimately show ?case
    using t by (auto split: option.split prod.split)
qed

lemma takes_one_winner: "distinct (map fst (fst (run_takes tk ks s)))"
proof (induction ks arbitrary: s)
  case Nil
  then show ?case by simp
next
  case (Cons k ks)
  obtain r s' where t: "tk k s = (r, s')" by fastforce
  have "look s' k = None" using look_take [of k s k] t by simp
  then have "k \<notin> fst ` set (fst (run_takes tk ks s'))" by (rule takes_absent)
  then show ?case
    using Cons.IH [of s'] t by (auto split: option.split prod.split)
qed

end

end
