(* ===== verification/Go_Strings.thy ===== *)
theory Go_Strings
  imports Cdev_Prelude
begin

text \<open>
  The parts of Go's standard packages \<open>strings\<close>, \<open>unicode/utf8\<close> and \<open>path/filepath\<close> (on Unix)
  that the daemon's components call. A Go string is a sequence of bytes, and so is a \<open>string\<close> here:
  \<open>length\<close> counts bytes, slicing is \<open>take\<close> and \<open>drop\<close>.

  White space is Unicode white space, as in \<open>strings.Fields\<close> and \<open>strings.TrimSpace\<close>: its UTF-8
  encodings are listed in \<open>space_seqs\<close>. Their first bytes never occur inside the encoding of another
  rune, so scanning byte by byte finds the same spaces as decoding runes does.
\<close>

named_theorems str_laws \<open>facts about prefixes, suffixes and trimming\<close>

section \<open>Prefixes, suffixes and searching\<close>

definition has_prefix :: "string \<Rightarrow> string \<Rightarrow> bool" where
  "has_prefix p s \<longleftrightarrow> take (length p) s = p"

definition has_suffix :: "string \<Rightarrow> string \<Rightarrow> bool" where
  "has_suffix p s \<longleftrightarrow> length p \<le> length s \<and> drop (length s - length p) s = p"

definition trim_prefix :: "string \<Rightarrow> string \<Rightarrow> string" where
  "trim_prefix p s = (if has_prefix p s then drop (length p) s else s)"

definition trim_suffix :: "string \<Rightarrow> string \<Rightarrow> string" where
  "trim_suffix p s = (if has_suffix p s then take (length s - length p) s else s)"

fun index_of :: "string \<Rightarrow> string \<Rightarrow> nat option" where
  "index_of p [] = (if p = [] then Some 0 else None)"
| "index_of p (c # s) = (if has_prefix p (c # s) then Some 0 else map_option Suc (index_of p s))"

definition contains :: "string \<Rightarrow> string \<Rightarrow> bool" where
  "contains p s \<longleftrightarrow> index_of p s \<noteq> None"

lemma has_prefix_iff: "has_prefix p s \<longleftrightarrow> (\<exists>r. s = p @ r)"
  by (metis append_eq_conv_conj append_take_drop_id has_prefix_def)

lemma has_suffix_iff: "has_suffix p s \<longleftrightarrow> (\<exists>r. s = r @ p)"
proof
  assume "has_suffix p s"
  then show "\<exists>r. s = r @ p"
    unfolding has_suffix_def by (metis append_take_drop_id)
qed (auto simp: has_suffix_def)

lemma has_prefix_append [simp, str_laws]: "has_prefix p (p @ s)"
  by (auto simp: has_prefix_iff)

lemma has_prefix_refl [simp, str_laws]: "has_prefix p p"
  by (auto simp: has_prefix_iff)

lemma has_prefix_extend [str_laws]: "has_prefix p s \<Longrightarrow> has_prefix p (s @ t)"
  by (auto simp: has_prefix_iff)

lemma has_prefix_Cons [simp]: "has_prefix (c # p) (d # s) \<longleftrightarrow> c = d \<and> has_prefix p s"
  by (auto simp: has_prefix_def)

lemma has_prefix_Nil [simp]: "has_prefix [] s" "has_prefix (c # p) [] \<longleftrightarrow> False"
  by (auto simp: has_prefix_def)

lemma has_suffix_append [simp, str_laws]: "has_suffix p (s @ p)"
  by (auto simp: has_suffix_iff)

lemma has_suffix_Nil [simp]: "has_suffix [] s"
  by (auto simp: has_suffix_iff)

lemma trim_suffix_append [simp, str_laws]: "trim_suffix p (s @ p) = s"
  by (simp add: trim_suffix_def)

lemma trim_prefix_append [simp, str_laws]: "trim_prefix p (p @ s) = s"
  by (simp add: trim_prefix_def)

lemma trim_suffix_eq: "has_suffix p s \<Longrightarrow> trim_suffix p s @ p = s"
  by (auto simp: has_suffix_iff)

lemma index_of_Some: "index_of p s = Some i \<Longrightarrow> has_prefix p (drop i s)"
  by (induction p s arbitrary: i rule: index_of.induct) (auto split: if_splits)

lemma contains_iff: "contains p s \<longleftrightarrow> (\<exists>a b. s = a @ p @ b)"
proof
  assume "contains p s"
  then obtain i where "has_prefix p (drop i s)"
    by (auto simp: contains_def dest: index_of_Some)
  then show "\<exists>a b. s = a @ p @ b"
    by (metis append_take_drop_id has_prefix_iff)
next
  have here: "index_of p (p @ b) = Some 0" for b
    using has_prefix_append [of p b] by (cases "p @ b") auto
  have "index_of p (a @ p @ b) \<noteq> None" for a b
    by (induction a) (auto simp: here)
  then show "\<exists>a b. s = a @ p @ b \<Longrightarrow> contains p s"
    by (auto simp: contains_def)
qed

section \<open>White space\<close>

definition space_seqs :: "string list" where
  "space_seqs =
    [[CHR 0x20], [CHR 0x09], [CHR 0x0A], [CHR 0x0B], [CHR 0x0C], [CHR 0x0D],
     [CHR 0xC2, CHR 0x85], [CHR 0xC2, CHR 0xA0], [CHR 0xE1, CHR 0x9A, CHR 0x80],
     [CHR 0xE2, CHR 0x80, CHR 0x80], [CHR 0xE2, CHR 0x80, CHR 0x81], [CHR 0xE2, CHR 0x80, CHR 0x82],
     [CHR 0xE2, CHR 0x80, CHR 0x83], [CHR 0xE2, CHR 0x80, CHR 0x84], [CHR 0xE2, CHR 0x80, CHR 0x85],
     [CHR 0xE2, CHR 0x80, CHR 0x86], [CHR 0xE2, CHR 0x80, CHR 0x87], [CHR 0xE2, CHR 0x80, CHR 0x88],
     [CHR 0xE2, CHR 0x80, CHR 0x89], [CHR 0xE2, CHR 0x80, CHR 0x8A], [CHR 0xE2, CHR 0x80, CHR 0xA8],
     [CHR 0xE2, CHR 0x80, CHR 0xA9], [CHR 0xE2, CHR 0x80, CHR 0xAF], [CHR 0xE2, CHR 0x81, CHR 0x9F],
     [CHR 0xE3, CHR 0x80, CHR 0x80]]"

text \<open>The number of bytes of the white-space rune a string starts with, 0 when it starts with none.\<close>

definition space_len :: "string \<Rightarrow> nat" where
  "space_len s = (case find (\<lambda>q. has_prefix q s) space_seqs of None \<Rightarrow> 0 | Some q \<Rightarrow> length q)"

fun fields_go :: "string \<Rightarrow> nat \<Rightarrow> string \<Rightarrow> string list" where
  "fields_go cur k [] = (if cur = [] then [] else [cur])"
| "fields_go cur (Suc k) (c # s) = fields_go cur k s"
| "fields_go cur 0 (c # s) =
     (case space_len (c # s) of
        0 \<Rightarrow> fields_go (cur @ [c]) 0 s
      | Suc n \<Rightarrow> (if cur = [] then [] else [cur]) @ fields_go [] n s)"

definition fields :: "string \<Rightarrow> string list" where
  "fields s = fields_go [] 0 s"

fun trim_left_space :: "string \<Rightarrow> string" where
  "trim_left_space [] = []"
| "trim_left_space (c # s) =
     (if space_len (c # s) = 1 then trim_left_space s
      else if space_len (c # s) = 2 then trim_left_space (drop 1 s)
      else if space_len (c # s) = 3 then trim_left_space (drop 2 s)
      else c # s)"

definition space_tail :: "string \<Rightarrow> nat" where
  "space_tail s = (case find (\<lambda>q. has_suffix q s) space_seqs of None \<Rightarrow> 0 | Some q \<Rightarrow> length q)"

function trim_right_space :: "string \<Rightarrow> string" where
  "trim_right_space s =
     (if space_tail s = 0 then s else trim_right_space (take (length s - space_tail s) s))"
  by pat_completeness auto
termination
proof (relation "measure length")
  fix s
  assume nz: "space_tail s \<noteq> 0"
  then obtain q where q: "find (\<lambda>q. has_suffix q s) space_seqs = Some q" and "space_tail s = length q"
    by (auto simp: space_tail_def split: option.splits)
  moreover from q have "has_suffix q s"
    by (auto simp: find_Some_iff)
  ultimately have "0 < space_tail s" "space_tail s \<le> length s"
    using nz by (auto simp: has_suffix_def)
  then show "(take (length s - space_tail s) s, s) \<in> measure length"
    by simp
qed simp

declare trim_right_space.simps [simp del]

definition trim_space :: "string \<Rightarrow> string" where
  "trim_space s = trim_right_space (trim_left_space s)"

text \<open>A string without a white-space rune at any position.\<close>

definition no_space :: "string \<Rightarrow> bool" where
  "no_space f \<longleftrightarrow> (\<forall>k < length f. space_len (drop k f) = 0)"

lemma space_len_zero_iff: "space_len s = 0 \<longleftrightarrow> (\<forall>q \<in> set space_seqs. \<not> has_prefix q s)"
proof
  assume "space_len s = 0"
  then have "find (\<lambda>q. has_prefix q s) space_seqs = None \<or>
      find (\<lambda>q. has_prefix q s) space_seqs = Some []"
    by (auto simp: space_len_def split: option.splits)
  moreover have "find (\<lambda>q. has_prefix q s) space_seqs \<noteq> Some []"
    by (auto simp: find_Some_iff space_seqs_def nth_Cons split: nat.splits)
  ultimately show "\<forall>q \<in> set space_seqs. \<not> has_prefix q s"
    by (simp add: find_None_iff)
next
  assume "\<forall>q \<in> set space_seqs. \<not> has_prefix q s"
  then have "find (\<lambda>q. has_prefix q s) space_seqs = None"
    by (simp add: find_None_iff)
  then show "space_len s = 0"
    by (simp add: space_len_def)
qed

lemma space_len_prefix_zero: "space_len (s @ t) = 0 \<Longrightarrow> space_len s = 0"
  by (auto simp: space_len_zero_iff has_prefix_extend)

lemma space_len_blank [simp]: "space_len (CHR '' '' # s) = 1"
  by (simp add: space_len_def space_seqs_def)

lemma no_space_Nil [simp]: "no_space []"
  by (simp add: no_space_def)

lemma no_space_Cons: "no_space (c # s) \<longleftrightarrow> space_len (c # s) = 0 \<and> no_space s"
  unfolding no_space_def by (auto simp: nth_Cons split: nat.splits) (metis Suc_less_eq drop_Suc_Cons
      gr0_conv_Suc drop0 not_less_eq less_Suc_eq_0_disj)

text \<open>Every field is a nonempty string without white space.\<close>

lemma fields_go_no_space:
  assumes "\<forall>k < length cur. space_len (drop k cur @ drop j s) = 0" "j = 0 \<or> cur = []"
    and "f \<in> set (fields_go cur j s)"
  shows "f \<noteq> [] \<and> no_space f"
  using assms
proof (induction cur j s rule: fields_go.induct)
  case (1 cur k)
  then show ?case by (auto simp: no_space_def split: if_splits)
next
  case (2 cur k c s)
  then show ?case by simp
next
  case (3 cur c s)
  show ?case
  proof (cases "space_len (c # s)")
    case 0
    have "space_len (drop k (cur @ [c]) @ drop 0 s) = 0" if "k < length (cur @ [c])" for k
      using that 0 "3.prems"(1) by (cases "k = length cur") auto
    then show ?thesis
      using "3.IH"(1) [OF 0] "3.prems"(3) 0 by simp
  next
    case (Suc n)
    have "f = cur \<and> cur \<noteq> [] \<or> f \<in> set (fields_go [] n s)"
      using "3.prems"(3) Suc by (auto split: if_splits)
    moreover have "no_space cur"
      using "3.prems"(1) by (auto simp: no_space_def dest: space_len_prefix_zero)
    ultimately show ?thesis
      using "3.IH"(2) [OF Suc] by auto
  qed
qed

lemma fields_no_space: "f \<in> set (fields s) \<Longrightarrow> f \<noteq> [] \<and> no_space f"
  unfolding fields_def by (rule fields_go_no_space) auto

lemma fields_go_word:
  "no_space w \<Longrightarrow> fields_go cur 0 w = (if cur @ w = [] then [] else [cur @ w])"
  by (induction w arbitrary: cur) (auto simp: no_space_Cons)

lemma fields_word [simp]: "no_space w \<Longrightarrow> w \<noteq> [] \<Longrightarrow> fields w = [w]"
  by (simp add: fields_def fields_go_word)

section \<open>Splitting and joining\<close>

fun split_go :: "char \<Rightarrow> string \<Rightarrow> string \<Rightarrow> string list" where
  "split_go sep cur [] = [cur]"
| "split_go sep cur (c # s) =
     (if c = sep then cur # split_go sep [] s else split_go sep (cur @ [c]) s)"

text \<open>\<open>strings.Split\<close> for a separator of one byte: never an empty list.\<close>

definition split_on :: "char \<Rightarrow> string \<Rightarrow> string list" where
  "split_on sep s = split_go sep [] s"

fun join :: "string \<Rightarrow> string list \<Rightarrow> string" where
  "join sep [] = []"
| "join sep [x] = x"
| "join sep (x # y # xs) = x @ sep @ join sep (y # xs)"

lemma join_Cons: "join sep (x # xs) = (if xs = [] then x else x @ sep @ join sep xs)"
  by (cases xs) auto

lemma split_go_nonempty [simp]: "split_go sep cur s \<noteq> []"
  by (induction sep cur s rule: split_go.induct) auto

lemma join_split_go: "join [sep] (split_go sep cur s) = cur @ s"
  by (induction sep cur s rule: split_go.induct) (auto simp: join_Cons)

lemma join_split: "join [sep] (split_on sep s) = s"
  by (simp add: split_on_def join_split_go)

lemma split_go_no_sep: "sep \<notin> set x \<Longrightarrow> split_go sep cur (x @ s) = split_go sep (cur @ x) s"
  by (induction x arbitrary: cur) auto

lemma split_go_end: "sep \<notin> set x \<Longrightarrow> split_go sep cur x = [cur @ x]"
  using split_go_no_sep [of sep x cur "[]"] by simp

lemma split_join:
  "xs \<noteq> [] \<Longrightarrow> \<forall>x \<in> set xs. sep \<notin> set x \<Longrightarrow> split_on sep (join [sep] xs) = xs"
proof (induction xs)
  case Nil
  then show ?case by simp
next
  case (Cons x xs)
  then show ?case
    by (cases xs) (simp_all add: split_on_def split_go_end split_go_no_sep)
qed

lemma split_go_parts: "sep \<notin> set cur \<Longrightarrow> p \<in> set (split_go sep cur s) \<Longrightarrow> sep \<notin> set p"
  by (induction sep cur s rule: split_go.induct) (auto split: if_splits)

lemma split_on_parts: "p \<in> set (split_on sep s) \<Longrightarrow> sep \<notin> set p"
  unfolding split_on_def by (rule split_go_parts) auto

lemma join_append: "xs \<noteq> [] \<Longrightarrow> ys \<noteq> [] \<Longrightarrow> join sep (xs @ ys) = join sep xs @ sep @ join sep ys"
  by (induction xs rule: list_nonempty_induct) (simp_all add: join_Cons)

lemma join_snoc: "join sep (xs @ [x]) = (if xs = [] then x else join sep xs @ sep @ x)"
  by (simp add: join_append)

text \<open>
  \<open>strings.ToLower\<close>, as far as ASCII letters come out: the capital letters, and the two other runes whose
  small letter is in ASCII (U+0130 and U+212A). Other runes are left as they are.
\<close>

fun lower_runes :: "string \<Rightarrow> string" where
  "lower_runes [] = []"
| "lower_runes (c # s) =
     (let n = of_char c :: nat
      in if c = CHR 0xC4 \<and> has_prefix [CHR 0xB0] s then CHR ''i'' # lower_runes (drop 1 s)
         else if c = CHR 0xE2 \<and> has_prefix [CHR 0x84, CHR 0xAA] s then CHR ''k'' # lower_runes (drop 2 s)
         else (if 65 \<le> n \<and> n \<le> 90 then char_of (n + 32) else c) # lower_runes s)"

end
