(* ===== verification/Auth_Registry.thy ===== *)
theory Auth_Registry
  imports Go_Strings
begin

text \<open>
  \<open>internal/security/auth_registry.go\<close>: which devices hold tokens and which workspaces they are bound to.

  Every mutator ends by saving the registry; whether that succeeds is the argument \<open>sv\<close>, and a failure is
  returned although the change stays in memory, as in the code. What the file held is the datatype
  \<open>registry_file\<close>. Where a loop over a map fixes the order of a result, the order is an argument.
  A nil map of a workspace and an empty one are treated alike by the code and are one value here.
\<close>

record device_session =
  ds_device :: string
  ds_refresh :: string
  RefreshExpiresAt :: time
  ds_access :: string
  AccessExpiresAt :: time
  UpdatedAt :: time

record auth_registry =
  Devices :: "(string, device_session) gomap"
  Workspaces :: "(string, (string, time) gomap) gomap"

definition authRegistryVersion :: int where
  "authRegistryVersion = 1"

datatype registry_file =
    No_path
  | Not_exist
  | Unreadable
  | Bad_json
  | Stored int "(string, device_session) gomap option" "(string, (string, time) gomap) gomap option"

definition empty_registry :: auth_registry where
  "empty_registry = \<lparr>Devices = [], Workspaces = []\<rparr>"

text \<open>The second component tells whether an error is returned beside the registry.\<close>

definition LoadAuthRegistry :: "registry_file \<Rightarrow> auth_registry \<times> bool" where
  "LoadAuthRegistry f =
     (case f of
        No_path \<Rightarrow> (empty_registry, False)
      | Not_exist \<Rightarrow> (empty_registry, False)
      | Unreadable \<Rightarrow> (empty_registry, True)
      | Bad_json \<Rightarrow> (empty_registry, True)
      | Stored v devs wss \<Rightarrow>
          if v \<noteq> authRegistryVersion then (empty_registry, False)
          else (\<lparr>Devices = (case devs of Some d \<Rightarrow> d | None \<Rightarrow> []),
                 Workspaces = (case wss of Some w \<Rightarrow> w | None \<Rightarrow> [])\<rparr>, False))"

datatype registry_error = No_device_id | No_workspace_id | Not_registered string | Save_failed

definition saved :: "bool \<Rightarrow> registry_error option" where
  "saved sv = (if sv then None else Some Save_failed)"

definition RegisterDevice ::
  "bool \<Rightarrow> time \<Rightarrow> string \<Rightarrow> string \<Rightarrow> time \<Rightarrow> string \<Rightarrow> time \<Rightarrow> auth_registry \<Rightarrow> registry_error option \<times> auth_registry" where
  "RegisterDevice sv now dev refreshNonce refreshExpiry accessNonce accessExpiry r =
     (if dev = [] then (Some No_device_id, r)
      else (saved sv, r\<lparr>Devices := mput dev
        \<lparr>ds_device = dev, ds_refresh = refreshNonce, RefreshExpiresAt = refreshExpiry,
         ds_access = accessNonce, AccessExpiresAt = accessExpiry, UpdatedAt = now\<rparr> (Devices r)\<rparr>))"

definition BindWorkspace ::
  "bool \<Rightarrow> time \<Rightarrow> string \<Rightarrow> string \<Rightarrow> auth_registry \<Rightarrow> registry_error option \<times> auth_registry" where
  "BindWorkspace sv now dev ws r =
     (if dev = [] then (Some No_device_id, r)
      else if ws = [] then (Some No_workspace_id, r)
      else if \<not> mem_key dev (Devices r) then (Some (Not_registered dev), r)
      else (let bound = (case mget (Workspaces r) ws of Some b \<Rightarrow> b | None \<Rightarrow> [])
            in (saved sv, r\<lparr>Workspaces := mput ws (mput dev now bound) (Workspaces r)\<rparr>)))"

definition UnbindWorkspace :: "bool \<Rightarrow> string \<Rightarrow> auth_registry \<Rightarrow> registry_error option \<times> auth_registry" where
  "UnbindWorkspace sv ws r =
     (if ws = [] then (Some No_workspace_id, r)
      else (saved sv, r\<lparr>Workspaces := mdel ws (Workspaces r)\<rparr>))"

text \<open>The loop of \<open>pruneDeviceBindingsLocked\<close>, over the workspaces in the order they are visited.\<close>

fun prune_loop ::
  "string \<Rightarrow> string list \<Rightarrow> (string, (string, time) gomap) gomap \<Rightarrow> string list \<times> (string, (string, time) gomap) gomap" where
  "prune_loop dev [] w = ([], w)"
| "prune_loop dev (ws # order) w =
     (case mget w ws of
        None \<Rightarrow> prune_loop dev order w
      | Some bound \<Rightarrow>
          if mdel dev bound = [] then
            (let (orphaned, w') = prune_loop dev order (mdel ws w) in (ws # orphaned, w'))
          else prune_loop dev order (mput ws (mdel dev bound) w))"

definition pruneDeviceBindingsLocked :: "string \<Rightarrow> string list \<Rightarrow> auth_registry \<Rightarrow> string list \<times> auth_registry" where
  "pruneDeviceBindingsLocked dev order r =
     (let (orphaned, w) = prune_loop dev order (Workspaces r) in (orphaned, r\<lparr>Workspaces := w\<rparr>))"

definition RemoveDevice ::
  "bool \<Rightarrow> string list \<Rightarrow> string \<Rightarrow> auth_registry \<Rightarrow> string list \<times> registry_error option \<times> auth_registry" where
  "RemoveDevice sv order dev r =
     (if dev = [] then ([], Some No_device_id, r)
      else (let r1 = r\<lparr>Devices := mdel dev (Devices r)\<rparr>;
                (orphaned, r2) = pruneDeviceBindingsLocked dev order r1
            in (orphaned, saved sv, r2)))"

definition expired_session :: "time \<Rightarrow> device_session \<Rightarrow> bool" where
  "expired_session now d \<longleftrightarrow> RefreshExpiresAt d = zero_time \<or> \<not> RefreshExpiresAt d > now"

text \<open>Each expired device visits the workspaces that are left, in an order of its own.\<close>

fun prune_devices :: "(string \<Rightarrow> string list) \<Rightarrow> string list \<Rightarrow> auth_registry \<Rightarrow> string list \<times> auth_registry" where
  "prune_devices orders [] r = ([], r)"
| "prune_devices orders (dev # devs) r =
     (let r1 = r\<lparr>Devices := mdel dev (Devices r)\<rparr>;
          (o1, r2) = pruneDeviceBindingsLocked dev (orders dev) r1;
          (o2, r3) = prune_devices orders devs r2
      in (o1 @ o2, r3))"

definition PruneExpired ::
  "bool \<Rightarrow> string list \<Rightarrow> (string \<Rightarrow> string list) \<Rightarrow> time \<Rightarrow> auth_registry \<Rightarrow>
     string list \<times> string list \<times> registry_error option \<times> auth_registry" where
  "PruneExpired sv dev_order orders now r =
     (let expired = map fst (filter (\<lambda>(_, d). expired_session now d) (range_entries dev_order (Devices r)));
          (orphaned, r') = prune_devices orders expired r
      in if expired = [] then ([], [], None, r) else (expired, orphaned, saved sv, r'))"

definition IsRefreshNonceValid :: "string \<Rightarrow> string \<Rightarrow> auth_registry \<Rightarrow> bool" where
  "IsRefreshNonceValid dev nonce r =
     (case mget (Devices r) dev of None \<Rightarrow> False | Some d \<Rightarrow> ds_refresh d = nonce)"

definition GetDevice :: "string \<Rightarrow> auth_registry \<Rightarrow> device_session option" where
  "GetDevice dev r = mget (Devices r) dev"

section \<open>Bindings\<close>

text \<open>The devices a workspace is bound to.\<close>

definition bound_to :: "auth_registry \<Rightarrow> string \<Rightarrow> string set" where
  "bound_to r ws = (case mget (Workspaces r) ws of None \<Rightarrow> {} | Some b \<Rightarrow> {d. mget b d \<noteq> None})"

definition registry_ok :: "auth_registry \<Rightarrow> bool" where
  "registry_ok r \<longleftrightarrow>
     wf_map (Devices r) \<and> wf_map (Workspaces r) \<and>
     (\<forall>dev d. mget (Devices r) dev = Some d \<longrightarrow> ds_device d = dev) \<and>
     (\<forall>ws b. mget (Workspaces r) ws = Some b \<longrightarrow> b \<noteq> []) \<and>
     (\<forall>ws. bound_to r ws \<subseteq> {dev. mget (Devices r) dev \<noteq> None})"

lemma prune_loop_spec:
  assumes "distinct order"
  shows "mget (snd (prune_loop dev order w)) ws =
      (if ws \<in> set order
       then (case mget w ws of None \<Rightarrow> None | Some b \<Rightarrow> if mdel dev b = [] then None else Some (mdel dev b))
       else mget w ws) \<and>
    set (fst (prune_loop dev order w)) = {k \<in> set order. \<exists>b. mget w k = Some b \<and> mdel dev b = []}"
  using assms
proof (induction order arbitrary: w)
  case Nil
  then show ?case by simp
next
  case (Cons k ks)
  have k: "k \<notin> set ks" "distinct ks" using Cons.prems by auto
  show ?case
  proof (cases "mget w k")
    case None
    have "{j \<in> set (k # ks). \<exists>c. mget w j = Some c \<and> mdel dev c = []} =
        {j \<in> set ks. \<exists>c. mget w j = Some c \<and> mdel dev c = []}"
      using None by auto
    then show ?thesis
      using Cons.IH [OF k(2), of w] k(1) None by (cases "ws = k") simp_all
  next
    case (Some b)
    define w1 where "w1 = (if mdel dev b = [] then mdel k w else mput k (mdel dev b) w)"
    have run: "prune_loop dev (k # ks) w = (let (orphaned, w') = prune_loop dev ks w1
        in (if mdel dev b = [] then k # orphaned else orphaned, w'))"
      using Some by (simp add: w1_def Let_def split: prod.split)
    have other: "mget w1 j = mget w j" if "j \<noteq> k" for j
      using that by (simp add: w1_def)
    have self: "mget w1 k = (if mdel dev b = [] then None else Some (mdel dev b))"
      by (simp add: w1_def)
    have orphans: "{j \<in> set ks. \<exists>c. mget w1 j = Some c \<and> mdel dev c = []} =
        {j \<in> set ks. \<exists>c. mget w j = Some c \<and> mdel dev c = []}"
      using k(1) other by (intro Collect_cong conj_cong refl) (metis)
    obtain os w2 where r: "prune_loop dev ks w1 = (os, w2)" by fastforce
    have fin: "prune_loop dev (k # ks) w = (if mdel dev b = [] then k # os else os, w2)"
      using run r by simp
    have os: "set os = {j \<in> set ks. \<exists>c. mget w j = Some c \<and> mdel dev c = []}"
      using Cons.IH [OF k(2), of w1] r orphans by simp
    have w2: "mget w2 ws = (if ws \<in> set ks
        then (case mget w1 ws of None \<Rightarrow> None | Some b \<Rightarrow> if mdel dev b = [] then None else Some (mdel dev b))
        else mget w1 ws)"
      using Cons.IH [OF k(2), of w1] r by simp
    have "{j \<in> set (k # ks). \<exists>c. mget w j = Some c \<and> mdel dev c = []} =
        (if mdel dev b = [] then {k} else {}) \<union> set os"
      using Some os by auto
    moreover have "mget w2 ws = (if ws \<in> set (k # ks)
       then (case mget w ws of None \<Rightarrow> None | Some b \<Rightarrow> if mdel dev b = [] then None else Some (mdel dev b))
       else mget w ws)"
      using w2 self other [of ws] k(1) Some by (cases "ws = k") simp_all
    ultimately show ?thesis unfolding fin by simp
  qed
qed

lemma wf_prune_loop [invs]: "wf_map w \<Longrightarrow> wf_map (snd (prune_loop dev order w))"
  by (induction dev order w rule: prune_loop.induct)
     (auto simp: case_prod_unfold Let_def split: option.split)

lemma mdel_empty_iff: "mdel dev b = [] \<longleftrightarrow> (\<forall>k. mget b k \<noteq> None \<longrightarrow> k = dev)"
proof
  assume "mdel dev b = []"
  then show "\<forall>k. mget b k \<noteq> None \<longrightarrow> k = dev"
    using mget_mdel [of dev b] by (metis map_of.simps(1))
next
  assume "\<forall>k. mget b k \<noteq> None \<longrightarrow> k = dev"
  then have "mget (mdel dev b) k = None" for k by auto
  then show "mdel dev b = []" by (metis map_of_eq_empty_iff ext)
qed

lemma prune_bound:
  assumes "valid_order order (Workspaces r)"
  shows "bound_to (snd (pruneDeviceBindingsLocked dev order r)) ws = bound_to r ws - {dev}"
    and "set (fst (pruneDeviceBindingsLocked dev order r)) =
      {ws. mget (Workspaces r) ws \<noteq> None \<and> bound_to r ws \<subseteq> {dev}}"
proof -
  have d: "distinct order" "ws' \<in> set order \<longleftrightarrow> mget (Workspaces r) ws' \<noteq> None" for ws'
    using assms keys_mget [of ws' "Workspaces r"] by (auto simp: valid_order_def)
  obtain os w where p: "prune_loop dev order (Workspaces r) = (os, w)" by fastforce
  have "mget w ws = (if ws \<in> set order
       then (case mget (Workspaces r) ws of None \<Rightarrow> None | Some b \<Rightarrow> if mdel dev b = [] then None else Some (mdel dev b))
       else mget (Workspaces r) ws)"
    using prune_loop_spec [OF d(1), of dev "Workspaces r" ws] p by simp
  moreover have "{d. mget b d \<noteq> None} - {dev} = (if mdel dev b = [] then {} else {d. mget (mdel dev b) d \<noteq> None})"
    for b :: "(string, time) gomap"
    using mdel_empty_iff [of dev b] by auto
  ultimately show "bound_to (snd (pruneDeviceBindingsLocked dev order r)) ws = bound_to r ws - {dev}"
    using d(2) [of ws]
    by (cases "mget (Workspaces r) ws"; cases "mdel dev (the (mget (Workspaces r) ws)) = []")
       (simp_all add: pruneDeviceBindingsLocked_def p bound_to_def)
  have "set os = {k \<in> set order. \<exists>b. mget (Workspaces r) k = Some b \<and> mdel dev b = []}"
    using prune_loop_spec [OF d(1), of dev "Workspaces r" ws] p by simp
  then show "set (fst (pruneDeviceBindingsLocked dev order r)) =
      {ws. mget (Workspaces r) ws \<noteq> None \<and> bound_to r ws \<subseteq> {dev}}"
    using d(2) by (auto simp: pruneDeviceBindingsLocked_def p bound_to_def mdel_empty_iff subset_eq)
qed

lemma prune_Devices [simp]: "Devices (snd (pruneDeviceBindingsLocked dev order r)) = Devices r"
  by (simp add: pruneDeviceBindingsLocked_def case_prod_unfold Let_def)

lemma prune_nonempty:
  assumes "\<forall>ws b. mget (Workspaces r) ws = Some b \<longrightarrow> b \<noteq> []" "valid_order order (Workspaces r)"
  shows "\<forall>ws b. mget (Workspaces (snd (pruneDeviceBindingsLocked dev order r))) ws = Some b \<longrightarrow> b \<noteq> []"
proof (intro allI impI)
  fix ws b
  assume b: "mget (Workspaces (snd (pruneDeviceBindingsLocked dev order r))) ws = Some b"
  have d: "distinct order" using assms(2) by (simp add: valid_order_def)
  show "b \<noteq> []"
    using b prune_loop_spec [OF d, of dev "Workspaces r" ws] assms(1)
    by (auto simp: pruneDeviceBindingsLocked_def case_prod_unfold Let_def split: option.splits if_splits)
qed

lemma prune_ok:
  assumes "registry_ok r" "valid_order order (Workspaces r)"
  shows "registry_ok (snd (pruneDeviceBindingsLocked dev order (r\<lparr>Devices := mdel dev (Devices r)\<rparr>)))"
proof -
  let ?r = "r\<lparr>Devices := mdel dev (Devices r)\<rparr>"
  have vo: "valid_order order (Workspaces ?r)" using assms(2) by simp
  have "bound_to ?r ws = bound_to r ws" for ws by (simp add: bound_to_def)
  then have "bound_to (snd (pruneDeviceBindingsLocked dev order ?r)) ws \<subseteq> {d. mget (Devices ?r) d \<noteq> None}" for ws
    using prune_bound(1) [OF vo, of dev ws] assms(1) by (auto simp: registry_ok_def)
  moreover have "wf_map (Workspaces (snd (pruneDeviceBindingsLocked dev order ?r)))"
    using assms(1) wf_prune_loop [of "Workspaces r" dev order]
    by (simp add: registry_ok_def pruneDeviceBindingsLocked_def case_prod_unfold Let_def)
  ultimately show ?thesis
    using assms(1) prune_nonempty [OF _ vo, of dev] by (simp add: registry_ok_def)
qed

lemma registry_ok_empty: "registry_ok empty_registry"
  by (simp add: registry_ok_def empty_registry_def bound_to_def)

lemma RegisterDevice_ok [invs]: "registry_ok r \<Longrightarrow> registry_ok (snd (RegisterDevice sv now dev rn re an ae r))"
  by (auto simp: registry_ok_def RegisterDevice_def bound_to_def)

lemma mput_nonempty [simp]: "mput k v m \<noteq> []"
  by (cases m) (auto split: if_splits)

lemma BindWorkspace_ok [invs]: "registry_ok r \<Longrightarrow> registry_ok (snd (BindWorkspace sv now dev ws r))"
proof -
  assume ok: "registry_ok r"
  have "bound_to (snd (BindWorkspace sv now dev ws r)) ws' =
      (if ws' = ws \<and> dev \<noteq> [] \<and> ws \<noteq> [] \<and> mem_key dev (Devices r) then insert dev (bound_to r ws) else bound_to r ws')" for ws'
    by (auto simp: BindWorkspace_def bound_to_def Let_def split: option.split)
  then have "bound_to (snd (BindWorkspace sv now dev ws r)) ws' \<subseteq> {d. mget (Devices r) d \<noteq> None}" for ws'
    using ok by (auto simp: registry_ok_def mem_key_def)
  note sub = this
  show ?thesis
  proof (cases "dev \<noteq> [] \<and> ws \<noteq> [] \<and> mem_key dev (Devices r)")
    case True
    then show ?thesis
      using ok sub by (simp add: registry_ok_def BindWorkspace_def Let_def)
  qed (use ok in \<open>auto simp: BindWorkspace_def\<close>)
qed

lemma UnbindWorkspace_ok [invs]: "registry_ok r \<Longrightarrow> registry_ok (snd (UnbindWorkspace sv ws r))"
  by (auto simp: registry_ok_def UnbindWorkspace_def bound_to_def)

lemma RemoveDevice_ok [invs]:
  "registry_ok r \<Longrightarrow> valid_order order (Workspaces r) \<Longrightarrow> registry_ok (snd (snd (RemoveDevice sv order dev r)))"
  using prune_ok [of r order dev] by (simp add: RemoveDevice_def case_prod_unfold Let_def)

text \<open>The orders of a \<open>PruneExpired\<close> visit, device by device, the workspaces that are left.\<close>

fun orders_ok :: "(string \<Rightarrow> string list) \<Rightarrow> string list \<Rightarrow> auth_registry \<Rightarrow> bool" where
  "orders_ok orders [] r = True"
| "orders_ok orders (dev # devs) r =
     (valid_order (orders dev) (Workspaces r) \<and>
      orders_ok orders devs (snd (pruneDeviceBindingsLocked dev (orders dev) (r\<lparr>Devices := mdel dev (Devices r)\<rparr>))))"

lemma prune_devices_spec:
  assumes "registry_ok r" "orders_ok orders devs r"
  shows "registry_ok (snd (prune_devices orders devs r)) \<and>
    (\<forall>d. mget (Devices (snd (prune_devices orders devs r))) d = (if d \<in> set devs then None else mget (Devices r) d)) \<and>
    (\<forall>ws. bound_to (snd (prune_devices orders devs r)) ws = bound_to r ws - set devs)"
  using assms
proof (induction devs arbitrary: r)
  case Nil
  then show ?case by simp
next
  case (Cons dev devs)
  let ?rd = "r\<lparr>Devices := mdel dev (Devices r)\<rparr>"
  let ?r = "snd (pruneDeviceBindingsLocked dev (orders dev) ?rd)"
  have vo: "valid_order (orders dev) (Workspaces r)" and oo: "orders_ok orders devs ?r"
    using Cons.prems(2) by simp_all
  have ok: "registry_ok ?r" using prune_ok [OF Cons.prems(1) vo] .
  have "bound_to ?rd ws = bound_to r ws" for ws by (simp add: bound_to_def)
  then have b: "bound_to ?r ws = bound_to r ws - {dev}" for ws
    using prune_bound(1) [of "orders dev" ?rd dev ws] vo by simp
  show ?case
    using Cons.IH [OF ok oo] b by (auto simp: case_prod_unfold Let_def)
qed

lemma RemoveDevice_effect:
  assumes "registry_ok r" "valid_order order (Workspaces r)" "dev \<noteq> []"
    and "RemoveDevice sv order dev r = (orphaned, err, r')"
  shows "mget (Devices r') dev = None \<and> (\<forall>ws. bound_to r' ws = bound_to r ws - {dev}) \<and>
    set orphaned = {ws. bound_to r ws = {dev}} \<and> (\<forall>d. d \<noteq> dev \<longrightarrow> GetDevice d r' = GetDevice d r)"
proof -
  let ?r = "r\<lparr>Devices := mdel dev (Devices r)\<rparr>"
  have vo: "valid_order order (Workspaces ?r)" using assms(2) by simp
  have r': "r' = snd (pruneDeviceBindingsLocked dev order ?r)"
    and o: "orphaned = fst (pruneDeviceBindingsLocked dev order ?r)"
    using assms(3,4) by (simp_all add: RemoveDevice_def case_prod_unfold Let_def)
  have same: "bound_to ?r ws = bound_to r ws" for ws by (simp add: bound_to_def)
  have "mget (Workspaces r) ws \<noteq> None \<longleftrightarrow> bound_to r ws \<noteq> {}" for ws
  proof (cases "mget (Workspaces r) ws")
    case (Some b)
    then have "b \<noteq> []" using assms(1) by (simp add: registry_ok_def)
    then obtain k v b' where "b = (k, v) # b'" by (cases b) auto
    then have "mget b k = Some v" by simp
    then show ?thesis using Some by (auto simp: bound_to_def)
  qed (simp add: bound_to_def)
  then have "set orphaned = {ws. bound_to r ws = {dev}}"
    using prune_bound(2) [OF vo, of dev] same o by auto
  then show ?thesis
    using prune_bound(1) [OF vo, of dev] same r' by (simp add: GetDevice_def)
qed

text \<open>
  Removing a device releases exactly its bindings: afterwards the device is gone, every workspace is bound
  to the devices it was bound to except this one, and the workspaces reported as orphaned are exactly those
  that no other device was bound to.
\<close>

theorem RemoveDevice_releases:
  assumes "registry_ok r" "valid_order order (Workspaces r)" "dev \<noteq> []"
    and "RemoveDevice sv order dev r = (orphaned, err, r')"
  shows "mget (Devices r') dev = None \<and> (\<forall>ws. bound_to r' ws = bound_to r ws - {dev}) \<and>
    set orphaned = {ws. bound_to r ws = {dev}} \<and> (\<forall>d. d \<noteq> dev \<longrightarrow> GetDevice d r' = GetDevice d r)"
  using assms by (rule RemoveDevice_effect)

text \<open>
  Pruning removes exactly the devices whose refresh token has expired (or has no expiry) with all their
  bindings, and leaves every other device and binding; bindings to devices that are not registered
  never arise.
\<close>

theorem PruneExpired_removes:
  assumes "registry_ok r" "valid_order dev_order (Devices r)"
    and "orders_ok orders (map fst (filter (\<lambda>(_, d). expired_session now d) (range_entries dev_order (Devices r)))) r"
    and "PruneExpired sv dev_order orders now r = (expired, orphaned, err, r')"
  shows "set expired = {dev. \<exists>d. GetDevice dev r = Some d \<and> expired_session now d} \<and>
    (\<forall>dev. GetDevice dev r' = (if dev \<in> set expired then None else GetDevice dev r)) \<and>
    (\<forall>ws. bound_to r' ws = bound_to r ws - set expired) \<and> registry_ok r'"
proof -
  define E where "E = map fst (filter (\<lambda>(_, d). expired_session now d) (range_entries dev_order (Devices r)))"
  have wf: "wf_map (Devices r)" using assms(1) by (simp add: registry_ok_def)
  have E: "set E = {dev. \<exists>d. GetDevice dev r = Some d \<and> expired_session now d}"
    using set_range_entries [OF assms(2) wf] by (force simp: E_def GetDevice_def mget_iff_in_set [OF wf])
  note spec = prune_devices_spec [OF assms(1,3), folded E_def]
  have r': "expired = E" "r' = (if E = [] then r else snd (prune_devices orders E r))"
    using assms(4) by (auto simp: PruneExpired_def E_def Let_def case_prod_unfold split: if_splits)
  show ?thesis
    unfolding r'(1) E [symmetric] using spec r'(2) assms(1) by (cases "E = []") (simp_all add: GetDevice_def)
qed

definition demo_registry :: auth_registry where
  "demo_registry = snd (BindWorkspace True 5 ''a'' ''w''
     (snd (RegisterDevice True 1 ''b'' ''r2'' 900 ''x2'' 100
       (snd (RegisterDevice True 1 ''a'' ''r1'' 50 ''x1'' 40 empty_registry)))))"

lemma demo_registry_ok: "registry_ok demo_registry"
  by (simp add: demo_registry_def invs registry_ok_empty)

lemmas demo_registry_eval = demo_registry_def BindWorkspace_def RegisterDevice_def empty_registry_def mem_key_def

lemma demo_registry_order: "valid_order [''w''] (Workspaces demo_registry)" "valid_order [''a'', ''b''] (Devices demo_registry)"
  by (simp_all add: valid_order_def demo_registry_eval)

lemma RemoveDevice_releases_witness:
  "let (orphaned, err, r') = RemoveDevice True [''w''] ''a'' demo_registry
   in mget (Devices r') ''a'' = None \<and> (\<forall>ws. bound_to r' ws = bound_to demo_registry ws - {''a''}) \<and>
    set orphaned = {ws. bound_to demo_registry ws = {''a''}} \<and>
    (\<forall>d. d \<noteq> ''a'' \<longrightarrow> GetDevice d r' = GetDevice d demo_registry)"
proof -
  obtain os err r' where run: "RemoveDevice True [''w''] ''a'' demo_registry = (os, err, r')"
    by (cases "RemoveDevice True [''w''] ''a'' demo_registry") auto
  show ?thesis
    unfolding run using RemoveDevice_releases [OF demo_registry_ok demo_registry_order(1) _ run] by simp
qed

lemma PruneExpired_removes_witness:
  "let (expired, orphaned, err, r') = PruneExpired True [''a'', ''b''] (\<lambda>_. [''w'']) 100 demo_registry
   in set expired = {dev. \<exists>d. GetDevice dev demo_registry = Some d \<and> expired_session 100 d} \<and>
    (\<forall>dev. GetDevice dev r' = (if dev \<in> set expired then None else GetDevice dev demo_registry)) \<and>
    (\<forall>ws. bound_to r' ws = bound_to demo_registry ws - set expired) \<and> registry_ok r'"
proof -
  have "orders_ok (\<lambda>_. [''w'']) (map fst (filter (\<lambda>(_, d). expired_session 100 d)
      (range_entries [''a'', ''b''] (Devices demo_registry)))) demo_registry"
    by (simp add: demo_registry_eval range_entries_def expired_session_def valid_order_def zero_time_def second_def)
  note run = PruneExpired_removes [OF demo_registry_ok demo_registry_order(2) this]
  obtain ex os err r' where eq: "PruneExpired True [''a'', ''b''] (\<lambda>_. [''w'']) 100 demo_registry = (ex, os, err, r')"
    by (cases "PruneExpired True [''a'', ''b''] (\<lambda>_. [''w'']) 100 demo_registry") auto
  show ?thesis
    unfolding eq using run [OF eq] by simp
qed

end
