(* ===== verification/Go_Path.thy ===== *)
theory Go_Path
  imports Go_Strings
begin

text \<open>
  \<open>path/filepath\<close> on Unix and the UTF-8 decoder of \<open>unicode/utf8\<close>: \<open>Ext\<close>, \<open>Base\<close>, \<open>Dir\<close>,
  \<open>Clean\<close>, \<open>Join\<close>, \<open>Rel\<close> and \<open>Match\<close>, as the permission patterns, the image store and the
  workspace resolver use them.

  \<open>Clean\<close> is computed on the components between the slashes. \<open>Rel\<close> compares the components of the
  two cleaned paths from the left, like the byte loop of the library does. \<open>Match\<close> first reads the
  pattern into tokens (a malformed pattern has none, and never matches) and then matches by structural
  recursion.
\<close>

section \<open>Components\<close>

definition is_abs :: "string \<Rightarrow> bool" where
  "is_abs p \<longleftrightarrow> has_prefix ''/'' p"

text \<open>
  One component of a path, read from the left: empty ones and single dots vanish, two dots remove
  the last kept component unless there is none to remove (then they stay, or vanish at the root).
\<close>

fun clean_step :: "bool \<Rightarrow> string list \<Rightarrow> string \<Rightarrow> string list" where
  "clean_step rooted acc c =
     (if c = [] \<or> c = ''.'' then acc
      else if c = ''..'' then
        (if acc \<noteq> [] \<and> last acc \<noteq> ''..'' then butlast acc
         else if rooted then acc
         else acc @ [c])
      else acc @ [c])"

definition clean_comps :: "string \<Rightarrow> string list" where
  "clean_comps p = foldl (clean_step (is_abs p)) [] (split_on CHR ''/'' p)"

definition render :: "bool \<Rightarrow> string list \<Rightarrow> string" where
  "render rooted cs =
     (if rooted then ''/'' @ join ''/'' cs else if cs = [] then ''.'' else join ''/'' cs)"

definition clean :: "string \<Rightarrow> string" where
  "clean p = render (is_abs p) (clean_comps p)"

text \<open>The bytes up to and including the last slash, and those after it.\<close>

definition after_slash :: "string \<Rightarrow> string" where
  "after_slash p = rev (takeWhile (\<lambda>c. c \<noteq> CHR ''/'') (rev p))"

definition upto_slash :: "string \<Rightarrow> string" where
  "upto_slash p = take (length p - length (after_slash p)) p"

definition path_dir :: "string \<Rightarrow> string" where
  "path_dir p = clean (upto_slash p)"

definition path_base :: "string \<Rightarrow> string" where
  "path_base p =
     (if p = [] then ''.''
      else (let q = rev (dropWhile (\<lambda>c. c = CHR ''/'') (rev p));
                b = after_slash q
            in if b = [] then ''/'' else b))"

text \<open>From the last dot after the last slash, or nothing.\<close>

definition path_ext :: "string \<Rightarrow> string" where
  "path_ext p =
     (let b = after_slash p
      in if CHR ''.'' \<in> set b
         then CHR ''.'' # rev (takeWhile (\<lambda>c. c \<noteq> CHR ''.'') (rev b))
         else [])"

definition path_join :: "string list \<Rightarrow> string" where
  "path_join es =
     (let ne = dropWhile (\<lambda>e. e = []) es
      in if ne = [] then [] else clean (join ''/'' ne))"

section \<open>Relative paths\<close>

text \<open>The components \<open>Rel\<close> compares: a cleaned base of \<open>.\<close> counts as empty, a target does not.\<close>

definition rel_base_comps :: "string \<Rightarrow> string list" where
  "rel_base_comps p = clean_comps p"

definition rel_targ_comps :: "string \<Rightarrow> string list" where
  "rel_targ_comps p = (if \<not> is_abs p \<and> clean_comps p = [] then [''.''] else clean_comps p)"

fun strip_common :: "string list \<Rightarrow> string list \<Rightarrow> string list \<times> string list" where
  "strip_common (b # bs) (t # ts) = (if b = t then strip_common bs ts else (b # bs, t # ts))"
| "strip_common bs ts = (bs, ts)"

definition path_rel :: "string \<Rightarrow> string \<Rightarrow> string option" where
  "path_rel basepath targpath =
     (if clean targpath = clean basepath then Some ''.''
      else if is_abs basepath \<noteq> is_abs targpath then None
      else (case strip_common (rel_base_comps basepath) (rel_targ_comps targpath) of
          (b # bs, ts) \<Rightarrow>
            if b = ''..'' \<and> ts \<noteq> [] then None
            else Some (join ''/'' (replicate (length (b # bs)) ''..'' @ ts))
        | ([], ts) \<Rightarrow> Some (join ''/'' ts)))"

section \<open>UTF-8\<close>

definition cont_byte :: "nat \<Rightarrow> bool" where
  "cont_byte b \<longleftrightarrow> 0x80 \<le> b \<and> b \<le> 0xBF"

text \<open>
  \<open>utf8.DecodeRuneInString\<close>: the rune at the front and its width in bytes; the replacement rune
  65533 with width 1 for a malformed front, with width 0 for the empty string.
\<close>

fun decode_codes :: "nat list \<Rightarrow> nat \<times> nat" where
  "decode_codes [] = (65533, 0)"
| "decode_codes (a # bs) =
     (if a < 0x80 then (a, 1)
      else (case bs of
          [] \<Rightarrow> (65533, 1)
        | b # cs \<Rightarrow>
            if 0xC2 \<le> a \<and> a \<le> 0xDF then
              (if cont_byte b then ((a - 0xC0) * 64 + (b - 0x80), 2) else (65533, 1))
            else if 0xE0 \<le> a \<and> a \<le> 0xEF then
              (case cs of
                 c # ds \<Rightarrow>
                   if cont_byte b \<and> cont_byte c \<and> (a = 0xE0 \<longrightarrow> 0xA0 \<le> b) \<and> (a = 0xED \<longrightarrow> b \<le> 0x9F)
                   then ((a - 0xE0) * 4096 + (b - 0x80) * 64 + (c - 0x80), 3) else (65533, 1)
               | [] \<Rightarrow> (65533, 1))
            else if 0xF0 \<le> a \<and> a \<le> 0xF4 then
              (case cs of
                 c # d # es \<Rightarrow>
                   if cont_byte b \<and> cont_byte c \<and> cont_byte d \<and> (a = 0xF0 \<longrightarrow> 0x90 \<le> b) \<and>
                      (a = 0xF4 \<longrightarrow> b \<le> 0x8F)
                   then ((a - 0xF0) * 262144 + (b - 0x80) * 4096 + (c - 0x80) * 64 + (d - 0x80), 4)
                   else (65533, 1)
               | _ \<Rightarrow> (65533, 1))
            else (65533, 1)))"

definition decode_rune :: "string \<Rightarrow> nat \<times> nat" where
  "decode_rune s = decode_codes (map of_char (take 4 s))"

section \<open>Glob patterns\<close>

datatype glob_token =
    GStar
  | GAny
  | GLit char
  | GClass bool "(nat \<times> nat) list"

text \<open>\<open>getEsc\<close>: one possibly escaped rune of a character class and the rest, which is nonempty.\<close>

definition get_esc :: "string \<Rightarrow> (nat \<times> string) option" where
  "get_esc s =
     (case s of
        [] \<Rightarrow> None
      | c # cs \<Rightarrow>
          if c = CHR ''-'' \<or> c = CHR '']'' then None
          else (let s' = (if c = CHR 0x5C then cs else s) in
            if s' = [] then None
            else (let (r, n) = decode_rune s' in
              if r = 65533 \<and> n = 1 then None
              else if drop n s' = [] then None
              else Some (r, drop n s'))))"

text \<open>The ranges of a class up to its closing bracket; the fuel is the length of the pattern.\<close>

fun class_ranges :: "nat \<Rightarrow> nat \<Rightarrow> string \<Rightarrow> ((nat \<times> nat) list \<times> string) option" where
  "class_ranges 0 k s = None"
| "class_ranges (Suc fuel) k s =
     (if s \<noteq> [] \<and> hd s = CHR '']'' \<and> 0 < k then Some ([], tl s)
      else (case get_esc s of
          None \<Rightarrow> None
        | Some (lo, s1) \<Rightarrow>
            (if hd s1 = CHR ''-'' then
               (case get_esc (tl s1) of
                  None \<Rightarrow> None
                | Some (hi, s2) \<Rightarrow>
                    map_option (apfst (Cons (lo, hi))) (class_ranges fuel (Suc k) s2))
             else map_option (apfst (Cons (lo, lo))) (class_ranges fuel (Suc k) s1))))"

fun glob_tokens :: "nat \<Rightarrow> string \<Rightarrow> glob_token list option" where
  "glob_tokens fuel [] = Some []"
| "glob_tokens 0 (c # s) = None"
| "glob_tokens (Suc fuel) (c # s) =
     (if c = CHR ''*'' then map_option (Cons GStar) (glob_tokens fuel s)
      else if c = CHR ''?'' then map_option (Cons GAny) (glob_tokens fuel s)
      else if c = CHR 0x5C then
        (case s of [] \<Rightarrow> None | d # s' \<Rightarrow> map_option (Cons (GLit d)) (glob_tokens fuel s'))
      else if c = CHR ''['' then
        (let neg = (s \<noteq> [] \<and> hd s = CHR ''^''); body = (if neg then tl s else s) in
          (case class_ranges fuel 0 body of
             None \<Rightarrow> None
           | Some (rs, s') \<Rightarrow> map_option (Cons (GClass neg rs)) (glob_tokens fuel s')))
      else map_option (Cons (GLit c)) (glob_tokens fuel s))"

function (sequential) glob_match :: "glob_token list \<Rightarrow> string \<Rightarrow> bool" where
  "glob_match [] n = (n = [])"
| "glob_match (GStar # p) [] = glob_match p []"
| "glob_match (GStar # p) (c # n) =
     (glob_match p (c # n) \<or> (c \<noteq> CHR ''/'' \<and> glob_match (GStar # p) n))"
| "glob_match (t # p) [] = False"
| "glob_match (GAny # p) (c # n) =
     (c \<noteq> CHR ''/'' \<and> glob_match p (drop (snd (decode_rune (c # n))) (c # n)))"
| "glob_match (GLit d # p) (c # n) = (c = d \<and> glob_match p n)"
| "glob_match (GClass neg rs # p) (c # n) =
     (let (r, w) = decode_rune (c # n)
      in ((\<exists>lh \<in> set rs. fst lh \<le> r \<and> r \<le> snd lh) \<noteq> neg) \<and> glob_match p (drop w (c # n)))"
  by pat_completeness auto
termination
  by (relation "measures [\<lambda>(p, n). length p, \<lambda>(p, n). length n]") auto

definition path_match :: "string \<Rightarrow> string \<Rightarrow> bool" where
  "path_match pattern name =
     (case glob_tokens (Suc (length pattern)) pattern of
        None \<Rightarrow> False
      | Some toks \<Rightarrow> glob_match toks name)"

section \<open>Facts\<close>

lemma after_slash_suffix: "upto_slash p @ after_slash p = p"
proof -
  have "rev p = takeWhile (\<lambda>c. c \<noteq> CHR ''/'') (rev p) @ dropWhile (\<lambda>c. c \<noteq> CHR ''/'') (rev p)"
    by simp
  then have "p = rev (dropWhile (\<lambda>c. c \<noteq> CHR ''/'') (rev p)) @ after_slash p"
    unfolding after_slash_def by (metis rev_append rev_rev_ident)
  then show ?thesis
    unfolding upto_slash_def
    by (metis add_diff_cancel_right' append_eq_conv_conj length_append)
qed

lemma path_ext_suffix: "has_suffix (path_ext p) p"
proof (cases "CHR ''.'' \<in> set (after_slash p)")
  case True
  let ?b = "after_slash p"
  have "dropWhile (\<lambda>c. c \<noteq> CHR ''.'') (rev ?b) \<noteq> []"
    using True by (simp add: dropWhile_eq_Nil_conv)
  then obtain d r where dr: "dropWhile (\<lambda>c. c \<noteq> CHR ''.'') (rev ?b) = d # r"
    by (cases "dropWhile (\<lambda>c. c \<noteq> CHR ''.'') (rev ?b)") auto
  have "d = CHR ''.''"
    using hd_dropWhile [of "\<lambda>c. c \<noteq> CHR ''.''" "rev ?b"] dr by simp
  with dr have r: "dropWhile (\<lambda>c. c \<noteq> CHR ''.'') (rev ?b) = CHR ''.'' # r"
    by simp
  have "rev ?b = takeWhile (\<lambda>c. c \<noteq> CHR ''.'') (rev ?b) @ CHR ''.'' # r"
    using r by (metis takeWhile_dropWhile_id)
  then have "?b = rev r @ CHR ''.'' # rev (takeWhile (\<lambda>c. c \<noteq> CHR ''.'') (rev ?b))"
    by (metis append.assoc append_Cons append_Nil rev.simps(2) rev_append rev_rev_ident)
  then have "\<exists>q. ?b = q @ CHR ''.'' # rev (takeWhile (\<lambda>c. c \<noteq> CHR ''.'') (rev ?b))"
    by (rule exI)
  then have "has_suffix (path_ext p) ?b"
    using True by (simp add: path_ext_def has_suffix_iff Let_def)
  then show ?thesis
    using after_slash_suffix [of p] unfolding has_suffix_iff by (metis append_assoc)
next
  case False
  then show ?thesis by (simp add: path_ext_def)
qed

lemma path_rel_self [simp]: "path_rel p p = Some ''.''"
  by (simp add: path_rel_def)

text \<open>
  Components of a cleaned path: never empty, never a single dot, never containing a slash; two dots
  occur only at the front of a relative path.
\<close>

definition plain_comp :: "string \<Rightarrow> bool" where
  "plain_comp c \<longleftrightarrow> c \<noteq> [] \<and> c \<noteq> ''.'' \<and> c \<noteq> ''..'' \<and> CHR ''/'' \<notin> set c"

fun clean_form :: "bool \<Rightarrow> string list \<Rightarrow> bool" where
  "clean_form rooted [] = True"
| "clean_form rooted (c # cs) =
     (if c = ''..'' then \<not> rooted \<and> clean_form rooted cs else \<forall>x \<in> set (c # cs). plain_comp x)"

lemma clean_form_plain: "\<forall>x \<in> set cs. plain_comp x \<Longrightarrow> clean_form r cs"
  by (cases cs) (auto simp: plain_comp_def)

lemma clean_form_rooted: "clean_form True cs \<longleftrightarrow> (\<forall>x \<in> set cs. plain_comp x)"
  by (cases cs) (auto simp: plain_comp_def)

lemma plain_comp_dots [simp]: "\<not> plain_comp ''..''"
  by (simp add: plain_comp_def)

lemma clean_form_comps: "clean_form r cs \<Longrightarrow> x \<in> set cs \<Longrightarrow> x = ''..'' \<or> plain_comp x"
  by (induction r cs rule: clean_form.induct) (auto split: if_splits)

lemma clean_form_snoc: "clean_form r cs \<Longrightarrow> plain_comp c \<Longrightarrow> clean_form r (cs @ [c])"
proof (induction r cs rule: clean_form.induct)
  case (1 r)
  then show ?case by (intro clean_form_plain) simp
next
  case (2 r d cs)
  then show ?case by (cases "d = ''..''") auto
qed

lemma clean_form_butlast: "clean_form r cs \<Longrightarrow> clean_form r (butlast cs)"
  by (induction r cs rule: clean_form.induct) (auto dest: in_set_butlastD)

lemma clean_form_snoc_dots:
  "clean_form False cs \<Longrightarrow> cs = [] \<or> last cs = ''..'' \<Longrightarrow> clean_form False (cs @ [''..''])"
proof (induction cs)
  case Nil
  then show ?case by simp
next
  case (Cons c cs)
  have "c = ''..''"
  proof (rule ccontr)
    assume "c \<noteq> ''..''"
    then have "plain_comp (last (c # cs))"
      using Cons.prems(1) by (metis clean_form.simps(2) last_in_set list.distinct(1))
    then show False
      using Cons.prems(2) by (simp add: plain_comp_def)
  qed
  then show ?case
    using Cons by (cases cs) auto
qed

lemma clean_step_form:
  assumes "clean_form r acc" "CHR ''/'' \<notin> set c"
  shows "clean_form r (clean_step r acc c)"
proof -
  have "clean_form r (acc @ [''..''])" if "\<not> (acc \<noteq> [] \<and> last acc \<noteq> ''..'')" "\<not> r"
    using that assms(1) clean_form_snoc_dots [of acc] by auto
  then show ?thesis
    using assms by (auto simp: clean_form_butlast clean_form_snoc plain_comp_def)
qed

lemma clean_comps_form: "clean_form (is_abs p) (clean_comps p)"
proof -
  have "clean_form r (foldl (clean_step r) acc cs)"
    if "clean_form r acc" "\<forall>c \<in> set cs. CHR ''/'' \<notin> set c" for r acc cs
    using that by (induction cs arbitrary: acc) (auto simp: clean_step_form simp del: clean_step.simps)
  then show ?thesis
    unfolding clean_comps_def by (simp add: split_on_parts)
qed

lemma strip_common_split:
  "strip_common bs ts = (b, t) \<Longrightarrow> \<exists>c. bs = c @ b \<and> ts = c @ t"
proof (induction bs ts arbitrary: b t rule: strip_common.induct)
  case (1 x bs y ts)
  show ?case
  proof (cases "x = y")
    case True
    then obtain c where "bs = c @ b" "ts = c @ t"
      using 1 by auto
    then show ?thesis
      using True by (metis append_Cons)
  next
    case False
    then show ?thesis using "1.prems" by auto
  qed
qed auto

lemma strip_common_same [simp]: "strip_common (xs @ ys) (xs @ zs) = strip_common ys zs"
  by (induction xs) auto

text \<open>
  Containment: for absolute paths, a relative path that does not begin with two dots means that the
  cleaned target extends the cleaned base component by component.
\<close>

lemma path_rel_contained:
  assumes rel: "path_rel b t = Some r" and inside: "\<not> has_prefix ''..'' r" and abs: "is_abs b"
  shows "is_abs t \<and> (\<exists>rest. clean_comps t = clean_comps b @ rest)"
proof (cases "clean t = clean b")
  case True
  have "is_abs t"
  proof (rule ccontr)
    assume nt: "\<not> is_abs t"
    have "hd (clean b) = CHR ''/''" and "clean b \<noteq> []"
      using abs by (auto simp: clean_def render_def)
    moreover have "clean t = ''.'' \<or> (clean_comps t \<noteq> [] \<and> clean t = join ''/'' (clean_comps t))"
      using nt by (auto simp: clean_def render_def)
    moreover have slash: "hd (join ''/'' cs) \<noteq> CHR ''/''" if "cs \<noteq> []" "clean_form False cs" for cs
    proof -
      have "hd cs = ''..'' \<or> plain_comp (hd cs)"
        using that clean_form_comps by (metis list.set_sel(1))
      then have "hd cs \<noteq> []" "CHR ''/'' \<notin> set (hd cs)"
        by (auto simp: plain_comp_def)
      then have "hd (hd cs) \<noteq> CHR ''/''"
        by (metis list.set_sel(1))
      then show ?thesis
        using that \<open>hd cs \<noteq> []\<close> by (cases cs) (auto simp: join_Cons hd_append)
    qed
    moreover have "clean_form False (clean_comps t)"
      using clean_comps_form [of t] nt by simp
    ultimately have "hd (clean t) \<noteq> CHR ''/''"
      by (elim disjE) auto
    then show False
      using True \<open>hd (clean b) = CHR ''/''\<close> by simp
  qed
  moreover have "join ''/'' (clean_comps t) = join ''/'' (clean_comps b)"
    using True abs \<open>is_abs t\<close> by (simp add: clean_def render_def)
  moreover have "clean_comps t = clean_comps b"
  proof -
    have noslash: "\<forall>x \<in> set (clean_comps q). CHR ''/'' \<notin> set x \<and> x \<noteq> []" if "is_abs q" for q
      using clean_comps_form [of q] that by (auto simp: clean_form_rooted plain_comp_def)
    have empty: "join ''/'' cs = [] \<longleftrightarrow> cs = []" if "\<forall>x \<in> set cs. x \<noteq> []" for cs
      using that by (cases cs) (auto simp: join_Cons)
    show ?thesis
      using calculation(2) noslash [OF abs] noslash [OF \<open>is_abs t\<close>]
        split_join [of "clean_comps t" "CHR ''/''"] split_join [of "clean_comps b" "CHR ''/''"]
        empty [of "clean_comps t"] empty [of "clean_comps b"]
      by metis
  qed
  ultimately show ?thesis by simp
next
  case False
  then have at: "is_abs t"
    using rel abs by (auto simp: path_rel_def split: if_splits)
  obtain x y where sc: "strip_common (rel_base_comps b) (rel_targ_comps t) = (x, y)"
    by (cases "strip_common (rel_base_comps b) (rel_targ_comps t)")
  have "x = []"
  proof (rule ccontr)
    assume "x \<noteq> []"
    then obtain z zs where x: "x = z # zs" by (cases x) auto
    have "r = join ''/'' (''..'' # replicate (length zs) ''..'' @ y)"
      using rel False at abs sc x by (auto simp: path_rel_def split: if_splits)
    then have "has_prefix ''..'' r"
      by (cases "replicate (length zs) ''..'' @ y") (auto simp: join_Cons)
    with inside show False ..
  qed
  then show ?thesis
    using strip_common_split [OF sc] at by (auto simp: rel_base_comps_def rel_targ_comps_def)
qed

text \<open>Cleaning an absolute path with more components behind it, and cleaning twice.\<close>

lemma split_go_sep: "split_go sep cur (p @ sep # q) = split_go sep cur p @ split_go sep [] q"
  by (induction sep cur p rule: split_go.induct) auto

lemma split_on_sep: "split_on sep (p @ sep # q) = split_on sep p @ split_on sep q"
  by (simp add: split_on_def split_go_sep)

lemma foldl_clean_plain:
  "\<forall>c \<in> set cs. plain_comp c \<Longrightarrow> foldl (clean_step r) acc cs = acc @ cs"
  by (induction cs arbitrary: acc) (auto simp: plain_comp_def)

lemma clean_comps_extend:
  assumes "is_abs p" "cs \<noteq> []" "\<forall>c \<in> set cs. plain_comp c"
  shows "clean_comps (p @ ''/'' @ join ''/'' cs) = clean_comps p @ cs"
proof -
  have "split_on CHR ''/'' (join ''/'' cs) = cs"
    using assms(2,3) by (intro split_join) (auto simp: plain_comp_def)
  moreover have "is_abs (p @ ''/'' @ join ''/'' cs)" using assms(1) by (auto simp: is_abs_def has_prefix_extend)
  ultimately show ?thesis
    using assms(1,3) by (simp add: clean_comps_def split_on_sep foldl_clean_plain)
qed

lemma clean_comps_render:
  assumes "\<forall>c \<in> set cs. plain_comp c"
  shows "clean_comps (render True cs) = cs" "is_abs (render True cs)"
proof -
  show "is_abs (render True cs)" by (simp add: render_def is_abs_def)
  have "clean_comps (''/'' @ join ''/'' cs) = cs"
  proof (cases "cs = []")
    case True
    then show ?thesis by (simp add: clean_comps_def split_on_def is_abs_def)
  next
    case False
    then have "split_on CHR ''/'' ([] @ CHR ''/'' # join ''/'' cs) = [] # cs"
      using assms unfolding split_on_sep by (subst split_join) (auto simp: plain_comp_def split_on_def)
    then show ?thesis using assms by (simp add: clean_comps_def foldl_clean_plain is_abs_def)
  qed
  then show "clean_comps (render True cs) = cs" by (simp add: render_def)
qed

lemma clean_abs:
  assumes "is_abs p"
  shows "is_abs (clean p)" "clean_comps (clean p) = clean_comps p" "clean p = render True (clean_comps p)"
  using assms clean_comps_form [of p] clean_comps_render [of "clean_comps p"] by (simp_all add: clean_def clean_form_rooted)

lemma clean_idem_abs: "is_abs p \<Longrightarrow> clean (clean p) = clean p"
  using clean_abs [of p] clean_abs(3) [of "clean p"] by metis

text \<open>Names joined to an absolute directory, and that one name can be told from another.\<close>

lemma path_join_below:
  assumes "is_abs dir" "cs \<noteq> []" "\<forall>c \<in> set cs. plain_comp c"
  shows "path_join [dir, join ''/'' cs] = render True (clean_comps dir @ cs)"
    "clean_comps (path_join [dir, join ''/'' cs]) = clean_comps dir @ cs" "is_abs (path_join [dir, join ''/'' cs])"
proof -
  have "dir \<noteq> []" using assms(1) by (auto simp: is_abs_def)
  then have "path_join [dir, join ''/'' cs] = clean (dir @ ''/'' @ join ''/'' cs)" by (simp add: path_join_def)
  also have "\<dots> = render True (clean_comps (dir @ ''/'' @ join ''/'' cs))"
    using assms(1) by (intro clean_abs(3)) (auto simp: is_abs_def has_prefix_extend)
  also have "clean_comps (dir @ ''/'' @ join ''/'' cs) = clean_comps dir @ cs"
    by (rule clean_comps_extend [OF assms])
  finally show r: "path_join [dir, join ''/'' cs] = render True (clean_comps dir @ cs)" .
  have "\<forall>c \<in> set (clean_comps dir @ cs). plain_comp c"
    using assms clean_comps_form [of dir] by (auto simp: clean_form_rooted)
  then show "clean_comps (path_join [dir, join ''/'' cs]) = clean_comps dir @ cs" "is_abs (path_join [dir, join ''/'' cs])"
    unfolding r by (simp_all add: clean_comps_render)
qed

lemmas path_join_plain = path_join_below [of dir "[nm]" for dir nm, simplified]

lemma path_join_inj:
  "is_abs dir \<Longrightarrow> plain_comp a \<Longrightarrow> plain_comp b \<Longrightarrow> path_join [dir, a] = path_join [dir, b] \<longleftrightarrow> a = b"
  by (metis path_join_plain(2) append1_eq_conv)

lemma path_ext_below:
  assumes "CHR ''/'' \<notin> set nm"
  shows "path_ext (p @ CHR ''/'' # nm) = path_ext nm"
proof -
  have t: "takeWhile (\<lambda>c. c \<noteq> CHR ''/'') (rev nm) = rev nm" "takeWhile (\<lambda>c. c \<noteq> CHR ''/'') (rev nm @ CHR ''/'' # xs) = rev nm" for xs
    using assms by (auto simp: takeWhile_eq_all_conv takeWhile_append)
  have "after_slash nm = nm" "after_slash (p @ CHR ''/'' # nm) = nm"
    unfolding after_slash_def t(1) by (simp_all add: t(2) del: takeWhile_eq_all_conv)
  then show ?thesis by (simp add: path_ext_def)
qed

end
