(* ===== verification/Go_JSON.thy ===== *)
theory Go_JSON
  imports Go_Path
begin

text \<open>
  \<open>encoding/json\<close> as the daemon uses it: the values an \<open>interface{}\<close> receives from
  \<open>json.Unmarshal\<close>, the compact printer behind \<open>json.Marshal\<close> (with its HTML escaping), and the
  parser. A number keeps its literal text. Objects keep the order and the repetitions of the input.

  The parser is a recursive descent with fuel; \<open>json_parse\<close> supplies one unit more than twice the
  length of the input, and every call consumes input, so the fuel never runs out before the input does.
  The round trip is proved for every value whose strings are ASCII and whose numbers are integers.
\<close>

datatype json =
    JNull
  | JBool bool
  | JNum string
  | JStr string
  | JArr "json list"
  | JObj "(string \<times> json) list"

section \<open>Characters\<close>

abbreviation code_of :: "char \<Rightarrow> nat" where
  "code_of c \<equiv> of_char c"

definition hex_digit :: "nat \<Rightarrow> char" where
  "hex_digit n = (if n < 10 then char_of (48 + n) else char_of (87 + n))"

definition hex_value :: "char \<Rightarrow> nat option" where
  "hex_value c =
     (let n = code_of c in
      if 48 \<le> n \<and> n \<le> 57 then Some (n - 48)
      else if 97 \<le> n \<and> n \<le> 102 then Some (n - 87)
      else if 65 \<le> n \<and> n \<le> 70 then Some (n - 55)
      else None)"

text \<open>The UTF-8 bytes of a rune; surrogates and values out of range become the replacement rune.\<close>

definition encode_rune :: "nat \<Rightarrow> string" where
  "encode_rune r =
     (if r < 0x80 then [char_of r]
      else if r < 0x800 then [char_of (0xC0 + r div 64), char_of (0x80 + r mod 64)]
      else if (0xD800 \<le> r \<and> r \<le> 0xDFFF) \<or> 0x10FFFF < r
      then [CHR 0xEF, CHR 0xBF, CHR 0xBD]
      else if r < 0x10000
      then [char_of (0xE0 + r div 4096), char_of (0x80 + r div 64 mod 64), char_of (0x80 + r mod 64)]
      else [char_of (0xF0 + r div 262144), char_of (0x80 + r div 4096 mod 64),
            char_of (0x80 + r div 64 mod 64), char_of (0x80 + r mod 64)])"

section \<open>Printing\<close>

text \<open>One ASCII byte of a string as \<open>json.Marshal\<close> writes it.\<close>

definition escape_ascii :: "char \<Rightarrow> string" where
  "escape_ascii c =
     (let n = code_of c in
      if c = CHR 0x22 \<or> c = CHR 0x5C then [CHR 0x5C, c]
      else if n = 8 then [CHR 0x5C, CHR ''b'']
      else if n = 12 then [CHR 0x5C, CHR ''f'']
      else if n = 10 then [CHR 0x5C, CHR ''n'']
      else if n = 13 then [CHR 0x5C, CHR ''r'']
      else if n = 9 then [CHR 0x5C, CHR ''t'']
      else if n < 32 \<or> c = CHR ''<'' \<or> c = CHR ''>'' \<or> c = CHR ''&''
      then [CHR 0x5C, CHR ''u'', CHR ''0'', CHR ''0'', hex_digit (n div 16), hex_digit (n mod 16)]
      else [c])"

text \<open>
  A string body: an ASCII byte by itself; a valid rune unchanged, except for the two line separators;
  a malformed byte as the escaped replacement rune. The counter skips the bytes of a copied rune.
\<close>

fun print_body :: "nat \<Rightarrow> string \<Rightarrow> string" where
  "print_body k [] = []"
| "print_body (Suc k) (c # s) = print_body k s"
| "print_body 0 (c # s) =
     (if code_of c < 128 then escape_ascii c @ print_body 0 s
      else (let (r, n) = decode_rune (c # s) in
        if n = 1 then CHR 0x5C # ''ufffd'' @ print_body 0 s
        else if r = 0x2028 then CHR 0x5C # ''u2028'' @ print_body (n - 1) s
        else if r = 0x2029 then CHR 0x5C # ''u2029'' @ print_body (n - 1) s
        else take n (c # s) @ print_body (n - 1) s))"

definition print_string :: "string \<Rightarrow> string" where
  "print_string s = CHR 0x22 # print_body 0 s @ [CHR 0x22]"

fun json_print :: "json \<Rightarrow> string"
  and print_items :: "json list \<Rightarrow> string"
  and print_members :: "(string \<times> json) list \<Rightarrow> string" where
  "json_print JNull = ''null''"
| "json_print (JBool b) = (if b then ''true'' else ''false'')"
| "json_print (JNum n) = n"
| "json_print (JStr s) = print_string s"
| "json_print (JArr []) = ''[]''"
| "json_print (JArr (x # xs)) = ''['' @ json_print x @ print_items xs"
| "json_print (JObj []) = ''{}''"
| "json_print (JObj ((k, v) # kvs)) =
     ''{'' @ print_string k @ '':'' @ json_print v @ print_members kvs"
| "print_items [] = '']''"
| "print_items (x # xs) = '','' @ json_print x @ print_items xs"
| "print_members [] = ''}''"
| "print_members ((k, v) # kvs) = '','' @ print_string k @ '':'' @ json_print v @ print_members kvs"

section \<open>Parsing\<close>

fun skip_ws :: "string \<Rightarrow> string" where
  "skip_ws [] = []"
| "skip_ws (c # s) =
     (if c = CHR '' '' \<or> c = CHR 0x09 \<or> c = CHR 0x0A \<or> c = CHR 0x0D then skip_ws s else c # s)"

definition hex4 :: "string \<Rightarrow> nat option" where
  "hex4 s =
     (case s of
        a # b # c # d # _ \<Rightarrow>
          (case (hex_value a, hex_value b, hex_value c, hex_value d) of
             (Some w, Some x, Some y, Some z) \<Rightarrow> Some (4096 * w + 256 * x + 16 * y + z)
           | _ \<Rightarrow> None)
      | _ \<Rightarrow> None)"

definition simple_escape :: "char \<Rightarrow> char option" where
  "simple_escape c =
     (if c = CHR 0x22 then Some (CHR 0x22)
      else if c = CHR 0x5C then Some (CHR 0x5C)
      else if c = CHR ''/'' then Some (CHR ''/'')
      else if c = CHR ''b'' then Some (CHR 0x08)
      else if c = CHR ''f'' then Some (CHR 0x0C)
      else if c = CHR ''n'' then Some (CHR 0x0A)
      else if c = CHR ''r'' then Some (CHR 0x0D)
      else if c = CHR ''t'' then Some (CHR 0x09)
      else None)"

text \<open>
  The rest of a string after its opening quote: the decoded bytes and the input behind the closing
  quote. An escaped high surrogate followed by an escaped low one is one rune, a lone surrogate the
  replacement rune; a malformed byte is replaced too. The counter skips bytes already consumed.
\<close>

fun parse_body :: "nat \<Rightarrow> string \<Rightarrow> (string \<times> string) option" where
  "parse_body k [] = None"
| "parse_body (Suc k) (c # s) = parse_body k s"
| "parse_body 0 (c # s) =
     (if c = CHR 0x22 then Some ([], s)
      else if code_of c < 32 then None
      else if c = CHR 0x5C then
        (case s of
           [] \<Rightarrow> None
         | d # s' \<Rightarrow>
             if d = CHR ''u'' then
               (case hex4 s' of
                  None \<Rightarrow> None
                | Some r \<Rightarrow>
                    (if 0xD800 \<le> r \<and> r \<le> 0xDBFF \<and> has_prefix [CHR 0x5C, CHR ''u''] (drop 4 s') \<and>
                        (case hex4 (drop 6 s') of Some r' \<Rightarrow> 0xDC00 \<le> r' \<and> r' \<le> 0xDFFF | None \<Rightarrow> False)
                     then map_option
                       (apfst ((@) (encode_rune (0x10000 + (r - 0xD800) * 1024 + (the (hex4 (drop 6 s')) - 0xDC00)))))
                       (parse_body 11 s)
                     else map_option (apfst ((@) (encode_rune r))) (parse_body 5 s)))
             else
               (case simple_escape d of
                  None \<Rightarrow> None
                | Some e \<Rightarrow> map_option (apfst (Cons e)) (parse_body 1 s)))
      else if code_of c < 128 then map_option (apfst (Cons c)) (parse_body 0 s)
      else (let (r, n) = decode_rune (c # s) in
        if n = 1 then map_option (apfst ((@) [CHR 0xEF, CHR 0xBF, CHR 0xBD])) (parse_body 0 s)
        else map_option (apfst ((@) (take n (c # s)))) (parse_body (n - 1) s)))"

definition is_digit :: "char \<Rightarrow> bool" where
  "is_digit c \<longleftrightarrow> (let n = code_of c in 48 \<le> n \<and> n \<le> 57)"

text \<open>The literal of a number: sign, integer part without leading zeros, fraction, exponent.\<close>

definition num_int :: "string \<Rightarrow> (string \<times> string) option" where
  "num_int s =
     (case s of
        [] \<Rightarrow> None
      | c # cs \<Rightarrow>
          if c = CHR ''0'' then Some ([c], cs)
          else if is_digit c then Some (takeWhile is_digit s, dropWhile is_digit s)
          else None)"

definition num_frac :: "string \<Rightarrow> (string \<times> string) option" where
  "num_frac s =
     (case s of
        c # cs \<Rightarrow>
          if c = CHR ''.'' then
            (if takeWhile is_digit cs = [] then None
             else Some (c # takeWhile is_digit cs, dropWhile is_digit cs))
          else Some ([], s)
      | [] \<Rightarrow> Some ([], s))"

definition num_exp :: "string \<Rightarrow> (string \<times> string) option" where
  "num_exp s =
     (case s of
        c # cs \<Rightarrow>
          if c = CHR ''e'' \<or> c = CHR ''E'' then
            (let sg = (case cs of d # _ \<Rightarrow> if d = CHR ''+'' \<or> d = CHR ''-'' then [d] else [] | [] \<Rightarrow> []);
                 ds = drop (length sg) cs
             in if takeWhile is_digit ds = [] then None
                else Some (c # sg @ takeWhile is_digit ds, dropWhile is_digit ds))
          else Some ([], s)
      | [] \<Rightarrow> Some ([], s))"

definition parse_num :: "string \<Rightarrow> (string \<times> string) option" where
  "parse_num s =
     (let sg = (if has_prefix ''-'' s then ''-'' else [])
      in case num_int (drop (length sg) s) of
           None \<Rightarrow> None
         | Some (i, s1) \<Rightarrow>
             (case num_frac s1 of
                None \<Rightarrow> None
              | Some (f, s2) \<Rightarrow>
                  (case num_exp s2 of
                     None \<Rightarrow> None
                   | Some (e, s3) \<Rightarrow> Some (sg @ i @ f @ e, s3))))"

fun parse_value :: "nat \<Rightarrow> string \<Rightarrow> (json \<times> string) option"
  and parse_items :: "nat \<Rightarrow> string \<Rightarrow> (json list \<times> string) option"
  and parse_members :: "nat \<Rightarrow> string \<Rightarrow> ((string \<times> json) list \<times> string) option"
  and parse_member :: "nat \<Rightarrow> string \<Rightarrow> ((string \<times> json) \<times> string) option" where
  "parse_value 0 s = None"
| "parse_value (Suc f) s =
     (case skip_ws s of
        [] \<Rightarrow> None
      | c # cs \<Rightarrow>
          if c = CHR ''n'' then (if has_prefix ''ull'' cs then Some (JNull, drop 3 cs) else None)
          else if c = CHR ''t'' then (if has_prefix ''rue'' cs then Some (JBool True, drop 3 cs) else None)
          else if c = CHR ''f'' then (if has_prefix ''alse'' cs then Some (JBool False, drop 4 cs) else None)
          else if c = CHR 0x22 then map_option (apfst JStr) (parse_body 0 cs)
          else if c = CHR ''['' then
            (case skip_ws cs of
               [] \<Rightarrow> None
             | d # ds \<Rightarrow>
                 if d = CHR '']'' then Some (JArr [], ds)
                 else (case parse_value f (d # ds) of
                     None \<Rightarrow> None
                   | Some (x, rest) \<Rightarrow> map_option (apfst (\<lambda>xs. JArr (x # xs))) (parse_items f rest)))
          else if c = CHR ''{'' then
            (case skip_ws cs of
               [] \<Rightarrow> None
             | d # ds \<Rightarrow>
                 if d = CHR ''}'' then Some (JObj [], ds)
                 else (case parse_member f (d # ds) of
                     None \<Rightarrow> None
                   | Some (kv, rest) \<Rightarrow> map_option (apfst (\<lambda>kvs. JObj (kv # kvs))) (parse_members f rest)))
          else map_option (apfst JNum) (parse_num (c # cs)))"
| "parse_items 0 s = None"
| "parse_items (Suc f) s =
     (case skip_ws s of
        [] \<Rightarrow> None
      | c # cs \<Rightarrow>
          if c = CHR '']'' then Some ([], cs)
          else if c = CHR '','' then
            (case parse_value f cs of
               None \<Rightarrow> None
             | Some (x, rest) \<Rightarrow> map_option (apfst (Cons x)) (parse_items f rest))
          else None)"
| "parse_members 0 s = None"
| "parse_members (Suc f) s =
     (case skip_ws s of
        [] \<Rightarrow> None
      | c # cs \<Rightarrow>
          if c = CHR ''}'' then Some ([], cs)
          else if c = CHR '','' then
            (case parse_member f cs of
               None \<Rightarrow> None
             | Some (kv, rest) \<Rightarrow> map_option (apfst (Cons kv)) (parse_members f rest))
          else None)"
| "parse_member 0 s = None"
| "parse_member (Suc f) s =
     (case skip_ws s of
        [] \<Rightarrow> None
      | c # cs \<Rightarrow>
          if c = CHR 0x22 then
            (case parse_body 0 cs of
               None \<Rightarrow> None
             | Some (k, rest) \<Rightarrow>
                 (case skip_ws rest of
                    [] \<Rightarrow> None
                  | d # ds \<Rightarrow>
                      if d = CHR '':''
                      then map_option (apfst (Pair k)) (parse_value f ds)
                      else None))
          else None)"

text \<open>\<open>json.Unmarshal\<close> accepts one value with white space around it.\<close>

definition json_parse :: "string \<Rightarrow> json option" where
  "json_parse s =
     (case parse_value (Suc (2 * length s)) s of
        Some (v, rest) \<Rightarrow> if skip_ws rest = [] then Some v else None
      | None \<Rightarrow> None)"

section \<open>Round trip\<close>

definition ascii :: "string \<Rightarrow> bool" where
  "ascii s \<longleftrightarrow> (\<forall>c \<in> set s. code_of c < 128)"

text \<open>Integer literals as \<open>json.Marshal\<close> writes them.\<close>

definition int_literal :: "string \<Rightarrow> bool" where
  "int_literal s \<longleftrightarrow>
     (let d = (if has_prefix ''-'' s then tl s else s)
      in d \<noteq> [] \<and> (\<forall>c \<in> set d. is_digit c) \<and> (hd d = CHR ''0'' \<longrightarrow> d = ''0''))"

fun printable :: "json \<Rightarrow> bool"
  and printable_items :: "json list \<Rightarrow> bool"
  and printable_members :: "(string \<times> json) list \<Rightarrow> bool" where
  "printable JNull = True"
| "printable (JBool b) = True"
| "printable (JNum n) = int_literal n"
| "printable (JStr s) = ascii s"
| "printable (JArr xs) = printable_items xs"
| "printable (JObj kvs) = printable_members kvs"
| "printable_items [] = True"
| "printable_items (x # xs) = (printable x \<and> printable_items xs)"
| "printable_members [] = True"
| "printable_members ((k, v) # kvs) = (ascii k \<and> printable v \<and> printable_members kvs)"

text \<open>The fuel a value needs.\<close>

fun need :: "json \<Rightarrow> nat"
  and need_items :: "json list \<Rightarrow> nat"
  and need_members :: "(string \<times> json) list \<Rightarrow> nat" where
  "need (JArr (x # xs)) = Suc (max (need x) (need_items xs))"
| "need (JObj ((k, v) # kvs)) = Suc (max (Suc (need v)) (need_members kvs))"
| "need j = 1"
| "need_items [] = 1"
| "need_items (x # xs) = Suc (max (need x) (need_items xs))"
| "need_members [] = 1"
| "need_members ((k, v) # kvs) = Suc (max (Suc (need v)) (need_members kvs))"

lemma hex_value_digit: "n < 16 \<Longrightarrow> hex_value (hex_digit n) = Some n"
  by (auto simp: hex_value_def hex_digit_def Let_def)

lemma hex_value_zero [simp]: "hex_value (CHR ''0'') = Some 0"
  by (simp add: hex_value_def)

lemma parse_body_skip: "parse_body (length u) (u @ t) = parse_body 0 t"
  by (induction u) auto

lemma parse_body_5: "parse_body 5 (a # b # c # d # e # t) = parse_body 0 t"
  by (simp add: numeral_eq_Suc)

lemma parse_body_u:
  assumes "hex4 s = Some n" "n < 128"
  shows "parse_body 0 (CHR 0x5C # CHR ''u'' # s) =
    map_option (apfst (Cons (char_of n))) (parse_body 5 (CHR ''u'' # s))"
proof -
  have "(@) [char_of n] = Cons (char_of n)" by (rule ext) simp
  then show ?thesis using assms by (simp add: encode_rune_def apfst_def)
qed

lemma parse_body_escape:
  assumes "code_of c < 128"
  shows "parse_body 0 (escape_ascii c @ t) = map_option (apfst (Cons c)) (parse_body 0 t)"
proof -
  let ?n = "code_of c"
  have c: "c = char_of ?n" by simp
  consider "c = CHR 0x22 \<or> c = CHR 0x5C" | "?n \<in> {8, 12, 10, 13, 9}"
    | "\<not> (c = CHR 0x22 \<or> c = CHR 0x5C)" "?n \<notin> {8, 12, 10, 13, 9}"
      "?n < 32 \<or> c = CHR ''<'' \<or> c = CHR ''>'' \<or> c = CHR ''&''"
    | "c \<noteq> CHR 0x22" "c \<noteq> CHR 0x5C" "32 \<le> ?n" "c \<noteq> CHR ''<''" "c \<noteq> CHR ''>''" "c \<noteq> CHR ''&''"
    by fastforce
  then show ?thesis
  proof cases
    case 1
    then show ?thesis by (auto simp: escape_ascii_def simple_escape_def)
  next
    case 2
    then have "c = char_of (8 :: nat) \<or> c = char_of (12 :: nat) \<or> c = char_of (10 :: nat) \<or>
        c = char_of (13 :: nat) \<or> c = char_of (9 :: nat)"
      using c by (metis insertE empty_iff)
    moreover have "char_of (8 :: nat) = CHR 0x08" "char_of (12 :: nat) = CHR 0x0C"
      "char_of (10 :: nat) = CHR 0x0A" "char_of (13 :: nat) = CHR 0x0D" "char_of (9 :: nat) = CHR 0x09"
      by (simp_all add: char_of_def bit_0)
    ultimately have "c \<in> {CHR 0x08, CHR 0x0C, CHR 0x0A, CHR 0x0D, CHR 0x09}"
      by auto
    then show ?thesis
      by (elim insertE emptyE) (simp_all add: escape_ascii_def simple_escape_def Let_def)
  next
    case 3
    have h: "hex_value (hex_digit (?n div 16)) = Some (?n div 16)"
      "hex_value (hex_digit (?n mod 16)) = Some (?n mod 16)"
      using assms by (auto intro!: hex_value_digit)
    let ?x = "hex_digit (?n div 16)" and ?y = "hex_digit (?n mod 16)"
    have esc: "escape_ascii c = [CHR 0x5C, CHR ''u'', CHR ''0'', CHR ''0'', ?x, ?y]"
      using 3 unfolding escape_ascii_def Let_def by auto
    have hex: "hex4 (CHR ''0'' # CHR ''0'' # ?x # ?y # t) = Some ?n"
      by (simp add: hex4_def h)
    show ?thesis
      using parse_body_u [OF hex assms] by (simp only: esc append.simps parse_body_5 char_of_char)
  next
    case 4
    then show ?thesis using assms by (auto simp: escape_ascii_def Let_def)
  qed
qed

lemma ascii_Cons [simp]: "ascii (c # s) \<longleftrightarrow> code_of c < 128 \<and> ascii s"
  by (auto simp: ascii_def)

lemma ascii_append [simp]: "ascii (s @ t) \<longleftrightarrow> ascii s \<and> ascii t"
  by (auto simp: ascii_def)

lemma ascii_Nil [simp]: "ascii []"
  by (simp add: ascii_def)

lemma parse_body_print:
  "ascii s \<Longrightarrow> parse_body 0 (print_body 0 s @ CHR 0x22 # r) = Some (s, r)"
proof (induction s)
  case Nil
  then show ?case by simp
next
  case (Cons c s)
  then show ?case by (simp add: parse_body_escape)
qed

text \<open>What may follow a value: nothing that could prolong a number.\<close>

definition stops :: "string \<Rightarrow> bool" where
  "stops r \<longleftrightarrow> r = [] \<or> hd r \<in> {CHR '','', CHR '']'', CHR ''}''}"

lemma stops_simps [simp]: "stops []" "stops (CHR '','' # r)" "stops (CHR '']'' # r)" "stops (CHR ''}'' # r)"
  by (auto simp: stops_def)

lemma stops_items [simp]: "stops (print_items xs @ r)" "stops (print_members kvs @ r)"
  by (cases xs) (simp, simp, cases kvs, auto)

lemma stops_not_digit: "stops r \<Longrightarrow> r \<noteq> [] \<Longrightarrow> \<not> is_digit (hd r) \<and> hd r \<noteq> CHR ''.'' \<and>
    hd r \<noteq> CHR ''e'' \<and> hd r \<noteq> CHR ''E''"
  by (auto simp: stops_def is_digit_def)

lemma digits_stop:
  assumes "\<forall>c \<in> set d. is_digit c" "stops r"
  shows "takeWhile is_digit (d @ r) = d" "dropWhile is_digit (d @ r) = r"
  using assms by (induction d) (cases r; auto simp: stops_def is_digit_def)+

lemma num_tail: "stops r \<Longrightarrow> num_frac r = Some ([], r) \<and> num_exp r = Some ([], r)"
  by (cases r) (auto simp: num_frac_def num_exp_def stops_def)

lemma num_int_digits:
  assumes "d \<noteq> []" "\<forall>c \<in> set d. is_digit c" "hd d = CHR ''0'' \<longrightarrow> d = ''0''" "stops r"
  shows "num_int (d @ r) = Some (d, r)"
proof (cases "hd d = CHR ''0''")
  case True
  then show ?thesis using assms by (auto simp: num_int_def)
next
  case False
  then obtain c cs where "d = c # cs" "c \<noteq> CHR ''0''" using assms(1) by (cases d) auto
  then show ?thesis
    using assms digits_stop [OF assms(2,4)] by (simp add: num_int_def)
qed

lemma parse_num_int:
  assumes "int_literal n" "stops r"
  shows "parse_num (n @ r) = Some (n, r)"
proof (cases "has_prefix ''-'' n")
  case True
  then obtain d where n: "n = CHR ''-'' # d" by (auto simp: has_prefix_iff)
  then have "num_int (d @ r) = Some (d, r)"
    using assms by (intro num_int_digits) (auto simp: int_literal_def Let_def)
  then show ?thesis
    using num_tail [OF assms(2)] by (simp add: parse_num_def n Let_def)
next
  case False
  have d: "n \<noteq> []" "\<forall>c \<in> set n. is_digit c"
    using assms False by (auto simp: int_literal_def)
  then have "\<not> has_prefix ''-'' (n @ r)"
    using False by (cases n) auto
  moreover have "num_int (n @ r) = Some (n, r)"
    using assms False by (intro num_int_digits) (auto simp: int_literal_def)
  ultimately show ?thesis
    using num_tail [OF assms(2)] by (simp add: parse_num_def)
qed

text \<open>The first byte of a printed value: no white space, no closing bracket.\<close>

lemma int_literal_hd:
  assumes "int_literal n"
  obtains c cs where "n = c # cs" "is_digit c \<or> c = CHR ''-''"
proof -
  have "n \<noteq> []" using assms by (auto simp: int_literal_def)
  then obtain c cs where "n = c # cs" by (cases n) auto
  then show thesis
    using assms that by (auto simp: int_literal_def split: if_splits)
qed

lemma print_hd:
  assumes "printable j"
  obtains c cs where "json_print j = c # cs" "skip_ws (c # cs @ r) = c # cs @ r"
    "c \<noteq> CHR '']''" "c \<noteq> CHR ''}''"
proof (cases j)
  case (JNum n)
  then obtain c cs where n: "n = c # cs" "is_digit c \<or> c = CHR ''-''"
    using assms int_literal_hd by auto
  then have "c \<notin> {CHR '' '', CHR 0x09, CHR 0x0A, CHR 0x0D, CHR '']'', CHR ''}''}"
    by (auto simp: is_digit_def)
  then show thesis using n JNum that [of c cs] by auto
next
  case (JArr xs)
  then show thesis using that by (cases xs) auto
next
  case (JObj kvs)
  then show thesis using that by (cases kvs) auto
next
  case (JBool b)
  then show thesis using that by (cases b) auto
qed (use that in \<open>auto simp: print_string_def\<close>)

lemma parse_value_num:
  assumes "int_literal n" "stops r"
  shows "parse_value (Suc f) (n @ r) = Some (JNum n, r)"
proof -
  obtain c cs where n: "n = c # cs" and c: "is_digit c \<or> c = CHR ''-''"
    using assms(1) int_literal_hd by blast
  have "c \<notin> {CHR '' '', CHR 0x09, CHR 0x0A, CHR 0x0D, CHR ''n'', CHR ''t'', CHR ''f'', CHR 0x22,
      CHR ''['', CHR ''{''}"
    using c by (auto simp: is_digit_def)
  then show ?thesis
    using parse_num_int [OF assms] by (simp add: n)
qed

lemma parse_member_print:
  assumes "ascii k" "parse_value f (json_print v @ r) = Some (v, r)"
  shows "parse_member (Suc f) (print_string k @ CHR '':'' # json_print v @ r) = Some ((k, v), r)"
  using assms by (simp add: print_string_def parse_body_print)

lemma parse_print:
  "printable j \<Longrightarrow> stops r \<Longrightarrow> need j \<le> f \<Longrightarrow> parse_value f (json_print j @ r) = Some (j, r)"
  "printable_items xs \<Longrightarrow> need_items xs \<le> f \<Longrightarrow> parse_items f (print_items xs @ r) = Some (xs, r)"
  "printable_members kvs \<Longrightarrow> need_members kvs \<le> f \<Longrightarrow>
     parse_members f (print_members kvs @ r) = Some (kvs, r)"
proof (induction j and xs and kvs arbitrary: f r and f r and f r rule: json_print_print_items_print_members.induct)
  case 1
  then show ?case by (cases f) auto
next
  case (2 b)
  then show ?case by (cases f) auto
next
  case (3 n)
  then obtain g where "f = Suc g" by (cases f) auto
  then show ?case using parse_value_num 3 by simp
next
  case (4 s)
  then obtain g where "f = Suc g" by (cases f) auto
  then show ?case using 4 by (simp add: print_string_def parse_body_print)
next
  case 5
  then show ?case by (cases f) auto
next
  case (6 x xs)
  then obtain g where f: "f = Suc g" "need x \<le> g" "need_items xs \<le> g" by (cases f) auto
  have px: "printable x" using "6.prems"(1) by simp
  obtain c cs where c: "json_print x = c # cs"
    "skip_ws (c # cs @ print_items xs @ r) = c # cs @ print_items xs @ r" "c \<noteq> CHR '']''"
    by (rule print_hd [OF px])
  have "parse_value g (json_print x @ print_items xs @ r) = Some (x, print_items xs @ r)"
    using 6 f by (intro "6.IH"(1)) auto
  moreover have "parse_items g (print_items xs @ r) = Some (xs, r)"
    using 6 f by (intro "6.IH"(2)) auto
  ultimately show ?case
    using c by (simp add: f(1))
next
  case 7
  then show ?case by (cases f) auto
next
  case (8 k v kvs)
  then obtain h where f: "f = Suc (Suc h)" "need v \<le> h" "need_members kvs \<le> Suc h"
    by (cases f; cases "f - 1") auto
  have "parse_value h (json_print v @ print_members kvs @ r) = Some (v, print_members kvs @ r)"
    using 8 f by (intro "8.IH"(1)) auto
  then have "parse_member (Suc h) (print_string k @ CHR '':'' # json_print v @ print_members kvs @ r) =
      Some ((k, v), print_members kvs @ r)"
    using 8 by (intro parse_member_print) auto
  moreover have "parse_members (Suc h) (print_members kvs @ r) = Some (kvs, r)"
    using 8 f by (intro "8.IH"(2)) auto
  ultimately show ?case
    by (simp add: f(1) print_string_def del: parse_member.simps)
next
  case 9
  then show ?case by (cases f) auto
next
  case (10 x xs)
  then obtain g where f: "f = Suc g" "need x \<le> g" "need_items xs \<le> g" by (cases f) auto
  have "parse_value g (json_print x @ print_items xs @ r) = Some (x, print_items xs @ r)"
    using 10 f by (intro "10.IH"(1)) auto
  moreover have "parse_items g (print_items xs @ r) = Some (xs, r)"
    using 10 f by (intro "10.IH"(2)) auto
  ultimately show ?case by (simp add: f(1))
next
  case 11
  then show ?case by (cases f) auto
next
  case (12 k v kvs)
  then obtain h where f: "f = Suc (Suc h)" "need v \<le> h" "need_members kvs \<le> Suc h"
    by (cases f; cases "f - 1") auto
  have "parse_value h (json_print v @ print_members kvs @ r) = Some (v, print_members kvs @ r)"
    using 12 f by (intro "12.IH"(1)) auto
  then have "parse_member (Suc h) (print_string k @ CHR '':'' # json_print v @ print_members kvs @ r) =
      Some ((k, v), print_members kvs @ r)"
    using 12 by (intro parse_member_print) auto
  moreover have "parse_members (Suc h) (print_members kvs @ r) = Some (kvs, r)"
    using 12 f by (intro "12.IH"(2)) auto
  ultimately show ?case
    by (simp add: f(1) del: parse_member.simps)
qed

lemma need_le:
  "printable j \<Longrightarrow> need j \<le> 2 * length (json_print j)"
  "printable_items xs \<Longrightarrow> need_items xs \<le> 2 * length (print_items xs)"
  "printable_members kvs \<Longrightarrow> need_members kvs \<le> 2 * length (print_members kvs)"
proof (induction j and xs and kvs rule: json_print_print_items_print_members.induct)
  case (3 n)
  then show ?case by (cases n) (auto simp: int_literal_def)
qed (auto simp: print_string_def)

theorem json_roundtrip: "printable j \<Longrightarrow> json_parse (json_print j) = Some j"
  using parse_print(1) [of j "[]" "Suc (2 * length (json_print j))"] need_le(1) [of j]
  by (simp add: json_parse_def)

section \<open>Integers\<close>

text \<open>\<open>%d\<close> and the JSON text of an integer.\<close>

fun show_nat :: "nat \<Rightarrow> string" where
  "show_nat n = (if n < 10 then [char_of (48 + n)] else show_nat (n div 10) @ [char_of (48 + n mod 10)])"

declare show_nat.simps [simp del]

definition show_int :: "int \<Rightarrow> string" where
  "show_int n = (if n < 0 then CHR ''-'' # show_nat (nat (- n)) else show_nat (nat n))"

definition digits_value :: "string \<Rightarrow> nat" where
  "digits_value s = foldl (\<lambda>a c. a * 10 + (code_of c - 48)) 0 s"

text \<open>\<open>strconv.ParseInt(s, 10, 64)\<close> on the literal of a JSON number.\<close>

definition int64_of_literal :: "string \<Rightarrow> int option" where
  "int64_of_literal s =
     (let neg = has_prefix ''-'' s; d = (if neg then tl s else s)
      in if d = [] \<or> (\<exists>c \<in> set d. \<not> is_digit c) then None
         else let n = (if neg then - int (digits_value d) else int (digits_value d))
              in if - (2 ^ 63) \<le> n \<and> n < 2 ^ 63 then Some n else None)"

lemma is_digit_char [simp]: "n < 10 \<Longrightarrow> is_digit (char_of (48 + (n :: nat)))"
  by (simp add: is_digit_def Let_def)

lemma digits_value_snoc: "digits_value (s @ [c]) = digits_value s * 10 + (code_of c - 48)"
  by (simp add: digits_value_def)

lemma show_nat_value: "digits_value (show_nat n) = n"
proof (induction n rule: show_nat.induct)
  case (1 n)
  show ?case
  proof (cases "n < 10")
    case True
    then show ?thesis by (subst show_nat.simps) (simp add: digits_value_def)
  next
    case False
    have "n mod 10 < 10" by simp
    then have "code_of (char_of (48 + n mod 10)) = 48 + n mod 10" by simp
    then show ?thesis
      using False 1 by (subst show_nat.simps) (simp add: digits_value_snoc)
  qed
qed

lemma show_nat_digits: "c \<in> set (show_nat n) \<Longrightarrow> is_digit c"
proof (induction n rule: show_nat.induct)
  case (1 n)
  have "n mod 10 < 10" by simp
  then show ?case
    using 1 by (subst (asm) (2) show_nat.simps) (auto split: if_splits simp del: of_char_of)
qed

lemma show_nat_nonempty [simp]: "show_nat n \<noteq> []"
  by (subst show_nat.simps) simp

lemma show_nat_zero [simp]: "show_nat 0 = ''0''"
  by (subst show_nat.simps) (simp add: char_of_def bit_0)

lemma show_nat_hd: "0 < n \<Longrightarrow> hd (show_nat n) \<noteq> CHR ''0''"
proof (induction n rule: show_nat.induct)
  case (1 n)
  show ?case
  proof (cases "n < 10")
    case True
    have "code_of (char_of (48 + n)) \<noteq> code_of (CHR ''0'')"
      using True 1 by simp
    then have "char_of (48 + n) \<noteq> CHR ''0''"
      by metis
    then show ?thesis
      using True by (subst show_nat.simps) simp
  next
    case False
    then show ?thesis
      using 1 by (subst show_nat.simps) (simp add: hd_append)
  qed
qed

lemma show_nat_no_minus: "\<not> has_prefix ''-'' (show_nat n)"
proof
  assume "has_prefix ''-'' (show_nat n)"
  then have "CHR ''-'' \<in> set (show_nat n)" by (auto simp: has_prefix_iff)
  then show False using show_nat_digits by (fastforce simp: is_digit_def)
qed

lemma int_literal_show [simp]: "int_literal (show_int n)"
proof (cases "n < 0")
  case True
  then show ?thesis
    using show_nat_digits [of _ "nat (- n)"] show_nat_hd [of "nat (- n)"]
    by (auto simp: int_literal_def show_int_def Let_def)
next
  case False
  then show ?thesis
    using show_nat_digits [of _ "nat n"] show_nat_hd [of "nat n"] show_nat_no_minus [of "nat n"]
    by (cases "nat n = 0") (auto simp: int_literal_def show_int_def Let_def)
qed

lemma int64_of_show:
  assumes "- (2 ^ 63) \<le> n" "n < 2 ^ 63"
  shows "int64_of_literal (show_int n) = Some n"
proof (cases "n < 0")
  case True
  then show ?thesis
    using show_nat_digits [of _ "nat (- n)"] assms
    by (auto simp: int64_of_literal_def show_int_def Let_def show_nat_value)
next
  case False
  then show ?thesis
    using show_nat_digits [of _ "nat n"] assms show_nat_no_minus [of "nat n"]
    by (auto simp: int64_of_literal_def show_int_def Let_def show_nat_value)
qed

end
