(* ===== verification/Go_Encoding.thy ===== *)
theory Go_Encoding
  imports Go_JSON "HOL-Library.Word"
begin

text \<open>
  The encodings and digests of the standard library the security components use:
  \<open>encoding/base64.RawURLEncoding\<close>, \<open>encoding/hex\<close>, \<open>crypto/sha256\<close> and \<open>crypto/hmac\<close>.

  The decoder of base64 skips carriage returns and line feeds and ignores the unused bits of the last
  character, as Go's does. The digest is the algorithm of FIPS 180-4 on 32-bit words; no security
  assumption about it is made anywhere: what is proved of tokens is what their checks decide.
  The locale \<open>codec\<close> is the contract of an encoder and its decoder; base64 and the JSON printer are
  its two interpretations.
\<close>

unbundle bit_operations_syntax

section \<open>The contract of an encoder\<close>

locale codec =
  fixes enc :: "'a \<Rightarrow> string"
    and dec :: "string \<Rightarrow> 'a option"
    and fit :: "'a \<Rightarrow> bool"
  assumes dec_enc: "fit x \<Longrightarrow> dec (enc x) = Some x"
begin

lemma enc_inject: "fit x \<Longrightarrow> fit y \<Longrightarrow> enc x = enc y \<longleftrightarrow> x = y"
  by (metis dec_enc option.inject)

lemma dec_bind: "fit x \<Longrightarrow> Option.bind (dec (enc x)) g = g x"
  by (simp add: dec_enc)

end

section \<open>Base64 without padding, URL alphabet\<close>

definition b64_char :: "nat \<Rightarrow> char" where
  "b64_char n =
     (if n < 26 then char_of (65 + n)
      else if n < 52 then char_of (71 + n)
      else if n < 62 then char_of (n - 4)
      else if n = 62 then CHR ''-'' else CHR ''_'')"

definition b64_value :: "char \<Rightarrow> nat option" where
  "b64_value c =
     (let n = code_of c in
      if 65 \<le> n \<and> n \<le> 90 then Some (n - 65)
      else if 97 \<le> n \<and> n \<le> 122 then Some (n - 71)
      else if 48 \<le> n \<and> n \<le> 57 then Some (n + 4)
      else if c = CHR ''-'' then Some 62
      else if c = CHR ''_'' then Some 63
      else None)"

fun b64_digits :: "nat list \<Rightarrow> nat list" where
  "b64_digits [] = []"
| "b64_digits [a] = [a div 4, a mod 4 * 16]"
| "b64_digits [a, b] = [a div 4, a mod 4 * 16 + b div 16, b mod 16 * 4]"
| "b64_digits (a # b # c # s) =
     (a div 4) # (a mod 4 * 16 + b div 16) # (b mod 16 * 4 + c div 64) # (c mod 64) # b64_digits s"

fun b64_bytes :: "nat list \<Rightarrow> nat list option" where
  "b64_bytes [] = Some []"
| "b64_bytes [x] = None"
| "b64_bytes [x, y] = Some [x * 4 + y div 16]"
| "b64_bytes [x, y, z] = Some [x * 4 + y div 16, y mod 16 * 16 + z div 4]"
| "b64_bytes (x # y # z # w # s) =
     map_option (\<lambda>r. (x * 4 + y div 16) # (y mod 16 * 16 + z div 4) # (z mod 4 * 64 + w) # r) (b64_bytes s)"

definition b64_encode :: "string \<Rightarrow> string" where
  "b64_encode s = map b64_char (b64_digits (map code_of s))"

definition b64_decode :: "string \<Rightarrow> string option" where
  "b64_decode s =
     (let t = filter (\<lambda>c. c \<noteq> CHR 0x0A \<and> c \<noteq> CHR 0x0D) s
      in if \<exists>c \<in> set t. b64_value c = None then None
         else map_option (map char_of) (b64_bytes (map (\<lambda>c. the (b64_value c)) t)))"

lemma b64_value_char: "n < 64 \<Longrightarrow> b64_value (b64_char n) = Some n"
  by (auto simp: b64_value_def b64_char_def Let_def)

lemma b64_char_not_newline: "n < 64 \<Longrightarrow> b64_char n \<noteq> CHR 0x0A \<and> b64_char n \<noteq> CHR 0x0D"
proof -
  assume "n < 64"
  then have "b64_value (b64_char n) \<noteq> None" by (simp add: b64_value_char)
  moreover have "b64_value (CHR 0x0A) = None" "b64_value (CHR 0x0D) = None"
    by (simp_all add: b64_value_def)
  ultimately show ?thesis by metis
qed

lemma b64_digits_small:
  "\<forall>a \<in> set bs. a < 256 \<Longrightarrow> d \<in> set (b64_digits bs) \<Longrightarrow> d < 64"
proof (induction bs rule: b64_digits.induct)
  case (2 a)
  then show ?case by auto
next
  case (3 a b)
  have "a mod 4 * 16 + b div 16 < 64" using "3.prems"(1) by auto
  then show ?case using "3.prems" by auto
next
  case (4 a b c s)
  have "a mod 4 * 16 + b div 16 < 64" "b mod 16 * 4 + c div 64 < 64" using "4.prems"(1) by auto
  then show ?case using 4 by auto
qed simp

lemma b64_bytes_digits: "\<forall>a \<in> set bs. a < 256 \<Longrightarrow> b64_bytes (b64_digits bs) = Some bs"
  by (induction bs rule: b64_digits.induct) auto

lemma b64_decode_encode: "b64_decode (b64_encode s) = Some s"
proof -
  let ?ds = "b64_digits (map code_of s)"
  have "\<forall>a \<in> set (map code_of s). a < 256" by auto
  then have small: "\<forall>d \<in> set ?ds. d < 64" and bytes: "b64_bytes ?ds = Some (map code_of s)"
    using b64_digits_small b64_bytes_digits by blast+
  have "filter (\<lambda>c. c \<noteq> CHR 0x0A \<and> c \<noteq> CHR 0x0D) (map b64_char ?ds) = map b64_char ?ds"
    using small b64_char_not_newline by (auto intro!: filter_True)
  moreover have "map (\<lambda>c. the (b64_value c)) (map b64_char ?ds) = ?ds"
    using small by (simp add: map_idI b64_value_char)
  moreover have "\<not> (\<exists>c \<in> set (map b64_char ?ds). b64_value c = None)"
    using small by (auto simp: b64_value_char)
  moreover have "map char_of (map code_of s) = s"
    by (simp add: map_idI)
  ultimately show ?thesis
    by (simp add: b64_decode_def b64_encode_def Let_def bytes del: map_map list.map_comp)
qed

text \<open>The alphabet is ASCII, so encoded text passes through JSON unchanged.\<close>

lemma code_of_b64_char:
  assumes "n < 64"
  shows "code_of (b64_char n) < 128"
proof -
  have "n - 4 < 128" using assms by linarith
  then show ?thesis using assms by (simp add: b64_char_def)
qed

lemma ascii_b64: "ascii (b64_encode s)"
proof -
  have "\<forall>a \<in> set (map code_of s). a < 256" by auto
  then show ?thesis
    by (auto simp: ascii_def b64_encode_def intro!: code_of_b64_char b64_digits_small)
qed

interpretation b64: codec b64_encode b64_decode "\<lambda>_. True"
  by unfold_locales (simp add: b64_decode_encode)

interpretation js: codec json_print json_parse printable
  by unfold_locales (rule json_roundtrip)

section \<open>Hexadecimal\<close>

definition hex_encode :: "string \<Rightarrow> string" where
  "hex_encode s = concat (map (\<lambda>c. [hex_digit (code_of c div 16), hex_digit (code_of c mod 16)]) s)"

section \<open>SHA-256\<close>

type_synonym w32 = "32 word"

text \<open>
  The constants are the first 32 bits of the fractional parts of the cube roots and of the square roots of the first primes:
  \<open>root_bits e k 0 n\<close> is the greatest integer of at most \<open>k\<close> bits whose power \<open>e\<close> is at most \<open>n\<close>.
\<close>

fun root_bits :: "nat \<Rightarrow> nat \<Rightarrow> int \<Rightarrow> int \<Rightarrow> int" where
  "root_bits e 0 r n = r"
| "root_bits e (Suc k) r n = root_bits e k (if (r + 2 ^ k) ^ e \<le> n then r + 2 ^ k else r) n"

definition small_primes :: "int list" where
  "small_primes = filter (\<lambda>n. list_all (\<lambda>d. n mod d \<noteq> 0) [2..n - 1]) [2..311]"

definition sha_k :: "w32 list" where
  "sha_k = map (\<lambda>p. word_of_int (root_bits 3 35 0 (p * 2 ^ 96))) small_primes"

definition sha_init :: "w32 list" where
  "sha_init = map (\<lambda>p. word_of_int (root_bits 2 36 0 (p * 2 ^ 64))) (take 8 small_primes)"

definition small0 :: "w32 \<Rightarrow> w32" where
  "small0 x = (word_rotr 7 x XOR word_rotr 18 x) XOR drop_bit 3 x"

definition small1 :: "w32 \<Rightarrow> w32" where
  "small1 x = (word_rotr 17 x XOR word_rotr 19 x) XOR drop_bit 10 x"

definition big0 :: "w32 \<Rightarrow> w32" where
  "big0 x = (word_rotr 2 x XOR word_rotr 13 x) XOR word_rotr 22 x"

definition big1 :: "w32 \<Rightarrow> w32" where
  "big1 x = (word_rotr 6 x XOR word_rotr 11 x) XOR word_rotr 25 x"

text \<open>The message schedule, newest word first.\<close>

primrec schedule :: "nat \<Rightarrow> w32 list \<Rightarrow> w32 list" where
  "schedule 0 ws = ws"
| "schedule (Suc n) ws =
     schedule n ((small1 (ws ! 1) + ws ! 6 + small0 (ws ! 14) + ws ! 15) # ws)"

fun sha_round :: "w32 list \<Rightarrow> w32 \<times> w32 \<Rightarrow> w32 list" where
  "sha_round [a, b, c, d, e, f, g, h] (k, w) =
     (let t1 = h + big1 e + ((e AND f) XOR (NOT e AND g)) + k + w;
          t2 = big0 a + (((a AND b) XOR (a AND c)) XOR (b AND c))
      in [t1 + t2, a, b, c, d + t1, e, f, g])"
| "sha_round st kw = st"

definition compress :: "w32 list \<Rightarrow> w32 list \<Rightarrow> w32 list" where
  "compress h block =
     map2 (+) h (foldl sha_round h (zip sha_k (rev (schedule 48 (rev block)))))"

fun be_words :: "nat list \<Rightarrow> w32 list" where
  "be_words (a # b # c # d # s) =
     (word_of_nat a * 16777216 + word_of_nat b * 65536 + word_of_nat c * 256 + word_of_nat d) # be_words s"
| "be_words _ = []"

definition word_bytes :: "w32 \<Rightarrow> nat list" where
  "word_bytes w = map (\<lambda>n. unat (drop_bit n w AND 255)) [24, 16, 8, 0]"

definition sha_pad :: "nat list \<Rightarrow> nat list" where
  "sha_pad m =
     (let l = length m; bits = 8 * int l
      in m @ [128] @ replicate ((119 - l mod 64) mod 64) 0 @
         map (\<lambda>i. nat (bits div 256 ^ i mod 256)) (rev [0..<8]))"

primrec sha_blocks :: "nat \<Rightarrow> w32 list \<Rightarrow> w32 list \<Rightarrow> w32 list" where
  "sha_blocks 0 h ws = h"
| "sha_blocks (Suc n) h ws = sha_blocks n (compress h (take 16 ws)) (drop 16 ws)"

definition sha256_bytes :: "nat list \<Rightarrow> nat list" where
  "sha256_bytes m =
     (let p = sha_pad m
      in concat (map word_bytes (sha_blocks (length p div 64) sha_init (be_words p))))"

definition sha256 :: "string \<Rightarrow> string" where
  "sha256 s = map char_of (sha256_bytes (map code_of s))"

text \<open>A digest is never empty.\<close>

lemma length_sha_round: "length (sha_round st kw) = length st"
  by (cases "(st, kw)" rule: sha_round.cases) (simp_all add: Let_def)

lemma length_compress: "length (compress h block) = length h"
proof -
  have "length (foldl sha_round h xs) = length h" for xs
    by (induction xs arbitrary: h) (simp_all add: length_sha_round)
  then show ?thesis by (simp add: compress_def)
qed

lemma length_sha_blocks: "length (sha_blocks n h ws) = length h"
  by (induction n arbitrary: h ws) (simp_all add: length_compress)

lemma hex_sha256_nonempty: "hex_encode (sha256 s) \<noteq> []"
proof -
  have some: "2 \<le> m \<Longrightarrow> filter (\<lambda>n. list_all (\<lambda>d. n mod d \<noteq> 0) [2..n - 1]) [2..m] \<noteq> []" for m :: int
    unfolding filter_empty_conv by (force intro: bexI [of _ 2])
  have "small_primes \<noteq> []" unfolding small_primes_def by (rule some) simp
  then have "sha_init \<noteq> []" by (simp add: sha_init_def)
  then have "sha_blocks n sha_init ws \<noteq> []" for n ws using length_sha_blocks [of n sha_init ws] by (metis length_0_conv)
  moreover have "concat (map word_bytes ws) \<noteq> []" if "ws \<noteq> []" for ws
    using that by (cases ws) (simp_all add: word_bytes_def)
  ultimately have "sha256_bytes m \<noteq> []" for m by (simp only: sha256_bytes_def Let_def not_False_eq_True)
  then show ?thesis by (simp add: hex_encode_def sha256_def)
qed

section \<open>HMAC\<close>

definition hmac_sha256 :: "string \<Rightarrow> string \<Rightarrow> string" where
  "hmac_sha256 key msg =
     (let k0 = (if length key > 64 then sha256_bytes (map code_of key) else map code_of key);
          k = k0 @ replicate (64 - length k0) 0;
          ipad = map (\<lambda>b. b XOR 0x36) k;
          opad = map (\<lambda>b. b XOR 0x5C) k
      in map char_of (sha256_bytes (opad @ sha256_bytes (ipad @ map code_of msg))))"

end
