(* ===== verification/Pairing_Approval.thy ===== *)
theory Pairing_Approval
  imports Go_Encoding
begin

text \<open>
  \<open>internal/security/pairing_approval.go\<close>: the requests of devices to pair, which the owner of the machine
  approves or rejects. Every operation first drops what has expired at its instant \<open>now\<close>.

  Pointers to requests are their values (the maps never hold nil); the random bytes of a request identifier
  are an argument. The invariant says that the two indexes of the pending requests, by identifier and by
  token nonce, are inverse to each other.
\<close>

datatype approval_status = StatusNone | StatusPending | StatusApproved | StatusRejected

record pairing_request =
  RequestID :: string
  RemoteAddr :: string
  UserAgent :: string
  pr_created :: time
  ExpiresAt :: time
  nonce :: string

record approvals =
  pendingByID :: "(string, pairing_request) gomap"
  pendingByNonce :: "(string, string) gomap"
  approvedNonces :: "(string, time) gomap"
  rejectedNonces :: "(string, time) gomap"

definition NewPairingApprovalManager :: approvals where
  "NewPairingApprovalManager =
     \<lparr>pendingByID = [], pendingByNonce = [], approvedNonces = [], rejectedNonces = []\<rparr>"

definition cleanupExpiredLocked :: "time \<Rightarrow> approvals \<Rightarrow> approvals" where
  "cleanupExpiredLocked now m =
     (let expired = filter (\<lambda>(_, req). \<not> ExpiresAt req > now) (pendingByID m)
      in m\<lparr>approvedNonces := mdel_if (\<lambda>_ e. \<not> e > now) (approvedNonces m),
           rejectedNonces := mdel_if (\<lambda>_ e. \<not> e > now) (rejectedNonces m),
           pendingByID := mdel_if (\<lambda>_ req. \<not> ExpiresAt req > now) (pendingByID m),
           pendingByNonce := fold (\<lambda>(_, req). mdel (nonce req)) expired (pendingByNonce m)\<rparr>)"

definition newPairingRequestID :: "string option \<Rightarrow> string option" where
  "newPairingRequestID rnd = map_option (\<lambda>b. ''pairreq_'' @ hex_encode (take 12 b)) rnd"

datatype approval_error = Nonce_required | No_request_id | Pending_not_found

definition EnsurePending ::
  "string option \<Rightarrow> time \<Rightarrow> string \<Rightarrow> string \<Rightarrow> string \<Rightarrow> time \<Rightarrow> approvals \<Rightarrow>
     (approval_error + pairing_request) \<times> approvals" where
  "EnsurePending rnd now n remoteAddr userAgent expiresAt m0 =
     (if n = [] then (Inl Nonce_required, m0)
      else
        (let m = cleanupExpiredLocked now m0;
             existing = Option.bind (mget (pendingByNonce m) n) (mget (pendingByID m));
             m1 = (case existing of
                     Some _ \<Rightarrow> m | None \<Rightarrow> m\<lparr>pendingByNonce := mdel n (pendingByNonce m)\<rparr>)
         in case existing of
              Some req \<Rightarrow> (Inr req, m1)
            | None \<Rightarrow>
                (case newPairingRequestID rnd of
                   None \<Rightarrow> (Inl No_request_id, m1)
                 | Some rid \<Rightarrow>
                     (let ex = (if expiresAt = zero_time \<or> \<not> expiresAt > now then now + 5 * minute else expiresAt);
                          req = \<lparr>RequestID = rid, RemoteAddr = remoteAddr, UserAgent = userAgent,
                                 pr_created = now, ExpiresAt = ex, nonce = n\<rparr>
                      in (Inr req, m1\<lparr>pendingByID := mput rid req (pendingByID m1),
                                      pendingByNonce := mput n rid (pendingByNonce m1)\<rparr>)))))"

definition Status :: "time \<Rightarrow> string \<Rightarrow> approvals \<Rightarrow> approval_status \<times> approvals" where
  "Status now n m0 =
     (if n = [] then (StatusNone, m0)
      else (let m = cleanupExpiredLocked now m0
            in (if mem_key n (approvedNonces m) then StatusApproved
                else if mem_key n (rejectedNonces m) then StatusRejected
                else if mem_key n (pendingByNonce m) then StatusPending
                else StatusNone, m)))"

definition Approve :: "time \<Rightarrow> string \<Rightarrow> approvals \<Rightarrow> pairing_request option \<times> approvals" where
  "Approve now rid m0 =
     (let m = cleanupExpiredLocked now m0 in
      case mget (pendingByID m) rid of
        None \<Rightarrow> (None, m)
      | Some req \<Rightarrow>
          (Some req, m\<lparr>pendingByID := mdel rid (pendingByID m),
                      pendingByNonce := mdel (nonce req) (pendingByNonce m),
                      approvedNonces := mput (nonce req) (ExpiresAt req) (approvedNonces m)\<rparr>))"

definition Reject :: "time \<Rightarrow> string \<Rightarrow> approvals \<Rightarrow> pairing_request option \<times> approvals" where
  "Reject now rid m0 =
     (let m = cleanupExpiredLocked now m0 in
      case mget (pendingByID m) rid of
        None \<Rightarrow> (None, m)
      | Some req \<Rightarrow>
          (Some req, m\<lparr>pendingByID := mdel rid (pendingByID m),
                      pendingByNonce := mdel (nonce req) (pendingByNonce m),
                      rejectedNonces := mput (nonce req) (ExpiresAt req) (rejectedNonces m)\<rparr>))"

definition ListPending :: "string list \<Rightarrow> time \<Rightarrow> approvals \<Rightarrow> pairing_request list \<times> approvals" where
  "ListPending order now m0 =
     (let m = cleanupExpiredLocked now m0 in (map snd (range_entries order (pendingByID m)), m))"

definition ClearTokenDecision :: "string \<Rightarrow> approvals \<Rightarrow> approvals" where
  "ClearTokenDecision n m =
     (if n = [] then m
      else (let m1 = (case mget (pendingByNonce m) n of
                None \<Rightarrow> m
              | Some rid \<Rightarrow> m\<lparr>pendingByNonce := mdel n (pendingByNonce m), pendingByID := mdel rid (pendingByID m)\<rparr>)
            in m1\<lparr>approvedNonces := mdel n (approvedNonces m1), rejectedNonces := mdel n (rejectedNonces m1)\<rparr>))"

section \<open>The two indexes agree\<close>

definition indexes_ok :: "approvals \<Rightarrow> bool" where
  "indexes_ok m \<longleftrightarrow>
     wf_map (pendingByID m) \<and> wf_map (approvedNonces m) \<and> wf_map (rejectedNonces m) \<and>
     (\<forall>rid req. mget (pendingByID m) rid = Some req \<longrightarrow>
        RequestID req = rid \<and> nonce req \<noteq> [] \<and> mget (pendingByNonce m) (nonce req) = Some rid) \<and>
     (\<forall>n rid. mget (pendingByNonce m) n = Some rid \<longrightarrow>
        (\<exists>req. mget (pendingByID m) rid = Some req \<and> nonce req = n))"

lemma fold_mdel: "mget (fold (\<lambda>(_, req). mdel (f req)) xs m) n = (if n \<in> f ` snd ` set xs then None else mget m n)"
  by (induction xs arbitrary: m) (auto simp: case_prod_unfold)

lemma cleanup_pending:
  "wf_map (pendingByID m) \<Longrightarrow> mget (pendingByID (cleanupExpiredLocked now m)) rid =
    (case mget (pendingByID m) rid of None \<Rightarrow> None | Some req \<Rightarrow> if ExpiresAt req > now then Some req else None)"
  by (simp add: cleanupExpiredLocked_def Let_def mget_mdel_if split: option.split)

lemma cleanup_nonce:
  assumes "indexes_ok m"
  shows "mget (pendingByNonce (cleanupExpiredLocked now m)) n =
    (case mget (pendingByNonce m) n of
       None \<Rightarrow> None
     | Some rid \<Rightarrow> if mget (pendingByID (cleanupExpiredLocked now m)) rid = None then None else Some rid)"
proof -
  have wf: "wf_map (pendingByID m)" using assms by (simp add: indexes_ok_def)
  have gone: "n \<in> nonce ` snd ` set (filter (\<lambda>(_, req). \<not> ExpiresAt req > now) (pendingByID m)) \<longleftrightarrow>
      (\<exists>rid req. mget (pendingByID m) rid = Some req \<and> nonce req = n \<and> \<not> ExpiresAt req > now)"
    by (force simp: mget_iff_in_set [OF wf])
  have eq: "mget (pendingByNonce (cleanupExpiredLocked now m)) n =
      (if \<exists>rid req. mget (pendingByID m) rid = Some req \<and> nonce req = n \<and> \<not> ExpiresAt req > now
       then None else mget (pendingByNonce m) n)"
    unfolding gone [symmetric] by (simp add: cleanupExpiredLocked_def Let_def fold_mdel)
  show ?thesis
  proof (cases "mget (pendingByNonce m) n")
    case None
    then show ?thesis using eq by simp
  next
    case (Some rid)
    then obtain req where req: "mget (pendingByID m) rid = Some req" "nonce req = n"
      using assms unfolding indexes_ok_def by blast
    have "rid' = rid" if "mget (pendingByID m) rid' = Some req'" "nonce req' = n" for rid' req'
      using that Some assms unfolding indexes_ok_def by (metis option.inject)
    then have "(\<exists>rid req. mget (pendingByID m) rid = Some req \<and> nonce req = n \<and> \<not> ExpiresAt req > now) \<longleftrightarrow>
        \<not> ExpiresAt req > now"
      using req by (metis option.inject)
    then show ?thesis using eq Some req cleanup_pending [OF wf, of now rid] by simp
  qed
qed

lemma cleanup_indexes [invs]:
  assumes "indexes_ok m"
  shows "indexes_ok (cleanupExpiredLocked now m)"
proof -
  let ?m = "cleanupExpiredLocked now m"
  have wf: "wf_map (pendingByID m)" using assms by (simp add: indexes_ok_def)
  have a: "RequestID req = rid \<and> nonce req \<noteq> [] \<and> mget (pendingByNonce ?m) (nonce req) = Some rid"
    if "mget (pendingByID ?m) rid = Some req" for rid req
  proof -
    have old: "mget (pendingByID m) rid = Some req"
      using that cleanup_pending [OF wf] by (auto split: option.splits if_splits)
    then have "RequestID req = rid \<and> nonce req \<noteq> [] \<and> mget (pendingByNonce m) (nonce req) = Some rid"
      using assms unfolding indexes_ok_def by blast
    then show ?thesis using cleanup_nonce [OF assms, of now "nonce req"] that by simp
  qed
  have b: "\<exists>req. mget (pendingByID ?m) rid = Some req \<and> nonce req = n"
    if "mget (pendingByNonce ?m) n = Some rid" for n rid
  proof -
    have "mget (pendingByNonce m) n = Some rid" "mget (pendingByID ?m) rid \<noteq> None"
      using that cleanup_nonce [OF assms, of now n] by (auto split: option.splits if_splits)
    moreover from this(1) obtain req where "mget (pendingByID m) rid = Some req" "nonce req = n"
      using assms unfolding indexes_ok_def by blast
    ultimately show ?thesis using cleanup_pending [OF wf, of now rid] by (auto split: if_splits)
  qed
  have "wf_map (pendingByID ?m)" "wf_map (approvedNonces ?m)" "wf_map (rejectedNonces ?m)"
    using assms by (simp_all add: indexes_ok_def cleanupExpiredLocked_def Let_def)
  then show ?thesis using a b unfolding indexes_ok_def by blast
qed

lemma indexes_remove:
  assumes "indexes_ok m" "mget (pendingByID m) rid = Some req"
  shows "indexes_ok (m\<lparr>pendingByID := mdel rid (pendingByID m), pendingByNonce := mdel (nonce req) (pendingByNonce m)\<rparr>)"
proof -
  have n: "mget (pendingByNonce m) (nonce req) = Some rid" using assms unfolding indexes_ok_def by blast
  have a: "RequestID q = k \<and> nonce q \<noteq> [] \<and> mget (mdel (nonce req) (pendingByNonce m)) (nonce q) = Some k"
    if "mget (mdel rid (pendingByID m)) k = Some q" for k q
  proof -
    have k: "k \<noteq> rid" "mget (pendingByID m) k = Some q" using that by (auto split: if_splits)
    then have "RequestID q = k \<and> nonce q \<noteq> [] \<and> mget (pendingByNonce m) (nonce q) = Some k"
      using assms(1) unfolding indexes_ok_def by blast
    then show ?thesis using k(1) n by auto
  qed
  have b: "\<exists>q. mget (mdel rid (pendingByID m)) k = Some q \<and> nonce q = n'"
    if "mget (mdel (nonce req) (pendingByNonce m)) n' = Some k" for n' k
  proof -
    have n': "n' \<noteq> nonce req" "mget (pendingByNonce m) n' = Some k" using that by (auto split: if_splits)
    then obtain q where "mget (pendingByID m) k = Some q" "nonce q = n'"
      using assms(1) unfolding indexes_ok_def by blast
    then show ?thesis using n'(1) assms(2) by auto
  qed
  have "wf_map (pendingByID m)" "wf_map (approvedNonces m)" "wf_map (rejectedNonces m)"
    using assms(1) by (simp_all add: indexes_ok_def)
  then show ?thesis using a b unfolding indexes_ok_def by (simp add: wf_map_mdel)
qed

lemma indexes_approved: "indexes_ok m \<Longrightarrow> wf_map a \<Longrightarrow> indexes_ok (m\<lparr>approvedNonces := a\<rparr>)"
  by (simp add: indexes_ok_def)

lemma indexes_rejected: "indexes_ok m \<Longrightarrow> wf_map a \<Longrightarrow> indexes_ok (m\<lparr>rejectedNonces := a\<rparr>)"
  by (simp add: indexes_ok_def)

text \<open>The only randomness assumption: a new request identifier is not the one of a pending request.\<close>

lemma EnsurePending_ok [invs]:
  assumes "indexes_ok m" "\<And>rid. newPairingRequestID rnd = Some rid \<Longrightarrow> mget (pendingByID m) rid = None"
  shows "indexes_ok (snd (EnsurePending rnd now n addr ua ex m))"
proof (cases "n = []")
  case True
  then show ?thesis using assms(1) by (simp add: EnsurePending_def)
next
  case False
  let ?m = "cleanupExpiredLocked now m"
  have ok: "indexes_ok ?m" using assms(1) by (rule cleanup_indexes)
  have fresh: "mget (pendingByID ?m) rid = None" if "newPairingRequestID rnd = Some rid" for rid
    using assms(2) [OF that] cleanup_pending [of m now rid] assms(1) by (simp add: indexes_ok_def)
  show ?thesis
  proof (cases "mget (pendingByNonce ?m) n")
    case (Some rid)
    then obtain req where "mget (pendingByID ?m) rid = Some req" using ok unfolding indexes_ok_def by blast
    then show ?thesis using Some False ok by (simp add: EnsurePending_def Let_def)
  next
    case None
    have same: "indexes_ok (?m\<lparr>pendingByNonce := mdel n (pendingByNonce ?m)\<rparr>)"
      using ok None unfolding indexes_ok_def by (auto split: if_splits)
    show ?thesis
    proof (cases "newPairingRequestID rnd")
      case None': None
      then show ?thesis using None False same by (simp add: EnsurePending_def Let_def)
    next
      case (Some rid)
      have new: "indexes_ok (?m\<lparr>pendingByID := mput rid req (pendingByID ?m), pendingByNonce := mput n rid (mdel n (pendingByNonce ?m))\<rparr>)"
        if "RequestID req = rid" "nonce req = n" for req
      proof -
        have "nonce q \<noteq> n" if "mget (pendingByID ?m) k = Some q" for k q
          using that ok None unfolding indexes_ok_def by (metis option.distinct(1))
        moreover have "k \<noteq> rid" if "mget (pendingByNonce ?m) n' = Some k" for n' k
          using that ok fresh [OF Some] unfolding indexes_ok_def by (metis option.distinct(1))
        ultimately show ?thesis
          using ok that False unfolding indexes_ok_def by (auto split: if_splits)
      qed
      then show ?thesis
        using None Some False by (simp add: EnsurePending_def Let_def)
    qed
  qed
qed

lemma Approve_ok [invs]:
  assumes "indexes_ok m"
  shows "indexes_ok (snd (Approve now rid m))"
proof -
  note ok = cleanup_indexes [OF assms, of now]
  then have "wf_map (approvedNonces (cleanupExpiredLocked now m))" by (simp add: indexes_ok_def)
  then show ?thesis
    using indexes_approved [OF indexes_remove [OF ok]] ok
    by (auto simp: Approve_def Let_def split: option.split)
qed

lemma Reject_ok [invs]:
  assumes "indexes_ok m"
  shows "indexes_ok (snd (Reject now rid m))"
proof -
  note ok = cleanup_indexes [OF assms, of now]
  then have "wf_map (rejectedNonces (cleanupExpiredLocked now m))" by (simp add: indexes_ok_def)
  then show ?thesis
    using indexes_rejected [OF indexes_remove [OF ok]] ok
    by (auto simp: Reject_def Let_def split: option.split)
qed

lemma Status_ok [invs]: "indexes_ok m \<Longrightarrow> indexes_ok (snd (Status now n m))"
  by (simp add: Status_def Let_def cleanup_indexes)

lemma ListPending_ok [invs]: "indexes_ok m \<Longrightarrow> indexes_ok (snd (ListPending order now m))"
  by (simp add: ListPending_def Let_def cleanup_indexes)

lemma ClearTokenDecision_ok [invs]:
  assumes "indexes_ok m"
  shows "indexes_ok (ClearTokenDecision n m)"
proof (cases "mget (pendingByNonce m) n")
  case None
  then show ?thesis using assms by (simp add: ClearTokenDecision_def indexes_ok_def)
next
  case (Some rid)
  then obtain req where req: "mget (pendingByID m) rid = Some req" "nonce req = n"
    using assms unfolding indexes_ok_def by blast
  have "indexes_ok (m\<lparr>pendingByID := mdel rid (pendingByID m), pendingByNonce := mdel n (pendingByNonce m)\<rparr>)"
    using indexes_remove [OF assms req(1)] req(2) by simp
  then have "indexes_ok (m\<lparr>pendingByNonce := mdel n (pendingByNonce m), pendingByID := mdel rid (pendingByID m),
      approvedNonces := mdel n (approvedNonces m), rejectedNonces := mdel n (rejectedNonces m)\<rparr>)"
    by (simp add: indexes_ok_def)
  then show ?thesis using Some assms by (cases "n = []") (simp_all add: ClearTokenDecision_def Let_def)
qed

section \<open>A request is decided once\<close>

lemma cleanup_delete:
  "mdel_if p (mdel k (mdel_if p m)) = mdel k (mdel_if p m)" "mdel_if p (mdel_if p m) = mdel_if p m"
  by (auto simp: mdel_if_def mdel_eq_filter intro!: filter_cong)

lemma cleanup_by_id: "pendingByID (cleanupExpiredLocked now m) = mdel_if (\<lambda>_ req. \<not> ExpiresAt req > now) (pendingByID m)"
  by (simp add: cleanupExpiredLocked_def Let_def)

interpretation appr: taken_once "\<lambda>m rid. mget (pendingByID (cleanupExpiredLocked now m)) rid" "Approve now" for now
  by unfold_locales (auto simp: Approve_def Let_def cleanup_by_id cleanup_delete split: option.split)

interpretation rej: taken_once "\<lambda>m rid. mget (pendingByID (cleanupExpiredLocked now m)) rid" "Reject now" for now
  by unfold_locales (auto simp: Reject_def Let_def cleanup_by_id cleanup_delete split: option.split)

text \<open>What the status of a nonce is, read off the tables without cleaning them.\<close>

definition status_spec :: "time \<Rightarrow> string \<Rightarrow> approvals \<Rightarrow> approval_status" where
  "status_spec t n m =
     (if n = [] then StatusNone
      else if \<exists>e. mget (approvedNonces m) n = Some e \<and> e > t then StatusApproved
      else if \<exists>e. mget (rejectedNonces m) n = Some e \<and> e > t then StatusRejected
      else if \<exists>rid req. mget (pendingByNonce m) n = Some rid \<and> mget (pendingByID m) rid = Some req \<and> ExpiresAt req > t
        then StatusPending
      else StatusNone)"

lemma Status_is_spec:
  assumes "indexes_ok m"
  shows "fst (Status t n m) = status_spec t n m"
proof -
  have wf: "wf_map (pendingByID m)" "wf_map (approvedNonces m)" "wf_map (rejectedNonces m)"
    using assms by (simp_all add: indexes_ok_def)
  have ar: "mem_key n (approvedNonces (cleanupExpiredLocked t m)) \<longleftrightarrow> (\<exists>e. mget (approvedNonces m) n = Some e \<and> e > t)"
    "mem_key n (rejectedNonces (cleanupExpiredLocked t m)) \<longleftrightarrow> (\<exists>e. mget (rejectedNonces m) n = Some e \<and> e > t)"
    using wf by (auto simp: mem_key_def cleanupExpiredLocked_def Let_def mget_mdel_if split: option.splits)
  have "mem_key n (pendingByNonce (cleanupExpiredLocked t m)) \<longleftrightarrow>
      (\<exists>rid req. mget (pendingByNonce m) n = Some rid \<and> mget (pendingByID m) rid = Some req \<and> ExpiresAt req > t)"
    using cleanup_nonce [OF assms, of t n] cleanup_pending [OF wf(1), of t]
    by (auto simp: mem_key_def split: option.splits if_splits)
  note p = this
  show ?thesis
    unfolding Status_def Let_def status_spec_def ar p by (cases "n = []") simp_all
qed

lemma status_spec_cleanup:
  assumes "indexes_ok m" "now \<le> t"
  shows "status_spec t n (cleanupExpiredLocked now m) = status_spec t n m"
proof -
  have wf: "wf_map (pendingByID m)" "wf_map (approvedNonces m)" "wf_map (rejectedNonces m)"
    using assms by (simp_all add: indexes_ok_def)
  have ar: "(\<exists>e. mget (approvedNonces (cleanupExpiredLocked now m)) n = Some e \<and> e > t) \<longleftrightarrow> (\<exists>e. mget (approvedNonces m) n = Some e \<and> e > t)"
    "(\<exists>e. mget (rejectedNonces (cleanupExpiredLocked now m)) n = Some e \<and> e > t) \<longleftrightarrow> (\<exists>e. mget (rejectedNonces m) n = Some e \<and> e > t)"
    using wf assms(2) by (auto simp: cleanupExpiredLocked_def Let_def mget_mdel_if split: option.splits)
  have "(\<exists>rid req. mget (pendingByNonce (cleanupExpiredLocked now m)) n = Some rid \<and>
        mget (pendingByID (cleanupExpiredLocked now m)) rid = Some req \<and> ExpiresAt req > t) \<longleftrightarrow>
      (\<exists>rid req. mget (pendingByNonce m) n = Some rid \<and> mget (pendingByID m) rid = Some req \<and> ExpiresAt req > t)"
    using cleanup_nonce [OF assms(1), of now n] cleanup_pending [OF wf(1), of now] assms(2)
    by (fastforce split: option.splits if_splits)
  note p = this
  show ?thesis unfolding status_spec_def ar p by (rule refl)
qed

text \<open>
  An approval settles one pairing request: from then until the request expires its token counts as approved,
  afterwards as unknown; the request is no longer pending, so neither a second approval nor a rejection
  finds it; and the status of every other token is what it was.
\<close>

theorem Approve_settles:
  assumes "indexes_ok m" "Approve now rid m = (Some req, m')" "now \<le> t"
    and "mget (rejectedNonces m) (nonce req) = None"
  shows "fst (Status t (nonce req) m') = (if ExpiresAt req > t then StatusApproved else StatusNone) \<and>
    fst (Approve now rid m') = None \<and> fst (Reject now rid m') = None \<and> RequestID req = rid \<and>
    (\<forall>n. n \<noteq> nonce req \<longrightarrow> fst (Status t n m') = fst (Status t n m))"
proof -
  let ?m = "cleanupExpiredLocked now m"
  have ok: "indexes_ok ?m" using assms(1) by (rule cleanup_indexes)
  have req: "mget (pendingByID ?m) rid = Some req"
    and m': "m' = ?m\<lparr>pendingByID := mdel rid (pendingByID ?m), pendingByNonce := mdel (nonce req) (pendingByNonce ?m),
      approvedNonces := mput (nonce req) (ExpiresAt req) (approvedNonces ?m)\<rparr>"
    using assms(2) by (auto simp: Approve_def Let_def split: option.splits)
  have nonce: "nonce req \<noteq> []" "RequestID req = rid" using ok req unfolding indexes_ok_def by blast+
  have ok': "indexes_ok m'" using Approve_ok [OF assms(1), of now rid] assms(2) by simp
  have rej: "mget (rejectedNonces ?m) (nonce req) = None"
    using assms(1,4) by (simp add: cleanupExpiredLocked_def Let_def mget_mdel_if indexes_ok_def)
  have self: "fst (Status t (nonce req) m') = (if ExpiresAt req > t then StatusApproved else StatusNone)"
    unfolding Status_is_spec [OF ok'] using nonce rej by (simp add: status_spec_def m')
  have "fst (Approve now rid m') = None"
    using appr.take_twice [of now rid m] assms(2) by simp
  moreover have "fst (Reject now rid m') = None"
    using appr.look_take [of now rid m rid] assms(2) rej.take_result [of now rid m'] by simp
  moreover have "fst (Status t n m') = fst (Status t n m)" if "n \<noteq> nonce req" for n
  proof -
    have "r \<noteq> rid" if "mget (pendingByNonce ?m) n = Some r" for r
      using that \<open>n \<noteq> nonce req\<close> ok req unfolding indexes_ok_def by (metis option.inject)
    then have "status_spec t n m' = status_spec t n ?m"
      using that unfolding status_spec_def m' by auto
    then show ?thesis
      using status_spec_cleanup [OF assms(1,3)] by (simp add: Status_is_spec [OF ok'] Status_is_spec [OF assms(1)])
  qed
  ultimately show ?thesis using self nonce(2) by simp
qed

definition demo_approvals :: approvals where
  "demo_approvals = snd (EnsurePending (Some ''abcdefghijkl'') 0 ''n1'' ''10.0.0.7'' ''phone'' hour NewPairingApprovalManager)"

lemma indexes_ok_new: "indexes_ok NewPairingApprovalManager"
  by (simp add: indexes_ok_def NewPairingApprovalManager_def)

lemma demo_approvals_ok: "indexes_ok demo_approvals"
  unfolding demo_approvals_def
  by (rule EnsurePending_ok [OF indexes_ok_new]) (simp add: NewPairingApprovalManager_def)

definition demo_pairing_id :: string where
  "demo_pairing_id = ''pairreq_'' @ hex_encode ''abcdefghijkl''"

lemma demo_pairing_new: "newPairingRequestID (Some ''abcdefghijkl'') = Some demo_pairing_id"
  by (simp add: newPairingRequestID_def demo_pairing_id_def)

lemma demo_approve:
  "\<exists>req m'. Approve 1 demo_pairing_id demo_approvals = (Some req, m') \<and> nonce req = ''n1'' \<and> ExpiresAt req = hour"
  by (simp add: demo_approvals_def EnsurePending_def demo_pairing_new NewPairingApprovalManager_def
      cleanupExpiredLocked_def mdel_if_def Approve_def Let_def zero_time_def hour_def minute_def second_def)

lemma demo_not_rejected: "mget (rejectedNonces demo_approvals) n = None"
  by (simp add: demo_approvals_def EnsurePending_def demo_pairing_new NewPairingApprovalManager_def
      cleanupExpiredLocked_def mdel_if_def Let_def)

lemma Approve_settles_witness:
  "\<exists>req m'. Approve 1 demo_pairing_id demo_approvals = (Some req, m') \<and>
    fst (Status minute (nonce req) m') = (if ExpiresAt req > minute then StatusApproved else StatusNone) \<and>
    fst (Approve 1 demo_pairing_id m') = None \<and> fst (Reject 1 demo_pairing_id m') = None \<and>
    RequestID req = demo_pairing_id \<and>
    (\<forall>n. n \<noteq> nonce req \<longrightarrow> fst (Status minute n m') = fst (Status minute n demo_approvals))"
proof -
  obtain req m' where a: "Approve 1 demo_pairing_id demo_approvals = (Some req, m')" using demo_approve by blast
  have "(1 :: int) \<le> minute" by (simp add: minute_def second_def)
  from Approve_settles [OF demo_approvals_ok a this demo_not_rejected] a show ?thesis by blast
qed

end
