(* ===== verification/Events.thy ===== *)
theory Events
  imports Go_JSON "HOL-Library.List_Lexorder"
begin

text \<open>
  \<open>internal/domain/events\<close>: the events the daemon publishes. An event is the record of its envelope;
  its payload, an interface that is only ever marshalled, is represented by the JSON value
  \<open>encoding/json\<close> makes of the payload struct: one encoder per struct, with its field names, their order and
  \<open>omitempty\<close> as in the struct tags, and one function per constructor.

  A slice is an option: a nil slice is printed as null, an empty one as an empty array. A map prints
  with its keys sorted. The instant of \<open>time.Now()\<close> is an argument.
\<close>

section \<open>Times as text\<close>

text \<open>The Gregorian date of a day number since the epoch, by eras of 400 years.\<close>

definition civil :: "int \<Rightarrow> int \<times> int \<times> int" where
  "civil z0 =
     (let z = z0 + 719468; era = z div 146097; doe = z mod 146097;
          yoe = (doe - doe div 1460 + doe div 36524 - doe div 146096) div 365;
          doy = doe - (365 * yoe + yoe div 4 - yoe div 100);
          mp = (5 * doy + 2) div 153;
          m = (if mp < 10 then mp + 3 else mp - 9)
      in (yoe + era * 400 + (if m \<le> 2 then 1 else 0), m, doy - (153 * mp + 2) div 5 + 1))"

definition padded :: "nat \<Rightarrow> int \<Rightarrow> string" where
  "padded w n = (let s = show_int n in replicate (w - length s) (CHR ''0'') @ s)"

definition drop_zeros :: "string \<Rightarrow> string" where
  "drop_zeros s = rev (dropWhile (\<lambda>c. c = CHR ''0'') (rev s))"

definition nano_part :: "time \<Rightarrow> string" where
  "nano_part t = (let f = drop_zeros (padded 9 (t mod second)) in if f = [] then [] else ''.'' @ f)"

text \<open>RFC 3339 in a zone \<open>off\<close> seconds east of Greenwich (\<open>Z\<close> for zero), with or without the fraction.\<close>

definition rfc3339 :: "bool \<Rightarrow> int \<Rightarrow> time \<Rightarrow> string" where
  "rfc3339 frac off t =
     (let s = unix t + off; (y, m, d) = civil (s div 86400); r = s mod 86400
      in padded 4 y @ ''-'' @ padded 2 m @ ''-'' @ padded 2 d @ ''T'' @
         padded 2 (r div 3600) @ '':'' @ padded 2 (r div 60 mod 60) @ '':'' @ padded 2 (r mod 60) @
         (if frac then nano_part t else []) @
         (if off = 0 then ''Z''
          else (if off < 0 then ''-'' else ''+'') @ padded 2 (\<bar>off\<bar> div 3600) @ '':'' @ padded 2 (\<bar>off\<bar> div 60 mod 60)))"

section \<open>Encoding of fields\<close>

type_synonym 'a slice = "'a list option"
type_synonym members = "(string \<times> json) list"

definition f_str :: "string \<Rightarrow> string \<Rightarrow> members" where "f_str k s = [(k, JStr s)]"
definition f_str_opt :: "string \<Rightarrow> string \<Rightarrow> members" where "f_str_opt k s = (if s = [] then [] else [(k, JStr s)])"
definition f_int :: "string \<Rightarrow> int \<Rightarrow> members" where "f_int k n = [(k, JNum (show_int n))]"
definition f_int_opt :: "string \<Rightarrow> int \<Rightarrow> members" where "f_int_opt k n = (if n = 0 then [] else [(k, JNum (show_int n))])"
definition f_bool :: "string \<Rightarrow> bool \<Rightarrow> members" where "f_bool k b = [(k, JBool b)]"
definition f_bool_opt :: "string \<Rightarrow> bool \<Rightarrow> members" where "f_bool_opt k b = (if b then [(k, JBool b)] else [])"
definition f_ptr_opt :: "string \<Rightarrow> json option \<Rightarrow> members" where
  "f_ptr_opt k v = (case v of None \<Rightarrow> [] | Some j \<Rightarrow> [(k, j)])"
definition f_slice :: "string \<Rightarrow> json slice \<Rightarrow> members" where
  "f_slice k xs = [(k, case xs of None \<Rightarrow> JNull | Some js \<Rightarrow> JArr js)]"
definition f_slice_opt :: "string \<Rightarrow> json slice \<Rightarrow> members" where
  "f_slice_opt k xs = (case xs of None \<Rightarrow> [] | Some js \<Rightarrow> if js = [] then [] else [(k, JArr js)])"
definition map_json :: "(string, json) gomap \<Rightarrow> json" where
  "map_json m = JObj (sort_key (\<lambda>(k, _). map code_of k) m)"
definition f_map_opt :: "string \<Rightarrow> (string, json) gomap \<Rightarrow> members" where
  "f_map_opt k m = (if m = [] then [] else [(k, map_json m)])"

section \<open>The envelope\<close>

record event =
  EventType :: string
  EventTime :: time
  ev_workspace :: string
  ev_session :: string
  AgentType :: string
  Payload :: json
  RequestID :: string

definition SetContext :: "string \<Rightarrow> string \<Rightarrow> event \<Rightarrow> event" where
  "SetContext wid sid e = e\<lparr>ev_workspace := wid, ev_session := sid\<rparr>"

definition SetAgentType :: "string \<Rightarrow> event \<Rightarrow> event" where
  "SetAgentType a e = e\<lparr>AgentType := a\<rparr>"

definition GetWorkspaceID :: "event \<Rightarrow> string" where "GetWorkspaceID e = ev_workspace e"
definition GetSessionID :: "event \<Rightarrow> string" where "GetSessionID e = ev_session e"
definition Type :: "event \<Rightarrow> string" where "Type e = EventType e"
definition Timestamp :: "event \<Rightarrow> time" where "Timestamp e = EventTime e"

definition event_json :: "event \<Rightarrow> json" where
  "event_json e =
     JObj (f_str ''event'' (EventType e) @ f_str ''timestamp'' (rfc3339 True 0 (EventTime e)) @
           f_str_opt ''workspace_id'' (ev_workspace e) @ f_str_opt ''session_id'' (ev_session e) @
           f_str_opt ''agent_type'' (AgentType e) @ [(''payload'', Payload e)] @
           f_str_opt ''request_id'' (RequestID e))"

text \<open>\<open>time.Time\<close> refuses to marshal a year outside 0 to 9999.\<close>

definition ToJSON :: "event \<Rightarrow> string option" where
  "ToJSON e =
     (let y = fst (civil (unix (EventTime e) div 86400))
      in if 0 \<le> y \<and> y \<le> 9999 then Some (json_print (event_json e)) else None)"

definition NewEvent :: "time \<Rightarrow> string \<Rightarrow> json \<Rightarrow> event" where
  "NewEvent now ty p = \<lparr>EventType = ty, EventTime = now, ev_workspace = [], ev_session = [],
     AgentType = [], Payload = p, RequestID = []\<rparr>"

definition NewEventWithRequestID :: "time \<Rightarrow> string \<Rightarrow> json \<Rightarrow> string \<Rightarrow> event" where
  "NewEventWithRequestID now ty p rid = \<lparr>EventType = ty, EventTime = now, ev_workspace = [],
     ev_session = [], AgentType = [], Payload = p, RequestID = rid\<rparr>"

definition NewEventWithContext :: "time \<Rightarrow> string \<Rightarrow> json \<Rightarrow> string \<Rightarrow> string \<Rightarrow> event" where
  "NewEventWithContext now ty p wid sid = \<lparr>EventType = ty, EventTime = now, ev_workspace = wid,
     ev_session = sid, AgentType = [], Payload = p, RequestID = []\<rparr>"

section \<open>Terminal events\<close>

definition PTYOutputPayload :: "string \<Rightarrow> string \<Rightarrow> string \<Rightarrow> string \<Rightarrow> json" where
  "PTYOutputPayload cleanText rawText state sid =
     JObj (f_str ''clean_text'' cleanText @ f_str ''raw_text'' rawText @ f_str ''state'' state @
           f_str_opt ''session_id'' sid)"

record prompt_option =
  Key :: string
  Label :: string
  Description :: string
  Selected :: bool

definition prompt_option_json :: "prompt_option \<Rightarrow> json" where
  "prompt_option_json opt =
     JObj (f_str ''key'' (Key opt) @ f_str ''label'' (Label opt) @ f_str_opt ''description'' (Description opt) @
           f_bool ''selected'' (Selected opt))"

record permission_payload =
  pp_tool_use :: string
  pp_type :: string
  Target :: string
  pp_description :: string
  Preview :: string
  Options :: "prompt_option slice"
  pp_session :: string
  pp_workspace :: string

definition PTYPermissionPayload :: "permission_payload \<Rightarrow> json" where
  "PTYPermissionPayload p =
     JObj (f_str_opt ''tool_use_id'' (pp_tool_use p) @ f_str ''type'' (pp_type p) @
           f_str ''target'' (Target p) @ f_str ''description'' (pp_description p) @
           f_str ''preview'' (Preview p) @ f_slice ''options'' (map_option (map prompt_option_json) (Options p)) @
           f_str_opt ''session_id'' (pp_session p) @ f_str_opt ''workspace_id'' (pp_workspace p))"

definition PTYStatePayload :: "string \<Rightarrow> bool \<Rightarrow> string \<Rightarrow> string \<Rightarrow> json" where
  "PTYStatePayload state waiting promptType sid =
     JObj (f_str ''state'' state @ f_bool ''waiting_for_input'' waiting @
           f_str_opt ''prompt_type'' promptType @ f_str_opt ''session_id'' sid)"

definition PTYSpinnerPayload :: "string \<Rightarrow> string \<Rightarrow> string \<Rightarrow> string \<Rightarrow> json" where
  "PTYSpinnerPayload txt symbol msg sid =
     JObj (f_str ''text'' txt @ f_str ''symbol'' symbol @ f_str ''message'' msg @ f_str_opt ''session_id'' sid)"

definition PTYPermissionResolvedPayload :: "string \<Rightarrow> string \<Rightarrow> string \<Rightarrow> string \<Rightarrow> string \<Rightarrow> string \<Rightarrow> json" where
  "PTYPermissionResolvedPayload tid sid wid resolvedBy inp dec =
     JObj (f_str_opt ''tool_use_id'' tid @ f_str ''session_id'' sid @ f_str_opt ''workspace_id'' wid @
           f_str_opt ''resolved_by'' resolvedBy @ f_str_opt ''input'' inp @ f_str_opt ''decision'' dec)"

definition NewPTYOutputEvent :: "time \<Rightarrow> string \<Rightarrow> string \<Rightarrow> string \<Rightarrow> event" where
  "NewPTYOutputEvent now cleanText rawText state =
     NewEvent now ''pty_output'' (PTYOutputPayload cleanText rawText state [])"

definition NewPTYOutputEventWithSession :: "time \<Rightarrow> string \<Rightarrow> string \<Rightarrow> string \<Rightarrow> string \<Rightarrow> event" where
  "NewPTYOutputEventWithSession now cleanText rawText state sid =
     NewEvent now ''pty_output'' (PTYOutputPayload cleanText rawText state sid)"

definition NewPTYPermissionEvent ::
  "time \<Rightarrow> string \<Rightarrow> string \<Rightarrow> string \<Rightarrow> string \<Rightarrow> prompt_option slice \<Rightarrow> event" where
  "NewPTYPermissionEvent now ty target desc preview opts =
     NewEvent now ''pty_permission'' (PTYPermissionPayload
       \<lparr>pp_tool_use = [], pp_type = ty, Target = target, pp_description = desc, Preview = preview,
        Options = opts, pp_session = [], pp_workspace = []\<rparr>)"

definition NewPTYPermissionEventWithSession ::
  "time \<Rightarrow> string \<Rightarrow> string \<Rightarrow> string \<Rightarrow> string \<Rightarrow> string \<Rightarrow> prompt_option slice \<Rightarrow> event" where
  "NewPTYPermissionEventWithSession now ty target desc preview sid opts =
     NewEvent now ''pty_permission'' (PTYPermissionPayload
       \<lparr>pp_tool_use = [], pp_type = ty, Target = target, pp_description = desc, Preview = preview,
        Options = opts, pp_session = sid, pp_workspace = []\<rparr>)"

definition NewPTYStateEvent :: "time \<Rightarrow> string \<Rightarrow> bool \<Rightarrow> string \<Rightarrow> event" where
  "NewPTYStateEvent now state waiting promptType =
     NewEvent now ''pty_state'' (PTYStatePayload state waiting promptType [])"

definition NewPTYStateEventWithSession :: "time \<Rightarrow> string \<Rightarrow> bool \<Rightarrow> string \<Rightarrow> string \<Rightarrow> event" where
  "NewPTYStateEventWithSession now state waiting promptType sid =
     NewEvent now ''pty_state'' (PTYStatePayload state waiting promptType sid)"

definition NewPTYSpinnerEventWithSession :: "time \<Rightarrow> string \<Rightarrow> string \<Rightarrow> string \<Rightarrow> string \<Rightarrow> event" where
  "NewPTYSpinnerEventWithSession now txt symbol msg sid =
     NewEvent now ''pty_spinner'' (PTYSpinnerPayload txt symbol msg sid)"

definition NewPTYPermissionResolvedEvent :: "time \<Rightarrow> string \<Rightarrow> string \<Rightarrow> string \<Rightarrow> string \<Rightarrow> event" where
  "NewPTYPermissionResolvedEvent now sid wid resolvedBy inp =
     NewEventWithContext now ''pty_permission_resolved''
       (PTYPermissionResolvedPayload [] sid wid resolvedBy inp []) wid sid"

section \<open>Claude events\<close>

definition ImageDimensions :: "int \<Rightarrow> int \<Rightarrow> int \<Rightarrow> int \<Rightarrow> json" where
  "ImageDimensions ow oh dw dh =
     JObj (f_int ''original_width'' ow @ f_int ''original_height'' oh @ f_int ''display_width'' dw @
           f_int ''display_height'' dh)"

definition ImageInfo :: "string \<Rightarrow> int \<Rightarrow> json option \<Rightarrow> json" where
  "ImageInfo ty sz dims =
     JObj (f_str ''type'' ty @ f_int ''original_size'' sz @ f_ptr_opt ''dimensions'' dims)"

definition ParsedContentBlock ::
  "string \<Rightarrow> string \<Rightarrow> string \<Rightarrow> string \<Rightarrow> string \<Rightarrow> string \<Rightarrow> json option \<Rightarrow> json" where
  "ParsedContentBlock ty txt toolName toolID toolInput filePath img =
     JObj (f_str ''type'' ty @ f_str_opt ''text'' txt @ f_str_opt ''tool_name'' toolName @
           f_str_opt ''tool_id'' toolID @ f_str_opt ''tool_input'' toolInput @
           f_str_opt ''file_path'' filePath @ f_ptr_opt ''image_info'' img)"

text \<open>The cost is a float: its JSON text is an argument, \<open>None\<close> for zero.\<close>

definition ParsedClaudeMessage ::
  "string \<Rightarrow> string \<Rightarrow> json slice \<Rightarrow> string \<Rightarrow> json option \<Rightarrow> int \<Rightarrow> int \<Rightarrow> bool \<Rightarrow> bool \<Rightarrow> string \<Rightarrow> string \<Rightarrow> json" where
  "ParsedClaudeMessage ty sid content stopReason cost duration tokens thinking compaction stamp model =
     JObj (f_str ''type'' ty @ f_str_opt ''session_id'' sid @ f_slice_opt ''content'' content @
           f_str_opt ''stop_reason'' stopReason @ f_ptr_opt ''cost_usd'' cost @
           f_int_opt ''duration_ms'' duration @ f_int_opt ''output_tokens'' tokens @
           f_bool_opt ''is_thinking'' thinking @ f_bool_opt ''is_context_compaction'' compaction @
           f_str_opt ''timestamp'' stamp @ f_str_opt ''model'' model)"

definition ClaudeLogPayload :: "string \<Rightarrow> string \<Rightarrow> json option \<Rightarrow> json" where
  "ClaudeLogPayload line stream parsed =
     JObj (f_str ''line'' line @ f_str ''stream'' stream @ f_ptr_opt ''parsed'' parsed)"

record status_payload =
  State :: string
  Prompt :: string
  PID :: int
  StartedAt :: "time option"
  Failure :: string
  ExitCode :: "int option"

definition zero_status :: "string \<Rightarrow> status_payload" where
  "zero_status state = \<lparr>State = state, Prompt = [], PID = 0, StartedAt = None, Failure = [], ExitCode = None\<rparr>"

definition ClaudeStatusPayload :: "status_payload \<Rightarrow> json" where
  "ClaudeStatusPayload p =
     JObj (f_str ''state'' (State p) @ f_str_opt ''prompt'' (Prompt p) @ f_int_opt ''pid'' (PID p) @
           f_ptr_opt ''started_at'' (map_option (\<lambda>t. JStr (rfc3339 True 0 t)) (StartedAt p)) @
           f_str_opt ''error'' (Failure p) @
           f_ptr_opt ''exit_code'' (map_option (\<lambda>n. JNum (show_int n)) (ExitCode p)))"

definition NewClaudeLogEvent :: "time \<Rightarrow> string \<Rightarrow> string \<Rightarrow> event" where
  "NewClaudeLogEvent now line stream = NewEvent now ''claude_log'' (ClaudeLogPayload line stream None)"

definition NewClaudeLogEventWithParsed :: "time \<Rightarrow> string \<Rightarrow> string \<Rightarrow> json option \<Rightarrow> event" where
  "NewClaudeLogEventWithParsed now line stream parsed =
     NewEvent now ''claude_log'' (ClaudeLogPayload line stream parsed)"

definition NewClaudeStatusEvent :: "time \<Rightarrow> string \<Rightarrow> string \<Rightarrow> int \<Rightarrow> event" where
  "NewClaudeStatusEvent now state prompt pid =
     (let payload = (zero_status state)\<lparr>Prompt := prompt\<rparr>;
          payload = (if state = ''running'' then payload\<lparr>PID := pid, StartedAt := Some now\<rparr> else payload)
      in NewEvent now ''claude_status'' (ClaudeStatusPayload payload))"

definition NewClaudeErrorEvent :: "time \<Rightarrow> string \<Rightarrow> int \<Rightarrow> event" where
  "NewClaudeErrorEvent now err exitCode =
     NewEvent now ''claude_status'' (ClaudeStatusPayload
       ((zero_status ''error'')\<lparr>Failure := err, ExitCode := Some exitCode\<rparr>))"

definition NewClaudeStoppedEvent :: "time \<Rightarrow> int \<Rightarrow> event" where
  "NewClaudeStoppedEvent now exitCode =
     NewEvent now ''claude_status'' (ClaudeStatusPayload ((zero_status ''stopped'')\<lparr>ExitCode := Some exitCode\<rparr>))"

definition NewClaudeIdleEvent :: "time \<Rightarrow> event" where
  "NewClaudeIdleEvent now = NewEvent now ''claude_status'' (ClaudeStatusPayload (zero_status ''idle''))"

definition NewClaudeWaitingEvent :: "time \<Rightarrow> string \<Rightarrow> string \<Rightarrow> string \<Rightarrow> event" where
  "NewClaudeWaitingEvent now tid toolName inp =
     NewEvent now ''claude_waiting''
       (JObj (f_str ''tool_use_id'' tid @ f_str ''tool_name'' toolName @ f_str ''input'' inp))"

definition NewClaudePermissionEvent :: "time \<Rightarrow> string \<Rightarrow> string \<Rightarrow> string \<Rightarrow> string \<Rightarrow> event" where
  "NewClaudePermissionEvent now tid toolName inp desc =
     NewEvent now ''claude_permission''
       (JObj (f_str ''tool_use_id'' tid @ f_str ''tool_name'' toolName @ f_str ''input'' inp @
              f_str ''description'' desc))"

definition NewClaudeSessionInfoEvent :: "time \<Rightarrow> string \<Rightarrow> string \<Rightarrow> string \<Rightarrow> event" where
  "NewClaudeSessionInfoEvent now sid model version =
     NewEvent now ''claude_session_info''
       (JObj (f_str ''session_id'' sid @ f_str_opt ''model'' model @ f_str_opt ''version'' version))"

definition ClaudeMessageContent ::
  "string \<Rightarrow> string \<Rightarrow> string \<Rightarrow> string \<Rightarrow> (string, json) gomap \<Rightarrow> string \<Rightarrow> string \<Rightarrow> bool \<Rightarrow> string \<Rightarrow> json option \<Rightarrow> json" where
  "ClaudeMessageContent ty txt toolName toolID toolInput tid content isError filePath img =
     JObj (f_str ''type'' ty @ f_str_opt ''text'' txt @ f_str_opt ''tool_name'' toolName @
           f_str_opt ''tool_id'' toolID @ f_map_opt ''tool_input'' toolInput @
           f_str_opt ''tool_use_id'' tid @ f_str_opt ''content'' content @ f_bool_opt ''is_error'' isError @
           f_str_opt ''file_path'' filePath @ f_ptr_opt ''image_info'' img)"

record message_payload =
  mp_session :: string
  mp_type :: string
  Role :: string
  Content :: "json slice"
  Model :: string
  StopReason :: string
  IsContextCompaction :: bool
  Stamp :: string

definition ClaudeMessagePayload :: "message_payload \<Rightarrow> json" where
  "ClaudeMessagePayload p =
     JObj (f_str ''session_id'' (mp_session p) @ f_str ''type'' (mp_type p) @ f_str_opt ''role'' (Role p) @
           f_slice_opt ''content'' (Content p) @ f_str_opt ''model'' (Model p) @
           f_str_opt ''stop_reason'' (StopReason p) @
           f_bool_opt ''is_context_compaction'' (IsContextCompaction p) @ f_str_opt ''timestamp'' (Stamp p))"

definition NewClaudeMessageEventFull :: "time \<Rightarrow> message_payload \<Rightarrow> event" where
  "NewClaudeMessageEventFull now p = NewEvent now ''claude_message'' (ClaudeMessagePayload p)"

definition NewClaudeMessageEvent :: "time \<Rightarrow> string \<Rightarrow> string \<Rightarrow> string \<Rightarrow> json slice \<Rightarrow> event" where
  "NewClaudeMessageEvent now sid ty role content =
     NewEvent now ''claude_message'' (ClaudeMessagePayload
       \<lparr>mp_session = sid, mp_type = ty, Role = role, Content = content, Model = [], StopReason = [],
        IsContextCompaction = False, Stamp = []\<rparr>)"

section \<open>Session events\<close>

definition NewSessionStartEvent :: "time \<Rightarrow> string \<Rightarrow> string \<Rightarrow> string \<Rightarrow> string \<Rightarrow> event" where
  "NewSessionStartEvent now sid repoPath repoName version =
     NewEvent now ''session_start''
       (JObj (f_str ''session_id'' sid @ f_str ''repo_path'' repoPath @ f_str ''repo_name'' repoName @
              f_str ''agent_version'' version))"

definition NewSessionEndEvent :: "time \<Rightarrow> string \<Rightarrow> string \<Rightarrow> event" where
  "NewSessionEndEvent now sid reason =
     NewEvent now ''session_end'' (JObj (f_str ''session_id'' sid @ f_str_opt ''reason'' reason))"

definition StatusResponsePayload :: "string \<Rightarrow> int \<Rightarrow> string \<Rightarrow> string \<Rightarrow> int \<Rightarrow> string \<Rightarrow> bool \<Rightarrow> bool \<Rightarrow> json" where
  "StatusResponsePayload state clients repoPath repoName uptime version watcher git =
     JObj (f_str ''claude_state'' state @ f_int ''connected_clients'' clients @ f_str ''repo_path'' repoPath @
           f_str ''repo_name'' repoName @ f_int ''uptime_seconds'' uptime @ f_str ''agent_version'' version @
           f_bool ''watcher_enabled'' watcher @ f_bool ''git_enabled'' git)"

definition NewStatusResponseEvent :: "time \<Rightarrow> json \<Rightarrow> string \<Rightarrow> event" where
  "NewStatusResponseEvent now payload rid = NewEventWithRequestID now ''status_response'' payload rid"

definition NewErrorEvent :: "time \<Rightarrow> string \<Rightarrow> string \<Rightarrow> string \<Rightarrow> (string, json) gomap \<Rightarrow> event" where
  "NewErrorEvent now code msg rid details =
     NewEventWithRequestID now ''error''
       (JObj (f_str ''code'' code @ f_str ''message'' msg @ f_str_opt ''request_id'' rid @
              f_map_opt ''details'' details)) rid"

definition NewHeartbeatEvent :: "time \<Rightarrow> int \<Rightarrow> string \<Rightarrow> int \<Rightarrow> event" where
  "NewHeartbeatEvent now sequence status uptime =
     NewEvent now ''heartbeat''
       (JObj (f_str ''server_time'' (rfc3339 False 0 now) @ f_int ''sequence'' sequence @
              f_str ''claude_status'' status @ f_int ''uptime_seconds'' uptime))"

definition slice_length :: "'a slice \<Rightarrow> int" where
  "slice_length xs = (case xs of None \<Rightarrow> 0 | Some ys \<Rightarrow> int (length ys))"

definition NewSessionJoinedEvent :: "time \<Rightarrow> string \<Rightarrow> string \<Rightarrow> string \<Rightarrow> string slice \<Rightarrow> event" where
  "NewSessionJoinedEvent now client wid sid others =
     NewEventWithContext now ''session_joined''
       (JObj (f_str ''joining_client_id'' client @ f_slice ''other_viewers'' (map_option (map JStr) others) @
              f_int ''viewer_count'' (slice_length others + 1))) wid sid"

definition NewSessionLeftEvent :: "time \<Rightarrow> string \<Rightarrow> string \<Rightarrow> string \<Rightarrow> string slice \<Rightarrow> event" where
  "NewSessionLeftEvent now client wid sid remaining =
     NewEventWithContext now ''session_left''
       (JObj (f_str ''leaving_client_id'' client @ f_slice ''remaining_viewers'' (map_option (map JStr) remaining) @
              f_int ''viewer_count'' (slice_length remaining))) wid sid"

definition NewSessionStoppedEvent :: "time \<Rightarrow> string \<Rightarrow> string \<Rightarrow> event" where
  "NewSessionStoppedEvent now wid sid =
     NewEventWithContext now ''session_stopped''
       (JObj (f_str ''workspace_id'' wid @ f_str ''session_id'' sid)) wid sid"

definition NewSessionIDResolvedEvent :: "time \<Rightarrow> string \<Rightarrow> string \<Rightarrow> string \<Rightarrow> string \<Rightarrow> event" where
  "NewSessionIDResolvedEvent now tempID realID wid sessionFile =
     NewEventWithContext now ''session_id_resolved''
       (JObj (f_str ''temporary_id'' tempID @ f_str ''real_id'' realID @ f_str ''workspace_id'' wid @
              f_str ''session_file'' sessionFile)) wid realID"

definition NewSessionIDTimeoutEvent :: "time \<Rightarrow> string \<Rightarrow> string \<Rightarrow> int \<Rightarrow> string \<Rightarrow> event" where
  "NewSessionIDTimeoutEvent now tempID wid seconds reason =
     NewEventWithContext now ''session_id_timeout''
       (JObj (f_str ''temporary_id'' tempID @ f_str ''workspace_id'' wid @ f_int ''timeout_seconds'' seconds @
              f_str ''reason'' reason)) wid tempID"

definition NewSessionIDFailedEvent :: "time \<Rightarrow> string \<Rightarrow> string \<Rightarrow> string \<Rightarrow> string \<Rightarrow> event" where
  "NewSessionIDFailedEvent now tempID wid reason msg =
     NewEventWithContext now ''session_id_failed''
       (JObj (f_str ''temporary_id'' tempID @ f_str ''workspace_id'' wid @ f_str ''reason'' reason @
              f_str_opt ''message'' msg)) wid tempID"

section \<open>File, git, workspace and task events\<close>

definition FileChangedPayload :: "string \<Rightarrow> string \<Rightarrow> int \<Rightarrow> string \<Rightarrow> json" where
  "FileChangedPayload path change sz oldPath =
     JObj (f_str ''path'' path @ f_str ''change'' change @ f_int_opt ''size'' sz @ f_str_opt ''old_path'' oldPath)"

definition FileContentPayload :: "string \<Rightarrow> string \<Rightarrow> string \<Rightarrow> bool \<Rightarrow> int \<Rightarrow> string \<Rightarrow> json" where
  "FileContentPayload path content encoding truncated sz err =
     JObj (f_str ''path'' path @ f_str_opt ''content'' content @ f_str ''encoding'' encoding @
           f_bool ''truncated'' truncated @ f_int ''size'' sz @ f_str_opt ''error'' err)"

definition NewFileChangedEvent :: "time \<Rightarrow> string \<Rightarrow> string \<Rightarrow> int \<Rightarrow> event" where
  "NewFileChangedEvent now path change sz = NewEvent now ''file_changed'' (FileChangedPayload path change sz [])"

definition NewFileRenamedEvent :: "time \<Rightarrow> string \<Rightarrow> string \<Rightarrow> event" where
  "NewFileRenamedEvent now oldPath newPath =
     NewEvent now ''file_changed'' (FileChangedPayload newPath ''renamed'' 0 oldPath)"

definition NewFileContentEvent :: "time \<Rightarrow> string \<Rightarrow> string \<Rightarrow> int \<Rightarrow> bool \<Rightarrow> string \<Rightarrow> event" where
  "NewFileContentEvent now path content sz truncated rid =
     NewEventWithRequestID now ''file_content'' (FileContentPayload path content ''utf-8'' truncated sz []) rid"

definition NewFileContentErrorEvent :: "time \<Rightarrow> string \<Rightarrow> string \<Rightarrow> string \<Rightarrow> event" where
  "NewFileContentErrorEvent now path errMsg rid =
     NewEventWithRequestID now ''file_content'' (FileContentPayload path [] [] False 0 errMsg) rid"

definition NewGitDiffEvent :: "time \<Rightarrow> string \<Rightarrow> string \<Rightarrow> int \<Rightarrow> int \<Rightarrow> bool \<Rightarrow> bool \<Rightarrow> bool \<Rightarrow> event" where
  "NewGitDiffEvent now path diff additions deletions staged newFile truncated =
     NewEvent now ''git_diff''
       (JObj (f_str ''file'' path @ f_str ''diff'' diff @ f_int ''additions'' additions @
              f_int ''deletions'' deletions @ f_bool ''is_staged'' staged @ f_bool ''is_new_file'' newFile @
              f_bool_opt ''is_truncated'' truncated))"

definition GitStatusChangedPayload ::
  "string \<Rightarrow> int \<Rightarrow> int \<Rightarrow> int \<Rightarrow> int \<Rightarrow> int \<Rightarrow> bool \<Rightarrow> string slice \<Rightarrow> json" where
  "GitStatusChangedPayload branch ahead behind staged unstaged untracked conflicts changed =
     JObj (f_str ''branch'' branch @ f_int ''ahead'' ahead @ f_int ''behind'' behind @
           f_int ''staged_count'' staged @ f_int ''unstaged_count'' unstaged @
           f_int ''untracked_count'' untracked @ f_bool ''has_conflicts'' conflicts @
           f_slice_opt ''changed_files'' (map_option (map JStr) changed))"

definition NewGitBranchChangedEvent :: "time \<Rightarrow> string \<Rightarrow> string \<Rightarrow> string \<Rightarrow> string \<Rightarrow> event" where
  "NewGitBranchChangedEvent now wid fromBranch toBranch sid =
     NewEventWithContext now ''git_branch_changed''
       (JObj (f_str ''from_branch'' fromBranch @ f_str ''to_branch'' toBranch @ f_str_opt ''session_id'' sid)) wid sid"

definition NewWorkspaceRemovedEvent :: "time \<Rightarrow> string \<Rightarrow> string \<Rightarrow> string \<Rightarrow> event" where
  "NewWorkspaceRemovedEvent now wid nm path =
     NewEventWithContext now ''workspace_removed''
       (JObj (f_str ''id'' wid @ f_str ''name'' nm @ f_str ''path'' path)) wid []"

record task_payload =
  tp_id :: string
  tp_type :: string
  Title :: string
  tp_status :: string
  Severity :: string
  tp_message :: string
  tp_session :: string

definition TaskEventPayload :: "task_payload \<Rightarrow> json" where
  "TaskEventPayload p =
     JObj (f_str ''task_id'' (tp_id p) @ f_str ''task_type'' (tp_type p) @ f_str ''title'' (Title p) @
           f_str ''status'' (tp_status p) @ f_str_opt ''severity'' (Severity p) @
           f_str_opt ''message'' (tp_message p) @ f_str_opt ''session_id'' (tp_session p))"

definition NewTaskEvent :: "time \<Rightarrow> string \<Rightarrow> string \<Rightarrow> task_payload \<Rightarrow> event" where
  "NewTaskEvent now ty wid p = NewEventWithContext now ty (TaskEventPayload p) wid (tp_session p)"

definition NewStreamReadCompleteEvent :: "time \<Rightarrow> string \<Rightarrow> int \<Rightarrow> int \<Rightarrow> int \<Rightarrow> event" where
  "NewStreamReadCompleteEvent now sid emitted off sz =
     NewEventWithContext now ''stream_read_complete''
       (JObj (f_str ''session_id'' sid @ f_int ''messages_emitted'' emitted @ f_int ''file_offset'' off @
              f_int ''file_size'' sz)) [] sid"

section \<open>What reaches the wire\<close>

text \<open>
  A client can route an event by its envelope: the JSON text of an event, when it has one, parses to an
  object whose type and payload are the event's, and which carries a workspace and a session
  identifier exactly when the event has one.
\<close>

theorem event_envelope_on_wire:
  assumes "ToJSON e = Some txt" "printable (event_json e)"
  shows "\<exists>kvs. json_parse txt = Some (JObj kvs) \<and>
    map_of kvs ''event'' = Some (JStr (EventType e)) \<and> map_of kvs ''payload'' = Some (Payload e) \<and>
    map_of kvs ''workspace_id'' = (if GetWorkspaceID e = [] then None else Some (JStr (GetWorkspaceID e))) \<and>
    map_of kvs ''session_id'' = (if GetSessionID e = [] then None else Some (JStr (GetSessionID e)))"
proof -
  have "json_parse txt = Some (event_json e)"
    using assms json_roundtrip by (auto simp: ToJSON_def Let_def split: if_splits)
  then show ?thesis
    by (auto simp: event_json_def f_str_def f_str_opt_def GetWorkspaceID_def GetSessionID_def)
qed

definition sample_event :: event where
  "sample_event = NewGitBranchChangedEvent 0 ''ws-1'' ''main'' ''dev'' []"

lemma sample_event_time: "ascii (rfc3339 True 0 0)"
  by code_simp

lemma sample_event_text: "ToJSON sample_event = Some (json_print (event_json sample_event))"
proof -
  have "0 \<le> fst (civil (unix 0 div 86400)) \<and> fst (civil (unix 0 div 86400)) \<le> 9999" by code_simp
  then show ?thesis
    by (simp add: ToJSON_def sample_event_def NewGitBranchChangedEvent_def NewEventWithContext_def Let_def)
qed

lemma event_envelope_on_wire_witness:
  "\<exists>kvs. json_parse (json_print (event_json sample_event)) = Some (JObj kvs) \<and>
    map_of kvs ''event'' = Some (JStr (EventType sample_event)) \<and> map_of kvs ''payload'' = Some (Payload sample_event) \<and>
    map_of kvs ''workspace_id'' =
      (if GetWorkspaceID sample_event = [] then None else Some (JStr (GetWorkspaceID sample_event))) \<and>
    map_of kvs ''session_id'' =
      (if GetSessionID sample_event = [] then None else Some (JStr (GetSessionID sample_event)))"
proof (rule event_envelope_on_wire [OF sample_event_text])
  show "printable (event_json sample_event)"
    using sample_event_time
    by (simp add: event_json_def sample_event_def NewGitBranchChangedEvent_def NewEventWithContext_def
        f_str_def f_str_opt_def ascii_def)
qed

end
