(* ===== verification/Rpc_Message.thy ===== *)
theory Rpc_Message
  imports Go_JSON
begin

text \<open>
  \<open>internal/rpc/message\<close>: JSON-RPC 2.0 requests, responses and notifications with their JSON text
  (\<open>jsonrpc.go\<close>), and the error objects the daemon returns (\<open>errors.go\<close>).

  A \<open>json.RawMessage\<close> is the JSON value it denotes, \<open>None\<close> when it is empty; a pointer is an option.
  The texts of the JSON decoder's own diagnostics are the parameter \<open>diag\<close> of the parsers: no property
  depends on them.
\<close>

section \<open>Error codes\<close>

definition ParseError :: int where "ParseError = -32700"
definition InvalidRequest :: int where "InvalidRequest = -32600"
definition MethodNotFound :: int where "MethodNotFound = -32601"
definition InvalidParams :: int where "InvalidParams = -32602"
definition InternalError :: int where "InternalError = -32603"
definition AgentAlreadyRunning :: int where "AgentAlreadyRunning = -32001"
definition AgentNotRunning :: int where "AgentNotRunning = -32002"
definition AgentError :: int where "AgentError = -32003"
definition AgentNotConfigured :: int where "AgentNotConfigured = -32004"
definition SessionNotFound :: int where "SessionNotFound = -32010"
definition SessionInvalid :: int where "SessionInvalid = -32011"
definition FileNotFound :: int where "FileNotFound = -32020"
definition FileTooLarge :: int where "FileTooLarge = -32021"
definition PathTraversal :: int where "PathTraversal = -32022"
definition FileReadError :: int where "FileReadError = -32023"
definition DirectoryNotFound :: int where "DirectoryNotFound = -32024"
definition NotAGitRepo :: int where "NotAGitRepo = -32030"
definition GitOperationFailed :: int where "GitOperationFailed = -32031"
definition GitConflict :: int where "GitConflict = -32032"
definition IndexNotReady :: int where "IndexNotReady = -32040"
definition SearchError :: int where "SearchError = -32041"
definition IndexRebuildFail :: int where "IndexRebuildFail = -32042"

lemmas code_defs =
  ParseError_def InvalidRequest_def MethodNotFound_def InvalidParams_def InternalError_def
  AgentAlreadyRunning_def AgentNotRunning_def AgentError_def AgentNotConfigured_def
  SessionNotFound_def SessionInvalid_def FileNotFound_def FileTooLarge_def PathTraversal_def
  FileReadError_def DirectoryNotFound_def NotAGitRepo_def GitOperationFailed_def GitConflict_def
  IndexNotReady_def SearchError_def IndexRebuildFail_def

section \<open>Error objects\<close>

record rpc_error =
  Code :: int
  Message :: string
  Data :: "json option"

definition NewError :: "int \<Rightarrow> string \<Rightarrow> rpc_error" where
  "NewError code msg = \<lparr>Code = code, Message = msg, Data = None\<rparr>"

text \<open>
  The data of every constructor is a map of strings and integers, which \<open>json.Marshal\<close> never refuses
  and prints with its keys sorted; a nil interface leaves the field empty.
\<close>

definition NewErrorWithData :: "int \<Rightarrow> string \<Rightarrow> json option \<Rightarrow> rpc_error" where
  "NewErrorWithData code msg data = \<lparr>Code = code, Message = msg, Data = data\<rparr>"

definition ErrParseError :: "string \<Rightarrow> rpc_error" where
  "ErrParseError msg = NewError ParseError (if msg = [] then ''Parse error'' else msg)"

definition ErrInvalidRequest :: "string \<Rightarrow> rpc_error" where
  "ErrInvalidRequest msg = NewError InvalidRequest (if msg = [] then ''Invalid Request'' else msg)"

definition ErrMethodNotFound :: "string \<Rightarrow> rpc_error" where
  "ErrMethodNotFound meth = NewError MethodNotFound (''Method not found: '' @ meth)"

definition ErrInvalidParams :: "string \<Rightarrow> rpc_error" where
  "ErrInvalidParams msg = NewError InvalidParams (if msg = [] then ''Invalid params'' else msg)"

definition ErrInternalError :: "string \<Rightarrow> rpc_error" where
  "ErrInternalError msg = NewError InternalError (if msg = [] then ''Internal error'' else msg)"

definition ErrAgentAlreadyRunning :: "string \<Rightarrow> rpc_error" where
  "ErrAgentAlreadyRunning agentType =
     NewErrorWithData AgentAlreadyRunning ''Agent is already running''
       (Some (JObj [(''agent_type'', JStr agentType)]))"

definition ErrAgentNotRunning :: "string \<Rightarrow> rpc_error" where
  "ErrAgentNotRunning agentType =
     NewErrorWithData AgentNotRunning ''Agent is not running''
       (Some (JObj [(''agent_type'', JStr agentType)]))"

definition ErrAgentError :: "string \<Rightarrow> string \<Rightarrow> rpc_error" where
  "ErrAgentError agentType msg =
     NewErrorWithData AgentError msg (Some (JObj [(''agent_type'', JStr agentType)]))"

definition ErrAgentNotConfigured :: "string \<Rightarrow> rpc_error" where
  "ErrAgentNotConfigured agentType =
     NewErrorWithData AgentNotConfigured ''Agent not configured''
       (Some (JObj [(''agent_type'', JStr agentType)]))"

definition ErrClaudeAlreadyRunning :: rpc_error where
  "ErrClaudeAlreadyRunning = ErrAgentAlreadyRunning ''claude''"

definition ErrClaudeNotRunning :: rpc_error where
  "ErrClaudeNotRunning = ErrAgentNotRunning ''claude''"

definition ErrClaudeError :: "string \<Rightarrow> rpc_error" where
  "ErrClaudeError msg = ErrAgentError ''claude'' msg"

definition ErrSessionNotFound :: "string \<Rightarrow> rpc_error" where
  "ErrSessionNotFound sessionID =
     NewErrorWithData SessionNotFound ''Session not found''
       (Some (JObj [(''session_id'', JStr sessionID)]))"

definition ErrFileNotFound :: "string \<Rightarrow> rpc_error" where
  "ErrFileNotFound path =
     NewErrorWithData FileNotFound ''File not found'' (Some (JObj [(''path'', JStr path)]))"

definition ErrFileTooLarge :: "string \<Rightarrow> int \<Rightarrow> int \<Rightarrow> rpc_error" where
  "ErrFileTooLarge path sz maxSize =
     NewErrorWithData FileTooLarge ''File too large''
       (Some (JObj [(''max_size'', JNum (show_int maxSize)), (''path'', JStr path),
                    (''size'', JNum (show_int sz))]))"

definition ErrPathTraversal :: "string \<Rightarrow> rpc_error" where
  "ErrPathTraversal path =
     NewErrorWithData PathTraversal ''Path traversal not allowed'' (Some (JObj [(''path'', JStr path)]))"

definition ErrNotAGitRepo :: rpc_error where
  "ErrNotAGitRepo = NewError NotAGitRepo ''Not a git repository''"

definition ErrGitOperationFailed :: "string \<Rightarrow> string \<Rightarrow> rpc_error" where
  "ErrGitOperationFailed op msg =
     NewErrorWithData GitOperationFailed (''Git operation failed: '' @ msg)
       (Some (JObj [(''operation'', JStr op)]))"

definition ErrorCodeName :: "int \<Rightarrow> string" where
  "ErrorCodeName code =
     (if code = ParseError then ''ParseError''
      else if code = InvalidRequest then ''InvalidRequest''
      else if code = MethodNotFound then ''MethodNotFound''
      else if code = InvalidParams then ''InvalidParams''
      else if code = InternalError then ''InternalError''
      else if code = AgentAlreadyRunning then ''AgentAlreadyRunning''
      else if code = AgentNotRunning then ''AgentNotRunning''
      else if code = AgentError then ''AgentError''
      else if code = AgentNotConfigured then ''AgentNotConfigured''
      else if code = SessionNotFound then ''SessionNotFound''
      else if code = SessionInvalid then ''SessionInvalid''
      else if code = FileNotFound then ''FileNotFound''
      else if code = FileTooLarge then ''FileTooLarge''
      else if code = PathTraversal then ''PathTraversal''
      else if code = FileReadError then ''FileReadError''
      else if code = DirectoryNotFound then ''DirectoryNotFound''
      else if code = NotAGitRepo then ''NotAGitRepo''
      else if code = GitOperationFailed then ''GitOperationFailed''
      else if code = GitConflict then ''GitConflict''
      else if code = IndexNotReady then ''IndexNotReady''
      else if code = SearchError then ''SearchError''
      else if code = IndexRebuildFail then ''IndexRebuildFail''
      else ''UnknownError'')"

section \<open>Messages\<close>

text \<open>The dynamic value behind the interface of an \<open>ID\<close>; \<open>INil\<close> is the nil interface.\<close>

datatype rpc_id = IStr string | INum int | INil

definition Version :: string where
  "Version = ''2.0''"

record rpc_request =
  req_version :: string
  req_id :: "rpc_id option"
  Method :: string
  req_params :: "json option"

record rpc_response =
  resp_version :: string
  resp_id :: "rpc_id option"
  Result :: "json option"
  Err :: "rpc_error option"

record rpc_notification =
  notif_version :: string
  notif_method :: string
  notif_params :: "json option"

definition IsNotification :: "rpc_request \<Rightarrow> bool" where
  "IsNotification r \<longleftrightarrow> req_id r = None"

definition IsError :: "rpc_response \<Rightarrow> bool" where
  "IsError r \<longleftrightarrow> Err r \<noteq> None"

definition IsString :: "rpc_id \<Rightarrow> bool" where
  "IsString i = (case i of IStr _ \<Rightarrow> True | _ \<Rightarrow> False)"

definition IsNumber :: "rpc_id \<Rightarrow> bool" where
  "IsNumber i = (case i of INum _ \<Rightarrow> True | _ \<Rightarrow> False)"

definition id_String :: "rpc_id option \<Rightarrow> string" where
  "id_String i =
     (case i of
        None \<Rightarrow> ''<nil>''
      | Some (IStr s) \<Rightarrow> s
      | Some (INum n) \<Rightarrow> show_int n
      | Some INil \<Rightarrow> ''<nil>'')"

definition id_MarshalJSON :: "rpc_id option \<Rightarrow> json" where
  "id_MarshalJSON i =
     (case i of
        None \<Rightarrow> JNull
      | Some (IStr s) \<Rightarrow> JStr s
      | Some (INum n) \<Rightarrow> JNum (show_int n)
      | Some INil \<Rightarrow> JNull)"

text \<open>
  \<open>UnmarshalJSON\<close> tries a string, an \<open>int64\<close> and then a \<open>float64\<close> that is truncated. A decimal
  literal denotes a fraction p/q; its double is the nearest multiple of the spacing of doubles of its
  binary exponent, ties to even. What Go leaves to the implementation (converting a double outside the
  range of \<open>int64\<close>) and the wording of the decoder's diagnostics are fields of \<open>json_env\<close>.
\<close>

record json_env =
  syntax_text :: "string \<Rightarrow> string"
  type_text :: "string \<Rightarrow> json \<Rightarrow> string"
  out_of_range :: "int \<Rightarrow> int"

fun floor_log2 :: "nat \<Rightarrow> nat" where
  "floor_log2 n = (if n < 2 then 0 else Suc (floor_log2 (n div 2)))"

declare floor_log2.simps [simp del]

definition round_half_even :: "nat \<Rightarrow> nat \<Rightarrow> nat" where
  "round_half_even p q =
     (let d = p div q; r = p mod q
      in if 2 * r < q \<or> (2 * r = q \<and> even d) then d else Suc d)"

definition trunc_double :: "nat \<Rightarrow> nat \<Rightarrow> nat" where
  "trunc_double p q =
     (if p < q then (if 2 ^ 54 * (q - p) \<le> q then 1 else 0)
      else (let e = floor_log2 (p div q)
            in if e \<le> 52 then round_half_even (p * 2 ^ (52 - e)) q div 2 ^ (52 - e)
               else round_half_even p (q * 2 ^ (e - 52)) * 2 ^ (e - 52)))"

definition literal_fraction :: "string \<Rightarrow> nat \<times> nat" where
  "literal_fraction d =
     (let i = takeWhile is_digit d; r = dropWhile is_digit d;
          f = (if has_prefix ''.'' r then takeWhile is_digit (tl r) else []);
          r2 = (if has_prefix ''.'' r then dropWhile is_digit (tl r) else r);
          es = (if r2 = [] then [] else tl r2);
          eneg = has_prefix ''-'' es;
          ed = (if eneg \<or> has_prefix ''+'' es then tl es else es);
          m = digits_value (i @ f);
          e = digits_value ed
      in if eneg then (m, 10 ^ (length f + e)) else (m * 10 ^ e, 10 ^ length f))"

text \<open>A magnitude beyond the largest double is a decoding error.\<close>

definition float_to_int64 :: "json_env \<Rightarrow> string \<Rightarrow> int option" where
  "float_to_int64 env s =
     (let neg = has_prefix ''-'' s; d = (if neg then tl s else s);
          (p, q) = literal_fraction d; t = trunc_double p q;
          n = (if neg then - int t else int t)
      in if 2 ^ 1024 \<le> t then None
         else if - (2 ^ 63) \<le> n \<and> n < 2 ^ 63 then Some n else Some (out_of_range env n))"

definition id_UnmarshalJSON :: "json_env \<Rightarrow> json \<Rightarrow> string + rpc_id" where
  "id_UnmarshalJSON env j =
     (case j of
        JNull \<Rightarrow> Inr INil
      | JStr s \<Rightarrow> Inr (IStr s)
      | JNum l \<Rightarrow>
          (case int64_of_literal l of
             Some n \<Rightarrow> Inr (INum n)
           | None \<Rightarrow>
               (case float_to_int64 env l of
                  Some n \<Rightarrow> Inr (INum n)
                | None \<Rightarrow> Inl (''invalid ID type: '' @ l)))
      | _ \<Rightarrow> Inl (''invalid ID type: '' @ json_print j))"

section \<open>Decoding into structs\<close>

text \<open>
  \<open>json.Unmarshal\<close> visits the members of an object in order; a key names a field when the two are
  equal up to case folding (the long s and the Kelvin sign fold to letters of ASCII), later members
  overwrite earlier ones, unknown keys are skipped, null leaves a string or an integer alone, clears a
  pointer and is stored by a raw message. The first error is reported at the end.
\<close>

fun fold_go :: "nat \<Rightarrow> string \<Rightarrow> string" where
  "fold_go k [] = []"
| "fold_go (Suc k) (c # s) = fold_go k s"
| "fold_go 0 (c # s) =
     (if has_prefix [CHR 0xC5, CHR 0xBF] (c # s) then CHR ''s'' # fold_go 1 s
      else if has_prefix [CHR 0xE2, CHR 0x84, CHR 0xAA] (c # s) then CHR ''k'' # fold_go 2 s
      else (if 65 \<le> code_of c \<and> code_of c \<le> 90 then char_of (code_of c + 32) else c) # fold_go 0 s)"

definition fold_key :: "string \<Rightarrow> string" where
  "fold_key k = fold_go 0 k"

definition note_error :: "string \<Rightarrow> string option \<Rightarrow> string option" where
  "note_error msg e = (if e = None then Some msg else e)"

definition decode_string ::
  "json_env \<Rightarrow> string \<Rightarrow> json \<Rightarrow> string \<Rightarrow> string option \<Rightarrow> string \<times> string option" where
  "decode_string env fld j old e =
     (case j of JStr s \<Rightarrow> (s, e) | JNull \<Rightarrow> (old, e) | _ \<Rightarrow> (old, note_error (type_text env fld j) e))"

definition decode_int ::
  "json_env \<Rightarrow> string \<Rightarrow> json \<Rightarrow> int \<Rightarrow> string option \<Rightarrow> int \<times> string option" where
  "decode_int env fld j old e =
     (case j of
        JNull \<Rightarrow> (old, e)
      | JNum l \<Rightarrow> (case int64_of_literal l of
                   Some n \<Rightarrow> (n, e) | None \<Rightarrow> (old, note_error (type_text env fld j) e))
      | _ \<Rightarrow> (old, note_error (type_text env fld j) e))"

text \<open>
  A pointer that an earlier member with the same key set is reused; the string of a failed
  decoding of the identifier leaves the fresh pointer's nil interface behind.
\<close>

definition decode_id ::
  "json_env \<Rightarrow> json \<Rightarrow> rpc_id option \<Rightarrow> string option \<Rightarrow> rpc_id option \<times> string option" where
  "decode_id env j old e =
     (if j = JNull then (None, e)
      else (case id_UnmarshalJSON env j of
          Inr i \<Rightarrow> (Some i, e)
        | Inl msg \<Rightarrow> (Some (case old of Some i \<Rightarrow> i | None \<Rightarrow> INil), note_error msg e)))"

fun decode_request :: "json_env \<Rightarrow> (string \<times> json) list \<Rightarrow> rpc_request \<times> string option \<Rightarrow> rpc_request \<times> string option" where
  "decode_request env [] st = st"
| "decode_request env ((k, v) # kvs) (r, e) =
     decode_request env kvs
       (if fold_key k = ''jsonrpc'' then
          (let (x, e') = decode_string env k v (req_version r) e in (r\<lparr>req_version := x\<rparr>, e'))
        else if fold_key k = ''id'' then
          (let (x, e') = decode_id env v (req_id r) e in (r\<lparr>req_id := x\<rparr>, e'))
        else if fold_key k = ''method'' then
          (let (x, e') = decode_string env k v (Method r) e in (r\<lparr>Method := x\<rparr>, e'))
        else if fold_key k = ''params'' then (r\<lparr>req_params := Some v\<rparr>, e)
        else (r, e))"

fun decode_error :: "json_env \<Rightarrow> (string \<times> json) list \<Rightarrow> rpc_error \<times> string option \<Rightarrow> rpc_error \<times> string option" where
  "decode_error env [] st = st"
| "decode_error env ((k, v) # kvs) (r, e) =
     decode_error env kvs
       (if fold_key k = ''code'' then
          (let (x, e') = decode_int env k v (Code r) e in (r\<lparr>Code := x\<rparr>, e'))
        else if fold_key k = ''message'' then
          (let (x, e') = decode_string env k v (Message r) e in (r\<lparr>Message := x\<rparr>, e'))
        else if fold_key k = ''data'' then (r\<lparr>Data := Some v\<rparr>, e)
        else (r, e))"

fun decode_response :: "json_env \<Rightarrow> (string \<times> json) list \<Rightarrow> rpc_response \<times> string option \<Rightarrow> rpc_response \<times> string option" where
  "decode_response env [] st = st"
| "decode_response env ((k, v) # kvs) (r, e) =
     decode_response env kvs
       (if fold_key k = ''jsonrpc'' then
          (let (x, e') = decode_string env k v (resp_version r) e in (r\<lparr>resp_version := x\<rparr>, e'))
        else if fold_key k = ''id'' then
          (let (x, e') = decode_id env v (resp_id r) e in (r\<lparr>resp_id := x\<rparr>, e'))
        else if fold_key k = ''result'' then (r\<lparr>Result := Some v\<rparr>, e)
        else if fold_key k = ''error'' then
          (let old = (case Err r of Some x \<Rightarrow> x | None \<Rightarrow> \<lparr>Code = 0, Message = [], Data = None\<rparr>)
           in case v of
                JNull \<Rightarrow> (r\<lparr>Err := None\<rparr>, e)
              | JObj ms \<Rightarrow> (let (x, e') = decode_error env ms (old, e) in (r\<lparr>Err := Some x\<rparr>, e'))
              | _ \<Rightarrow> (r\<lparr>Err := Some old\<rparr>, note_error (type_text env k v) e))
        else (r, e))"

section \<open>Constructors and parsers\<close>

text \<open>
  A Go value handed to \<open>json.Marshal\<close>: nil, a value with a JSON text, or one that is refused
  with an error text.
\<close>

datatype goval = GNil | GJson json | GBad string

definition marshal_field :: "string \<Rightarrow> goval \<Rightarrow> string + json option" where
  "marshal_field what v =
     (case v of
        GNil \<Rightarrow> Inr None
      | GJson j \<Rightarrow> Inr (Some j)
      | GBad msg \<Rightarrow> Inl (''failed to marshal '' @ what @ '': '' @ msg))"

definition NewRequest :: "rpc_id option \<Rightarrow> string \<Rightarrow> goval \<Rightarrow> string + rpc_request" where
  "NewRequest i meth params =
     (case marshal_field ''params'' params of
        Inl e \<Rightarrow> Inl e
      | Inr p \<Rightarrow> Inr \<lparr>req_version = Version, req_id = i, Method = meth, req_params = p\<rparr>)"

definition NewNotification :: "string \<Rightarrow> goval \<Rightarrow> string + rpc_notification" where
  "NewNotification meth params =
     (case marshal_field ''params'' params of
        Inl e \<Rightarrow> Inl e
      | Inr p \<Rightarrow> Inr \<lparr>notif_version = Version, notif_method = meth, notif_params = p\<rparr>)"

definition NewSuccessResponse :: "rpc_id option \<Rightarrow> goval \<Rightarrow> string + rpc_response" where
  "NewSuccessResponse i result =
     (case marshal_field ''result'' result of
        Inl e \<Rightarrow> Inl e
      | Inr p \<Rightarrow> Inr \<lparr>resp_version = Version, resp_id = i, Result = p, Err = None\<rparr>)"

definition NewErrorResponse :: "rpc_id option \<Rightarrow> rpc_error \<Rightarrow> rpc_response" where
  "NewErrorResponse i err = \<lparr>resp_version = Version, resp_id = i, Result = None, Err = Some err\<rparr>"

definition unmarshal_struct ::
  "json_env \<Rightarrow> ((string \<times> json) list \<Rightarrow> 'a \<times> string option \<Rightarrow> 'a \<times> string option) \<Rightarrow> 'a \<Rightarrow> json \<Rightarrow> string + 'a" where
  "unmarshal_struct env dec zero j =
     (case j of
        JNull \<Rightarrow> Inr zero
      | JObj kvs \<Rightarrow> (case dec kvs (zero, None) of (r, None) \<Rightarrow> Inr r | (r, Some e) \<Rightarrow> Inl e)
      | _ \<Rightarrow> Inl (type_text env [] j))"

definition parse_request_value :: "json_env \<Rightarrow> json \<Rightarrow> string + rpc_request" where
  "parse_request_value env j =
     (case unmarshal_struct env (decode_request env)
             \<lparr>req_version = [], req_id = None, Method = [], req_params = None\<rparr> j of
        Inl e \<Rightarrow> Inl e
      | Inr r \<Rightarrow>
          if req_version r \<noteq> Version then Inl (''invalid jsonrpc version: '' @ req_version r)
          else if Method r = [] then Inl ''missing method''
          else Inr r)"

definition ParseRequest :: "json_env \<Rightarrow> string \<Rightarrow> string + rpc_request" where
  "ParseRequest env data =
     (case json_parse data of
        None \<Rightarrow> Inl (syntax_text env data)
      | Some j \<Rightarrow> parse_request_value env j)"

definition ParseResponse :: "json_env \<Rightarrow> string \<Rightarrow> string + rpc_response" where
  "ParseResponse env data =
     (case json_parse data of
        None \<Rightarrow> Inl (syntax_text env data)
      | Some j \<Rightarrow>
          (case unmarshal_struct env (decode_response env)
                  \<lparr>resp_version = [], resp_id = None, Result = None, Err = None\<rparr> j of
             Inl e \<Rightarrow> Inl e
           | Inr r \<Rightarrow>
               if resp_version r \<noteq> Version then Inl (''invalid jsonrpc version: '' @ resp_version r)
               else Inr r))"

text \<open>The anonymous struct of \<open>IsJSONRPC\<close> has the one field \<open>jsonrpc\<close>.\<close>

fun decode_version :: "json_env \<Rightarrow> (string \<times> json) list \<Rightarrow> string \<times> string option \<Rightarrow> string \<times> string option" where
  "decode_version env [] st = st"
| "decode_version env ((k, v) # kvs) (s, e) =
     decode_version env kvs
       (if fold_key k = ''jsonrpc'' then decode_string env k v s e else (s, e))"

definition IsJSONRPC :: "json_env \<Rightarrow> string \<Rightarrow> bool" where
  "IsJSONRPC env data =
     (if length data < 20 then False
      else if hd data \<noteq> CHR ''{'' then False
      else (case json_parse data of
          None \<Rightarrow> False
        | Some j \<Rightarrow>
            (case unmarshal_struct env (decode_version env) [] j of
               Inl _ \<Rightarrow> False | Inr v \<Rightarrow> v = Version)))"

section \<open>JSON text\<close>

definition opt_member :: "string \<Rightarrow> json option \<Rightarrow> (string \<times> json) list" where
  "opt_member k v = (case v of None \<Rightarrow> [] | Some j \<Rightarrow> [(k, j)])"

definition error_json :: "rpc_error \<Rightarrow> json" where
  "error_json e =
     JObj ([(''code'', JNum (show_int (Code e))), (''message'', JStr (Message e))] @ opt_member ''data'' (Data e))"

definition request_json :: "rpc_request \<Rightarrow> json" where
  "request_json r =
     JObj ([(''jsonrpc'', JStr (req_version r))] @
           opt_member ''id'' (map_option (\<lambda>i. id_MarshalJSON (Some i)) (req_id r)) @
           [(''method'', JStr (Method r))] @ opt_member ''params'' (req_params r))"

definition response_json :: "rpc_response \<Rightarrow> json" where
  "response_json r =
     JObj ([(''jsonrpc'', JStr (resp_version r)), (''id'', id_MarshalJSON (resp_id r))] @
           opt_member ''result'' (Result r) @ opt_member ''error'' (map_option error_json (Err r)))"

definition notification_json :: "rpc_notification \<Rightarrow> json" where
  "notification_json r =
     JObj ([(''jsonrpc'', JStr (notif_version r)), (''method'', JStr (notif_method r))] @
           opt_member ''params'' (notif_params r))"

section \<open>Round trips\<close>

lemma printable_members_append [simp]:
  "printable_members (xs @ ys) \<longleftrightarrow> printable_members xs \<and> printable_members ys"
  by (induction xs) auto

lemma fold_key_fields [simp]:
  "fold_key ''jsonrpc'' = ''jsonrpc''" "fold_key ''id'' = ''id''" "fold_key ''method'' = ''method''"
  "fold_key ''params'' = ''params''" "fold_key ''result'' = ''result''" "fold_key ''error'' = ''error''"
  "fold_key ''code'' = ''code''" "fold_key ''message'' = ''message''" "fold_key ''data'' = ''data''"
  by (simp_all add: fold_key_def has_prefix_def)

lemma ascii_fields [simp]:
  "ascii ''jsonrpc''" "ascii ''id''" "ascii ''method''" "ascii ''params''" "ascii ''result''"
  "ascii ''error''" "ascii ''code''" "ascii ''message''" "ascii ''data''" "ascii Version"
  by (simp_all add: ascii_def Version_def)

definition plain_id :: "rpc_id \<Rightarrow> bool" where
  "plain_id i =
     (case i of IStr s \<Rightarrow> ascii s | INum n \<Rightarrow> - (2 ^ 63) \<le> n \<and> n < 2 ^ 63 | INil \<Rightarrow> False)"

definition plain_opt :: "json option \<Rightarrow> bool" where
  "plain_opt v = (case v of None \<Rightarrow> True | Some j \<Rightarrow> printable j)"

definition plain_error :: "rpc_error \<Rightarrow> bool" where
  "plain_error e \<longleftrightarrow>
     - (2 ^ 63) \<le> Code e \<and> Code e < 2 ^ 63 \<and> ascii (Message e) \<and> plain_opt (Data e)"

lemma decode_id_marshal:
  assumes "plain_id i"
  shows "decode_id env (id_MarshalJSON (Some i)) old e = (Some i, e)"
  using assms
  by (cases i) (simp_all add: plain_id_def decode_id_def id_MarshalJSON_def id_UnmarshalJSON_def
      int64_of_show del: int64_of_literal_def)

lemma printable_id: "plain_id i \<Longrightarrow> printable (id_MarshalJSON (Some i))"
  by (cases i) (simp_all add: plain_id_def id_MarshalJSON_def)

lemma printable_opt_member: "ascii k \<Longrightarrow> plain_opt v \<Longrightarrow> printable_members (opt_member k v)"
  by (simp add: opt_member_def plain_opt_def split: option.splits)

lemma plain_opt_Some: "plain_opt (Some j) \<longleftrightarrow> printable j"
  by (simp add: plain_opt_def)

lemma plain_opt_None: "plain_opt None"
  by (simp add: plain_opt_def)

lemma printable_error_json: "plain_error e \<Longrightarrow> printable (error_json e)"
  by (simp add: error_json_def plain_error_def printable_opt_member)

lemma printable_request_json:
  assumes "req_version r = Version" "ascii (Method r)" "pred_option plain_id (req_id r)" "plain_opt (req_params r)"
  shows "printable (request_json r)"
proof -
  have "plain_opt (map_option (\<lambda>i. id_MarshalJSON (Some i)) (req_id r))"
    using assms(3) by (cases "req_id r") (simp_all add: plain_opt_def printable_id)
  then show ?thesis
    using assms by (simp add: request_json_def printable_opt_member)
qed

lemma printable_response_json:
  assumes "resp_version r = Version" "pred_option plain_id (resp_id r)" "plain_opt (Result r)"
    "pred_option plain_error (Err r)"
  shows "printable (response_json r)"
proof -
  have "printable (id_MarshalJSON (resp_id r))"
    using assms(2) by (cases "resp_id r") (simp_all add: printable_id, simp add: id_MarshalJSON_def)
  moreover have "plain_opt (map_option error_json (Err r))"
    using assms(4) by (cases "Err r") (simp_all add: plain_opt_def printable_error_json)
  ultimately show ?thesis
    using assms by (simp add: response_json_def printable_opt_member)
qed

lemma decode_error_json:
  assumes "plain_error x"
  shows "unmarshal_struct env (decode_error env) \<lparr>Code = 0, Message = [], Data = None\<rparr> (error_json x) = Inr x"
  using assms
  by (cases "Data x")
     (simp_all add: unmarshal_struct_def error_json_def opt_member_def plain_error_def decode_int_def
        decode_string_def int64_of_show)

lemma decode_error_members:
  assumes "plain_error x" "error_json x = JObj ms"
  shows "decode_error env ms (\<lparr>Code = 0, Message = [], Data = None\<rparr>, e) = (x, e)"
  using assms
  by (cases "Data x")
     (auto simp: error_json_def opt_member_def plain_error_def decode_int_def
        decode_string_def int64_of_show)

text \<open>
  C16: A JSON-RPC request the daemon builds survives the wire: parsing the JSON text of a request with the
  protocol version, a non-empty method, a string or 64-bit integer identifier (or none, a
  notification) and any printable parameters gives back exactly that request.
\<close>

theorem request_roundtrip:
  assumes "req_version r = Version" "Method r \<noteq> []" "ascii (Method r)"
    "pred_option plain_id (req_id r)" "plain_opt (req_params r)"
  shows "ParseRequest env (json_print (request_json r)) = Inr r"
proof -
  have "unmarshal_struct env (decode_request env)
      \<lparr>req_version = [], req_id = None, Method = [], req_params = None\<rparr> (request_json r) = Inr r"
    using assms
    by (cases "req_id r"; cases "req_params r")
       (simp_all add: unmarshal_struct_def request_json_def opt_member_def decode_string_def decode_id_marshal)
  then show ?thesis
    using assms json_roundtrip [OF printable_request_json]
    by (simp add: ParseRequest_def parse_request_value_def)
qed

lemma request_roundtrip_witness:
  "ParseRequest \<lparr>syntax_text = id, type_text = (\<lambda>s j. s), out_of_range = id\<rparr>
     (json_print (request_json \<lparr>req_version = ''2.0'', req_id = Some (INum (-7)), Method = ''agent/run'',
        req_params = Some (JObj [(''prompt'', JStr ''hi'')])\<rparr>)) =
   Inr \<lparr>req_version = ''2.0'', req_id = Some (INum (-7)), Method = ''agent/run'',
        req_params = Some (JObj [(''prompt'', JStr ''hi'')])\<rparr>"
  by (rule request_roundtrip) (simp_all add: Version_def ascii_def plain_id_def plain_opt_def)

text \<open>
  A response survives the wire, for successes and errors alike: the parser gives back the
  identifier, the result and the error object with its code, message and data.
\<close>

theorem response_roundtrip:
  assumes "resp_version r = Version" "pred_option plain_id (resp_id r)" "plain_opt (Result r)"
    "pred_option plain_error (Err r)"
  shows "ParseResponse env (json_print (response_json r)) = Inr r"
proof -
  have id: "decode_id env (id_MarshalJSON (resp_id r)) None e = (resp_id r, e)" for e
    using assms(2) by (cases "resp_id r") (simp_all add: decode_id_marshal, simp add: id_MarshalJSON_def decode_id_def)
  have "unmarshal_struct env (decode_response env)
      \<lparr>resp_version = [], resp_id = None, Result = None, Err = None\<rparr> (response_json r) = Inr r"
  proof (cases "Err r")
    case None
    then show ?thesis
      using assms
      by (cases "Result r") (simp_all add: unmarshal_struct_def response_json_def opt_member_def decode_string_def id)
  next
    case (Some x)
    then obtain ms where ms: "error_json x = JObj ms" and p: "plain_error x"
      using assms(4) by (auto simp: error_json_def)
    then show ?thesis
      using assms Some decode_error_members [OF p ms]
      by (cases "Result r") (simp_all add: unmarshal_struct_def response_json_def opt_member_def decode_string_def id)
  qed
  then show ?thesis
    using assms json_roundtrip [OF printable_response_json]
    by (simp add: ParseResponse_def)
qed

lemma response_roundtrip_witness:
  "ParseResponse \<lparr>syntax_text = id, type_text = (\<lambda>s j. s), out_of_range = id\<rparr>
     (json_print (response_json (NewErrorResponse (Some (IStr ''a'')) (ErrFileTooLarge ''x.txt'' 12 10)))) =
   Inr (NewErrorResponse (Some (IStr ''a'')) (ErrFileTooLarge ''x.txt'' 12 10))"
  by (rule response_roundtrip)
     (simp_all add: NewErrorResponse_def ErrFileTooLarge_def NewErrorWithData_def plain_error_def
        FileTooLarge_def ascii_def plain_id_def plain_opt_def)

end
