(* ===== verification/Token.thy ===== *)
theory Token
  imports Go_Encoding Events Rpc_Message
begin

text \<open>
  \<open>internal/security/token.go\<close>: the signed tokens of the daemon. A token is a prefix and the base64 text of a
  JSON object with the base64 payload and its HMAC-SHA256 under the server's secret.

  What \<open>crypto/rand\<close> delivers is an argument of the operations (\<open>None\<close> when it fails), as is the instant
  each of them reads from the clock. The file of the persisted secret is represented by what
  \<open>saveSecret\<close> writes to a path, the server identifier and the secret; a damaged file is not modelled.
  Exchange and refresh validate under one lock and revoke under another: \<open>exchange_check\<close> and
  \<open>exchange_commit\<close> are these two halves.

  The lemmas say which tokens validate: those the manager issued, until they expire or are revoked; and
  nothing that does not carry the manager's signature.
\<close>

section \<open>Tokens\<close>

definition PairingTokenPrefix :: string where "PairingTokenPrefix = ''cdev_p_''"
definition SessionTokenPrefix :: string where "SessionTokenPrefix = ''cdev_s_''"
definition RefreshTokenPrefix :: string where "RefreshTokenPrefix = ''cdev_r_''"

definition DefaultAccessTokenExpiry :: int where "DefaultAccessTokenExpiry = 15 * 60"
definition DefaultRefreshTokenExpiry :: int where "DefaultRefreshTokenExpiry = 7 * 24 * 3600"

datatype token_error =
    ErrInvalidToken
  | ErrExpiredToken
  | ErrInvalidFormat
  | ErrTokenRevoked
  | ErrRandom string
  | ErrMessage string
  | Wrapped string token_error

definition TokenTypePairing :: string where "TokenTypePairing = ''pairing''"
definition TokenTypeSession :: string where "TokenTypeSession = ''session''"
definition TokenTypeRefresh :: string where "TokenTypeRefresh = ''refresh''"
definition TokenTypeAccess :: string where "TokenTypeAccess = ''access''"

lemmas token_types = TokenTypePairing_def TokenTypeSession_def TokenTypeRefresh_def TokenTypeAccess_def

record token_payload =
  p_version :: int
  p_type :: string
  ServerID :: string
  IssuedAt :: int
  ExpiresAt :: int
  Nonce :: string
  Mode :: string
  AgentID :: string
  DeviceID :: string
  UserID :: string

definition zero_payload :: token_payload where
  "zero_payload = \<lparr>p_version = 0, p_type = [], ServerID = [], IssuedAt = 0, ExpiresAt = 0, Nonce = [],
     Mode = [], AgentID = [], DeviceID = [], UserID = []\<rparr>"

definition payload_json :: "token_payload \<Rightarrow> json" where
  "payload_json p =
     JObj (f_int_opt ''v'' (p_version p) @ f_str ''type'' (p_type p) @ f_str ''server_id'' (ServerID p) @
           f_int ''issued_at'' (IssuedAt p) @ f_int ''expires_at'' (ExpiresAt p) @ f_str ''nonce'' (Nonce p) @
           f_str_opt ''mode'' (Mode p) @ f_str_opt ''agent_id'' (AgentID p) @
           f_str_opt ''device_id'' (DeviceID p) @ f_str_opt ''user_id'' (UserID p))"

fun decode_payload ::
  "json_env \<Rightarrow> (string \<times> json) list \<Rightarrow> token_payload \<times> string option \<Rightarrow> token_payload \<times> string option" where
  "decode_payload env [] st = st"
| "decode_payload env ((k, v) # kvs) (p, e) =
     decode_payload env kvs
       (let f = fold_key k in
        if f = ''v'' then (let (x, e') = decode_int env k v (p_version p) e in (p\<lparr>p_version := x\<rparr>, e'))
        else if f = ''type'' then (let (x, e') = decode_string env k v (p_type p) e in (p\<lparr>p_type := x\<rparr>, e'))
        else if f = ''server_id'' then (let (x, e') = decode_string env k v (ServerID p) e in (p\<lparr>ServerID := x\<rparr>, e'))
        else if f = ''issued_at'' then (let (x, e') = decode_int env k v (IssuedAt p) e in (p\<lparr>IssuedAt := x\<rparr>, e'))
        else if f = ''expires_at'' then (let (x, e') = decode_int env k v (ExpiresAt p) e in (p\<lparr>ExpiresAt := x\<rparr>, e'))
        else if f = ''nonce'' then (let (x, e') = decode_string env k v (Nonce p) e in (p\<lparr>Nonce := x\<rparr>, e'))
        else if f = ''mode'' then (let (x, e') = decode_string env k v (Mode p) e in (p\<lparr>Mode := x\<rparr>, e'))
        else if f = ''agent_id'' then (let (x, e') = decode_string env k v (AgentID p) e in (p\<lparr>AgentID := x\<rparr>, e'))
        else if f = ''device_id'' then (let (x, e') = decode_string env k v (DeviceID p) e in (p\<lparr>DeviceID := x\<rparr>, e'))
        else if f = ''user_id'' then (let (x, e') = decode_string env k v (UserID p) e in (p\<lparr>UserID := x\<rparr>, e'))
        else (p, e))"

fun decode_combined ::
  "json_env \<Rightarrow> (string \<times> json) list \<Rightarrow> (string \<times> string) \<times> string option \<Rightarrow> (string \<times> string) \<times> string option" where
  "decode_combined env [] st = st"
| "decode_combined env ((k, v) # kvs) ((p, s), e) =
     decode_combined env kvs
       (if fold_key k = ''p'' then (let (x, e') = decode_string env k v p e in ((x, s), e'))
        else if fold_key k = ''s'' then (let (x, e') = decode_string env k v s e in ((p, x), e'))
        else ((p, s), e))"

text \<open>Only whether decoding fails matters here, never the text of its error.\<close>

definition quiet :: json_env where
  "quiet = \<lparr>syntax_text = (\<lambda>_. ''syntax''), type_text = (\<lambda>_ _. ''type''), out_of_range = (\<lambda>n. n)\<rparr>"

definition unmarshal ::
  "((string \<times> json) list \<Rightarrow> 'a \<times> string option \<Rightarrow> 'a \<times> string option) \<Rightarrow> 'a \<Rightarrow> string \<Rightarrow> 'a option" where
  "unmarshal dec zero data =
     (case json_parse data of
        None \<Rightarrow> None
      | Some j \<Rightarrow> (case unmarshal_struct quiet dec zero j of Inl _ \<Rightarrow> None | Inr x \<Rightarrow> Some x))"

section \<open>The manager\<close>

record token_manager =
  serverID :: string
  serverSecret :: string
  revokedNonces :: "(string, time) gomap"
  defaultExpirySecs :: int

type_synonym secret_files = "(string, string \<times> string) gomap"

definition saveSecret :: "string \<Rightarrow> string \<Rightarrow> string \<Rightarrow> secret_files \<Rightarrow> secret_files" where
  "saveSecret path sid secret files = mput path (sid, secret) files"

text \<open>The first \<open>len\<close> characters of the base64 text of \<open>len\<close> random bytes.\<close>

definition generateRandomString :: "nat \<Rightarrow> string option \<Rightarrow> string option" where
  "generateRandomString len rnd =
     (case rnd of None \<Rightarrow> None | Some bytes \<Rightarrow> Some (take len (b64_encode (take len bytes))))"

text \<open>
  Loading the secret of a path, or making a new one and saving it. A failure to save is only
  reported on standard error.
\<close>

definition NewTokenManagerWithPath ::
  "int \<Rightarrow> string \<Rightarrow> string option \<Rightarrow> string option \<Rightarrow> bool \<Rightarrow> secret_files \<Rightarrow>
     (token_error + token_manager) \<times> secret_files" where
  "NewTokenManagerWithPath expirySecs path rnd_id rnd_secret save_ok files =
     (let (sid, secret) = (case mget files path of Some (i, s) \<Rightarrow> (i, s) | None \<Rightarrow> ([], []))
      in if secret = [] \<or> sid = [] then
           (case generateRandomString 16 rnd_id of
              None \<Rightarrow> (Inl (ErrRandom ''failed to generate server ID''), files)
            | Some sid' \<Rightarrow>
                (case rnd_secret of
                   None \<Rightarrow> (Inl (ErrRandom ''failed to generate server secret''), files)
                 | Some bytes \<Rightarrow>
                     (let secret' = take 32 bytes;
                          files' = (if save_ok then saveSecret path sid' secret' files else files)
                      in (Inr \<lparr>serverID = sid', serverSecret = secret', revokedNonces = [],
                            defaultExpirySecs = expirySecs\<rparr>, files'))))
         else (Inr \<lparr>serverID = sid, serverSecret = secret, revokedNonces = [], defaultExpirySecs = expirySecs\<rparr>, files))"

definition calculateHMAC :: "token_manager \<Rightarrow> string \<Rightarrow> string" where
  "calculateHMAC tm data = hmac_sha256 (serverSecret tm) data"

text \<open>\<open>time.Duration(n) * time.Second\<close> is a product of 64-bit integers.\<close>

definition duration_secs :: "int \<Rightarrow> time" where
  "duration_secs n = signed_take_bit 63 (n * second)"

definition token_prefix :: "string \<Rightarrow> string" where
  "token_prefix ty =
     (if ty = TokenTypePairing then PairingTokenPrefix
      else if ty = TokenTypeSession \<or> ty = TokenTypeAccess then SessionTokenPrefix
      else if ty = TokenTypeRefresh then RefreshTokenPrefix
      else SessionTokenPrefix)"

definition seal :: "token_manager \<Rightarrow> string \<Rightarrow> string \<Rightarrow> string" where
  "seal tm ty payloadJSON =
     (let combined = JObj (f_str ''p'' (b64_encode payloadJSON) @ f_str ''s'' (b64_encode (calculateHMAC tm payloadJSON)))
      in token_prefix ty @ b64_encode (json_print combined))"

definition new_payload :: "token_manager \<Rightarrow> string \<Rightarrow> int \<Rightarrow> string \<Rightarrow> string \<Rightarrow> time \<Rightarrow> token_payload" where
  "new_payload tm ty expirySecs deviceID nonce now =
     \<lparr>p_version = 1, p_type = ty, ServerID = serverID tm, IssuedAt = unix now,
      ExpiresAt = unix (now + duration_secs expirySecs), Nonce = nonce, Mode = ''local'',
      AgentID = serverID tm, DeviceID = deviceID, UserID = []\<rparr>"

definition generateToken ::
  "token_manager \<Rightarrow> string \<Rightarrow> int \<Rightarrow> string \<Rightarrow> string option \<Rightarrow> time \<Rightarrow> token_error + string \<times> time" where
  "generateToken tm ty expirySecs deviceID rnd now =
     (case generateRandomString 16 rnd of
        None \<Rightarrow> Inl (ErrRandom ''failed to generate nonce'')
      | Some nonce \<Rightarrow>
          Inr (seal tm ty (json_print (payload_json (new_payload tm ty expirySecs deviceID nonce now))),
               now + duration_secs expirySecs))"

definition GeneratePairingToken :: "token_manager \<Rightarrow> string option \<Rightarrow> time \<Rightarrow> token_error + string \<times> time" where
  "GeneratePairingToken tm rnd now = generateToken tm TokenTypePairing (defaultExpirySecs tm) [] rnd now"

definition GeneratePairingTokenWithExpiry ::
  "token_manager \<Rightarrow> int \<Rightarrow> string option \<Rightarrow> time \<Rightarrow> token_error + string \<times> time" where
  "GeneratePairingTokenWithExpiry tm expirySecs rnd now = generateToken tm TokenTypePairing expirySecs [] rnd now"

definition GenerateSessionToken :: "token_manager \<Rightarrow> string option \<Rightarrow> time \<Rightarrow> token_error + string \<times> time" where
  "GenerateSessionToken tm rnd now = generateToken tm TokenTypeSession 300 [] rnd now"

definition GenerateAccessToken :: "token_manager \<Rightarrow> string option \<Rightarrow> time \<Rightarrow> token_error + string \<times> time" where
  "GenerateAccessToken tm rnd now = generateToken tm TokenTypeAccess DefaultAccessTokenExpiry [] rnd now"

definition GenerateRefreshToken :: "token_manager \<Rightarrow> string option \<Rightarrow> time \<Rightarrow> token_error + string \<times> time" where
  "GenerateRefreshToken tm rnd now = generateToken tm TokenTypeRefresh DefaultRefreshTokenExpiry [] rnd now"

definition opens_with :: "string \<Rightarrow> string \<Rightarrow> bool" where
  "opens_with prefix token \<longleftrightarrow> length token > length prefix \<and> take (length prefix) token = prefix"

definition split_prefix :: "string \<Rightarrow> (string \<times> string) option" where
  "split_prefix token =
     (if opens_with PairingTokenPrefix token then Some (TokenTypePairing, drop (length PairingTokenPrefix) token)
      else if opens_with SessionTokenPrefix token then Some (TokenTypeSession, drop (length SessionTokenPrefix) token)
      else if opens_with RefreshTokenPrefix token then Some (TokenTypeRefresh, drop (length RefreshTokenPrefix) token)
      else None)"

definition parseTokenPayload :: "token_manager \<Rightarrow> string \<Rightarrow> token_error + token_payload" where
  "parseTokenPayload tm token =
     (case split_prefix token of
        None \<Rightarrow> Inl ErrInvalidFormat
      | Some (expectedType, tokenData) \<Rightarrow>
          (case b64_decode tokenData of
             None \<Rightarrow> Inl ErrInvalidFormat
           | Some combinedJSON \<Rightarrow>
               (case unmarshal (decode_combined quiet) ([], []) combinedJSON of
                  None \<Rightarrow> Inl ErrInvalidFormat
                | Some (p, s) \<Rightarrow>
                    (case b64_decode p of
                       None \<Rightarrow> Inl ErrInvalidFormat
                     | Some payloadJSON \<Rightarrow>
                         (case b64_decode s of
                            None \<Rightarrow> Inl ErrInvalidFormat
                          | Some signature \<Rightarrow>
                              if signature \<noteq> calculateHMAC tm payloadJSON then Inl ErrInvalidToken
                              else (case unmarshal (decode_payload quiet) zero_payload payloadJSON of
                                  None \<Rightarrow> Inl ErrInvalidFormat
                                | Some payload \<Rightarrow>
                                    if ServerID payload \<noteq> serverID tm then Inl ErrInvalidToken
                                    else if p_type payload = expectedType \<or>
                                      expectedType = TokenTypeSession \<and> p_type payload = TokenTypeAccess
                                    then Inr payload
                                    else Inl ErrInvalidFormat))))))"

definition ValidateToken :: "token_manager \<Rightarrow> string \<Rightarrow> time \<Rightarrow> token_error + token_payload" where
  "ValidateToken tm token now =
     (case parseTokenPayload tm token of
        Inl e \<Rightarrow> Inl e
      | Inr payload \<Rightarrow>
          if mem_key (Nonce payload) (revokedNonces tm) then Inl ErrTokenRevoked
          else if unix now > ExpiresAt payload then Inl ErrExpiredToken
          else Inr payload)"

definition revoke_nonce :: "string \<Rightarrow> time \<Rightarrow> token_manager \<Rightarrow> token_manager" where
  "revoke_nonce nonce now tm = tm\<lparr>revokedNonces := mput nonce now (revokedNonces tm)\<rparr>"

definition RevokeToken :: "string \<Rightarrow> time \<Rightarrow> token_manager \<Rightarrow> token_error option \<times> token_manager" where
  "RevokeToken token now tm =
     (case parseTokenPayload tm token of
        Inl e \<Rightarrow> (Some e, tm)
      | Inr payload \<Rightarrow> (None, revoke_nonce (Nonce payload) now tm))"

definition RevokeTokenByNonce :: "string \<Rightarrow> time \<Rightarrow> token_manager \<Rightarrow> token_manager" where
  "RevokeTokenByNonce nonce now tm = (if nonce = [] then tm else revoke_nonce nonce now tm)"

text \<open>The new secret is saved under the default path, whatever path the manager was loaded from.\<close>

definition RevokeAllTokens ::
  "string \<Rightarrow> string option \<Rightarrow> bool \<Rightarrow> token_manager \<Rightarrow> secret_files \<Rightarrow>
     token_error option \<times> token_manager \<times> secret_files" where
  "RevokeAllTokens default_path rnd save_ok tm files =
     (case rnd of
        None \<Rightarrow> (Some (ErrRandom ''failed to regenerate server secret''), tm, files)
      | Some bytes \<Rightarrow>
          if \<not> save_ok then (Some (ErrMessage ''failed to persist token secret''), tm, files)
          else (None, tm\<lparr>serverSecret := take 32 bytes, revokedNonces := []\<rparr>,
                saveSecret default_path (serverID tm) (take 32 bytes) files))"

definition CleanupExpiredRevocations :: "time \<Rightarrow> time \<Rightarrow> token_manager \<Rightarrow> token_manager" where
  "CleanupExpiredRevocations maxAge now tm =
     tm\<lparr>revokedNonces := mdel_if (\<lambda>_ revokedAt. revokedAt < now - maxAge) (revokedNonces tm)\<rparr>"

section \<open>Pairs\<close>

record token_pair =
  AccessToken :: string
  AccessTokenExpiry :: time
  RefreshToken :: string
  RefreshTokenExpiry :: time
  tp_device :: string
  AccessNonce :: string
  RefreshNonce :: string

text \<open>Two random strings are drawn, for the nonces of the two tokens.\<close>

definition GenerateTokenPairWithDeviceID ::
  "token_manager \<Rightarrow> string \<Rightarrow> string option \<Rightarrow> string option \<Rightarrow> time \<Rightarrow> token_error + token_pair" where
  "GenerateTokenPairWithDeviceID tm deviceID rnd1 rnd2 now =
     (if deviceID = [] then Inl (ErrMessage ''device_id is required'')
      else case generateToken tm TokenTypeAccess DefaultAccessTokenExpiry deviceID rnd1 now of
        Inl e \<Rightarrow> Inl (Wrapped ''failed to generate access token'' e)
      | Inr (accessToken, accessExpiry) \<Rightarrow>
          (case generateToken tm TokenTypeRefresh DefaultRefreshTokenExpiry deviceID rnd2 now of
             Inl e \<Rightarrow> Inl (Wrapped ''failed to generate refresh token'' e)
           | Inr (refreshToken, refreshExpiry) \<Rightarrow>
               (case ValidateToken tm accessToken now of
                  Inl e \<Rightarrow> Inl (Wrapped ''failed to validate access token'' e)
                | Inr accessPayload \<Rightarrow>
                    (case ValidateToken tm refreshToken now of
                       Inl e \<Rightarrow> Inl (Wrapped ''failed to validate refresh token'' e)
                     | Inr refreshPayload \<Rightarrow>
                         Inr \<lparr>AccessToken = accessToken, AccessTokenExpiry = accessExpiry,
                           RefreshToken = refreshToken, RefreshTokenExpiry = refreshExpiry,
                           tp_device = deviceID, AccessNonce = Nonce accessPayload,
                           RefreshNonce = Nonce refreshPayload\<rparr>))))"

definition GenerateTokenPair ::
  "token_manager \<Rightarrow> string option \<Rightarrow> string option \<Rightarrow> string option \<Rightarrow> time \<Rightarrow> token_error + token_pair" where
  "GenerateTokenPair tm rnd0 rnd1 rnd2 now =
     (case generateRandomString 16 rnd0 of
        None \<Rightarrow> Inl (ErrRandom ''failed to generate device ID'')
      | Some deviceID \<Rightarrow> GenerateTokenPairWithDeviceID tm deviceID rnd1 rnd2 now)"

definition refresh_check :: "string \<Rightarrow> time \<Rightarrow> token_manager \<Rightarrow> token_error + token_payload" where
  "refresh_check token now tm =
     (case ValidateToken tm token now of
        Inl e \<Rightarrow> Inl (Wrapped ''invalid refresh token'' e)
      | Inr payload \<Rightarrow>
          if p_type payload \<noteq> TokenTypeRefresh then Inl (ErrMessage (''invalid token type: expected refresh, got '' @ p_type payload))
          else if DeviceID payload = [] then Inl (ErrMessage ''refresh token missing device_id'')
          else Inr payload)"

definition refresh_commit ::
  "token_payload \<Rightarrow> string option \<Rightarrow> string option \<Rightarrow> time \<Rightarrow> token_manager \<Rightarrow> (token_error + token_pair) \<times> token_manager" where
  "refresh_commit payload rnd1 rnd2 now tm =
     (case GenerateTokenPairWithDeviceID tm (DeviceID payload) rnd1 rnd2 now of
        Inl e \<Rightarrow> (Inl e, tm)
      | Inr pair \<Rightarrow> (Inr pair, revoke_nonce (Nonce payload) now tm))"

definition RefreshTokenPair ::
  "string \<Rightarrow> string option \<Rightarrow> string option \<Rightarrow> time \<Rightarrow> token_manager \<Rightarrow> (token_error + token_pair) \<times> token_manager" where
  "RefreshTokenPair token rnd1 rnd2 now tm =
     (case refresh_check token now tm of
        Inl e \<Rightarrow> (Inl e, tm)
      | Inr payload \<Rightarrow> refresh_commit payload rnd1 rnd2 now tm)"

definition exchange_check :: "string \<Rightarrow> time \<Rightarrow> token_manager \<Rightarrow> token_error + token_payload" where
  "exchange_check token now tm =
     (case ValidateToken tm token now of
        Inl e \<Rightarrow> Inl (Wrapped ''invalid pairing token'' e)
      | Inr payload \<Rightarrow>
          if p_type payload \<noteq> TokenTypePairing then Inl (ErrMessage (''invalid token type: expected pairing, got '' @ p_type payload))
          else Inr payload)"

definition exchange_commit ::
  "token_payload \<Rightarrow> string option \<Rightarrow> string option \<Rightarrow> string option \<Rightarrow> time \<Rightarrow> token_manager \<Rightarrow>
     (token_error + token_pair) \<times> token_manager" where
  "exchange_commit payload rnd0 rnd1 rnd2 now tm =
     (case generateRandomString 16 rnd0 of
        None \<Rightarrow> (Inl (ErrRandom ''failed to generate device ID''), tm)
      | Some deviceID \<Rightarrow>
          (case GenerateTokenPairWithDeviceID tm deviceID rnd1 rnd2 now of
             Inl e \<Rightarrow> (Inl e, tm)
           | Inr pair \<Rightarrow> (Inr pair, revoke_nonce (Nonce payload) now tm)))"

definition ExchangePairingToken ::
  "string \<Rightarrow> string option \<Rightarrow> string option \<Rightarrow> string option \<Rightarrow> time \<Rightarrow> token_manager \<Rightarrow>
     (token_error + token_pair) \<times> token_manager" where
  "ExchangePairingToken token rnd0 rnd1 rnd2 now tm =
     (case exchange_check token now tm of
        Inl e \<Rightarrow> (Inl e, tm)
      | Inr payload \<Rightarrow> exchange_commit payload rnd0 rnd1 rnd2 now tm)"

section \<open>Encoding and decoding\<close>

lemma ascii_take: "ascii s \<Longrightarrow> ascii (take n s)"
  using set_take_subset [of n s] by (auto simp: ascii_def)

lemma ascii_random: "generateRandomString n rnd = Some s \<Longrightarrow> ascii s"
  by (auto simp: generateRandomString_def ascii_take ascii_b64 split: option.splits)

lemma b64_encode_nonempty: "s \<noteq> [] \<Longrightarrow> b64_encode s \<noteq> []"
  using b64.enc_inject [of s "[]"] by (auto simp: b64_encode_def)

definition plain_payload :: "token_payload \<Rightarrow> bool" where
  "plain_payload p \<longleftrightarrow>
     (\<forall>s \<in> {p_type p, ServerID p, Nonce p, Mode p, AgentID p, DeviceID p, UserID p}. ascii s) \<and>
     (\<forall>n \<in> {p_version p, IssuedAt p, ExpiresAt p}. - (2 ^ 63) \<le> n \<and> n < 2 ^ 63)"

lemmas field_defs = f_str_def f_str_opt_def f_int_def f_int_opt_def

lemma fold_key_token [simp]:
  "fold_key ''v'' = ''v''" "fold_key ''type'' = ''type''" "fold_key ''server_id'' = ''server_id''"
  "fold_key ''issued_at'' = ''issued_at''" "fold_key ''expires_at'' = ''expires_at''"
  "fold_key ''nonce'' = ''nonce''" "fold_key ''mode'' = ''mode''" "fold_key ''agent_id'' = ''agent_id''"
  "fold_key ''device_id'' = ''device_id''" "fold_key ''user_id'' = ''user_id''"
  "fold_key ''p'' = ''p''" "fold_key ''s'' = ''s''"
  by (simp_all add: fold_key_def has_prefix_def)

lemma ascii_token_keys [simp]:
  "ascii ''v''" "ascii ''type''" "ascii ''server_id''" "ascii ''issued_at''" "ascii ''expires_at''"
  "ascii ''nonce''" "ascii ''mode''" "ascii ''agent_id''" "ascii ''device_id''" "ascii ''user_id''"
  "ascii ''p''" "ascii ''s''"
  by (simp_all add: ascii_def)

lemma printable_payload: "plain_payload p \<Longrightarrow> printable (payload_json p)"
  by (simp add: payload_json_def plain_payload_def field_defs)

lemma decode_payload_append:
  "decode_payload env (xs @ ys) st = decode_payload env ys (decode_payload env xs st)"
  by (induction env xs st rule: decode_payload.induct) auto

lemma decode_payload_fields:
  "ascii s \<Longrightarrow> decode_payload env (f_str ''type'' s) (p, None) = (p\<lparr>p_type := s\<rparr>, None)"
  "decode_payload env (f_str ''server_id'' s) (p, None) = (p\<lparr>ServerID := s\<rparr>, None)"
  "decode_payload env (f_str ''nonce'' s) (p, None) = (p\<lparr>Nonce := s\<rparr>, None)"
  "Mode p = [] \<Longrightarrow> decode_payload env (f_str_opt ''mode'' s) (p, None) = (p\<lparr>Mode := s\<rparr>, None)"
  "AgentID p = [] \<Longrightarrow> decode_payload env (f_str_opt ''agent_id'' s) (p, None) = (p\<lparr>AgentID := s\<rparr>, None)"
  "DeviceID p = [] \<Longrightarrow> decode_payload env (f_str_opt ''device_id'' s) (p, None) = (p\<lparr>DeviceID := s\<rparr>, None)"
  "UserID p = [] \<Longrightarrow> decode_payload env (f_str_opt ''user_id'' s) (p, None) = (p\<lparr>UserID := s\<rparr>, None)"
  by (simp_all add: field_defs decode_string_def Let_def)

lemma decode_payload_ints:
  assumes "- (2 ^ 63) \<le> n" "n < 2 ^ 63"
  shows "p_version p = 0 \<Longrightarrow> decode_payload env (f_int_opt ''v'' n) (p, None) = (p\<lparr>p_version := n\<rparr>, None)"
    "decode_payload env (f_int ''issued_at'' n) (p, None) = (p\<lparr>IssuedAt := n\<rparr>, None)"
    "decode_payload env (f_int ''expires_at'' n) (p, None) = (p\<lparr>ExpiresAt := n\<rparr>, None)"
  using int64_of_show [OF assms] by (simp_all add: field_defs decode_int_def Let_def)

lemma unmarshal_payload:
  assumes "plain_payload p"
  shows "unmarshal (decode_payload quiet) zero_payload (json_print (payload_json p)) = Some p"
proof -
  obtain kvs where kvs: "payload_json p = JObj kvs" by (simp add: payload_json_def)
  have "decode_payload quiet kvs (zero_payload, None) = (p, None)"
    using kvs assms
    by (auto simp: payload_json_def plain_payload_def decode_payload_append decode_payload_fields
        decode_payload_ints zero_payload_def)
  then show ?thesis
    using json_roundtrip [OF printable_payload [OF assms]] kvs
    by (simp add: unmarshal_def unmarshal_struct_def)
qed

text \<open>What a token carries: the type its prefix announces, the payload text and the signature.\<close>

definition token_parts :: "string \<Rightarrow> (string \<times> string \<times> string) option" where
  "token_parts token =
     (case split_prefix token of
        None \<Rightarrow> None
      | Some (ty, d) \<Rightarrow>
          (case Option.bind (b64_decode d) (unmarshal (decode_combined quiet) ([], [])) of
             None \<Rightarrow> None
           | Some (p, s) \<Rightarrow>
               (case (b64_decode p, b64_decode s) of (Some txt, Some sig) \<Rightarrow> Some (ty, txt, sig) | _ \<Rightarrow> None)))"

definition fits_prefix :: "string \<Rightarrow> string \<Rightarrow> bool" where
  "fits_prefix announced ty \<longleftrightarrow> ty = announced \<or> announced = TokenTypeSession \<and> ty = TokenTypeAccess"

lemma parse_by_parts:
  "parseTokenPayload tm token = Inr p \<longleftrightarrow>
    (\<exists>ty txt. token_parts token = Some (ty, txt, calculateHMAC tm txt) \<and>
       unmarshal (decode_payload quiet) zero_payload txt = Some p \<and> ServerID p = serverID tm \<and> fits_prefix ty (p_type p))"
  by (auto simp: parseTokenPayload_def token_parts_def fits_prefix_def bind_eq_Some_conv
      split: option.splits prod.splits if_splits)

lemma token_parts_seal:
  assumes "ty \<in> {TokenTypePairing, TokenTypeSession, TokenTypeAccess, TokenTypeRefresh}"
  shows "token_parts (seal tm ty txt) =
    Some (if ty = TokenTypeAccess then TokenTypeSession else ty, txt, calculateHMAC tm txt)"
proof -
  let ?c = "JObj (f_str ''p'' (b64_encode txt) @ f_str ''s'' (b64_encode (calculateHMAC tm txt)))"
  have pr: "printable ?c" by (simp add: field_defs ascii_b64)
  have "json_print ?c \<noteq> []" by (simp add: field_defs)
  then have ne: "0 < length (b64_encode (json_print ?c))" using b64_encode_nonempty by blast
  have sp: "split_prefix (token_prefix ty @ x) = Some (if ty = TokenTypeAccess then TokenTypeSession else ty, x)"
    if "0 < length x" for x
    using assms that
    by (auto simp: split_prefix_def opens_with_def token_prefix_def token_types PairingTokenPrefix_def
        SessionTokenPrefix_def RefreshTokenPrefix_def)
  have "unmarshal (decode_combined quiet) ([], []) (json_print ?c) = Some (b64_encode txt, b64_encode (calculateHMAC tm txt))"
    using json_roundtrip [OF pr] by (simp add: unmarshal_def unmarshal_struct_def field_defs decode_string_def)
  then show ?thesis
    using sp [OF ne] by (simp add: token_parts_def seal_def b64_decode_encode)
qed

definition same_keys :: "token_manager \<Rightarrow> token_manager \<Rightarrow> bool" where
  "same_keys tm tm' \<longleftrightarrow> serverID tm' = serverID tm \<and> serverSecret tm' = serverSecret tm"

lemma same_keys_refl [simp]: "same_keys tm tm"
  by (simp add: same_keys_def)

lemma parse_same_keys:
  assumes "same_keys tm tm'"
  shows "parseTokenPayload tm' token = parseTokenPayload tm token"
proof -
  have keys: "serverID tm' = serverID tm" "serverSecret tm' = serverSecret tm"
    using assms by (simp_all add: same_keys_def)
  show ?thesis unfolding parseTokenPayload_def calculateHMAC_def keys ..
qed

section \<open>Which tokens validate\<close>

text \<open>
  C3: No token validates that the server did not sign: \<open>ValidateToken\<close> accepts a token exactly when it
  carries a payload text under the HMAC of this server's secret, that text decodes to the returned payload,
  the payload names this server and fits the token's prefix, its nonce is not revoked and its expiry has
  not passed.
\<close>

theorem ValidateToken_iff_signed:
  "ValidateToken tm token now = Inr p \<longleftrightarrow>
    (\<exists>ty txt. token_parts token = Some (ty, txt, hmac_sha256 (serverSecret tm) txt) \<and>
       unmarshal (decode_payload quiet) zero_payload txt = Some p \<and> ServerID p = serverID tm \<and>
       fits_prefix ty (p_type p)) \<and>
    mget (revokedNonces tm) (Nonce p) = None \<and> unix now \<le> ExpiresAt p"
proof -
  have "ValidateToken tm token now = Inr p \<longleftrightarrow> parseTokenPayload tm token = Inr p \<and>
      mget (revokedNonces tm) (Nonce p) = None \<and> unix now \<le> ExpiresAt p"
    by (auto simp: ValidateToken_def mem_key_def split: sum.split)
  then show ?thesis by (simp add: parse_by_parts calculateHMAC_def)
qed

definition valid_time :: "time \<Rightarrow> bool" where
  "valid_time t \<longleftrightarrow> - (2 ^ 62) \<le> unix t \<and> unix t < 2 ^ 62"

lemma duration_bounds: "- (2 ^ 63) \<le> duration_secs n" "duration_secs n < 2 ^ 63"
  unfolding duration_secs_def
  using signed_take_bit_int_greater_eq_minus_exp [of 63 "n * second"] signed_take_bit_int_less_exp [of 63 "n * second"]
  by simp_all

lemma unix_plus_duration:
  assumes "valid_time now"
  shows "- (2 ^ 63) \<le> unix (now + duration_secs n) \<and> unix (now + duration_secs n) < 2 ^ 63"
proof -
  let ?d = "duration_secs n"
  have now: "now = unix now * second + now mod second" by (simp add: unix_def)
  have "0 \<le> now mod second" "now mod second < second" by simp_all
  moreover have "- (2 ^ 62) \<le> unix now" "unix now < 2 ^ 62" using assms by (simp_all add: valid_time_def)
  ultimately have "- (2 ^ 63) * second \<le> now + ?d" "now + ?d < 2 ^ 63 * second"
    using duration_bounds [of n] now by (simp_all add: second_def)
  then show ?thesis
    unfolding unix_def second_def by (simp; linarith)
qed

lemma plain_new_payload:
  assumes "generateRandomString 16 rnd = Some nonce" "ascii ty" "ascii (serverID tm)" "ascii dev" "valid_time now"
  shows "plain_payload (new_payload tm ty secs dev nonce now)"
  using assms ascii_random [OF assms(1)] unix_plus_duration [OF assms(5), of secs]
  by (simp add: plain_payload_def new_payload_def valid_time_def ascii_def [of "''local''"])

lemma ascii_types:
  "ty \<in> {TokenTypePairing, TokenTypeSession, TokenTypeAccess, TokenTypeRefresh} \<Longrightarrow> ascii ty"
  by (auto simp: token_types ascii_def)

lemma parse_generated:
  assumes "generateToken tm ty secs dev rnd now = Inr (token, expiry)"
    and "ty \<in> {TokenTypePairing, TokenTypeSession, TokenTypeAccess, TokenTypeRefresh}"
    and "ascii (serverID tm)" "ascii dev" "valid_time now"
  obtains nonce where "generateRandomString 16 rnd = Some nonce"
    "parseTokenPayload tm token = Inr (new_payload tm ty secs dev nonce now)" "expiry = now + duration_secs secs"
proof -
  obtain nonce where n: "generateRandomString 16 rnd = Some nonce"
    and tok: "token = seal tm ty (json_print (payload_json (new_payload tm ty secs dev nonce now)))"
    and ex: "expiry = now + duration_secs secs"
    using assms(1) by (auto simp: generateToken_def split: option.splits)
  have "plain_payload (new_payload tm ty secs dev nonce now)"
    using plain_new_payload [OF n ascii_types [OF assms(2)] assms(3-5)] .
  then have "parseTokenPayload tm token = Inr (new_payload tm ty secs dev nonce now)"
    using assms(2)
    unfolding parse_by_parts tok token_parts_seal [OF assms(2)]
    by (auto simp: unmarshal_payload fits_prefix_def new_payload_def token_types)
  with n ex show thesis using that by blast
qed

text \<open>
  A token the server issues is good until it expires or is revoked, and only until then, on this
  manager and on any with the same secret (the same server after a restart): validation returns the
  type, device and expiry it was issued with.
\<close>

theorem issued_token_validates:
  assumes "generateToken tm ty secs dev rnd now = Inr (token, expiry)"
    and "ty \<in> {TokenTypePairing, TokenTypeSession, TokenTypeAccess, TokenTypeRefresh}"
    and "ascii (serverID tm)" "ascii dev" "valid_time now"
  shows "\<exists>p. p_type p = ty \<and> DeviceID p = dev \<and> ExpiresAt p = unix expiry \<and>
    generateRandomString 16 rnd = Some (Nonce p) \<and>
    (\<forall>tm' now'. same_keys tm tm' \<longrightarrow> ValidateToken tm' token now' =
       (if mem_key (Nonce p) (revokedNonces tm') then Inl ErrTokenRevoked
        else if unix now' > unix expiry then Inl ErrExpiredToken else Inr p))"
proof -
  obtain nonce where n: "generateRandomString 16 rnd = Some nonce"
    and p: "parseTokenPayload tm token = Inr (new_payload tm ty secs dev nonce now)"
    and ex: "expiry = now + duration_secs secs"
    using parse_generated [OF assms] by blast
  show ?thesis
    by (rule exI [of _ "new_payload tm ty secs dev nonce now"])
       (use n ex p in \<open>auto simp: ValidateToken_def parse_same_keys new_payload_def\<close>)
qed

definition demo_manager :: token_manager where
  "demo_manager = \<lparr>serverID = ''srv'', serverSecret = ''secret'', revokedNonces = [], defaultExpirySecs = 600\<rparr>"

definition demo_bytes :: string where
  "demo_bytes = replicate 16 (CHR ''x'')"

lemma demo_token_eq:
  "\<exists>token. generateToken demo_manager ty secs dev (Some demo_bytes) now = Inr (token, now + duration_secs secs)"
  by (simp add: generateToken_def generateRandomString_def)

lemma issued_token_validates_witness:
  "\<exists>token. generateToken demo_manager TokenTypePairing 600 [] (Some demo_bytes) (hour) = Inr (token, hour + duration_secs 600) \<and>
   (\<exists>p. p_type p = TokenTypePairing \<and> DeviceID p = [] \<and> ExpiresAt p = unix (hour + duration_secs 600) \<and>
    generateRandomString 16 (Some demo_bytes) = Some (Nonce p) \<and>
    (\<forall>tm' now'. same_keys demo_manager tm' \<longrightarrow> ValidateToken tm' token now' =
       (if mem_key (Nonce p) (revokedNonces tm') then Inl ErrTokenRevoked
        else if unix now' > unix (hour + duration_secs 600) then Inl ErrExpiredToken else Inr p)))"
proof -
  obtain token where t: "generateToken demo_manager TokenTypePairing 600 [] (Some demo_bytes) hour =
      Inr (token, hour + duration_secs 600)"
    using demo_token_eq by blast
  show ?thesis
    using t issued_token_validates [OF t]
    by (auto simp: demo_manager_def ascii_def valid_time_def hour_def minute_def second_def unix_def)
qed

section \<open>Tokens are used once\<close>

datatype token_op =
    Op_revoke string time
  | Op_revoke_nonce string time
  | Op_exchange string "string option" "string option" "string option" time
  | Op_refresh string "string option" "string option" time

fun token_exec :: "token_op \<Rightarrow> token_manager \<Rightarrow> token_manager" where
  "token_exec (Op_revoke token now) tm = snd (RevokeToken token now tm)"
| "token_exec (Op_revoke_nonce nonce now) tm = RevokeTokenByNonce nonce now tm"
| "token_exec (Op_exchange token r0 r1 r2 now) tm = snd (ExchangePairingToken token r0 r1 r2 now tm)"
| "token_exec (Op_refresh token r1 r2 now) tm = snd (RefreshTokenPair token r1 r2 now tm)"

text \<open>These operations keep the secret and only add revocations.\<close>

definition extends_mgr :: "token_manager \<Rightarrow> token_manager \<Rightarrow> bool" where
  "extends_mgr tm tm' \<longleftrightarrow> same_keys tm tm' \<and>
     (\<forall>n. mget (revokedNonces tm) n \<noteq> None \<longrightarrow> mget (revokedNonces tm') n \<noteq> None)"

lemma extends_refl [simp]: "extends_mgr tm tm"
  by (simp add: extends_mgr_def)

lemma extends_trans: "extends_mgr a b \<Longrightarrow> extends_mgr b c \<Longrightarrow> extends_mgr a c"
  by (simp add: extends_mgr_def same_keys_def)

lemma extends_revoke [simp]: "extends_mgr tm (revoke_nonce n now tm)"
  by (simp add: extends_mgr_def same_keys_def revoke_nonce_def)

lemma extends_exchange: "extends_mgr tm (snd (ExchangePairingToken token r0 r1 r2 now tm))"
  by (auto simp: ExchangePairingToken_def exchange_commit_def split: sum.split option.split)

lemma extends_refresh: "extends_mgr tm (snd (RefreshTokenPair token r1 r2 now tm))"
  by (auto simp: RefreshTokenPair_def refresh_commit_def split: sum.split)

lemma extends_exec: "extends_mgr tm (token_exec op tm)"
  by (cases op) (auto simp: extends_exchange extends_refresh RevokeToken_def RevokeTokenByNonce_def split: sum.split)

lemma extends_fold: "extends_mgr tm (fold token_exec ops tm)"
proof (induction ops arbitrary: tm)
  case (Cons op ops)
  then show ?case using extends_trans [OF extends_exec [of tm op]] by simp
qed simp

lemma exchange_success:
  assumes "ExchangePairingToken token r0 r1 r2 now tm = (Inr pair, tm')"
  obtains p where "parseTokenPayload tm token = Inr p" "p_type p = TokenTypePairing"
    "tm' = revoke_nonce (Nonce p) now tm"
  using assms
  by (auto simp: ExchangePairingToken_def exchange_check_def exchange_commit_def ValidateToken_def
      split: sum.splits option.splits if_splits)

lemma refresh_success:
  assumes "RefreshTokenPair token r1 r2 now tm = (Inr pair, tm')"
  obtains p where "refresh_check token now tm = Inr p"
    "GenerateTokenPairWithDeviceID tm (DeviceID p) r1 r2 now = Inr pair" "tm' = revoke_nonce (Nonce p) now tm"
proof (cases "refresh_check token now tm")
  case (Inl e)
  then show thesis using assms by (simp add: RefreshTokenPair_def)
next
  case (Inr p)
  then show thesis
    using assms that by (cases "GenerateTokenPairWithDeviceID tm (DeviceID p) r1 r2 now")
      (auto simp: RefreshTokenPair_def refresh_commit_def)
qed

lemma revoked_refused:
  assumes "parseTokenPayload tm token = Inr p" "extends_mgr (revoke_nonce (Nonce p) now tm) tm'"
  shows "ValidateToken tm' token now' = Inl ErrTokenRevoked"
proof -
  have "same_keys tm tm'" "mget (revokedNonces tm') (Nonce p) \<noteq> None"
    using assms(2) by (auto simp: extends_mgr_def same_keys_def revoke_nonce_def)
  then show ?thesis
    using assms(1) parse_same_keys [of tm tm' token] by (simp add: ValidateToken_def mem_key_def)
qed

text \<open>
  A pairing token pairs once: after one successful exchange every later exchange of the same token is
  refused as revoked, whatever exchanges, refreshes and revocations happen in between, and the refused
  exchange changes nothing. A token of another type is never exchanged.
\<close>

theorem pairing_token_once:
  assumes "ExchangePairingToken token r0 r1 r2 now tm = (Inr pair, tm1)" "tm2 = fold token_exec ops tm1"
  shows "ExchangePairingToken token q0 q1 q2 now' tm2 = (Inl (Wrapped ''invalid pairing token'' ErrTokenRevoked), tm2) \<and>
    (\<exists>txt sig. token_parts token = Some (TokenTypePairing, txt, sig))"
proof
  obtain p where p: "parseTokenPayload tm token = Inr p" "p_type p = TokenTypePairing" "tm1 = revoke_nonce (Nonce p) now tm"
    using assms(1) by (rule exchange_success)
  have "ValidateToken tm2 token now' = Inl ErrTokenRevoked"
    using revoked_refused [OF p(1), of now tm2] assms(2) p(3) extends_fold by simp
  then show "ExchangePairingToken token q0 q1 q2 now' tm2 = (Inl (Wrapped ''invalid pairing token'' ErrTokenRevoked), tm2)"
    by (simp add: ExchangePairingToken_def exchange_check_def)
  show "\<exists>txt sig. token_parts token = Some (TokenTypePairing, txt, sig)"
    using p(1,2) by (auto simp: parse_by_parts fits_prefix_def token_types)
qed

section \<open>Pairs work\<close>

lemma duration_small [simp]:
  "duration_secs DefaultAccessTokenExpiry = DefaultAccessTokenExpiry * second"
  "duration_secs DefaultRefreshTokenExpiry = DefaultRefreshTokenExpiry * second"
  by (simp_all add: duration_secs_def DefaultAccessTokenExpiry_def DefaultRefreshTokenExpiry_def second_def
      signed_take_bit_int_eq_self)

lemma expiry_later: "unix now \<le> unix (now + DefaultAccessTokenExpiry * second)"
  "unix now \<le> unix (now + DefaultRefreshTokenExpiry * second)"
  by (rule unix_mono, simp add: DefaultAccessTokenExpiry_def DefaultRefreshTokenExpiry_def second_def)+

definition fresh_nonce :: "token_manager \<Rightarrow> string option \<Rightarrow> string \<Rightarrow> bool" where
  "fresh_nonce tm rnd nonce \<longleftrightarrow> generateRandomString 16 rnd = Some nonce \<and> mget (revokedNonces tm) nonce = None"

lemma generate_pair:
  assumes "ascii (serverID tm)" "ascii dev" "dev \<noteq> []" "valid_time now"
    and "fresh_nonce tm rnd1 n1" "fresh_nonce tm rnd2 n2"
  shows "\<exists>pair. GenerateTokenPairWithDeviceID tm dev rnd1 rnd2 now = Inr pair \<and>
    tp_device pair = dev \<and> AccessNonce pair = n1 \<and> RefreshNonce pair = n2 \<and>
    parseTokenPayload tm (AccessToken pair) = Inr (new_payload tm TokenTypeAccess DefaultAccessTokenExpiry dev n1 now) \<and>
    parseTokenPayload tm (RefreshToken pair) = Inr (new_payload tm TokenTypeRefresh DefaultRefreshTokenExpiry dev n2 now)"
proof -
  have n: "generateRandomString 16 rnd1 = Some n1" "generateRandomString 16 rnd2 = Some n2"
    "mget (revokedNonces tm) n1 = None" "mget (revokedNonces tm) n2 = None"
    using assms(5,6) by (simp_all add: fresh_nonce_def)
  obtain a e1 where a: "generateToken tm TokenTypeAccess DefaultAccessTokenExpiry dev rnd1 now = Inr (a, e1)"
    using n(1) by (simp add: generateToken_def)
  obtain r e2 where r: "generateToken tm TokenTypeRefresh DefaultRefreshTokenExpiry dev rnd2 now = Inr (r, e2)"
    using n(2) by (simp add: generateToken_def)
  have pa: "parseTokenPayload tm a = Inr (new_payload tm TokenTypeAccess DefaultAccessTokenExpiry dev n1 now)"
    by (rule parse_generated [OF a _ assms(1,2,4)]) (use n(1) in simp_all)
  have pr: "parseTokenPayload tm r = Inr (new_payload tm TokenTypeRefresh DefaultRefreshTokenExpiry dev n2 now)"
    by (rule parse_generated [OF r _ assms(1,2,4)]) (use n(2) in simp_all)
  have "ValidateToken tm a now = Inr (new_payload tm TokenTypeAccess DefaultAccessTokenExpiry dev n1 now)"
    "ValidateToken tm r now = Inr (new_payload tm TokenTypeRefresh DefaultRefreshTokenExpiry dev n2 now)"
    using pa pr n(3,4) expiry_later [of now] by (simp_all add: ValidateToken_def mem_key_def new_payload_def)
  then show ?thesis
    using a r pa pr assms(3) by (simp add: GenerateTokenPairWithDeviceID_def new_payload_def)
qed

text \<open>
  Refreshing rotates: a valid refresh token yields a new pair for the same device, after which
  the old token is refused for good and the new refresh token is accepted, for the same device, until it
  expires seven days later; every refresh consumes the token it used.
\<close>

theorem refresh_rotates:
  assumes "refresh_check token now tm = Inr p" "ascii (serverID tm)" "ascii (DeviceID p)" "valid_time now"
    and "fresh_nonce tm rnd1 n1" "fresh_nonce tm rnd2 n2" "n2 \<noteq> Nonce p"
  shows "\<exists>pair tm'. RefreshTokenPair token rnd1 rnd2 now tm = (Inr pair, tm') \<and> tp_device pair = DeviceID p \<and>
    (\<forall>ops now'. ValidateToken (fold token_exec ops tm') token now' = Inl ErrTokenRevoked) \<and>
    (\<forall>now'. unix now' \<le> unix (now + 604800 * second) \<longrightarrow>
       (\<exists>p'. refresh_check (RefreshToken pair) now' tm' = Inr p' \<and> DeviceID p' = DeviceID p \<and> Nonce p' = n2))"
proof -
  have v: "ValidateToken tm token now = Inr p" and ty: "p_type p = TokenTypeRefresh" and dev: "DeviceID p \<noteq> []"
    using assms(1) by (auto simp: refresh_check_def split: sum.splits if_splits)
  obtain pair where g: "GenerateTokenPairWithDeviceID tm (DeviceID p) rnd1 rnd2 now = Inr pair" "tp_device pair = DeviceID p"
    and pr: "parseTokenPayload tm (RefreshToken pair) =
      Inr (new_payload tm TokenTypeRefresh DefaultRefreshTokenExpiry (DeviceID p) n2 now)"
    using generate_pair [OF assms(2,3) dev assms(4-6)] by blast
  let ?tm = "revoke_nonce (Nonce p) now tm"
  have parse: "parseTokenPayload tm token = Inr p"
    using v by (auto simp: ValidateToken_def split: sum.splits if_splits)
  have run: "RefreshTokenPair token rnd1 rnd2 now tm = (Inr pair, ?tm)"
    using assms(1) g by (simp add: RefreshTokenPair_def refresh_commit_def)
  have old: "ValidateToken (fold token_exec ops ?tm) token now' = Inl ErrTokenRevoked" for ops now'
    by (rule revoked_refused [OF parse extends_fold])
  have "mget (revokedNonces ?tm) n2 = None"
    using assms(6,7) by (simp add: revoke_nonce_def fresh_nonce_def)
  note fresh = this
  have parse_new: "parseTokenPayload ?tm (RefreshToken pair) =
      Inr (new_payload tm TokenTypeRefresh DefaultRefreshTokenExpiry (DeviceID p) n2 now)"
    using pr parse_same_keys [of tm ?tm] by (simp add: same_keys_def revoke_nonce_def)
  have new: "\<exists>p'. refresh_check (RefreshToken pair) now' ?tm = Inr p' \<and> DeviceID p' = DeviceID p \<and> Nonce p' = n2"
    if "unix now' \<le> unix (now + 604800 * second)" for now'
  proof -
    have "unix now' \<le> unix (now + DefaultRefreshTokenExpiry * second)"
      using that by (simp add: DefaultRefreshTokenExpiry_def)
    then show ?thesis
      using dev fresh parse_new by (simp add: refresh_check_def ValidateToken_def mem_key_def new_payload_def)
  qed
  show ?thesis using run g(2) old new by blast
qed

text \<open>
  Validation and revocation are not one step: when two exchanges of the same pairing token both
  validate it before either revokes it, both succeed and two devices get working pairs from a token
  meant for one.
\<close>

theorem concurrent_exchanges_both_succeed:
  assumes "exchange_check token now tm = Inr p" "ascii (serverID tm)" "valid_time now"
    and "generateRandomString 16 a0 = Some d1" "fresh_nonce tm a1 n1" "fresh_nonce tm a2 n2"
    and "generateRandomString 16 b0 = Some d2" "fresh_nonce tm b1 n3" "fresh_nonce tm b2 n4"
    and "d1 \<noteq> []" "d2 \<noteq> []" "Nonce p \<notin> {n3, n4}"
  shows "\<exists>pair1 tm1 pair2 tm2. exchange_commit p a0 a1 a2 now tm = (Inr pair1, tm1) \<and>
    exchange_commit p b0 b1 b2 now tm1 = (Inr pair2, tm2) \<and> tp_device pair1 = d1 \<and> tp_device pair2 = d2"
proof -
  obtain pair1 where g1: "GenerateTokenPairWithDeviceID tm d1 a1 a2 now = Inr pair1" "tp_device pair1 = d1"
    using generate_pair [OF assms(2) ascii_random [OF assms(4)] assms(10,3,5,6)] by blast
  let ?tm = "revoke_nonce (Nonce p) now tm"
  have "ascii (serverID ?tm)" "fresh_nonce ?tm b1 n3" "fresh_nonce ?tm b2 n4"
    using assms(2,8,9,12) by (auto simp: fresh_nonce_def revoke_nonce_def)
  from generate_pair [OF this(1) ascii_random [OF assms(7)] assms(11,3) this(2,3)]
  obtain pair2 where g2: "GenerateTokenPairWithDeviceID ?tm d2 b1 b2 now = Inr pair2" "tp_device pair2 = d2"
    by blast
  show ?thesis
    using g1 g2 assms(4,7) by (simp add: exchange_commit_def)
qed

subsection \<open>Witnesses\<close>

definition bytes_of :: "char \<Rightarrow> string option" where
  "bytes_of c = Some (replicate 16 c)"

definition nonce_of :: "char \<Rightarrow> string" where
  "nonce_of c = take 16 (b64_encode (replicate 16 c))"

lemma random_of: "generateRandomString 16 (bytes_of c) = Some (nonce_of c)"
  by (simp add: generateRandomString_def bytes_of_def nonce_of_def)

lemma nonce_of_eval: "nonce_of (CHR ''a'') = ''YWFhYWFhYWFhYWFh''" "nonce_of (CHR ''b'') = ''YmJiYmJiYmJiYmJi''"
  "nonce_of (CHR ''c'') = ''Y2NjY2NjY2NjY2Nj''" "nonce_of (CHR ''d'') = ''ZGRkZGRkZGRkZGRk''"
  by code_simp+

definition demo_pairing :: string where
  "demo_pairing = seal demo_manager TokenTypePairing (json_print (payload_json
     (new_payload demo_manager TokenTypePairing 600 [] (nonce_of (CHR ''a'')) hour)))"

lemma demo_times: "ascii (serverID demo_manager)" "valid_time hour" "valid_time (2 * hour)"
  by (simp_all add: demo_manager_def ascii_def valid_time_def hour_def minute_def second_def unix_def)

lemma demo_fresh: "fresh_nonce demo_manager (bytes_of c) (nonce_of c)"
  by (simp add: fresh_nonce_def random_of demo_manager_def)

lemma duration_600: "duration_secs 600 = 600 * second"
  by (simp add: duration_secs_def second_def signed_take_bit_int_eq_self)

lemma demo_check:
  "exchange_check demo_pairing hour demo_manager =
    Inr (new_payload demo_manager TokenTypePairing 600 [] (nonce_of (CHR ''a'')) hour)"
proof -
  have g: "generateToken demo_manager TokenTypePairing 600 [] (bytes_of (CHR ''a'')) hour =
      Inr (demo_pairing, hour + duration_secs 600)"
    by (simp add: generateToken_def random_of demo_pairing_def)
  have "parseTokenPayload demo_manager demo_pairing =
      Inr (new_payload demo_manager TokenTypePairing 600 [] (nonce_of (CHR ''a'')) hour)"
    by (rule parse_generated [OF g _ demo_times(1) _ demo_times(2)]) (simp_all add: random_of)
  moreover have "unix hour \<le> unix (hour + 600 * second)" by (rule unix_mono) (simp add: second_def)
  ultimately show ?thesis
    by (simp add: exchange_check_def ValidateToken_def mem_key_def demo_manager_def new_payload_def duration_600)
qed

lemma concurrent_exchanges_both_succeed_witness:
  "\<exists>pair1 tm1 pair2 tm2.
    exchange_commit (new_payload demo_manager TokenTypePairing 600 [] (nonce_of (CHR ''a'')) hour)
      (bytes_of (CHR ''b'')) (bytes_of (CHR ''b'')) (bytes_of (CHR ''c'')) hour demo_manager = (Inr pair1, tm1) \<and>
    exchange_commit (new_payload demo_manager TokenTypePairing 600 [] (nonce_of (CHR ''a'')) hour)
      (bytes_of (CHR ''c'')) (bytes_of (CHR ''c'')) (bytes_of (CHR ''d'')) hour tm1 = (Inr pair2, tm2) \<and>
    tp_device pair1 = nonce_of (CHR ''b'') \<and> tp_device pair2 = nonce_of (CHR ''c'')"
  by (rule concurrent_exchanges_both_succeed [OF demo_check demo_times(1,2) random_of demo_fresh demo_fresh
        random_of demo_fresh demo_fresh]) (simp_all add: nonce_of_eval new_payload_def)

lemma demo_exchange:
  "\<exists>pair tm1. ExchangePairingToken demo_pairing (bytes_of (CHR ''b'')) (bytes_of (CHR ''b'')) (bytes_of (CHR ''c'')) hour
     demo_manager = (Inr pair, tm1)"
proof -
  have "ascii (nonce_of (CHR ''b''))" using ascii_random [OF random_of] .
  from generate_pair [OF demo_times(1) this _ demo_times(2) demo_fresh demo_fresh, of "CHR ''b''" "CHR ''c''"]
  show ?thesis
    by (auto simp: ExchangePairingToken_def demo_check exchange_commit_def random_of nonce_of_eval)
qed

lemma pairing_token_once_witness:
  "\<exists>pair tm1. ExchangePairingToken demo_pairing (bytes_of (CHR ''b'')) (bytes_of (CHR ''b'')) (bytes_of (CHR ''c'')) hour
      demo_manager = (Inr pair, tm1) \<and>
    (let tm2 = fold token_exec [Op_revoke_nonce ''x'' hour] tm1
     in ExchangePairingToken demo_pairing None None None (2 * hour) tm2 =
          (Inl (Wrapped ''invalid pairing token'' ErrTokenRevoked), tm2)) \<and>
    (\<exists>txt sig. token_parts demo_pairing = Some (TokenTypePairing, txt, sig))"
proof -
  obtain pair tm1 where e: "ExchangePairingToken demo_pairing (bytes_of (CHR ''b'')) (bytes_of (CHR ''b''))
      (bytes_of (CHR ''c'')) hour demo_manager = (Inr pair, tm1)"
    using demo_exchange by blast
  show ?thesis
    using e pairing_token_once [OF e refl, of None None None "2 * hour" "[Op_revoke_nonce ''x'' hour]"]
    by (auto simp: Let_def)
qed

definition demo_refresh :: string where
  "demo_refresh = seal demo_manager TokenTypeRefresh (json_print (payload_json
     (new_payload demo_manager TokenTypeRefresh 604800 ''dev'' (nonce_of (CHR ''a'')) hour)))"

lemma duration_week: "duration_secs 604800 = 604800 * second"
  by (simp add: duration_secs_def second_def signed_take_bit_int_eq_self)

lemma demo_refresh_check:
  "refresh_check demo_refresh (2 * hour) demo_manager =
    Inr (new_payload demo_manager TokenTypeRefresh 604800 ''dev'' (nonce_of (CHR ''a'')) hour)"
proof -
  have g: "generateToken demo_manager TokenTypeRefresh 604800 ''dev'' (bytes_of (CHR ''a'')) hour =
      Inr (demo_refresh, hour + duration_secs 604800)"
    by (simp add: generateToken_def random_of demo_refresh_def)
  have "parseTokenPayload demo_manager demo_refresh =
      Inr (new_payload demo_manager TokenTypeRefresh 604800 ''dev'' (nonce_of (CHR ''a'')) hour)"
    by (rule parse_generated [OF g _ demo_times(1) _ demo_times(2)]) (simp_all add: random_of ascii_def)
  moreover have "unix (2 * hour) \<le> unix (hour + 604800 * second)"
    by (rule unix_mono) (simp add: hour_def minute_def second_def)
  ultimately show ?thesis
    by (simp add: refresh_check_def ValidateToken_def mem_key_def demo_manager_def new_payload_def duration_week)
qed

lemma refresh_rotates_witness:
  "\<exists>pair tm'. RefreshTokenPair demo_refresh (bytes_of (CHR ''b'')) (bytes_of (CHR ''c'')) (2 * hour) demo_manager =
      (Inr pair, tm') \<and> tp_device pair = ''dev'' \<and>
    (\<forall>ops now'. ValidateToken (fold token_exec ops tm') demo_refresh now' = Inl ErrTokenRevoked) \<and>
    (\<forall>now'. unix now' \<le> unix (2 * hour + 604800 * second) \<longrightarrow>
       (\<exists>p'. refresh_check (RefreshToken pair) now' tm' = Inr p' \<and> DeviceID p' = ''dev'' \<and>
         Nonce p' = nonce_of (CHR ''c'')))"
  using refresh_rotates [OF demo_refresh_check demo_times(1) _ demo_times(3) demo_fresh demo_fresh,
      of "CHR ''c''" "CHR ''b''"]
  by (simp add: nonce_of_eval new_payload_def ascii_def)

end
