(* ===== verification/Go_Net.thy ===== *)
theory Go_Net
  imports Go_JSON "HOL-Library.Word"
begin

text \<open>
  The parts of Go's package \<open>net\<close> (and of \<open>net/netip\<close>, on which it is built) that the server uses:
  addresses, their textual forms, host and port, and address blocks. An address is the list of its 4 or 16
  bytes, as in Go.
\<close>

unbundle bit_operations_syntax

type_synonym byte = "8 word"
type_synonym ip = "byte list"

section \<open>Addresses\<close>

definition v4_in_v6 :: ip where
  "v4_in_v6 = replicate 10 0 @ [0xFF, 0xFF]"

definition To4 :: "ip \<Rightarrow> ip option" where
  "To4 a =
     (if length a = 4 then Some a
      else if length a = 16 \<and> take 12 a = v4_in_v6 then Some (drop 12 a)
      else None)"

definition v6_loopback :: ip where
  "v6_loopback = replicate 15 0 @ [1]"

definition IsLoopback :: "ip \<Rightarrow> bool" where
  "IsLoopback a = (case To4 a of Some b \<Rightarrow> b ! 0 = 127 | None \<Rightarrow> a = v6_loopback)"

section \<open>Reading addresses\<close>

definition parse_octet :: "string \<Rightarrow> byte option" where
  "parse_octet p =
     (if p \<noteq> [] \<and> list_all is_digit p \<and> (hd p = CHR ''0'' \<longrightarrow> p = ''0'') \<and> digits_value p \<le> 255
      then Some (of_nat (digits_value p)) else None)"

definition parse_v4 :: "string \<Rightarrow> ip option" where
  "parse_v4 s =
     (let ps = split_on (CHR ''.'') s in if length ps = 4 then those (map parse_octet ps) else None)"

definition hex_chunk :: "string \<Rightarrow> ip" where
  "hex_chunk h =
     (let n = foldl (\<lambda>a c. a * 16 + (case hex_value c of Some d \<Rightarrow> d | None \<Rightarrow> 0)) 0 h
      in [of_nat (n div 256), of_nat n])"

text \<open>
  The loop of \<open>parseIPv6\<close>: \<open>n\<close> groups are left, \<open>acc\<close> holds the bytes read, \<open>ell\<close> where the
  ellipsis was.
\<close>

fun v6_loop :: "nat \<Rightarrow> ip \<Rightarrow> nat option \<Rightarrow> string \<Rightarrow> (ip \<times> nat option) option" where
  "v6_loop 0 acc ell s = (if s = [] then Some (acc, ell) else None)"
| "v6_loop (Suc n) acc ell s =
     (let h = takeWhile (\<lambda>c. hex_value c \<noteq> None) s; acc' = acc @ hex_chunk h
      in if h = [] \<or> 4 < length h then None
         else case drop (length h) s of
           [] \<Rightarrow> Some (acc', ell)
         | c # rest \<Rightarrow>
             if c = CHR ''.'' then
               (if ell = None \<and> length acc \<noteq> 12 \<or> 16 < length acc + 4 then None
                else map_option (\<lambda>b. (acc @ b, ell)) (parse_v4 s))
             else if c \<noteq> CHR '':'' \<or> rest = [] then None
             else if hd rest = CHR '':'' then
               (if ell \<noteq> None then None
                else if tl rest = [] then Some (acc', Some (length acc'))
                else v6_loop n acc' (Some (length acc')) (tl rest))
             else v6_loop n acc' ell rest)"

definition parse_v6 :: "string \<Rightarrow> ip option" where
  "parse_v6 s =
     (let (s', ell) = (if has_prefix ''::'' s then (drop 2 s, Some 0) else (s, None))
      in if ell = Some 0 \<and> s' = [] then Some (replicate 16 0)
         else case v6_loop 8 [] ell s' of
           None \<Rightarrow> None
         | Some (b, e) \<Rightarrow>
             if length b < 16 then
               map_option (\<lambda>k. take k b @ replicate (16 - length b) 0 @ drop k b) e
             else if e = None then Some b else None)"

text \<open>
  \<open>netip.ParseAddr\<close> without zones: the first of dot, colon and percent sign decides. The second component
  is the number of address bits. An address with a zone is refused by both callers.
\<close>

definition parse_addr :: "string \<Rightarrow> (ip \<times> nat) option" where
  "parse_addr s =
     (case dropWhile (\<lambda>c. c \<notin> set ''.:%'') s of
        [] \<Rightarrow> None
      | c # _ \<Rightarrow>
          if CHR ''%'' \<in> set s then None
          else if c = CHR ''.'' then map_option (\<lambda>b. (v4_in_v6 @ b, 32)) (parse_v4 s)
          else map_option (\<lambda>b. (b, 128)) (parse_v6 s))"

definition ParseIP :: "string \<Rightarrow> ip option" where
  "ParseIP s = map_option fst (parse_addr s)"

section \<open>Writing addresses\<close>

definition v4_string :: "ip \<Rightarrow> string" where
  "v4_string b = join ''.'' (map (\<lambda>x. show_nat (unat x)) b)"

fun show_hex :: "nat \<Rightarrow> string" where
  "show_hex n = (if n < 16 then [hex_digit n] else show_hex (n div 16) @ [hex_digit (n mod 16)])"

declare show_hex.simps [simp del]

fun groups :: "ip \<Rightarrow> nat list" where
  "groups (x # y # r) = (unat x * 256 + unat y) # groups r"
| "groups r = []"

text \<open>The longest run of at least two zero groups, the first of them: start and length.\<close>

definition zero_run :: "nat list \<Rightarrow> nat \<times> nat" where
  "zero_run ws =
     fold (\<lambda>i (st, len). let l = length (takeWhile (\<lambda>w. w = 0) (drop i ws))
                         in if 2 \<le> l \<and> len < l then (i, l) else (st, len)) [0..<8] (0, 0)"

definition v6_string :: "ip \<Rightarrow> string" where
  "v6_string b =
     (let ws = groups b; (st, len) = zero_run ws
      in if len = 0 then join '':'' (map show_hex ws)
         else join '':'' (map show_hex (take st ws)) @ ''::'' @ join '':'' (map show_hex (drop (st + len) ws)))"

definition ip_String :: "ip \<Rightarrow> string" where
  "ip_String a = (case To4 a of Some b \<Rightarrow> v4_string b | None \<Rightarrow> v6_string a)"

section \<open>Host and port\<close>

fun last_index :: "char \<Rightarrow> string \<Rightarrow> nat option" where
  "last_index c [] = None"
| "last_index c (d # s) =
     (case last_index c s of Some i \<Rightarrow> Some (Suc i) | None \<Rightarrow> if d = c then Some 0 else None)"

definition SplitHostPort :: "string \<Rightarrow> (string \<times> string) option" where
  "SplitHostPort hp =
     (case last_index (CHR '':'') hp of
        None \<Rightarrow> None
      | Some i \<Rightarrow>
          (let parts = (if hd hp = CHR ''['' then
                 (case index_of '']'' hp of
                    None \<Rightarrow> None
                  | Some e \<Rightarrow> if e + 1 = i then Some (drop 1 (take e hp), 1, e + 1) else None)
               else if CHR '':'' \<in> set (take i hp) then None else Some (take i hp, 0, 0))
           in case parts of
                None \<Rightarrow> None
              | Some (host, j, k) \<Rightarrow>
                  if CHR ''['' \<in> set (drop j hp) \<or> CHR '']'' \<in> set (drop k hp) then None
                  else Some (host, drop (i + 1) hp)))"

section \<open>Address blocks\<close>

record ip_net =
  net_ip :: ip
  net_mask :: ip

fun mask_bytes :: "nat \<Rightarrow> nat \<Rightarrow> ip" where
  "mask_bytes 0 n = []"
| "mask_bytes (Suc l) n =
     (if 8 \<le> n then 0xFF # mask_bytes l (n - 8) else NOT (drop_bit n 0xFF) # mask_bytes l 0)"

definition CIDRMask :: "nat \<Rightarrow> nat \<Rightarrow> ip" where
  "CIDRMask n bits = mask_bytes (bits div 8) n"

definition ip_Mask :: "ip \<Rightarrow> ip \<Rightarrow> ip" where
  "ip_Mask a m =
     (let b = (if length m = 4 \<and> length a = 16 \<and> take 12 a = v4_in_v6 then drop 12 a else a)
      in map2 (AND) b m)"

definition ParseCIDR :: "string \<Rightarrow> ip_net option" where
  "ParseCIDR s =
     (case index_of ''/'' s of
        None \<Rightarrow> None
      | Some i \<Rightarrow>
          (case parse_addr (take i s) of
             None \<Rightarrow> None
           | Some (a, bits) \<Rightarrow>
               (let m = drop (i + 1) s
                in if m \<noteq> [] \<and> list_all is_digit m \<and> digits_value m \<le> bits then
                     Some \<lparr>net_ip = ip_Mask a (CIDRMask (digits_value m) bits), net_mask = CIDRMask (digits_value m) bits\<rparr>
                   else None)))"

definition Contains :: "ip_net \<Rightarrow> ip \<Rightarrow> bool" where
  "Contains n a0 =
     (let nn0 = (case To4 (net_ip n) of Some b \<Rightarrow> b | None \<Rightarrow> net_ip n);
          ok = (length (net_mask n) = 4 \<and> length nn0 = 4 \<or> length (net_mask n) = 16 \<and> length nn0 \<in> {4, 16});
          m = (if length (net_mask n) = 16 \<and> length nn0 = 4 then drop 12 (net_mask n) else net_mask n);
          nn = (if ok then nn0 else []);
          a = (case To4 a0 of Some b \<Rightarrow> b | None \<Rightarrow> a0)
      in length a = length nn \<and> map2 (AND) nn m = map2 (AND) a m)"


section \<open>Textual IPv4 addresses\<close>

lemma unat_byte: "unat (x :: byte) < 256"
  using unsigned_less [where ?'a = nat, of x] by simp

lemma parse_octet_show [simp]: "parse_octet (show_nat (unat (x :: byte))) = Some x"
proof -
  have "hd (show_nat (unat x)) = CHR ''0'' \<longrightarrow> show_nat (unat x) = ''0''"
    using show_nat_hd [of "unat x"] by (cases "unat x = 0") auto
  moreover have "list_all is_digit (show_nat (unat x))"
    by (simp add: list_all_iff show_nat_digits)
  ultimately show ?thesis
    using unat_byte [of x] by (simp add: parse_octet_def show_nat_value)
qed

lemma digit_chars: "is_digit c \<Longrightarrow> c \<noteq> CHR ''.'' \<and> c \<noteq> CHR '':'' \<and> c \<noteq> CHR ''%'' \<and> c \<noteq> CHR ''['' \<and> c \<noteq> CHR '']'' \<and> c \<noteq> CHR ''/''"
  by (auto simp: is_digit_def)

lemma set_join: "set (join sep xs) \<subseteq> set sep \<union> (\<Union>x\<in>set xs. set x)"
  by (induction xs rule: induct_list012) auto

lemma v4_string_chars: "c \<in> set (v4_string b) \<Longrightarrow> is_digit c \<or> c = CHR ''.''"
  using set_join [of "''.''" "map (\<lambda>x. show_nat (unat x)) b"] by (auto simp: v4_string_def dest: show_nat_digits)

lemma parse_v4_string [simp]:
  assumes "length b = 4"
  shows "parse_v4 (v4_string b) = Some b"
proof -
  have "split_on (CHR ''.'') (v4_string b) = map (\<lambda>x. show_nat (unat x)) b"
    unfolding v4_string_def by (rule split_join) (use assms digit_chars show_nat_digits in \<open>auto\<close>)
  moreover have "those (map (parse_octet \<circ> (\<lambda>x. show_nat (unat x))) b) = Some b"
    by (induction b) simp_all
  ultimately show ?thesis using assms by (simp add: parse_v4_def)
qed

lemma To4_mapped [simp]: "length b = 4 \<Longrightarrow> To4 (v4_in_v6 @ b) = Some b" "length b = 4 \<Longrightarrow> To4 b = Some b"
  by (simp_all add: To4_def v4_in_v6_def)

lemma dropWhile_append_hit: "\<forall>x \<in> set xs. P x \<Longrightarrow> \<not> P y \<Longrightarrow> dropWhile P (xs @ y # ys) = y # ys"
  by (induction xs) auto

lemma v4_string_parts:
  assumes "length b = 4"
  obtains x :: byte and r where "v4_string b = show_nat (unat x) @ CHR ''.'' # r" "r \<noteq> []" "is_digit (last r)"
proof -
  obtain p q r s where b: "b = [p, q, r, s]"
    using assms by (auto simp: numeral_eq_Suc length_Suc_conv)
  let ?r = "show_nat (unat q) @ ''.'' @ show_nat (unat r) @ ''.'' @ show_nat (unat s)"
  have "last ?r \<in> set (show_nat (unat s))" by simp
  then have "is_digit (last ?r)" using show_nat_digits by blast
  then show thesis using that [of p ?r] b by (simp add: v4_string_def)
qed

lemma parse_addr_v4 [simp]:
  assumes "length b = 4"
  shows "parse_addr (v4_string b) = Some (v4_in_v6 @ b, 32)"
proof -
  obtain x :: byte and r where s: "v4_string b = show_nat (unat x) @ CHR ''.'' # r" by (rule v4_string_parts [OF assms])
  have "dropWhile (\<lambda>c. c \<notin> set ''.:%'') (v4_string b) = CHR ''.'' # r"
    unfolding s by (rule dropWhile_append_hit) (use digit_chars show_nat_digits in auto)
  moreover have "CHR ''%'' \<notin> set (v4_string b)" using v4_string_chars digit_chars by blast
  ultimately show ?thesis using assms by (simp add: parse_addr_def)
qed

lemma ParseIP_v4 [simp]: "length b = 4 \<Longrightarrow> ParseIP (v4_string b) = Some (v4_in_v6 @ b)"
  by (simp add: ParseIP_def)

lemma ip_String_v4 [simp]: "length b = 4 \<Longrightarrow> ip_String (v4_in_v6 @ b) = v4_string b"
  by (simp add: ip_String_def)

lemma last_index_append: "c \<notin> set t \<Longrightarrow> last_index c (s @ c # t) = Some (length s)"
proof -
  have none: "c \<notin> set t \<Longrightarrow> last_index c t = None" for t by (induction t) (auto split: option.split)
  show "c \<notin> set t \<Longrightarrow> ?thesis" by (induction s) (simp_all add: none)
qed

lemma SplitHostPort_v4:
  assumes "length b = 4" "list_all is_digit port"
  shows "SplitHostPort (v4_string b @ CHR '':'' # port) = Some (v4_string b, port)"
proof -
  have chars: "CHR '':'' \<notin> set (v4_string b)" "CHR '':'' \<notin> set port"
    "CHR ''['' \<notin> set (v4_string b)" "CHR '']'' \<notin> set (v4_string b)" "CHR ''['' \<notin> set port" "CHR '']'' \<notin> set port"
    using assms(2) v4_string_chars digit_chars by (auto simp: list_all_iff)
  have "hd (v4_string b @ CHR '':'' # port) \<noteq> CHR ''[''"
    using chars(3) by (cases "v4_string b") auto
  then show ?thesis
    using chars last_index_append [OF chars(2), of "v4_string b"] by (simp add: SplitHostPort_def)
qed

section \<open>Blocks compare leading bits\<close>

text \<open>Bit \<open>i\<close> of an address, the most significant bit of its first byte first.\<close>

definition bit_at :: "ip \<Rightarrow> nat \<Rightarrow> bool" where
  "bit_at a i = bit (a ! (i div 8)) (7 - i mod 8)"

lemma byte_mask_eq:
  fixes x y :: byte
  shows "x AND (if 8 \<le> n then 0xFF else NOT (drop_bit n 0xFF)) = y AND (if 8 \<le> n then 0xFF else NOT (drop_bit n 0xFF)) \<longleftrightarrow>
    (\<forall>i < 8. i < n \<longrightarrow> bit x (7 - i) = bit y (7 - i))"
proof -
  have ff: "(0xFF :: byte) = mask 8" by (simp add: mask_eq_exp_minus_1)
  have m: "bit (if 8 \<le> n then 0xFF else NOT (drop_bit n (0xFF :: byte))) k \<longleftrightarrow> 7 - k < n" if "k < 8" for k
    using that by (auto simp: ff bit_mask_iff bit_not_iff bit_drop_bit_eq)
  have "x AND (if 8 \<le> n then 0xFF else NOT (drop_bit n 0xFF)) = y AND (if 8 \<le> n then 0xFF else NOT (drop_bit n 0xFF)) \<longleftrightarrow>
      (\<forall>k < 8. 7 - k < n \<longrightarrow> bit x k = bit y k)"
    unfolding bit_eq_iff bit_and_iff using m by (auto dest: bit_imp_le_length)
  also have "\<dots> \<longleftrightarrow> (\<forall>i < 8. i < n \<longrightarrow> bit x (7 - i) = bit y (7 - i))"
  proof (rule iffI; intro allI impI)
    fix i :: nat
    assume a: "\<forall>k < 8. 7 - k < n \<longrightarrow> bit x k = bit y k" and i: "i < 8" "i < n"
    have "7 - i < 8" "7 - (7 - i) < n" using i by auto
    then show "bit x (7 - i) = bit y (7 - i)" using a by blast
  next
    fix k :: nat
    assume a: "\<forall>i < 8. i < n \<longrightarrow> bit x (7 - i) = bit y (7 - i)" and k: "k < 8" "7 - k < n"
    have "7 - k < 8" "7 - (7 - k) = k" using k by auto
    then show "bit x k = bit y k" using a k(2) by force
  qed
  finally show ?thesis .
qed

lemma mask_bytes_Suc: "mask_bytes (Suc l) n = (if 8 \<le> n then 0xFF else NOT (drop_bit n 0xFF)) # mask_bytes l (n - 8)"
  by (cases "8 \<le> n") simp_all

lemma masked_eq:
  assumes "length a = l" "length b = l"
  shows "map2 (AND) a (mask_bytes l n) = map2 (AND) b (mask_bytes l n) \<longleftrightarrow> (\<forall>i < 8 * l. i < n \<longrightarrow> bit_at a i = bit_at b i)"
  using assms
proof (induction l arbitrary: a b n)
  case 0
  then show ?case by simp
next
  case (Suc l)
  obtain x a' y b' where ab: "a = x # a'" "b = y # b'" "length a' = l" "length b' = l"
    using Suc.prems by (auto simp: length_Suc_conv)
  have "map2 (AND) a (mask_bytes (Suc l) n) = map2 (AND) b (mask_bytes (Suc l) n) \<longleftrightarrow>
      (\<forall>i < 8. i < n \<longrightarrow> bit x (7 - i) = bit y (7 - i)) \<and> (\<forall>i < 8 * l. i < n - 8 \<longrightarrow> bit_at a' i = bit_at b' i)"
    unfolding ab(1,2) mask_bytes_Suc zip_Cons_Cons list.map prod.case list.inject byte_mask_eq
    using Suc.IH [OF ab(3,4), of "n - 8"] by simp
  also have "\<dots> \<longleftrightarrow> (\<forall>i < 8 * Suc l. i < n \<longrightarrow> bit_at a i = bit_at b i)"
  proof -
    have low: "bit_at a i = bit x (7 - i)" "bit_at b i = bit y (7 - i)" if "i < 8" for i
      using that by (simp_all add: bit_at_def ab)
    have high: "bit_at a (i + 8) = bit_at a' i" "bit_at b (i + 8) = bit_at b' i" for i
      by (simp_all add: bit_at_def ab div_add_self2)
    show ?thesis
    proof (rule iffI; intro conjI allI impI)
      fix i
      assume h: "(\<forall>i < 8. i < n \<longrightarrow> bit x (7 - i) = bit y (7 - i)) \<and> (\<forall>i < 8 * l. i < n - 8 \<longrightarrow> bit_at a' i = bit_at b' i)"
        and i: "i < 8 * Suc l" "i < n"
      show "bit_at a i = bit_at b i"
      proof (cases "i < 8")
        case True
        then show ?thesis using h i low by blast
      next
        case False
        then have "i - 8 < 8 * l" "i - 8 < n - 8" "i - 8 + 8 = i" using i by auto
        then show ?thesis using h high [of "i - 8"] by metis
      qed
    next
      fix i :: nat
      assume "\<forall>i < 8 * Suc l. i < n \<longrightarrow> bit_at a i = bit_at b i" "i < 8" "i < n"
      then show "bit x (7 - i) = bit y (7 - i)" using low [of i] by simp
    next
      fix i :: nat
      assume h: "\<forall>i < 8 * Suc l. i < n \<longrightarrow> bit_at a i = bit_at b i" and i: "i < 8 * l" "i < n - 8"
      then have "bit_at a (i + 8) = bit_at b (i + 8)" by simp
      then show "bit_at a' i = bit_at b' i" using high by simp
    qed
  qed
  finally show ?case .
qed

end
