(* ===== verification/Client_Address.thy ===== *)
theory Client_Address
  imports Go_Net
begin

text \<open>
  \<open>internal/security/network.go\<close> and the request predicates of \<open>internal/server/http/server.go\<close>: which
  client a request comes from, and whether it counts as local or secure. \<open>RequestBaseURL\<close> and
  \<open>WebSocketURL\<close>, which compose URLs for display, are not modelled.

  A request holds what these functions read. Header names are the canonical ones, and a request carries
  for each name the list of its values. The texts of errors are not kept.
\<close>

record http_request =
  Method :: string
  Path :: string
  RemoteAddr :: string
  Header :: "(string, string list) gomap"
  has_TLS :: bool

definition header_Get :: "http_request \<Rightarrow> string \<Rightarrow> string" where
  "header_Get r name = (case mget (Header r) name of Some (v # _) \<Rightarrow> v | _ \<Rightarrow> [])"

section \<open>Addresses\<close>

definition trim_brackets :: "string \<Rightarrow> string" where
  "trim_brackets s =
     (let p = (\<lambda>c. c \<in> set ''[]'') in rev (dropWhile p (rev (dropWhile p s))))"

definition parseIPFromAddress :: "string \<Rightarrow> ip option" where
  "parseIPFromAddress address =
     (let trimmed = trim_space address
      in if trimmed = [] then None
         else case SplitHostPort trimmed of
           Some (host, _) \<Rightarrow> ParseIP host
         | None \<Rightarrow> ParseIP (trim_brackets trimmed))"

definition firstForwardedValue :: "string \<Rightarrow> string" where
  "firstForwardedValue v = (if v = [] then [] else trim_space (hd (split_on (CHR '','') v)))"

fun ParseTrustedProxies :: "string list \<Rightarrow> (string + ip_net list)" where
  "ParseTrustedProxies [] = Inr []"
| "ParseTrustedProxies (proxy # proxies) =
     (let trimmed = trim_space proxy
      in if trimmed = [] then ParseTrustedProxies proxies
         else case ParseIP trimmed of
           Some a0 \<Rightarrow>
             (let a = (case To4 a0 of Some b \<Rightarrow> b | None \<Rightarrow> a0)
              in map_sum id ((#) \<lparr>net_ip = a, net_mask = CIDRMask (length a * 8) (length a * 8)\<rparr>)
                   (ParseTrustedProxies proxies))
         | None \<Rightarrow>
             (case ParseCIDR trimmed of
                None \<Rightarrow> Inl trimmed
              | Some n \<Rightarrow> map_sum id ((#) n) (ParseTrustedProxies proxies)))"

definition IsTrustedProxy :: "string \<Rightarrow> ip_net list \<Rightarrow> bool" where
  "IsTrustedProxy remoteAddr trusted =
     (if trusted = [] then False
      else case parseIPFromAddress remoteAddr of
        None \<Rightarrow> False
      | Some a \<Rightarrow> list_ex (\<lambda>n. Contains n a) trusted)"

definition RequestClientIP :: "http_request \<Rightarrow> ip_net list \<Rightarrow> string" where
  "RequestClientIP r trustedProxies =
     (let trusted = IsTrustedProxy (RemoteAddr r) trustedProxies;
          from = (\<lambda>v. if v = [] then None else parseIPFromAddress v);
          xff = from (firstForwardedValue (header_Get r ''X-Forwarded-For''));
          xreal = from (trim_space (header_Get r ''X-Real-Ip''));
          fwd = (if trusted then (case xff of Some a \<Rightarrow> Some a | None \<Rightarrow> xreal) else None)
      in case fwd of
           Some a \<Rightarrow> ip_String a
         | None \<Rightarrow> (case parseIPFromAddress (RemoteAddr r) of Some a \<Rightarrow> ip_String a | None \<Rightarrow> []))"

definition isLocalRequest :: "http_request \<Rightarrow> ip_net list \<Rightarrow> bool" where
  "isLocalRequest r trustedProxies =
     (let clientIP = trim_space (RequestClientIP r trustedProxies)
      in if clientIP = [] then False
         else case ParseIP clientIP of None \<Rightarrow> False | Some a \<Rightarrow> IsLoopback a)"

text \<open>Folding ASCII letters: no other rune has a lower-case form in the words compared with.\<close>

definition to_lower :: "string \<Rightarrow> string" where
  "to_lower = map (\<lambda>c. if 65 \<le> code_of c \<and> code_of c \<le> 90 then char_of (code_of c + 32) else c)"

definition isSecureRequest :: "http_request \<Rightarrow> ip_net list \<Rightarrow> bool" where
  "isSecureRequest r trustedProxies =
     (if has_TLS r then True
      else if \<not> IsTrustedProxy (RemoteAddr r) trustedProxies then False
      else (let p = to_lower (trim_space (header_Get r ''X-Forwarded-Proto''));
                forwardedProto = (if p = [] then to_lower (trim_space (header_Get r ''X-Forwarded-Scheme'')) else p)
            in forwardedProto = ''https'' \<or> forwardedProto = ''wss''))"

section \<open>Peers and forwarded clients\<close>

lemma space_heads: "q \<in> set space_seqs \<Longrightarrow> q \<noteq> [] \<and> (code_of (hd q) \<le> 32 \<or> 128 \<le> code_of (hd q)) \<and> (code_of (last q) \<le> 32 \<or> 128 \<le> code_of (last q))"
  by (auto simp: space_seqs_def)

lemma trim_space_id:
  assumes "s \<noteq> []" "32 < code_of (hd s)" "code_of (hd s) < 128" "32 < code_of (last s)" "code_of (last s) < 128"
  shows "trim_space s = s"
proof -
  have "\<not> has_prefix q s" "\<not> has_suffix q s" if "q \<in> set space_seqs" for q
    using space_heads [OF that] assms
    by (auto simp: has_prefix_iff has_suffix_iff hd_append last_append split: if_splits)
  then have "find (\<lambda>q. has_prefix q s) space_seqs = None" "find (\<lambda>q. has_suffix q s) space_seqs = None"
    by (simp_all add: find_None_iff)
  then have "space_len s = 0" "space_tail s = 0"
    by (simp_all add: space_len_def space_tail_def)
  then show ?thesis
    using assms(1) by (cases s) (simp_all add: trim_space_def trim_right_space.simps)
qed

lemma digit_code: "is_digit c \<Longrightarrow> 32 < code_of c \<and> code_of c < 128"
  by (auto simp: is_digit_def Let_def)

lemma v4_string_ends:
  assumes "length b = 4"
  shows "v4_string b \<noteq> []" "is_digit (hd (v4_string b))" "is_digit (last (v4_string b))"
proof -
  obtain x :: byte and r where s: "v4_string b = show_nat (unat x) @ CHR ''.'' # r" "r \<noteq> []" "is_digit (last r)"
    by (rule v4_string_parts [OF assms])
  then show "v4_string b \<noteq> []" "is_digit (last (v4_string b))" by simp_all
  have "hd (show_nat (unat x)) \<in> set (show_nat (unat x))" by simp
  then show "is_digit (hd (v4_string b))" using s(1) show_nat_digits by (metis hd_append2 show_nat_nonempty)
qed

lemma trim_v4 [simp]: "length b = 4 \<Longrightarrow> trim_space (v4_string b) = v4_string b"
  using v4_string_ends digit_code by (intro trim_space_id) blast+

text \<open>How a listener writes the address of an IPv4 peer.\<close>

definition v4_peer :: "ip \<Rightarrow> string \<Rightarrow> string" where
  "v4_peer b port = v4_string b @ CHR '':'' # port"

lemma parse_peer:
  assumes "length b = 4" "list_all is_digit port" "port \<noteq> []"
  shows "parseIPFromAddress (v4_peer b port) = Some (v4_in_v6 @ b)"
proof -
  have "is_digit (last (v4_peer b port))" using assms(2,3) by (simp add: v4_peer_def list_all_iff)
  moreover have "is_digit (hd (v4_peer b port))" using v4_string_ends [OF assms(1)] by (simp add: v4_peer_def)
  ultimately have "trim_space (v4_peer b port) = v4_peer b port"
    by (intro trim_space_id) (auto simp: v4_peer_def dest: digit_code)
  then show ?thesis
    using SplitHostPort_v4 [OF assms(1,2)] assms(1) by (simp add: parseIPFromAddress_def v4_peer_def)
qed

lemma parse_bare:
  assumes "length b = 4"
  shows "parseIPFromAddress (v4_string b) = Some (v4_in_v6 @ b)"
proof -
  have "CHR '':'' \<notin> set (v4_string b)" using v4_string_chars digit_chars by blast
  then have "last_index (CHR '':'') (v4_string b) = None"
  proof -
    show "c \<notin> set t \<Longrightarrow> last_index c t = None" for c t by (induction t) (auto split: option.split)
  qed
  then have split: "SplitHostPort (v4_string b) = None" by (simp add: SplitHostPort_def)
  have ends: "hd (v4_string b) \<notin> set ''[]''" "last (v4_string b) \<notin> set ''[]''"
    using v4_string_ends [OF assms] digit_chars by auto
  then have "dropWhile (\<lambda>c. c \<in> set ''[]'') (v4_string b) = v4_string b"
    "dropWhile (\<lambda>c. c \<in> set ''[]'') (rev (v4_string b)) = rev (v4_string b)"
    unfolding dropWhile_eq_self_iff by (simp_all add: hd_rev)
  then have "trim_brackets (v4_string b) = v4_string b"
    by (simp add: trim_brackets_def Let_def)
  then show ?thesis
    using split v4_string_ends(1) [OF assms] assms by (simp add: parseIPFromAddress_def)
qed

lemma local_v4:
  assumes "RequestClientIP r trusted = v4_string b" "length b = 4"
  shows "isLocalRequest r trusted \<longleftrightarrow> b ! 0 = 127"
  using assms v4_string_ends(1) [OF assms(2)] by (simp add: isLocalRequest_def IsLoopback_def)


text \<open>
  A peer that is not a trusted proxy is who it is: the client address is the address of the connection, and
  the request is local exactly when that address is in 127.0.0.0/8, whatever forwarding headers it sends.
\<close>

theorem peer_address_decides:
  assumes "length b = 4" "list_all is_digit port" "port \<noteq> []" "RemoteAddr r = v4_peer b port"
    and "\<not> IsTrustedProxy (RemoteAddr r) trusted"
  shows "RequestClientIP r trusted = v4_string b \<and> (isLocalRequest r trusted \<longleftrightarrow> b ! 0 = 127)"
proof -
  have "RequestClientIP r trusted = v4_string b"
    using assms parse_peer [OF assms(1-3)] by (simp add: RequestClientIP_def)
  then show ?thesis using local_v4 assms(1) by blast
qed

lemma firstForwardedValue_v4:
  assumes "length c = 4" "rest = [] \<or> hd rest = CHR '',''"
  shows "firstForwardedValue (v4_string c @ rest) = v4_string c"
proof -
  have no: "CHR '','' \<notin> set (v4_string c)"
    using v4_string_chars [of "CHR '',''" c] by (auto simp: is_digit_def)
  have "hd (split_on (CHR '','') (v4_string c @ rest)) = v4_string c"
    using assms(2) no by (cases rest) (simp_all add: split_on_def split_go_no_sep split_go_end)
  then show ?thesis
    using v4_string_ends(1) [OF assms(1)] assms(1) by (simp add: firstForwardedValue_def)
qed

text \<open>
  Behind a trusted proxy the client address is the first value of \<open>X-Forwarded-For\<close>, the one the client
  itself sent when the proxy appends to the header: a remote client whose request starts that list with a
  loopback address counts as local.
\<close>

theorem forwarded_address_decides:
  assumes "length c = 4" "rest = [] \<or> hd rest = CHR '',''" "header_Get r ''X-Forwarded-For'' = v4_string c @ rest"
    and "IsTrustedProxy (RemoteAddr r) trusted"
  shows "RequestClientIP r trusted = v4_string c \<and> (isLocalRequest r trusted \<longleftrightarrow> c ! 0 = 127)"
proof -
  have "RequestClientIP r trusted = v4_string c"
    using assms(4) firstForwardedValue_v4 [OF assms(1,2)] parse_bare [OF assms(1)] v4_string_ends(1) [OF assms(1)] assms(1,3)
    by (simp add: RequestClientIP_def)
  then show ?thesis using local_v4 assms(1) by blast
qed

section \<open>Trusted blocks\<close>

lemma bound_mask: "length (mask_bytes l n) = l"
  by (induction l n rule: mask_bytes.induct) simp_all

lemma mask_mapped: "mask_bytes 16 (96 + n) = replicate 12 0xFF @ mask_bytes 4 n"
  by (simp add: numeral_eq_Suc)

lemma bit_at_masked:
  assumes "length a = l" "i < 8 * l" "i < n"
  shows "bit_at (map2 (AND) a (mask_bytes l n)) i = bit_at a i"
proof -
  have "map2 (AND) (map2 (AND) a (mask_bytes l n)) (mask_bytes l n) = map2 (AND) a (mask_bytes l n)"
    by (rule nth_equalityI) simp_all
  then show ?thesis
    using masked_eq [of "map2 (AND) a (mask_bytes l n)" l a n] assms bound_mask by simp
qed

lemma contains_block:
  assumes "length net = 4" "length b = 4" "k \<le> 32"
    and "n = \<lparr>net_ip = map2 (AND) net (mask_bytes 4 k), net_mask = mask_bytes 4 k\<rparr>"
  shows "Contains n (v4_in_v6 @ b) \<longleftrightarrow> (\<forall>i < k. bit_at b i = bit_at net i)"
proof -
  have "Contains n (v4_in_v6 @ b) \<longleftrightarrow>
      map2 (AND) (map2 (AND) net (mask_bytes 4 k)) (mask_bytes 4 k) = map2 (AND) b (mask_bytes 4 k)"
    using assms(1,2) by (simp add: Contains_def Let_def assms(4) bound_mask)
  also have "\<dots> \<longleftrightarrow> (\<forall>i < 8 * 4. i < k \<longrightarrow> bit_at (map2 (AND) net (mask_bytes 4 k)) i = bit_at b i)"
    by (rule masked_eq) (simp_all add: assms bound_mask)
  also have "\<dots> \<longleftrightarrow> (\<forall>i < k. bit_at b i = bit_at net i)"
    using assms(1,3) bit_at_masked [of net 4 _ k] by auto
  finally show ?thesis .
qed

lemma index_of_char: "c \<notin> set s \<Longrightarrow> index_of [c] (s @ c # t) = Some (length s)"
  by (induction s) auto

lemma parse_octet_slash: "CHR ''/'' \<in> set p \<Longrightarrow> parse_octet p = None"
proof -
  assume "CHR ''/'' \<in> set p"
  moreover have "\<not> is_digit (CHR ''/'')" by (simp add: is_digit_def)
  ultimately have "\<not> list_all is_digit p" unfolding list_all_iff by blast
  then show ?thesis by (simp add: parse_octet_def)
qed

lemma those_None: "None \<in> set xs \<Longrightarrow> those xs = None"
  by (induction xs) (auto split: option.split)

lemma not_v4_slash: "CHR ''/'' \<in> set s \<Longrightarrow> parse_v4 s = None"
proof -
  assume "CHR ''/'' \<in> set s"
  then have "CHR ''/'' \<in> set (join ''.'' (split_on (CHR ''.'') s))" by (simp add: join_split)
  then obtain p where "p \<in> set (split_on (CHR ''.'') s)" "CHR ''/'' \<in> set p"
    using set_join [of "''.''" "split_on (CHR ''.'') s"] by auto
  then have "None \<in> set (map parse_octet (split_on (CHR ''.'') s))" using parse_octet_slash by force
  from those_None [OF this] show ?thesis by (simp add: parse_v4_def Let_def)
qed

text \<open>
  An IPv4 block of the configuration trusts exactly the peers whose address agrees with it on the leading
  bits the block's length says.
\<close>

theorem trusted_block:
  assumes "length net = 4" "k \<le> 32" "length b = 4" "list_all is_digit port" "port \<noteq> []"
  shows "\<exists>n. ParseTrustedProxies [v4_string net @ CHR ''/'' # show_nat k] = Inr [n] \<and>
    (IsTrustedProxy (v4_peer b port) [n] \<longleftrightarrow> (\<forall>i < k. bit_at b i = bit_at net i))"
proof -
  let ?s = "v4_string net @ CHR ''/'' # show_nat k"
  let ?n = "\<lparr>net_ip = map2 (AND) net (mask_bytes 4 k), net_mask = mask_bytes 4 k\<rparr>"
  obtain x :: byte and r where s: "v4_string net = show_nat (unat x) @ CHR ''.'' # r"
    by (rule v4_string_parts [OF assms(1)])
  have last: "is_digit (last ?s)" using show_nat_digits [of "last (show_nat k)" k] by simp
  have "is_digit (hd ?s)" using v4_string_ends [OF assms(1)] by simp
  then have trim: "trim_space ?s = ?s"
    using last digit_code by (intro trim_space_id) auto
  have "dropWhile (\<lambda>c. c \<notin> set ''.:%'') ?s = CHR ''.'' # r @ CHR ''/'' # show_nat k"
    using dropWhile_append_hit [of "show_nat (unat x)" "\<lambda>c. c \<notin> set ''.:%''" "CHR ''.''"] digit_chars show_nat_digits
    unfolding s by auto
  then have noip: "ParseIP ?s = None" by (simp add: ParseIP_def parse_addr_def not_v4_slash)
  have "CHR ''/'' \<notin> set (v4_string net)" using v4_string_chars digit_chars by blast
  then have cidr: "ParseCIDR ?s = Some ?n"
    using assms(1,2) show_nat_digits [of _ k] index_of_char [of "CHR ''/''" "v4_string net" "show_nat k"]
    by (simp add: ParseCIDR_def show_nat_value list_all_iff ip_Mask_def CIDRMask_def bound_mask v4_in_v6_def)
  have "ParseTrustedProxies [?s] = Inr [?n]" using trim noip cidr by simp
  moreover have "IsTrustedProxy (v4_peer b port) [?n] \<longleftrightarrow> (\<forall>i < k. bit_at b i = bit_at net i)"
    using parse_peer [OF assms(3,4,5)] contains_block [OF assms(1,3,2) refl] by (simp add: IsTrustedProxy_def)
  ultimately show ?thesis by blast
qed

definition demo_proxy :: ip_net where
  "demo_proxy = \<lparr>net_ip = [10, 0, 0, 0], net_mask = [255, 0, 0, 0]\<rparr>"

definition demo_get :: "ip \<Rightarrow> http_request" where
  "demo_get b = \<lparr>Method = ''GET'', Path = ''/'', RemoteAddr = v4_peer b ''80'',
     Header = [(''X-Forwarded-For'', [v4_string [127, 0, 0, 1] @ '', 192.0.2.7''])], has_TLS = False\<rparr>"

lemma and_mask_ff: "a AND 0xFF = (a :: byte)"
proof -
  have "(0xFF :: byte) = mask 8" by (simp add: mask_eq_exp_minus_1)
  also have "\<dots> = NOT 0" by (rule bit_eqI) (simp add: bit_mask_iff)
  finally have "a AND 0xFF = a AND NOT 0" by (rule arg_cong)
  also have "a AND NOT 0 = a" by simp
  finally show ?thesis .
qed

lemma demo_trusted: "IsTrustedProxy (v4_peer b ''80'') [demo_proxy] \<longleftrightarrow> b ! 0 = 10" if "length b = 4"
proof -
  have "list_all is_digit ''80''" by (simp add: is_digit_def)
  from parse_peer [OF that this] show ?thesis
    using that and_mask_ff by (auto simp: IsTrustedProxy_def demo_proxy_def Contains_def numeral_eq_Suc length_Suc_conv)
qed

lemma demo_port: "list_all is_digit ''80''" "''80'' \<noteq> []"
  by (simp_all add: is_digit_def)

lemma peer_address_decides_witness:
  "RequestClientIP (demo_get [127, 0, 0, 9]) [demo_proxy] = v4_string [127, 0, 0, 9] \<and>
    (isLocalRequest (demo_get [127, 0, 0, 9]) [demo_proxy] \<longleftrightarrow> [127, 0, 0, 9 :: byte] ! 0 = 127)"
  by (rule peer_address_decides [OF _ demo_port]) (simp_all add: demo_get_def demo_trusted)

lemma forwarded_address_decides_witness:
  "RequestClientIP (demo_get [10, 1, 1, 1]) [demo_proxy] = v4_string [127, 0, 0, 1] \<and>
    (isLocalRequest (demo_get [10, 1, 1, 1]) [demo_proxy] \<longleftrightarrow> [127, 0, 0, 1 :: byte] ! 0 = 127)"
  by (rule forwarded_address_decides [where rest = "'', 192.0.2.7''"]) (simp_all add: demo_get_def demo_trusted header_Get_def)

lemma trusted_block_witness:
  "\<exists>n. ParseTrustedProxies [v4_string [10, 0, 0, 0] @ CHR ''/'' # show_nat 13] = Inr [n] \<and>
    (IsTrustedProxy (v4_peer [10, 7, 0, 1] ''80'') [n] \<longleftrightarrow>
      (\<forall>i < 13. bit_at [10, 7, 0, 1] i = bit_at [10, 0, 0, 0] i))"
  by (rule trusted_block [OF _ _ _ demo_port]) simp_all

end
