(* ===== verification/Http_Common.thy ===== *)
theory Http_Common
  imports Token Client_Address
begin

text \<open>
  What the HTTP handlers share: responses and request bodies. The body of a response is its text or the
  JSON value it is the text of; the body of a request is its text, of which the decoder reads the first
  JSON value.
\<close>

section \<open>Responses\<close>

datatype body = Plain string | Json json

record http_response =
  Code :: nat
  Body :: body

definition http_Error :: "string \<Rightarrow> nat \<Rightarrow> http_response" where
  "http_Error msg code = \<lparr>Code = code, Body = Plain (msg @ [CHR 0x0A])\<rparr>"

definition writeJSON :: "nat \<Rightarrow> json \<Rightarrow> http_response" where
  "writeJSON status data = \<lparr>Code = status, Body = Json data\<rparr>"

definition writeJSONError :: "string \<Rightarrow> nat \<Rightarrow> http_response" where
  "writeJSONError msg status = writeJSON status (JObj (f_str ''error'' msg))"

section \<open>Request bodies\<close>

text \<open>
  \<open>json.NewDecoder(r.Body).Decode(&body)\<close> into a struct; \<open>Inl True\<close> is the error of an empty body
  (\<open>io.EOF\<close>), \<open>Inl False\<close> any other. A struct is decoded member by member.
\<close>

definition decode_first ::
  "(members \<Rightarrow> 'a \<times> string option \<Rightarrow> 'a \<times> string option) \<Rightarrow> 'a \<Rightarrow> string \<Rightarrow> bool + 'a" where
  "decode_first dec zero text =
     (if skip_ws text = [] then Inl True
      else case parse_value (Suc (2 * length text)) text of
        None \<Rightarrow> Inl False
      | Some (j, _) \<Rightarrow> (case unmarshal_struct quiet dec zero j of Inl _ \<Rightarrow> Inl False | Inr x \<Rightarrow> Inr x))"

fun decode_members ::
  "(string \<Rightarrow> json \<Rightarrow> 'a \<times> string option \<Rightarrow> 'a \<times> string option) \<Rightarrow> members \<Rightarrow> 'a \<times> string option \<Rightarrow> 'a \<times> string option"
where
  "decode_members step [] st = st"
| "decode_members step ((k, v) # kvs) st = decode_members step kvs (step (fold_key k) v st)"

definition decode_bool :: "json \<Rightarrow> bool \<Rightarrow> string option \<Rightarrow> bool \<times> string option" where
  "decode_bool j old e =
     (case j of JBool b \<Rightarrow> (b, e) | JNull \<Rightarrow> (old, e) | _ \<Rightarrow> (old, note_error (type_text quiet [] j) e))"

text \<open>A pointer to an integer: null clears it.\<close>

definition decode_int_ptr :: "json \<Rightarrow> int option \<Rightarrow> string option \<Rightarrow> int option \<times> string option" where
  "decode_int_ptr j old e =
     (if j = JNull then (None, e)
      else (let (n, e') = decode_int quiet [] j (case old of None \<Rightarrow> 0 | Some n \<Rightarrow> n) e in (Some n, e')))"

text \<open>A slice: null clears it, an array decodes into the elements there are and then into fresh ones.\<close>

fun decode_elems ::
  "(json \<Rightarrow> 'a \<Rightarrow> string option \<Rightarrow> 'a \<times> string option) \<Rightarrow> 'a \<Rightarrow> json list \<Rightarrow> 'a list \<Rightarrow> string option \<Rightarrow> 'a list \<times> string option"
where
  "decode_elems dec zero [] olds e = ([], e)"
| "decode_elems dec zero (j # js) olds e =
     (let (x, e1) = dec j (case olds of [] \<Rightarrow> zero | a # _ \<Rightarrow> a) e;
          (xs, e2) = decode_elems dec zero js (tl olds) e1
      in (x # xs, e2))"

definition decode_slice ::
  "(json \<Rightarrow> 'a \<Rightarrow> string option \<Rightarrow> 'a \<times> string option) \<Rightarrow> 'a \<Rightarrow> json \<Rightarrow> 'a slice \<Rightarrow> string option \<Rightarrow> 'a slice \<times> string option"
where
  "decode_slice dec zero j old e =
     (case j of
        JNull \<Rightarrow> (None, e)
      | JArr js \<Rightarrow>
          (let (xs, e') = decode_elems dec zero js (case old of None \<Rightarrow> [] | Some ys \<Rightarrow> ys) e in (Some xs, e'))
      | _ \<Rightarrow> (old, note_error (type_text quiet [] j) e))"

definition decode_strings :: "json \<Rightarrow> string slice \<Rightarrow> string option \<Rightarrow> string slice \<times> string option" where
  "decode_strings = decode_slice (decode_string quiet []) []"

text \<open>A struct inside a struct, and a pointer to one.\<close>

definition decode_struct ::
  "(string \<Rightarrow> json \<Rightarrow> 'a \<times> string option \<Rightarrow> 'a \<times> string option) \<Rightarrow> json \<Rightarrow> 'a \<Rightarrow> string option \<Rightarrow> 'a \<times> string option"
where
  "decode_struct step j old e =
     (case j of
        JNull \<Rightarrow> (old, e)
      | JObj kvs \<Rightarrow> decode_members step kvs (old, e)
      | _ \<Rightarrow> (old, note_error (type_text quiet [] j) e))"

definition decode_struct_ptr ::
  "(string \<Rightarrow> json \<Rightarrow> 'a \<times> string option \<Rightarrow> 'a \<times> string option) \<Rightarrow> 'a \<Rightarrow> json \<Rightarrow> 'a option \<Rightarrow> string option \<Rightarrow>
     'a option \<times> string option" where
  "decode_struct_ptr step zero j old e =
     (if j = JNull then (None, e)
      else (let (x, e') = decode_struct step j (case old of None \<Rightarrow> zero | Some a \<Rightarrow> a) e in (Some x, e')))"

text \<open>A request body with one string field, as the four request types are.\<close>

fun decode_field :: "json_env \<Rightarrow> string \<Rightarrow> (string \<times> json) list \<Rightarrow> string \<times> string option \<Rightarrow> string \<times> string option" where
  "decode_field env name [] st = st"
| "decode_field env name ((k, v) # kvs) (x, e) =
     decode_field env name kvs (if fold_key k = name then decode_string env k v x e else (x, e))"

definition decode_body :: "string \<Rightarrow> string \<Rightarrow> string option" where
  "decode_body name text =
     (case parse_value (Suc (2 * length text)) text of
        None \<Rightarrow> None
      | Some (j, _) \<Rightarrow>
          (case unmarshal_struct quiet (decode_field quiet name) [] j of Inl _ \<Rightarrow> None | Inr x \<Rightarrow> Some x))"

text \<open>
  \<open>fmt.Sscanf(s, "%d", &n)\<close>: white space without a newline, a sign, digits; what follows is left unread, and
  anything else leaves \<open>n\<close> alone.
\<close>

definition sscan_int :: "string \<Rightarrow> int option" where
  "sscan_int s =
     (let r = trim_left_space s; blanks = take (length s - length r) s;
          neg = has_prefix ''-'' r; d = (if neg \<or> has_prefix ''+'' r then tl r else r);
          digits = takeWhile is_digit d;
          n = (if neg then - int (digits_value digits) else int (digits_value digits))
      in if CHR 0x0A \<in> set blanks \<or> digits = [] then None
         else if - (2 ^ 63) \<le> n \<and> n < 2 ^ 63 then Some n else None)"

end
