(* ===== verification/Auth_Handler.thy ===== *)
theory Auth_Handler
  imports Auth_Registry Pairing_Approval Http_Common
begin

text \<open>
  \<open>internal/server/http/auth.go\<close> and the authentication middleware of \<open>internal/server/http/server.go\<close>:
  the endpoints through which a device gets, renews and gives up its tokens, over the token manager, the
  registry and the pairing approvals.

  What the handlers read besides the request is the record \<open>auth_env\<close>: the successive readings of the
  clock, the successive random draws, whether the registry can be saved, the order in which its map is
  visited and the offset of the local time zone. A missing registry or approval manager (a nil pointer) is
  \<open>None\<close>. The body of a request is its text, of which the decoder reads the first JSON value. The
  calls of the \<open>onOrphaned\<close> callback are recorded in the world.
\<close>

section \<open>The handler\<close>

record auth_env =
  clock :: "nat \<Rightarrow> time"
  draws :: "nat \<Rightarrow> string option"
  save_ok :: bool
  visit :: "string list"
  zone :: int

record auth_handler =
  has_onOrphaned :: bool
  trustedProxies :: "ip_net list"

record auth_world =
  tokenManager :: token_manager
  registry :: "auth_registry option"
  pairingApproval :: "approvals option"
  orphan_calls :: "(string list \<times> string) list"

definition seconds_of :: "time \<Rightarrow> int" where
  "seconds_of d = (if 0 \<le> d then d div second else - ((- d) div second))"

definition TokenPairResponse :: "auth_env \<Rightarrow> time \<Rightarrow> token_pair \<Rightarrow> json" where
  "TokenPairResponse e now pair =
     JObj (f_str ''access_token'' (AccessToken pair) @
           f_str ''access_token_expires_at'' (rfc3339 False (zone e) (AccessTokenExpiry pair)) @
           f_str ''refresh_token'' (RefreshToken pair) @
           f_str ''refresh_token_expires_at'' (rfc3339 False (zone e) (RefreshTokenExpiry pair)) @
           f_str ''token_type'' ''Bearer'' @
           f_int ''expires_in'' (seconds_of (AccessTokenExpiry pair - now)))"

definition PairingExchangePendingResponse :: "pairing_request \<Rightarrow> json" where
  "PairingExchangePendingResponse p =
     JObj (f_str ''status'' ''pending_approval'' @ f_str ''request_id'' (pairing_request.RequestID p) @
           f_str ''expires_at'' (rfc3339 False 0 (pairing_request.ExpiresAt p)))"

definition register_pair :: "auth_env \<Rightarrow> time \<Rightarrow> token_pair \<Rightarrow> auth_world \<Rightarrow> auth_world" where
  "register_pair e now pair w =
     w\<lparr>registry := map_option
         (\<lambda>r. snd (RegisterDevice (save_ok e) now (tp_device pair) (RefreshNonce pair) (RefreshTokenExpiry pair)
                 (AccessNonce pair) (AccessTokenExpiry pair) r)) (registry w)\<rparr>"

text \<open>The part of \<open>HandleExchange\<close> from the call of \<open>ExchangePairingToken\<close> on.\<close>

definition exchange_tail :: "auth_env \<Rightarrow> string \<Rightarrow> token_payload option \<Rightarrow> auth_world \<Rightarrow> http_response \<times> auth_world" where
  "exchange_tail e token payload w =
     (case ExchangePairingToken token (draws e 1) (draws e 2) (draws e 3) (clock e 3) (tokenManager w) of
        (Inl _, tm) \<Rightarrow> (writeJSONError ''Invalid or expired pairing token'' 401, w\<lparr>tokenManager := tm\<rparr>)
      | (Inr pair, tm) \<Rightarrow>
          (let w1 = w\<lparr>tokenManager := tm\<rparr>;
               w2 = (case payload of
                       None \<Rightarrow> w1
                     | Some p \<Rightarrow> w1\<lparr>pairingApproval := map_option (ClearTokenDecision (Nonce p)) (pairingApproval w1)\<rparr>);
               w3 = register_pair e (clock e 4) pair w2
           in (writeJSON 200 (TokenPairResponse e (clock e 5) pair), w3)))"

definition HandleExchange :: "auth_env \<Rightarrow> http_request \<Rightarrow> string \<Rightarrow> auth_world \<Rightarrow> http_response \<times> auth_world" where
  "HandleExchange e r text w =
     (if Method r \<noteq> ''POST'' then (http_Error ''Method not allowed'' 405, w)
      else case decode_body ''pairing_token'' text of
        None \<Rightarrow> (writeJSONError ''Invalid request body'' 400, w)
      | Some token \<Rightarrow>
          if token = [] then (writeJSONError ''pairing_token is required'' 400, w)
          else (case pairingApproval w of
            None \<Rightarrow> exchange_tail e token None w
          | Some m \<Rightarrow>
              (case ValidateToken (tokenManager w) token (clock e 0) of
                 Inl _ \<Rightarrow> (writeJSONError ''Invalid or expired pairing token'' 401, w)
               | Inr p \<Rightarrow>
                   if p_type p \<noteq> TokenTypePairing then (writeJSONError ''Invalid or expired pairing token'' 401, w)
                   else (case Status (clock e 1) (Nonce p) m of
                       (StatusApproved, m1) \<Rightarrow> exchange_tail e token (Some p) (w\<lparr>pairingApproval := Some m1\<rparr>)
                     | (StatusRejected, m1) \<Rightarrow>
                         (writeJSONError ''Pairing request rejected'' 403, w\<lparr>pairingApproval := Some m1\<rparr>)
                     | (_, m1) \<Rightarrow>
                         (case EnsurePending (draws e 0) (clock e 2) (Nonce p) (RemoteAddr r)
                                 (header_Get r ''User-Agent'') (token_payload.ExpiresAt p * second) m1 of
                            (Inl _, m2) \<Rightarrow>
                              (writeJSONError ''Failed to create pairing approval request'' 500, w\<lparr>pairingApproval := Some m2\<rparr>)
                          | (Inr pending, m2) \<Rightarrow>
                              (writeJSON 202 (PairingExchangePendingResponse pending), w\<lparr>pairingApproval := Some m2\<rparr>))))))"

definition HandleRefresh :: "auth_env \<Rightarrow> http_request \<Rightarrow> string \<Rightarrow> auth_world \<Rightarrow> http_response \<times> auth_world" where
  "HandleRefresh e r text w =
     (if Method r \<noteq> ''POST'' then (http_Error ''Method not allowed'' 405, w)
      else case decode_body ''refresh_token'' text of
        None \<Rightarrow> (writeJSONError ''Invalid request body'' 400, w)
      | Some token \<Rightarrow>
          if token = [] then (writeJSONError ''refresh_token is required'' 400, w)
          else (let refused = (case registry w of
                    None \<Rightarrow> False
                  | Some reg \<Rightarrow>
                      (case ValidateToken (tokenManager w) token (clock e 0) of
                         Inl _ \<Rightarrow> True
                       | Inr old \<Rightarrow> \<not> IsRefreshNonceValid (DeviceID old) (Nonce old) reg))
                in if refused then (writeJSONError ''Invalid or expired refresh token'' 401, w)
                   else (case RefreshTokenPair token (draws e 1) (draws e 2) (clock e 1) (tokenManager w) of
                       (Inl _, tm) \<Rightarrow> (writeJSONError ''Invalid or expired refresh token'' 401, w\<lparr>tokenManager := tm\<rparr>)
                     | (Inr pair, tm) \<Rightarrow>
                         (writeJSON 200 (TokenPairResponse e (clock e 3) pair),
                          register_pair e (clock e 2) pair (w\<lparr>tokenManager := tm\<rparr>)))))"

text \<open>What revoking does for a device the registry may know: its access token, its entry and its bindings.\<close>

definition revoke_device :: "auth_env \<Rightarrow> auth_handler \<Rightarrow> string \<Rightarrow> auth_registry \<Rightarrow> auth_world \<Rightarrow> string list \<times> auth_world" where
  "revoke_device e h dev reg w =
     (let tm = (case GetDevice dev reg of
                  Some session \<Rightarrow> RevokeTokenByNonce (ds_access session) (clock e 2) (tokenManager w)
                | None \<Rightarrow> tokenManager w);
          (orphaned, _, reg') = RemoveDevice (save_ok e) (visit e) dev reg;
          calls = (if orphaned \<noteq> [] \<and> has_onOrphaned h then [(orphaned, ''device revoked'')] else [])
      in (orphaned, w\<lparr>tokenManager := tm, registry := Some reg', orphan_calls := orphan_calls w @ calls\<rparr>))"

definition HandleRevoke :: "auth_env \<Rightarrow> auth_handler \<Rightarrow> http_request \<Rightarrow> string \<Rightarrow> auth_world \<Rightarrow> http_response \<times> auth_world" where
  "HandleRevoke e h r text w =
     (if Method r \<noteq> ''POST'' then (http_Error ''Method not allowed'' 405, w)
      else case decode_body ''refresh_token'' text of
        None \<Rightarrow> (writeJSONError ''Invalid request body'' 400, w)
      | Some token \<Rightarrow>
          if token = [] then (writeJSONError ''refresh_token is required'' 400, w)
          else (case ValidateToken (tokenManager w) token (clock e 0) of
            Inl _ \<Rightarrow> (writeJSONError ''Invalid or expired refresh token'' 401, w)
          | Inr p \<Rightarrow>
              if p_type p \<noteq> TokenTypeRefresh then (writeJSONError ''refresh_token is required'' 400, w)
              else (let w1 = w\<lparr>tokenManager := RevokeTokenByNonce (Nonce p) (clock e 1) (tokenManager w)\<rparr>;
                        (orphaned, w2) =
                          (case registry w1 of
                             Some reg \<Rightarrow>
                               if DeviceID p \<noteq> [] then
                                 (let (os, w') = revoke_device e h (DeviceID p) reg w1 in (JArr (map JStr os), w'))
                               else (JNull, w1)
                           | None \<Rightarrow> (JNull, w1))
                    in (writeJSON 200 (JObj ((''orphaned_workspaces'', orphaned) # f_bool ''success'' True)), w2))))"

section \<open>Deciding on pairing requests\<close>

definition pairing_request_json :: "pairing_request \<Rightarrow> json" where
  "pairing_request_json p =
     JObj (f_str ''request_id'' (pairing_request.RequestID p) @ f_str ''remote_addr'' (pairing_request.RemoteAddr p) @
           f_str ''user_agent'' (UserAgent p) @ f_str ''created_at'' (rfc3339 True 0 (pr_created p)) @
           f_str ''expires_at'' (rfc3339 True 0 (pairing_request.ExpiresAt p)))"

definition HandlePairingPending :: "auth_env \<Rightarrow> auth_handler \<Rightarrow> http_request \<Rightarrow> auth_world \<Rightarrow> http_response \<times> auth_world" where
  "HandlePairingPending e h r w =
     (if Method r \<noteq> ''GET'' then (http_Error ''Method not allowed'' 405, w)
      else case pairingApproval w of
        None \<Rightarrow> (writeJSONError ''Pairing approval not enabled'' 404, w)
      | Some m \<Rightarrow>
          if \<not> isLocalRequest r (trustedProxies h) then (writeJSONError ''Forbidden'' 403, w)
          else (let (ps, m') = ListPending (visit e) (clock e 0) m
                in (writeJSON 200 (JObj (f_int ''count'' (int (length ps)) @ [(''pending'', JArr (map pairing_request_json ps))])),
                    w\<lparr>pairingApproval := Some m'\<rparr>)))"

definition decide ::
  "string \<Rightarrow> (time \<Rightarrow> string \<Rightarrow> approvals \<Rightarrow> pairing_request option \<times> approvals) \<Rightarrow>
     auth_env \<Rightarrow> auth_handler \<Rightarrow> http_request \<Rightarrow> string \<Rightarrow> auth_world \<Rightarrow> http_response \<times> auth_world" where
  "decide status act e h r text w =
     (if Method r \<noteq> ''POST'' then (http_Error ''Method not allowed'' 405, w)
      else case pairingApproval w of
        None \<Rightarrow> (writeJSONError ''Pairing approval not enabled'' 404, w)
      | Some m \<Rightarrow>
          if \<not> isLocalRequest r (trustedProxies h) then (writeJSONError ''Forbidden'' 403, w)
          else case decode_body ''request_id'' text of
            None \<Rightarrow> (writeJSONError ''Invalid request body'' 400, w)
          | Some rid \<Rightarrow>
              if rid = [] then (writeJSONError ''request_id is required'' 400, w)
              else (case act (clock e 0) rid m of
                (None, m') \<Rightarrow> (writeJSONError ''Pending request not found'' 404, w\<lparr>pairingApproval := Some m'\<rparr>)
              | (Some req, m') \<Rightarrow>
                  (writeJSON 200 (JObj (f_str ''request_id'' (pairing_request.RequestID req) @ f_str ''status'' status @ f_bool ''success'' True)),
                   w\<lparr>pairingApproval := Some m'\<rparr>)))"

definition HandlePairingApprove ::
  "auth_env \<Rightarrow> auth_handler \<Rightarrow> http_request \<Rightarrow> string \<Rightarrow> auth_world \<Rightarrow> http_response \<times> auth_world" where
  "HandlePairingApprove = decide ''approved'' Approve"

definition HandlePairingReject ::
  "auth_env \<Rightarrow> auth_handler \<Rightarrow> http_request \<Rightarrow> string \<Rightarrow> auth_world \<Rightarrow> http_response \<times> auth_world" where
  "HandlePairingReject = decide ''rejected'' Reject"

section \<open>The middleware\<close>

definition defaultAuthAllowlist :: "string list" where
  "defaultAuthAllowlist =
     [''/health'', ''/pair'', ''/api/pair/'', ''/api/auth/exchange'', ''/api/auth/refresh'', ''/api/auth/revoke'',
      ''/api/auth/pairing/'', ''/api/tasks/webhook'']"

definition isAuthExempt :: "string list \<Rightarrow> string \<Rightarrow> bool" where
  "isAuthExempt allowlist path = list_ex (\<lambda>allowed. has_prefix allowed path) allowlist"

definition extractBearerToken :: "string \<Rightarrow> string" where
  "extractBearerToken hdr =
     (if length hdr > 7 \<and> has_prefix ''Bearer '' hdr then trim_space (drop 7 hdr) else [])"

record auth_config =
  requireAuth :: bool
  cfg_tokens :: "token_manager option"
  authAllowlist :: "string list"
  cfg_proxies :: "ip_net list"

text \<open>\<open>None\<close>: the request is passed on to the next handler.\<close>

definition authMiddleware :: "auth_config \<Rightarrow> time \<Rightarrow> http_request \<Rightarrow> http_response option" where
  "authMiddleware s now r =
     (case (requireAuth s, cfg_tokens s) of
        (True, Some tm) \<Rightarrow>
          if Method r = ''OPTIONS'' \<or> isAuthExempt (authAllowlist s) (Path r) then None
          else if isLocalRequest r (cfg_proxies s) \<and> has_prefix ''/api/hooks/'' (Path r) then None
          else (let token = extractBearerToken (header_Get r ''Authorization'')
                in if token = [] then Some (http_Error ''Unauthorized'' 401)
                   else case ValidateToken tm token now of
                     Inl _ \<Rightarrow> Some (http_Error ''Unauthorized'' 401)
                   | Inr p \<Rightarrow>
                       if p_type p \<noteq> TokenTypeSession \<and> p_type p \<noteq> TokenTypeAccess
                       then Some (http_Error ''Unauthorized'' 401) else None)
      | _ \<Rightarrow> None)"


section \<open>The endpoints together\<close>

datatype auth_call =
    Call_exchange http_request string
  | Call_refresh http_request string
  | Call_revoke http_request string
  | Call_pending http_request
  | Call_approve http_request string
  | Call_reject http_request string

fun auth_exec :: "auth_env \<Rightarrow> auth_handler \<Rightarrow> auth_call \<Rightarrow> auth_world \<Rightarrow> http_response \<times> auth_world" where
  "auth_exec e h (Call_exchange r text) w = HandleExchange e r text w"
| "auth_exec e h (Call_refresh r text) w = HandleRefresh e r text w"
| "auth_exec e h (Call_revoke r text) w = HandleRevoke e h r text w"
| "auth_exec e h (Call_pending r) w = HandlePairingPending e h r w"
| "auth_exec e h (Call_approve r text) w = HandlePairingApprove e h r text w"
| "auth_exec e h (Call_reject r text) w = HandlePairingReject e h r text w"

text \<open>The nonces of the approved pairing tokens.\<close>

definition nonces :: "approvals \<Rightarrow> string set" where
  "nonces m = dom (mget (approvedNonces m))"

definition approved :: "auth_world \<Rightarrow> string set" where
  "approved w = (case pairingApproval w of None \<Rightarrow> {} | Some m \<Rightarrow> nonces m)"

lemma approved_world [simp]:
  "approved (w\<lparr>pairingApproval := Some m\<rparr>) = nonces m"
  "pairingApproval w = Some m \<Longrightarrow> approved w = nonces m"
  by (simp_all add: approved_def)

text \<open>What a call grants: the request that approved, and the nonce of the pairing request it approved.\<close>

definition granted :: "auth_env \<Rightarrow> auth_handler \<Rightarrow> auth_call \<Rightarrow> auth_world \<Rightarrow> (http_request \<times> string) list" where
  "granted e h c w =
     (case c of
        Call_approve r text \<Rightarrow>
          (case (pairingApproval w, decode_body ''request_id'' text) of
             (Some m, Some rid) \<Rightarrow>
               (case fst (Approve (clock e 0) rid m) of
                  Some req \<Rightarrow> if Code (fst (HandlePairingApprove e h r text w)) = 200 then [(r, nonce req)] else []
                | None \<Rightarrow> [])
           | _ \<Rightarrow> [])
      | _ \<Rightarrow> [])"

inductive auth_reach :: "auth_handler \<Rightarrow> auth_world \<Rightarrow> (http_request \<times> string) list \<Rightarrow> bool"
  for h :: auth_handler where
  started: "pairingApproval w = Some NewPairingApprovalManager \<Longrightarrow> auth_reach h w []"
| called: "auth_reach h w g \<Longrightarrow> auth_reach h (snd (auth_exec e h c w)) (granted e h c w @ g)"

subsection \<open>Only approving approves\<close>

lemma nonces_mdel_if: "dom (mget (mdel_if p m)) \<subseteq> dom (mget m)"
  unfolding dom_map_of_conv_image_fst by auto

lemma nonces_cleanup: "nonces (cleanupExpiredLocked now m) \<subseteq> nonces m"
  using nonces_mdel_if by (simp add: nonces_def cleanupExpiredLocked_def Let_def)

lemma nonces_update [simp]:
  "nonces (m\<lparr>pendingByID := p\<rparr>) = nonces m" "nonces (m\<lparr>pendingByNonce := q\<rparr>) = nonces m"
  "nonces (m\<lparr>rejectedNonces := r\<rparr>) = nonces m" "nonces (m\<lparr>approvedNonces := a\<rparr>) = dom (mget a)"
  by (simp_all add: nonces_def)

lemma nonces_Status: "Status now k m = (st, m') \<Longrightarrow> nonces m' \<subseteq> nonces m"
  using nonces_cleanup by (auto simp: Status_def Let_def split: if_splits)

lemma nonces_EnsurePending:
  assumes "EnsurePending rnd now k a u ex m = (res, m')"
  shows "nonces m' \<subseteq> nonces m"
proof (cases "k = []")
  case True
  then show ?thesis using assms by (simp add: EnsurePending_def)
next
  case False
  let ?m = "cleanupExpiredLocked now m"
  have "nonces m' = nonces ?m"
    using assms False
    by (cases "Option.bind (mget (pendingByNonce ?m) k) (mget (pendingByID ?m))"; cases "newPairingRequestID rnd")
       (auto simp: EnsurePending_def Let_def)
  then show ?thesis using nonces_cleanup by simp
qed

lemma nonces_Reject: "Reject now rid m = (res, m') \<Longrightarrow> nonces m' \<subseteq> nonces m"
  using nonces_cleanup [of now m] by (auto simp: Reject_def Let_def split: option.splits)

lemma nonces_ListPending: "ListPending order now m = (res, m') \<Longrightarrow> nonces m' \<subseteq> nonces m"
  using nonces_cleanup [of now m] by (auto simp: ListPending_def Let_def)

lemma nonces_ClearTokenDecision: "nonces (ClearTokenDecision k m) \<subseteq> nonces m"
  by (cases "mget (pendingByNonce m) k") (auto simp: ClearTokenDecision_def Let_def nonces_def split: if_splits)

lemma nonces_Approve:
  assumes "Approve now rid m = (res, m')"
  shows "nonces m' \<subseteq> nonce ` set_option res \<union> nonces m"
proof (cases "mget (pendingByID (cleanupExpiredLocked now m)) rid")
  case None
  then show ?thesis using assms nonces_cleanup [of now m] by (auto simp: Approve_def Let_def)
next
  case (Some req)
  then have "res = Some req" "nonces m' \<subseteq> insert (nonce req) (nonces (cleanupExpiredLocked now m))"
    using assms by (auto simp: Approve_def Let_def nonces_def split: if_splits)
  then show ?thesis using nonces_cleanup [of now m] by auto
qed

lemma tail_approved: "approved (snd (exchange_tail e token p w)) \<subseteq> approved w"
proof -
  obtain res tm where x: "ExchangePairingToken token (draws e 1) (draws e 2) (draws e 3) (clock e 3) (tokenManager w) = (res, tm)"
    by fastforce
  show ?thesis
    unfolding exchange_tail_def x
    using nonces_ClearTokenDecision
    by (cases res; cases p; cases "pairingApproval w") (simp_all add: approved_def register_pair_def Let_def)
qed

lemma exchange_approved: "approved (snd (HandleExchange e r text w)) \<subseteq> approved w"
proof (cases "Method r = ''POST'' \<and> decode_body ''pairing_token'' text \<notin> {None, Some []}")
  case False
  then show ?thesis by (auto simp: HandleExchange_def split: option.split)
next
  case True
  then obtain token where d: "Method r = ''POST''" "decode_body ''pairing_token'' text = Some token" "token \<noteq> []" by auto
  show ?thesis
  proof (cases "pairingApproval w")
    case None
    then show ?thesis using d tail_approved [of e token None w] by (simp add: HandleExchange_def)
  next
    case (Some m)
    show ?thesis
    proof (cases "ValidateToken (tokenManager w) token (clock e 0)")
      case (Inl err)
      then show ?thesis using d Some by (simp add: HandleExchange_def)
    next
      case (Inr p)
      obtain st m1 where st: "Status (clock e 1) (Nonce p) m = (st, m1)" by fastforce
      obtain en m2 where en: "EnsurePending (draws e 0) (clock e 2) (Nonce p) (RemoteAddr r)
          (header_Get r ''User-Agent'') (token_payload.ExpiresAt p * second) m1 = (en, m2)" by fastforce
      have sub: "nonces m1 \<subseteq> nonces m" "nonces m2 \<subseteq> nonces m"
        using nonces_Status [OF st] nonces_EnsurePending [OF en] by auto
      show ?thesis
        using sub d Some Inr st en tail_approved [of e token "Some p" "w\<lparr>pairingApproval := Some m1\<rparr>"]
        by (cases st; cases en) (auto simp: HandleExchange_def)
    qed
  qed
qed

lemma same_approval:
  "pairingApproval (snd (HandleRefresh e r text w)) = pairingApproval w"
  "pairingApproval (snd (HandleRevoke e h r text w)) = pairingApproval w"
proof -
  obtain x where x: "decode_body ''refresh_token'' text = x" by blast
  show "pairingApproval (snd (HandleRefresh e r text w)) = pairingApproval w"
    by (auto simp: HandleRefresh_def register_pair_def Let_def split: option.split sum.split prod.split)
  show "pairingApproval (snd (HandleRevoke e h r text w)) = pairingApproval w"
    by (auto simp: HandleRevoke_def revoke_device_def Let_def split: option.split sum.split prod.split)
qed

lemma decide_approved:
  assumes "\<And>rid res m' m. act (clock e 0) rid m = (res, m') \<Longrightarrow> nonces m' \<subseteq> nonces m"
  shows "approved (snd (decide status act e h r text w)) \<subseteq> approved w"
proof (cases "pairingApproval w")
  case None
  then show ?thesis by (simp add: decide_def)
next
  case (Some m)
  have "nonces m' \<subseteq> nonces m" if "act (clock e 0) rid m = (res, m')" for rid res m' using assms that .
  then show ?thesis
    using Some by (auto simp: decide_def split: option.split prod.split dest: subsetD)
qed

lemma reject_approved: "approved (snd (HandlePairingReject e h r text w)) \<subseteq> approved w"
  unfolding HandlePairingReject_def by (rule decide_approved) (rule nonces_Reject)

lemma pending_approved: "approved (snd (HandlePairingPending e h r w)) \<subseteq> approved w"
proof (cases "pairingApproval w")
  case None
  then show ?thesis by (simp add: HandlePairingPending_def)
next
  case (Some m)
  obtain ps m' where l: "ListPending (visit e) (clock e 0) m = (ps, m')" by fastforce
  show ?thesis
    using Some l nonces_ListPending [OF l] by (auto simp: HandlePairingPending_def)
qed

lemma approve_ok:
  assumes "Code (fst (HandlePairingApprove e h r text w)) = 200"
  obtains m rid req m' where "pairingApproval w = Some m" "decode_body ''request_id'' text = Some rid"
    "Approve (clock e 0) rid m = (Some req, m')" "isLocalRequest r (trustedProxies h)" "Method r = ''POST''"
    "snd (HandlePairingApprove e h r text w) = w\<lparr>pairingApproval := Some m'\<rparr>"
  using assms
  by (auto simp: HandlePairingApprove_def decide_def http_Error_def writeJSONError_def writeJSON_def
      split: option.splits prod.splits if_splits)

lemma approve_fails:
  assumes "Code (fst (HandlePairingApprove e h r text w)) \<noteq> 200"
  shows "approved (snd (HandlePairingApprove e h r text w)) \<subseteq> approved w"
proof (cases "pairingApproval w")
  case None
  then show ?thesis by (simp add: HandlePairingApprove_def decide_def)
next
  case (Some m)
  have "nonces m' \<subseteq> nonces m" if "Approve (clock e 0) rid m = (None, m')" for rid m'
    using nonces_Approve [OF that] by simp
  then show ?thesis
    using Some assms
    by (auto simp: HandlePairingApprove_def decide_def writeJSON_def split: option.splits prod.split dest: subsetD)
qed

lemma approve_approved: "approved (snd (HandlePairingApprove e h r text w)) \<subseteq> snd ` set (granted e h (Call_approve r text) w) \<union> approved w"
proof (cases "Code (fst (HandlePairingApprove e h r text w)) = 200")
  case False
  then show ?thesis using approve_fails by blast
next
  case True
  then obtain m rid req m' where a: "pairingApproval w = Some m" "decode_body ''request_id'' text = Some rid"
    "Approve (clock e 0) rid m = (Some req, m')"
    "snd (HandlePairingApprove e h r text w) = w\<lparr>pairingApproval := Some m'\<rparr>"
    by (rule approve_ok)
  have g: "granted e h (Call_approve r text) w = [(r, nonce req)]" using True a by (simp add: granted_def)
  show ?thesis unfolding g a(4) using a(1) nonces_Approve [OF a(3)] by simp
qed

lemma exec_approved: "approved (snd (auth_exec e h c w)) \<subseteq> snd ` set (granted e h c w) \<union> approved w"
proof (cases c)
  case (Call_refresh r b)
  then show ?thesis by (simp add: approved_def same_approval)
next
  case (Call_revoke r b)
  then show ?thesis by (simp add: approved_def same_approval)
qed (simp_all add: approve_approved exchange_approved reject_approved pending_approved le_supI2)

lemma keeps_enabled: "pairingApproval w = Some m \<Longrightarrow> pairingApproval (snd (auth_exec e h c w)) \<noteq> None"
proof (cases c)
  case (Call_exchange r b)
  moreover assume "pairingApproval w = Some m"
  moreover have "pairingApproval w' = Some m' \<Longrightarrow> pairingApproval (snd (exchange_tail e token p w')) \<noteq> None" for token p w' m'
    by (auto simp: exchange_tail_def register_pair_def Let_def split: option.splits sum.split prod.split)
  ultimately show ?thesis
    by (auto simp: HandleExchange_def split: option.split sum.split prod.split approval_status.split)
qed (auto simp: same_approval HandlePairingPending_def HandlePairingApprove_def HandlePairingReject_def decide_def
      split: option.split prod.split)

lemma granted_local:
  "(r, n) \<in> set (granted e h c w) \<Longrightarrow> isLocalRequest r (trustedProxies h) \<and> Method r = ''POST''"
  by (auto simp: granted_def split: auth_call.splits option.splits if_splits elim: approve_ok)

lemma reach_approved:
  "auth_reach h w g \<Longrightarrow> approved w \<subseteq> snd ` set g \<and> (\<forall>(r, n) \<in> set g. isLocalRequest r (trustedProxies h) \<and> Method r = ''POST'')"
proof (induction rule: auth_reach.induct)
  case (started w)
  then show ?case by (simp add: nonces_def NewPairingApprovalManager_def)
next
  case (called w g e c)
  then show ?case using exec_approved [of e h c w] granted_local [of _ _ e h c w] by fastforce
qed

lemma reach_enabled: "auth_reach h w g \<Longrightarrow> pairingApproval w \<noteq> None"
proof (induction rule: auth_reach.induct)
  case (called w g e c)
  then obtain m where "pairingApproval w = Some m" by blast
  then show ?case using keeps_enabled by simp
qed simp

lemma exchange_ok:
  assumes "Code (fst (HandleExchange e r text w)) = 200" "pairingApproval w = Some m"
  obtains token p m1 where "decode_body ''pairing_token'' text = Some token"
    "ValidateToken (tokenManager w) token (clock e 0) = Inr p" "p_type p = TokenTypePairing"
    "Status (clock e 1) (Nonce p) m = (StatusApproved, m1)"
  using assms
  by (auto simp: HandleExchange_def http_Error_def writeJSONError_def writeJSON_def
      split: option.splits sum.splits prod.splits if_splits approval_status.splits)

lemma nonces_StatusApproved: "Status now n m = (StatusApproved, m') \<Longrightarrow> n \<in> nonces m"
  using nonces_cleanup [of now m] by (auto simp: Status_def Let_def nonces_def mem_key_def split: if_splits)

text \<open>A response with tokens in it.\<close>

definition returns_tokens :: "http_response \<Rightarrow> bool" where
  "returns_tokens resp \<longleftrightarrow>
     (case Body resp of
        Json (JObj kvs) \<Rightarrow> mem_key ''access_token'' kvs \<or> mem_key ''refresh_token'' kvs
      | _ \<Rightarrow> False)"

lemma returns_tokens_simps [simp]:
  "\<not> returns_tokens (http_Error msg code)" "\<not> returns_tokens (writeJSONError msg code)"
  "\<not> returns_tokens (writeJSON code (PairingExchangePendingResponse pr))"
  "\<not> returns_tokens (writeJSON code (JObj ((''orphaned_workspaces'', j) # f_bool ''success'' b)))"
  "\<not> returns_tokens (writeJSON code (JObj (f_int ''count'' n @ [(''pending'', j)])))"
  "\<not> returns_tokens (writeJSON code (JObj (f_str ''request_id'' rid @ f_str ''status'' st @ f_bool ''success'' b)))"
  "returns_tokens (writeJSON code (TokenPairResponse e now pair))"
  by (simp_all add: returns_tokens_def http_Error_def writeJSONError_def writeJSON_def PairingExchangePendingResponse_def
      TokenPairResponse_def mem_key_def f_str_def f_bool_def f_int_def)

lemma tail_tokens:
  "returns_tokens (fst (exchange_tail e token payload w)) \<Longrightarrow> Code (fst (exchange_tail e token payload w)) = 200"
proof -
  obtain res tm where "ExchangePairingToken token (draws e 1) (draws e 2) (draws e 3) (clock e 3) (tokenManager w) = (res, tm)"
    by fastforce
  then show "returns_tokens (fst (exchange_tail e token payload w)) \<Longrightarrow> Code (fst (exchange_tail e token payload w)) = 200"
    by (cases res) (simp_all add: exchange_tail_def Let_def, simp add: writeJSON_def)
qed

lemma exchange_tokens:
  assumes "returns_tokens (fst (HandleExchange e r text w))"
  shows "Code (fst (HandleExchange e r text w)) = 200"
proof (cases "Method r = ''POST'' \<and> decode_body ''pairing_token'' text \<notin> {None, Some []}")
  case False
  then show ?thesis using assms by (auto simp: HandleExchange_def split: option.splits)
next
  case True
  then obtain token where d: "Method r = ''POST''" "decode_body ''pairing_token'' text = Some token" "token \<noteq> []" by auto
  show ?thesis
    using assms d tail_tokens
    by (auto simp: HandleExchange_def split: option.splits sum.splits prod.splits if_splits approval_status.splits)
qed

lemma validate_parse: "ValidateToken tm token now = Inr p \<Longrightarrow> parseTokenPayload tm token = Inr p"
  by (auto simp: ValidateToken_def split: sum.splits if_splits)

lemma refresh_tokens:
  assumes "returns_tokens (fst (HandleRefresh e r text w))"
  shows "\<exists>token p. decode_body ''refresh_token'' text = Some token \<and>
    ValidateToken (tokenManager w) token (clock e 1) = Inr p \<and> p_type p = TokenTypeRefresh \<and>
    (\<forall>reg. registry w = Some reg \<longrightarrow> IsRefreshNonceValid (DeviceID p) (Nonce p) reg)"
proof -
  obtain token pair tm where t: "decode_body ''refresh_token'' text = Some token"
    "RefreshTokenPair token (draws e 1) (draws e 2) (clock e 1) (tokenManager w) = (Inr pair, tm)"
    and reg: "\<And>reg. registry w = Some reg \<Longrightarrow>
      \<exists>old. ValidateToken (tokenManager w) token (clock e 0) = Inr old \<and> IsRefreshNonceValid (DeviceID old) (Nonce old) reg"
    using assms by (auto simp: HandleRefresh_def Let_def split: option.splits sum.splits prod.splits if_splits)
  obtain p where "refresh_check token (clock e 1) (tokenManager w) = Inr p"
    using refresh_success [OF t(2)] by metis
  then have p: "ValidateToken (tokenManager w) token (clock e 1) = Inr p" "p_type p = TokenTypeRefresh"
    by (auto simp: refresh_check_def split: sum.splits if_splits)
  have "IsRefreshNonceValid (DeviceID p) (Nonce p) r" if "registry w = Some r" for r
    using reg [OF that] validate_parse [OF p(1)] validate_parse by fastforce
  with t(1) p show ?thesis by blast
qed

lemma no_revoke_tokens: "\<not> returns_tokens (fst (HandleRevoke e h r text w))"
proof (cases "Method r = ''POST'' \<and> decode_body ''refresh_token'' text \<notin> {None, Some []}")
  case False
  then show ?thesis by (auto simp: HandleRevoke_def split: option.split)
next
  case True
  then obtain token where d: "Method r = ''POST''" "decode_body ''refresh_token'' text = Some token" "token \<noteq> []" by auto
  then show ?thesis by (simp add: HandleRevoke_def Let_def split: sum.split option.split prod.split)
qed

lemma no_pending_tokens: "\<not> returns_tokens (fst (HandlePairingPending e h r w))"
  by (simp add: HandlePairingPending_def split: option.split prod.split)

lemma no_decide_tokens: "\<not> returns_tokens (fst (decide st act e h r text w))"
  by (simp add: decide_def split: option.split prod.split)

text \<open>
  C2: No device is paired without the machine's owner: with approvals enabled, whatever calls of the six endpoints
  came before and in whatever order, a call answers with tokens only in two cases. It is an exchange of a
  valid pairing token whose nonce an earlier approval names, and that approval was a local POST request;
  or it is a refresh with a refresh token of this server that is valid now and, when there is a
  registry, the latest one of its device. The other four endpoints never answer with tokens.
\<close>

theorem tokens_need_local_approval:
  assumes "auth_reach h w g" "auth_exec e h c w = (resp, w')" "returns_tokens resp"
  shows "(\<exists>r b token p a. c = Call_exchange r b \<and> decode_body ''pairing_token'' b = Some token \<and>
      ValidateToken (tokenManager w) token (clock e 0) = Inr p \<and> p_type p = TokenTypePairing \<and>
      (a, Nonce p) \<in> set g \<and> isLocalRequest a (trustedProxies h) \<and> Method a = ''POST'') \<or>
    (\<exists>r b token p. c = Call_refresh r b \<and> decode_body ''refresh_token'' b = Some token \<and>
      ValidateToken (tokenManager w) token (clock e 1) = Inr p \<and> p_type p = TokenTypeRefresh \<and>
      (\<forall>reg. registry w = Some reg \<longrightarrow> IsRefreshNonceValid (DeviceID p) (Nonce p) reg))"
proof (cases c)
  case (Call_exchange r b)
  obtain m where m: "pairingApproval w = Some m" using reach_enabled [OF assms(1)] by blast
  have "Code (fst (HandleExchange e r b w)) = 200"
    using exchange_tokens assms(2,3) Call_exchange by (metis auth_exec.simps(1) fst_conv)
  then obtain token p m1 where t: "decode_body ''pairing_token'' b = Some token"
    "ValidateToken (tokenManager w) token (clock e 0) = Inr p" "p_type p = TokenTypePairing"
    "Status (clock e 1) (Nonce p) m = (StatusApproved, m1)"
    using m by (rule exchange_ok)
  have "Nonce p \<in> approved w" using nonces_StatusApproved [OF t(4)] m by simp
  then obtain a where "(a, Nonce p) \<in> set g" "isLocalRequest a (trustedProxies h)" "Method a = ''POST''"
    using reach_approved [OF assms(1)] by fastforce
  with t Call_exchange show ?thesis by blast
next
  case (Call_refresh r b)
  then show ?thesis using refresh_tokens [of e r b w] assms(2,3) by simp
next
  case (Call_revoke r b)
  then show ?thesis using no_revoke_tokens [of e h r b w] assms(2,3) by simp
next
  case (Call_pending r)
  then show ?thesis using no_pending_tokens [of e h r w] assms(2,3) by simp
next
  case (Call_approve r b)
  then show ?thesis using no_decide_tokens [of "''approved''" Approve e h r b w] assms(2,3) by (simp add: HandlePairingApprove_def)
next
  case (Call_reject r b)
  then show ?thesis using no_decide_tokens [of "''rejected''" Reject e h r b w] assms(2,3) by (simp add: HandlePairingReject_def)
qed

section \<open>Refreshing and revoking\<close>

lemma refresh_ok:
  assumes "Code (fst (HandleRefresh e r text w)) = 200" "registry w = Some reg"
  obtains token p pair tm where "decode_body ''refresh_token'' text = Some token" "token \<noteq> []"
    "ValidateToken (tokenManager w) token (clock e 0) = Inr p"
    "IsRefreshNonceValid (DeviceID p) (Nonce p) reg"
    "RefreshTokenPair token (draws e 1) (draws e 2) (clock e 1) (tokenManager w) = (Inr pair, tm)"
    "snd (HandleRefresh e r text w) = register_pair e (clock e 2) pair (w\<lparr>tokenManager := tm\<rparr>)"
  using assms
  by (auto simp: HandleRefresh_def http_Error_def writeJSONError_def writeJSON_def Let_def
      split: option.splits sum.splits prod.splits if_splits)

lemma pair_nonce:
  assumes "GenerateTokenPairWithDeviceID tm dev rnd1 rnd2 now = Inr pair"
    and "ascii (serverID tm)" "ascii dev" "valid_time now" "generateRandomString 16 rnd2 = Some n2"
  shows "tp_device pair = dev \<and> RefreshNonce pair = n2"
proof -
  obtain t ex p where t: "generateToken tm TokenTypeRefresh DefaultRefreshTokenExpiry dev rnd2 now = Inr (t, ex)"
    "ValidateToken tm t now = Inr p" "tp_device pair = dev" "RefreshNonce pair = Nonce p"
    using assms(1) by (auto simp: GenerateTokenPairWithDeviceID_def split: if_splits sum.splits prod.splits)
  have "parseTokenPayload tm t = Inr (new_payload tm TokenTypeRefresh DefaultRefreshTokenExpiry dev n2 now)"
    by (rule parse_generated [OF t(1) _ assms(2-4)]) (use assms(5) in simp_all)
  then have "Nonce p = n2" using validate_parse [OF t(2)] by (simp add: new_payload_def)
  with t show ?thesis by simp
qed

text \<open>
  C8: With a device registry, a refresh token works once, restarts of the daemon included: after a refresh that
  returned tokens, the same refresh token is refused by every later server with the same secret whose
  registry is loaded and has, for the device, the entry that refresh left, even when the revocations,
  which are kept in memory only, are lost. The two refreshes follow one another: the handler does not
  keep two of them that run at the same time apart. The fresh nonce differs from that of the token.
\<close>

theorem refresh_once_across_restarts:
  assumes "HandleRefresh e r text w = (resp, w1)" "Code resp = 200" "registry w = Some reg"
    and "decode_body ''refresh_token'' text = Some token" "parseTokenPayload (tokenManager w) token = Inr p"
    and "ascii (serverID (tokenManager w))" "ascii (DeviceID p)" "valid_time (clock e 1)"
    and "generateRandomString 16 (draws e 2) = Some n2" "n2 \<noteq> Nonce p"
    and "same_keys (tokenManager w1) (tokenManager w2)" "registry w2 = Some reg2"
    and "GetDevice (DeviceID p) reg2 = Option.bind (registry w1) (GetDevice (DeviceID p))"
    and "Method r' = ''POST''"
  shows "HandleRefresh e' r' text w2 = (writeJSONError ''Invalid or expired refresh token'' 401, w2)"
proof -
  have c: "Code (fst (HandleRefresh e r text w)) = 200" using assms(1,2) by simp
  obtain pair tm where t: "token \<noteq> []" "RefreshTokenPair token (draws e 1) (draws e 2) (clock e 1) (tokenManager w) = (Inr pair, tm)"
    "snd (HandleRefresh e r text w) = register_pair e (clock e 2) pair (w\<lparr>tokenManager := tm\<rparr>)"
    using refresh_ok [OF c assms(3)] assms(4) by (metis option.inject)
  obtain q where q: "refresh_check token (clock e 1) (tokenManager w) = Inr q" "tm = revoke_nonce (Nonce q) (clock e 1) (tokenManager w)"
    "GenerateTokenPairWithDeviceID (tokenManager w) (DeviceID q) (draws e 1) (draws e 2) (clock e 1) = Inr pair"
    using refresh_success [OF t(2)] by metis
  have "parseTokenPayload (tokenManager w) token = Inr q"
    using q(1) by (auto simp: refresh_check_def split: sum.splits if_splits dest: validate_parse)
  then have "q = p" using assms(5) by simp
  note q = q [unfolded this]
  have dev: "DeviceID p \<noteq> []" using q(1) by (auto simp: refresh_check_def split: sum.splits if_splits)
  have pair: "tp_device pair = DeviceID p" "RefreshNonce pair = n2"
    using pair_nonce [OF q(3) assms(6-9)] by simp_all
  have w1: "w1 = register_pair e (clock e 2) pair (w\<lparr>tokenManager := tm\<rparr>)" using t(3) assms(1) by simp
  have "Option.bind (registry w1) (GetDevice (DeviceID p)) \<noteq> None \<and>
      ds_refresh (the (Option.bind (registry w1) (GetDevice (DeviceID p)))) = n2"
    using pair dev assms(3) by (simp add: w1 register_pair_def RegisterDevice_def GetDevice_def)
  then have "\<not> IsRefreshNonceValid (DeviceID p) (Nonce p) reg2"
    using assms(10,13) by (auto simp: IsRefreshNonceValid_def GetDevice_def split: option.splits)
  moreover have "same_keys (tokenManager w) (tokenManager w2)"
    using assms(11) by (simp add: w1 register_pair_def q(2) same_keys_def revoke_nonce_def)
  then have "parseTokenPayload (tokenManager w2) token = Inr p" using parse_same_keys assms(5) by simp
  then have "\<And>old. ValidateToken (tokenManager w2) token (clock e' 0) = Inr old \<Longrightarrow> old = p"
    using validate_parse by fastforce
  ultimately show ?thesis
    using assms(4,12,14) t(1) by (auto simp: HandleRefresh_def split: sum.split)
qed

lemma token_of_gone_device:
  assumes "registry w = Some reg" "GetDevice (DeviceID q) reg = None" "parseTokenPayload (tokenManager w) t = Inr q"
    and "Method r = ''POST''" "decode_body ''refresh_token'' b = Some t" "t \<noteq> []"
  shows "HandleRefresh e r b w = (writeJSONError ''Invalid or expired refresh token'' 401, w)"
proof -
  have "\<And>old. ValidateToken (tokenManager w) t (clock e 0) = Inr old \<Longrightarrow> old = q"
    using assms(3) validate_parse by fastforce
  moreover have "\<not> IsRefreshNonceValid (DeviceID q) (Nonce q) reg"
    using assms(2) by (simp add: IsRefreshNonceValid_def GetDevice_def split: if_splits option.splits)
  ultimately show ?thesis using assms by (auto simp: HandleRefresh_def split: sum.split)
qed

text \<open>
  C9: What a revoke ends: a revoke with a valid refresh token of a device answers 200; afterwards two tokens more
  are refused as revoked, the refresh token presented and the access token the registry has for the device,
  and every other token of this server, an older access token of the device included, validates as it did
  before; no refresh token of the device renews anything any more; the registry has neither the device
  nor a binding of it and keeps every other, and the workspaces left without a device are exactly those
  handed to the callback, when there is one.
\<close>

theorem revoke_ends_device:
  assumes "Method r = ''POST''" "decode_body ''refresh_token'' text = Some token" "token \<noteq> []"
    and "ValidateToken (tokenManager w) token (clock e 0) = Inr p" "p_type p = TokenTypeRefresh"
    and "Nonce p \<noteq> []" "DeviceID p \<noteq> []" "registry w = Some reg" "registry_ok reg"
    and "valid_order (visit e) (Workspaces reg)" "has_onOrphaned h"
    and "HandleRevoke e h r text w = (resp, w')"
  shows "Code resp = 200 \<and>
    (\<forall>t q now. parseTokenPayload (tokenManager w) t = Inr q \<longrightarrow>
       ValidateToken (tokenManager w') t now =
         (if Nonce q = Nonce p \<or> (\<exists>d. GetDevice (DeviceID p) reg = Some d \<and> ds_access d = Nonce q \<and> Nonce q \<noteq> [])
          then Inl ErrTokenRevoked else ValidateToken (tokenManager w) t now)) \<and>
    (\<forall>t q e' r' b. parseTokenPayload (tokenManager w) t = Inr q \<longrightarrow> DeviceID q = DeviceID p \<longrightarrow>
       Method r' = ''POST'' \<longrightarrow> decode_body ''refresh_token'' b = Some t \<longrightarrow> t \<noteq> [] \<longrightarrow>
       HandleRefresh e' r' b w' = (writeJSONError ''Invalid or expired refresh token'' 401, w')) \<and>
    (\<exists>reg'. registry w' = Some reg' \<and> GetDevice (DeviceID p) reg' = None \<and>
       (\<forall>ws. bound_to reg' ws = bound_to reg ws - {DeviceID p}) \<and>
       (\<forall>d. d \<noteq> DeviceID p \<longrightarrow> GetDevice d reg' = GetDevice d reg)) \<and>
    (\<exists>os. set os = {ws. bound_to reg ws = {DeviceID p}} \<and>
       orphan_calls w' = orphan_calls w @ (if os = [] then [] else [(os, ''device revoked'')]))"
proof -
  let ?dev = "DeviceID p"
  let ?tm1 = "RevokeTokenByNonce (Nonce p) (clock e 1) (tokenManager w)"
  define tm2 where "tm2 = (case GetDevice ?dev reg of
      Some session \<Rightarrow> RevokeTokenByNonce (ds_access session) (clock e 2) ?tm1 | None \<Rightarrow> ?tm1)"
  obtain os err reg' where rm: "RemoveDevice (save_ok e) (visit e) ?dev reg = (os, err, reg')"
    by (metis prod_cases3)
  have removed: "mget (Devices reg') ?dev = None" "\<And>ws. bound_to reg' ws = bound_to reg ws - {?dev}"
    "set os = {ws. bound_to reg ws = {?dev}}" "\<And>d. d \<noteq> ?dev \<Longrightarrow> GetDevice d reg' = GetDevice d reg"
    using RemoveDevice_effect [OF assms(9,10,7) rm] by blast+
  have w': "tokenManager w' = tm2" "registry w' = Some reg'" "Code resp = 200"
    "orphan_calls w' = orphan_calls w @ (if os \<noteq> [] then [(os, ''device revoked'')] else [])"
    using assms(12,1-5,7,8,11) rm
    by (cases "GetDevice ?dev reg"; auto simp: HandleRevoke_def revoke_device_def tm2_def writeJSON_def Let_def)+
  have keys: "same_keys (tokenManager w) tm2"
    by (simp add: tm2_def RevokeTokenByNonce_def revoke_nonce_def same_keys_def split: option.split)
  have tokens: "ValidateToken tm2 t now =
      (if Nonce q = Nonce p \<or> (\<exists>d. GetDevice ?dev reg = Some d \<and> ds_access d = Nonce q \<and> Nonce q \<noteq> [])
       then Inl ErrTokenRevoked else ValidateToken (tokenManager w) t now)"
    if "parseTokenPayload (tokenManager w) t = Inr q" for t q now
    using that parse_same_keys [OF keys, of t] assms(6)
    by (auto simp: ValidateToken_def mem_key_def tm2_def RevokeTokenByNonce_def revoke_nonce_def split: option.split)
  have gone: "GetDevice ?dev reg' = None" using removed(1) by (simp add: GetDevice_def)
  have renew: "HandleRefresh e' r' b w' = (writeJSONError ''Invalid or expired refresh token'' 401, w')"
    if "parseTokenPayload (tokenManager w) t = Inr q" "DeviceID q = ?dev"
      "Method r' = ''POST''" "decode_body ''refresh_token'' b = Some t" "t \<noteq> []" for t q e' r' b
    by (rule token_of_gone_device [OF w'(2) _ _ that(3-5), of q])
       (use gone that(1,2) parse_same_keys [OF keys, of t] w'(1) in simp_all)
  moreover have "\<exists>os. set os = {ws. bound_to reg ws = {?dev}} \<and>
       orphan_calls w' = orphan_calls w @ (if os = [] then [] else [(os, ''device revoked'')])"
    using removed(3) w'(4) by (intro exI [of _ os]) simp
  moreover have "\<forall>t q now. parseTokenPayload (tokenManager w) t = Inr q \<longrightarrow>
       ValidateToken (tokenManager w') t now =
         (if Nonce q = Nonce p \<or> (\<exists>d. GetDevice ?dev reg = Some d \<and> ds_access d = Nonce q \<and> Nonce q \<noteq> [])
          then Inl ErrTokenRevoked else ValidateToken (tokenManager w) t now)"
    unfolding w'(1) using tokens by blast
  ultimately show ?thesis using w'(2,3) gone renew removed(2,4) by blast
qed

section \<open>The middleware\<close>

text \<open>
  What the middleware lets through: with authentication configured, a request reaches the handlers exactly when
  it is an OPTIONS request, its path starts with an allow-listed prefix, it is a local call of a hook, or
  it carries as bearer token a session or access token that validates now; every other request is answered
  401 without the handler.
\<close>

theorem authMiddleware_passes:
  assumes "requireAuth s" "cfg_tokens s = Some tm"
  shows "authMiddleware s now r =
    (if Method r = ''OPTIONS'' \<or> (\<exists>prefix \<in> set (authAllowlist s). has_prefix prefix (Path r)) \<or>
        isLocalRequest r (cfg_proxies s) \<and> has_prefix ''/api/hooks/'' (Path r) \<or>
        (\<exists>p. extractBearerToken (header_Get r ''Authorization'') \<noteq> [] \<and>
           ValidateToken tm (extractBearerToken (header_Get r ''Authorization'')) now = Inr p \<and>
           p_type p \<in> {TokenTypeSession, TokenTypeAccess})
     then None else Some \<lparr>Code = 401, Body = Plain (''Unauthorized'' @ [CHR 0x0A])\<rparr>)"
  using assms
  by (auto simp: authMiddleware_def isAuthExempt_def list_ex_iff http_Error_def Let_def split: sum.split)

subsection \<open>Witnesses\<close>

definition body_of :: "string \<Rightarrow> string \<Rightarrow> string" where
  "body_of name s = json_print (JObj [(name, JStr s)])"

lemma fold_key_bodies [simp]:
  "fold_key ''pairing_token'' = ''pairing_token''" "fold_key ''refresh_token'' = ''refresh_token''"
  "fold_key ''request_id'' = ''request_id''"
  by (simp_all add: fold_key_def has_prefix_def)

lemma decode_body_of:
  assumes "ascii name" "ascii s" "fold_key name = name"
  shows "decode_body name (body_of name s) = Some s"
proof -
  let ?j = "JObj [(name, JStr s)]"
  have pr: "printable ?j" using assms by simp
  have "parse_value (Suc (2 * length (json_print ?j))) (json_print ?j) = Some (?j, [])"
    using parse_print(1) [OF pr, of "[]" "Suc (2 * length (json_print ?j))"] need_le(1) [OF pr] by simp
  then show ?thesis
    using assms(3) by (simp add: decode_body_def body_of_def unmarshal_struct_def decode_string_def)
qed

definition demo_env :: "time \<Rightarrow> auth_env" where
  "demo_env now = \<lparr>clock = (\<lambda>_. now),
     draws = (\<lambda>i. if i = 0 then Some ''abcdefghijkl'' else if i = 1 then bytes_of (CHR ''b'')
                  else if i = 2 then bytes_of (CHR ''c'') else bytes_of (CHR ''d'')),
     save_ok = True, visit = [''w''], zone = 0\<rparr>"

definition post_from :: "ip \<Rightarrow> http_request" where
  "post_from b = \<lparr>Method = ''POST'', Path = ''/'', RemoteAddr = v4_peer b ''80'', Header = [], has_TLS = False\<rparr>"

definition demo_handler :: auth_handler where
  "demo_handler = \<lparr>has_onOrphaned = True, trustedProxies = []\<rparr>"

definition demo_payload :: token_payload where
  "demo_payload = new_payload demo_manager TokenTypePairing 600 [] (nonce_of (CHR ''a'')) hour"

definition demo_world :: "approvals \<Rightarrow> auth_world" where
  "demo_world m = \<lparr>tokenManager = demo_manager, registry = None, pairingApproval = Some m, orphan_calls = []\<rparr>"

lemma demo_validate: "ValidateToken demo_manager demo_pairing hour = Inr demo_payload"
  using demo_check by (auto simp: exchange_check_def demo_payload_def split: sum.splits if_splits)

lemma demo_payload_sel [simp]:
  "p_type demo_payload = TokenTypePairing" "Nonce demo_payload = nonce_of (CHR ''a'')"
  "token_payload.ExpiresAt demo_payload = unix (hour + 600 * second)"
  by (simp_all add: demo_payload_def new_payload_def duration_600)

lemma ascii_seal: "ascii (seal tm ty text)"
  by (simp add: seal_def ascii_b64 token_prefix_def PairingTokenPrefix_def SessionTokenPrefix_def RefreshTokenPrefix_def
      ascii_def Let_def) (use ascii_b64 in \<open>force simp: ascii_def\<close>)

lemma seal_nonempty: "seal tm ty text \<noteq> []"
  by (simp add: seal_def token_prefix_def PairingTokenPrefix_def SessionTokenPrefix_def RefreshTokenPrefix_def Let_def)

lemma demo_pairing_body: "decode_body ''pairing_token'' (body_of ''pairing_token'' demo_pairing) = Some demo_pairing"
  "demo_pairing \<noteq> []"
  unfolding demo_pairing_def by (rule decode_body_of [OF _ ascii_seal]) (simp_all add: ascii_def seal_nonempty)

lemma post_from_sel [simp]:
  "Method (post_from b) = ''POST''" "RemoteAddr (post_from b) = v4_peer b ''80''" "header_Get (post_from b) k = []"
  by (simp_all add: post_from_def header_Get_def)

lemma local_owner: "isLocalRequest (post_from [127, 0, 0, 1]) []"
  using local_v4 [of "post_from [127, 0, 0, 1]" "[]" "[127, 0, 0, 1]"] parse_peer [OF _ demo_port, of "[127, 0, 0, 1]"]
  by (simp add: RequestClientIP_def IsTrustedProxy_def)

definition demo_pending :: pairing_request where
  "demo_pending = \<lparr>pairing_request.RequestID = demo_pairing_id, RemoteAddr = v4_peer [192, 0, 2, 7] ''80'', UserAgent = [],
     pr_created = hour, ExpiresAt = unix (hour + 600 * second) * second, nonce = nonce_of (CHR ''a'')\<rparr>"

lemma demo_expiry: "hour < unix (hour + 600 * second) * second" "unix (hour + 600 * second) * second \<noteq> zero_time"
  by (simp_all add: unix_def hour_def minute_def second_def zero_time_def)

lemma nonce_a: "nonce_of (CHR ''a'') \<noteq> []"
  by (simp add: nonce_of_eval)

lemma demo_first_exchange:
  "snd (HandleExchange (demo_env hour) (post_from [192, 0, 2, 7]) (body_of ''pairing_token'' demo_pairing)
     (demo_world NewPairingApprovalManager)) =
   demo_world \<lparr>pendingByID = [(demo_pairing_id, demo_pending)], pendingByNonce = [(nonce_of (CHR ''a''), demo_pairing_id)],
     approvedNonces = [], rejectedNonces = []\<rparr>"
  using demo_expiry
  by (simp add: HandleExchange_def demo_pairing_body demo_world_def demo_validate demo_env_def Status_def
      EnsurePending_def NewPairingApprovalManager_def cleanupExpiredLocked_def mdel_if_def mem_key_def nonce_a Let_def
      demo_pairing_new demo_pending_def)

lemma demo_pairing_id_eval: "demo_pairing_id = ''pairreq_6162636465666768696a6b6c''"
  by code_simp

lemma demo_id_body: "decode_body ''request_id'' (body_of ''request_id'' demo_pairing_id) = Some demo_pairing_id"
  "demo_pairing_id \<noteq> []"
  by (rule decode_body_of) (simp_all add: demo_pairing_id_eval ascii_def)

lemma demo_approval:
  fixes w defines "w \<equiv> demo_world \<lparr>pendingByID = [(demo_pairing_id, demo_pending)],
     pendingByNonce = [(nonce_of (CHR ''a''), demo_pairing_id)], approvedNonces = [], rejectedNonces = []\<rparr>"
  shows "snd (HandlePairingApprove (demo_env hour) demo_handler (post_from [127, 0, 0, 1]) (body_of ''request_id'' demo_pairing_id) w) =
      demo_world \<lparr>pendingByID = [], pendingByNonce = [],
        approvedNonces = [(nonce_of (CHR ''a''), unix (hour + 600 * second) * second)], rejectedNonces = []\<rparr>"
  using demo_expiry local_owner
  by (simp add: w_def HandlePairingApprove_def decide_def demo_world_def demo_handler_def demo_id_body Approve_def
      cleanupExpiredLocked_def mdel_if_def demo_env_def Let_def demo_pending_def)

lemma demo_pair:
  "\<exists>pair tm. ExchangePairingToken demo_pairing (bytes_of (CHR ''b'')) (bytes_of (CHR ''c'')) (bytes_of (CHR ''d'')) hour
     demo_manager = (Inr pair, tm)"
proof -
  have "ascii (nonce_of (CHR ''b''))" using ascii_random [OF random_of] .
  from generate_pair [OF demo_times(1) this _ demo_times(2) demo_fresh demo_fresh, of "CHR ''c''" "CHR ''d''"]
  show ?thesis
    by (auto simp: ExchangePairingToken_def demo_check exchange_commit_def random_of nonce_of_eval)
qed

lemma tokens_need_local_approval_witness:
  "\<exists>w g resp w' token p a. auth_reach demo_handler w g \<and>
    HandleExchange (demo_env hour) (post_from [192, 0, 2, 7]) (body_of ''pairing_token'' demo_pairing) w = (resp, w') \<and>
    returns_tokens resp \<and> ValidateToken (tokenManager w) token hour = Inr p \<and>
    (a, Nonce p) \<in> set g \<and> isLocalRequest a (trustedProxies demo_handler) \<and> Method a = ''POST''"
proof -
  let ?ex = "Call_exchange (post_from [192, 0, 2, 7]) (body_of ''pairing_token'' demo_pairing)"
  let ?ap = "Call_approve (post_from [127, 0, 0, 1]) (body_of ''request_id'' demo_pairing_id)"
  let ?w = "demo_world \<lparr>pendingByID = [], pendingByNonce = [],
      approvedNonces = [(nonce_of (CHR ''a''), unix (hour + 600 * second) * second)], rejectedNonces = []\<rparr>"
  have "auth_reach demo_handler (demo_world NewPairingApprovalManager) []"
    by (rule started) (simp add: demo_world_def)
  from called [OF called [OF this, of "demo_env hour" ?ex], of "demo_env hour" ?ap]
  obtain g where g: "auth_reach demo_handler ?w g"
    by (auto simp: demo_first_exchange demo_approval)
  obtain pair tm where x: "ExchangePairingToken demo_pairing (bytes_of (CHR ''b'')) (bytes_of (CHR ''c''))
      (bytes_of (CHR ''d'')) hour demo_manager = (Inr pair, tm)" using demo_pair by blast
  obtain resp w' where r: "HandleExchange (demo_env hour) (post_from [192, 0, 2, 7]) (body_of ''pairing_token'' demo_pairing) ?w = (resp, w')"
    "returns_tokens resp"
    using demo_expiry x
    by (auto simp: HandleExchange_def demo_pairing_body demo_world_def demo_validate demo_env_def Status_def
        cleanupExpiredLocked_def mdel_if_def mem_key_def nonce_a Let_def exchange_tail_def)
  have "clock (demo_env hour) 0 = hour" by (simp add: demo_env_def)
  then obtain token p a where "ValidateToken (tokenManager ?w) token hour = Inr p" "(a, Nonce p) \<in> set g"
    "isLocalRequest a (trustedProxies demo_handler)" "Method a = ''POST''"
    using tokens_need_local_approval [OF g, of "demo_env hour" ?ex resp w'] r by auto
  with g r show ?thesis by blast
qed

definition demo_old :: token_payload where
  "demo_old = new_payload demo_manager TokenTypeRefresh 604800 ''dev'' (nonce_of (CHR ''a'')) hour"

definition demo_devices :: auth_registry where
  "demo_devices = \<lparr>Devices = [(''dev'', \<lparr>ds_device = ''dev'', ds_refresh = nonce_of (CHR ''a''), RefreshExpiresAt = 900 * hour,
     ds_access = ''x'', AccessExpiresAt = 2 * hour, UpdatedAt = hour\<rparr>)], Workspaces = [(''w'', [(''dev'', hour)])]\<rparr>"

definition demo_paired :: auth_world where
  "demo_paired = \<lparr>tokenManager = demo_manager, registry = Some demo_devices, pairingApproval = None, orphan_calls = []\<rparr>"

lemma demo_old_validate: "ValidateToken demo_manager demo_refresh (2 * hour) = Inr demo_old"
  using demo_refresh_check by (auto simp: refresh_check_def demo_old_def split: sum.splits if_splits)

lemma demo_old_sel [simp]:
  "p_type demo_old = TokenTypeRefresh" "Nonce demo_old = nonce_of (CHR ''a'')" "DeviceID demo_old = ''dev''"
  by (simp_all add: demo_old_def new_payload_def)

lemma demo_refresh_body: "decode_body ''refresh_token'' (body_of ''refresh_token'' demo_refresh) = Some demo_refresh"
  "demo_refresh \<noteq> []"
  unfolding demo_refresh_def by (rule decode_body_of [OF _ ascii_seal]) (simp_all add: ascii_def seal_nonempty)

lemma demo_refreshed:
  "\<exists>resp w1. HandleRefresh (demo_env (2 * hour)) (post_from [192, 0, 2, 7]) (body_of ''refresh_token'' demo_refresh)
     demo_paired = (resp, w1) \<and> Code resp = 200"
proof -
  have "ascii ''dev''" by (simp add: ascii_def)
  from generate_pair [OF demo_times(1) this _ demo_times(3) demo_fresh demo_fresh, of "CHR ''b''" "CHR ''c''"]
  obtain pair tm where "RefreshTokenPair demo_refresh (bytes_of (CHR ''b'')) (bytes_of (CHR ''c'')) (2 * hour) demo_manager =
      (Inr pair, tm)"
    by (auto simp: RefreshTokenPair_def demo_refresh_check refresh_commit_def new_payload_def)
  then show ?thesis
    by (simp add: HandleRefresh_def demo_refresh_body demo_paired_def demo_old_validate demo_env_def demo_devices_def
        IsRefreshNonceValid_def writeJSON_def Let_def)
qed

lemma refresh_keeps_registry: "registry w \<noteq> None \<Longrightarrow> registry (snd (HandleRefresh e r text w)) \<noteq> None"
  by (auto simp: HandleRefresh_def register_pair_def Let_def split: option.split sum.split prod.split)

lemma refresh_once_across_restarts_witness:
  "\<exists>resp w1 w2. HandleRefresh (demo_env (2 * hour)) (post_from [192, 0, 2, 7]) (body_of ''refresh_token'' demo_refresh)
      demo_paired = (resp, w1) \<and> Code resp = 200 \<and> revokedNonces (tokenManager w2) = [] \<and>
    HandleRefresh (demo_env (3 * hour)) (post_from [192, 0, 2, 7]) (body_of ''refresh_token'' demo_refresh) w2 =
      (writeJSONError ''Invalid or expired refresh token'' 401, w2)"
proof -
  obtain resp w1 where r: "HandleRefresh (demo_env (2 * hour)) (post_from [192, 0, 2, 7])
      (body_of ''refresh_token'' demo_refresh) demo_paired = (resp, w1)" "Code resp = 200"
    using demo_refreshed by blast
  have e: "registry demo_paired = Some demo_devices" "tokenManager demo_paired = demo_manager"
    "clock (demo_env (2 * hour)) 1 = 2 * hour" "draws (demo_env (2 * hour)) 2 = bytes_of (CHR ''c'')"
    by (simp_all add: demo_paired_def demo_env_def)
  have "registry w1 \<noteq> None"
    using refresh_keeps_registry [of demo_paired "demo_env (2 * hour)" "post_from [192, 0, 2, 7]"
        "body_of ''refresh_token'' demo_refresh"] r(1) e(1) by simp
  then obtain reg1 where reg1: "registry w1 = Some reg1" by blast
  define w2 where "w2 = w1\<lparr>tokenManager := (tokenManager w1)\<lparr>revokedNonces := []\<rparr>\<rparr>"
  have "HandleRefresh (demo_env (3 * hour)) (post_from [192, 0, 2, 7]) (body_of ''refresh_token'' demo_refresh) w2 =
      (writeJSONError ''Invalid or expired refresh token'' 401, w2)"
  proof (rule refresh_once_across_restarts [OF r e(1) demo_refresh_body(1), where p = demo_old])
    show "parseTokenPayload (tokenManager demo_paired) demo_refresh = Inr demo_old"
      using validate_parse [OF demo_old_validate] by (simp add: e)
    show "generateRandomString 16 (draws (demo_env (2 * hour)) 2) = Some (nonce_of (CHR ''c''))"
      unfolding e by (rule random_of)
    show "ascii (serverID (tokenManager demo_paired))" "valid_time (clock (demo_env (2 * hour)) 1)"
      unfolding e by (rule demo_times)+
    show "ascii (DeviceID demo_old)" by (simp add: ascii_def)
    show "nonce_of (CHR ''c'') \<noteq> Nonce demo_old" by (simp add: nonce_of_eval)
    show "same_keys (tokenManager w1) (tokenManager w2)" by (simp add: w2_def same_keys_def)
    show "registry w2 = Some reg1" by (simp add: w2_def reg1)
    show "GetDevice (DeviceID demo_old) reg1 = Option.bind (registry w1) (GetDevice (DeviceID demo_old))" by (simp add: reg1)
  qed simp
  moreover have "revokedNonces (tokenManager w2) = []" by (simp add: w2_def)
  ultimately show ?thesis using r by blast
qed

lemma demo_devices_ok: "registry_ok demo_devices" "valid_order [''w''] (Workspaces demo_devices)"
  by (auto simp: registry_ok_def demo_devices_def wf_map_def bound_to_def valid_order_def split: if_splits)

lemma revoke_ends_device_witness:
  "\<exists>resp w'. HandleRevoke (demo_env (2 * hour)) demo_handler (post_from [192, 0, 2, 7])
      (body_of ''refresh_token'' demo_refresh) demo_paired = (resp, w') \<and> Code resp = 200 \<and>
    (\<forall>now. ValidateToken (tokenManager w') demo_refresh now = Inl ErrTokenRevoked) \<and>
    (\<exists>reg'. registry w' = Some reg' \<and> GetDevice ''dev'' reg' = None)"
proof -
  obtain resp w' where r: "HandleRevoke (demo_env (2 * hour)) demo_handler (post_from [192, 0, 2, 7])
      (body_of ''refresh_token'' demo_refresh) demo_paired = (resp, w')" by fastforce
  have e: "registry demo_paired = Some demo_devices" "tokenManager demo_paired = demo_manager"
    "clock (demo_env (2 * hour)) 0 = 2 * hour" "visit (demo_env (2 * hour)) = [''w'']" "has_onOrphaned demo_handler"
    by (simp_all add: demo_paired_def demo_env_def demo_handler_def)
  have v: "ValidateToken (tokenManager demo_paired) demo_refresh (clock (demo_env (2 * hour)) 0) = Inr demo_old"
    unfolding e by (rule demo_old_validate)
  have o: "valid_order (visit (demo_env (2 * hour))) (Workspaces demo_devices)" unfolding e by (rule demo_devices_ok)
  have "Nonce demo_old \<noteq> []" "DeviceID demo_old \<noteq> []" by (simp_all add: nonce_a)
  note all = revoke_ends_device [OF post_from_sel(1) demo_refresh_body v demo_old_sel(1) this e(1) demo_devices_ok(1) o e(5) r]
  have p: "parseTokenPayload (tokenManager demo_paired) demo_refresh = Inr demo_old"
    using validate_parse [OF v] .
  have "ValidateToken (tokenManager w') demo_refresh now = Inl ErrTokenRevoked" for now
    by (subst all [THEN conjunct2, THEN conjunct1, rule_format, OF p]) simp
  moreover obtain reg' where "registry w' = Some reg'" "GetDevice ''dev'' reg' = None"
    using all [THEN conjunct2, THEN conjunct2, THEN conjunct2, THEN conjunct1] by auto
  ultimately show ?thesis using r all [THEN conjunct1] by blast
qed

lemma authMiddleware_passes_witness:
  "let s = \<lparr>requireAuth = True, cfg_tokens = Some demo_manager, authAllowlist = defaultAuthAllowlist, cfg_proxies = []\<rparr>;
       r = post_from [192, 0, 2, 7]
   in authMiddleware s hour r =
    (if Method r = ''OPTIONS'' \<or> (\<exists>prefix \<in> set (authAllowlist s). has_prefix prefix (Path r)) \<or>
        isLocalRequest r (cfg_proxies s) \<and> has_prefix ''/api/hooks/'' (Path r) \<or>
        (\<exists>p. extractBearerToken (header_Get r ''Authorization'') \<noteq> [] \<and>
           ValidateToken demo_manager (extractBearerToken (header_Get r ''Authorization'')) hour = Inr p \<and>
           p_type p \<in> {TokenTypeSession, TokenTypeAccess})
     then None else Some \<lparr>Code = 401, Body = Plain (''Unauthorized'' @ [CHR 0x0A])\<rparr>)"
  unfolding Let_def by (rule authMiddleware_passes) simp_all

end
