(* ===== verification/Permission_Pattern.thy ===== *)
theory Permission_Pattern
  imports Go_JSON
begin

text \<open>
  \<open>internal/permission/pattern.go\<close>: the patterns under which a permission decision is remembered
  (\<open>GeneratePattern\<close>), the test that a later request falls under a stored pattern
  (\<open>MatchPattern\<close>), and the texts shown on the phone. The input of a tool is the JSON object
  Claude sends; a type assertion \<open>v.(string)\<close> on one of its entries is \<open>str_field\<close>.

  The lemmas describe what a pattern generated from a request matches: \<open>bash_key\<close> for commands, the
  extension or the directory for files. \<open>SanitizeCommand\<close> is not modelled.
\<close>

section \<open>Tool input\<close>

type_synonym tool_input = "(string, json) gomap"

definition str_field :: "string \<Rightarrow> tool_input \<Rightarrow> string option" where
  "str_field k inp = (case mget inp k of Some (JStr s) \<Rightarrow> Some s | _ \<Rightarrow> None)"

section \<open>Generating patterns\<close>

definition generateBashPattern :: "tool_input \<Rightarrow> string" where
  "generateBashPattern inp =
     (case str_field ''command'' inp of
        None \<Rightarrow> ''Bash(*)''
      | Some cmd \<Rightarrow>
          if cmd = [] then ''Bash(*)''
          else (case fields cmd of
              [] \<Rightarrow> ''Bash(*)''
            | baseCmd # rest \<Rightarrow>
                if baseCmd \<in> {''rm'', ''mkdir'', ''touch'', ''chmod'', ''chown''}
                then ''Bash('' @ baseCmd @ '':*)''
                else if baseCmd = ''git''
                then (case rest of [] \<Rightarrow> ''Bash(git:*)'' | p # _ \<Rightarrow> ''Bash(git '' @ p @ '':*)'')
                else if baseCmd \<in> {''npm'', ''yarn'', ''pnpm''}
                then (case rest of
                    [] \<Rightarrow> ''Bash('' @ baseCmd @ '':*)''
                  | p # _ \<Rightarrow> ''Bash('' @ baseCmd @ '' '' @ p @ '':*)'')
                else if baseCmd = ''go''
                then (case rest of [] \<Rightarrow> ''Bash(go:*)'' | p # _ \<Rightarrow> ''Bash(go '' @ p @ '':*)'')
                else if baseCmd \<in> {''python'', ''python3'', ''node'', ''ruby''}
                then ''Bash('' @ baseCmd @ '':*)''
                else ''Bash('' @ baseCmd @ '':*)''))"

definition generateFilePattern :: "string \<Rightarrow> tool_input \<Rightarrow> string \<Rightarrow> string" where
  "generateFilePattern toolName inp pathKey =
     (case str_field pathKey inp of
        None \<Rightarrow> toolName @ ''(*)''
      | Some path \<Rightarrow>
          if path = [] then toolName @ ''(*)''
          else if path_ext path \<noteq> [] then toolName @ ''(*'' @ path_ext path @ '')''
          else if path_dir path \<noteq> [] \<and> path_dir path \<noteq> ''.''
          then toolName @ ''('' @ path_dir path @ ''/*)''
          else toolName @ ''(*)'')"

definition GeneratePattern :: "string \<Rightarrow> tool_input \<Rightarrow> string" where
  "GeneratePattern toolName inp =
     (if toolName = ''Bash'' then generateBashPattern inp
      else if toolName = ''Write'' then generateFilePattern ''Write'' inp ''file_path''
      else if toolName = ''Edit'' then generateFilePattern ''Edit'' inp ''file_path''
      else if toolName = ''Read'' then generateFilePattern ''Read'' inp ''file_path''
      else toolName @ ''(*)'')"

section \<open>Matching patterns\<close>

fun words_match :: "string list \<Rightarrow> string list \<Rightarrow> bool" where
  "words_match [] cs = True"
| "words_match (p # ps) [] = False"
| "words_match (p # ps) (c # cs) = (c = p \<and> words_match ps cs)"

definition matchBashPattern :: "string \<Rightarrow> tool_input \<Rightarrow> bool" where
  "matchBashPattern patternContent inp =
     (case str_field ''command'' inp of
        None \<Rightarrow> False
      | Some cmd \<Rightarrow>
          if cmd = [] then False
          else if has_suffix '':*'' patternContent
          then (let cmdParts = fields cmd; prefixParts = fields (trim_suffix '':*'' patternContent)
                in if length cmdParts < length prefixParts then False
                   else words_match prefixParts cmdParts)
          else cmd = patternContent)"

definition matchFilePattern :: "string \<Rightarrow> tool_input \<Rightarrow> bool" where
  "matchFilePattern patternContent inp =
     (case str_field ''file_path'' inp of
        None \<Rightarrow> False
      | Some path \<Rightarrow>
          if path = [] then False
          else if has_prefix ''*'' patternContent
          then has_suffix (trim_prefix ''*'' patternContent) path
          else if has_suffix ''/*'' patternContent
          then (case path_rel (trim_suffix ''/*'' patternContent) (path_dir path) of
                  None \<Rightarrow> False
                | Some rel \<Rightarrow> \<not> has_prefix ''..'' rel)
          else path_match patternContent path)"

definition MatchPattern :: "string \<Rightarrow> string \<Rightarrow> tool_input \<Rightarrow> bool" where
  "MatchPattern pattern toolName inp =
     (if \<not> has_prefix (toolName @ ''('') pattern \<or> \<not> has_suffix '')'' pattern then False
      else
        let patternContent =
              drop (length toolName + 1) (take (length pattern - 1) pattern)
        in if patternContent = ''*'' then True
           else if toolName = ''Bash'' then matchBashPattern patternContent inp
           else if toolName \<in> {''Write'', ''Edit'', ''Read''} then matchFilePattern patternContent inp
           else patternContent = ''*'')"

section \<open>Texts for the phone\<close>

text \<open>
  The MCP tool names \<open>mcp__server__tool\<close>: the regular expression's first group is greedy, so the
  server name is the longest one that leaves a nonempty tool name behind a double underscore.
\<close>

definition mcp_char :: "char \<Rightarrow> bool" where
  "mcp_char c \<longleftrightarrow>
     (let n = (of_char c :: nat)
      in (65 \<le> n \<and> n \<le> 90) \<or> (97 \<le> n \<and> n \<le> 122) \<or> (48 \<le> n \<and> n \<le> 57) \<or>
         c = CHR ''.'' \<or> c = CHR ''_'' \<or> c = CHR ''-'')"

definition mcp_split_at :: "string \<Rightarrow> nat \<Rightarrow> bool" where
  "mcp_split_at s k \<longleftrightarrow> has_prefix ''__'' (drop k s) \<and> k + 2 < length s"

definition parseMCPToolName :: "string \<Rightarrow> (string \<times> string) option" where
  "parseMCPToolName toolName =
     (let t = trim_space toolName in
      if \<not> has_prefix ''mcp__'' t then None
      else let s = drop 5 t in
        if \<not> list_all mcp_char s then None
        else (case find (mcp_split_at s) (rev [1..<length s]) of
            None \<Rightarrow> None
          | Some k \<Rightarrow> Some (take k s, drop (k + 2) s)))"

definition mcp_target_keys :: "string list" where
  "mcp_target_keys = [''url'', ''path'', ''file_path'', ''selector'', ''command'', ''query'']"

fun first_target :: "string list \<Rightarrow> tool_input \<Rightarrow> string" where
  "first_target [] inp = []"
| "first_target (k # ks) inp =
     (case str_field k inp of
        Some text \<Rightarrow> if trim_space text \<noteq> [] then text else first_target ks inp
      | None \<Rightarrow> first_target ks inp)"

definition extractMCPTarget :: "tool_input \<Rightarrow> string" where
  "extractMCPTarget inp = (if inp = [] then [] else first_target mcp_target_keys inp)"

definition cut :: "nat \<Rightarrow> nat \<Rightarrow> string \<Rightarrow> string" where
  "cut limit keep s = (if length s > limit then take keep s @ ''...'' else s)"

definition GenerateReadableDescription :: "string \<Rightarrow> tool_input \<Rightarrow> string" where
  "GenerateReadableDescription toolName inp =
     (case parseMCPToolName toolName of
        Some (serverName, toolID) \<Rightarrow>
          (let target = extractMCPTarget inp in
           if target \<noteq> [] then ''Use MCP '' @ serverName @ ''/'' @ toolID @ '': '' @ target
           else ''Use MCP tool: '' @ serverName @ ''/'' @ toolID)
      | None \<Rightarrow>
          if toolName = ''Bash'' then
            (case str_field ''command'' inp of
               Some cmd \<Rightarrow>
                 (case str_field ''description'' inp of
                    Some desc \<Rightarrow> if desc \<noteq> [] then desc else cut 80 77 cmd
                  | None \<Rightarrow> cut 80 77 cmd)
             | None \<Rightarrow> ''Execute shell command'')
          else if toolName = ''Write'' then
            (case str_field ''file_path'' inp of
               Some path \<Rightarrow> ''Write to '' @ path_base path | None \<Rightarrow> ''Write file'')
          else if toolName = ''Edit'' then
            (case str_field ''file_path'' inp of
               Some path \<Rightarrow> ''Edit '' @ path_base path | None \<Rightarrow> ''Edit file'')
          else if toolName = ''Read'' then
            (case str_field ''file_path'' inp of
               Some path \<Rightarrow> ''Read '' @ path_base path | None \<Rightarrow> ''Read file'')
          else ''Use '' @ toolName @ '' tool'')"

definition GeneratePermissionType :: "string \<Rightarrow> string" where
  "GeneratePermissionType toolName =
     (if parseMCPToolName toolName \<noteq> None then ''mcp_tool''
      else if toolName = ''Bash'' then ''bash_command''
      else if toolName = ''Write'' then ''write_file''
      else if toolName = ''Edit'' then ''edit_file''
      else if toolName = ''Read'' then ''read_file''
      else ''tool_use'')"

definition ExtractTarget :: "string \<Rightarrow> tool_input \<Rightarrow> string" where
  "ExtractTarget toolName inp =
     (case parseMCPToolName toolName of
        Some (serverName, toolID) \<Rightarrow>
          (let target = extractMCPTarget inp in
           if target \<noteq> [] then target else serverName @ ''/'' @ toolID)
      | None \<Rightarrow>
          if toolName = ''Bash'' then
            (case str_field ''command'' inp of Some cmd \<Rightarrow> cmd | None \<Rightarrow> [])
          else if toolName \<in> {''Write'', ''Edit'', ''Read''} then
            (case str_field ''file_path'' inp of Some path \<Rightarrow> path | None \<Rightarrow> [])
          else [])"

definition ExtractPreview :: "string \<Rightarrow> tool_input \<Rightarrow> string" where
  "ExtractPreview toolName inp =
     (if toolName = ''Write'' then
        (case str_field ''content'' inp of
           Some content \<Rightarrow>
             (let lines = split_on (CHR 0x0A) content;
                  preview = join [CHR 0x0A] (take (min 5 (length lines)) lines);
                  preview = (if length lines > 5 then preview @ [CHR 0x0A] @ ''...'' else preview)
              in cut 500 497 preview)
         | None \<Rightarrow> [])
      else if toolName = ''Edit'' then
        (case str_field ''new_string'' inp of
           Some newStr \<Rightarrow> cut 200 197 newStr
         | None \<Rightarrow> [])
      else [])"

section \<open>What a pattern matches\<close>

text \<open>The shape every generated pattern has.\<close>

definition wrap :: "string \<Rightarrow> string \<Rightarrow> string" where
  "wrap tool content = tool @ ''('' @ content @ '')''"

lemma wrap_inside:
  "drop (length tool + 1) (take (length (wrap tool c) - 1) (wrap tool c)) = c"
proof -
  have "wrap tool c = (tool @ ''('' @ c) @ '')''"
    by (simp add: wrap_def)
  then have "take (length (wrap tool c) - 1) (wrap tool c) = tool @ ''('' @ c"
    by (simp add: wrap_def)
  then show ?thesis by simp
qed

lemma wrap_prefix: "has_prefix (tool @ ''('') (wrap tool c)"
  using has_prefix_append [of "tool @ ''(''" "c @ '')''"] by (simp add: wrap_def)

lemma wrap_suffix: "has_suffix '')'' (wrap tool c)"
  using has_suffix_append [of "'')''" "tool @ ''('' @ c"] by (simp add: wrap_def)

lemma MatchPattern_wrap:
  "MatchPattern (wrap tool c) tool inp \<longleftrightarrow>
    c = ''*'' \<or> (tool = ''Bash'' \<and> matchBashPattern c inp) \<or>
    (tool \<in> {''Write'', ''Edit'', ''Read''} \<and> matchFilePattern c inp)"
  unfolding MatchPattern_def Let_def wrap_inside using wrap_prefix wrap_suffix by auto

text \<open>The slice in \<open>MatchPattern\<close> is never out of range.\<close>

lemma MatchPattern_slice_bounds:
  assumes "has_prefix (tool @ ''('') pattern" "has_suffix '')'' pattern"
  shows "length tool + 1 \<le> length pattern - 1 \<and> length pattern - 1 \<le> length pattern"
proof -
  obtain r where r: "pattern = (tool @ ''('') @ r"
    using assms(1) by (auto simp: has_prefix_iff)
  have "r \<noteq> []"
  proof
    assume "r = []"
    with r have "last pattern = CHR ''(''" by simp
    moreover have "last pattern = CHR '')''"
      using assms(2) by (auto simp: has_suffix_iff)
    ultimately show False by simp
  qed
  then show ?thesis
    by (cases r) (simp_all add: r)
qed

text \<open>The words of a command a generated pattern fixes.\<close>

definition two_word_commands :: "string list" where
  "two_word_commands = [''git'', ''npm'', ''yarn'', ''pnpm'', ''go'']"

definition bash_key :: "string list \<Rightarrow> string list" where
  "bash_key ws =
     (case ws of
        [] \<Rightarrow> []
      | [b] \<Rightarrow> [b]
      | b # p # _ \<Rightarrow> if b \<in> set two_word_commands then [b, p] else [b])"

lemma words_match_iff: "words_match ps cs \<longleftrightarrow> (\<exists>rest. cs = ps @ rest)"
  by (induction ps cs rule: words_match.induct) auto

lemma fields_go_blank:
  "fields_go cur 0 (CHR '' '' # s) = (if cur = [] then [] else [cur]) @ fields_go [] 0 s"
  by simp

lemma fields_go_app_blank:
  assumes "\<forall>k < length w. space_len (drop k w @ CHR '' '' # s) = 0"
  shows "fields_go cur 0 (w @ CHR '' '' # s) =
    (if cur @ w = [] then [] else [cur @ w]) @ fields_go [] 0 s"
  using assms
proof (induction w arbitrary: cur)
  case Nil
  then show ?case by simp
next
  case (Cons c w)
  have "space_len (c # w @ CHR '' '' # s) = 0"
    using Cons.prems by (metis append_Cons drop0 length_greater_0_conv list.distinct(1))
  moreover have "\<forall>k < length w. space_len (drop k w @ CHR '' '' # s) = 0"
    using Cons.prems by (metis Suc_less_eq drop_Suc_Cons length_Cons)
  ultimately show ?case
    using Cons.IH [of "cur @ [c]"] by simp
qed

text \<open>A word of the five two-word commands and one more word are read back as these two words.\<close>

lemma fields_two_words:
  assumes "b \<in> set two_word_commands" "no_space p" "p \<noteq> []"
  shows "fields (b @ '' '' @ p) = [b, p]"
proof -
  have "\<forall>k < length b. space_len (drop k b @ CHR '' '' # p) = 0"
    using assms(1)
    by (auto simp: two_word_commands_def space_len_zero_iff space_seqs_def less_Suc_eq)
  moreover have "b \<noteq> []"
    using assms(1) by (auto simp: two_word_commands_def)
  ultimately show ?thesis
    using fields_go_app_blank [of b p "[]"] assms(2,3)
    by (simp add: fields_def fields_go_word)
qed

text \<open>A generated command pattern is the key of the command, or the wildcard.\<close>

lemma generateBashPattern_wrap:
  assumes "str_field ''command'' inp = Some cmd" "fields cmd = b # rest"
  shows "generateBashPattern inp = wrap ''Bash'' (join '' '' (bash_key (b # rest)) @ '':*'')"
proof -
  have "cmd \<noteq> []"
    using assms(2) by (auto simp: fields_def)
  then show ?thesis
    using assms
    by (cases rest) (auto simp: generateBashPattern_def wrap_def bash_key_def two_word_commands_def)
qed

lemma generateBashPattern_wild:
  "str_field ''command'' inp = None \<or> (\<exists>cmd. str_field ''command'' inp = Some cmd \<and> fields cmd = []) \<Longrightarrow>
   generateBashPattern inp = wrap ''Bash'' ''*''"
  by (auto simp: generateBashPattern_def wrap_def)

lemma fields_bash_key:
  assumes "fields cmd = b # rest"
  shows "fields (join '' '' (bash_key (b # rest))) = bash_key (b # rest)"
proof -
  have ws: "w \<noteq> [] \<and> no_space w" if "w \<in> set (b # rest)" for w
    using that assms by (metis fields_no_space)
  show ?thesis
  proof (cases rest)
    case Nil
    then show ?thesis using ws [of b] by (simp add: bash_key_def)
  next
    case (Cons p ps)
    then show ?thesis
      using ws [of b] ws [of p] fields_two_words [of b p] by (simp add: bash_key_def)
  qed
qed

lemma matchBashPattern_prefix:
  "str_field ''command'' inp = Some cmd \<Longrightarrow>
   matchBashPattern (k @ '':*'') inp \<longleftrightarrow> cmd \<noteq> [] \<and> (\<exists>rest. fields cmd = fields k @ rest)"
  by (auto simp: matchBashPattern_def words_match_iff Let_def)

lemma matchBashPattern_None: "str_field ''command'' inp = None \<Longrightarrow> \<not> matchBashPattern c inp"
  by (simp add: matchBashPattern_def)

lemma generateFilePattern_cases:
  fixes tool inp key
  defines "g \<equiv> generateFilePattern tool inp key"
  obtains (wild) "g = wrap tool ''*''"
  | (ext) path where "str_field key inp = Some path" "path \<noteq> []" "path_ext path \<noteq> []"
      "g = wrap tool (''*'' @ path_ext path)"
  | (dir) path where "str_field key inp = Some path" "path \<noteq> []" "path_ext path = []"
      "path_dir path \<noteq> []" "path_dir path \<noteq> ''.''" "g = wrap tool (path_dir path @ ''/*'')"
proof (cases "str_field key inp")
  case None
  then show thesis by (intro wild) (simp add: g_def generateFilePattern_def wrap_def)
next
  case (Some path)
  then consider "path = []" | "path \<noteq> []" "path_ext path \<noteq> []"
    | "path \<noteq> []" "path_ext path = []" "path_dir path \<noteq> []" "path_dir path \<noteq> ''.''"
    | "path \<noteq> []" "path_ext path = []" "path_dir path = [] \<or> path_dir path = ''.''"
    by blast
  then show thesis
  proof cases
    case 1
    with Some show thesis by (intro wild) (simp add: g_def generateFilePattern_def wrap_def)
  next
    case 2
    with Some show thesis by (intro ext) (simp_all add: g_def generateFilePattern_def wrap_def)
  next
    case 3
    with Some show thesis by (intro dir) (simp_all add: g_def generateFilePattern_def wrap_def)
  next
    case 4
    with Some show thesis by (intro wild) (auto simp: g_def generateFilePattern_def wrap_def)
  qed
qed

text \<open>A generated pattern is always of the form \<open>tool(content)\<close>.\<close>

lemma GeneratePattern_wrap: "\<exists>c. GeneratePattern tool inp = wrap tool c"
proof -
  have "\<exists>c. generateFilePattern t inp ''file_path'' = wrap t c" for t
    by (cases rule: generateFilePattern_cases [of t inp "''file_path''"]) auto
  moreover have "\<exists>c. generateBashPattern inp = wrap ''Bash'' c"
  proof (cases "str_field ''command'' inp")
    case None
    then show ?thesis using generateBashPattern_wild [of inp] by blast
  next
    case (Some cmd)
    then show ?thesis
      using generateBashPattern_wrap [of inp cmd] generateBashPattern_wild [of inp]
      by (cases "fields cmd") blast+
  qed
  ultimately show ?thesis
    by (auto simp: GeneratePattern_def) (auto simp: wrap_def)
qed

text \<open>Nothing but the request's own tool name opens a generated pattern.\<close>

lemma wrap_prefix_tool:
  assumes "has_prefix (t @ ''('') (wrap tool c)" "CHR ''('' \<notin> set tool"
  shows "CHR ''('' \<notin> set t \<longrightarrow> t = tool"
proof
  assume nt: "CHR ''('' \<notin> set t"
  obtain r where r: "tool @ CHR ''('' # c @ '')'' = t @ CHR ''('' # r"
    using assms(1) by (auto simp: has_prefix_iff wrap_def)
  have "takeWhile (\<lambda>x. x \<noteq> CHR ''('') (tool @ CHR ''('' # c @ '')'') = tool"
    using assms(2) by (subst takeWhile_append2) auto
  moreover have "takeWhile (\<lambda>x. x \<noteq> CHR ''('') (t @ CHR ''('' # r) = t"
    using nt by (subst takeWhile_append2) auto
  ultimately show "t = tool" using r by simp
qed

lemma matchFilePattern_own:
  assumes path: "str_field ''file_path'' inp = Some path" "path \<noteq> []"
    and star: "\<not> has_prefix ''*'' (path_dir path)"
    and c: "c = ''*'' @ path_ext path \<or> c = path_dir path @ ''/*''"
  shows "matchFilePattern c inp"
  using c
proof
  assume "c = ''*'' @ path_ext path"
  then show ?thesis
    using path path_ext_suffix trim_prefix_append [of "''*''" "path_ext path"]
    by (simp add: matchFilePattern_def)
next
  assume c: "c = path_dir path @ ''/*''"
  have "\<not> has_prefix ''*'' c"
    using star unfolding c by (cases "path_dir path") (auto simp: has_prefix_def)
  moreover have "has_suffix ''/*'' c" "trim_suffix ''/*'' c = path_dir path"
    unfolding c by (simp_all only: str_laws)
  ultimately show ?thesis
    using path by (simp add: matchFilePattern_def)
qed

section \<open>Properties\<close>

text \<open>
  C14: the pattern generated from a request matches that request again, for every tool and every
  input, as long as the directory of the file, if it names one, does not begin with a star: such an
  approval stored for the session answers the request it was given for.
\<close>

theorem GeneratePattern_matches_own:
  assumes "\<And>path. str_field ''file_path'' inp = Some path \<Longrightarrow> \<not> has_prefix ''*'' (path_dir path)"
  shows "MatchPattern (GeneratePattern tool inp) tool inp"
proof -
  have filed: "MatchPattern (generateFilePattern t inp ''file_path'') t inp"
    if "t \<in> {''Write'', ''Edit'', ''Read''}" for t
    using that assms
    by (cases rule: generateFilePattern_cases [of t inp "''file_path''"])
       (auto simp: MatchPattern_wrap intro!: matchFilePattern_own)
  have bash: "MatchPattern (generateBashPattern inp) ''Bash'' inp"
  proof (cases "\<exists>cmd b rest. str_field ''command'' inp = Some cmd \<and> fields cmd = b # rest")
    case True
    then obtain cmd b rest where cmd: "str_field ''command'' inp = Some cmd" "fields cmd = b # rest"
      by blast
    have "cmd \<noteq> []" using cmd(2) by (auto simp: fields_def)
    moreover have "\<exists>more. b # rest = bash_key (b # rest) @ more"
      by (cases rest) (auto simp: bash_key_def)
    ultimately show ?thesis
      unfolding generateBashPattern_wrap [OF cmd] MatchPattern_wrap matchBashPattern_prefix [OF cmd(1)]
      by (simp add: fields_bash_key [OF cmd(2)] cmd(2))
  next
    case False
    then have "str_field ''command'' inp = None \<or>
        (\<exists>cmd. str_field ''command'' inp = Some cmd \<and> fields cmd = [])"
      by (metis list.exhaust option.exhaust)
    then show ?thesis
      by (simp add: generateBashPattern_wild MatchPattern_wrap)
  qed
  have "MatchPattern (wrap tool ''*'') tool inp"
    by (simp add: MatchPattern_wrap)
  then have other: "MatchPattern (tool @ ''(*)'') tool inp"
    by (simp add: wrap_def)
  show ?thesis
    using filed bash other by (auto simp: GeneratePattern_def)
qed

theorem GeneratePattern_matches_own_witness:
  "MatchPattern (GeneratePattern ''Write'' [(''file_path'', JStr ''/srv/app/Makefile'')]) ''Write''
     [(''file_path'', JStr ''/srv/app/Makefile'')]"
proof (rule GeneratePattern_matches_own)
  fix path
  assume "str_field ''file_path'' [(''file_path'', JStr ''/srv/app/Makefile'')] = Some path"
  then have "path = ''/srv/app/Makefile''" by (simp add: str_field_def)
  moreover have "path_dir ''/srv/app/Makefile'' = ''/srv/app''" by code_simp
  ultimately show "\<not> has_prefix ''*'' (path_dir path)" by (simp add: has_prefix_def)
qed

text \<open>
  what a remembered command approval covers. A pattern generated from a shell command matches
  another command exactly when that command is nonempty and starts with the same key: the same
  program, and for git, npm, yarn, pnpm and go also the same subcommand when there was one.
\<close>

theorem bash_pattern_covers:
  assumes "str_field ''command'' inp = Some cmd" "fields cmd = b # rest"
    and "str_field ''command'' inp' = Some cmd'"
  shows "MatchPattern (GeneratePattern ''Bash'' inp) ''Bash'' inp' \<longleftrightarrow>
    (\<exists>more. fields cmd' = bash_key (b # rest) @ more)"
proof -
  have "bash_key (b # rest) \<noteq> []"
    by (cases rest) (auto simp: bash_key_def)
  then have "cmd' \<noteq> []" if "fields cmd' = bash_key (b # rest) @ more" for more
    using that by (auto simp: fields_def)
  moreover have "join '' '' (bash_key (b # rest)) @ '':*'' \<noteq> ''*''"
    by (cases "join '' '' (bash_key (b # rest))") auto
  ultimately show ?thesis
    using matchBashPattern_prefix [OF assms(3)] fields_bash_key [OF assms(2)]
    by (auto simp: GeneratePattern_def generateBashPattern_wrap [OF assms(1,2)] MatchPattern_wrap)
qed

theorem bash_pattern_covers_witness:
  "MatchPattern (GeneratePattern ''Bash'' [(''command'', JStr ''git status -s'')]) ''Bash''
     [(''command'', JStr ''git push'')] \<longleftrightarrow>
    (\<exists>more. fields ''git push'' = bash_key [''git'', ''status'', ''-s''] @ more)"
proof (rule bash_pattern_covers)
  show "str_field ''command'' [(''command'', JStr ''git status -s'')] = Some ''git status -s''"
    by (simp add: str_field_def)
  show "fields ''git status -s'' = [''git'', ''status'', ''-s'']"
    by code_simp
  show "str_field ''command'' [(''command'', JStr ''git push'')] = Some ''git push''"
    by (simp add: str_field_def)
qed

text \<open>
  an approval for one tool never answers a request of another tool: a pattern generated for a
  tool whose name has no opening bracket matches no request of a different such tool.
\<close>

theorem pattern_tool_isolation:
  assumes "CHR ''('' \<notin> set tool" "CHR ''('' \<notin> set tool'" "tool \<noteq> tool'"
  shows "\<not> MatchPattern (GeneratePattern tool inp) tool' inp'"
proof
  assume m: "MatchPattern (GeneratePattern tool inp) tool' inp'"
  obtain c where c: "GeneratePattern tool inp = wrap tool c"
    using GeneratePattern_wrap by blast
  from m have "has_prefix (tool' @ ''('') (wrap tool c)"
    by (auto simp: MatchPattern_def c split: if_splits)
  with assms show False
    using wrap_prefix_tool by blast
qed

theorem pattern_tool_isolation_witness:
  "\<not> MatchPattern (GeneratePattern ''Read'' []) ''Write'' [(''file_path'', JStr ''/etc/hosts'')]"
  by (rule pattern_tool_isolation) simp_all

text \<open>
  C13: a remembered directory approval is contained in its directory. When a pattern for an absolute
  directory that does not begin with a star matches a file request, the cleaned directory of that
  file extends the cleaned approved directory, whatever dots its path contains.
\<close>

theorem directory_pattern_contained:
  assumes "is_abs dir" "tool \<in> {''Write'', ''Edit'', ''Read''}"
    and "MatchPattern (wrap tool (dir @ ''/*'')) tool inp"
  shows "\<exists>path rest. str_field ''file_path'' inp = Some path \<and> is_abs (path_dir path) \<and>
    clean_comps (path_dir path) = clean_comps dir @ rest"
proof -
  have nostar: "\<not> has_prefix ''*'' (dir @ ''/*'')" and "dir @ ''/*'' \<noteq> ''*''"
    using assms(1) by (cases dir, auto simp: is_abs_def has_prefix_def)+
  with assms(2,3) have "matchFilePattern (dir @ ''/*'') inp"
    by (auto simp: MatchPattern_wrap)
  with nostar obtain path rel where "str_field ''file_path'' inp = Some path"
    "path_rel dir (path_dir path) = Some rel" "\<not> has_prefix ''..'' rel"
    by (auto simp: matchFilePattern_def str_laws simp del: append.simps
        split: option.splits if_splits)
  then show ?thesis
    using path_rel_contained assms(1) by blast
qed

theorem directory_pattern_contained_witness:
  "\<exists>path rest. str_field ''file_path'' [(''file_path'', JStr ''/srv/app/sub/../x/run'')] = Some path \<and>
     is_abs (path_dir path) \<and> clean_comps (path_dir path) = clean_comps ''/srv/app'' @ rest"
proof -
  have "is_abs ''/srv/app''" by (simp add: is_abs_def has_prefix_def)
  moreover have "MatchPattern (wrap ''Write'' (''/srv/app'' @ ''/*'')) ''Write''
      [(''file_path'', JStr ''/srv/app/sub/../x/run'')]"
    by code_simp
  ultimately show ?thesis
    using directory_pattern_contained [of "''/srv/app''" "''Write''"] by simp
qed

end
