(* ===== verification/Permission_Memory.thy ===== *)
theory Permission_Memory
  imports Permission_Pattern
begin

text \<open>
  \<open>internal/permission/memory.go\<close> and \<open>types.go\<close>: the session memory behind "Allow for Session" and
  the table of requests that wait for the phone.

  The maps behind \<open>mu\<close> and \<open>pendingMu\<close> are the fields of one state; an operation is one function on
  it, with the instant its \<open>time.Now()\<close> reads. Each method that holds one lock throughout is atomic;
  \<open>RespondToRequest\<close> takes the locks one after the other and is composed of its critical sections. The
  response channels, buffered with one place, are a map from channel numbers to their buffers.

  The locale \<open>pending_table\<close> extends the contract of a table whose entries are taken at most once; the
  session memory is shown to implement a plain map from patterns to decisions per session.
\<close>

section \<open>Types\<close>

type_synonym decision = string

definition DecisionAllow :: decision where "DecisionAllow = ''allow''"
definition DecisionDeny :: decision where "DecisionDeny = ''deny''"
definition ScopeOnce :: string where "ScopeOnce = ''once''"
definition ScopeSession :: string where "ScopeSession = ''session''"

record perm_request =
  ID :: string
  SessionID :: string
  WorkspaceID :: string
  ToolName :: string
  ToolInput :: tool_input
  ToolUseID :: string
  CreatedAt :: time
  ResponseChan :: nat

record perm_response =
  Decision :: decision
  Scope :: string
  Pattern :: string
  UpdatedInput :: "tool_input option"
  Note :: string
  Interrupt :: bool

record stored_decision =
  sd_pattern :: string
  sd_decision :: decision
  sd_created :: time
  UsageCount :: int

record session_memory =
  mem_session :: string
  mem_workspace :: string
  Decisions :: "(string, stored_decision) gomap"
  mem_created :: time
  LastAccess :: time

record session_config =
  Enabled :: bool
  TTL :: time
  MaxPatterns :: int

record memory_manager =
  sessions :: "(string, session_memory) gomap"
  config :: session_config
  pending :: "(string, perm_request) gomap"
  chans :: "(nat, perm_response list) gomap"

definition DefaultConfig :: session_config where
  "DefaultConfig = \<lparr>Enabled = True, TTL = hour, MaxPatterns = 100\<rparr>"

definition NewMemoryManager :: "session_config \<Rightarrow> memory_manager" where
  "NewMemoryManager cfg = \<lparr>sessions = [], config = cfg, pending = [], chans = []\<rparr>"

section \<open>Session memory\<close>

definition cleanup :: "time \<Rightarrow> memory_manager \<Rightarrow> memory_manager" where
  "cleanup now m = m\<lparr>sessions := mdel_if (\<lambda>_ mem. now - LastAccess mem > TTL (config m)) (sessions m)\<rparr>"

definition new_session :: "string \<Rightarrow> string \<Rightarrow> time \<Rightarrow> session_memory" where
  "new_session sid wid now =
     \<lparr>mem_session = sid, mem_workspace = wid, Decisions = [], mem_created = now, LastAccess = now\<rparr>"

definition GetOrCreateSession :: "string \<Rightarrow> string \<Rightarrow> time \<Rightarrow> memory_manager \<Rightarrow> session_memory \<times> memory_manager" where
  "GetOrCreateSession sid wid now m =
     (let mem = (case mget (sessions m) sid of
            None \<Rightarrow> new_session sid wid now
          | Some mem \<Rightarrow> mem\<lparr>LastAccess := now\<rparr>)
      in (mem, m\<lparr>sessions := mput sid mem (sessions m)\<rparr>))"

definition use :: "stored_decision \<Rightarrow> stored_decision" where
  "use d = d\<lparr>UsageCount := UsageCount d + 1\<rparr>"

text \<open>The loop over the stored patterns in the order \<open>range\<close> visits them.\<close>

fun wildcard_loop :: "string \<Rightarrow> tool_input \<Rightarrow> (string \<times> stored_decision) list \<Rightarrow> (string \<times> stored_decision) option" where
  "wildcard_loop tool inp [] = None"
| "wildcard_loop tool inp ((p, d) # ds) =
     (if MatchPattern p tool inp then Some (p, use d) else wildcard_loop tool inp ds)"

definition CheckMemory ::
  "string list \<Rightarrow> string \<Rightarrow> string \<Rightarrow> tool_input \<Rightarrow> time \<Rightarrow> memory_manager \<Rightarrow> stored_decision option \<times> memory_manager" where
  "CheckMemory order sid tool inp now m =
     (let pattern = GeneratePattern tool inp in
      case mget (sessions m) sid of
        None \<Rightarrow> (None, m)
      | Some mem0 \<Rightarrow>
          (let mem = mem0\<lparr>LastAccess := now\<rparr> in
           case mget (Decisions mem) pattern of
             Some d \<Rightarrow>
               (Some (use d),
                m\<lparr>sessions := mput sid (mem\<lparr>Decisions := mput pattern (use d) (Decisions mem)\<rparr>) (sessions m)\<rparr>)
           | None \<Rightarrow>
               (case wildcard_loop tool inp (range_entries order (Decisions mem)) of
                  Some (p, d) \<Rightarrow>
                    (Some d, m\<lparr>sessions := mput sid (mem\<lparr>Decisions := mput p d (Decisions mem)\<rparr>) (sessions m)\<rparr>)
                | None \<Rightarrow> (None, m\<lparr>sessions := mput sid mem (sessions m)\<rparr>))))"

definition make_room :: "string list \<Rightarrow> int \<Rightarrow> (string, stored_decision) gomap \<Rightarrow> (string, stored_decision) gomap" where
  "make_room order limit ds =
     (if int (length ds) \<ge> limit then
        (let oldest = oldest_loop sd_created (range_entries order ds) [] zero_time
         in if oldest \<noteq> [] then mdel oldest ds else ds)
      else ds)"

definition StoreDecision ::
  "string list \<Rightarrow> string \<Rightarrow> string \<Rightarrow> string \<Rightarrow> decision \<Rightarrow> time \<Rightarrow> memory_manager \<Rightarrow> memory_manager" where
  "StoreDecision order sid wid pattern dec now m =
     (let mem = (case mget (sessions m) sid of None \<Rightarrow> new_session sid wid now | Some mem \<Rightarrow> mem);
          ds = make_room order (MaxPatterns (config m)) (Decisions mem);
          d = \<lparr>sd_pattern = pattern, sd_decision = dec, sd_created = now, UsageCount = 1\<rparr>
      in m\<lparr>sessions := mput sid (mem\<lparr>Decisions := mput pattern d ds, LastAccess := now\<rparr>) (sessions m)\<rparr>)"

definition ClearSession :: "string \<Rightarrow> memory_manager \<Rightarrow> memory_manager" where
  "ClearSession sid m =
     (if mem_key sid (sessions m) then m\<lparr>sessions := mdel sid (sessions m)\<rparr> else m)"

definition ClearWorkspace :: "string \<Rightarrow> memory_manager \<Rightarrow> memory_manager" where
  "ClearWorkspace wid m = m\<lparr>sessions := mdel_if (\<lambda>_ mem. mem_workspace mem = wid) (sessions m)\<rparr>"

section \<open>Channels\<close>

definition chan_buf :: "nat \<Rightarrow> memory_manager \<Rightarrow> perm_response list" where
  "chan_buf c m = (case mget (chans m) c of None \<Rightarrow> [] | Some b \<Rightarrow> b)"

text \<open>The non-blocking send of a \<open>select\<close> with a default branch.\<close>

definition chan_send :: "nat \<Rightarrow> perm_response \<Rightarrow> memory_manager \<Rightarrow> bool \<times> memory_manager" where
  "chan_send c r m =
     (if length (chan_buf c m) < 1 then (True, m\<lparr>chans := mput c (chan_buf c m @ [r]) (chans m)\<rparr>)
      else (False, m))"

definition chan_recv :: "nat \<Rightarrow> memory_manager \<Rightarrow> perm_response option \<times> memory_manager" where
  "chan_recv c m =
     (case chan_buf c m of
        [] \<Rightarrow> (None, m)
      | r # b \<Rightarrow> (Some r, m\<lparr>chans := mput c b (chans m)\<rparr>))"

section \<open>Pending requests\<close>

definition AddPendingRequest :: "perm_request \<Rightarrow> memory_manager \<Rightarrow> memory_manager" where
  "AddPendingRequest req m = m\<lparr>pending := mput (ToolUseID req) req (pending m)\<rparr>"

definition GetPendingRequest :: "string \<Rightarrow> memory_manager \<Rightarrow> perm_request option" where
  "GetPendingRequest tid m = mget (pending m) tid"

definition RemovePendingRequest :: "string \<Rightarrow> memory_manager \<Rightarrow> memory_manager" where
  "RemovePendingRequest tid m =
     (case mget (pending m) tid of
        None \<Rightarrow> m
      | Some req \<Rightarrow>
          (let m' = snd (chan_recv (ResponseChan req) m) in m'\<lparr>pending := mdel tid (pending m')\<rparr>))"

definition GetAndRemovePendingRequest :: "string \<Rightarrow> memory_manager \<Rightarrow> perm_request option \<times> memory_manager" where
  "GetAndRemovePendingRequest tid m =
     (case mget (pending m) tid of
        None \<Rightarrow> (None, m)
      | Some req \<Rightarrow> (Some req, m\<lparr>pending := mdel tid (pending m)\<rparr>))"

definition RespondToRequest ::
  "string list \<Rightarrow> string \<Rightarrow> perm_response \<Rightarrow> time \<Rightarrow> memory_manager \<Rightarrow> bool \<times> memory_manager" where
  "RespondToRequest order tid resp now m =
     (case GetAndRemovePendingRequest tid m of
        (None, m1) \<Rightarrow> (False, m1)
      | (Some req, m1) \<Rightarrow>
          (let m2 = (if Scope resp = ScopeSession \<and> Pattern resp \<noteq> []
                     then StoreDecision order (SessionID req) (WorkspaceID req) (Pattern resp) (Decision resp) now m1
                     else m1)
           in chan_send (ResponseChan req) resp m2))"

definition ListPendingRequests :: "string list \<Rightarrow> memory_manager \<Rightarrow> perm_request list" where
  "ListPendingRequests order m = map snd (range_entries order (pending m))"

record session_stats =
  active_sessions :: nat
  total_patterns :: nat
  pending_requests :: nat

definition GetSessionStats :: "memory_manager \<Rightarrow> session_stats" where
  "GetSessionStats m =
     \<lparr>active_sessions = length (sessions m),
      total_patterns = sum_list (map (\<lambda>(_, mem). length (Decisions mem)) (sessions m)),
      pending_requests = length (pending m)\<rparr>"

section \<open>Requests are handed out once\<close>

locale pending_table = taken_once look tk
  for look :: "'s \<Rightarrow> string \<Rightarrow> 'r option" and tk :: "string \<Rightarrow> 's \<Rightarrow> 'r option \<times> 's" +
  fixes add :: "'r \<Rightarrow> 's \<Rightarrow> 's"
    and key :: "'r \<Rightarrow> string"
  assumes look_add: "look (add r s) k = (if k = key r then Some r else look s k)"
begin

lemma take_added: "fst (tk (key r) (add r s)) = Some r"
  by (simp add: take_result look_add)

lemma take_added_other: "k \<noteq> key r \<Longrightarrow> fst (tk k (add r s)) = fst (tk k s)"
  by (simp add: take_result look_add)

end

lemma GetAndRemove_result: "fst (GetAndRemovePendingRequest k m) = mget (pending m) k"
  by (simp add: GetAndRemovePendingRequest_def split: option.split)

lemma GetAndRemove_pending:
  "mget (pending (snd (GetAndRemovePendingRequest k m))) k' = (if k' = k then None else mget (pending m) k')"
  by (simp add: GetAndRemovePendingRequest_def split: option.split)

interpretation pt: pending_table "\<lambda>m k. GetPendingRequest k m" GetAndRemovePendingRequest AddPendingRequest ToolUseID
  by unfold_locales
    (simp_all add: GetPendingRequest_def AddPendingRequest_def GetAndRemove_result GetAndRemove_pending)

text \<open>
  One pending permission request has one winner: however many answers from however many devices
  arrive and in whatever order, each request is handed out at most once, so at most one of them decides it.
\<close>

theorem pending_one_winner: "distinct (map fst (fst (run_takes GetAndRemovePendingRequest tids m)))"
  by (rule pt.takes_one_winner)

section \<open>The invariant of the manager\<close>

definition session_ok :: "int \<Rightarrow> string \<Rightarrow> session_memory \<Rightarrow> bool" where
  "session_ok limit sid mem \<longleftrightarrow>
     mem_session mem = sid \<and> wf_map (Decisions mem) \<and>
     (\<forall>(p, d) \<in> set (Decisions mem). p \<noteq> [] \<and> sd_pattern d = p \<and> 1 \<le> UsageCount d) \<and>
     int (length (Decisions mem)) \<le> max 1 limit"

definition manager_ok :: "memory_manager \<Rightarrow> bool" where
  "manager_ok m \<longleftrightarrow>
     wf_map (sessions m) \<and> wf_map (pending m) \<and>
     (\<forall>(sid, mem) \<in> set (sessions m). session_ok (MaxPatterns (config m)) sid mem) \<and>
     (\<forall>(tid, req) \<in> set (pending m). ToolUseID req = tid) \<and>
     (\<forall>(c, b) \<in> set (chans m). length b \<le> 1)"

lemma set_mput_subset: "set (mput k v m) \<subseteq> insert (k, v) (set m)"
  by (induction m) auto

lemma set_mdel_subset: "set (mdel k m) \<subseteq> set m"
  by (auto simp: mdel_eq_filter)

lemma manager_ok_session:
  "manager_ok m \<Longrightarrow> mget (sessions m) sid = Some mem \<Longrightarrow> session_ok (MaxPatterns (config m)) sid mem"
  by (force simp: manager_ok_def dest: mget_in_set)

lemma manager_ok_put:
  "manager_ok m \<Longrightarrow> session_ok (MaxPatterns (config m)) sid mem \<Longrightarrow>
    manager_ok (m\<lparr>sessions := mput sid mem (sessions m)\<rparr>)"
  using set_mput_subset [of sid mem "sessions m"] by (auto simp: manager_ok_def dest!: subsetD)

lemma session_ok_touch [simp]: "session_ok l sid (mem\<lparr>LastAccess := t\<rparr>) = session_ok l sid mem"
  by (simp add: session_ok_def)

lemma session_ok_new: "session_ok l sid (new_session sid wid now)"
  by (simp add: session_ok_def new_session_def)

lemma session_ok_use:
  assumes "session_ok l sid mem" "mget (Decisions mem) p = Some d"
  shows "session_ok l sid (mem\<lparr>Decisions := mput p (use d) (Decisions mem)\<rparr>)"
proof -
  have "(p, d) \<in> set (Decisions mem)" using assms(2) by (rule mget_in_set)
  then have "p \<noteq> []" "sd_pattern d = p" "1 \<le> UsageCount d"
    using assms(1) by (auto simp: session_ok_def)
  then show ?thesis
    using assms set_mput_subset [of p "use d" "Decisions mem"]
    by (auto simp: session_ok_def length_mput use_def dest!: subsetD)
qed

lemma wildcard_loop_Some:
  "wildcard_loop tool inp ds = Some (p, d) \<Longrightarrow>
    \<exists>d0. (p, d0) \<in> set ds \<and> d = use d0 \<and> MatchPattern p tool inp"
  by (induction tool inp ds rule: wildcard_loop.induct) (auto split: if_splits)

lemma wildcard_loop_None:
  "wildcard_loop tool inp ds = None \<longleftrightarrow> (\<forall>(p, d) \<in> set ds. \<not> MatchPattern p tool inp)"
  by (induction tool inp ds rule: wildcard_loop.induct) auto

lemma wildcard_entry:
  assumes "wildcard_loop tool inp (range_entries order ds) = Some (p, d)"
  obtains d0 where "mget ds p = Some d0" "d = use d0" "MatchPattern p tool inp"
proof -
  obtain d0 where d0: "(p, d0) \<in> set (range_entries order ds)" "d = use d0" "MatchPattern p tool inp"
    using wildcard_loop_Some [OF assms] by blast
  then have "mget ds p = Some d0" by (simp add: set_range_entries_mget)
  then show thesis using d0(2,3) by (rule that)
qed

text \<open>\<open>CheckMemory\<close> either leaves the memory of a session alone or counts the use of one entry.\<close>

lemma CheckMemory_cases:
  obtains (unknown) "mget (sessions m) sid = None" "CheckMemory order sid tool inp now m = (None, m)"
  | (none) mem where "mget (sessions m) sid = Some mem"
      "mget (Decisions mem) (GeneratePattern tool inp) = None"
      "wildcard_loop tool inp (range_entries order (Decisions mem)) = None"
      "CheckMemory order sid tool inp now m =
         (None, m\<lparr>sessions := mput sid (mem\<lparr>LastAccess := now\<rparr>) (sessions m)\<rparr>)"
  | (found) mem p d where "mget (sessions m) sid = Some mem" "mget (Decisions mem) p = Some d"
      "p = GeneratePattern tool inp \<or>
         mget (Decisions mem) (GeneratePattern tool inp) = None \<and> MatchPattern p tool inp"
      "CheckMemory order sid tool inp now m =
         (Some (use d), m\<lparr>sessions := mput sid
            (mem\<lparr>LastAccess := now, Decisions := mput p (use d) (Decisions mem)\<rparr>) (sessions m)\<rparr>)"
proof (cases "mget (sessions m) sid")
  case None
  then show thesis using unknown by (simp add: CheckMemory_def)
next
  case mem: (Some mem)
  show thesis
  proof (cases "mget (Decisions mem) (GeneratePattern tool inp)")
    case (Some d)
    then show thesis using found [OF mem Some] mem by (simp add: CheckMemory_def)
  next
    case pat: None
    show thesis
    proof (cases "wildcard_loop tool inp (range_entries order (Decisions mem))")
      case None
      then show thesis using none [OF mem pat] mem pat by (simp add: CheckMemory_def)
    next
      case (Some pd)
      obtain p d where pd: "pd = (p, d)" by (cases pd)
      obtain d0 where "mget (Decisions mem) p = Some d0" "d = use d0" "MatchPattern p tool inp"
        using wildcard_entry Some unfolding pd by metis
      then show thesis using found [OF mem, of p d0] mem pat Some by (simp add: CheckMemory_def pd)
    qed
  qed
qed

lemma CheckMemory_ok [invs]: "manager_ok m \<Longrightarrow> manager_ok (snd (CheckMemory order sid tool inp now m))"
proof (cases rule: CheckMemory_cases [of m sid order tool inp now])
  case (found mem p d)
  assume "manager_ok m"
  then have "session_ok (MaxPatterns (config m)) sid (mem\<lparr>LastAccess := now\<rparr>)"
    using found(1) manager_ok_session by simp
  then have "session_ok (MaxPatterns (config m)) sid
      (mem\<lparr>LastAccess := now, Decisions := mput p (use d) (Decisions mem)\<rparr>)"
    using session_ok_use [of _ sid "mem\<lparr>LastAccess := now\<rparr>" p d] found(2) by simp
  then show ?thesis using found(4) \<open>manager_ok m\<close> manager_ok_put by simp
qed (simp_all add: manager_ok_put manager_ok_session)

text \<open>Making room removes at most one entry, an oldest one, and at the limit it does remove one.\<close>

lemma make_room_subset: "set (make_room order l ds) \<subseteq> set ds"
  by (auto simp: make_room_def Let_def mdel_eq_filter)

lemma wf_make_room [simp, invs]: "wf_map ds \<Longrightarrow> wf_map (make_room order l ds)"
  by (simp add: make_room_def Let_def)

lemma oldest_entry:
  assumes "wf_map ds" "valid_order order ds" "ds \<noteq> []" "[] \<notin> fst ` set ds"
  obtains p d where "oldest_loop sd_created (range_entries order ds) [] zero_time = p" "p \<noteq> []"
    "mget ds p = Some d" "\<And>k d'. mget ds k = Some d' \<Longrightarrow> sd_created d \<le> sd_created d'"
proof -
  let ?es = "range_entries order ds" and ?p = "oldest_loop sd_created (range_entries order ds) [] zero_time"
  have es: "set ?es = set ds" using assms(1,2) by (simp add: set_range_entries)
  then have ne: "?es \<noteq> []" "[] \<notin> fst ` set ?es" using assms(3,4) by auto
  obtain d where d: "(?p, d) \<in> set ?es" "\<And>k d'. (k, d') \<in> set ?es \<Longrightarrow> sd_created d \<le> sd_created d'"
    using oldest_loop_min [OF ne, of sd_created zero_time] by blast
  have "?p \<noteq> []" using ne by (rule oldest_loop_nonempty)
  moreover have "mget ds ?p = Some d" using d(1) es assms(1) by (simp add: mget_iff_in_set)
  moreover have "sd_created d \<le> sd_created d'" if "mget ds k = Some d'" for k d'
    using d(2) that es assms(1) by (simp add: mget_iff_in_set)
  ultimately show thesis using that by blast
qed

lemma make_room_length:
  assumes "wf_map ds" "valid_order order ds" "[] \<notin> fst ` set ds" "int (length ds) \<le> max 1 l"
  shows "int (length (mput k v (make_room order l ds))) \<le> max 1 l"
proof (cases "int (length ds) \<ge> l \<and> ds \<noteq> []")
  case True
  then obtain p d where p: "oldest_loop sd_created (range_entries order ds) [] zero_time = p" "p \<noteq> []"
    "mget ds p = Some d"
    using oldest_entry [OF assms(1,2) _ assms(3)] by metis
  then have "make_room order l ds = mdel p ds" using True by (simp add: make_room_def)
  then show ?thesis
    using gm.bounded_insert_over [OF assms(1), of p k v] p(3) assms(4) by simp
next
  case False
  have "make_room order l ds = ds"
  proof (cases "ds = []")
    case True
    then have "range_entries order ds = []" by (auto simp: range_entries_def)
    then show ?thesis by (simp add: make_room_def)
  qed (use False in \<open>simp add: make_room_def\<close>)
  then show ?thesis using False by (auto simp: length_mput)
qed

text \<open>The patterns a session has; \<open>StoreDecision\<close> visits them in some order.\<close>

definition patterns_of :: "string \<Rightarrow> memory_manager \<Rightarrow> (string, stored_decision) gomap" where
  "patterns_of sid m = (case mget (sessions m) sid of None \<Rightarrow> [] | Some mem \<Rightarrow> Decisions mem)"

lemma StoreDecision_ok [invs]:
  assumes "manager_ok m" "pattern \<noteq> []" "valid_order order (patterns_of sid m)"
  shows "manager_ok (StoreDecision order sid wid pattern dec now m)"
proof -
  let ?l = "MaxPatterns (config m)"
  define mem where "mem = (case mget (sessions m) sid of None \<Rightarrow> new_session sid wid now | Some mem \<Rightarrow> mem)"
  have ok: "session_ok ?l sid mem" and ds: "Decisions mem = patterns_of sid m"
    using manager_ok_session [OF assms(1), of sid] session_ok_new [of ?l sid wid now]
    by (auto simp: mem_def patterns_of_def new_session_def split: option.split)
  let ?ds = "make_room order ?l (Decisions mem)"
  let ?d = "\<lparr>sd_pattern = pattern, sd_decision = dec, sd_created = now, UsageCount = 1\<rparr>"
  have "[] \<notin> fst ` set (Decisions mem)" using ok by (auto simp: session_ok_def)
  then have len: "int (length (mput pattern ?d ?ds)) \<le> max 1 ?l"
    using make_room_length [of "Decisions mem" order ?l pattern ?d] ok assms(3) ds
    by (simp add: session_ok_def)
  have "set (mput pattern ?d ?ds) \<subseteq> insert (pattern, ?d) (set (Decisions mem))"
    using set_mput_subset [of pattern ?d ?ds] make_room_subset [of order ?l "Decisions mem"] by blast
  then have "session_ok ?l sid (mem\<lparr>Decisions := mput pattern ?d ?ds, LastAccess := now\<rparr>)"
    using ok len assms(2) by (auto simp: session_ok_def dest!: subsetD)
  then show ?thesis
    using manager_ok_put [OF assms(1)] by (simp add: StoreDecision_def mem_def Let_def)
qed

lemma cleanup_ok [invs]: "manager_ok m \<Longrightarrow> manager_ok (cleanup now m)"
  by (auto simp: manager_ok_def cleanup_def)

lemma GetOrCreateSession_ok [invs]: "manager_ok m \<Longrightarrow> manager_ok (snd (GetOrCreateSession sid wid now m))"
  by (auto simp: GetOrCreateSession_def Let_def session_ok_new manager_ok_session intro!: manager_ok_put
      split: option.split)

lemma ClearSession_ok [invs]: "manager_ok m \<Longrightarrow> manager_ok (ClearSession sid m)"
  using set_mdel_subset [of sid "sessions m"] by (auto simp: manager_ok_def ClearSession_def)

lemma ClearWorkspace_ok [invs]: "manager_ok m \<Longrightarrow> manager_ok (ClearWorkspace wid m)"
  by (auto simp: manager_ok_def ClearWorkspace_def)

lemma AddPendingRequest_ok [invs]: "manager_ok m \<Longrightarrow> manager_ok (AddPendingRequest req m)"
  using set_mput_subset [of "ToolUseID req" req "pending m"]
  by (auto simp: manager_ok_def AddPendingRequest_def dest!: subsetD)

lemma chan_buf_short: "manager_ok m \<Longrightarrow> length (chan_buf c m) \<le> 1"
  by (auto simp: chan_buf_def manager_ok_def split: option.split dest!: mget_in_set)

lemma manager_ok_chan: "manager_ok m \<Longrightarrow> length b \<le> 1 \<Longrightarrow> manager_ok (m\<lparr>chans := mput c b (chans m)\<rparr>)"
  using set_mput_subset [of c b "chans m"] by (auto simp: manager_ok_def dest!: subsetD)

lemma chan_recv_ok [invs]: "manager_ok m \<Longrightarrow> manager_ok (snd (chan_recv c m))"
  using chan_buf_short [of m c] by (auto simp: chan_recv_def intro!: manager_ok_chan split: list.split)

lemma chan_send_ok [invs]: "manager_ok m \<Longrightarrow> manager_ok (snd (chan_send c r m))"
  by (auto simp: chan_send_def intro!: manager_ok_chan)

lemma manager_ok_unpend: "manager_ok m \<Longrightarrow> manager_ok (m\<lparr>pending := mdel tid (pending m)\<rparr>)"
  using set_mdel_subset [of tid "pending m"] by (auto simp: manager_ok_def)

lemma RemovePendingRequest_ok [invs]: "manager_ok m \<Longrightarrow> manager_ok (RemovePendingRequest tid m)"
  by (simp add: RemovePendingRequest_def Let_def manager_ok_unpend chan_recv_ok split: option.split)

lemma GetAndRemove_ok [invs]: "manager_ok m \<Longrightarrow> manager_ok (snd (GetAndRemovePendingRequest tid m))"
  by (simp add: GetAndRemovePendingRequest_def manager_ok_unpend split: option.split)

lemma patterns_of_taken [simp]:
  "patterns_of sid (snd (GetAndRemovePendingRequest tid m)) = patterns_of sid m"
  by (simp add: patterns_of_def GetAndRemovePendingRequest_def split: option.split)

lemma RespondToRequest_ok [invs]:
  assumes "manager_ok m" "\<And>req. mget (pending m) tid = Some req \<Longrightarrow> valid_order order (patterns_of (SessionID req) m)"
  shows "manager_ok (snd (RespondToRequest order tid resp now m))"
proof (cases "mget (pending m) tid")
  case None
  then show ?thesis using assms by (simp add: RespondToRequest_def GetAndRemovePendingRequest_def)
next
  case (Some req)
  let ?m = "m\<lparr>pending := mdel tid (pending m)\<rparr>"
  have "manager_ok ?m" using assms(1) by (rule manager_ok_unpend)
  moreover have "valid_order order (patterns_of (SessionID req) ?m)"
    using assms(2) [OF Some] by (simp add: patterns_of_def)
  ultimately show ?thesis
    using Some by (simp add: RespondToRequest_def GetAndRemovePendingRequest_def chan_send_ok StoreDecision_ok)
qed

section \<open>Every history keeps the invariant\<close>

datatype manager_op =
    Check "string list" string string tool_input time
  | Store "string list" string string string decision time
  | Touch string string time
  | Expire time
  | Drop_session string
  | Drop_workspace string
  | Add_pending perm_request
  | Remove_pending string
  | Take_pending string
  | Answer "string list" string perm_response time

fun manager_exec :: "manager_op \<Rightarrow> memory_manager \<Rightarrow> memory_manager" where
  "manager_exec (Check order sid tool inp now) m = snd (CheckMemory order sid tool inp now m)"
| "manager_exec (Store order sid wid pattern dec now) m = StoreDecision order sid wid pattern dec now m"
| "manager_exec (Touch sid wid now) m = snd (GetOrCreateSession sid wid now m)"
| "manager_exec (Expire now) m = cleanup now m"
| "manager_exec (Drop_session sid) m = ClearSession sid m"
| "manager_exec (Drop_workspace wid) m = ClearWorkspace wid m"
| "manager_exec (Add_pending req) m = AddPendingRequest req m"
| "manager_exec (Remove_pending tid) m = RemovePendingRequest tid m"
| "manager_exec (Take_pending tid) m = snd (GetAndRemovePendingRequest tid m)"
| "manager_exec (Answer order tid resp now) m = snd (RespondToRequest order tid resp now m)"

text \<open>
  An operation is possible when its order is an iteration order of the map it visits; both callers of
  \<open>StoreDecision\<close> check that the pattern is not empty.
\<close>

fun manager_can :: "manager_op \<Rightarrow> memory_manager \<Rightarrow> bool" where
  "manager_can (Check order sid tool inp now) m = valid_order order (patterns_of sid m)"
| "manager_can (Store order sid wid pattern dec now) m = (pattern \<noteq> [] \<and> valid_order order (patterns_of sid m))"
| "manager_can (Answer order tid resp now) m =
     (case mget (pending m) tid of None \<Rightarrow> True | Some req \<Rightarrow> valid_order order (patterns_of (SessionID req) m))"
| "manager_can _ m = True"

inductive manager_reach :: "session_config \<Rightarrow> memory_manager \<Rightarrow> bool" for cfg where
  start: "manager_reach cfg (NewMemoryManager cfg)"
| step: "manager_reach cfg m \<Longrightarrow> manager_can op m \<Longrightarrow> manager_reach cfg (manager_exec op m)"

lemma CheckMemory_config [simp]: "config (snd (CheckMemory order sid tool inp now m)) = config m"
  by (cases rule: CheckMemory_cases [of m sid order tool inp now]) simp_all

lemma chan_config [simp]: "config (snd (chan_recv c m)) = config m" "config (snd (chan_send c r m)) = config m"
  by (simp_all add: chan_recv_def chan_send_def split: list.split)

lemma StoreDecision_config [simp]: "config (StoreDecision order sid wid p dec now m) = config m"
  by (simp add: StoreDecision_def Let_def)

lemma manager_exec_config: "config (manager_exec op m) = config m"
  by (cases op)
     (simp_all add: GetOrCreateSession_def cleanup_def ClearSession_def ClearWorkspace_def AddPendingRequest_def
       RemovePendingRequest_def GetAndRemovePendingRequest_def RespondToRequest_def Let_def split: option.split prod.split)

lemma manager_exec_ok:
  assumes "manager_ok m" "manager_can op m"
  shows "manager_ok (manager_exec op m)"
proof (cases op)
  case (Answer order tid resp now)
  then show ?thesis using assms by (auto intro!: RespondToRequest_ok)
qed (use assms in \<open>simp_all add: invs\<close>)

text \<open>
  C12: Memory safety of the permission memory: after any history of checks, decisions, expiries and answers,
  in every order the maps may be visited, no session remembers more than the configured number of patterns (one,
  for a limit below one), every entry is filed under its own pattern in its own session, every
  pending request under its own tool use, and no response channel holds more than its one place.
\<close>

theorem permission_memory_bounded:
  assumes "manager_reach cfg m"
  shows "config m = cfg \<and> manager_ok m \<and>
    (\<forall>sid. int (length (patterns_of sid m)) \<le> max 1 (MaxPatterns cfg))"
proof -
  have "config m = cfg \<and> manager_ok m"
    using assms
    by induction (auto simp: manager_exec_config manager_exec_ok, auto simp: NewMemoryManager_def manager_ok_def)
  moreover have "int (length (patterns_of sid m)) \<le> max 1 (MaxPatterns (config m))" if "manager_ok m" for sid
    using manager_ok_session [OF that, of sid]
    by (auto simp: patterns_of_def session_ok_def split: option.split)
  ultimately show ?thesis by simp
qed

definition sample_input :: tool_input where
  "sample_input = [(''command'', JStr ''git status'')]"

lemma permission_memory_bounded_witness:
  "let m = StoreDecision [] ''s'' ''w'' ''Bash(git status:*)'' DecisionAllow 5 (NewMemoryManager DefaultConfig)
   in config m = DefaultConfig \<and> manager_ok m \<and>
      (\<forall>sid. int (length (patterns_of sid m)) \<le> max 1 (MaxPatterns DefaultConfig))"
  unfolding Let_def
proof (rule permission_memory_bounded)
  have "manager_can (Store [] ''s'' ''w'' ''Bash(git status:*)'' DecisionAllow 5) (NewMemoryManager DefaultConfig)"
    by (simp add: patterns_of_def NewMemoryManager_def valid_order_def)
  from manager_reach.step [OF manager_reach.start this]
  show "manager_reach DefaultConfig
      (StoreDecision [] ''s'' ''w'' ''Bash(git status:*)'' DecisionAllow 5 (NewMemoryManager DefaultConfig))"
    by simp
qed

section \<open>The memory is a map from patterns to decisions\<close>

definition decision_map :: "memory_manager \<Rightarrow> string \<Rightarrow> string \<Rightarrow> decision option" where
  "decision_map m sid p = map_option sd_decision (mget (patterns_of sid m) p)"

lemma decision_map_CheckMemory: "decision_map (snd (CheckMemory order sid tool inp now m)) = decision_map m"
  by (cases rule: CheckMemory_cases [of m sid order tool inp now])
     (auto simp: decision_map_def patterns_of_def use_def fun_eq_iff)

lemma patterns_of_new [simp]: "patterns_of sid (NewMemoryManager cfg) = []" "config (NewMemoryManager cfg) = cfg"
  by (simp_all add: patterns_of_def NewMemoryManager_def)

lemma patterns_of_ok:
  assumes "manager_ok m"
  shows "wf_map (patterns_of sid m) \<and> [] \<notin> fst ` set (patterns_of sid m)"
proof (cases "mget (sessions m) sid")
  case (Some mem)
  then show ?thesis
    using manager_ok_session [OF assms Some] by (auto simp: patterns_of_def session_ok_def)
qed (simp add: patterns_of_def)

lemma patterns_of_StoreDecision:
  "patterns_of sid' (StoreDecision order sid wid p dec now m) =
    (if sid' = sid
     then mput p \<lparr>sd_pattern = p, sd_decision = dec, sd_created = now, UsageCount = 1\<rparr>
            (make_room order (MaxPatterns (config m)) (patterns_of sid m))
     else patterns_of sid' m)"
  by (simp add: patterns_of_def StoreDecision_def Let_def new_session_def split: option.split)

text \<open>
  What the phone decides for a session is what the next request gets: after \<open>StoreDecision\<close>
  under the pattern of a request, checking the memory for that request returns exactly this decision,
  whatever was stored before, at or below the limit.
\<close>

theorem stored_decision_is_found:
  "\<exists>d. fst (CheckMemory order' sid tool inp now'
        (StoreDecision order sid wid (GeneratePattern tool inp) dec now m)) = Some d \<and>
      sd_decision d = dec \<and> sd_pattern d = GeneratePattern tool inp \<and> UsageCount d = 2"
  by (simp add: CheckMemory_def StoreDecision_def Let_def use_def)

text \<open>
  C10: Checking the memory decides exactly by the stored patterns of the asking session: it answers
  with a stored decision whose pattern is the request's own or matches it, it answers nothing only when no
  stored pattern of that session matches, and it never changes a decision of any session.
\<close>

theorem CheckMemory_decides:
  assumes "manager_ok m" "valid_order order (patterns_of sid m)"
  shows "(case fst (CheckMemory order sid tool inp now m) of
       None \<Rightarrow> \<forall>p dec. decision_map m sid p = Some dec \<longrightarrow>
                 p \<noteq> GeneratePattern tool inp \<and> \<not> MatchPattern p tool inp
     | Some d \<Rightarrow> decision_map m sid (sd_pattern d) = Some (sd_decision d) \<and>
                 (sd_pattern d = GeneratePattern tool inp \<or> MatchPattern (sd_pattern d) tool inp)) \<and>
    decision_map (snd (CheckMemory order sid tool inp now m)) = decision_map m"
proof (intro conjI decision_map_CheckMemory)
  show "case fst (CheckMemory order sid tool inp now m) of
       None \<Rightarrow> \<forall>p dec. decision_map m sid p = Some dec \<longrightarrow>
                 p \<noteq> GeneratePattern tool inp \<and> \<not> MatchPattern p tool inp
     | Some d \<Rightarrow> decision_map m sid (sd_pattern d) = Some (sd_decision d) \<and>
                 (sd_pattern d = GeneratePattern tool inp \<or> MatchPattern (sd_pattern d) tool inp)"
  proof (cases rule: CheckMemory_cases [of m sid order tool inp now])
    case unknown
    then show ?thesis by (simp add: decision_map_def patterns_of_def)
  next
    case (none mem)
    have "wf_map (Decisions mem)" using manager_ok_session [OF assms(1) none(1)] by (simp add: session_ok_def)
    moreover have "valid_order order (Decisions mem)" using assms(2) none(1) by (simp add: patterns_of_def)
    ultimately have "set (range_entries order (Decisions mem)) = set (Decisions mem)" by (simp add: set_range_entries)
    then have "\<not> MatchPattern p tool inp" if "mget (Decisions mem) p = Some d" for p d
      using none(3) that mget_in_set [of "Decisions mem" p d] by (auto simp: wildcard_loop_None)
    then show ?thesis using none(1,2,4) by (auto simp: decision_map_def patterns_of_def)
  next
    case (found mem p d)
    have "sd_pattern d = p"
      using manager_ok_session [OF assms(1) found(1)] mget_in_set [OF found(2)] by (auto simp: session_ok_def)
    then show ?thesis using found by (auto simp: decision_map_def patterns_of_def use_def)
  qed
qed

lemma sample_ok: "manager_ok (StoreDecision [] sid wid (CHR ''B'' # p) dec t (NewMemoryManager cfg))"
  by (rule StoreDecision_ok) (simp_all add: NewMemoryManager_def manager_ok_def patterns_of_def valid_order_def)

lemma CheckMemory_decides_witness:
  "let m = StoreDecision [] ''s'' ''w'' ''Bash(git:*)'' DecisionDeny 5 (NewMemoryManager DefaultConfig)
   in (case fst (CheckMemory [''Bash(git:*)''] ''s'' ''Bash'' sample_input 6 m) of
       None \<Rightarrow> \<forall>p dec. decision_map m ''s'' p = Some dec \<longrightarrow>
                 p \<noteq> GeneratePattern ''Bash'' sample_input \<and> \<not> MatchPattern p ''Bash'' sample_input
     | Some d \<Rightarrow> decision_map m ''s'' (sd_pattern d) = Some (sd_decision d) \<and>
                 (sd_pattern d = GeneratePattern ''Bash'' sample_input \<or>
                  MatchPattern (sd_pattern d) ''Bash'' sample_input)) \<and>
    decision_map (snd (CheckMemory [''Bash(git:*)''] ''s'' ''Bash'' sample_input 6 m)) = decision_map m"
  unfolding Let_def
  by (rule CheckMemory_decides [OF sample_ok])
     (simp add: patterns_of_StoreDecision make_room_def range_entries_def valid_order_def)

text \<open>
  C11: Refinement of a finite map per session: storing a decision updates the pattern's entry of that session
  and nothing else, except that a session at its limit first forgets one pattern, none of whose
  companions is older.
\<close>

theorem StoreDecision_refines_update:
  assumes "manager_ok m" "valid_order order (patterns_of sid m)" "patterns_of sid m \<noteq> []"
  shows "\<exists>victim d. mget (patterns_of sid m) victim = Some d \<and>
      (\<forall>k d'. mget (patterns_of sid m) k = Some d' \<longrightarrow> sd_created d \<le> sd_created d') \<and>
      decision_map (StoreDecision order sid wid p dec now m) =
        (decision_map m)(sid :=
          ((if int (length (patterns_of sid m)) < MaxPatterns (config m) then decision_map m sid
            else (decision_map m sid)(victim := None)))(p \<mapsto> dec))"
proof -
  have ok: "wf_map (patterns_of sid m)" "[] \<notin> fst ` set (patterns_of sid m)"
    using patterns_of_ok [OF assms(1)] by simp_all
  obtain v d where v: "oldest_loop sd_created (range_entries order (patterns_of sid m)) [] zero_time = v"
    "v \<noteq> []" "mget (patterns_of sid m) v = Some d"
    "\<And>k d'. mget (patterns_of sid m) k = Some d' \<Longrightarrow> sd_created d \<le> sd_created d'"
    using oldest_entry [OF ok(1) assms(2,3) ok(2)] by metis
  have "decision_map (StoreDecision order sid wid p dec now m) =
        (decision_map m)(sid :=
          ((if int (length (patterns_of sid m)) < MaxPatterns (config m) then decision_map m sid
            else (decision_map m sid)(v := None)))(p \<mapsto> dec))"
    using v(2) by (auto simp: fun_eq_iff decision_map_def patterns_of_StoreDecision make_room_def v(1))
  then show ?thesis using v(3,4) by blast
qed

lemma StoreDecision_refines_update_witness:
  "let m = StoreDecision [] ''s'' ''w'' ''Bash(git:*)'' DecisionDeny 5 (NewMemoryManager (DefaultConfig\<lparr>MaxPatterns := 1\<rparr>))
   in \<exists>victim d. mget (patterns_of ''s'' m) victim = Some d \<and>
      (\<forall>k d'. mget (patterns_of ''s'' m) k = Some d' \<longrightarrow> sd_created d \<le> sd_created d') \<and>
      decision_map (StoreDecision [''Bash(git:*)''] ''s'' ''w'' ''Write(*.go)'' DecisionAllow 7 m) =
        (decision_map m)(''s'' :=
          ((if int (length (patterns_of ''s'' m)) < MaxPatterns (config m) then decision_map m ''s''
            else (decision_map m ''s'')(victim := None)))(''Write(*.go)'' \<mapsto> DecisionAllow))"
  unfolding Let_def
  by (rule StoreDecision_refines_update [OF sample_ok])
     (simp_all add: patterns_of_StoreDecision make_room_def range_entries_def valid_order_def)

text \<open>
  A session in use is not forgotten: a cleanup that runs within the idle limit after a check
  keeps every decision of the checked session, and a cleanup drops a session only when it has been idle for longer.
\<close>

theorem cleanup_drops_idle_only:
  assumes "manager_ok m" "now' - now \<le> TTL (config m)"
  shows "decision_map (cleanup now' (snd (CheckMemory order sid tool inp now m))) sid = decision_map m sid \<and>
    (\<forall>sid' mem. mget (sessions m) sid' = Some mem \<longrightarrow>
       mget (sessions (cleanup now' m)) sid' = (if now' - LastAccess mem > TTL (config m) then None else Some mem))"
proof
  let ?m = "snd (CheckMemory order sid tool inp now m)"
  have wf: "wf_map (sessions ?m)" "wf_map (sessions m)"
    using CheckMemory_ok [OF assms(1)] assms(1) by (simp_all add: manager_ok_def)
  have "mem = mem \<and> LastAccess mem = now" if "mget (sessions ?m) sid = Some mem" for mem
    using that by (cases rule: CheckMemory_cases [of m sid order tool inp now]) auto
  then have "patterns_of sid (cleanup now' ?m) = patterns_of sid ?m"
    using assms(2) wf(1) by (simp add: patterns_of_def cleanup_def mget_mdel_if split: option.split)
  then show "decision_map (cleanup now' ?m) sid = decision_map m sid"
    using fun_cong [OF decision_map_CheckMemory [of order sid tool inp now m], of sid]
    by (simp add: decision_map_def fun_eq_iff)
  show "\<forall>sid' mem. mget (sessions m) sid' = Some mem \<longrightarrow>
       mget (sessions (cleanup now' m)) sid' = (if now' - LastAccess mem > TTL (config m) then None else Some mem)"
    using wf(2) by (simp add: cleanup_def mget_mdel_if)
qed

lemma cleanup_drops_idle_only_witness:
  "let m = StoreDecision [] ''s'' ''w'' ''Bash(git:*)'' DecisionDeny 5 (NewMemoryManager DefaultConfig)
   in decision_map (cleanup (hour + 6) (snd (CheckMemory [''Bash(git:*)''] ''s'' ''Bash'' sample_input 6 m))) ''s'' =
        decision_map m ''s'' \<and>
      (\<forall>sid' mem. mget (sessions m) sid' = Some mem \<longrightarrow>
         mget (sessions (cleanup (hour + 6) m)) sid' =
           (if hour + 6 - LastAccess mem > TTL (config m) then None else Some mem))"
  unfolding Let_def
  by (rule cleanup_drops_idle_only [OF sample_ok]) (simp add: NewMemoryManager_def DefaultConfig_def)

end
