(* ===== verification/Permission_Service.thy ===== *)
theory Permission_Service
  imports Permission_Memory Events Rpc_Message
begin

text \<open>
  \<open>internal/rpc/handler/methods/permission.go\<close>: the RPC methods behind the permission hook. The hook
  command of an external Claude calls \<open>permission/request\<close> and blocks; the phone answers with
  \<open>permission/respond\<close>.

  \<open>Request\<close> is cut where it blocks: \<open>Request\<close> runs up to the \<open>select\<close> and either returns or waits on
  its channel; the three branches of the \<open>select\<close> are \<open>request_answered\<close>, \<open>request_timeout\<close> and
  \<open>request_cancelled\<close>. A world is the manager with the events published so far and the next fresh
  channel. Inputs of a tool are kept as the JSON values the client sent (Go would turn their numbers
  into floats). The number of subscribers is the hub's, an argument.

  The theorem is that the phone's answer is the hook's answer; that nothing else allows a tool is the theorem
  of \<open>Permission_Bridge\<close>.
\<close>

section \<open>The service\<close>

record permission_service =
  has_manager :: bool
  has_publisher :: bool
  resolver :: "(string \<Rightarrow> string option) option"
  timeout :: time

definition NewPermissionService :: "bool \<Rightarrow> bool \<Rightarrow> (string \<Rightarrow> string option) option \<Rightarrow> permission_service" where
  "NewPermissionService m p r =
     \<lparr>has_manager = m, has_publisher = p, resolver = r, timeout = 5 * minute\<rparr>"

definition SetTimeout :: "time \<Rightarrow> permission_service \<Rightarrow> permission_service" where
  "SetTimeout t s = s\<lparr>timeout := t\<rparr>"

definition ResolveWorkspaceID :: "string \<Rightarrow> string option" where
  "ResolveWorkspaceID path = Some (path_base path)"

record perm_world =
  mgr :: memory_manager
  published :: "event list"
  next_chan :: nat

section \<open>Parameters\<close>

record request_params =
  rp_session :: string
  rp_tool :: string
  rp_input :: tool_input
  rp_tool_use :: string
  Cwd :: string

text \<open>Decoding an object into a map adds its members to the map; null makes it nil, that is empty.\<close>

definition decode_map ::
  "json_env \<Rightarrow> string \<Rightarrow> json \<Rightarrow> tool_input \<Rightarrow> string option \<Rightarrow> tool_input \<times> string option" where
  "decode_map env fld j old e =
     (case j of
        JNull \<Rightarrow> ([], e)
      | JObj kvs \<Rightarrow> (fold (\<lambda>(k, v) m. mput k v m) kvs old, e)
      | _ \<Rightarrow> (old, note_error (type_text env fld j) e))"

fun decode_request_params ::
  "json_env \<Rightarrow> (string \<times> json) list \<Rightarrow> request_params \<times> string option \<Rightarrow> request_params \<times> string option" where
  "decode_request_params env [] st = st"
| "decode_request_params env ((k, v) # kvs) (p, e) =
     decode_request_params env kvs
       (if fold_key k = ''session_id'' then
          (let (x, e') = decode_string env k v (rp_session p) e in (p\<lparr>rp_session := x\<rparr>, e'))
        else if fold_key k = ''tool_name'' then
          (let (x, e') = decode_string env k v (rp_tool p) e in (p\<lparr>rp_tool := x\<rparr>, e'))
        else if fold_key k = ''tool_input'' then
          (let (x, e') = decode_map env k v (rp_input p) e in (p\<lparr>rp_input := x\<rparr>, e'))
        else if fold_key k = ''tool_use_id'' then
          (let (x, e') = decode_string env k v (rp_tool_use p) e in (p\<lparr>rp_tool_use := x\<rparr>, e'))
        else if fold_key k = ''cwd'' then
          (let (x, e') = decode_string env k v (Cwd p) e in (p\<lparr>Cwd := x\<rparr>, e'))
        else (p, e))"

text \<open>Unmarshalling empty parameters is a syntax error.\<close>

definition unmarshal_params ::
  "json_env \<Rightarrow> ((string \<times> json) list \<Rightarrow> 'a \<times> string option \<Rightarrow> 'a \<times> string option) \<Rightarrow> 'a \<Rightarrow> json option \<Rightarrow> string + 'a" where
  "unmarshal_params env dec zero params =
     (case params of None \<Rightarrow> Inl (syntax_text env []) | Some j \<Rightarrow> unmarshal_struct env dec zero j)"

definition zero_request :: request_params where
  "zero_request = \<lparr>rp_session = [], rp_tool = [], rp_input = [], rp_tool_use = [], Cwd = []\<rparr>"

record respond_params =
  sp_tool_use :: string
  sp_decision :: string
  sp_scope :: string

fun decode_respond_params ::
  "json_env \<Rightarrow> (string \<times> json) list \<Rightarrow> respond_params \<times> string option \<Rightarrow> respond_params \<times> string option" where
  "decode_respond_params env [] st = st"
| "decode_respond_params env ((k, v) # kvs) (p, e) =
     decode_respond_params env kvs
       (if fold_key k = ''tool_use_id'' then
          (let (x, e') = decode_string env k v (sp_tool_use p) e in (p\<lparr>sp_tool_use := x\<rparr>, e'))
        else if fold_key k = ''decision'' then
          (let (x, e') = decode_string env k v (sp_decision p) e in (p\<lparr>sp_decision := x\<rparr>, e'))
        else if fold_key k = ''scope'' then
          (let (x, e') = decode_string env k v (sp_scope p) e in (p\<lparr>sp_scope := x\<rparr>, e'))
        else (p, e))"

definition zero_respond :: respond_params where
  "zero_respond = \<lparr>sp_tool_use = [], sp_decision = [], sp_scope = []\<rparr>"

section \<open>Requesting\<close>

definition permission_options :: "prompt_option list" where
  "permission_options =
     [\<lparr>Key = ''allow_once'', Label = ''Allow Once'', Description = ''Allow this one request'', Selected = False\<rparr>,
      \<lparr>Key = ''allow_session'', Label = ''Allow for Session'',
        Description = ''Allow similar requests for this session'', Selected = False\<rparr>,
      \<lparr>Key = ''deny'', Label = ''Deny'', Description = ''Deny this request'', Selected = False\<rparr>]"

definition createPermissionEvent :: "time \<Rightarrow> perm_request \<Rightarrow> event" where
  "createPermissionEvent now req =
     (let payload = \<lparr>pp_tool_use = ToolUseID req,
            pp_type = GeneratePermissionType (ToolName req),
            Target = ExtractTarget (ToolName req) (ToolInput req),
            pp_description = GenerateReadableDescription (ToolName req) (ToolInput req),
            Preview = ExtractPreview (ToolName req) (ToolInput req),
            Options = Some permission_options,
            pp_session = SessionID req,
            pp_workspace = WorkspaceID req\<rparr>;
          e = NewEvent now ''pty_permission'' (PTYPermissionPayload payload)
      in SetAgentType ''claude'' (e\<lparr>ev_session := SessionID req, ev_workspace := WorkspaceID req\<rparr>))"

text \<open>A response built from the fields that are not zero.\<close>

definition response :: "decision \<Rightarrow> string \<Rightarrow> string \<Rightarrow> string \<Rightarrow> perm_response" where
  "response dec scope pattern note =
     \<lparr>Decision = dec, Scope = scope, Pattern = pattern, UpdatedInput = None, Note = note, Interrupt = False\<rparr>"

datatype request_outcome =
    Failed rpc_error
  | Returned perm_response
  | Waiting perm_request

definition Request ::
  "json_env \<Rightarrow> permission_service \<Rightarrow> string list \<Rightarrow> int \<Rightarrow> time \<Rightarrow> json option \<Rightarrow> perm_world \<Rightarrow>
     request_outcome \<times> perm_world" where
  "Request env s order subscriberCount now params w =
     (if \<not> has_manager s then (Failed (ErrInternalError ''Permission manager not available''), w)
      else case unmarshal_params env (decode_request_params env) zero_request params of
        Inl e \<Rightarrow> (Failed (ErrInvalidParams (''Invalid params: '' @ e)), w)
      | Inr p \<Rightarrow>
          if rp_session p = [] then (Failed (ErrInvalidParams ''session_id is required''), w)
          else if rp_tool p = [] then (Failed (ErrInvalidParams ''tool_name is required''), w)
          else if rp_tool_use p = [] then (Failed (ErrInvalidParams ''tool_use_id is required''), w)
          else (case CheckMemory order (rp_session p) (rp_tool p) (rp_input p) now (mgr w) of
              (Some stored, m) \<Rightarrow>
                (Returned (response (sd_decision stored) ScopeSession (sd_pattern stored) []), w\<lparr>mgr := m\<rparr>)
            | (None, m) \<Rightarrow>
                (let workspaceID = (case resolver s of
                        None \<Rightarrow> []
                      | Some r \<Rightarrow> if Cwd p \<noteq> [] then (case r (Cwd p) of Some i \<Rightarrow> i | None \<Rightarrow> []) else []);
                     req = \<lparr>ID = rp_tool_use p, SessionID = rp_session p, WorkspaceID = workspaceID,
                       ToolName = rp_tool p, ToolInput = rp_input p, ToolUseID = rp_tool_use p,
                       CreatedAt = now, ResponseChan = next_chan w\<rparr>;
                     w1 = w\<lparr>mgr := AddPendingRequest req m, next_chan := next_chan w + 1\<rparr>
                 in if \<not> has_publisher s then (Waiting req, w1)
                    else if subscriberCount \<le> 1 then
                      (Returned (response DecisionDeny [] [] ''no_clients''),
                       w1\<lparr>mgr := RemovePendingRequest (rp_tool_use p) (mgr w1)\<rparr>)
                    else (Waiting req, w1\<lparr>published := published w1 @ [createPermissionEvent now req]\<rparr>))))"

definition request_answered :: "perm_request \<Rightarrow> perm_world \<Rightarrow> perm_response option \<times> perm_world" where
  "request_answered req w =
     (let (r, m) = chan_recv (ResponseChan req) (mgr w) in (r, w\<lparr>mgr := m\<rparr>))"

definition request_timeout :: "perm_request \<Rightarrow> perm_world \<Rightarrow> perm_response \<times> perm_world" where
  "request_timeout req w =
     (response DecisionDeny [] [] ''timeout'', w\<lparr>mgr := RemovePendingRequest (ToolUseID req) (mgr w)\<rparr>)"

definition request_cancelled :: "perm_request \<Rightarrow> perm_world \<Rightarrow> perm_response \<times> perm_world" where
  "request_cancelled req w =
     (response DecisionDeny [] [] ''cancelled'', w\<lparr>mgr := RemovePendingRequest (ToolUseID req) (mgr w)\<rparr>)"

section \<open>Responding\<close>

definition quoted :: "string \<Rightarrow> string" where
  "quoted s = CHR 0x27 # s @ [CHR 0x27]"

definition Respond ::
  "json_env \<Rightarrow> permission_service \<Rightarrow> string list \<Rightarrow> time \<Rightarrow> json option \<Rightarrow> perm_world \<Rightarrow> (rpc_error + unit) \<times> perm_world" where
  "Respond env s order now params w =
     (if \<not> has_manager s then (Inl (ErrInternalError ''Permission manager not available''), w)
      else case unmarshal_params env (decode_respond_params env) zero_respond params of
        Inl e \<Rightarrow> (Inl (ErrInvalidParams (''Invalid params: '' @ e)), w)
      | Inr p \<Rightarrow>
          if sp_tool_use p = [] then (Inl (ErrInvalidParams ''tool_use_id is required''), w)
          else if sp_decision p = [] then (Inl (ErrInvalidParams ''decision is required''), w)
          else if sp_decision p \<noteq> ''allow'' \<and> sp_decision p \<noteq> ''deny'' then
            (Inl (ErrInvalidParams (''decision must be '' @ quoted ''allow'' @ '' or '' @ quoted ''deny'')), w)
          else (let scope = (if sp_scope p = ''session'' then ScopeSession else ScopeOnce) in
            (case GetAndRemovePendingRequest (sp_tool_use p) (mgr w) of
               (None, m) \<Rightarrow> (Inl (ErrInternalError ''Request not found or already responded''), w\<lparr>mgr := m\<rparr>)
             | (Some req, m) \<Rightarrow>
                 (let pattern = (if scope = ScopeSession then GeneratePattern (ToolName req) (ToolInput req) else []);
                      resp = response (sp_decision p) scope pattern [];
                      m1 = (if scope = ScopeSession \<and> pattern \<noteq> []
                            then StoreDecision order (SessionID req) (WorkspaceID req) pattern (Decision resp) now m
                            else m);
                      m2 = snd (chan_send (ResponseChan req) resp m1);
                      evs = (if has_publisher s
                             then [NewPTYPermissionResolvedEvent now (SessionID req) (WorkspaceID req) [] (Decision resp)]
                             else [])
                  in (Inr (), w\<lparr>mgr := m2, published := published w @ evs\<rparr>)))))"

section \<open>Stats and pending requests\<close>

definition Stats :: "permission_service \<Rightarrow> perm_world \<Rightarrow> rpc_error + session_stats" where
  "Stats s w =
     (if \<not> has_manager s then Inl (ErrInternalError ''Permission manager not available'')
      else Inr (GetSessionStats (mgr w)))"

record pending_info =
  pi_tool_use :: string
  pi_session :: string
  pi_workspace :: string
  pi_tool :: string
  pi_input :: tool_input
  pi_created :: string

fun decode_pending_params :: "json_env \<Rightarrow> (string \<times> json) list \<Rightarrow> string \<times> string option \<Rightarrow> string \<times> string option" where
  "decode_pending_params env [] st = st"
| "decode_pending_params env ((k, v) # kvs) (sid, e) =
     decode_pending_params env kvs
       (if fold_key k = ''session_id'' then decode_string env k v sid e else (sid, e))"

text \<open>
  Errors in the optional parameters are ignored, and what was decoded before them is kept. \<open>off\<close> is
  the offset of the local time zone.
\<close>

definition pending_filter :: "json_env \<Rightarrow> json option \<Rightarrow> string" where
  "pending_filter env params =
     (case params of
        Some (JObj kvs) \<Rightarrow> fst (decode_pending_params env kvs ([], None))
      | _ \<Rightarrow> [])"

definition Pending ::
  "json_env \<Rightarrow> permission_service \<Rightarrow> string list \<Rightarrow> int \<Rightarrow> json option \<Rightarrow> perm_world \<Rightarrow> rpc_error + pending_info list" where
  "Pending env s order off params w =
     (if \<not> has_manager s then Inl (ErrInternalError ''Permission manager not available'')
      else (let sid = pending_filter env params;
                requests = filter (\<lambda>req. sid = [] \<or> SessionID req = sid) (ListPendingRequests order (mgr w))
            in Inr (map (\<lambda>req. \<lparr>pi_tool_use = ToolUseID req, pi_session = SessionID req,
                 pi_workspace = WorkspaceID req, pi_tool = ToolName req, pi_input = ToolInput req,
                 pi_created = rfc3339 False off (CreatedAt req)\<rparr>) requests)))"

section \<open>An example\<close>

definition start_world :: "session_config \<Rightarrow> perm_world" where
  "start_world cfg = \<lparr>mgr = NewMemoryManager cfg, published = [], next_chan = 0\<rparr>"

text \<open>A hook asks, the phone allows, the hook gets its answer.\<close>

definition demo_env :: json_env where
  "demo_env = \<lparr>syntax_text = (\<lambda>s. s), type_text = (\<lambda>s j. s), out_of_range = (\<lambda>n. n)\<rparr>"

definition demo_service :: permission_service where
  "demo_service = NewPermissionService True True (Some ResolveWorkspaceID)"

definition hook_params :: json where
  "hook_params = JObj [(''session_id'', JStr ''s''), (''tool_name'', JStr ''Bash''),
     (''tool_input'', JObj [(''command'', JStr ''ls'')]), (''tool_use_id'', JStr ''t1'')]"

definition phone_params :: json where
  "phone_params = JObj [(''tool_use_id'', JStr ''t1''), (''decision'', JStr ''allow'')]"

definition demo_request :: perm_request where
  "demo_request = \<lparr>ID = ''t1'', SessionID = ''s'', WorkspaceID = [], ToolName = ''Bash'',
     ToolInput = [(''command'', JStr ''ls'')], ToolUseID = ''t1'', CreatedAt = 10, ResponseChan = 0\<rparr>"

definition demo_answer :: respond_params where
  "demo_answer = \<lparr>sp_tool_use = ''t1'', sp_decision = ''allow'', sp_scope = []\<rparr>"

definition demo_w1 :: perm_world where
  "demo_w1 = (start_world DefaultConfig)\<lparr>mgr := AddPendingRequest demo_request (NewMemoryManager DefaultConfig),
     next_chan := 1, published := [createPermissionEvent 10 demo_request]\<rparr>"

definition demo_response :: perm_response where
  "demo_response = response ''allow'' ScopeOnce [] []"

definition demo_w2 :: perm_world where
  "demo_w2 = demo_w1\<lparr>mgr := (NewMemoryManager DefaultConfig)\<lparr>chans := [(0, [demo_response])]\<rparr>,
     published := published demo_w1 @ [NewPTYPermissionResolvedEvent 11 ''s'' [] [] ''allow'']\<rparr>"

lemma fold_key_params [simp]:
  "fold_key ''session_id'' = ''session_id''" "fold_key ''tool_name'' = ''tool_name''"
  "fold_key ''tool_input'' = ''tool_input''" "fold_key ''tool_use_id'' = ''tool_use_id''"
  "fold_key ''decision'' = ''decision''" "fold_key ''scope'' = ''scope''"
  by (simp_all add: fold_key_def has_prefix_def)

lemma demo_step1:
  "Request demo_env demo_service [] 2 10 (Some hook_params) (start_world DefaultConfig) = (Waiting demo_request, demo_w1)"
  by (simp add: Request_def demo_service_def NewPermissionService_def unmarshal_params_def unmarshal_struct_def
      hook_params_def decode_string_def decode_map_def zero_request_def CheckMemory_def start_world_def
      NewMemoryManager_def demo_request_def demo_w1_def Let_def)

lemma demo_params: "unmarshal_params demo_env (decode_respond_params demo_env) zero_respond (Some phone_params) = Inr demo_answer"
  by (simp add: unmarshal_params_def unmarshal_struct_def phone_params_def zero_respond_def decode_string_def
      demo_answer_def)

lemma demo_pending: "mget (pending (mgr demo_w1)) (sp_tool_use demo_answer) = Some demo_request"
  by (simp add: demo_w1_def AddPendingRequest_def NewMemoryManager_def demo_answer_def demo_request_def)

lemma demo_step2: "Respond demo_env demo_service [] 11 (Some phone_params) demo_w1 = (Inr (), demo_w2)"
  unfolding Respond_def demo_params
  by (simp add: demo_service_def NewPermissionService_def GetAndRemovePendingRequest_def demo_answer_def
      demo_w1_def demo_w2_def AddPendingRequest_def NewMemoryManager_def start_world_def demo_request_def
      demo_response_def response_def chan_send_def chan_buf_def ScopeOnce_def ScopeSession_def Let_def)

lemma demo_step3: "request_answered demo_request demo_w2 = (Some demo_response, demo_w2\<lparr>mgr := (mgr demo_w2)\<lparr>chans := [(0, [])]\<rparr>\<rparr>)"
  by (simp add: request_answered_def chan_recv_def chan_buf_def demo_w2_def demo_request_def NewMemoryManager_def)

section \<open>From question to answer\<close>

lemma StoreDecision_frame [simp]:
  "chans (StoreDecision order sid wid p dec now m) = chans m"
  "pending (StoreDecision order sid wid p dec now m) = pending m"
  by (simp_all add: StoreDecision_def Let_def)

lemma GeneratePattern_nonempty [simp]: "GeneratePattern tool inp \<noteq> []"
  using GeneratePattern_wrap [of tool inp] by (auto simp: wrap_def)

lemma Request_waiting:
  assumes "Request env s order n now params w = (Waiting req, w1)"
  obtains p m where "unmarshal_params env (decode_request_params env) zero_request params = Inr p"
    "has_manager s" "rp_session p \<noteq> []" "rp_tool p \<noteq> []" "rp_tool_use p \<noteq> []"
    "m = snd (CheckMemory order (rp_session p) (rp_tool p) (rp_input p) now (mgr w))"
    "mgr w1 = AddPendingRequest req m" "SessionID req = rp_session p" "ToolName req = rp_tool p"
    "ToolInput req = rp_input p" "ToolUseID req = rp_tool_use p" "ResponseChan req = next_chan w"
  using assms unfolding Request_def
  by (auto simp: Let_def split: if_splits sum.splits prod.splits option.splits)

lemma Respond_accepts:
  assumes "has_manager s" "unmarshal_params env (decode_respond_params env) zero_respond params = Inr p"
    "sp_tool_use p \<noteq> []" "sp_decision p \<in> {''allow'', ''deny''}" "mget (pending (mgr w)) (sp_tool_use p) = Some req"
  shows "\<exists>w' r. Respond env s order now params w = (Inr (), w') \<and> Decision r = sp_decision p \<and>
    mgr w' = snd (chan_send (ResponseChan req) r
      (let m = (mgr w)\<lparr>pending := mdel (sp_tool_use p) (pending (mgr w))\<rparr> in
       if sp_scope p = ''session''
       then StoreDecision order (SessionID req) (WorkspaceID req) (GeneratePattern (ToolName req) (ToolInput req))
              (sp_decision p) now m
       else m))"
proof -
  have scopes: "ScopeOnce \<noteq> ScopeSession" by (simp add: ScopeOnce_def ScopeSession_def)
  define r where "r = response (sp_decision p) (if sp_scope p = ''session'' then ScopeSession else ScopeOnce)
      (if sp_scope p = ''session'' then GeneratePattern (ToolName req) (ToolInput req) else []) []"
  have r: "Decision r = sp_decision p" by (simp add: r_def response_def)
  show ?thesis
    using assms scopes
    by (intro exI [of _ "snd (Respond env s order now params w)"] exI [of _ r], cases "sp_scope p = ''session''")
       (auto simp: Respond_def GetAndRemovePendingRequest_def Let_def r, simp_all add: r_def response_def)
qed

lemma Respond_unknown:
  assumes "has_manager s" "unmarshal_params env (decode_respond_params env) zero_respond params = Inr p"
    "sp_tool_use p \<noteq> []" "sp_decision p \<in> {''allow'', ''deny''}" "mget (pending (mgr w)) (sp_tool_use p) = None"
  shows "Respond env s order now params w = (Inl (ErrInternalError ''Request not found or already responded''), w)"
  using assms by (auto simp: Respond_def GetAndRemovePendingRequest_def Let_def)

lemma CheckMemory_stored:
  assumes "mget (patterns_of sid m) (GeneratePattern tool inp) = Some d"
  shows "fst (CheckMemory order sid tool inp now m) = Some (use d)"
  using assms by (auto simp: CheckMemory_def patterns_of_def split: option.splits)

lemma Request_remembered:
  assumes "unmarshal_params env (decode_request_params env) zero_request params = Inr p"
    "has_manager s" "rp_session p \<noteq> []" "rp_tool p \<noteq> []" "rp_tool_use p \<noteq> []"
    "mget (patterns_of (rp_session p) (mgr w)) (GeneratePattern (rp_tool p) (rp_input p)) = Some d"
  shows "\<exists>r w'. Request env s order n now params w = (Returned r, w') \<and> Decision r = sd_decision d"
  using assms(1-5) CheckMemory_stored [OF assms(6), of order now]
  by (cases "CheckMemory order (rp_session p) (rp_tool p) (rp_input p) now (mgr w)")
     (auto simp: Request_def response_def use_def)

lemma CheckMemory_chans [simp]:
  "chans (snd (CheckMemory order sid tool inp now m)) = chans m"
  "pending (snd (CheckMemory order sid tool inp now m)) = pending m"
  by (cases rule: CheckMemory_cases [of m sid order tool inp now]; simp)+

text \<open>
  C6: The phone's answer is the hook's answer, and it counts once: when a request is waiting, a valid answer to
  its tool use is accepted and wakes exactly this request with the phone's decision; a second answer is
  refused and changes nothing; and after an answer for the session the same request is decided
  at once, the same way, without asking again.
\<close>

theorem answer_decides_request:
  assumes "Request env s order n now params w = (Waiting req, w1)"
    and "chan_buf (next_chan w) (mgr w) = []"
    and "unmarshal_params env (decode_respond_params env) zero_respond answer = Inr p"
    and "sp_tool_use p = ToolUseID req" "sp_decision p \<in> {''allow'', ''deny''}"
  shows "\<exists>w2 r w3. Respond env s order' now' answer w1 = (Inr (), w2) \<and>
    request_answered req w2 = (Some r, w3) \<and> Decision r = sp_decision p \<and>
    (\<exists>e. Respond env s order'' now'' answer w2 = (Inl e, w2) \<and> Code e = InternalError) \<and>
    (sp_scope p = ''session'' \<longrightarrow>
      (\<exists>r' w4. Request env s order3 n3 now3 params w3 = (Returned r', w4) \<and> Decision r' = sp_decision p))"
proof -
  obtain p0 m where p0: "unmarshal_params env (decode_request_params env) zero_request params = Inr p0"
    "has_manager s" "rp_session p0 \<noteq> []" "rp_tool p0 \<noteq> []" "rp_tool_use p0 \<noteq> []"
    and m: "m = snd (CheckMemory order (rp_session p0) (rp_tool p0) (rp_input p0) now (mgr w))"
      "mgr w1 = AddPendingRequest req m"
    and req: "SessionID req = rp_session p0" "ToolName req = rp_tool p0" "ToolInput req = rp_input p0"
      "ToolUseID req = rp_tool_use p0" "ResponseChan req = next_chan w"
    using assms(1) by (rule Request_waiting)
  let ?pat = "GeneratePattern (rp_tool p0) (rp_input p0)"
  have key: "sp_tool_use p \<noteq> []" using assms(4) req(4) p0(5) by simp
  have "mget (pending (mgr w1)) (sp_tool_use p) = Some req"
    using assms(4) by (simp add: m(2) AddPendingRequest_def)
  from Respond_accepts [OF p0(2) assms(3) key assms(5) this, of order' now'] obtain w2 r where
    R: "Respond env s order' now' answer w1 = (Inr (), w2)" "Decision r = sp_decision p"
    and w2: "mgr w2 = snd (chan_send (ResponseChan req) r
      (let m = (mgr w1)\<lparr>pending := mdel (sp_tool_use p) (pending (mgr w1))\<rparr> in
       if sp_scope p = ''session''
       then StoreDecision order' (SessionID req) (WorkspaceID req) (GeneratePattern (ToolName req) (ToolInput req))
              (sp_decision p) now' m
       else m))" by blast
  have buf: "chan_buf (next_chan w) (mgr w2) = [r]"
    using assms(2) by (auto simp: w2 Let_def chan_send_def chan_buf_def req(5) m AddPendingRequest_def)
  define w3 where "w3 = snd (request_answered req w2)"
  have ans: "request_answered req w2 = (Some r, w3)"
    using buf by (simp add: w3_def request_answered_def chan_recv_def req(5) split: prod.split)
  have "mget (pending (mgr w2)) (sp_tool_use p) = None"
    by (simp add: w2 Let_def chan_send_def)
  from Respond_unknown [OF p0(2) assms(3) key assms(5) this, of order'' now'']
  have again: "\<exists>e. Respond env s order'' now'' answer w2 = (Inl e, w2) \<and> Code e = InternalError"
    by (simp add: ErrInternalError_def NewError_def)
  have "\<exists>r' w4. Request env s order3 n3 now3 params w3 = (Returned r', w4) \<and> Decision r' = sp_decision p"
    if "sp_scope p = ''session''"
  proof -
    have "patterns_of (rp_session p0) (mgr w3) = patterns_of (rp_session p0) (mgr w2)"
      by (simp add: w3_def request_answered_def chan_recv_def patterns_of_def split: prod.split list.split)
    also have "\<dots> = patterns_of (rp_session p0) (StoreDecision order' (rp_session p0) (WorkspaceID req) ?pat (sp_decision p) now'
        ((mgr w1)\<lparr>pending := mdel (sp_tool_use p) (pending (mgr w1))\<rparr>))"
      using that by (simp add: w2 Let_def req chan_send_def patterns_of_def)
    finally have "\<exists>d. mget (patterns_of (rp_session p0) (mgr w3)) ?pat = Some d \<and> sd_decision d = sp_decision p"
      by (simp add: patterns_of_StoreDecision)
    then show ?thesis using Request_remembered [OF p0] by metis
  qed
  then show ?thesis using R ans again by blast
qed

lemma answer_decides_request_witness:
  "\<exists>w2 r w3. Respond demo_env demo_service [] 11 (Some phone_params) demo_w1 = (Inr (), w2) \<and>
    request_answered demo_request w2 = (Some r, w3) \<and> Decision r = sp_decision demo_answer \<and>
    (\<exists>e. Respond demo_env demo_service [] 12 (Some phone_params) w2 = (Inl e, w2) \<and> Code e = InternalError) \<and>
    (sp_scope demo_answer = ''session'' \<longrightarrow>
      (\<exists>r' w4. Request demo_env demo_service [] 2 13 (Some hook_params) w3 = (Returned r', w4) \<and>
        Decision r' = sp_decision demo_answer))"
  by (rule answer_decides_request [OF demo_step1 _ demo_params])
     (simp_all add: start_world_def NewMemoryManager_def chan_buf_def demo_answer_def demo_request_def)

end
