(* ===== verification/Hooks_Handler.thy ===== *)
theory Hooks_Handler
  imports Permission_Service Http_Common
begin

text \<open>
  \<open>internal/server/http/hooks.go\<close>: the endpoint the hook scripts of a Claude outside cdev post to. Four of
  the hooks only publish an event; \<open>permission-request\<close> asks the phone through the same memory manager as
  \<open>permission/request\<close>, and answers by itself where Claude runs in a mode that bypasses permissions.

  The world is that of the permission service. \<open>handlePermissionRequest\<close> is cut where it blocks: it runs up
  to the \<open>select\<close> and either writes a response or waits on its channel, and \<open>hook_answered\<close> and
  \<open>hook_timeout\<close> are the two branches of the \<open>select\<close>. A body is the text \<open>io.ReadAll\<close> returns, before
  its limit, or \<open>None\<close> when reading fails.
\<close>

section \<open>The handler\<close>

record hooks_handler =
  permissionManager :: bool
  permissionTimeout :: time
  workspaceResolver :: "(string \<Rightarrow> string option) option"

definition NewHooksHandler :: hooks_handler where
  "NewHooksHandler = \<lparr>permissionManager = False, permissionTimeout = 60 * second, workspaceResolver = None\<rparr>"

definition SetPermissionManager :: "bool \<Rightarrow> hooks_handler \<Rightarrow> hooks_handler" where
  "SetPermissionManager pm h = h\<lparr>permissionManager := pm\<rparr>"

definition SetWorkspaceResolver :: "(string \<Rightarrow> string option) option \<Rightarrow> hooks_handler \<Rightarrow> hooks_handler" where
  "SetWorkspaceResolver r h = h\<lparr>workspaceResolver := r\<rparr>"

definition SetPermissionTimeout :: "time \<Rightarrow> hooks_handler \<Rightarrow> hooks_handler" where
  "SetPermissionTimeout t h = h\<lparr>permissionTimeout := t\<rparr>"

definition resolveWorkspaceID :: "hooks_handler \<Rightarrow> string \<Rightarrow> string" where
  "resolveWorkspaceID h cwd =
     (case workspaceResolver h of
        None \<Rightarrow> []
      | Some resolve \<Rightarrow> if cwd = [] then [] else (case resolve cwd of None \<Rightarrow> [] | Some i \<Rightarrow> i))"

section \<open>The payload\<close>

text \<open>A nil interface is \<open>JNull\<close>, and a nil map the empty one.\<close>

record hook_payload =
  hp_SessionID :: string
  TranscriptPath :: string
  hp_Cwd :: string
  HookEventName :: string
  PermissionMode :: string
  hp_ToolName :: string
  hp_ToolInput :: json
  ToolResult :: json
  hp_ToolUseID :: string
  Message :: string
  NotificationType :: string
  Raw :: "(string, json) gomap"

definition zero_payload :: hook_payload where
  "zero_payload = \<lparr>hp_SessionID = [], TranscriptPath = [], hp_Cwd = [], HookEventName = [], PermissionMode = [],
     hp_ToolName = [], hp_ToolInput = JNull, ToolResult = JNull, hp_ToolUseID = [], Message = [],
     NotificationType = [], Raw = []\<rparr>"

definition payload_member :: "string \<Rightarrow> json \<Rightarrow> hook_payload \<times> string option \<Rightarrow> hook_payload \<times> string option" where
  "payload_member k v = (\<lambda>(p, e).
     if k = ''session_id'' then
       (let (x, e') = decode_string quiet k v (hp_SessionID p) e in (p\<lparr>hp_SessionID := x\<rparr>, e'))
     else if k = ''transcript_path'' then
       (let (x, e') = decode_string quiet k v (TranscriptPath p) e in (p\<lparr>TranscriptPath := x\<rparr>, e'))
     else if k = ''cwd'' then (let (x, e') = decode_string quiet k v (hp_Cwd p) e in (p\<lparr>hp_Cwd := x\<rparr>, e'))
     else if k = ''hook_event_name'' then
       (let (x, e') = decode_string quiet k v (HookEventName p) e in (p\<lparr>HookEventName := x\<rparr>, e'))
     else if k = ''permission_mode'' then
       (let (x, e') = decode_string quiet k v (PermissionMode p) e in (p\<lparr>PermissionMode := x\<rparr>, e'))
     else if k = ''tool_name'' then
       (let (x, e') = decode_string quiet k v (hp_ToolName p) e in (p\<lparr>hp_ToolName := x\<rparr>, e'))
     else if k = ''tool_input'' then (p\<lparr>hp_ToolInput := v\<rparr>, e)
     else if k = ''tool_result'' then (p\<lparr>ToolResult := v\<rparr>, e)
     else if k = ''tool_use_id'' then
       (let (x, e') = decode_string quiet k v (hp_ToolUseID p) e in (p\<lparr>hp_ToolUseID := x\<rparr>, e'))
     else if k = ''message'' then
       (let (x, e') = decode_string quiet k v (Message p) e in (p\<lparr>Message := x\<rparr>, e'))
     else if k = ''notification_type'' then
       (let (x, e') = decode_string quiet k v (NotificationType p) e in (p\<lparr>NotificationType := x\<rparr>, e'))
     else (p, e))"

text \<open>
  Errors are logged and what was decoded before them is kept: a syntax error leaves everything zero, a
  member of the wrong type only its own field.
\<close>

definition parse_payload :: "string \<Rightarrow> hook_payload" where
  "parse_payload data =
     (case json_parse data of
        Some (JObj kvs) \<Rightarrow>
          (fst (decode_members payload_member kvs (zero_payload, None)))\<lparr>Raw := fold (\<lambda>(k, v) m. mput k v m) kvs []\<rparr>
      | _ \<Rightarrow> zero_payload)"

definition isBypassPermissionMode :: "string \<Rightarrow> bool" where
  "isBypassPermissionMode mode \<longleftrightarrow> trim_space mode \<in> {''bypassPermissions'', ''dangerouslySkipPermissions''}"

section \<open>The hooks that only publish\<close>

text \<open>The members of the raw payload that are not set already.\<close>

definition add_raw :: "(string, json) gomap \<Rightarrow> (string, json) gomap \<Rightarrow> (string, json) gomap" where
  "add_raw raw data = fold (\<lambda>(k, v) m. if mem_key k m then m else mput k v m) raw data"

definition publish_hook ::
  "hooks_handler \<Rightarrow> time \<Rightarrow> string \<Rightarrow> (string, json) gomap \<Rightarrow> hook_payload \<Rightarrow> perm_world \<Rightarrow> perm_world" where
  "publish_hook h now ty data p w =
     w\<lparr>published := published w @
        [(NewEvent now ty (map_json (add_raw (Raw p) data)))\<lparr>ev_workspace := resolveWorkspaceID h (hp_Cwd p)\<rparr>]\<rparr>"

definition handleSessionStart :: "hooks_handler \<Rightarrow> time \<Rightarrow> hook_payload \<Rightarrow> perm_world \<Rightarrow> perm_world" where
  "handleSessionStart h now p =
     publish_hook h now ''claude_hook_session''
       [(''session_id'', JStr (hp_SessionID p)), (''cwd'', JStr (hp_Cwd p)),
        (''transcript_path'', JStr (TranscriptPath p)), (''permission_mode'', JStr (PermissionMode p)),
        (''source'', JStr ''external'')] p"

definition handleNotification :: "hooks_handler \<Rightarrow> time \<Rightarrow> hook_payload \<Rightarrow> perm_world \<Rightarrow> perm_world" where
  "handleNotification h now p =
     publish_hook h now ''claude_hook_permission''
       [(''session_id'', JStr (hp_SessionID p)), (''cwd'', JStr (hp_Cwd p)), (''message'', JStr (Message p)),
        (''notification_type'', JStr (NotificationType p)), (''transcript_path'', JStr (TranscriptPath p))] p"

definition handleToolStart :: "hooks_handler \<Rightarrow> time \<Rightarrow> hook_payload \<Rightarrow> perm_world \<Rightarrow> perm_world" where
  "handleToolStart h now p =
     publish_hook h now ''claude_hook_tool_start''
       [(''session_id'', JStr (hp_SessionID p)), (''cwd'', JStr (hp_Cwd p)), (''tool_name'', JStr (hp_ToolName p)),
        (''tool_input'', hp_ToolInput p), (''tool_use_id'', JStr (hp_ToolUseID p)),
        (''transcript_path'', JStr (TranscriptPath p)), (''permission_mode'', JStr (PermissionMode p))] p"

definition handleToolEnd :: "hooks_handler \<Rightarrow> time \<Rightarrow> hook_payload \<Rightarrow> perm_world \<Rightarrow> perm_world" where
  "handleToolEnd h now p =
     publish_hook h now ''claude_hook_tool_end''
       [(''session_id'', JStr (hp_SessionID p)), (''cwd'', JStr (hp_Cwd p)), (''tool_name'', JStr (hp_ToolName p)),
        (''tool_result'', ToolResult p), (''tool_use_id'', JStr (hp_ToolUseID p)),
        (''transcript_path'', JStr (TranscriptPath p))] p"

section \<open>The permission request\<close>

definition hook_permission_event :: "time \<Rightarrow> perm_request \<Rightarrow> event" where
  "hook_permission_event now req =
     (let payload = \<lparr>pp_tool_use = ToolUseID req,
            pp_type = GeneratePermissionType (ToolName req),
            Target = ExtractTarget (ToolName req) (ToolInput req),
            pp_description = GenerateReadableDescription (ToolName req) (ToolInput req),
            Preview = ExtractPreview (ToolName req) (ToolInput req),
            Options = Some permission_options,
            pp_session = SessionID req,
            pp_workspace = WorkspaceID req\<rparr>;
          e = NewEvent now ''pty_permission'' (PTYPermissionPayload payload)
      in SetAgentType ''claude'' (e\<lparr>ev_session := SessionID req\<rparr>))"

text \<open>An input that is not an object counts as the empty one. The members of a response are sorted by name.\<close>

definition hook_input :: "json \<Rightarrow> tool_input" where
  "hook_input j = (case j of JObj kvs \<Rightarrow> fold (\<lambda>(k, v) m. mput k v m) kvs [] | _ \<Rightarrow> [])"

definition decided :: "decision \<Rightarrow> string \<Rightarrow> string \<Rightarrow> http_response" where
  "decided dec pattern scope =
     writeJSON 200 (JObj [(''decision'', JStr dec), (''pattern'', JStr pattern), (''scope'', JStr scope)])"

definition ask :: "string \<Rightarrow> http_response" where
  "ask reason = writeJSON 200 (JObj [(''decision'', JStr ''ask''), (''message'', JStr reason)])"

definition bypassed :: http_response where
  "bypassed = writeJSON 200 (JObj [(''decision'', JStr ''allow''), (''message'', JStr ''bypass_permissions''),
     (''scope'', JStr ''session'')])"

datatype hook_result =
    Written http_response
  | Blocked perm_request

definition handlePermissionRequest ::
  "hooks_handler \<Rightarrow> string list \<Rightarrow> time \<Rightarrow> hook_payload \<Rightarrow> perm_world \<Rightarrow> hook_result \<times> perm_world" where
  "handlePermissionRequest h order now p w =
     (if isBypassPermissionMode (PermissionMode p) then (Written bypassed, w)
      else if \<not> permissionManager h then (Written (ask ''permission_manager_not_configured''), w)
      else (let toolInput = hook_input (hp_ToolInput p) in
        case CheckMemory order (hp_SessionID p) (hp_ToolName p) toolInput now (mgr w) of
          (Some stored, m) \<Rightarrow>
            (Written (decided (sd_decision stored) (sd_pattern stored) ''session''), w\<lparr>mgr := m\<rparr>)
        | (None, m) \<Rightarrow>
            (let req = \<lparr>ID = hp_ToolUseID p, SessionID = hp_SessionID p,
                   WorkspaceID = resolveWorkspaceID h (hp_Cwd p), ToolName = hp_ToolName p, ToolInput = toolInput,
                   ToolUseID = hp_ToolUseID p, CreatedAt = now, ResponseChan = next_chan w\<rparr>
             in (Blocked req, w\<lparr>mgr := AddPendingRequest req m, next_chan := next_chan w + 1,
                   published := published w @ [hook_permission_event now req]\<rparr>))))"

definition hook_answered :: "perm_request \<Rightarrow> perm_world \<Rightarrow> http_response option \<times> perm_world" where
  "hook_answered req w =
     (let (r, m) = chan_recv (ResponseChan req) (mgr w)
      in (map_option (\<lambda>r. decided (Decision r) (Pattern r) (Scope r)) r, w\<lparr>mgr := m\<rparr>))"

definition hook_timeout :: "perm_request \<Rightarrow> perm_world \<Rightarrow> http_response \<times> perm_world" where
  "hook_timeout req w =
     (ask ''timeout'', w\<lparr>mgr := snd (GetAndRemovePendingRequest (ToolUseID req) (mgr w))\<rparr>)"

section \<open>The endpoint\<close>

definition hook_ok :: http_response where
  "hook_ok = writeJSON 200 (JObj [(''ok'', JBool True)])"

definition hook_body_limit :: nat where
  "hook_body_limit = 1024 * 1024"

definition HandleHook ::
  "hooks_handler \<Rightarrow> string list \<Rightarrow> time \<Rightarrow> string \<Rightarrow> string \<Rightarrow> string option \<Rightarrow> perm_world \<Rightarrow> hook_result \<times> perm_world" where
  "HandleHook h order now method path input w =
     (if method \<noteq> ''POST'' then (Written (http_Error ''Method not allowed'' 405), w)
      else case input of
        None \<Rightarrow> (Written (writeJSONError ''failed to read body'' 400), w)
      | Some data \<Rightarrow>
          (let hookType = trim_suffix ''/'' (trim_prefix ''/api/hooks/'' path);
               p = parse_payload (take hook_body_limit data)
           in if hookType = ''session'' then (Written hook_ok, handleSessionStart h now p w)
              else if hookType = ''notification'' \<or> hookType = ''permission'' then
                (Written hook_ok, handleNotification h now p w)
              else if hookType = ''permission-request'' then handlePermissionRequest h order now p w
              else if hookType = ''tool-start'' then (Written hook_ok, handleToolStart h now p w)
              else if hookType = ''tool-end'' then (Written hook_ok, handleToolEnd h now p w)
              else (Written hook_ok, w)))"

section \<open>What the hook reads\<close>

text \<open>The script takes the member \<open>decision\<close> of the response.\<close>

definition hook_decision :: "http_response \<Rightarrow> decision" where
  "hook_decision r =
     (case Body r of
        Json (JObj kvs) \<Rightarrow> (case map_of kvs ''decision'' of Some (JStr d) \<Rightarrow> d | _ \<Rightarrow> [])
      | _ \<Rightarrow> [])"

lemma hook_decision_simps [simp]:
  "hook_decision (decided d p s) = d" "hook_decision (ask reason) = ''ask''" "hook_decision bypassed = DecisionAllow"
  by (simp_all add: hook_decision_def decided_def ask_def bypassed_def writeJSON_def DecisionAllow_def)

lemma publish_hook_simps [simp]:
  "mgr (publish_hook h now ty data p w) = mgr w" "next_chan (publish_hook h now ty data p w) = next_chan w"
  by (simp_all add: publish_hook_def)

lemmas publishing_hooks = handleSessionStart_def handleNotification_def handleToolStart_def handleToolEnd_def

text \<open>Of all hooks only the permission request touches the memory manager.\<close>

lemma HandleHook_cases:
  assumes "HandleHook h order now method path input w = (res, w')"
  obtains (quiet) resp where "res = Written resp" "mgr w' = mgr w" "next_chan w' = next_chan w"
  | (request) data where "input = Some data" "method = ''POST''"
      "trim_suffix ''/'' (trim_prefix ''/api/hooks/'' path) = ''permission-request''"
      "handlePermissionRequest h order now (parse_payload (take hook_body_limit data)) w = (res, w')"
proof (cases "method = ''POST''")
  case False
  then show thesis using assms quiet by (auto simp: HandleHook_def)
next
  case post: True
  show thesis
  proof (cases input)
    case None
    then show thesis using assms post quiet by (auto simp: HandleHook_def)
  next
    case (Some data)
    show thesis
    proof (cases "trim_suffix ''/'' (trim_prefix ''/api/hooks/'' path) = ''permission-request''")
      case True
      then show thesis using assms post Some request by (simp add: HandleHook_def)
    next
      case False
      then have "(\<exists>resp. res = Written resp) \<and> mgr w' = mgr w \<and> next_chan w' = next_chan w"
        using assms post Some by (auto simp: HandleHook_def Let_def publishing_hooks split: if_splits)
      then show thesis using quiet by blast
    qed
  qed
qed

lemma handlePermissionRequest_cases:
  assumes "handlePermissionRequest h order now p w = (res, w')"
  obtains (bypass) "isBypassPermissionMode (PermissionMode p)" "res = Written bypassed" "w' = w"
  | (unmanaged) reason where "res = Written (ask reason)" "w' = w"
  | (remembered) d where "res = Written (decided (sd_decision d) (sd_pattern d) ''session'')" "next_chan w' = next_chan w"
      "\<not> isBypassPermissionMode (PermissionMode p)"
      "CheckMemory order (hp_SessionID p) (hp_ToolName p) (hook_input (hp_ToolInput p)) now (mgr w) = (Some d, mgr w')"
  | (blocked) req m where "res = Blocked req" "next_chan w' = next_chan w + 1" "ResponseChan req = next_chan w"
      "\<not> isBypassPermissionMode (PermissionMode p)"
      "CheckMemory order (hp_SessionID p) (hp_ToolName p) (hook_input (hp_ToolInput p)) now (mgr w) = (None, m)"
      "mgr w' = AddPendingRequest req m" "SessionID req = hp_SessionID p" "ToolName req = hp_ToolName p"
      "ToolInput req = hook_input (hp_ToolInput p)" "ToolUseID req = hp_ToolUseID p"
proof (cases "isBypassPermissionMode (PermissionMode p) \<or> \<not> permissionManager h")
  case True
  then show thesis using assms bypass unmanaged by (auto simp: handlePermissionRequest_def split: if_splits)
next
  case False
  obtain st m where c: "CheckMemory order (hp_SessionID p) (hp_ToolName p) (hook_input (hp_ToolInput p)) now (mgr w) = (st, m)"
    by fastforce
  show thesis
  proof (cases st)
    case None
    then show thesis
      using assms False c by (intro blocked [of _ m]) (auto simp: handlePermissionRequest_def Let_def)
  next
    case (Some d)
    then show thesis
      using assms False c by (intro remembered [of d]) (auto simp: handlePermissionRequest_def Let_def)
  qed
qed

text \<open>Bypass modes are the two names, with any white space around them; the empty mode is none.\<close>

lemma no_bypass_by_default [simp]: "\<not> isBypassPermissionMode []"
proof -
  have "space_tail [] = 0"
    by (auto simp: space_tail_def has_suffix_iff find_Some_iff split: option.split)
  then have "trim_right_space [] = []" by (subst trim_right_space.simps) simp
  then show ?thesis by (simp add: isBypassPermissionMode_def trim_space_def)
qed

end
