(* ===== verification/Permission_Bridge.thy ===== *)
theory Permission_Bridge
  imports Hooks_Handler
begin

text \<open>
  The permission bridge as a whole: \<open>permission/request\<close>, \<open>permission/respond\<close> and the hook endpoint over the
  one memory manager of the program (\<open>internal/app/app.go\<close> gives it to both), interleaved in any order with
  timeouts, cancellations, expiries and cleared sessions.

  The theorem is that nothing is allowed by default: a tool is allowed only because a phone allowed this
  use of it, or allowed its session a pattern that covers it, or because the Claude that asks runs in a mode
  that bypasses permissions.
\<close>

section \<open>The bridge as a transition system\<close>

text \<open>
  A trace is the world with its history: the requests whose handlers are blocked, those of the hook endpoint
  with the permission mode their hook reported, the answers accepted from phones, and what each request
  returned. \<open>permission/request\<close> carries no permission mode.
\<close>

record answer =
  a_req :: perm_request
  a_decision :: decision
  a_session :: bool

record outcome =
  o_session :: string
  o_tool :: string
  o_input :: tool_input
  o_tool_use :: string
  o_mode :: string
  o_decision :: decision

record trace =
  world :: perm_world
  waiting :: "perm_request list"
  hooks_waiting :: "(string \<times> perm_request) list"
  answers :: "answer list"
  outcomes :: "outcome list"

definition start_trace :: "session_config \<Rightarrow> trace" where
  "start_trace cfg = \<lparr>world = start_world cfg, waiting = [], hooks_waiting = [], answers = [], outcomes = []\<rparr>"

definition request_outcome :: "string \<Rightarrow> perm_request \<Rightarrow> decision \<Rightarrow> outcome" where
  "request_outcome mode req d = \<lparr>o_session = SessionID req, o_tool = ToolName req, o_input = ToolInput req,
     o_tool_use = ToolUseID req, o_mode = mode, o_decision = d\<rparr>"

definition params_outcome :: "request_params \<Rightarrow> decision \<Rightarrow> outcome" where
  "params_outcome p d = \<lparr>o_session = rp_session p, o_tool = rp_tool p, o_input = rp_input p,
     o_tool_use = rp_tool_use p, o_mode = [], o_decision = d\<rparr>"

definition hook_outcome :: "hook_payload \<Rightarrow> decision \<Rightarrow> outcome" where
  "hook_outcome p d = \<lparr>o_session = hp_SessionID p, o_tool = hp_ToolName p, o_input = hook_input (hp_ToolInput p),
     o_tool_use = hp_ToolUseID p, o_mode = PermissionMode p, o_decision = d\<rparr>"

text \<open>The answer a successful \<open>Respond\<close> gives to the pending request it took.\<close>

definition respond_answer :: "respond_params \<Rightarrow> perm_request \<Rightarrow> answer" where
  "respond_answer p req = \<lparr>a_req = req, a_decision = sp_decision p, a_session = (sp_scope p = ''session'')\<rparr>"

text \<open>The payload of a permission request to the hook endpoint.\<close>

definition hook_request :: "string \<Rightarrow> string option \<Rightarrow> hook_payload option" where
  "hook_request path input =
     (if trim_suffix ''/'' (trim_prefix ''/api/hooks/'' path) = ''permission-request''
      then map_option (\<lambda>data. parse_payload (take hook_body_limit data)) input else None)"

inductive perm_reach :: "json_env \<Rightarrow> permission_service \<Rightarrow> hooks_handler \<Rightarrow> session_config \<Rightarrow> trace \<Rightarrow> bool" for env s h cfg where
  init: "perm_reach env s h cfg (start_trace cfg)"
| request_wait: "perm_reach env s h cfg t \<Longrightarrow> Request env s order n now params (world t) = (Waiting req, w') \<Longrightarrow>
    perm_reach env s h cfg (t\<lparr>world := w', waiting := req # waiting t\<rparr>)"
| request_return: "perm_reach env s h cfg t \<Longrightarrow>
    unmarshal_params env (decode_request_params env) zero_request params = Inr p \<Longrightarrow>
    Request env s order n now params (world t) = (Returned r, w') \<Longrightarrow>
    perm_reach env s h cfg (t\<lparr>world := w', outcomes := params_outcome p (Decision r) # outcomes t\<rparr>)"
| request_fail: "perm_reach env s h cfg t \<Longrightarrow> Request env s order n now params (world t) = (Failed e, w') \<Longrightarrow>
    perm_reach env s h cfg (t\<lparr>world := w'\<rparr>)"
| answered: "perm_reach env s h cfg t \<Longrightarrow> req \<in> set (waiting t) \<Longrightarrow>
    request_answered req (world t) = (Some r, w') \<Longrightarrow>
    perm_reach env s h cfg (t\<lparr>world := w', waiting := remove1 req (waiting t), outcomes := request_outcome [] req (Decision r) # outcomes t\<rparr>)"
| timed_out: "perm_reach env s h cfg t \<Longrightarrow> req \<in> set (waiting t) \<Longrightarrow>
    request_timeout req (world t) = (r, w') \<Longrightarrow>
    perm_reach env s h cfg (t\<lparr>world := w', waiting := remove1 req (waiting t), outcomes := request_outcome [] req (Decision r) # outcomes t\<rparr>)"
| cancelled: "perm_reach env s h cfg t \<Longrightarrow> req \<in> set (waiting t) \<Longrightarrow>
    request_cancelled req (world t) = (r, w') \<Longrightarrow>
    perm_reach env s h cfg (t\<lparr>world := w', waiting := remove1 req (waiting t), outcomes := request_outcome [] req (Decision r) # outcomes t\<rparr>)"
| respond: "perm_reach env s h cfg t \<Longrightarrow>
    unmarshal_params env (decode_respond_params env) zero_respond params = Inr p \<Longrightarrow>
    mget (pending (mgr (world t))) (sp_tool_use p) = Some req \<Longrightarrow>
    Respond env s order now params (world t) = (Inr (), w') \<Longrightarrow>
    perm_reach env s h cfg (t\<lparr>world := w', answers := respond_answer p req # answers t\<rparr>)"
| respond_fail: "perm_reach env s h cfg t \<Longrightarrow> Respond env s order now params (world t) = (Inl e, w') \<Longrightarrow>
    perm_reach env s h cfg (t\<lparr>world := w'\<rparr>)"
| expire: "perm_reach env s h cfg t \<Longrightarrow>
    perm_reach env s h cfg (t\<lparr>world := (world t)\<lparr>mgr := cleanup now (mgr (world t))\<rparr>\<rparr>)"
| clear: "perm_reach env s h cfg t \<Longrightarrow>
    m' \<in> {ClearSession sid (mgr (world t)), ClearWorkspace wid (mgr (world t))} \<Longrightarrow>
    perm_reach env s h cfg (t\<lparr>world := (world t)\<lparr>mgr := m'\<rparr>\<rparr>)"
| hook_permission: "perm_reach env s h cfg t \<Longrightarrow>
    hook_request path input = Some p \<Longrightarrow>
    HandleHook h order now ''POST'' path input (world t) = (Written resp, w') \<Longrightarrow>
    perm_reach env s h cfg (t\<lparr>world := w', outcomes := hook_outcome p (hook_decision resp) # outcomes t\<rparr>)"
| hook_wait: "perm_reach env s h cfg t \<Longrightarrow>
    hook_request path input = Some p \<Longrightarrow>
    HandleHook h order now ''POST'' path input (world t) = (Blocked req, w') \<Longrightarrow>
    perm_reach env s h cfg (t\<lparr>world := w', hooks_waiting := (PermissionMode p, req) # hooks_waiting t\<rparr>)"
| hook_other: "perm_reach env s h cfg t \<Longrightarrow>
    method \<noteq> ''POST'' \<or> hook_request path input = None \<Longrightarrow>
    HandleHook h order now method path input (world t) = (res, w') \<Longrightarrow>
    perm_reach env s h cfg (t\<lparr>world := w'\<rparr>)"
| hook_answer: "perm_reach env s h cfg t \<Longrightarrow> (mode, req) \<in> set (hooks_waiting t) \<Longrightarrow>
    hook_answered req (world t) = (Some resp, w') \<Longrightarrow>
    perm_reach env s h cfg (t\<lparr>world := w', hooks_waiting := remove1 (mode, req) (hooks_waiting t),
      outcomes := request_outcome mode req (hook_decision resp) # outcomes t\<rparr>)"
| hook_timed_out: "perm_reach env s h cfg t \<Longrightarrow> (mode, req) \<in> set (hooks_waiting t) \<Longrightarrow>
    hook_timeout req (world t) = (resp, w') \<Longrightarrow>
    perm_reach env s h cfg (t\<lparr>world := w', hooks_waiting := remove1 (mode, req) (hooks_waiting t),
      outcomes := request_outcome mode req (hook_decision resp) # outcomes t\<rparr>)"

section \<open>What each operation does to the manager\<close>

text \<open>The parts of the manager the argument needs: its decisions, its channels, its pending requests.\<close>

definition grows :: "memory_manager \<Rightarrow> memory_manager \<Rightarrow> (string \<times> string \<times> decision) set \<Rightarrow>
    (nat \<times> perm_response) set \<Rightarrow> perm_request set \<Rightarrow> bool" where
  "grows m m' D C P \<longleftrightarrow>
     (wf_map (sessions m) \<longrightarrow> wf_map (sessions m') \<and>
        (\<forall>sid p d. decision_map m' sid p = Some d \<longrightarrow> decision_map m sid p = Some d \<or> (sid, p, d) \<in> D)) \<and>
     (\<forall>c r. r \<in> set (chan_buf c m') \<longrightarrow> r \<in> set (chan_buf c m) \<or> (c, r) \<in> C) \<and>
     (\<forall>k req. mget (pending m') k = Some req \<longrightarrow> mget (pending m) k = Some req \<or> req \<in> P)"

lemma grows_refl: "grows m m D C P"
  by (simp add: grows_def)

lemma grows_trans: "grows m m1 D C P \<Longrightarrow> grows m1 m2 D C P \<Longrightarrow> grows m m2 D C P"
  unfolding grows_def by blast

lemma grows_CheckMemory: "grows m (snd (CheckMemory order sid tool inp now m)) D C P"
proof -
  have "wf_map (sessions m) \<Longrightarrow> wf_map (sessions (snd (CheckMemory order sid tool inp now m)))"
    by (cases rule: CheckMemory_cases [of m sid order tool inp now]) simp_all
  moreover have "chans (snd (CheckMemory order sid tool inp now m)) = chans m \<and>
      pending (snd (CheckMemory order sid tool inp now m)) = pending m"
    by (cases rule: CheckMemory_cases [of m sid order tool inp now]) simp_all
  ultimately show ?thesis
    by (simp add: grows_def decision_map_CheckMemory chan_buf_def)
qed

lemma decision_map_StoreDecision_grow:
  assumes "decision_map (StoreDecision order sid wid p dec now m) sid' p' = Some d"
  shows "decision_map m sid' p' = Some d \<or> (sid', p', d) = (sid, p, dec)"
proof (cases "sid' = sid \<and> p' \<noteq> p")
  case True
  then obtain e where e: "mget (make_room order (MaxPatterns (config m)) (patterns_of sid m)) p' = Some e" "d = sd_decision e"
    using assms by (auto simp: decision_map_def patterns_of_StoreDecision)
  then have "mget (patterns_of sid m) p' = Some e"
    by (auto simp: make_room_def Let_def split: if_splits)
  then show ?thesis using True e(2) by (simp add: decision_map_def)
qed (use assms in \<open>auto simp: decision_map_def patterns_of_StoreDecision split: if_splits\<close>)

lemma grows_StoreDecision:
  "(sid, p, dec) \<in> D \<Longrightarrow> grows m (StoreDecision order sid wid p dec now m) D C P"
  using decision_map_StoreDecision_grow [of order sid wid p dec now m]
  by (auto simp: grows_def chan_buf_def StoreDecision_def Let_def)

lemma grows_chan_send: "(c, r) \<in> C \<Longrightarrow> grows m (snd (chan_send c r m)) D C P"
  by (auto simp: grows_def chan_send_def chan_buf_def decision_map_def patterns_of_def split: if_splits option.splits)

lemma grows_chan_recv: "grows m (snd (chan_recv c m)) D C P"
  by (auto simp: grows_def chan_recv_def chan_buf_def decision_map_def patterns_of_def
      split: list.splits option.splits if_splits)

lemma grows_unpend: "grows m (m\<lparr>pending := mdel k (pending m)\<rparr>) D C P"
  by (simp add: grows_def decision_map_def patterns_of_def chan_buf_def)

lemma grows_Add: "req \<in> P \<Longrightarrow> grows m (AddPendingRequest req m) D C P"
  by (simp add: grows_def AddPendingRequest_def decision_map_def patterns_of_def chan_buf_def)

lemma grows_Remove: "grows m (RemovePendingRequest k m) D C P"
proof (cases "mget (pending m) k")
  case None
  then show ?thesis by (simp add: RemovePendingRequest_def grows_refl)
next
  case (Some req)
  then show ?thesis
    using grows_trans [OF grows_chan_recv grows_unpend] by (simp add: RemovePendingRequest_def Let_def)
qed

lemma grows_GetAndRemove: "grows m (snd (GetAndRemovePendingRequest k m)) D C P"
  by (simp add: GetAndRemovePendingRequest_def grows_refl grows_unpend split: option.split)

lemma grows_sessions:
  assumes "\<And>k. wf_map (sessions m) \<Longrightarrow> mget (sessions m') k \<noteq> None \<Longrightarrow> mget (sessions m') k = mget (sessions m) k"
    and "wf_map (sessions m) \<Longrightarrow> wf_map (sessions m')" "chans m' = chans m" "pending m' = pending m"
  shows "grows m m' D C P"
  using assms by (fastforce simp: grows_def decision_map_def patterns_of_def chan_buf_def split: option.splits)

lemma grows_cleanup: "grows m (cleanup now m) D C P"
  by (rule grows_sessions) (auto simp: cleanup_def mget_mdel_if split: option.splits if_splits)

lemma grows_clear: "grows m (ClearSession sid m) D C P" "grows m (ClearWorkspace wid m) D C P"
  by (rule grows_sessions; auto simp: ClearSession_def ClearWorkspace_def mget_mdel_if split: option.splits if_splits)+

lemma Request_cases:
  assumes "Request env s order n now params w = (out, w')"
  obtains (failed) e where "out = Failed e" "w' = w"
  | (remembered) p d r where "unmarshal_params env (decode_request_params env) zero_request params = Inr p"
      "out = Returned r" "Decision r = sd_decision d" "next_chan w' = next_chan w"
      "CheckMemory order (rp_session p) (rp_tool p) (rp_input p) now (mgr w) = (Some d, mgr w')"
  | (no_clients) p r req where "unmarshal_params env (decode_request_params env) zero_request params = Inr p"
      "out = Returned r" "Decision r = DecisionDeny" "next_chan w' = next_chan w + 1"
      "ResponseChan req = next_chan w" "grows (mgr w) (mgr w') {} {} {req}"
  | (blocked) req where "out = Waiting req" "next_chan w' = next_chan w + 1"
      "ResponseChan req = next_chan w" "grows (mgr w) (mgr w') {} {} {req}"
proof (cases "unmarshal_params env (decode_request_params env) zero_request params")
  case (Inl e)
  then show thesis using assms failed by (auto simp: Request_def split: if_splits)
next
  case (Inr p)
  show thesis
  proof (cases "has_manager s \<and> rp_session p \<noteq> [] \<and> rp_tool p \<noteq> [] \<and> rp_tool_use p \<noteq> []")
    case False
    then show thesis using assms Inr failed by (auto simp: Request_def split: if_splits)
  next
    case valid: True
    obtain st m where c: "CheckMemory order (rp_session p) (rp_tool p) (rp_input p) now (mgr w) = (st, m)"
      by fastforce
    show thesis
    proof (cases st)
      case (Some d)
      then show thesis
        using assms Inr valid c remembered [OF Inr, of _ d] by (auto simp: Request_def response_def)
    next
      case None
      define ws where "ws = (case resolver s of None \<Rightarrow> []
          | Some r \<Rightarrow> if Cwd p \<noteq> [] then (case r (Cwd p) of Some i \<Rightarrow> i | None \<Rightarrow> []) else [])"
      define req where "req = \<lparr>ID = rp_tool_use p, SessionID = rp_session p, WorkspaceID = ws,
                       ToolName = rp_tool p, ToolInput = rp_input p, ToolUseID = rp_tool_use p,
                       CreatedAt = now, ResponseChan = next_chan w\<rparr>"
      have "grows (mgr w) m {} {} {req}"
        using grows_CheckMemory [of "mgr w" order "rp_session p" "rp_tool p" "rp_input p" now] c by simp
      then have add: "grows (mgr w) (AddPendingRequest req m) {} {} {req}"
        using grows_trans grows_Add by blast
      then have remove: "grows (mgr w) (RemovePendingRequest k (AddPendingRequest req m)) {} {} {req}" for k
        using grows_trans grows_Remove by blast
      have chan: "ResponseChan req = next_chan w" by (simp add: req_def)
      note defs = Request_def Inr valid c None ws_def [symmetric] req_def [symmetric] Let_def
      show thesis
      proof (cases "\<not> has_publisher s \<or> n > 1")
        case True
        then have "out = Waiting req \<and> mgr w' = AddPendingRequest req m \<and> next_chan w' = next_chan w + 1"
          using assms by (auto simp: defs split: if_splits)
        then show thesis using blocked [of req] chan add by simp
      next
        case False
        then have "out = Returned (response DecisionDeny [] [] ''no_clients'') \<and>
            mgr w' = RemovePendingRequest (rp_tool_use p) (AddPendingRequest req m) \<and> next_chan w' = next_chan w + 1"
          using assms by (auto simp: defs split: if_splits)
        then show thesis using no_clients [OF Inr _ _ _ chan] remove by (simp add: response_def)
      qed
    qed
  qed
qed

definition answer_pattern :: "answer \<Rightarrow> string" where
  "answer_pattern a = GeneratePattern (ToolName (a_req a)) (ToolInput (a_req a))"

lemma Respond_Inr:
  assumes "Respond env s order now params w = (Inr (), w')"
    and "unmarshal_params env (decode_respond_params env) zero_respond params = Inr p"
    and "mget (pending (mgr w)) (sp_tool_use p) = Some req"
  shows "grows (mgr w) (mgr w')
      (if sp_scope p = ''session'' then {(SessionID req, GeneratePattern (ToolName req) (ToolInput req), sp_decision p)} else {})
      {(c, r). c = ResponseChan req \<and> Decision r = sp_decision p} {}"
    and "next_chan w' = next_chan w" "sp_decision p = ''allow'' \<or> sp_decision p = ''deny''"
proof -
  let ?D = "if sp_scope p = ''session'' then {(SessionID req, GeneratePattern (ToolName req) (ToolInput req), sp_decision p)} else {}"
  let ?C = "{(c, r). c = ResponseChan req \<and> Decision r = sp_decision p}"
  let ?pat = "GeneratePattern (ToolName req) (ToolInput req)"
  have valid: "has_manager s" "sp_tool_use p \<noteq> []" "sp_decision p \<noteq> []"
    and dec: "sp_decision p = ''allow'' \<or> sp_decision p = ''deny''"
    using assms(1,2) by (auto simp: Respond_def split: if_splits)
  show "sp_decision p = ''allow'' \<or> sp_decision p = ''deny''" by (rule dec)
  define m where "m = (mgr w)\<lparr>pending := mdel (sp_tool_use p) (pending (mgr w))\<rparr>"
  define m1 where "m1 = (if sp_scope p = ''session''
      then StoreDecision order (SessionID req) (WorkspaceID req) ?pat (sp_decision p) now m else m)"
  define r where "r = response (sp_decision p) (if sp_scope p = ''session'' then ScopeSession else ScopeOnce)
      (if sp_scope p = ''session'' then ?pat else []) []"
  have scopes: "ScopeOnce \<noteq> ScopeSession" by (simp add: ScopeOnce_def ScopeSession_def)
  have w': "mgr w' = snd (chan_send (ResponseChan req) r m1)" and nc: "next_chan w' = next_chan w"
    using assms valid dec scopes
    by (cases "sp_scope p = ''session''";
        auto simp: Respond_def GetAndRemovePendingRequest_def Let_def m_def m1_def r_def response_def)+
  have g1: "grows (mgr w) m ?D ?C {}" unfolding m_def by (rule grows_unpend)
  have g2: "grows m m1 ?D ?C {}"
    by (simp add: m1_def grows_refl grows_StoreDecision)
  have g3: "grows m1 (mgr w') ?D ?C {}"
    unfolding w' by (rule grows_chan_send) (simp add: r_def response_def)
  show "grows (mgr w) (mgr w') ?D ?C {}" by (rule grows_trans [OF g1 grows_trans [OF g2 g3]])
  show "next_chan w' = next_chan w" by (rule nc)
qed

lemma Respond_Inl:
  assumes "Respond env s order now params w = (Inl e, w')"
  shows "w' = w"
  using assms
  by (auto simp: Respond_def GetAndRemovePendingRequest_def Let_def split: if_splits sum.splits option.splits)

section \<open>The safety of the bridge\<close>

text \<open>An outcome is covered by an answer for the same request, or by one for the session that fits it.\<close>

definition covered :: "answer list \<Rightarrow> outcome \<Rightarrow> bool" where
  "covered as oc \<longleftrightarrow>
     (\<exists>a \<in> set as. a_decision a = o_decision oc \<and> SessionID (a_req a) = o_session oc \<and>
        (ToolUseID (a_req a) = o_tool_use oc \<and> ToolName (a_req a) = o_tool oc \<and> ToolInput (a_req a) = o_input oc \<or>
         a_session a \<and> (answer_pattern a = GeneratePattern (o_tool oc) (o_input oc) \<or>
           MatchPattern (answer_pattern a) (o_tool oc) (o_input oc))))"

text \<open>
  An outcome is accounted for when it does not allow (it denies, or leaves the question to Claude's own
  prompt), when its Claude bypasses permissions, or when it is covered.
\<close>

definition accounted :: "answer list \<Rightarrow> outcome \<Rightarrow> bool" where
  "accounted as oc \<longleftrightarrow> o_decision oc \<in> {DecisionDeny, ''ask''} \<or> isBypassPermissionMode (o_mode oc) \<or> covered as oc"

definition universe :: "trace \<Rightarrow> perm_request set" where
  "universe t = set (waiting t) \<union> snd ` set (hooks_waiting t) \<union> a_req ` set (answers t) \<union>
     {req. \<exists>k. mget (pending (mgr (world t))) k = Some req}"

definition trace_ok :: "trace \<Rightarrow> bool" where
  "trace_ok t \<longleftrightarrow>
     wf_map (sessions (mgr (world t))) \<and>
     (\<forall>sid p d. decision_map (mgr (world t)) sid p = Some d \<longrightarrow>
        (\<exists>a \<in> set (answers t). a_session a \<and> SessionID (a_req a) = sid \<and> answer_pattern a = p \<and> a_decision a = d)) \<and>
     (\<forall>c r. r \<in> set (chan_buf c (mgr (world t))) \<longrightarrow>
        (\<exists>a \<in> set (answers t). ResponseChan (a_req a) = c \<and> a_decision a = Decision r)) \<and>
     (\<forall>q \<in> universe t. ResponseChan q < next_chan (world t)) \<and> inj_on ResponseChan (universe t) \<and>
     (\<forall>oc \<in> set (outcomes t). accounted (answers t) oc)"

lemma covered_mono: "covered as oc \<Longrightarrow> set as \<subseteq> set bs \<Longrightarrow> covered bs oc"
  unfolding covered_def by blast

lemma accounted_mono: "accounted as oc \<Longrightarrow> set as \<subseteq> set bs \<Longrightarrow> accounted bs oc"
  using covered_mono unfolding accounted_def by blast

lemma accounted_simps [simp]:
  "o_decision oc = DecisionDeny \<Longrightarrow> accounted as oc" "o_decision oc = ''ask'' \<Longrightarrow> accounted as oc"
  "isBypassPermissionMode (o_mode oc) \<Longrightarrow> accounted as oc" "covered as oc \<Longrightarrow> accounted as oc"
  by (simp_all add: accounted_def)

lemma trace_ok_step:
  assumes ok: "trace_ok t" and g: "grows (mgr (world t)) (mgr (world t')) D C P"
    and mono: "set (answers t) \<subseteq> set (answers t')"
    and D: "\<And>sid p d. (sid, p, d) \<in> D \<Longrightarrow>
      \<exists>a \<in> set (answers t'). a_session a \<and> SessionID (a_req a) = sid \<and> answer_pattern a = p \<and> a_decision a = d"
    and C: "\<And>c r. (c, r) \<in> C \<Longrightarrow> \<exists>a \<in> set (answers t'). ResponseChan (a_req a) = c \<and> a_decision a = Decision r"
    and U: "set (waiting t') \<union> snd ` set (hooks_waiting t') \<union> a_req ` set (answers t') \<union> P \<subseteq> universe t \<union> N"
    and N: "\<forall>q \<in> N. ResponseChan q = next_chan (world t) \<and> next_chan (world t) < next_chan (world t')"
      "\<forall>q \<in> N. \<forall>q' \<in> N. q = q'"
    and mono_chan: "next_chan (world t) \<le> next_chan (world t')"
    and O: "\<And>oc. oc \<in> set (outcomes t') \<Longrightarrow> oc \<in> set (outcomes t) \<or> accounted (answers t') oc"
  shows "trace_ok t'"
  unfolding trace_ok_def
proof (intro conjI)
  have U': "universe t' \<subseteq> universe t \<union> N"
  proof -
    have "\<And>k req. mget (pending (mgr (world t'))) k = Some req \<Longrightarrow>
        (\<exists>k. mget (pending (mgr (world t))) k = Some req) \<or> req \<in> P"
      using g unfolding grows_def by blast
    then show ?thesis using U unfolding universe_def by blast
  qed
  show "wf_map (sessions (mgr (world t')))" using ok g by (simp add: trace_ok_def grows_def)
  show "\<forall>sid p d. decision_map (mgr (world t')) sid p = Some d \<longrightarrow>
        (\<exists>a \<in> set (answers t'). a_session a \<and> SessionID (a_req a) = sid \<and> answer_pattern a = p \<and> a_decision a = d)"
    using ok g D mono unfolding trace_ok_def grows_def by blast
  show "\<forall>c r. r \<in> set (chan_buf c (mgr (world t'))) \<longrightarrow>
        (\<exists>a \<in> set (answers t'). ResponseChan (a_req a) = c \<and> a_decision a = Decision r)"
    using ok g C mono unfolding trace_ok_def grows_def by blast
  have old: "\<forall>q \<in> universe t. ResponseChan q < next_chan (world t)" "inj_on ResponseChan (universe t)"
    using ok by (simp_all add: trace_ok_def)
  show "\<forall>q \<in> universe t'. ResponseChan q < next_chan (world t')"
    using U' N(1) old(1) mono_chan by fastforce
  show "inj_on ResponseChan (universe t')"
  proof (rule inj_onI)
    fix q q'
    assume q: "q \<in> universe t'" "q' \<in> universe t'" "ResponseChan q = ResponseChan q'"
    then have "q \<in> universe t \<union> N" "q' \<in> universe t \<union> N" using U' by blast+
    then show "q = q'"
      using q(3) N old(1) inj_onD [OF old(2)] by (metis UnE less_irrefl)
  qed
  show "\<forall>oc \<in> set (outcomes t'). accounted (answers t') oc"
    using O ok accounted_mono [OF _ mono] unfolding trace_ok_def by blast
qed

lemma remembered_covered:
  assumes "trace_ok t"
    "CheckMemory order sid tool inp now (mgr (world t)) = (Some d, m)"
    "dec = sd_decision d"
  shows "covered (answers t) \<lparr>o_session = sid, o_tool = tool, o_input = inp, o_tool_use = k, o_mode = mode, o_decision = dec\<rparr>"
proof (cases rule: CheckMemory_cases [of "mgr (world t)" sid order tool inp now])
  case (found mem p d0)
  then have "decision_map (mgr (world t)) sid p = Some dec"
    using assms(2,3) by (simp add: decision_map_def patterns_of_def use_def)
  then obtain a where "a \<in> set (answers t)" "a_session a" "SessionID (a_req a) = sid"
    "answer_pattern a = p" "a_decision a = dec"
    using assms(1) unfolding trace_ok_def by blast
  then show ?thesis using found(3) by (auto simp: covered_def)
qed (use assms(2) in simp_all)

text \<open>What a request receives on its channel is an answer to itself.\<close>

lemma received_covered:
  assumes ok: "trace_ok t" and "req \<in> universe t"
    and "chan_recv (ResponseChan req) (mgr (world t)) = (Some r, m)"
  shows "covered (answers t) (request_outcome mode req (Decision r))"
proof -
  have "r \<in> set (chan_buf (ResponseChan req) (mgr (world t)))"
    using assms(3) by (auto simp: chan_recv_def split: list.splits)
  then obtain a where a: "a \<in> set (answers t)" "ResponseChan (a_req a) = ResponseChan req" "a_decision a = Decision r"
    using ok unfolding trace_ok_def by blast
  have "a_req a \<in> universe t" using a(1) by (auto simp: universe_def)
  then have "a_req a = req" using ok a(2) assms(2) unfolding trace_ok_def by (meson inj_onD)
  then show ?thesis using a(1,3) by (auto simp: covered_def request_outcome_def)
qed

lemma snd_remove1_subset: "set (remove1 (m, r) xs) \<subseteq> set xs"
  by (rule set_remove1_subset)

lemma perm_reach_ok: "perm_reach env s h cfg t \<Longrightarrow> trace_ok t"
proof (induction rule: perm_reach.induct)
  case init
  show ?case
    by (simp add: trace_ok_def start_trace_def start_world_def decision_map_def universe_def chan_buf_def
        NewMemoryManager_def patterns_of_def)
next
  case (request_wait t order n now params req w')
  from request_wait.hyps(2) show ?case
  proof (cases rule: Request_cases)
    case (blocked req')
    then show ?thesis
      by (intro trace_ok_step [OF request_wait.IH, where N = "{req}" and D = "{}" and C = "{}" and P = "{req}"]) (auto simp: universe_def)
  qed auto
next
  case (request_return t params p order n now r w')
  from request_return.hyps(3) show ?case
  proof (cases rule: Request_cases)
    case (remembered p' d r')
    have "covered (answers t) (params_outcome p (Decision r))"
      unfolding params_outcome_def
      by (rule remembered_covered [OF request_return.IH]) (use remembered request_return.hyps(2) in auto)
    moreover have "grows (mgr (world t)) (mgr w') {} {} {}"
      using grows_CheckMemory remembered(5) by (metis snd_conv)
    ultimately show ?thesis
      using request_return.IH remembered(4)
      by (intro trace_ok_step [OF request_return.IH, where N = "{}" and D = "{}" and C = "{}" and P = "{}"]) (auto simp: universe_def)
  next
    case (no_clients p' r' req)
    then show ?thesis
      using request_return.IH
      by (intro trace_ok_step [OF request_return.IH, where N = "{req}" and D = "{}" and C = "{}" and P = "{req}"]) (auto simp: universe_def params_outcome_def)
  qed auto
next
  case (request_fail t order n now params e w')
  from request_fail.hyps(2) have "w' = world t" by (cases rule: Request_cases) auto
  then show ?case using request_fail.IH by simp
next
  case (answered t req r w')
  obtain m where m: "chan_recv (ResponseChan req) (mgr (world t)) = (Some r, m)" "w' = (world t)\<lparr>mgr := m\<rparr>"
    using answered.hyps(3) by (auto simp: request_answered_def split: prod.splits)
  have "req \<in> universe t" using answered.hyps(2) by (simp add: universe_def)
  then have "covered (answers t) (request_outcome [] req (Decision r))"
    by (rule received_covered [OF answered.IH _ m(1)])
  moreover have "grows (mgr (world t)) m {} {} {}" using grows_chan_recv m(1) by (metis snd_conv)
  ultimately show ?case
    using answered.IH m(2) set_remove1_subset [of req "waiting t"]
    by (intro trace_ok_step [OF answered.IH, where N = "{}" and D = "{}" and C = "{}" and P = "{}"]) (auto simp: universe_def)
next
  case (timed_out t req r w')
  then show ?case
    using grows_Remove [of "mgr (world t)" "ToolUseID req" "{}" "{}" "{}"] set_remove1_subset [of req "waiting t"]
    by (intro trace_ok_step [OF timed_out.IH, where N = "{}" and D = "{}" and C = "{}" and P = "{}"]) (auto simp: universe_def request_timeout_def response_def request_outcome_def)
next
  case (cancelled t req r w')
  then show ?case
    using grows_Remove [of "mgr (world t)" "ToolUseID req" "{}" "{}" "{}"] set_remove1_subset [of req "waiting t"]
    by (intro trace_ok_step [OF cancelled.IH, where N = "{}" and D = "{}" and C = "{}" and P = "{}"]) (auto simp: universe_def request_cancelled_def response_def request_outcome_def)
next
  case (respond t params p req order now w')
  note R = Respond_Inr [OF respond.hyps(4) respond.hyps(2) respond.hyps(3)]
  show ?case
    using R(2) respond.IH respond.hyps(3)
    by (intro trace_ok_step [OF respond.IH, where N = "{}" and P = "{}"])
       (auto intro!: R(1) simp: universe_def respond_answer_def answer_pattern_def split: if_splits)
next
  case (respond_fail t order now params e w')
  then show ?case using Respond_Inl [OF respond_fail.hyps(2)] by simp
next
  case (expire t now)
  then show ?case
    using grows_cleanup [of "mgr (world t)" now "{}" "{}" "{}"]
    by (intro trace_ok_step [OF expire.IH, where N = "{}" and D = "{}" and C = "{}" and P = "{}"]) (auto simp: universe_def)
next
  case (clear t m' sid wid)
  then show ?case
    using grows_clear [of "mgr (world t)" _ "{}" "{}" "{}"]
    by (intro trace_ok_step [OF clear.IH, where N = "{}" and D = "{}" and C = "{}" and P = "{}"]) (auto simp: universe_def)
next
  case (hook_permission t path input p order now resp w')
  then obtain data where data: "input = Some data" "p = parse_payload (take hook_body_limit data)"
    "handlePermissionRequest h order now p (world t) = (Written resp, w')"
    by (auto simp: hook_request_def HandleHook_def split: if_splits)
  have "accounted (answers t) (hook_outcome p (hook_decision resp)) \<and> grows (mgr (world t)) (mgr w') {} {} {} \<and>
      next_chan w' = next_chan (world t)"
    using data(3)
  proof (cases rule: handlePermissionRequest_cases)
    case bypass
    then show ?thesis by (simp add: hook_outcome_def grows_refl)
  next
    case (unmanaged reason)
    then show ?thesis by (simp add: hook_outcome_def grows_refl)
  next
    case (remembered d)
    have "covered (answers t) (hook_outcome p (hook_decision resp))"
      unfolding hook_outcome_def
      by (rule remembered_covered [OF hook_permission.IH remembered(4)]) (use remembered(1) in simp)
    then show ?thesis using grows_CheckMemory remembered(2,4) by (metis accounted_simps(4) snd_conv)
  qed simp
  then show ?case
    by (intro trace_ok_step [OF hook_permission.IH, where N = "{}" and D = "{}" and C = "{}" and P = "{}"]) (auto simp: universe_def)
next
  case (hook_wait t path input p order now req w')
  then have "handlePermissionRequest h order now p (world t) = (Blocked req, w')"
    by (auto simp: hook_request_def HandleHook_def split: if_splits)
  then show ?case
  proof (cases rule: handlePermissionRequest_cases)
    case (blocked req' m)
    have "grows (mgr (world t)) (mgr w') {} {} {req}"
      using grows_trans [OF grows_CheckMemory grows_Add] blocked(1,5,6) by (metis singletonI snd_conv hook_result.inject(2))
    then show ?thesis
      using blocked(1-3)
      by (intro trace_ok_step [OF hook_wait.IH, where N = "{req}" and D = "{}" and C = "{}" and P = "{req}"]) (auto simp: universe_def)
  qed simp_all
next
  case (hook_other t meth path input order now res w')
  from hook_other.hyps(3) show ?case
  proof (cases rule: HandleHook_cases)
    case (quiet resp)
    then show ?thesis
      by (intro trace_ok_step [OF hook_other.IH, where N = "{}" and D = "{}" and C = "{}" and P = "{}"])
         (auto simp: universe_def grows_refl)
  qed (use hook_other.hyps(2) in \<open>simp add: hook_request_def\<close>)
next
  case (hook_answer t mode req resp w')
  obtain r m where m: "chan_recv (ResponseChan req) (mgr (world t)) = (Some r, m)" "w' = (world t)\<lparr>mgr := m\<rparr>"
    and resp: "hook_decision resp = Decision r"
    using hook_answer.hyps(3) by (auto simp: hook_answered_def split: prod.splits)
  have "req \<in> universe t" using hook_answer.hyps(2) by (force simp: universe_def)
  then have "covered (answers t) (request_outcome mode req (hook_decision resp))"
    unfolding resp by (rule received_covered [OF hook_answer.IH _ m(1)])
  moreover have "grows (mgr (world t)) m {} {} {}" using grows_chan_recv m(1) by (metis snd_conv)
  ultimately show ?case
    using m(2) snd_remove1_subset [of mode req "hooks_waiting t"]
    by (intro trace_ok_step [OF hook_answer.IH, where N = "{}" and D = "{}" and C = "{}" and P = "{}"]) (auto simp: universe_def)
next
  case (hook_timed_out t mode req resp w')
  then show ?case
    using grows_GetAndRemove [of "mgr (world t)" "ToolUseID req" "{}" "{}" "{}"] snd_remove1_subset [of mode req "hooks_waiting t"]
    by (intro trace_ok_step [OF hook_timed_out.IH, where N = "{}" and D = "{}" and C = "{}" and P = "{}"])
       (auto simp: universe_def hook_timeout_def request_outcome_def)
qed

text \<open>
  C1: Nothing is allowed by default: through any interleaving of requests over \<open>permission/request\<close> and the hook
  endpoint, answers, timeouts, cancellations, expiries and cleared sessions, when a hook is told to allow
  a tool then a phone allowed it in the same session, either this very use of it or, for the whole
  session, one whose pattern is this request's own or matches it; the one exception is a hook whose
  Claude reports a permission mode that bypasses permissions, which the endpoint allows without asking.
\<close>

theorem allowed_only_by_phone:
  assumes "perm_reach env s h cfg t" "oc \<in> set (outcomes t)" "o_decision oc = DecisionAllow"
  shows "isBypassPermissionMode (o_mode oc) \<or>
    (\<exists>a \<in> set (answers t). a_decision a = DecisionAllow \<and> SessionID (a_req a) = o_session oc \<and>
      (ToolUseID (a_req a) = o_tool_use oc \<and> ToolName (a_req a) = o_tool oc \<and> ToolInput (a_req a) = o_input oc \<or>
       a_session a \<and> (GeneratePattern (ToolName (a_req a)) (ToolInput (a_req a)) = GeneratePattern (o_tool oc) (o_input oc) \<or>
         MatchPattern (GeneratePattern (ToolName (a_req a)) (ToolInput (a_req a))) (o_tool oc) (o_input oc))))"
proof -
  have "accounted (answers t) oc"
    using perm_reach_ok [OF assms(1)] assms(2) by (simp add: trace_ok_def)
  then show ?thesis
    using assms(3) unfolding accounted_def covered_def answer_pattern_def
    by (auto simp: DecisionAllow_def DecisionDeny_def)
qed

text \<open>The exception: such a hook is allowed at once, whatever the phone would say.\<close>

lemma bypass_allows_at_once:
  assumes "hook_request path input = Some p" "isBypassPermissionMode (PermissionMode p)"
  shows "HandleHook h order now ''POST'' path input w = (Written bypassed, w) \<and> hook_decision bypassed = DecisionAllow"
  using assms by (auto simp: hook_request_def HandleHook_def handlePermissionRequest_def split: if_splits)

text \<open>A run of the bridge: a hook asks, the phone allows, the hook gets its answer.\<close>

definition demo_outcome :: outcome where
  "demo_outcome = request_outcome [] demo_request ''allow''"

lemma demo_reach:
  "perm_reach demo_env demo_service NewHooksHandler DefaultConfig
     \<lparr>world = demo_w2\<lparr>mgr := (mgr demo_w2)\<lparr>chans := [(0, [])]\<rparr>\<rparr>, waiting = [], hooks_waiting = [],
      answers = [respond_answer demo_answer demo_request], outcomes = [demo_outcome]\<rparr>"
proof -
  note reach = perm_reach.init [of demo_env demo_service NewHooksHandler DefaultConfig]
  have "perm_reach demo_env demo_service NewHooksHandler DefaultConfig
      ((start_trace DefaultConfig)\<lparr>world := demo_w1, waiting := [demo_request]\<rparr>)"
    using perm_reach.request_wait [OF reach, of "[]" 2 10 "Some hook_params" demo_request demo_w1] demo_step1
    by (simp add: start_trace_def)
  from perm_reach.respond [OF this demo_params _ _, of demo_request "[]" 11 demo_w2] demo_pending demo_step2
  have "perm_reach demo_env demo_service NewHooksHandler DefaultConfig
      ((start_trace DefaultConfig)\<lparr>world := demo_w2, waiting := [demo_request],
        answers := [respond_answer demo_answer demo_request]\<rparr>)"
    by (simp add: start_trace_def)
  from perm_reach.answered [OF this, of demo_request demo_response] demo_step3
  show ?thesis by (simp add: start_trace_def demo_outcome_def demo_response_def response_def)
qed

lemma allowed_only_by_phone_witness:
  "\<exists>a \<in> set [respond_answer demo_answer demo_request]. a_decision a = DecisionAllow \<and>
    SessionID (a_req a) = o_session demo_outcome \<and>
    (ToolUseID (a_req a) = o_tool_use demo_outcome \<and> ToolName (a_req a) = o_tool demo_outcome \<and>
     ToolInput (a_req a) = o_input demo_outcome \<or>
     a_session a \<and> (GeneratePattern (ToolName (a_req a)) (ToolInput (a_req a)) =
         GeneratePattern (o_tool demo_outcome) (o_input demo_outcome) \<or>
       MatchPattern (GeneratePattern (ToolName (a_req a)) (ToolInput (a_req a)))
         (o_tool demo_outcome) (o_input demo_outcome)))"
  using allowed_only_by_phone [OF demo_reach, of demo_outcome]
  by (simp add: demo_outcome_def request_outcome_def DecisionAllow_def)

end
