(* ===== verification/Rpc_Dispatcher.thy ===== *)
theory Rpc_Dispatcher
  imports Rpc_Message
begin

text \<open>
  \<open>internal/rpc/handler\<close>: the registry of RPC methods with its middleware (\<open>registry.go\<close>) and the
  dispatcher that turns the bytes of a message into the bytes of an answer (\<open>dispatcher.go\<close>).

  A handler is a state transformer: it gets the context, the raw parameters and the state of the
  daemon, and returns the Go pair (result, error) with the new state. Logging is left out.

  The lemmas give the answering discipline of JSON-RPC: a request is answered exactly once, under its
  own identifier, with a result or an error; a notification is never answered, though its handler
  runs; a batch behaves as its members handled one after the other.
\<close>

section \<open>The registry\<close>

type_synonym ('c, 's) rpc_handler = "'c \<Rightarrow> json option \<Rightarrow> 's \<Rightarrow> (goval \<times> rpc_error option) \<times> 's"
type_synonym ('c, 's) middleware_fun = "('c, 's) rpc_handler \<Rightarrow> ('c, 's) rpc_handler"

text \<open>\<open>MethodMeta\<close> is only passed through; its summary is the default \<open>GetMeta\<close> fills in.\<close>

record ('c, 's) registry =
  handlers :: "(string, ('c, 's) rpc_handler) gomap"
  metas :: "(string, string) gomap"
  middleware :: "('c, 's) middleware_fun list"

definition NewRegistry :: "('c, 's) registry" where
  "NewRegistry = \<lparr>handlers = [], metas = [], middleware = []\<rparr>"

definition Register :: "string \<Rightarrow> ('c, 's) rpc_handler \<Rightarrow> ('c, 's) registry \<Rightarrow> ('c, 's) registry" where
  "Register meth h r = r\<lparr>handlers := mput meth h (handlers r)\<rparr>"

definition RegisterWithMeta ::
  "string \<Rightarrow> ('c, 's) rpc_handler \<Rightarrow> string \<Rightarrow> ('c, 's) registry \<Rightarrow> ('c, 's) registry" where
  "RegisterWithMeta meth h meta r =
     r\<lparr>handlers := mput meth h (handlers r), metas := mput meth meta (metas r)\<rparr>"

definition GetMeta :: "string \<Rightarrow> ('c, 's) registry \<Rightarrow> string" where
  "GetMeta meth r = (case mget (metas r) meth of Some meta \<Rightarrow> meta | None \<Rightarrow> meth)"

definition RegisterAll :: "(string, ('c, 's) rpc_handler) gomap \<Rightarrow> ('c, 's) registry \<Rightarrow> ('c, 's) registry" where
  "RegisterAll hs r = r\<lparr>handlers := fold (\<lambda>(k, h) m. mput k h m) hs (handlers r)\<rparr>"

definition Use :: "('c, 's) middleware_fun \<Rightarrow> ('c, 's) registry \<Rightarrow> ('c, 's) registry" where
  "Use mw r = r\<lparr>middleware := middleware r @ [mw]\<rparr>"

text \<open>The loop runs over the middleware from the last to the first.\<close>

fun apply_middleware :: "nat \<Rightarrow> ('c, 's) middleware_fun list \<Rightarrow> ('c, 's) rpc_handler \<Rightarrow> ('c, 's) rpc_handler" where
  "apply_middleware 0 mws h = h"
| "apply_middleware (Suc i) mws h = apply_middleware i mws ((mws ! i) h)"

definition Get :: "string \<Rightarrow> ('c, 's) registry \<Rightarrow> ('c, 's) rpc_handler option" where
  "Get meth r =
     (case mget (handlers r) meth of
        None \<Rightarrow> None
      | Some h \<Rightarrow> Some (apply_middleware (length (middleware r)) (middleware r) h))"

definition Has :: "string \<Rightarrow> ('c, 's) registry \<Rightarrow> bool" where
  "Has meth r = mem_key meth (handlers r)"

definition Methods :: "string list \<Rightarrow> ('c, 's) registry \<Rightarrow> string list" where
  "Methods order r = map fst (range_entries order (handlers r))"

definition Unregister :: "string \<Rightarrow> ('c, 's) registry \<Rightarrow> ('c, 's) registry" where
  "Unregister meth r = r\<lparr>handlers := mdel meth (handlers r)\<rparr>"

definition Clear :: "('c, 's) registry \<Rightarrow> ('c, 's) registry" where
  "Clear r = r\<lparr>handlers := [], middleware := []\<rparr>"

section \<open>The dispatcher\<close>

definition Dispatch ::
  "('c, 's) registry \<Rightarrow> 'c \<Rightarrow> rpc_request \<Rightarrow> 's \<Rightarrow> rpc_response option \<times> 's" where
  "Dispatch reg ctx req s =
     (case Get (Method req) reg of
        None \<Rightarrow>
          if IsNotification req then (None, s)
          else (Some (NewErrorResponse (req_id req) (ErrMethodNotFound (Method req))), s)
      | Some handler \<Rightarrow>
          (let ((result, rpcErr), s') = handler ctx (req_params req) s
           in if IsNotification req then (None, s')
              else (case rpcErr of
                  Some e \<Rightarrow> (Some (NewErrorResponse (req_id req) e), s')
                | None \<Rightarrow>
                    (case NewSuccessResponse (req_id req) result of
                       Inl _ \<Rightarrow> (Some (NewErrorResponse (req_id req)
                                  (ErrInternalError ''failed to marshal response'')), s')
                     | Inr resp \<Rightarrow> (Some resp, s')))))"

text \<open>A nil byte slice, no answer, is \<open>None\<close>; marshalling one of these responses never fails.\<close>

definition DispatchBytes ::
  "json_env \<Rightarrow> ('c, 's) registry \<Rightarrow> 'c \<Rightarrow> string \<Rightarrow> 's \<Rightarrow> string option \<times> 's" where
  "DispatchBytes env reg ctx data s =
     (case ParseRequest env data of
        Inl e \<Rightarrow> (Some (json_print (response_json (NewErrorResponse None (ErrParseError e)))), s)
      | Inr req \<Rightarrow>
          (let (resp, s') = Dispatch reg ctx req s
           in (case resp of
                 None \<Rightarrow> (None, s')
               | Some r \<Rightarrow> (Some (json_print (response_json r)), s'))))"

fun BatchDispatch ::
  "('c, 's) registry \<Rightarrow> 'c \<Rightarrow> rpc_request list \<Rightarrow> 's \<Rightarrow> rpc_response list \<times> 's" where
  "BatchDispatch reg ctx [] s = ([], s)"
| "BatchDispatch reg ctx (req # reqs) s =
     (let (resp, s') = Dispatch reg ctx req s;
          (resps, s'') = BatchDispatch reg ctx reqs s'
      in (case resp of None \<Rightarrow> resps | Some r \<Rightarrow> r # resps, s''))"

text \<open>
  A member of a batch is the raw text of a value the decoder has already accepted; parsing it again
  is reading that value as a request.
\<close>

fun batch_loop ::
  "json_env \<Rightarrow> ('c, 's) registry \<Rightarrow> 'c \<Rightarrow> json list \<Rightarrow> 's \<Rightarrow> rpc_response list \<times> 's" where
  "batch_loop env reg ctx [] s = ([], s)"
| "batch_loop env reg ctx (raw # raws) s =
     (case parse_request_value env raw of
        Inl e \<Rightarrow>
          (let (resps, s') = batch_loop env reg ctx raws s
           in (NewErrorResponse None (ErrParseError e) # resps, s'))
      | Inr req \<Rightarrow>
          (let (resp, s') = Dispatch reg ctx req s;
               (resps, s'') = batch_loop env reg ctx raws s'
           in (case resp of None \<Rightarrow> resps | Some r \<Rightarrow> r # resps, s'')))"

text \<open>The data starts with a bracket here, so a value the decoder accepts is an array.\<close>

definition handleBatch ::
  "json_env \<Rightarrow> ('c, 's) registry \<Rightarrow> 'c \<Rightarrow> string \<Rightarrow> 's \<Rightarrow> string option \<times> 's" where
  "handleBatch env reg ctx data s =
     (case json_parse data of
        Some (JArr raws) \<Rightarrow>
          if raws = [] then
            (Some (json_print (response_json (NewErrorResponse None (ErrInvalidRequest ''Empty batch'')))), s)
          else (let (resps, s') = batch_loop env reg ctx raws s
                in if resps = [] then (None, s')
                   else (Some (json_print (JArr (map response_json resps))), s'))
      | _ \<Rightarrow>
          (Some (json_print (response_json (NewErrorResponse None (ErrParseError ''Invalid batch request'')))), s))"

definition HandleMessage ::
  "json_env \<Rightarrow> ('c, 's) registry \<Rightarrow> 'c \<Rightarrow> string \<Rightarrow> 's \<Rightarrow> string option \<times> 's" where
  "HandleMessage env reg ctx data s =
     (if data \<noteq> [] \<and> hd data = CHR ''['' then handleBatch env reg ctx data s
      else DispatchBytes env reg ctx data s)"

section \<open>The registry finds what was registered\<close>

lemma apply_middleware_append:
  "i \<le> length mws \<Longrightarrow> apply_middleware i (mws @ rest) h = apply_middleware i mws h"
  by (induction i arbitrary: h) (auto simp: nth_append)

lemma apply_middleware_foldr: "apply_middleware (length mws) mws h = foldr (\<lambda>mw. mw) mws h"
proof (induction mws arbitrary: h rule: rev_induct)
  case Nil
  then show ?case by simp
next
  case (snoc mw mws)
  then show ?case by (simp add: apply_middleware_append)
qed

lemma Get_Register:
  "Get meth' (Register meth h r) =
     (if meth' = meth then Some (foldr (\<lambda>mw. mw) (middleware r) h) else Get meth' r)"
  by (simp add: Get_def Register_def apply_middleware_foldr split: option.split)

lemma Get_Unregister: "Get meth' (Unregister meth r) = (if meth' = meth then None else Get meth' r)"
  by (simp add: Get_def Unregister_def split: option.split)

lemma Get_Use: "Get meth (Use mw r) = map_option (\<lambda>h. foldr (\<lambda>mw. mw) (middleware r) (mw h)) (mget (handlers r) meth)"
  by (simp add: Get_def Use_def apply_middleware_append apply_middleware_foldr split: option.split)

lemma Has_Get: "Has meth r \<longleftrightarrow> Get meth r \<noteq> None"
  by (simp add: Has_def Get_def mem_key_def split: option.split)

section \<open>The answer to one request\<close>

definition answers :: "rpc_request \<Rightarrow> rpc_response option \<Rightarrow> bool" where
  "answers req resp =
     (case resp of
        None \<Rightarrow> IsNotification req
      | Some r \<Rightarrow> \<not> IsNotification req \<and> resp_id r = req_id req \<and> resp_version r = Version \<and>
          (Err r = None \<or> Result r = None))"

lemma NewSuccessResponse_cases:
  "NewSuccessResponse i v = (case v of
     GNil \<Rightarrow> Inr \<lparr>resp_version = Version, resp_id = i, Result = None, Err = None\<rparr>
   | GJson j \<Rightarrow> Inr \<lparr>resp_version = Version, resp_id = i, Result = Some j, Err = None\<rparr>
   | GBad e \<Rightarrow> Inl (''failed to marshal result: '' @ e))"
  by (simp add: NewSuccessResponse_def marshal_field_def split: goval.split)

text \<open>
  The answering discipline of JSON-RPC: whatever is registered and whatever the handler returns, a
  request with an identifier gets one response, under that identifier, that never carries both
  a result and an error; a notification gets none.
\<close>

theorem Dispatch_answers: "answers req (fst (Dispatch reg ctx req s))"
  by (auto simp: answers_def Dispatch_def NewSuccessResponse_cases NewErrorResponse_def IsNotification_def
      split: option.split goval.split prod.split)

text \<open>
  What the client sees of a handler: an unknown method is the error -32601 and leaves the state
  alone; a known one runs its handler, inside its middleware, on the request's parameters exactly once, and the
  response carries the handler's error when it has one, an internal error when the
  result has no JSON text, and otherwise the result.
\<close>

theorem Dispatch_outcome:
  "Dispatch reg ctx req s =
     (case Get (Method req) reg of
        None \<Rightarrow> (if req_id req = None then None
                 else Some (NewErrorResponse (req_id req)
                   \<lparr>Code = -32601, Message = ''Method not found: '' @ Method req, Data = None\<rparr>), s)
      | Some h \<Rightarrow> (if req_id req = None then None
                   else Some (case fst (h ctx (req_params req) s) of
                       (_, Some e) \<Rightarrow> NewErrorResponse (req_id req) e
                     | (GBad _, None) \<Rightarrow> NewErrorResponse (req_id req) (ErrInternalError ''failed to marshal response'')
                     | (GNil, None) \<Rightarrow> \<lparr>resp_version = ''2.0'', resp_id = req_id req, Result = None, Err = None\<rparr>
                     | (GJson j, None) \<Rightarrow> \<lparr>resp_version = ''2.0'', resp_id = req_id req, Result = Some j, Err = None\<rparr>),
                   snd (h ctx (req_params req) s)))"
  by (auto simp: Dispatch_def NewSuccessResponse_cases IsNotification_def ErrMethodNotFound_def
      NewError_def MethodNotFound_def Version_def split: option.split goval.split prod.split)

section \<open>Batches\<close>

text \<open>The messages of a batch, handled one by one: the answers in order, the state threaded through.\<close>

fun handle_each ::
  "json_env \<Rightarrow> ('c, 's) registry \<Rightarrow> 'c \<Rightarrow> json list \<Rightarrow> 's \<Rightarrow> string list \<times> 's" where
  "handle_each env reg ctx [] s = ([], s)"
| "handle_each env reg ctx (j # js) s =
     (let (out, s') = HandleMessage env reg ctx (json_print j) s;
          (outs, s'') = handle_each env reg ctx js s'
      in (case out of None \<Rightarrow> outs | Some b \<Rightarrow> b # outs, s''))"

lemma json_print_no_bracket:
  assumes "\<forall>xs. j \<noteq> JArr xs" "printable j"
  shows "\<not> (json_print j \<noteq> [] \<and> hd (json_print j) = CHR ''['')"
proof (cases j)
  case (JNum n)
  then obtain c cs where "n = c # cs" "is_digit c \<or> c = CHR ''-''"
    using assms int_literal_hd by auto
  then show ?thesis using JNum by (auto simp: is_digit_def)
next
  case (JObj kvs)
  then show ?thesis by (cases kvs) auto
qed (use assms in \<open>auto simp: print_string_def\<close>)

lemma HandleMessage_single:
  assumes "\<forall>xs. j \<noteq> JArr xs" "printable j"
  shows "HandleMessage env reg ctx (json_print j) s =
    (case parse_request_value env j of
       Inl e \<Rightarrow> (Some (json_print (response_json (NewErrorResponse None (ErrParseError e)))), s)
     | Inr req \<Rightarrow>
         (map_option (json_print \<circ> response_json) (fst (Dispatch reg ctx req s)), snd (Dispatch reg ctx req s)))"
  unfolding HandleMessage_def if_not_P [OF json_print_no_bracket [OF assms]]
  by (simp add: DispatchBytes_def ParseRequest_def json_roundtrip [OF assms(2)]
      split: sum.split option.split prod.split)

lemma handle_each_batch_loop:
  assumes "\<forall>j \<in> set js. printable j \<and> (\<forall>xs. j \<noteq> JArr xs)"
  shows "handle_each env reg ctx js s =
    (map (json_print \<circ> response_json) (fst (batch_loop env reg ctx js s)), snd (batch_loop env reg ctx js s))"
  using assms
proof (induction js arbitrary: s)
  case Nil
  then show ?case by simp
next
  case (Cons j js)
  have j: "\<forall>xs. j \<noteq> JArr xs" "printable j" using Cons.prems by auto
  show ?case
    using Cons.IH Cons.prems
    by (simp add: HandleMessage_single [OF j] split: sum.split option.split prod.split)
qed

lemma print_items_join: "json_print x @ print_items xs = join '','' (map json_print (x # xs)) @ '']''"
proof (induction xs arbitrary: x)
  case Nil
  then show ?case by simp
next
  case (Cons y ys)
  have "json_print x @ print_items (y # ys) = json_print x @ '','' @ (json_print y @ print_items ys)"
    by simp
  then show ?case unfolding Cons.IH by simp
qed

lemma json_print_array: "xs \<noteq> [] \<Longrightarrow> json_print (JArr xs) = ''['' @ join '','' (map json_print xs) @ '']''"
  by (cases xs) (simp_all only: json_print.simps print_items_join list.distinct simp_thms append_assoc)

lemma printable_items_all: "printable_items js \<longleftrightarrow> (\<forall>j \<in> set js. printable j)"
  by (induction js) auto

text \<open>
  C15: A batch is its messages, sent one by one: over the wire, handling the array of some
  messages leaves the daemon in the state the single messages leave it in, in order, and answers with
  the array of their answers, or with nothing when none of them is answered.
\<close>

theorem batch_is_sequence:
  assumes "js \<noteq> []" "\<forall>j \<in> set js. printable j \<and> (\<forall>xs. j \<noteq> JArr xs)"
  shows "HandleMessage env reg ctx (json_print (JArr js)) s =
    (let (outs, s') = handle_each env reg ctx js s
     in (if outs = [] then None else Some (''['' @ join '','' outs @ '']''), s'))"
proof -
  have "printable (JArr js)" using assms(2) by (simp add: printable_items_all)
  note parse = json_roundtrip [OF this]
  have "json_print (JArr js) \<noteq> [] \<and> hd (json_print (JArr js)) = CHR ''[''"
    using assms(1) by (simp add: json_print_array)
  then have "HandleMessage env reg ctx (json_print (JArr js)) s = handleBatch env reg ctx (json_print (JArr js)) s"
    by (simp add: HandleMessage_def)
  also have "\<dots> = (let (resps, s') = batch_loop env reg ctx js s
                in if resps = [] then (None, s')
                   else (Some (json_print (JArr (map response_json resps))), s'))"
    unfolding handleBatch_def parse using assms(1) by (simp del: json_print.simps)
  also have "\<dots> = (let (outs, s') = handle_each env reg ctx js s
     in (if outs = [] then None else Some (''['' @ join '','' outs @ '']''), s'))"
    using assms(2)
    by (cases "batch_loop env reg ctx js s")
       (simp add: handle_each_batch_loop json_print_array comp_def del: json_print.simps)
  finally show ?thesis .
qed

text \<open>The empty registry answers two requests and a notification with two unknown-method errors.\<close>

definition sample_env :: json_env where
  "sample_env = \<lparr>syntax_text = (\<lambda>s. s), type_text = (\<lambda>s j. s), out_of_range = (\<lambda>n. n)\<rparr>"

definition sample_request :: "rpc_id option \<Rightarrow> json" where
  "sample_request i = request_json \<lparr>req_version = ''2.0'', req_id = i, Method = ''m'', req_params = None\<rparr>"

lemma batch_is_sequence_witness:
  "HandleMessage sample_env (NewRegistry :: (unit, nat) registry) ()
     (json_print (JArr [sample_request (Some (INum 1)), sample_request None])) 5 =
   (let (outs, s') = handle_each sample_env (NewRegistry :: (unit, nat) registry) ()
          [sample_request (Some (INum 1)), sample_request None] 5
    in (if outs = [] then None else Some (''['' @ join '','' outs @ '']''), s'))"
proof (rule batch_is_sequence)
  have "ascii ''2.0''" "ascii ''m''" by (simp_all add: ascii_def)
  then show "\<forall>j \<in> set [sample_request (Some (INum 1)), sample_request None].
      printable j \<and> (\<forall>xs. j \<noteq> JArr xs)"
    by (simp add: sample_request_def request_json_def opt_member_def id_MarshalJSON_def)
qed simp

end
