(* ===== verification/Hub.thy ===== *)
theory Hub
  imports Events
begin

text \<open>
  \<open>internal/hub\<close>: the event hub that fans events out to its subscribers (\<open>hub.go\<close>), the channel and
  log subscribers (\<open>subscriber.go\<close>) and the filter a client puts before its subscriber (\<open>filter.go\<close>).

  The interface \<open>ports.Subscriber\<close> is the locale \<open>subscriber\<close>; the hub is generic in it and takes the
  subscriber's \<open>Send\<close> and \<open>Close\<close> as arguments. The unbuffered channels \<open>register\<close> and \<open>unregister\<close>
  are rendezvous with the loop: \<open>run_register\<close> and \<open>run_unregister\<close> are the loop's side of them, the
  broadcast channel is a queue of 256 places. \<open>loops\<close> counts the goroutines in \<open>run\<close>; one that has been
  told to stop may still take a step before it notices, as \<open>select\<close> chooses freely. The objects the
  hub has closed are kept in \<open>retired\<close>.
\<close>

section \<open>Subscribers\<close>

locale subscriber =
  fixes snd_ev :: "event \<Rightarrow> 'u \<Rightarrow> bool \<times> 'u"
    and cls :: "'u \<Rightarrow> 'u"
    and is_closed :: "'u \<Rightarrow> bool"
    and ident :: "'u \<Rightarrow> string"
  assumes closed_close: "is_closed (cls u)"
    and close_closed: "is_closed u \<Longrightarrow> cls u = u"
    and closed_send: "is_closed (snd (snd_ev e u)) = is_closed u"
    and failed_send: "\<not> fst (snd_ev e u) \<Longrightarrow> snd (snd_ev e u) = u"
    and ident_send: "ident (snd (snd_ev e u)) = ident u"
    and ident_close: "ident (cls u) = ident u"
begin

lemma close_close: "cls (cls u) = cls u"
  by (simp add: close_closed closed_close)

lemma closed_send_close: "is_closed (snd (snd_ev e (cls u)))"
  by (simp add: closed_send closed_close)

end

record channel_sub =
  cs_id :: string
  buf :: "event list"
  cap :: nat
  closed :: bool

definition NewChannelSubscriber :: "string \<Rightarrow> nat \<Rightarrow> channel_sub" where
  "NewChannelSubscriber sid n = \<lparr>cs_id = sid, buf = [], cap = n, closed = False\<rparr>"

definition channel_Send :: "event \<Rightarrow> channel_sub \<Rightarrow> bool \<times> channel_sub" where
  "channel_Send e s =
     (if closed s then (False, s)
      else if length (buf s) < cap s then (True, s\<lparr>buf := buf s @ [e]\<rparr>)
      else (False, s))"

definition channel_Close :: "channel_sub \<Rightarrow> channel_sub" where
  "channel_Close s = (if closed s then s else s\<lparr>closed := True\<rparr>)"

text \<open>Receiving from \<open>Events()\<close>; a closed channel still hands out what it holds.\<close>

definition channel_receive :: "channel_sub \<Rightarrow> event option \<times> channel_sub" where
  "channel_receive s = (case buf s of [] \<Rightarrow> (None, s) | e # es \<Rightarrow> (Some e, s\<lparr>buf := es\<rparr>))"

record log_sub =
  ls_id :: string
  ls_closed :: bool
  has_fn :: bool
  logged :: "event list"

definition NewLogSubscriber :: "string \<Rightarrow> bool \<Rightarrow> log_sub" where
  "NewLogSubscriber sid fn = \<lparr>ls_id = sid, ls_closed = False, has_fn = fn, logged = []\<rparr>"

definition log_Send :: "event \<Rightarrow> log_sub \<Rightarrow> bool \<times> log_sub" where
  "log_Send e s =
     (if ls_closed s then (False, s)
      else (True, if has_fn s then s\<lparr>logged := logged s @ [e]\<rparr> else s))"

definition log_Close :: "log_sub \<Rightarrow> log_sub" where
  "log_Close s = (if ls_closed s then s else s\<lparr>ls_closed := True\<rparr>)"

interpretation chs: subscriber channel_Send channel_Close closed cs_id
  by unfold_locales (auto simp: channel_Send_def channel_Close_def)

interpretation lgs: subscriber log_Send log_Close ls_closed ls_id
  by unfold_locales (auto simp: log_Send_def log_Close_def split: if_splits)

section \<open>The filter\<close>

record 'u filtered =
  inner :: 'u
  workspaces :: "(string, bool) gomap"
  focusedWorkspaceID :: string
  focusedSessionID :: string
  hasFocus :: bool

definition NewFilteredSubscriber :: "'u \<Rightarrow> 'u filtered" where
  "NewFilteredSubscriber u =
     \<lparr>inner = u, workspaces = [], focusedWorkspaceID = [], focusedSessionID = [], hasFocus = False\<rparr>"

definition SubscribeWorkspace :: "string \<Rightarrow> 'u filtered \<Rightarrow> 'u filtered" where
  "SubscribeWorkspace wid f = f\<lparr>workspaces := mput wid True (workspaces f)\<rparr>"

definition UnsubscribeWorkspace :: "string \<Rightarrow> 'u filtered \<Rightarrow> 'u filtered" where
  "UnsubscribeWorkspace wid f = f\<lparr>workspaces := mdel wid (workspaces f)\<rparr>"

definition SubscribeAll :: "'u filtered \<Rightarrow> 'u filtered" where
  "SubscribeAll f = f\<lparr>workspaces := []\<rparr>"

definition GetSubscribedWorkspaces :: "string list \<Rightarrow> 'u filtered \<Rightarrow> string list" where
  "GetSubscribedWorkspaces order f = map fst (range_entries order (workspaces f))"

definition IsFiltering :: "'u filtered \<Rightarrow> bool" where
  "IsFiltering f \<longleftrightarrow> length (workspaces f) > 0"

definition SetSessionFocus :: "string \<Rightarrow> string \<Rightarrow> 'u filtered \<Rightarrow> 'u filtered" where
  "SetSessionFocus wid sid f = f\<lparr>focusedWorkspaceID := wid, focusedSessionID := sid, hasFocus := True\<rparr>"

definition ClearSessionFocus :: "'u filtered \<Rightarrow> 'u filtered" where
  "ClearSessionFocus f = f\<lparr>focusedWorkspaceID := [], focusedSessionID := [], hasFocus := False\<rparr>"

definition ClearSessionFocusIfWorkspace :: "string \<Rightarrow> 'u filtered \<Rightarrow> bool \<times> 'u filtered" where
  "ClearSessionFocusIfWorkspace wid f =
     (if wid = [] then (False, f)
      else if hasFocus f \<and> focusedWorkspaceID f = wid
      then (True, f\<lparr>focusedWorkspaceID := [], focusedSessionID := [], hasFocus := False\<rparr>)
      else (False, f))"

definition GetFocusedSessionID :: "'u filtered \<Rightarrow> string \<times> bool" where
  "GetFocusedSessionID f = (focusedSessionID f, hasFocus f)"

definition isPermissionEvent :: "string \<Rightarrow> bool" where
  "isPermissionEvent ty \<longleftrightarrow> ty = ''pty_permission'' \<or> ty = ''pty_permission_resolved''"

definition shouldForward :: "event \<Rightarrow> 'u filtered \<Rightarrow> bool" where
  "shouldForward e f =
     (if length (workspaces f) > 0 \<and> GetWorkspaceID e \<noteq> [] \<and> mget (workspaces f) (GetWorkspaceID e) \<noteq> Some True
      then False
      else if hasFocus f \<and> isPermissionEvent (Type e) \<and> GetWorkspaceID e \<noteq> [] \<and>
        GetWorkspaceID e \<noteq> focusedWorkspaceID f
      then False
      else True)"

definition filtered_Send :: "(event \<Rightarrow> 'u \<Rightarrow> bool \<times> 'u) \<Rightarrow> event \<Rightarrow> 'u filtered \<Rightarrow> bool \<times> 'u filtered" where
  "filtered_Send inner_send e f =
     (if \<not> shouldForward e f then (True, f)
      else (let (ok, u) = inner_send e (inner f) in (ok, f\<lparr>inner := u\<rparr>)))"

definition filtered_Close :: "('u \<Rightarrow> 'u) \<Rightarrow> 'u filtered \<Rightarrow> 'u filtered" where
  "filtered_Close inner_close f = f\<lparr>inner := inner_close (inner f)\<rparr>"

text \<open>A filter before a subscriber is a subscriber.\<close>

lemma filtered_subscriber:
  assumes "subscriber snd_ev cls is_closed ident"
  shows "subscriber (filtered_Send snd_ev) (filtered_Close cls) (\<lambda>f. is_closed (inner f)) (\<lambda>f. ident (inner f))"
proof
  note laws = subscriber.closed_close [OF assms] subscriber.close_closed [OF assms]
    subscriber.closed_send [OF assms] subscriber.failed_send [OF assms]
    subscriber.ident_send [OF assms] subscriber.ident_close [OF assms]
  fix f :: "'a filtered" and e
  show "is_closed (inner (filtered_Close cls f))" "ident (inner (filtered_Close cls f)) = ident (inner f)"
    "is_closed (inner f) \<Longrightarrow> filtered_Close cls f = f"
    by (simp_all add: filtered_Close_def laws)
  show "is_closed (inner (snd (filtered_Send snd_ev e f))) = is_closed (inner f)"
    "ident (inner (snd (filtered_Send snd_ev e f))) = ident (inner f)"
    "\<not> fst (filtered_Send snd_ev e f) \<Longrightarrow> snd (filtered_Send snd_ev e f) = f"
    using laws(3-5) [of e "inner f"]
    by (auto simp: filtered_Send_def split: prod.split)
qed

interpretation fcs: subscriber "filtered_Send channel_Send" "filtered_Close channel_Close"
  "\<lambda>f. closed (inner f)" "\<lambda>f. cs_id (inner f)"
  by (rule filtered_subscriber) (rule chs.subscriber_axioms)

section \<open>The hub\<close>

record 'u hub =
  subscribers :: "(string, 'u) gomap"
  broadcast :: "event list"
  has_done :: bool
  running :: bool
  loops :: nat
  retired :: "'u list"

definition New :: "'u hub" where
  "New = \<lparr>subscribers = [], broadcast = [], has_done = True, running = False, loops = 0, retired = []\<rparr>"

definition Start :: "'u hub \<Rightarrow> 'u hub" where
  "Start h = (if running h then h else h\<lparr>running := True, has_done := True, loops := loops h + 1\<rparr>)"

definition Stop :: "('u \<Rightarrow> 'u) \<Rightarrow> 'u hub \<Rightarrow> 'u hub" where
  "Stop cls h =
     (if \<not> running h then h
      else h\<lparr>running := False, has_done := False, subscribers := [],
             retired := retired h @ map (\<lambda>(_, u). cls u) (subscribers h)\<rparr>)"

definition Publish :: "event \<Rightarrow> 'u hub \<Rightarrow> 'u hub" where
  "Publish e h = (if length (broadcast h) < 256 then h\<lparr>broadcast := broadcast h @ [e]\<rparr> else h)"

definition SubscriberCount :: "'u hub \<Rightarrow> int" where
  "SubscriberCount h = int (length (subscribers h))"

definition IsRunning :: "'u hub \<Rightarrow> bool" where
  "IsRunning h = running h"

definition run_register :: "('u \<Rightarrow> string) \<Rightarrow> 'u \<Rightarrow> 'u hub \<Rightarrow> 'u hub" where
  "run_register ident u h = h\<lparr>subscribers := mput (ident u) u (subscribers h)\<rparr>"

definition remove_sub :: "('u \<Rightarrow> 'u) \<Rightarrow> string \<Rightarrow> 'u hub \<Rightarrow> 'u hub" where
  "remove_sub cls i h =
     (case mget (subscribers h) i of
        None \<Rightarrow> h
      | Some u \<Rightarrow> h\<lparr>subscribers := mdel i (subscribers h), retired := retired h @ [cls u]\<rparr>)"

definition run_unregister :: "('u \<Rightarrow> 'u) \<Rightarrow> string \<Rightarrow> 'u hub \<Rightarrow> 'u hub" where
  "run_unregister cls i h = remove_sub cls i h"

text \<open>Sending to every subscriber, in the order the map is visited; the failed ones are collected.\<close>

fun send_all ::
  "(event \<Rightarrow> 'u \<Rightarrow> bool \<times> 'u) \<Rightarrow> event \<Rightarrow> string list \<Rightarrow> (string, 'u) gomap \<Rightarrow> (string, 'u) gomap \<times> string list" where
  "send_all snd_ev e [] m = (m, [])"
| "send_all snd_ev e (i # is) m =
     (case mget m i of
        None \<Rightarrow> send_all snd_ev e is m
      | Some u \<Rightarrow>
          (let (ok, u') = snd_ev e u; (m', failed) = send_all snd_ev e is (mput i u' m)
           in (m', if ok then failed else i # failed)))"

definition run_broadcast ::
  "(event \<Rightarrow> 'u \<Rightarrow> bool \<times> 'u) \<Rightarrow> ('u \<Rightarrow> 'u) \<Rightarrow> string list \<Rightarrow> event \<Rightarrow> 'u hub \<Rightarrow> 'u hub" where
  "run_broadcast snd_ev cls order e h =
     (let (m, failed) = send_all snd_ev e order (subscribers h)
      in fold (remove_sub cls) failed (h\<lparr>subscribers := m\<rparr>))"

text \<open>One iteration of the loop on its third case.\<close>

definition run_event ::
  "(event \<Rightarrow> 'u \<Rightarrow> bool \<times> 'u) \<Rightarrow> ('u \<Rightarrow> 'u) \<Rightarrow> string list \<Rightarrow> 'u hub \<Rightarrow> 'u hub" where
  "run_event snd_ev cls order h =
     (case broadcast h of
        [] \<Rightarrow> h
      | e # es \<Rightarrow> run_broadcast snd_ev cls order e (h\<lparr>broadcast := es\<rparr>))"

definition run_exit :: "'u hub \<Rightarrow> 'u hub" where
  "run_exit h = h\<lparr>loops := loops h - 1\<rparr>"

section \<open>One broadcast\<close>

lemma send_all_spec:
  "distinct order \<Longrightarrow>
    mget (fst (send_all snd_ev e order m)) i =
      (if i \<in> set order then map_option (\<lambda>u. snd (snd_ev e u)) (mget m i) else mget m i) \<and>
    set (snd (send_all snd_ev e order m)) =
      {k \<in> set order. \<exists>u. mget m k = Some u \<and> \<not> fst (snd_ev e u)}"
proof (induction order arbitrary: m)
  case Nil
  then show ?case by simp
next
  case (Cons k ks)
  show ?case
  proof (cases "mget m k")
    case None
    then show ?thesis using Cons by auto
  next
    case (Some u)
    obtain ok u' where s: "snd_ev e u = (ok, u')" by fastforce
    obtain m' failed where r: "send_all snd_ev e ks (mput k u' m) = (m', failed)" by fastforce
    have "k \<notin> set ks" "distinct ks" using Cons.prems by auto
    have run: "send_all snd_ev e (k # ks) m = (m', if ok then failed else k # failed)"
      using Some s r by simp
    have m': "mget m' i = (if i \<in> set ks then map_option (\<lambda>u. snd (snd_ev e u)) (mget m i)
        else if i = k then Some u' else mget m i)"
      using Cons.IH [OF \<open>distinct ks\<close>, of "mput k u' m"] r \<open>k \<notin> set ks\<close> by auto
    have "set failed = {j \<in> set ks. \<exists>u. mget (mput k u' m) j = Some u \<and> \<not> fst (snd_ev e u)}"
      using Cons.IH [OF \<open>distinct ks\<close>, of "mput k u' m"] r by simp
    also have "\<dots> = {j \<in> set ks. \<exists>u. mget m j = Some u \<and> \<not> fst (snd_ev e u)}"
      using \<open>k \<notin> set ks\<close> by (intro Collect_cong) auto
    finally have failed: "set failed = {j \<in> set ks. \<exists>u. mget m j = Some u \<and> \<not> fst (snd_ev e u)}" .
    have "{j \<in> set (k # ks). \<exists>u. mget m j = Some u \<and> \<not> fst (snd_ev e u)} =
        (if ok then {} else {k}) \<union> {j \<in> set ks. \<exists>u. mget m j = Some u \<and> \<not> fst (snd_ev e u)}"
      using Some s by (cases ok) auto
    then show ?thesis
      unfolding run fst_conv snd_conv failed [symmetric] m' using Some s by (cases ok) simp_all
  qed
qed

lemma wf_send_all [invs]: "wf_map m \<Longrightarrow> wf_map (fst (send_all snd_ev e order m))"
proof (induction order arbitrary: m)
  case Nil
  then show ?case by simp
next
  case (Cons k ks)
  then have "wf_map (fst (send_all snd_ev e ks (mput k u m)))" for u by simp
  then show ?case using Cons by (auto simp: case_prod_unfold Let_def split: option.split)
qed

lemma wf_remove_sub [invs]: "wf_map (subscribers h) \<Longrightarrow> wf_map (subscribers (remove_sub cls i h))"
  by (simp add: remove_sub_def split: option.split)

lemma wf_fold_remove [invs]: "wf_map (subscribers h) \<Longrightarrow> wf_map (subscribers (fold (remove_sub cls) is h))"
  by (induction "is" arbitrary: h) (simp_all add: wf_remove_sub)

lemma mget_remove_sub: "mget (subscribers (remove_sub cls i h)) k = (if k = i then None else mget (subscribers h) k)"
  by (simp add: remove_sub_def split: option.split)

lemma mget_fold_remove:
  "mget (subscribers (fold (remove_sub cls) is h)) k = (if k \<in> set is then None else mget (subscribers h) k)"
  by (induction "is" arbitrary: h) (auto simp: mget_remove_sub)

lemma remove_sub_frame [simp]:
  "broadcast (remove_sub cls i h) = broadcast h" "running (remove_sub cls i h) = running h"
  "has_done (remove_sub cls i h) = has_done h" "loops (remove_sub cls i h) = loops h"
  by (simp_all add: remove_sub_def split: option.split)

lemma fold_remove_frame [simp]:
  "broadcast (fold (remove_sub cls) is h) = broadcast h"
  by (induction "is" arbitrary: h) simp_all

lemma mget_run_broadcast:
  assumes "valid_order order (subscribers h)"
  shows "mget (subscribers (run_broadcast snd_ev cls order e h)) i =
    (case mget (subscribers h) i of
       None \<Rightarrow> None
     | Some u \<Rightarrow> if fst (snd_ev e u) then Some (snd (snd_ev e u)) else None)"
proof -
  have d: "distinct order" and in_order: "i \<in> set order \<longleftrightarrow> mget (subscribers h) i \<noteq> None"
    using assms keys_mget [of i "subscribers h"] by (auto simp: valid_order_def)
  obtain m failed where s: "send_all snd_ev e order (subscribers h) = (m, failed)" by fastforce
  show ?thesis
    using send_all_spec [OF d, of snd_ev e "subscribers h" i] in_order
    by (auto simp: run_broadcast_def s mget_fold_remove split: option.split)
qed

lemma run_broadcast_queue [simp]: "broadcast (run_broadcast snd_ev cls order e h) = broadcast h"
  by (simp add: run_broadcast_def split: prod.split)

text \<open>What the hub closed is closed, whatever kind of subscriber it serves.\<close>

context subscriber
begin

lemma retired_remove_sub:
  "\<forall>u \<in> set (retired h). is_closed u \<Longrightarrow> \<forall>u \<in> set (retired (remove_sub cls i h)). is_closed u"
  by (auto simp: remove_sub_def closed_close split: option.split)

lemma retired_fold_remove:
  "\<forall>u \<in> set (retired h). is_closed u \<Longrightarrow> \<forall>u \<in> set (retired (fold (remove_sub cls) is h)). is_closed u"
proof (induction "is" arbitrary: h)
  case Nil
  then show ?case by simp
next
  case (Cons i "is")
  show ?case
    using Cons.IH [OF retired_remove_sub [OF Cons.prems, of i]] by simp
qed

lemma retired_broadcast:
  "\<forall>u \<in> set (retired h). is_closed u \<Longrightarrow> \<forall>u \<in> set (retired (run_broadcast snd_ev cls order e h)). is_closed u"
  using retired_fold_remove [of "h\<lparr>subscribers := fst (send_all snd_ev e order (subscribers h))\<rparr>"]
  by (simp add: run_broadcast_def split: prod.split)

lemma retired_stop:
  "\<forall>u \<in> set (retired h). is_closed u \<Longrightarrow> \<forall>u \<in> set (retired (Stop cls h)). is_closed u"
  by (auto simp: Stop_def closed_close)

lemma ids_broadcast:
  assumes "\<forall>k u. mget (subscribers h) k = Some u \<longrightarrow> ident u = k" "valid_order order (subscribers h)"
  shows "\<forall>k u. mget (subscribers (run_broadcast snd_ev cls order e h)) k = Some u \<longrightarrow> ident u = k"
  using assms(1) by (auto simp: mget_run_broadcast [OF assms(2)] ident_send split: option.splits if_splits)

end

section \<open>The daemon's clients\<close>

type_synonym client = "channel_sub filtered"

abbreviation client_send :: "event \<Rightarrow> client \<Rightarrow> bool \<times> client" where
  "client_send \<equiv> filtered_Send channel_Send"

abbreviation client_close :: "client \<Rightarrow> client" where
  "client_close \<equiv> filtered_Close channel_Close"

abbreviation client_id :: "client \<Rightarrow> string" where
  "client_id \<equiv> \<lambda>f. cs_id (inner f)"

definition deliver :: "event \<Rightarrow> client \<Rightarrow> client" where
  "deliver e f = f\<lparr>inner := (inner f)\<lparr>buf := buf (inner f) @ [e]\<rparr>\<rparr>"

definition has_room :: "client \<Rightarrow> bool" where
  "has_room f \<longleftrightarrow> \<not> closed (inner f) \<and> length (buf (inner f)) < cap (inner f)"

lemma client_send_cases:
  "client_send e f =
    (if \<not> shouldForward e f then (True, f) else if has_room f then (True, deliver e f) else (False, f))"
  by (auto simp: filtered_Send_def channel_Send_def has_room_def deliver_def)

lemma broadcast_outcome_cases:
  assumes "valid_order order (subscribers h)"
  shows "mget (subscribers (run_broadcast client_send client_close order e h)) i =
    (case mget (subscribers h) i of
       None \<Rightarrow> None
     | Some f \<Rightarrow> if \<not> shouldForward e f then Some f else if has_room f then Some (deliver e f) else None)"
  unfolding mget_run_broadcast [OF assms] client_send_cases by (simp split: option.split)

text \<open>
  One broadcast, for every client at once and in whatever order the hub visits them: a client whose filter
  lets the event through receives it at the end of its queue if the queue is open and has room, and
  is dropped otherwise; every other client keeps exactly the queue and the filter it had. No client's
  outcome depends on another's.
\<close>

theorem broadcast_outcome:
  assumes "valid_order order (subscribers h)"
  shows "mget (subscribers (run_broadcast client_send client_close order e h)) i =
    (case mget (subscribers h) i of
       None \<Rightarrow> None
     | Some f \<Rightarrow> if \<not> shouldForward e f then Some f else if has_room f then Some (deliver e f) else None)"
  using assms by (rule broadcast_outcome_cases)

definition sample_client :: "string \<Rightarrow> client" where
  "sample_client i = SubscribeWorkspace ''ws-1'' (NewFilteredSubscriber (NewChannelSubscriber i 2))"

definition sample_hub :: "client hub" where
  "sample_hub = New\<lparr>subscribers := [(''b'', sample_client ''b''),
     (''a'', NewFilteredSubscriber (NewChannelSubscriber ''a'' 0))]\<rparr>"

lemma sample_hub_order: "valid_order [''a'', ''b''] (subscribers sample_hub)"
  by (auto simp: valid_order_def sample_hub_def)

lemma broadcast_outcome_witness:
  "mget (subscribers (run_broadcast client_send client_close [''a'', ''b''] sample_event sample_hub)) ''a'' =
    (case mget (subscribers sample_hub) ''a'' of
       None \<Rightarrow> None
     | Some f \<Rightarrow> if \<not> shouldForward sample_event f then Some f
                else if has_room f then Some (deliver sample_event f) else None)"
  by (rule broadcast_outcome [OF sample_hub_order])

section \<open>No gaps\<close>

text \<open>
  A flow of the hub: events are published, the loop broadcasts the next one, clients take what
  their queues hold. The run collects the broadcast events and what each client took.
\<close>

datatype flow_op = Push event | Pump "string list" | Receive string

definition client_take :: "string \<Rightarrow> client hub \<Rightarrow> event option \<times> client hub" where
  "client_take i h =
     (case mget (subscribers h) i of
        None \<Rightarrow> (None, h)
      | Some f \<Rightarrow> (let (e, s) = channel_receive (inner f)
                   in (e, h\<lparr>subscribers := mput i (f\<lparr>inner := s\<rparr>) (subscribers h)\<rparr>)))"

fun flow :: "flow_op list \<Rightarrow> client hub \<Rightarrow> event list \<times> (string \<times> event) list \<times> client hub" where
  "flow [] h = ([], [], h)"
| "flow (Push e # ops) h = flow ops (Publish e h)"
| "flow (Pump order # ops) h =
     (let (ds, rs, h') = flow ops (run_event client_send client_close order h)
      in (take 1 (broadcast h) @ ds, rs, h'))"
| "flow (Receive i # ops) h =
     (let (e, h1) = client_take i h; (ds, rs, h') = flow ops h1
      in (ds, (case e of None \<Rightarrow> rs | Some x \<Rightarrow> (i, x) # rs), h'))"

fun flow_ok :: "flow_op list \<Rightarrow> client hub \<Rightarrow> bool" where
  "flow_ok [] h = True"
| "flow_ok (Push e # ops) h = flow_ok ops (Publish e h)"
| "flow_ok (Pump order # ops) h =
     (valid_order order (subscribers h) \<and> flow_ok ops (run_event client_send client_close order h))"
| "flow_ok (Receive i # ops) h = flow_ok ops (snd (client_take i h))"

definition taken_by :: "string \<Rightarrow> (string \<times> event) list \<Rightarrow> event list" where
  "taken_by i rs = map snd (filter (\<lambda>(k, _). k = i) rs)"

definition same_filter :: "client \<Rightarrow> client \<Rightarrow> bool" where
  "same_filter f g \<longleftrightarrow> (\<forall>e. shouldForward e f = shouldForward e g)"

lemma shouldForward_inner [simp]: "shouldForward e (f\<lparr>inner := s\<rparr>) = shouldForward e f"
  by (simp add: shouldForward_def)

lemma shouldForward_deliver [simp]: "shouldForward e (deliver e' f) = shouldForward e f"
  by (simp add: deliver_def)

lemma same_filter_simps [simp]:
  "same_filter f f" "same_filter (deliver e f) g = same_filter f g"
  "same_filter (f\<lparr>inner := s\<rparr>) g = same_filter f g"
  by (simp_all add: same_filter_def)

lemma mget_run_event:
  assumes "valid_order order (subscribers h)"
  shows "mget (subscribers (run_event client_send client_close order h)) i =
    (case broadcast h of
       [] \<Rightarrow> mget (subscribers h) i
     | e # _ \<Rightarrow> (case mget (subscribers h) i of
         None \<Rightarrow> None
       | Some f \<Rightarrow> if \<not> shouldForward e f then Some f else if has_room f then Some (deliver e f) else None))"
  using assms mget_run_broadcast [of order "h\<lparr>broadcast := bs\<rparr>" client_send client_close e i for bs e]
  by (auto simp: run_event_def client_send_cases split: list.split option.split)

lemma client_take_cases:
  assumes "mget (subscribers h) i = Some f"
  shows "client_take i h = (case buf (inner f) of
      [] \<Rightarrow> (None, h\<lparr>subscribers := mput i f (subscribers h)\<rparr>)
    | e # es \<Rightarrow> (Some e, h\<lparr>subscribers := mput i (f\<lparr>inner := (inner f)\<lparr>buf := es\<rparr>\<rparr>) (subscribers h)\<rparr>))"
  using assms by (simp add: client_take_def channel_receive_def split: list.split)

lemma client_take_other: "k \<noteq> i \<Longrightarrow> mget (subscribers (snd (client_take i h))) k = mget (subscribers h) k"
  by (simp add: client_take_def split: option.split prod.split)

lemma client_take_gone: "mget (subscribers h) k = None \<Longrightarrow> mget (subscribers (snd (client_take i h))) k = None"
  by (cases "k = i") (auto simp: client_take_other, simp add: client_take_def)

lemma flow_gone:
  "flow_ok ops h \<Longrightarrow> mget (subscribers h) i = None \<Longrightarrow> mget (subscribers (snd (snd (flow ops h)))) i = None"
proof (induction ops h rule: flow.induct)
  case (2 e ops h)
  then show ?case by (simp add: Publish_def split: if_splits)
next
  case (3 order ops h)
  then show ?case
    by (auto simp: mget_run_event split: prod.split list.splits)
next
  case (4 k ops h)
  obtain e h1 where t: "client_take k h = (e, h1)" by fastforce
  have "mget (subscribers h1) i = None" using client_take_gone [OF "4.prems"(2), of k] t by simp
  then show ?case using 4 t by (auto split: prod.split)
qed simp



section \<open>The hub over time\<close>

text \<open>
  Registration and unregistration happen only while a loop goroutine is there to meet them; a goroutine can exit
  once its stop was requested, that is, as long as one remains for a running hub. \<open>client\<close> stands for the
  operations a client has on its own filter.
\<close>

inductive hub_reach :: "client hub \<Rightarrow> bool" where
  new: "hub_reach New"
| start: "hub_reach h \<Longrightarrow> hub_reach (Start h)"
| stop: "hub_reach h \<Longrightarrow> hub_reach (Stop client_close h)"
| publish: "hub_reach h \<Longrightarrow> hub_reach (Publish e h)"
| register: "hub_reach h \<Longrightarrow> 0 < loops h \<Longrightarrow>
    hub_reach (run_register client_id (NewFilteredSubscriber (NewChannelSubscriber i n)) h)"
| unregister: "hub_reach h \<Longrightarrow> 0 < loops h \<Longrightarrow> hub_reach (run_unregister client_close i h)"
| event: "hub_reach h \<Longrightarrow> 0 < loops h \<Longrightarrow> valid_order order (subscribers h) \<Longrightarrow>
    hub_reach (run_event client_send client_close order h)"
| exit: "hub_reach h \<Longrightarrow> (if running h then 1 else 0) < loops h \<Longrightarrow> hub_reach (run_exit h)"
| receive: "hub_reach h \<Longrightarrow> hub_reach (snd (client_take i h))"
| client: "hub_reach h \<Longrightarrow> mget (subscribers h) i = Some f \<Longrightarrow>
    g \<in> {SubscribeWorkspace w f, UnsubscribeWorkspace w f, SubscribeAll f, SetSessionFocus w s f,
         ClearSessionFocus f, snd (ClearSessionFocusIfWorkspace w f)} \<Longrightarrow>
    hub_reach (h\<lparr>subscribers := mput i g (subscribers h)\<rparr>)"

definition client_ok :: "string \<Rightarrow> client \<Rightarrow> bool" where
  "client_ok i f \<longleftrightarrow> client_id f = i \<and> \<not> closed (inner f) \<and> length (buf (inner f)) \<le> cap (inner f)"

definition hub_ok :: "client hub \<Rightarrow> bool" where
  "hub_ok h \<longleftrightarrow> wf_map (subscribers h) \<and>
     (\<forall>i f. mget (subscribers h) i = Some f \<longrightarrow> client_ok i f) \<and>
     length (broadcast h) \<le> 256 \<and> (\<forall>f \<in> set (retired h). closed (inner f)) \<and>
     (running h \<longrightarrow> 0 < loops h \<and> has_done h)"

lemma hub_ok_put: "hub_ok h \<Longrightarrow> client_ok i f \<Longrightarrow> hub_ok (h\<lparr>subscribers := mput i f (subscribers h)\<rparr>)"
  by (simp add: hub_ok_def)

lemma hub_ok_remove: "hub_ok h \<Longrightarrow> hub_ok (remove_sub client_close i h)"
  using fcs.retired_remove_sub [of h i]
  by (simp add: hub_ok_def wf_remove_sub mget_remove_sub)

lemma run_broadcast_frame [simp]:
  "running (run_broadcast snd_ev cls order e h) = running h"
  "has_done (run_broadcast snd_ev cls order e h) = has_done h"
  "loops (run_broadcast snd_ev cls order e h) = loops h"
proof -
  have "running (fold (remove_sub cls) is h) = running h \<and> has_done (fold (remove_sub cls) is h) = has_done h \<and>
      loops (fold (remove_sub cls) is h) = loops h" for "is" and h :: "'a hub"
    by (induction "is" arbitrary: h) simp_all
  then show "running (run_broadcast snd_ev cls order e h) = running h"
    "has_done (run_broadcast snd_ev cls order e h) = has_done h"
    "loops (run_broadcast snd_ev cls order e h) = loops h"
    by (simp_all add: run_broadcast_def split: prod.split)
qed

lemma hub_ok_broadcast:
  assumes "hub_ok h" "valid_order order (subscribers h)"
  shows "hub_ok (run_broadcast client_send client_close order e h)"
proof -
  have "wf_map (subscribers (run_broadcast client_send client_close order e h))"
    using assms(1) wf_send_all [of "subscribers h" client_send e order]
    by (auto simp: hub_ok_def run_broadcast_def intro!: wf_fold_remove split: prod.split)
  moreover have "client_ok i f"
    if "mget (subscribers (run_broadcast client_send client_close order e h)) i = Some f" for i f
    using that assms(1)
    by (auto simp: broadcast_outcome_cases [OF assms(2)] hub_ok_def client_ok_def has_room_def deliver_def
        split: option.splits if_splits)
  ultimately show ?thesis
    using assms(1) fcs.retired_broadcast [of h order e] by (simp add: hub_ok_def)
qed

text \<open>
  The hub's bounds hold in every state it can reach, through any interleaving of starts, stops,
  registrations, broadcasts and slow clients: at most 256 events wait, no client's queue exceeds its
  buffer, every registered client is open and filed under its own identifier, everything the hub has dropped
  is closed, and a running hub has a loop that serves it.
\<close>

theorem hub_bounds:
  assumes "hub_reach h"
  shows "hub_ok h"
  using assms
proof induction
  case new
  then show ?case by (simp add: hub_ok_def New_def)
next
  case (start h)
  then show ?case by (auto simp: hub_ok_def Start_def)
next
  case (stop h)
  then show ?case using fcs.retired_stop [of h] by (auto simp: hub_ok_def Stop_def)
next
  case (publish h e)
  then show ?case by (auto simp: hub_ok_def Publish_def)
next
  case (register h i n)
  have "client_ok i (NewFilteredSubscriber (NewChannelSubscriber i n))"
    by (simp add: client_ok_def NewFilteredSubscriber_def NewChannelSubscriber_def)
  then show ?case
    using hub_ok_put [OF register.IH] by (simp add: run_register_def NewFilteredSubscriber_def NewChannelSubscriber_def)
next
  case (unregister h i)
  then show ?case by (simp add: run_unregister_def hub_ok_remove)
next
  case (event h order)
  have "hub_ok (h\<lparr>broadcast := es\<rparr>)" if "broadcast h = e # es" for e es
    using event.IH that by (simp add: hub_ok_def)
  then show ?case
    using event.IH event.hyps(3) by (auto simp: run_event_def intro!: hub_ok_broadcast split: list.split)
next
  case (exit h)
  then show ?case by (auto simp: hub_ok_def run_exit_def split: if_splits)
next
  case (receive h i)
  show ?case
  proof (cases "mget (subscribers h) i")
    case None
    then show ?thesis using receive.IH by (simp add: client_take_def)
  next
    case (Some f)
    then have "client_ok i f" using receive.IH by (simp add: hub_ok_def)
    then have "client_ok i (f\<lparr>inner := snd (channel_receive (inner f))\<rparr>)"
      by (auto simp: client_ok_def channel_receive_def split: list.split)
    then show ?thesis
      using hub_ok_put [OF receive.IH] Some by (simp add: client_take_def split: prod.split) (metis snd_conv)
  qed
next
  case (client h i f g w s)
  then have "client_ok i f" by (simp add: hub_ok_def)
  then have "client_ok i g"
    using client.hyps(3)
    by (auto simp: client_ok_def SubscribeWorkspace_def UnsubscribeWorkspace_def SubscribeAll_def
        SetSessionFocus_def ClearSessionFocus_def ClearSessionFocusIfWorkspace_def split: if_splits)
  then show ?case by (rule hub_ok_put [OF client.IH])
qed

lemma hub_bounds_witness:
  "hub_ok (run_register client_id (NewFilteredSubscriber (NewChannelSubscriber ''c'' 4)) (Start New))"
  by (rule hub_bounds, rule hub_reach.register [OF hub_reach.start [OF hub_reach.new]])
     (simp add: Start_def New_def)

end
