(* ===== verification/Rate_Limiter.thy ===== *)
theory Rate_Limiter
  imports Client_Address
begin

text \<open>
  \<open>internal/server/http/middleware/ratelimit.go\<close>: the sliding-window limiter of requests per key, the
  functions that choose the key of a request, and the middleware.

  A call reads the clock once; the instant is an argument. The loop that calls \<open>cleanup\<close> is left to the
  caller of the model, which may clean up at any time.
\<close>

section \<open>The limiter\<close>

definition DefaultMaxRequests :: int where "DefaultMaxRequests = 10"
definition DefaultWindow :: time where "DefaultWindow = minute"

record bucket =
  timestamps :: "time list"
  lastAccess :: time

record rate_limiter =
  maxRequests :: int
  window :: time
  buckets :: "(string, bucket) gomap"

datatype limiter_option = WithMaxRequests int | WithWindow time

fun apply_option :: "limiter_option \<Rightarrow> rate_limiter \<Rightarrow> rate_limiter" where
  "apply_option (WithMaxRequests n) r = (if n > 0 then r\<lparr>maxRequests := n\<rparr> else r)"
| "apply_option (WithWindow d) r = (if d > 0 then r\<lparr>window := d\<rparr> else r)"

definition NewRateLimiter :: "limiter_option list \<Rightarrow> rate_limiter" where
  "NewRateLimiter opts =
     fold apply_option opts \<lparr>maxRequests = DefaultMaxRequests, window = DefaultWindow, buckets = []\<rparr>"

definition Allow :: "string \<Rightarrow> time \<Rightarrow> rate_limiter \<Rightarrow> bool \<times> rate_limiter" where
  "Allow key now r =
     (let cutoff = now - window r;
          ts = (case mget (buckets r) key of Some b \<Rightarrow> timestamps b | None \<Rightarrow> []);
          valid = filter (\<lambda>t. t > cutoff) ts
      in if int (length valid) \<ge> maxRequests r
         then (False, r\<lparr>buckets := mput key \<lparr>timestamps = valid, lastAccess = now\<rparr> (buckets r)\<rparr>)
         else (True, r\<lparr>buckets := mput key \<lparr>timestamps = valid @ [now], lastAccess = now\<rparr> (buckets r)\<rparr>))"

definition Remaining :: "string \<Rightarrow> time \<Rightarrow> rate_limiter \<Rightarrow> int" where
  "Remaining key now r =
     (case mget (buckets r) key of
        None \<Rightarrow> maxRequests r
      | Some b \<Rightarrow>
          (let count = int (length (filter (\<lambda>t. t > now - window r) (timestamps b)))
           in max 0 (maxRequests r - count)))"

definition Reset :: "string \<Rightarrow> rate_limiter \<Rightarrow> rate_limiter" where
  "Reset key r = r\<lparr>buckets := mdel key (buckets r)\<rparr>"

definition ResetAll :: "rate_limiter \<Rightarrow> rate_limiter" where
  "ResetAll r = r\<lparr>buckets := []\<rparr>"

definition cleanup_buckets :: "time \<Rightarrow> rate_limiter \<Rightarrow> rate_limiter" where
  "cleanup_buckets now r = r\<lparr>buckets := mdel_if (\<lambda>_ b. lastAccess b < now - window r * 2) (buckets r)\<rparr>"

section \<open>Keys of requests\<close>

definition index_byte :: "char \<Rightarrow> string \<Rightarrow> nat option" where
  "index_byte c s = index_of [c] s"

definition trim_blanks :: "string \<Rightarrow> string" where
  "trim_blanks s =
     (let p = (\<lambda>c. c = CHR '' '' \<or> c = CHR 0x09) in rev (dropWhile p (rev (dropWhile p s))))"

definition remote_key :: "string \<Rightarrow> string" where
  "remote_key addr =
     (case last_index (CHR '':'') addr of
        None \<Rightarrow> addr
      | Some idx \<Rightarrow>
          if idx = 0 then addr
          else if hd addr = CHR ''['' then
            (case index_byte (CHR '']'') addr of
               Some b \<Rightarrow> if b > 0 then drop 1 (take b addr) else take idx addr
             | None \<Rightarrow> take idx addr)
          else take idx addr)"

definition IPKeyExtractor :: "bool \<Rightarrow> http_request \<Rightarrow> string" where
  "IPKeyExtractor trust_proxy r =
     (let xff = header_Get r ''X-Forwarded-For''; xri = header_Get r ''X-Real-Ip''
      in if trust_proxy \<and> xff \<noteq> [] then
           (case index_byte (CHR '','') xff of
              Some idx \<Rightarrow> if idx > 0 then trim_blanks (take idx xff) else trim_blanks xff
            | None \<Rightarrow> trim_blanks xff)
         else if trust_proxy \<and> xri \<noteq> [] then trim_blanks xri
         else remote_key (RemoteAddr r))"

definition TrustedProxyIPKeyExtractor :: "bool \<Rightarrow> ip_net list \<Rightarrow> http_request \<Rightarrow> string" where
  "TrustedProxyIPKeyExtractor trust_proxy trustedProxies r =
     (let key = RequestClientIP r trustedProxies in if key \<noteq> [] then key else IPKeyExtractor trust_proxy r)"

definition HeaderKeyExtractor :: "bool \<Rightarrow> string \<Rightarrow> http_request \<Rightarrow> string" where
  "HeaderKeyExtractor trust_proxy hdr r =
     (let v = header_Get r hdr in if v \<noteq> [] then v else IPKeyExtractor trust_proxy r)"

text \<open>
  The middleware: either the refusal, or the two headers it sets before the next handler runs. The
  remaining count is taken from the clock after the decision.
\<close>

datatype limited = Too_many | Pass int int

definition RateLimitMiddleware ::
  "bool \<Rightarrow> (http_request \<Rightarrow> string) option \<Rightarrow> time \<Rightarrow> time \<Rightarrow> http_request \<Rightarrow> rate_limiter \<Rightarrow> limited \<times> rate_limiter" where
  "RateLimitMiddleware trust_proxy keyExtractor now1 now2 r l =
     (let key = (case keyExtractor of None \<Rightarrow> IPKeyExtractor trust_proxy | Some f \<Rightarrow> f) r;
          (ok, l') = Allow key now1 l
      in if \<not> ok then (Too_many, l') else (Pass (maxRequests l') (Remaining key now2 l'), l'))"

section \<open>The limiter against its history\<close>

text \<open>
  The specification: a history lists, newest first, the instants and keys at which requests were allowed; a
  request is allowed when fewer than the maximum were allowed for its key inside the window.
\<close>

type_synonym history = "(time \<times> string) list"

definition recent :: "rate_limiter \<Rightarrow> string \<Rightarrow> time \<Rightarrow> history \<Rightarrow> nat" where
  "recent r key now h = length (filter (\<lambda>(t, k). k = key \<and> t > now - window r) h)"

text \<open>
  What may happen to a limiter: requests, resets and cleanups, in any order, on a clock that does not
  go back. A reset forgets the history of its keys.
\<close>

inductive limiter_reach :: "rate_limiter \<Rightarrow> rate_limiter \<Rightarrow> time \<Rightarrow> history \<Rightarrow> bool" for r0 :: rate_limiter where
  started: "limiter_reach r0 (ResetAll r0) t []"
| allowed: "\<lbrakk>limiter_reach r0 r t h; t \<le> now; Allow key now r = (True, r')\<rbrakk> \<Longrightarrow> limiter_reach r0 r' now ((now, key) # h)"
| refused: "\<lbrakk>limiter_reach r0 r t h; t \<le> now; Allow key now r = (False, r')\<rbrakk> \<Longrightarrow> limiter_reach r0 r' now h"
| reset: "limiter_reach r0 r t h \<Longrightarrow> limiter_reach r0 (Reset key r) t (filter (\<lambda>(_, k). k \<noteq> key) h)"
| reset_all: "limiter_reach r0 r t h \<Longrightarrow> limiter_reach r0 (ResetAll r) t []"
| cleaned: "\<lbrakk>limiter_reach r0 r t h; t \<le> now\<rbrakk> \<Longrightarrow> limiter_reach r0 (cleanup_buckets now r) now h"

definition stamps :: "rate_limiter \<Rightarrow> string \<Rightarrow> time list" where
  "stamps r key = (case mget (buckets r) key of Some b \<Rightarrow> timestamps b | None \<Rightarrow> [])"

text \<open>The buckets hold what matters of the history.\<close>

definition represents :: "rate_limiter \<Rightarrow> time \<Rightarrow> history \<Rightarrow> bool" where
  "represents r t h \<longleftrightarrow>
     wf_map (buckets r) \<and>
     (\<forall>key now. t \<le> now \<longrightarrow> length (filter (\<lambda>s. s > now - window r) (stamps r key)) = recent r key now h) \<and>
     (\<forall>key b. mget (buckets r) key = Some b \<longrightarrow> lastAccess b \<le> t \<and> (\<forall>s \<in> set (timestamps b). s \<le> lastAccess b))"

lemma represents_stamps: "represents r t h \<Longrightarrow> s \<in> set (stamps r key) \<Longrightarrow> s \<le> t"
proof (cases "mget (buckets r) key")
  case (Some b)
  assume "represents r t h" "s \<in> set (stamps r key)"
  then have "lastAccess b \<le> t" "s \<le> lastAccess b" using Some by (simp_all add: represents_def stamps_def)
  then show ?thesis by simp
qed (simp add: stamps_def)

lemma Allow_window [simp]: "window (snd (Allow key now r)) = window r" "maxRequests (snd (Allow key now r)) = maxRequests r"
  by (simp_all add: Allow_def Let_def)

lemma Allow_fst: "fst (Allow key now r) \<longleftrightarrow> int (length (filter (\<lambda>s. s > now - window r) (stamps r key))) < maxRequests r"
  by (auto simp: Allow_def stamps_def Let_def)

lemma Allow_buckets:
  "mget (buckets (snd (Allow key now r))) k =
     (if k = key then Some \<lparr>timestamps = filter (\<lambda>s. s > now - window r) (stamps r key) @
          (if fst (Allow key now r) then [now] else []), lastAccess = now\<rparr>
      else mget (buckets r) k)"
  unfolding Allow_fst by (simp add: Allow_def stamps_def Let_def not_le)

lemma Allow_stamps:
  "stamps (snd (Allow key now r)) k =
     (if k = key then filter (\<lambda>s. s > now - window r) (stamps r key) @ (if fst (Allow key now r) then [now] else [])
      else stamps r k)"
  by (simp add: stamps_def Allow_buckets)

lemma filter_later: "t \<le> (now :: int) \<Longrightarrow> filter (\<lambda>s. s > now - w) (filter (\<lambda>s. s > t - w) ts) = filter (\<lambda>s. s > now - w) ts"
  by (auto intro: filter_cong)

lemma represents_Allow:
  assumes "represents r t h" "t \<le> now" "0 < window r"
  shows "represents (snd (Allow key now r)) now (if fst (Allow key now r) then (now, key) # h else h)"
  unfolding represents_def
proof (intro conjI allI impI)
  show "wf_map (buckets (snd (Allow key now r)))"
    using assms(1) by (simp add: Allow_def Let_def represents_def)
  fix k b
  assume b: "mget (buckets (snd (Allow key now r))) k = Some b"
  have "lastAccess b \<le> now \<and> (\<forall>s \<in> set (timestamps b). s \<le> lastAccess b)"
  proof (cases "k = key")
    case True
    have "s \<le> now" if "s \<in> set (stamps r key)" for s using represents_stamps [OF assms(1) that] assms(2) by simp
    then show ?thesis using b True by (auto simp: Allow_buckets)
  next
    case False
    then have "mget (buckets r) k = Some b" using b by (simp add: Allow_buckets)
    then show ?thesis using assms(1,2) unfolding represents_def by fastforce
  qed
  then show "lastAccess b \<le> now" "\<forall>s \<in> set (timestamps b). s \<le> lastAccess b" by blast+
next
  fix k later
  assume l: "now \<le> later"
  have "length (filter (\<lambda>s. s > later - window r) (stamps r k)) = recent r k later h" for k
    using assms(1,2) l unfolding represents_def by (meson order_trans)
  then show "length (filter (\<lambda>s. s > later - window (snd (Allow key now r))) (stamps (snd (Allow key now r)) k)) =
      recent (snd (Allow key now r)) k later (if fst (Allow key now r) then (now, key) # h else h)"
    using filter_later [OF l, of "window r" "stamps r key"] by (simp add: Allow_stamps recent_def)
qed

lemma represents_cleanup:
  assumes "represents r t h" "t \<le> now" "0 < window r"
  shows "represents (cleanup_buckets now r) now h"
  unfolding represents_def
proof (intro conjI allI impI)
  have wf: "wf_map (buckets r)" using assms(1) by (simp add: represents_def)
  then show "wf_map (buckets (cleanup_buckets now r))" by (simp add: cleanup_buckets_def)
  have get: "mget (buckets (cleanup_buckets now r)) k = (case mget (buckets r) k of None \<Rightarrow> None
      | Some b \<Rightarrow> if lastAccess b < now - window r * 2 then None else Some b)" for k
    by (simp add: cleanup_buckets_def mget_mdel_if [OF wf])
  have w: "window (cleanup_buckets now r) = window r" by (simp add: cleanup_buckets_def)
  fix k b
  assume "mget (buckets (cleanup_buckets now r)) k = Some b"
  then have "mget (buckets r) k = Some b" using get by (auto split: option.splits if_splits)
  then show "lastAccess b \<le> now" "\<forall>s \<in> set (timestamps b). s \<le> lastAccess b"
    using assms(1,2) unfolding represents_def by fastforce+
next
  fix k later
  assume l: "now \<le> later"
  have wf: "wf_map (buckets r)" using assms(1) by (simp add: represents_def)
  have get: "mget (buckets (cleanup_buckets now r)) k = (case mget (buckets r) k of None \<Rightarrow> None
      | Some b \<Rightarrow> if lastAccess b < now - window r * 2 then None else Some b)"
    by (simp add: cleanup_buckets_def mget_mdel_if [OF wf])
  have w: "window (cleanup_buckets now r) = window r" by (simp add: cleanup_buckets_def)
  have "filter (\<lambda>s. s > later - window r) (stamps (cleanup_buckets now r) k) = filter (\<lambda>s. s > later - window r) (stamps r k)"
  proof (cases "mget (buckets r) k")
    case None
    then show ?thesis by (simp add: stamps_def get)
  next
    case (Some b)
    have "s \<le> later - window r" if "lastAccess b < now - window r * 2" "s \<in> set (timestamps b)" for s
      using that Some assms(1,3) l unfolding represents_def by fastforce
    then show ?thesis using Some by (auto simp: stamps_def get filter_empty_conv not_less)
  qed
  moreover have "length (filter (\<lambda>s. s > later - window r) (stamps r k)) = recent r k later h"
    using assms(1,2) l unfolding represents_def by (meson order_trans)
  ultimately show "length (filter (\<lambda>s. s > later - window (cleanup_buckets now r)) (stamps (cleanup_buckets now r) k)) =
      recent (cleanup_buckets now r) k later h"
    by (simp add: w recent_def)
qed

lemma represents_Reset:
  assumes "represents r t h"
  shows "represents (Reset key r) t (filter (\<lambda>(_, k). k \<noteq> key) h)"
proof -
  have "filter (\<lambda>(t', k'). k' = k \<and> now - window r < t') (filter (\<lambda>(_, k'). k' \<noteq> key) h) =
      (if k = key then [] else filter (\<lambda>(t', k'). k' = k \<and> now - window r < t') h)" for k now
    by (induction h) auto
  then have *: "recent (Reset key r) k now (filter (\<lambda>(_, k). k \<noteq> key) h) = (if k = key then 0 else recent r k now h)" for k now
    by (simp add: recent_def Reset_def del: filter_filter)
  have "stamps (Reset key r) k = (if k = key then [] else stamps r k)" for k
    by (simp add: stamps_def Reset_def)
  then show ?thesis
    using assms unfolding represents_def * by (simp add: Reset_def)
qed

lemma represents_new: "represents (ResetAll r) t []"
  by (simp add: represents_def ResetAll_def stamps_def recent_def)

lemma reach_represents:
  assumes "limiter_reach r0 r t h" "0 < window r0"
  shows "window r = window r0 \<and> maxRequests r = maxRequests r0 \<and> represents r t h \<and> (\<forall>(s, _) \<in> set h. s \<le> t)"
  using assms
proof (induction rule: limiter_reach.induct)
  case (started t)
  then show ?case using represents_new by (simp add: ResetAll_def)
next
  case (allowed r t h now key r')
  then show ?case using represents_Allow [of r t h now key] Allow_window [of key now r] by fastforce
next
  case (refused r t h now key r')
  then show ?case using represents_Allow [of r t h now key] Allow_window [of key now r] by fastforce
next
  case (reset r t h key)
  then show ?case using represents_Reset by (auto simp: Reset_def)
next
  case (reset_all r t h)
  then show ?case using represents_new by (simp add: ResetAll_def)
next
  case (cleaned r t h now)
  then show ?case using represents_cleanup [of r t h now] by (fastforce simp: cleanup_buckets_def)
qed

lemma reach_allowed:
  assumes "limiter_reach r0 r t h" "0 < window r0" "t \<le> now"
  shows "fst (Allow key now r) \<longleftrightarrow> int (recent r0 key now h) < maxRequests r0"
proof -
  have r: "window r = window r0" "maxRequests r = maxRequests r0" "represents r t h"
    using reach_represents [OF assms(1,2)] by auto
  then show ?thesis using assms(3) by (simp add: Allow_fst represents_def recent_def)
qed

text \<open>
  C17: The limiter is the sliding window it promises: after any history of requests, resets and cleanups, a request is
  allowed exactly when fewer than the maximum were allowed for its key within the window before it (so
  cleanups never change a decision), and \<open>Remaining\<close> is the number still free.
\<close>

theorem Allow_iff_window_free:
  assumes "limiter_reach r0 r t h" "t \<le> now" "0 < window r0" "0 < maxRequests r0"
  shows "(fst (Allow key now r) \<longleftrightarrow> int (recent r0 key now h) < maxRequests r0) \<and>
    Remaining key now r = max 0 (maxRequests r0 - int (recent r0 key now h))"
proof -
  have r: "window r = window r0" "maxRequests r = maxRequests r0" "represents r t h"
    using reach_represents [OF assms(1,3)] by auto
  then have n: "length (filter (\<lambda>s. s > now - window r) (stamps r key)) = recent r0 key now h"
    using assms(2) by (simp add: represents_def recent_def)
  then have "Remaining key now r = max 0 (maxRequests r - int (recent r0 key now h))"
    using assms(4) r(2) by (auto simp: Remaining_def stamps_def split: option.splits)
  then show ?thesis using r n by (simp add: Allow_fst)
qed

text \<open>How many requests a history allows for a key in the window that begins after \<open>a\<close>.\<close>

definition in_window :: "rate_limiter \<Rightarrow> string \<Rightarrow> time \<Rightarrow> history \<Rightarrow> nat" where
  "in_window r key a h = length (filter (\<lambda>(t, k). k = key \<and> a < t \<and> t \<le> a + window r) h)"

lemma length_filter_mono: "(\<And>x. x \<in> set xs \<Longrightarrow> P x \<Longrightarrow> Q x) \<Longrightarrow> length (filter P xs) \<le> length (filter Q xs)"
  by (induction xs) auto

text \<open>
  No key gets more than the maximum through in any window: whatever requests, resets and cleanups happen, the
  requests allowed for a key since its last reset in any window, wherever it begins, number at most the maximum.
\<close>

theorem window_never_exceeded:
  assumes "limiter_reach r0 r t h" "0 < window r0" "0 < maxRequests r0"
  shows "int (in_window r0 key a h) \<le> maxRequests r0"
  using assms
proof (induction rule: limiter_reach.induct)
  case (allowed r t h now k r')
  have free: "int (recent r0 k now h) < maxRequests r0"
    using reach_allowed [OF allowed.hyps(1) allowed.prems(1) allowed.hyps(2), of k] allowed.hyps(3) by simp
  show ?case
  proof (cases "k = key \<and> a < now \<and> now \<le> a + window r0")
    case True
    then have "in_window r0 key a h \<le> recent r0 key now h"
      unfolding in_window_def recent_def by (intro length_filter_mono) auto
    then show ?thesis using True free by (simp add: in_window_def)
  next
    case False
    then show ?thesis using allowed by (auto simp: in_window_def)
  qed
next
  case (reset r t h k)
  have "in_window r0 key a (filter (\<lambda>(_, k'). k' \<noteq> k) h) \<le> in_window r0 key a h"
    unfolding in_window_def by (induction h) auto
  then show ?case using reset by linarith
qed (simp_all add: in_window_def)

text \<open>Two requests of one client and one of another, at a limit of two, and the refusal of a third.\<close>

definition two_per_minute :: rate_limiter where "two_per_minute = NewRateLimiter [WithMaxRequests 2, WithMaxRequests 0]"

definition after_two :: rate_limiter where
  "after_two = snd (Allow ''a'' 1005 (snd (Allow ''a'' 1000 (ResetAll two_per_minute))))"

lemma after_two_reach: "limiter_reach two_per_minute after_two 1005 [(1005, ''a''), (1000, ''a'')]"
proof -
  have "limiter_reach two_per_minute (snd (Allow ''a'' 1000 (ResetAll two_per_minute))) 1000 [(1000, ''a'')]"
    by (rule allowed [OF started [of _ 0]]) (simp_all add: Allow_def ResetAll_def two_per_minute_def NewRateLimiter_def)
  then show ?thesis
    unfolding after_two_def
    by (rule allowed)
       (simp_all add: Allow_def ResetAll_def two_per_minute_def NewRateLimiter_def DefaultWindow_def minute_def second_def)
qed

theorem Allow_iff_window_free_witness:
  "\<not> fst (Allow ''a'' 2000 after_two) \<and> fst (Allow ''b'' 2000 after_two) \<and>
   fst (Allow ''a'' (1000 + minute) after_two)"
  using Allow_iff_window_free [OF after_two_reach, of 2000 "''a''"]
    Allow_iff_window_free [OF after_two_reach, of 2000 "''b''"]
    Allow_iff_window_free [OF after_two_reach, of "1000 + minute" "''a''"]
  by (simp add: recent_def two_per_minute_def NewRateLimiter_def DefaultWindow_def minute_def second_def)

theorem window_never_exceeded_witness: "int (in_window two_per_minute ''a'' 999 [(1005, ''a''), (1000, ''a'')]) \<le> 2"
  using window_never_exceeded [OF after_two_reach, of "''a''" 999]
  by (simp add: two_per_minute_def NewRateLimiter_def DefaultWindow_def minute_def second_def)

end
