(* ===== verification/Task.thy ===== *)
theory Task
  imports Events
begin

text \<open>
  \<open>internal/domain/task\<close>: the tasks an agent executes, their state machine and their timeline. A status
  is a string, as in the code; the constants name the eight valid ones. The instant of \<open>time.Now()\<close> and
  the fresh identifier of \<open>uuid.New()\<close> are arguments. Slices that are nil and empty ones are not told
  apart. A raw JSON message is its JSON value.
\<close>

section \<open>Statuses\<close>

type_synonym status = string

definition StatusPending :: status where "StatusPending = ''pending''"
definition StatusPlanning :: status where "StatusPlanning = ''planning''"
definition StatusRunning :: status where "StatusRunning = ''running''"
definition StatusValidating :: status where "StatusValidating = ''validating''"
definition StatusAwaitingApproval :: status where "StatusAwaitingApproval = ''awaiting_approval''"
definition StatusCompleted :: status where "StatusCompleted = ''completed''"
definition StatusFailed :: status where "StatusFailed = ''failed''"
definition StatusStuck :: status where "StatusStuck = ''stuck''"

lemmas status_defs = StatusPending_def StatusPlanning_def StatusRunning_def StatusValidating_def
  StatusAwaitingApproval_def StatusCompleted_def StatusFailed_def StatusStuck_def

definition validTransitions :: "(status, status list) gomap" where
  "validTransitions =
     [(StatusPending, [StatusPlanning, StatusRunning, StatusFailed]),
      (StatusPlanning, [StatusRunning, StatusFailed]),
      (StatusRunning, [StatusValidating, StatusFailed, StatusStuck]),
      (StatusValidating, [StatusAwaitingApproval, StatusCompleted, StatusFailed, StatusRunning]),
      (StatusAwaitingApproval, [StatusCompleted, StatusRunning, StatusFailed]),
      (StatusCompleted, []),
      (StatusFailed, [StatusPending, StatusRunning]),
      (StatusStuck, [StatusPending, StatusRunning, StatusFailed])]"

definition IsTerminal :: "status \<Rightarrow> bool" where
  "IsTerminal s \<longleftrightarrow> s = StatusCompleted"

definition IsActive :: "status \<Rightarrow> bool" where
  "IsActive s \<longleftrightarrow> s = StatusPlanning \<or> s = StatusRunning \<or> s = StatusValidating"

definition CanTransitionTo :: "status \<Rightarrow> status \<Rightarrow> bool" where
  "CanTransitionTo s target =
     (case mget validTransitions s of None \<Rightarrow> False | Some allowed \<Rightarrow> list_ex (\<lambda>a. a = target) allowed)"

definition AllStatuses :: "status list" where
  "AllStatuses =
     [StatusPending, StatusPlanning, StatusRunning, StatusValidating, StatusAwaitingApproval, StatusCompleted,
      StatusFailed, StatusStuck]"

definition IsValidStatus :: "string \<Rightarrow> bool" where
  "IsValidStatus s = list_ex (\<lambda>st. st = s) AllStatuses"

section \<open>Tasks\<close>

definition TaskTypeFixIssue :: string where "TaskTypeFixIssue = ''fix-issue''"
definition TaskTypeFixReplay :: string where "TaskTypeFixReplay = ''fix-replay''"
definition TaskTypeImplementCR :: string where "TaskTypeImplementCR = ''implement-cr''"
definition TaskTypeAddTest :: string where "TaskTypeAddTest = ''add-test''"
definition TaskTypeRefactor :: string where "TaskTypeRefactor = ''refactor''"
definition TaskTypeAutoFix :: string where "TaskTypeAutoFix = ''auto-fix''"
definition TaskTypePlanCase :: string where "TaskTypePlanCase = ''plan-case''"

record task_trigger =
  tr_Type :: string
  tr_Source :: string
  tr_Ref :: string
  tr_Hash :: string
  tr_Timestamp :: time

record anchors =
  a_Files :: "string list"
  a_Methods :: "string list"
  a_Keywords :: "string list"

record policy =
  MaxFilesChanged :: int
  MaxRounds :: int
  MaxDurationMins :: int
  MustPassTests :: bool
  MustPassBuild :: bool
  Autonomy :: string
  RequireApproval :: "string list"
  pol_AgentType :: string

record file_change =
  fc_Path :: string
  LinesAdded :: int
  LinesRemoved :: int

record task_result =
  VerdictStatus :: string
  VerdictSummary :: string
  DiffContent :: string
  FilesChanged :: "file_change list"
  RoundsCompleted :: int
  TestsPassed :: bool
  BuildPassed :: bool
  PRUrl :: string

record timeline_event =
  tl_Timestamp :: time
  tl_Type :: string
  tl_Message :: string
  tl_Actor :: string
  tl_Data :: "json option"

record task_origin =
  System :: string
  o_TaskID :: int
  o_CaseID :: "int option"
  URL :: string
  APIKey :: string

record revision =
  rev_ID :: string
  rev_TaskID :: string
  RevisionNo :: int
  Feedback :: string
  ResultSummary :: string
  rev_CreatedBy :: string
  rev_CreatedAt :: time

record agent_task =
  ID :: string
  WorkspaceID :: string
  CaseID :: "int option"
  TaskType :: string
  t_Title :: string
  Description :: string
  t_Severity :: string
  Labels :: "string list"
  t_Status :: status
  Assignee :: string
  TaskYAML :: string
  Trigger :: "task_trigger option"
  Anchors :: "anchors option"
  Policy :: "policy option"
  t_Result :: "task_result option"
  Timeline :: "timeline_event list"
  SessionID :: string
  BranchName :: string
  WorktreePath :: string
  Origin :: "task_origin option"
  CaseContext :: "json option"
  Prompt :: string
  CreatedBy :: string
  t_CreatedAt :: time
  StartedAt :: "time option"
  CompletedAt :: "time option"

definition IsPlanCase :: "agent_task \<Rightarrow> bool" where
  "IsPlanCase t = (case Trigger t of None \<Rightarrow> False | Some tr \<Rightarrow> tr_Type tr = ''plan_case'')"

definition PlanCasePolicy :: policy where
  "PlanCasePolicy =
     \<lparr>MaxFilesChanged = 0, MaxRounds = 1, MaxDurationMins = 30, MustPassTests = False, MustPassBuild = False,
      Autonomy = ''bounded-auto'', RequireApproval = [], pol_AgentType = ''claude''\<rparr>"

definition DefaultPolicy :: policy where
  "DefaultPolicy =
     \<lparr>MaxFilesChanged = 10, MaxRounds = 3, MaxDurationMins = 30, MustPassTests = True, MustPassBuild = True,
      Autonomy = ''supervised'', RequireApproval = [''git-push''], pol_AgentType = ''claude''\<rparr>"

definition empty_result :: task_result where
  "empty_result =
     \<lparr>VerdictStatus = [], VerdictSummary = [], DiffContent = [], FilesChanged = [], RoundsCompleted = 0,
      TestsPassed = False, BuildPassed = False, PRUrl = []\<rparr>"

definition NewTask :: "string \<Rightarrow> time \<Rightarrow> string \<Rightarrow> string \<Rightarrow> string \<Rightarrow> string \<Rightarrow> agent_task" where
  "NewTask uuid now workspaceID taskType title desc =
     \<lparr>ID = uuid, WorkspaceID = workspaceID, CaseID = None, TaskType = taskType, t_Title = title, Description = desc,
      t_Severity = ''medium'', Labels = [], t_Status = StatusPending, Assignee = ''cdev'', TaskYAML = [],
      Trigger = None, Anchors = None, Policy = None, t_Result = None, Timeline = [], SessionID = [],
      BranchName = [], WorktreePath = [], Origin = None, CaseContext = None, Prompt = [], CreatedBy = ''system'',
      t_CreatedAt = now, StartedAt = None, CompletedAt = None\<rparr>"

definition NewTimelineEvent :: "time \<Rightarrow> string \<Rightarrow> string \<Rightarrow> string \<Rightarrow> timeline_event" where
  "NewTimelineEvent now ty msg actor =
     \<lparr>tl_Timestamp = now, tl_Type = ty, tl_Message = msg, tl_Actor = actor, tl_Data = None\<rparr>"

definition AddTimelineEvent :: "time \<Rightarrow> string \<Rightarrow> string \<Rightarrow> string \<Rightarrow> agent_task \<Rightarrow> agent_task" where
  "AddTimelineEvent now ty msg actor t = t\<lparr>Timeline := Timeline t @ [NewTimelineEvent now ty msg actor]\<rparr>"

section \<open>Transitions\<close>

text \<open>The arrow of the messages, in UTF-8.\<close>

definition arrow :: string where "arrow = [CHR 0xE2, CHR 0x86, CHR 0x92]"

datatype transition_error = TransitionError status status

fun transition_error_text :: "transition_error \<Rightarrow> string" where
  "transition_error_text (TransitionError from to) =
     ''invalid task status transition: '' @ from @ '' '' @ arrow @ '' '' @ to"

definition change_message :: "status \<Rightarrow> status \<Rightarrow> string" where
  "change_message old new = ''Status changed: '' @ old @ '' '' @ arrow @ '' '' @ new"

definition lifecycle_stamp :: "status \<Rightarrow> time \<Rightarrow> agent_task \<Rightarrow> agent_task" where
  "lifecycle_stamp newStatus now t =
     (if newStatus = StatusRunning then (if StartedAt t = None then t\<lparr>StartedAt := Some now\<rparr> else t)
      else if newStatus = StatusCompleted \<or> newStatus = StatusFailed then t\<lparr>CompletedAt := Some now\<rparr>
      else t)"

definition Transition :: "time \<Rightarrow> time \<Rightarrow> status \<Rightarrow> agent_task \<Rightarrow> transition_error + agent_task" where
  "Transition now now' newStatus t =
     (if \<not> CanTransitionTo (t_Status t) newStatus then Inl (TransitionError (t_Status t) newStatus)
      else Inr (AddTimelineEvent now' ''status_change'' (change_message (t_Status t) newStatus) ''system''
                  (lifecycle_stamp newStatus now (t\<lparr>t_Status := newStatus\<rparr>))))"

lemma status_neq [simp]:
  "StatusPending \<noteq> StatusPlanning" "StatusPending \<noteq> StatusRunning" "StatusPending \<noteq> StatusValidating" "StatusPending \<noteq> StatusAwaitingApproval"
  "StatusPending \<noteq> StatusCompleted" "StatusPending \<noteq> StatusFailed" "StatusPending \<noteq> StatusStuck"
  "StatusPlanning \<noteq> StatusPending" "StatusPlanning \<noteq> StatusRunning" "StatusPlanning \<noteq> StatusValidating" "StatusPlanning \<noteq> StatusAwaitingApproval"
  "StatusPlanning \<noteq> StatusCompleted" "StatusPlanning \<noteq> StatusFailed" "StatusPlanning \<noteq> StatusStuck"
  "StatusRunning \<noteq> StatusPending" "StatusRunning \<noteq> StatusPlanning" "StatusRunning \<noteq> StatusValidating" "StatusRunning \<noteq> StatusAwaitingApproval"
  "StatusRunning \<noteq> StatusCompleted" "StatusRunning \<noteq> StatusFailed" "StatusRunning \<noteq> StatusStuck"
  "StatusValidating \<noteq> StatusPending" "StatusValidating \<noteq> StatusPlanning" "StatusValidating \<noteq> StatusRunning" "StatusValidating \<noteq> StatusAwaitingApproval"
  "StatusValidating \<noteq> StatusCompleted" "StatusValidating \<noteq> StatusFailed" "StatusValidating \<noteq> StatusStuck"
  "StatusAwaitingApproval \<noteq> StatusPending" "StatusAwaitingApproval \<noteq> StatusPlanning" "StatusAwaitingApproval \<noteq> StatusRunning" "StatusAwaitingApproval \<noteq> StatusValidating"
  "StatusAwaitingApproval \<noteq> StatusCompleted" "StatusAwaitingApproval \<noteq> StatusFailed" "StatusAwaitingApproval \<noteq> StatusStuck"
  "StatusCompleted \<noteq> StatusPending" "StatusCompleted \<noteq> StatusPlanning" "StatusCompleted \<noteq> StatusRunning" "StatusCompleted \<noteq> StatusValidating"
  "StatusCompleted \<noteq> StatusAwaitingApproval" "StatusCompleted \<noteq> StatusFailed" "StatusCompleted \<noteq> StatusStuck"
  "StatusFailed \<noteq> StatusPending" "StatusFailed \<noteq> StatusPlanning" "StatusFailed \<noteq> StatusRunning" "StatusFailed \<noteq> StatusValidating"
  "StatusFailed \<noteq> StatusAwaitingApproval" "StatusFailed \<noteq> StatusCompleted" "StatusFailed \<noteq> StatusStuck"
  "StatusStuck \<noteq> StatusPending" "StatusStuck \<noteq> StatusPlanning" "StatusStuck \<noteq> StatusRunning" "StatusStuck \<noteq> StatusValidating"
  "StatusStuck \<noteq> StatusAwaitingApproval" "StatusStuck \<noteq> StatusCompleted" "StatusStuck \<noteq> StatusFailed"
  by (simp_all add: status_defs)

section \<open>Walks of the state machine\<close>

text \<open>The changes of status a task went through, from one status to another.\<close>

fun walk :: "status \<Rightarrow> (status \<times> status) list \<Rightarrow> status \<Rightarrow> bool" where
  "walk s [] s' \<longleftrightarrow> s = s'"
| "walk s ((a, b) # p) s' \<longleftrightarrow> a = s \<and> CanTransitionTo a b \<and> walk b p s'"

definition targets :: "(status \<times> status) list \<Rightarrow> status set" where
  "targets p = snd ` set p"

lemma targets_simps [simp]: "targets [] = {}" "targets ((a, b) # p) = insert b (targets p)"
  "targets (p @ q) = targets p \<union> targets q"
  by (auto simp: targets_def)

lemma walk_append: "walk s (p @ q) s' \<longleftrightarrow> (\<exists>m. walk s p m \<and> walk m q s')"
  by (induction s p s' rule: walk.induct) auto

lemma CanTransitionTo_iff:
  "CanTransitionTo s t \<longleftrightarrow> (s, t) \<in>
     {(StatusPending, StatusPlanning), (StatusPending, StatusRunning), (StatusPending, StatusFailed),
      (StatusPlanning, StatusRunning), (StatusPlanning, StatusFailed),
      (StatusRunning, StatusValidating), (StatusRunning, StatusFailed), (StatusRunning, StatusStuck),
      (StatusValidating, StatusAwaitingApproval), (StatusValidating, StatusCompleted),
      (StatusValidating, StatusFailed), (StatusValidating, StatusRunning),
      (StatusAwaitingApproval, StatusCompleted), (StatusAwaitingApproval, StatusRunning),
      (StatusAwaitingApproval, StatusFailed), (StatusFailed, StatusPending), (StatusFailed, StatusRunning),
      (StatusStuck, StatusPending), (StatusStuck, StatusRunning), (StatusStuck, StatusFailed)}"
  by (auto simp: CanTransitionTo_def validTransitions_def split: if_splits)

lemma status_distinct [simp]: "distinct AllStatuses"
  by (simp add: AllStatuses_def)

lemma valid_target: "CanTransitionTo s t \<Longrightarrow> IsValidStatus t"
  by (auto simp: CanTransitionTo_iff IsValidStatus_def AllStatuses_def)

lemma terminal_final: "IsTerminal s \<Longrightarrow> \<not> CanTransitionTo s t"
  by (auto simp: CanTransitionTo_iff IsTerminal_def)

text \<open>A walk that avoids a status never enters what lies behind it.\<close>

lemma walk_barrier:
  assumes "walk s p t" "s \<notin> B" "targets p \<inter> G = {}" "\<And>a b. CanTransitionTo a b \<Longrightarrow> b \<in> B \<Longrightarrow> a \<in> B \<or> b \<in> G"
  shows "t \<notin> B"
  using assms(1,2,3)
proof (induction s p t rule: walk.induct)
  case (2 s a b p s')
  then have "b \<notin> B" using assms(4) [of a b] by auto
  then show ?case using 2 by simp
qed simp

lemma walk_completed:
  assumes "walk StatusPending p StatusCompleted"
  shows "StatusRunning \<in> targets p" "StatusValidating \<in> targets p"
proof -
  show "StatusRunning \<in> targets p"
  proof (rule ccontr)
    assume "StatusRunning \<notin> targets p"
    then have "StatusCompleted \<notin> {StatusRunning, StatusValidating, StatusAwaitingApproval, StatusCompleted, StatusStuck}"
      by (intro walk_barrier [OF assms, where G = "{StatusRunning}"]) (auto simp: CanTransitionTo_iff)
    then show False by simp
  qed
  show "StatusValidating \<in> targets p"
  proof (rule ccontr)
    assume "StatusValidating \<notin> targets p"
    then have "StatusCompleted \<notin> {StatusValidating, StatusAwaitingApproval, StatusCompleted}"
      by (intro walk_barrier [OF assms, where G = "{StatusValidating}"]) (auto simp: CanTransitionTo_iff)
    then show False by simp
  qed
qed

lemma walk_last: "walk s p t \<Longrightarrow> p \<noteq> [] \<Longrightarrow> t \<in> targets p"
  by (induction s p t rule: walk.induct) (auto elim: walk.elims)

section \<open>Lawful tasks\<close>

text \<open>
  A task is lawful when its timeline records a walk of the state machine from pending to its status, and its two
  instants are set exactly when the walk went through the statuses they belong to.
\<close>

definition changes :: "agent_task \<Rightarrow> string list" where
  "changes t = map tl_Message (filter (\<lambda>e. tl_Type e = ''status_change'') (Timeline t))"

definition lawful_along :: "(status \<times> status) list \<Rightarrow> agent_task \<Rightarrow> bool" where
  "lawful_along p t \<longleftrightarrow>
     walk StatusPending p (t_Status t) \<and> changes t = map (\<lambda>(a, b). change_message a b) p \<and>
     (StartedAt t \<noteq> None \<longleftrightarrow> StatusRunning \<in> targets p) \<and>
     (CompletedAt t \<noteq> None \<longleftrightarrow> StatusCompleted \<in> targets p \<or> StatusFailed \<in> targets p)"

definition lawful :: "agent_task \<Rightarrow> bool" where
  "lawful t \<longleftrightarrow> (\<exists>p. lawful_along p t)"

lemma lawful_cong:
  assumes "t_Status t' = t_Status t" "changes t' = changes t"
    "StartedAt t' = None \<longleftrightarrow> StartedAt t = None" "CompletedAt t' = None \<longleftrightarrow> CompletedAt t = None"
  shows "lawful t' \<longleftrightarrow> lawful t"
  using assms by (simp add: lawful_def lawful_along_def)

lemma changes_AddTimelineEvent [simp]:
  "changes (AddTimelineEvent now ty msg actor t) = changes t @ (if ty = ''status_change'' then [msg] else [])"
  by (simp add: changes_def AddTimelineEvent_def NewTimelineEvent_def)

lemma AddTimelineEvent_fields [simp]:
  "t_Status (AddTimelineEvent now ty msg actor t) = t_Status t"
  "StartedAt (AddTimelineEvent now ty msg actor t) = StartedAt t"
  "CompletedAt (AddTimelineEvent now ty msg actor t) = CompletedAt t"
  "ID (AddTimelineEvent now ty msg actor t) = ID t"
  "Policy (AddTimelineEvent now ty msg actor t) = Policy t"
  "Trigger (AddTimelineEvent now ty msg actor t) = Trigger t"
  "SessionID (AddTimelineEvent now ty msg actor t) = SessionID t"
  "WorkspaceID (AddTimelineEvent now ty msg actor t) = WorkspaceID t"
  by (simp_all add: AddTimelineEvent_def)

lemma lawful_AddTimelineEvent [simp]:
  "ty \<noteq> ''status_change'' \<Longrightarrow> lawful (AddTimelineEvent now ty msg actor t) \<longleftrightarrow> lawful t"
  by (rule lawful_cong) simp_all

lemma lawful_NewTask [simp]: "lawful (NewTask uuid now ws ty title desc)"
  unfolding lawful_def by (rule exI [of _ "[]"]) (simp add: lawful_along_def NewTask_def changes_def)

lemma lifecycle_stamp_fields [simp]:
  "t_Status (lifecycle_stamp s now t) = t_Status t" "Timeline (lifecycle_stamp s now t) = Timeline t"
  "ID (lifecycle_stamp s now t) = ID t" "Policy (lifecycle_stamp s now t) = Policy t"
  "Trigger (lifecycle_stamp s now t) = Trigger t" "SessionID (lifecycle_stamp s now t) = SessionID t"
  "WorkspaceID (lifecycle_stamp s now t) = WorkspaceID t"
  by (simp_all add: lifecycle_stamp_def)

lemma changes_lifecycle_stamp [simp]: "changes (lifecycle_stamp s now t) = changes t"
  by (simp add: changes_def)

lemma lifecycle_stamp_times [simp]:
  "StartedAt (lifecycle_stamp s now t) = None \<longleftrightarrow> StartedAt t = None \<and> s \<noteq> StatusRunning"
  "CompletedAt (lifecycle_stamp s now t) = None \<longleftrightarrow> CompletedAt t = None \<and> s \<noteq> StatusCompleted \<and> s \<noteq> StatusFailed"
  by (auto simp: lifecycle_stamp_def)

lemma Transition_Inr:
  assumes "Transition now now' s t = Inr t'"
  shows "CanTransitionTo (t_Status t) s \<and>
    t' = AddTimelineEvent now' ''status_change'' (change_message (t_Status t) s) ''system''
           (lifecycle_stamp s now (t\<lparr>t_Status := s\<rparr>))"
  using assms by (auto simp: Transition_def split: if_splits)

lemma Transition_fields:
  assumes "Transition now now' s t = Inr t'"
  shows "t_Status t' = s" "ID t' = ID t" "Policy t' = Policy t" "Trigger t' = Trigger t" "SessionID t' = SessionID t"
    "WorkspaceID t' = WorkspaceID t"
  using Transition_Inr [OF assms] by simp_all

lemma changes_update_status [simp]: "changes (t\<lparr>t_Status := s\<rparr>) = changes t"
  by (simp add: changes_def)

lemma lawful_Transition:
  assumes "lawful t" "Transition now now' s t = Inr t'"
  shows "lawful t'"
proof -
  obtain p where p: "lawful_along p t" using assms(1) by (auto simp: lawful_def)
  have "lawful_along (p @ [(t_Status t, s)]) t'"
    using p Transition_Inr [OF assms(2)] by (auto simp: lawful_along_def walk_append)
  then show ?thesis by (auto simp: lawful_def)
qed

lemma Transition_iff: "(\<exists>t'. Transition now now' s t = Inr t') \<longleftrightarrow> CanTransitionTo (t_Status t) s"
  by (simp add: Transition_def)

text \<open>The walk of a completed task: it ends in the change to completed, from validating or awaiting approval.\<close>

lemma walk_completed_last:
  assumes "walk StatusPending p StatusCompleted"
  obtains q s where "p = q @ [(s, StatusCompleted)]" "walk StatusPending q s"
    "s \<in> {StatusValidating, StatusAwaitingApproval}" "StatusRunning \<in> targets q" "StatusValidating \<in> targets q"
proof (cases p rule: rev_cases)
  case Nil
  then show thesis using assms by simp
next
  case (snoc q x)
  obtain a b where x: "x = (a, b)" by fastforce
  have w: "walk StatusPending q a" "CanTransitionTo a b" "b = StatusCompleted"
    using assms snoc x by (auto simp: walk_append)
  then have "a \<in> {StatusValidating, StatusAwaitingApproval}" by (auto simp: CanTransitionTo_iff)
  moreover have "StatusRunning \<in> targets q" "StatusValidating \<in> targets q"
    using walk_completed [OF assms] snoc x w(3) by auto
  ultimately show thesis using that snoc x w by blast
qed

lemma lawful_completed:
  assumes "lawful t" "t_Status t = StatusCompleted"
  obtains q s where "changes t = map (\<lambda>(a, b). change_message a b) (q @ [(s, StatusCompleted)])"
    "walk StatusPending q s" "s \<in> {StatusValidating, StatusAwaitingApproval}"
    "StatusRunning \<in> targets q" "StatusValidating \<in> targets q" "StartedAt t \<noteq> None" "CompletedAt t \<noteq> None"
proof -
  obtain p where p: "walk StatusPending p StatusCompleted" "lawful_along p t"
    using assms by (auto simp: lawful_def lawful_along_def)
  obtain q s where q: "p = q @ [(s, StatusCompleted)]" "walk StatusPending q s"
    "s \<in> {StatusValidating, StatusAwaitingApproval}" "StatusRunning \<in> targets q" "StatusValidating \<in> targets q"
    using walk_completed_last [OF p(1)] .
  show thesis by (rule that [OF _ q(2-5)]) (use p(2) q in \<open>auto simp: lawful_along_def\<close>)
qed

end
