(* ===== verification/Task_Store.thy ===== *)
theory Task_Store
  imports Task
begin

text \<open>
  \<open>internal/adapters/taskstore/store.go\<close>: the table of tasks and the table of their revisions, by the SQL
  statements of the store. A row holds the columns of one task; the table lists the rows in the order of
  insertion. Whether the database carries out a statement is an argument (\<open>ok\<close>), and so is the order in
  which it returns rows that the statement does not order; \<open>ok\<close> is false too where a foreign key refuses
  a row.

  A row keeps instants in whole seconds and every other part of a task as text that reads back as the same value
  (JSON of valid UTF-8), apart from an origin without a system, which reads back as none.
\<close>

record task_store =
  agent_tasks :: "(string, agent_task) gomap"
  agent_task_revisions :: "revision list"

definition seconds :: "time \<Rightarrow> time" where
  "seconds t = unix t * second"

definition unmarshalOrigin :: "task_origin option \<Rightarrow> task_origin option" where
  "unmarshalOrigin d = (case d of None \<Rightarrow> None | Some x \<Rightarrow> if System x = [] then None else Some x)"

text \<open>What \<open>populateTask\<close> reads from the row that was written for a task.\<close>

definition populateTask :: "agent_task \<Rightarrow> agent_task" where
  "populateTask t =
     t\<lparr>t_CreatedAt := seconds (t_CreatedAt t), StartedAt := map_option seconds (StartedAt t),
       CompletedAt := map_option seconds (CompletedAt t), Origin := unmarshalOrigin (Origin t)\<rparr>"

datatype store_error = Database | Task_not_found string

definition task_Create :: "bool \<Rightarrow> agent_task \<Rightarrow> task_store \<Rightarrow> store_error option \<times> task_store" where
  "task_Create ok t s =
     (if \<not> ok \<or> mem_key (ID t) (agent_tasks s) then (Some Database, s)
      else (None, s\<lparr>agent_tasks := agent_tasks s @ [(ID t, t)]\<rparr>))"

text \<open>The update leaves who created the task and when as the row has them.\<close>

definition task_Update :: "bool \<Rightarrow> agent_task \<Rightarrow> task_store \<Rightarrow> store_error option \<times> task_store" where
  "task_Update ok t s =
     (if \<not> ok then (Some Database, s)
      else case mget (agent_tasks s) (ID t) of
        None \<Rightarrow> (Some (Task_not_found (ID t)), s)
      | Some row \<Rightarrow>
          (None, s\<lparr>agent_tasks :=
             mput (ID t) (t\<lparr>CreatedBy := CreatedBy row, t_CreatedAt := t_CreatedAt row\<rparr>) (agent_tasks s)\<rparr>))"

definition GetByID :: "bool \<Rightarrow> string \<Rightarrow> task_store \<Rightarrow> agent_task option" where
  "GetByID ok tid s = (if ok then map_option populateTask (mget (agent_tasks s) tid) else None)"

definition ReplaceSessionID :: "bool \<Rightarrow> string \<Rightarrow> string \<Rightarrow> task_store \<Rightarrow> (string + int) \<times> task_store" where
  "ReplaceSessionID ok old new s =
     (if trim_space old = [] \<or> trim_space new = [] then (Inl ''both old and new session IDs are required'', s)
      else if old = new then (Inr 0, s)
      else if \<not> ok then (Inl ''database'', s)
      else (Inr (int (length (filter (\<lambda>(_, t). SessionID t = old) (agent_tasks s)))),
            s\<lparr>agent_tasks := map (\<lambda>(k, t). (k, if SessionID t = old then t\<lparr>SessionID := new\<rparr> else t)) (agent_tasks s)\<rparr>))"

definition ResolveHistoricalSessionProjectPath ::
  "bool \<Rightarrow> string list \<Rightarrow> string \<Rightarrow> string \<Rightarrow> task_store \<Rightarrow> store_error + string option" where
  "ResolveHistoricalSessionProjectPath ok order ws sid s =
     (if trim_space ws = [] \<or> trim_space sid = [] then Inr None
      else if \<not> ok then Inl Database
      else (case sort_key (\<lambda>t. - unix (t_CreatedAt t))
                   (filter (\<lambda>t. WorkspaceID t = ws \<and> SessionID t = sid \<and> WorktreePath t \<noteq> [])
                      (map snd (range_entries order (agent_tasks s)))) of
              [] \<Rightarrow> Inr None
            | t # _ \<Rightarrow> Inr (if trim_space (WorktreePath t) = [] then None else Some (WorktreePath t))))"

record query_filter =
  qf_Status :: string
  qf_TaskType :: string
  qf_WorkspaceID :: string
  Limit :: int
  Offset :: int

definition task_List :: "bool \<Rightarrow> string list \<Rightarrow> query_filter \<Rightarrow> task_store \<Rightarrow> agent_task list option" where
  "task_List ok order f s =
     (if \<not> ok then None
      else (let keep = (\<lambda>t. (qf_Status f \<noteq> [] \<longrightarrow> t_Status t = qf_Status f) \<and>
                             (qf_TaskType f \<noteq> [] \<longrightarrow> TaskType t = qf_TaskType f) \<and>
                             (qf_WorkspaceID f \<noteq> [] \<longrightarrow> WorkspaceID t = qf_WorkspaceID f));
                rows = sort_key (\<lambda>t. - unix (t_CreatedAt t)) (filter keep (map snd (range_entries order (agent_tasks s))));
                limit = (if Limit f > 0 then nat (Limit f) else 50);
                offset = (if Offset f > 0 then nat (Offset f) else 0)
            in Some (map populateTask (take limit (drop offset rows)))))"

text \<open>Deleting a task deletes its revisions.\<close>

definition task_Delete :: "bool \<Rightarrow> string \<Rightarrow> task_store \<Rightarrow> store_error option \<times> task_store" where
  "task_Delete ok tid s =
     (if \<not> ok then (Some Database, s)
      else if \<not> mem_key tid (agent_tasks s) then (Some (Task_not_found tid), s)
      else (None, s\<lparr>agent_tasks := mdel tid (agent_tasks s),
                    agent_task_revisions := filter (\<lambda>r. rev_TaskID r \<noteq> tid) (agent_task_revisions s)\<rparr>))"

definition AddRevision :: "bool \<Rightarrow> revision \<Rightarrow> task_store \<Rightarrow> store_error option \<times> task_store" where
  "AddRevision ok r s =
     (if \<not> ok \<or> rev_ID r \<in> rev_ID ` set (agent_task_revisions s) then (Some Database, s)
      else (None, s\<lparr>agent_task_revisions := agent_task_revisions s @ [r]\<rparr>))"

definition GetRevisions :: "bool \<Rightarrow> string \<Rightarrow> task_store \<Rightarrow> revision list option" where
  "GetRevisions ok tid s =
     (if ok then Some (map (\<lambda>r. r\<lparr>rev_CreatedAt := seconds (rev_CreatedAt r)\<rparr>)
                        (sort_key RevisionNo (filter (\<lambda>r. rev_TaskID r = tid) (agent_task_revisions s))))
      else None)"

definition CountByStatus :: "bool \<Rightarrow> task_store \<Rightarrow> (status, int) gomap option" where
  "CountByStatus ok s =
     (let sts = map (\<lambda>(_, t). t_Status t) (agent_tasks s)
      in if ok then Some (map (\<lambda>st. (st, int (count_list sts st))) (remdups sts)) else None)"

section \<open>Facts\<close>

lemma populateTask_fields [simp]:
  "t_Status (populateTask t) = t_Status t" "ID (populateTask t) = ID t" "Policy (populateTask t) = Policy t"
  "Trigger (populateTask t) = Trigger t" "SessionID (populateTask t) = SessionID t"
  "Timeline (populateTask t) = Timeline t" "WorkspaceID (populateTask t) = WorkspaceID t"
  by (simp_all add: populateTask_def)

lemma seconds_idem [simp]: "seconds (seconds t) = seconds t"
  using unix_add_seconds [of 0 "unix t"] by (simp add: seconds_def unix_def)

lemma unmarshalOrigin_idem [simp]: "unmarshalOrigin (unmarshalOrigin d) = unmarshalOrigin d"
  by (simp add: unmarshalOrigin_def split: option.splits)

lemma populateTask_idem [simp]: "populateTask (populateTask t) = populateTask t"
  by (simp add: populateTask_def option.map_comp comp_def)

lemma lawful_populateTask [simp]: "lawful (populateTask t) \<longleftrightarrow> lawful t"
  by (rule lawful_cong) (simp_all add: populateTask_def changes_def)

lemma lawful_created [simp]: "lawful (t\<lparr>CreatedBy := c, t_CreatedAt := n\<rparr>) \<longleftrightarrow> lawful t"
  by (rule lawful_cong) (simp_all add: changes_def)

text \<open>
  The store gives back what it was given: a created task is read back unchanged but for instants in whole seconds
  and an origin without a system; an update of it is read back but for who created it and when; and no
  operation on one task touches the row of another.
\<close>

theorem store_roundtrip:
  assumes "task_Create True t s = (None, s1)" "ID t' = ID t"
  shows "GetByID True (ID t) s1 = Some (populateTask t) \<and>
    (\<exists>s2. task_Update True t' s1 = (None, s2) \<and>
       GetByID True (ID t) s2 = Some (populateTask (t'\<lparr>CreatedBy := CreatedBy t, t_CreatedAt := t_CreatedAt t\<rparr>)) \<and>
       (\<forall>other. other \<noteq> ID t \<longrightarrow> GetByID True other s2 = GetByID True other s))"
proof -
  have n: "mget (agent_tasks s) (ID t) = None" and s1: "agent_tasks s1 = agent_tasks s @ [(ID t, t)]"
    using assms(1) by (auto simp: task_Create_def mem_key_def split: if_splits)
  have g: "mget (agent_tasks s1) k = (if k = ID t then Some t else mget (agent_tasks s) k)" for k
    using n s1 by (auto simp: map_add_def split: option.splits)
  show ?thesis using g assms(2) by (simp add: GetByID_def task_Update_def)
qed

theorem store_roundtrip_witness:
  "let t = NewTask ''3f2a'' (5 * second + 7) ''ws'' ''fix-issue'' ''Crash'' []; s1 = snd (task_Create True t \<lparr>agent_tasks = [], agent_task_revisions = []\<rparr>)
   in GetByID True ''3f2a'' s1 = Some (t\<lparr>t_CreatedAt := 5 * second\<rparr>)"
proof -
  define t where "t = NewTask ''3f2a'' (5 * second + 7) ''ws'' ''fix-issue'' ''Crash'' []"
  define s where "s = \<lparr>agent_tasks = [], agent_task_revisions = []\<rparr>"
  have "task_Create True t s = (None, snd (task_Create True t s))"
    by (simp add: task_Create_def s_def mem_key_def)
  from store_roundtrip [OF this refl] have "GetByID True (ID t) (snd (task_Create True t s)) = Some (populateTask t)" by simp
  then show ?thesis
    unfolding t_def [symmetric] s_def [symmetric]
    by (simp add: t_def NewTask_def populateTask_def unmarshalOrigin_def seconds_def unix_def second_def)
qed

end
