(* ===== verification/Agent_Worktree.thy ===== *)
theory Agent_Worktree
  imports Task
begin

text \<open>
  \<open>internal/agent/worktree.go\<close> and the launch directory of \<open>internal/agent/session_adapter.go\<close>: where
  the worktree of a task lies, how its branch is called, and how both are found again from the path.

  The workspace of a task, the creation of directories and the runs of git are arguments: functions from what the
  code passes to what comes back. An index out of range (an identifier shorter than eight bytes) is the value
  \<open>None\<close>. Paths are those of Unix.
\<close>

section \<open>Names\<close>

text \<open>
  Lower case and the filter of \<open>strings.Map\<close> together. Two letters outside ASCII have a lower case inside it: the
  capital I with a dot (C4 B0) and the Kelvin sign (E2 84 AA). All other bytes of other letters vanish.
\<close>

fun keep_runes :: "string \<Rightarrow> string" where
  "keep_runes [] = []"
| "keep_runes (c # s) =
     (let n = of_char c :: nat
      in (if c = CHR 0xC4 \<and> has_prefix [CHR 0xB0] s then ''i''
          else if c = CHR 0xE2 \<and> has_prefix [CHR 0x84, CHR 0xAA] s then ''k''
          else if 65 \<le> n \<and> n \<le> 90 then [char_of (n + 32)]
          else if (97 \<le> n \<and> n \<le> 122) \<or> (48 \<le> n \<and> n \<le> 57) \<or> c = CHR ''-'' then [c]
          else if c = CHR '' '' \<or> c = CHR ''_'' then ''-''
          else []) @ keep_runes s)"

text \<open>\<open>strings.ReplaceAll(name, "--", "-")\<close>, until no two dashes are left.\<close>

fun replace_dashes :: "string \<Rightarrow> string" where
  "replace_dashes (c # d # s) =
     (if c = CHR ''-'' \<and> d = CHR ''-'' then CHR ''-'' # replace_dashes s else c # replace_dashes (d # s))"
| "replace_dashes s = s"

lemma length_replace_dashes: "length (replace_dashes s) \<le> length s"
  by (induction s rule: replace_dashes.induct) auto

lemma contains_Cons: "contains ''--'' (c # s) \<longleftrightarrow> has_prefix ''--'' (c # s) \<or> contains ''--'' s"
  by (cases "has_prefix ''--'' (c # s)") (auto simp: contains_def simp del: has_prefix_Cons)

lemma replace_dashes_shorter: "contains ''--'' s \<Longrightarrow> length (replace_dashes s) < length s"
proof (induction s rule: replace_dashes.induct)
  case (1 c d s)
  then show ?case
    using length_replace_dashes [of s] by (auto simp: contains_Cons has_prefix_def split: if_splits)
qed (auto simp: contains_def has_prefix_def)

function collapse_dashes :: "string \<Rightarrow> string" where
  "collapse_dashes s = (if contains ''--'' s then collapse_dashes (replace_dashes s) else s)"
  by auto
termination by (relation "measure length") (simp_all add: replace_dashes_shorter)

declare collapse_dashes.simps [simp del]

definition trim_dashes :: "string \<Rightarrow> string" where
  "trim_dashes s = (let d = (\<lambda>c. c = CHR ''-'') in rev (dropWhile d (rev (dropWhile d s))))"

definition sanitizeName :: "string \<Rightarrow> string" where
  "sanitizeName name = trim_dashes (collapse_dashes (keep_runes name))"

definition branch_prefix :: "string \<Rightarrow> string" where
  "branch_prefix ty =
     (if ty = TaskTypeFixIssue then ''fix''
      else if ty = TaskTypeFixReplay then ''replay-fix''
      else if ty = TaskTypeImplementCR then ''cr''
      else if ty = TaskTypeRefactor then ''refactor''
      else if ty = TaskTypeAddTest then ''test''
      else if ty = TaskTypePlanCase then ''plan''
      else ''agent'')"

text \<open>\<open>now.Format("0102-1504")\<close> in the local zone.\<close>

definition branch_stamp :: "int \<Rightarrow> time \<Rightarrow> string" where
  "branch_stamp zone now =
     (let s = unix now + zone; (_, m, d) = civil (s div 86400); r = s mod 86400
      in padded 2 m @ padded 2 d @ ''-'' @ padded 2 (r div 3600) @ padded 2 (r div 60 mod 60))"

definition generateBranchName :: "int \<Rightarrow> time \<Rightarrow> agent_task \<Rightarrow> string" where
  "generateBranchName zone now t =
     ''agent/'' @ branch_prefix (TaskType t) @ ''/'' @ take 30 (sanitizeName (t_Title t)) @ ''-'' @ branch_stamp zone now"

section \<open>Worktrees\<close>

record worktree_env =
  GetWorkspacePath :: "(string \<Rightarrow> string + string) option"
  MkdirAll :: "string \<Rightarrow> string option"
  run_git :: "string \<Rightarrow> string list \<Rightarrow> (string \<times> string) option"
  wt_now :: time
  wt_zone :: int

definition worktree_base :: "string \<Rightarrow> string" where
  "worktree_base repoPath = path_join [repoPath, ''.claude'', ''worktrees'']"

definition worktree_name :: "agent_task \<Rightarrow> string" where
  "worktree_name t = take 8 (ID t) @ ''-'' @ sanitizeName (t_Title t)"

definition createWorktree :: "worktree_env \<Rightarrow> agent_task \<Rightarrow> (string + string \<times> string) option" where
  "createWorktree e t =
     (case GetWorkspacePath e of
        None \<Rightarrow> Some (Inl ''workspace lookup is not configured'')
      | Some lookup \<Rightarrow>
          (case lookup (WorkspaceID t) of
             Inl err \<Rightarrow> Some (Inl (''failed to resolve workspace '' @ WorkspaceID t @ '': '' @ err))
           | Inr repoPath \<Rightarrow>
               (case MkdirAll e (worktree_base repoPath) of
                  Some err \<Rightarrow> Some (Inl (''failed to create worktree base dir: '' @ err))
                | None \<Rightarrow>
                    if length (ID t) < 8 then None
                    else (let path = path_join [worktree_base repoPath, worktree_name t];
                              branch = (if IsPlanCase t then ''(detached)'' else generateBranchName (wt_zone e) (wt_now e) t);
                              args = (if IsPlanCase t then [''worktree'', ''add'', ''--detach'', path]
                                      else [''worktree'', ''add'', ''-b'', branch, path])
                          in case run_git e repoPath args of
                               Some (output, err) \<Rightarrow> Some (Inl (''git worktree add failed: '' @ output @ '': '' @ err))
                             | None \<Rightarrow> Some (Inr (path, branch))))))"

definition last_index_str :: "string \<Rightarrow> string \<Rightarrow> nat option" where
  "last_index_str sub s = find (\<lambda>i. has_prefix sub (drop i s)) (rev [0..<Suc (length s)])"

definition resolveClaudeWorktreeRepoPath :: "string \<Rightarrow> string option" where
  "resolveClaudeWorktreeRepoPath path =
     (let p = clean path
      in case last_index_str ''/.claude/worktrees/'' p of None \<Rightarrow> None | Some idx \<Rightarrow> Some (take idx p))"

text \<open>The commands of a cleanup: git in a directory (or the current one), and the fallback.\<close>

datatype removal = Git_remove "string option" string | RemoveAll string

definition cleanupWorktree :: "(string option \<Rightarrow> string \<Rightarrow> bool) \<Rightarrow> string \<Rightarrow> removal list" where
  "cleanupWorktree git_ok path =
     (if path = [] then []
      else (let dir = resolveClaudeWorktreeRepoPath path
            in if git_ok dir path then [Git_remove dir path] else [Git_remove dir path, RemoveAll path]))"

definition resolveClaudeNativeWorktreeLaunch :: "string \<Rightarrow> string \<Rightarrow> (string \<times> string list) option" where
  "resolveClaudeNativeWorktreeLaunch workspaceRoot projectPath =
     (let root = clean workspaceRoot; project = clean projectPath
      in case path_rel (path_join [root, ''.claude'', ''worktrees'']) project of
           None \<Rightarrow> None
         | Some rel \<Rightarrow>
             if rel = ''.'' \<or> rel = [] then None
             else if has_prefix ''../'' rel \<or> rel = ''..'' then None
             else if CHR ''/'' \<in> set rel then None
             else Some (root, [''-w'', rel, ''--dangerously-skip-permissions'']))"

section \<open>Facts\<close>

definition name_char :: "char \<Rightarrow> bool" where
  "name_char c \<longleftrightarrow> (let n = of_char c :: nat in (97 \<le> n \<and> n \<le> 122) \<or> (48 \<le> n \<and> n \<le> 57)) \<or> c = CHR ''-''"

lemma name_char_known: "name_char CHR ''i''" "name_char CHR ''k''" "name_char CHR ''-''"
  by (simp_all add: name_char_def)

lemma name_char_lower: "65 \<le> n \<Longrightarrow> n \<le> 90 \<Longrightarrow> name_char (char_of (n + 32 :: nat))"
  by (simp add: name_char_def Let_def)

lemma name_char_kept:
  "(97 \<le> (of_char c :: nat) \<and> (of_char c :: nat) \<le> 122) \<or> (48 \<le> (of_char c :: nat) \<and> (of_char c :: nat) \<le> 57) \<or>
     c = CHR ''-'' \<Longrightarrow> name_char c"
  unfolding name_char_def Let_def by blast

lemma keep_runes_chars: "\<forall>c \<in> set (keep_runes s). name_char c"
proof (induction s rule: keep_runes.induct)
  case (2 c s)
  have piece: "\<forall>x \<in> set (if A then ''i'' else if B then ''k'' else if 65 \<le> n \<and> n \<le> 90 then [char_of (n + 32)]
      else if C then [c] else if D then ''-'' else []). name_char x"
    if "C \<Longrightarrow> name_char c" for A B C D and n :: nat
    using that name_char_known name_char_lower [of n] by simp
  show ?case
    unfolding keep_runes.simps Let_def set_append ball_Un
    using 2 [OF refl] by (intro conjI piece name_char_kept)
qed simp

lemma set_replace_dashes: "set (replace_dashes s) \<subseteq> set s"
  by (induction s rule: replace_dashes.induct) auto

lemma set_collapse_dashes: "set (collapse_dashes s) \<subseteq> set s"
proof (induction s rule: collapse_dashes.induct)
  case (1 s)
  then show ?case using set_replace_dashes [of s] by (subst collapse_dashes.simps) auto
qed

lemma collapse_dashes_single: "\<not> contains ''--'' (collapse_dashes s)"
proof (induction s rule: collapse_dashes.induct)
  case (1 s)
  then show ?case by (subst collapse_dashes.simps) auto
qed

lemma set_trim_dashes: "set (trim_dashes s) \<subseteq> set s"
  unfolding trim_dashes_def Let_def set_rev
  using set_dropWhileD [of _ "\<lambda>c. c = CHR ''-''"] by (metis set_rev subsetI)

lemma drop_end: "xs = rev (dropWhile d (rev xs)) @ rev (takeWhile d (rev xs))"
  by (metis rev_append rev_rev_ident takeWhile_dropWhile_id)

lemma trim_dashes_split:
  "\<exists>a b. s = a @ dropWhile (\<lambda>c. c = CHR ''-'') s \<and> dropWhile (\<lambda>c. c = CHR ''-'') s = trim_dashes s @ b"
  unfolding trim_dashes_def Let_def using drop_end takeWhile_dropWhile_id by metis

lemma trim_dashes_ends:
  assumes "trim_dashes s \<noteq> []"
  shows "hd (trim_dashes s) \<noteq> CHR ''-'' \<and> last (trim_dashes s) \<noteq> CHR ''-''"
proof -
  let ?d = "\<lambda>c. c = CHR ''-''"
  let ?x = "dropWhile ?d s"
  have n: "dropWhile ?d (rev ?x) \<noteq> []" using assms by (simp add: trim_dashes_def Let_def)
  then have "last (trim_dashes s) \<noteq> CHR ''-''"
    using hd_dropWhile [OF n] unfolding trim_dashes_def Let_def by (subst last_rev)
  moreover obtain b where b: "?x = trim_dashes s @ b" using trim_dashes_split by blast
  then have "?x \<noteq> []" using assms by simp
  then have "hd ?x \<noteq> CHR ''-''" by (rule hd_dropWhile)
  then have "hd (trim_dashes s) \<noteq> CHR ''-''" using b assms by simp
  ultimately show ?thesis by simp
qed

lemma sanitizeName_chars: "\<forall>c \<in> set (sanitizeName s). name_char c"
  unfolding sanitizeName_def
  using keep_runes_chars [of s] set_collapse_dashes [of "keep_runes s"] set_trim_dashes [of "collapse_dashes (keep_runes s)"]
  by blast

text \<open>
  The part of a branch name and of a directory that comes from a title is harmless: whatever the title,
  it consists of small letters, digits and dashes only, never two dashes in a row, and neither begins nor
  ends with a dash (so it can neither leave its directory nor pass for an option of git).
\<close>

theorem sanitizeName_safe:
  "list_all name_char (sanitizeName s) \<and> \<not> contains ''--'' (sanitizeName s) \<and>
   hd (sanitizeName s @ ''x'') \<noteq> CHR ''-'' \<and> last (''x'' @ sanitizeName s) \<noteq> CHR ''-''"
proof (intro conjI)
  show "list_all name_char (sanitizeName s)" using sanitizeName_chars by (simp add: list_all_iff)
  show "\<not> contains ''--'' (sanitizeName s)"
    using collapse_dashes_single [of "keep_runes s"] trim_dashes_split [of "collapse_dashes (keep_runes s)"]
    unfolding sanitizeName_def contains_iff by (metis append.assoc)
  show "hd (sanitizeName s @ ''x'') \<noteq> CHR ''-''" "last (''x'' @ sanitizeName s) \<noteq> CHR ''-''"
    using trim_dashes_ends [of "collapse_dashes (keep_runes s)"]
    by (cases "sanitizeName s = []"; simp add: sanitizeName_def)+
qed

section \<open>From a worktree back to its repository\<close>

lemma find_skip: "find P xs = None \<Longrightarrow> find P (xs @ ys) = find P ys"
  by (induction xs) (auto split: if_splits)

lemma last_index_str_end:
  assumes "sub \<noteq> []" "last sub \<notin> set nm"
  shows "last_index_str sub (a @ sub @ nm) = Some (length a)"
proof -
  let ?s = "a @ sub @ nm"
  have no: "\<not> has_prefix sub (drop j ?s)" if j: "length a < j" for j
  proof
    define s where "s = ?s"
    define k where "k = j + (length sub - 1)"
    assume "has_prefix sub (drop j ?s)"
    then obtain r where r: "drop j s = sub @ r" by (auto simp: has_prefix_iff s_def)
    then have len: "length sub \<le> length s - j" by (metis length_append length_drop le_add1)
    have "drop j s ! (length sub - 1) = last sub"
      using r assms(1) by (simp add: last_conv_nth nth_append)
    then have "s ! k = last sub" using len assms(1) unfolding k_def by (cases sub) (simp_all add: nth_drop)
    moreover have k: "length a + length sub \<le> k" "k < length s"
      using j len assms(1) unfolding k_def by (cases sub; simp)+
    then have "s ! k = nm ! (k - (length a + length sub))"
      unfolding s_def append_assoc [symmetric] by (subst nth_append) simp
    moreover have "k - (length a + length sub) < length nm" using k by (simp add: s_def)
    ultimately have "last sub \<in> set nm" by (metis nth_mem)
    with assms(2) show False by contradiction
  qed
  have split: "rev [0..<Suc (length ?s)] = rev [Suc (length a)..<Suc (length ?s)] @ length a # rev [0..<length a]"
  proof -
    have "[0..<Suc (length ?s)] = [0..<length a] @ length a # [Suc (length a)..<Suc (length ?s)]"
      using upt_add_eq_append [of 0 "length a" "Suc (length sub + length nm)"] by (simp add: upt_conv_Cons del: upt_Suc)
    then show ?thesis by simp
  qed
  have "find (\<lambda>i. has_prefix sub (drop i ?s)) (rev [Suc (length a)..<Suc (length ?s)]) = None"
    using no by (auto simp: find_None_iff simp del: drop_append upt_Suc)
  moreover have "has_prefix sub (drop (length a) ?s)" by simp
  ultimately show ?thesis
    unfolding last_index_str_def split by (simp add: find_skip del: drop_append)
qed

text \<open>The components of the worktree of a task, below the components of its repository.\<close>

lemma plain_fixed [simp]: "plain_comp ''.claude''" "plain_comp ''worktrees''"
  by (simp_all add: plain_comp_def)

lemma worktree_base_comps:
  assumes "is_abs repo"
  shows "worktree_base repo = render True (clean_comps repo @ [''.claude'', ''worktrees''])"
    "is_abs (worktree_base repo)" "clean_comps (worktree_base repo) = clean_comps repo @ [''.claude'', ''worktrees'']"
proof -
  have ne: "repo \<noteq> []" using assms by (auto simp: is_abs_def)
  have w: "worktree_base repo = clean (repo @ ''/'' @ join ''/'' [''.claude'', ''worktrees''])"
    using ne by (simp add: worktree_base_def path_join_def)
  have "is_abs (repo @ ''/'' @ join ''/'' [''.claude'', ''worktrees''])"
    using assms by (auto simp: is_abs_def has_prefix_extend)
  note full = clean_abs [OF this]
  have c: "clean_comps (repo @ ''/'' @ join ''/'' [''.claude'', ''worktrees'']) = clean_comps repo @ [''.claude'', ''worktrees'']"
    by (rule clean_comps_extend [OF assms]) simp_all
  show "worktree_base repo = render True (clean_comps repo @ [''.claude'', ''worktrees''])"
    "is_abs (worktree_base repo)" "clean_comps (worktree_base repo) = clean_comps repo @ [''.claude'', ''worktrees'']"
    using full unfolding w c by simp_all
qed

lemma worktree_path_comps:
  assumes "is_abs repo" "plain_comp nm"
  shows "path_join [worktree_base repo, nm] = render True (clean_comps repo @ [''.claude'', ''worktrees'', nm])"
using path_join_plain(1) [OF worktree_base_comps(2) [OF assms(1)] assms(2)] worktree_base_comps(3) [OF assms(1)] by simp

lemma plain_worktree_name:
  assumes "CHR ''/'' \<notin> set (take 8 (ID t))"
  shows "plain_comp (worktree_name t)"
proof -
  have d: "CHR ''-'' \<in> set (worktree_name t)" by (simp add: worktree_name_def)
  have "CHR ''/'' \<notin> set (sanitizeName (t_Title t))"
    using sanitizeName_chars [of "t_Title t"] by (auto simp: name_char_def Let_def)
  then have "CHR ''/'' \<notin> set (worktree_name t)" using assms by (simp add: worktree_name_def)
  then show ?thesis using d by (auto simp: plain_comp_def)
qed

text \<open>
  A task's worktree leads back to its repository: when a worktree was created for a task of a workspace at an
  absolute path below the root, its path lies directly under the directory of worktrees of that repository,
  the cleanup runs git in that repository, and a session started in the worktree is launched from it,
  on the worktree with the name made from the identifier and the title.
\<close>

theorem worktree_leads_back:
  assumes "createWorktree e t = Some (Inr (path, branch))" "GetWorkspacePath e = Some lookup"
    "lookup (WorkspaceID t) = Inr repo" "is_abs repo" "clean repo \<noteq> ''/''" "CHR ''/'' \<notin> set (take 8 (ID t))"
  shows "path = clean repo @ ''/.claude/worktrees/'' @ worktree_name t \<and>
    resolveClaudeWorktreeRepoPath path = Some (clean repo) \<and>
    resolveClaudeNativeWorktreeLaunch repo path =
      Some (clean repo, [''-w'', worktree_name t, ''--dangerously-skip-permissions''])"
proof (intro conjI)
  let ?n = "worktree_name t" and ?cs = "clean_comps repo"
  have plain: "plain_comp ?n" using plain_worktree_name [OF assms(6)] .
  have "path = path_join [worktree_base repo, ?n]"
    using assms(1,2,3) by (auto simp: createWorktree_def Let_def split: option.splits if_splits)
  then have path: "path = render True (?cs @ [''.claude'', ''worktrees'', ?n])"
    using worktree_path_comps [OF assms(4) plain] by simp
  have cs: "\<forall>c \<in> set ?cs. plain_comp c" using clean_comps_form [of repo] assms(4) by (simp add: clean_form_rooted)
  have repo: "clean repo = render True ?cs" using clean_abs(3) [OF assms(4)] .
  then have "?cs \<noteq> []" using assms(5) by (auto simp: render_def)
  then have "join ''/'' (?cs @ [''.claude'', ''worktrees'', ?n]) = join ''/'' ?cs @ ''/.claude/worktrees/'' @ ?n"
    by (simp add: join_append)
  then show p: "path = clean repo @ ''/.claude/worktrees/'' @ ?n"
    unfolding path repo render_def by simp
  have full: "clean_comps path = ?cs @ [''.claude'', ''worktrees'', ?n]" "is_abs path"
    unfolding path by (intro clean_comps_render; use cs plain in auto)+
  have cp: "clean path = path" using clean_abs(3) [OF full(2)] full(1) path by simp
  have "last_index_str ''/.claude/worktrees/'' path = Some (length (clean repo))"
    unfolding p by (rule last_index_str_end) (use plain in \<open>auto simp: plain_comp_def\<close>)
  then show "resolveClaudeWorktreeRepoPath path = Some (clean repo)"
    unfolding resolveClaudeWorktreeRepoPath_def cp Let_def by (simp add: p)
  have root: "is_abs (clean repo)" "clean_comps (clean repo) = ?cs" using clean_abs(1,2) [OF assms(4)] .
  have wb: "path_join [clean repo, ''.claude'', ''worktrees''] = worktree_base (clean repo)" by (simp add: worktree_base_def)
  have b: "is_abs (worktree_base (clean repo))"
    "clean_comps (worktree_base (clean repo)) = ?cs @ [''.claude'', ''worktrees'']"
    using worktree_base_comps [OF root(1)] root(2) by simp_all
  have strip: "strip_common (?cs @ [''.claude'', ''worktrees'']) (?cs @ [''.claude'', ''worktrees'', ?n]) = ([], [?n])"
    by simp
  have "clean path \<noteq> clean (worktree_base (clean repo))"
    using clean_abs(2) [OF full(2)] clean_abs(2) [OF b(1)] full(1) b(2) by auto
  then have "path_rel (worktree_base (clean repo)) path = Some ?n"
    unfolding path_rel_def using b full strip by (simp add: rel_base_comps_def rel_targ_comps_def)
  moreover have "?n \<noteq> ''.''" "?n \<noteq> []" "?n \<noteq> ''..''" "CHR ''/'' \<notin> set ?n" using plain by (auto simp: plain_comp_def)
  moreover from this(4) have "\<not> has_prefix ''../'' ?n" by (auto simp: has_prefix_iff)
  ultimately show "resolveClaudeNativeWorktreeLaunch repo path =
      Some (clean repo, [''-w'', ?n, ''--dangerously-skip-permissions''])"
    unfolding resolveClaudeNativeWorktreeLaunch_def Let_def cp wb by simp
qed

definition demo_worktree_env :: worktree_env where
  "demo_worktree_env =
     \<lparr>GetWorkspacePath = Some (\<lambda>_. Inr ''/srv/app/''), MkdirAll = (\<lambda>_. None), run_git = (\<lambda>_ _. None), wt_now = 0, wt_zone = 0\<rparr>"

definition demo_fix :: agent_task where
  "demo_fix = NewTask ''0f8b2c41-77'' 0 ''ws'' TaskTypeFixIssue ''Fix: __Login page__ fails!'' []"

theorem worktree_leads_back_witness:
  "resolveClaudeWorktreeRepoPath ''/srv/app/.claude/worktrees/0f8b2c41-fix-login-page-fails'' = Some ''/srv/app''"
proof -
  have eval: "path_join [worktree_base ''/srv/app/'', worktree_name demo_fix] = ''/srv/app/.claude/worktrees/0f8b2c41-fix-login-page-fails''"
    "length (ID demo_fix) \<ge> 8" "clean ''/srv/app/'' = ''/srv/app''" "CHR ''/'' \<notin> set (take 8 (ID demo_fix))"
    "\<not> IsPlanCase demo_fix" "worktree_name demo_fix = ''0f8b2c41-fix-login-page-fails''"
    by code_simp+
  have "createWorktree demo_worktree_env demo_fix =
      Some (Inr (path_join [worktree_base ''/srv/app/'', worktree_name demo_fix], generateBranchName 0 0 demo_fix))"
    unfolding createWorktree_def demo_worktree_env_def using eval(2,5) by (simp add: Let_def)
  from worktree_leads_back [OF this, THEN conjunct2, THEN conjunct1, of _ "''/srv/app/''"]
  have "resolveClaudeWorktreeRepoPath (path_join [worktree_base ''/srv/app/'', worktree_name demo_fix]) = Some ''/srv/app''"
    using eval(3,4) by (simp add: demo_worktree_env_def is_abs_def)
  then show ?thesis unfolding eval(1) .
qed

end
