(* ===== verification/Agent_Result.thy ===== *)
theory Agent_Result
  imports Task Http_Common
begin

text \<open>
  \<open>internal/agent/result_parser.go\<close> and the parts of \<open>internal/agent/spawner.go\<close> and
  \<open>plan_executor.go\<close> that make texts and results: the prompts sent to an agent, the result file it
  leaves, and the parsing of \<open>git diff --stat\<close>. The outputs of git and the contents of files are arguments.

  The regular expression of a line of the statistic is written out as the search it stands for: optional
  space, the shortest path behind which a bar, a number and a run of signs follow.
\<close>

section \<open>The statistic of a diff\<close>

definition re_space :: "char \<Rightarrow> bool" where
  "re_space c \<longleftrightarrow> c \<in> {CHR '' '', CHR 0x09, CHR 0x0A, CHR 0x0C, CHR 0x0D}"

definition stat_sign :: "char \<Rightarrow> bool" where
  "stat_sign c \<longleftrightarrow> c = CHR ''+'' \<or> c = CHR ''-''"

text \<open>What matches \<open>\s*\|\s*(\d+)\s*([+-]*)\<close> at the beginning of a string.\<close>

definition stat_tail :: "string \<Rightarrow> (string \<times> string) option" where
  "stat_tail s =
     (case dropWhile re_space s of
        [] \<Rightarrow> None
      | c # r \<Rightarrow>
          (let d = dropWhile re_space r; digits = takeWhile is_digit d
           in if c \<noteq> CHR ''|'' \<or> digits = [] then None
              else Some (digits, takeWhile stat_sign (dropWhile re_space (dropWhile is_digit d)))))"

text \<open>\<open>(.+?)\<close>: the shortest prefix of at least one byte, none of them a newline, after which the tail matches.\<close>

fun stat_path :: "string \<Rightarrow> string \<Rightarrow> (string \<times> string \<times> string) option" where
  "stat_path acc [] = None"
| "stat_path acc (c # s) =
     (if c = CHR 0x0A then None
      else case stat_tail s of
        Some (digits, signs) \<Rightarrow> Some (acc @ [c], digits, signs)
      | None \<Rightarrow> stat_path (acc @ [c]) s)"

text \<open>\<open>^\s*\<close> takes as much space as it can and gives back what the rest needs.\<close>

definition stat_match :: "string \<Rightarrow> (string \<times> string \<times> string) option" where
  "stat_match line =
     (case List.map_filter (\<lambda>k. stat_path [] (drop k line)) (rev [0..<Suc (length (takeWhile re_space line))]) of
        [] \<Rightarrow> None | m # _ \<Rightarrow> Some m)"

text \<open>\<open>strconv.Atoi\<close> of digits, its error ignored: a number out of range counts as the largest one.\<close>

definition atoi_clamped :: "string \<Rightarrow> int" where
  "atoi_clamped d = min (int (digits_value d)) (2 ^ 63 - 1)"

definition stat_line :: "string \<Rightarrow> file_change option" where
  "stat_line line =
     (case stat_match line of
        None \<Rightarrow> None
      | Some (p, digits, signs) \<Rightarrow>
          (let total = atoi_clamped digits;
               added = int (count_list signs CHR ''+''); removed = int (count_list signs CHR ''-'');
               (a, r) = (if added = 0 \<and> removed = 0 \<and> total > 0 then (total div 2, total - total div 2) else (added, removed))
           in Some \<lparr>fc_Path = trim_space p, LinesAdded = a, LinesRemoved = r\<rparr>))"

definition parseGitDiffStat :: "string \<Rightarrow> file_change list" where
  "parseGitDiffStat stat = List.map_filter stat_line (split_on CHR 0x0A stat)"

text \<open>The outputs of the two runs of git; \<open>None\<close> for one that failed.\<close>

definition ParseResultFromGitDiff :: "string option \<Rightarrow> string option \<Rightarrow> (file_change list \<times> string) option" where
  "ParseResultFromGitDiff statOutput diffOutput =
     (case statOutput of
        None \<Rightarrow> None
      | Some stat \<Rightarrow> (case diffOutput of None \<Rightarrow> None | Some diff \<Rightarrow> Some (parseGitDiffStat stat, diff)))"

section \<open>The result file\<close>

record task_result_file =
  rf_Status :: string
  rf_Summary :: string
  rf_TestsPassed :: bool
  rf_BuildPassed :: bool
  rf_FilesChanged :: "file_change slice"
  rf_RoundsCompleted :: int
  rf_PRUrl :: string
  rf_Error :: string

definition empty_change :: file_change where
  "empty_change = \<lparr>fc_Path = [], LinesAdded = 0, LinesRemoved = 0\<rparr>"

definition change_field :: "string \<Rightarrow> json \<Rightarrow> file_change \<times> string option \<Rightarrow> file_change \<times> string option" where
  "change_field k v st =
     (let (c, e) = st
      in if k = ''path'' then (let (x, e') = decode_string quiet k v (fc_Path c) e in (c\<lparr>fc_Path := x\<rparr>, e'))
         else if k = ''lines_added'' then (let (n, e') = decode_int quiet k v (LinesAdded c) e in (c\<lparr>LinesAdded := n\<rparr>, e'))
         else if k = ''lines_removed'' then (let (n, e') = decode_int quiet k v (LinesRemoved c) e in (c\<lparr>LinesRemoved := n\<rparr>, e'))
         else (c, e))"

definition decode_changes :: "json \<Rightarrow> file_change slice \<Rightarrow> string option \<Rightarrow> file_change slice \<times> string option" where
  "decode_changes = decode_slice (decode_struct change_field) empty_change"

definition result_field :: "string \<Rightarrow> json \<Rightarrow> task_result_file \<times> string option \<Rightarrow> task_result_file \<times> string option" where
  "result_field k v st =
     (let (r, e) = st
      in if k = ''status'' then (let (x, e') = decode_string quiet k v (rf_Status r) e in (r\<lparr>rf_Status := x\<rparr>, e'))
         else if k = ''summary'' then (let (x, e') = decode_string quiet k v (rf_Summary r) e in (r\<lparr>rf_Summary := x\<rparr>, e'))
         else if k = ''tests_passed'' then (let (b, e') = decode_bool v (rf_TestsPassed r) e in (r\<lparr>rf_TestsPassed := b\<rparr>, e'))
         else if k = ''build_passed'' then (let (b, e') = decode_bool v (rf_BuildPassed r) e in (r\<lparr>rf_BuildPassed := b\<rparr>, e'))
         else if k = ''files_changed'' then
           (let (fs, e') = decode_changes v (rf_FilesChanged r) e in (r\<lparr>rf_FilesChanged := fs\<rparr>, e'))
         else if k = ''rounds_completed'' then
           (let (n, e') = decode_int quiet k v (rf_RoundsCompleted r) e in (r\<lparr>rf_RoundsCompleted := n\<rparr>, e'))
         else if k = ''pr_url'' then (let (x, e') = decode_string quiet k v (rf_PRUrl r) e in (r\<lparr>rf_PRUrl := x\<rparr>, e'))
         else if k = ''error'' then (let (x, e') = decode_string quiet k v (rf_Error r) e in (r\<lparr>rf_Error := x\<rparr>, e'))
         else (r, e))"

definition empty_result_file :: task_result_file where
  "empty_result_file =
     \<lparr>rf_Status = [], rf_Summary = [], rf_TestsPassed = False, rf_BuildPassed = False, rf_FilesChanged = None,
      rf_RoundsCompleted = 0, rf_PRUrl = [], rf_Error = []\<rparr>"

definition MapResultFileToResult :: "task_result_file \<Rightarrow> task_result" where
  "MapResultFileToResult rf =
     \<lparr>VerdictStatus = (if rf_Status rf = ''failed'' then ''failed'' else if rf_Status rf = ''stuck'' then ''stuck'' else ''converged''),
      VerdictSummary = rf_Summary rf, DiffContent = [],
      FilesChanged = (case rf_FilesChanged rf of None \<Rightarrow> [] | Some fs \<Rightarrow> fs), RoundsCompleted = rf_RoundsCompleted rf,
      TestsPassed = rf_TestsPassed rf, BuildPassed = rf_BuildPassed rf, PRUrl = rf_PRUrl rf\<rparr>"

definition verdictFromState :: "string \<Rightarrow> string" where
  "verdictFromState state =
     (if state = ''idle'' then ''converged''
      else if state = ''error'' then ''failed''
      else if state = ''stopped'' then ''cancelled''
      else ''unknown'')"

text \<open>\<open>resultFile\<close> is the text of \<open>.cdev/task-result.json\<close> where it can be read.\<close>

definition extractAndBuildResult :: "string option \<Rightarrow> string option \<Rightarrow> string option \<Rightarrow> string \<Rightarrow> task_result" where
  "extractAndBuildResult resultFile statOutput diffOutput finalState =
     (let fromFile = (case resultFile of None \<Rightarrow> None | Some data \<Rightarrow> unmarshal (decode_members result_field) empty_result_file data);
          diff = ParseResultFromGitDiff statOutput diffOutput
      in case fromFile of
           Some rf \<Rightarrow>
             (let r = MapResultFileToResult rf
              in if FilesChanged r = []
                 then (case diff of None \<Rightarrow> r | Some (files, txt) \<Rightarrow> r\<lparr>FilesChanged := files, DiffContent := txt\<rparr>)
                 else r)
         | None \<Rightarrow>
             (case diff of
                Some (f # fs, txt) \<Rightarrow>
                  empty_result\<lparr>VerdictStatus := verdictFromState finalState,
                    VerdictSummary := ''Agent completed with '' @ show_int (int (length (f # fs))) @ '' files changed'',
                    FilesChanged := f # fs, DiffContent := txt\<rparr>
              | _ \<Rightarrow>
                  empty_result\<lparr>VerdictStatus := verdictFromState finalState,
                    VerdictSummary := ''Agent session completed with state: '' @ finalState\<rparr>))"

section \<open>Prompts\<close>

abbreviation nl :: string where "nl \<equiv> [CHR 0x0A]"

definition resolveSkillFile :: "string \<Rightarrow> string" where
  "resolveSkillFile ty =
     (if ty = TaskTypeFixIssue then ''docs/skills/fix-issue.md''
      else if ty = TaskTypeFixReplay then ''docs/skills/analyze-replay.md''
      else if ty = TaskTypeImplementCR then ''docs/skills/implement-change-request.md''
      else if ty = TaskTypeAutoFix then ''docs/skills/auto-fix.md''
      else if ty = TaskTypeAddTest then ''docs/skills/fix-issue.md''
      else if ty = TaskTypeRefactor then ''docs/skills/fix-issue.md''
      else if ty = TaskTypePlanCase then ''docs/skills/plan-case.md''
      else [])"

definition prompt_head :: string where
  "prompt_head = ''Read CLAUDE.md for project conventions.'' @ nl @ nl"

definition prompt_skill :: "string \<Rightarrow> string" where
  "prompt_skill skillFile =
     ''Execute the portable skill defined in '' @ skillFile @ nl @
     ''Read the full skill file and follow its workflow exactly.'' @ nl @ nl"

definition prompt_end :: string where
  "prompt_end = ''After completion, write structured results to .cdev/task-result.json'' @ nl"

definition fence :: string where "fence = [CHR 0x60, CHR 0x60, CHR 0x60]"

definition buildUTPFromYAML :: "agent_task \<Rightarrow> string" where
  "buildUTPFromYAML t =
     prompt_head @
     (let skillFile = resolveSkillFile (TaskType t)
      in if skillFile \<noteq> [] then prompt_skill skillFile
         else ''Follow the appropriate skill workflow from docs/skills/.'' @ nl @ nl) @
     ''## Task Definition'' @ nl @ nl @ fence @ ''yaml'' @ nl @ TaskYAML t @ nl @ fence @ nl @ nl @ prompt_end"

definition show_bool :: "bool \<Rightarrow> string" where
  "show_bool b = (if b then ''true'' else ''false'')"

definition prompt_anchors :: "anchors option \<Rightarrow> string" where
  "prompt_anchors a =
     (case a of
        None \<Rightarrow> []
      | Some x \<Rightarrow>
          if a_Files x = [] \<and> a_Methods x = [] then []
          else ''anchors:'' @ nl @
            (if a_Files x = [] then [] else ''  files:'' @ nl @ concat (map (\<lambda>f. ''    - '' @ f @ nl) (a_Files x))) @
            (if a_Methods x = [] then [] else ''  methods:'' @ nl @ concat (map (\<lambda>m. ''    - '' @ m @ nl) (a_Methods x))))"

definition prompt_constraints :: "policy option \<Rightarrow> string" where
  "prompt_constraints p =
     (let maxFiles = (case p of Some q \<Rightarrow> if MaxFilesChanged q > 0 then MaxFilesChanged q else 10 | None \<Rightarrow> 10);
          maxRounds = (case p of Some q \<Rightarrow> if MaxRounds q > 0 then MaxRounds q else 3 | None \<Rightarrow> 3);
          mustTests = (case p of Some q \<Rightarrow> MustPassTests q | None \<Rightarrow> True);
          mustBuild = (case p of Some q \<Rightarrow> MustPassBuild q | None \<Rightarrow> True)
      in ''constraints:'' @ nl @
         ''  max_files_changed: '' @ show_int maxFiles @ nl @
         ''  must_pass_tests: '' @ show_bool mustTests @ nl @
         ''  must_pass_build: '' @ show_bool mustBuild @ nl @
         ''  max_rounds: '' @ show_int maxRounds @ nl)"

definition quote :: string where "quote = [CHR 0x22]"

definition buildUTPFromFields :: "agent_task \<Rightarrow> string" where
  "buildUTPFromFields t =
     prompt_head @
     (let skillFile = resolveSkillFile (TaskType t) in if skillFile \<noteq> [] then prompt_skill skillFile else []) @
     ''## Task Definition'' @ nl @ nl @ fence @ ''yaml'' @ nl @
     ''type: '' @ TaskType t @ nl @
     ''title: '' @ quote @ t_Title t @ quote @ nl @
     (if Description t = [] then []
      else ''description: |'' @ nl @ concat (map (\<lambda>l. ''  '' @ l @ nl) (split_on CHR 0x0A (Description t)))) @
     ''severity: '' @ t_Severity t @ nl @
     prompt_anchors (Anchors t) @ prompt_constraints (Policy t) @ fence @ nl @ nl @
     (if TaskType t = TaskTypeFixIssue \<or> TaskType t = TaskTypeImplementCR \<or> TaskType t = TaskTypeFixReplay
      then ''## Input Mapping'' @ nl @ ''- description_or_file: (the description above)'' @ nl @ nl else []) @
     prompt_end"

definition buildPrompt :: "agent_task \<Rightarrow> string" where
  "buildPrompt t = (if TaskYAML t \<noteq> [] then buildUTPFromYAML t else buildUTPFromFields t)"

definition buildPlanCasePrompt :: "agent_task \<Rightarrow> string" where
  "buildPlanCasePrompt t =
     (let prompt = (if Prompt t = [] then ''No prompt provided by dispatcher. Please check the webhook payload.'' else Prompt t)
      in if Description t \<noteq> [] then prompt @ nl @ nl @ ''## Context'' @ nl @ nl @ Description t @ nl else prompt)"

section \<open>Reading back a statistic\<close>

text \<open>
  The text git prints: one line per file with its path, padding, a bar, the number of changed lines and a bar
  chart, then a summary without a bar.
\<close>

type_synonym stat_row = "string \<times> nat \<times> nat \<times> nat \<times> nat"

fun stat_row_text :: "stat_row \<Rightarrow> string" where
  "stat_row_text (p, pad, n, a, r) =
     '' '' @ p @ replicate pad CHR '' '' @ '' | '' @ show_nat n @ '' '' @ replicate a CHR ''+'' @ replicate r CHR ''-''"

definition stat_text :: "stat_row list \<Rightarrow> string \<Rightarrow> string" where
  "stat_text rows summary = concat (map (\<lambda>row. stat_row_text row @ nl) rows) @ summary"

fun stat_row_change :: "stat_row \<Rightarrow> file_change" where
  "stat_row_change (p, pad, n, a, r) =
     (if a + r = 0 then \<lparr>fc_Path = p, LinesAdded = int (n div 2), LinesRemoved = int (n - n div 2)\<rparr>
      else \<lparr>fc_Path = p, LinesAdded = int a, LinesRemoved = int r\<rparr>)"

definition stat_file :: "string \<Rightarrow> bool" where
  "stat_file p \<longleftrightarrow> p \<noteq> [] \<and> CHR ''|'' \<notin> set p \<and> CHR 0x0A \<notin> set p \<and> trim_space p = p \<and>
     \<not> re_space (hd p) \<and> \<not> re_space (last p)"

lemma stat_tail_inside:
  assumes "CHR ''|'' \<notin> set u" "u \<noteq> []" "\<not> re_space (last u)"
  shows "stat_tail (u @ v) = None"
proof -
  have "\<exists>x \<in> set u. \<not> re_space x" using assms(2,3) last_in_set by blast
  then have d: "dropWhile re_space (u @ v) = dropWhile re_space u @ v" "dropWhile re_space u \<noteq> []" by auto
  then obtain c r where c: "dropWhile re_space u = c # r" by (cases "dropWhile re_space u") auto
  then have "c \<in> set u" using set_dropWhileD [of c re_space u] by simp
  then have "c \<noteq> CHR ''|''" using assms(1) by auto
  then show ?thesis using d(1) c by (simp add: stat_tail_def Let_def)
qed

lemma stat_path_found:
  assumes "u \<noteq> []" "CHR ''|'' \<notin> set u" "CHR 0x0A \<notin> set u" "\<not> re_space (last u)" "stat_tail v = Some (d, g)"
  shows "stat_path acc (u @ v) = Some (acc @ u, d, g)"
  using assms
proof (induction u arbitrary: acc)
  case (Cons c u)
  show ?case
  proof (cases "u = []")
    case True
    then show ?thesis using Cons.prems by auto
  next
    case False
    then have "stat_tail (u @ v) = None" using Cons.prems by (intro stat_tail_inside) auto
    then show ?thesis using Cons False by auto
  qed
qed simp

lemma takeWhile_show_nat:
  "\<not> is_digit c \<Longrightarrow> takeWhile is_digit (show_nat n @ c # s) = show_nat n"
  "\<not> is_digit c \<Longrightarrow> dropWhile is_digit (show_nat n @ c # s) = c # s"
  using show_nat_digits [of _ n] by (auto simp: takeWhile_append dropWhile_append)

lemma digit_not_space: "is_digit c \<Longrightarrow> \<not> re_space c"
  by (auto simp: is_digit_def re_space_def Let_def)

lemma stat_tail_row:
  "stat_tail (replicate pad CHR '' '' @ '' | '' @ show_nat n @ '' '' @ replicate a CHR ''+'' @ replicate r CHR ''-'') =
     Some (show_nat n, replicate a CHR ''+'' @ replicate r CHR ''-'')"
proof -
  have sp: "re_space CHR '' ''" "\<not> re_space CHR ''|''" "\<not> is_digit CHR '' ''" by (simp_all add: re_space_def is_digit_def)
  have "dropWhile re_space (replicate pad CHR '' '' @ '' | '' @ s) = CHR ''|'' # CHR '' '' # s" for s
    using sp by (induction pad) simp_all
  moreover have "dropWhile re_space (CHR '' '' # show_nat n @ s) = show_nat n @ s" for s
  proof -
    have "\<not> re_space (hd (show_nat n))" using show_nat_digits [of "hd (show_nat n)" n] digit_not_space by simp
    then show ?thesis using sp by (cases "show_nat n") simp_all
  qed
  moreover have "dropWhile re_space ('' '' @ replicate a CHR ''+'' @ replicate r CHR ''-'') = replicate a CHR ''+'' @ replicate r CHR ''-''"
    by (cases a; cases r) (simp_all add: re_space_def)
  moreover have "takeWhile stat_sign (replicate a CHR ''+'' @ replicate r CHR ''-'') = replicate a CHR ''+'' @ replicate r CHR ''-''"
    by (auto simp: takeWhile_eq_all_conv stat_sign_def)
  ultimately show ?thesis
    using sp(3) by (simp add: stat_tail_def takeWhile_show_nat)
qed

lemma stat_match_row:
  assumes "stat_file p"
  shows "stat_match (stat_row_text (p, pad, n, a, r)) = Some (p, show_nat n, replicate a CHR ''+'' @ replicate r CHR ''-'')"
proof -
  have p: "p \<noteq> []" "CHR ''|'' \<notin> set p" "CHR 0x0A \<notin> set p" "\<not> re_space (last p)" "\<not> re_space (hd p)"
    using assms by (auto simp: stat_file_def)
  have "takeWhile re_space (stat_row_text (p, pad, n, a, r)) = '' ''"
    using p(1,5) by (cases p) (auto simp: re_space_def)
  moreover have "stat_path [] (drop 1 (stat_row_text (p, pad, n, a, r))) =
      Some (p, show_nat n, replicate a CHR ''+'' @ replicate r CHR ''-'')"
    using stat_path_found [OF p(1-4) stat_tail_row, of "[]" pad n a r] by simp
  ultimately show ?thesis by (simp add: stat_match_def List.map_filter_def)
qed

lemma count_list_replicate [simp]: "count_list (replicate n x) y = (if x = y then n else 0)"
  by (induction n) auto

lemma stat_line_row:
  assumes "stat_file p" "n < 2 ^ 63"
  shows "stat_line (stat_row_text (p, pad, n, a, r)) = Some (stat_row_change (p, pad, n, a, r))"
proof -
  have "int n \<le> 2 ^ 63 - 1" using assms(2) by (metis int_ops(3) of_nat_less_iff of_nat_numeral of_nat_power zle_diff1_eq)
  then have t: "atoi_clamped (show_nat n) = int n" by (simp add: atoi_clamped_def show_nat_value)
  have "trim_space p = p" using assms(1) by (simp add: stat_file_def)
  then show ?thesis
    using stat_match_row [OF assms(1), of pad n a r] t
    by (auto simp: stat_line_def Let_def count_list_append zdiv_int of_nat_diff)
qed

lemma row_no_newline:
  assumes "stat_file p"
  shows "CHR 0x0A \<notin> set (stat_row_text (p, pad, n, a, r))"
  using assms show_nat_digits [of "CHR 0x0A" n] by (auto simp: stat_file_def is_digit_def)

lemma stat_line_no_bar:
  assumes "CHR ''|'' \<notin> set s"
  shows "stat_line s = None"
proof -
  have tail: "stat_tail u = None" if "CHR ''|'' \<notin> set u" for u
    using that set_dropWhileD [of _ re_space u] by (auto simp: stat_tail_def Let_def split: list.splits)
  have path: "stat_path acc u = None" if "CHR ''|'' \<notin> set u" for acc u
    using that by (induction acc u rule: stat_path.induct) (auto simp: tail)
  have "CHR ''|'' \<notin> set (drop k s)" for k using assms by (meson in_set_dropD)
  then have "List.map_filter (\<lambda>k. stat_path [] (drop k s)) ks = []" for ks
    by (simp add: List.map_filter_def path)
  then show ?thesis by (simp add: stat_line_def stat_match_def)
qed

lemma split_on_line: "CHR 0x0A \<notin> set l \<Longrightarrow> split_on CHR 0x0A (l @ nl @ s) = l # split_on CHR 0x0A s"
  using split_on_sep [of "CHR 0x0A" l s] by (simp add: split_on_def split_go_end)

text \<open>
  The statistic of a diff is read back: from what git prints for any list of files, each line with its path
  (one without bars and newlines, not set off by space), any padding, the number of changed lines and the bar
  chart, and a summary, the parser gives exactly these files with the signs of their charts counted, or, where a
  chart is empty, the number split in halves.
\<close>

theorem parseGitDiffStat_reads_back:
  assumes "\<forall>(p, pad, n, a, r) \<in> set rows. stat_file p \<and> n < 2 ^ 63"
    "CHR ''|'' \<notin> set summary" "CHR 0x0A \<notin> set summary"
  shows "parseGitDiffStat (stat_text rows summary) = map stat_row_change rows"
  using assms
proof (induction rows)
  case Nil
  then have "split_on CHR 0x0A summary = [summary]" by (simp add: split_on_def split_go_end)
  then show ?case using stat_line_no_bar [OF Nil(2)] by (simp add: parseGitDiffStat_def stat_text_def List.map_filter_def)
next
  case (Cons row rows)
  obtain p pad n a r where row: "row = (p, pad, n, a, r)" by (cases row)
  have ok: "stat_file p" "n < 2 ^ 63" using Cons.prems(1) row by auto
  have "stat_text (row # rows) summary = stat_row_text row @ nl @ stat_text rows summary" by (simp add: stat_text_def)
  then have "split_on CHR 0x0A (stat_text (row # rows) summary) = stat_row_text row # split_on CHR 0x0A (stat_text rows summary)"
    using split_on_line [OF row_no_newline [OF ok(1)]] row by metis
  moreover have "stat_line (stat_row_text row) = Some (stat_row_change row)"
    unfolding row by (rule stat_line_row [OF ok])
  moreover have "parseGitDiffStat (stat_text rows summary) = map stat_row_change rows" using Cons by auto
  ultimately show ?case by (simp add: parseGitDiffStat_def List.map_filter_def)
qed

definition demo_stat :: "stat_row list" where
  "demo_stat = [(''internal/app.go'', 2, 3, 2, 1), (''logo with space.png'', 0, 5, 0, 0)]"

theorem parseGitDiffStat_reads_back_witness:
  "parseGitDiffStat (stat_text demo_stat '' 2 files changed'') =
     [\<lparr>fc_Path = ''internal/app.go'', LinesAdded = 2, LinesRemoved = 1\<rparr>,
      \<lparr>fc_Path = ''logo with space.png'', LinesAdded = 2, LinesRemoved = 3\<rparr>]"
proof -
  have t: "trim_space ''internal/app.go'' = ''internal/app.go''" "trim_space ''logo with space.png'' = ''logo with space.png''"
    by code_simp+
  then have "\<forall>(p, pad, n, a, r) \<in> set demo_stat. stat_file p \<and> n < 2 ^ 63"
    by (simp add: demo_stat_def stat_file_def re_space_def)
  from parseGitDiffStat_reads_back [OF this, of "'' 2 files changed''"] show ?thesis by (simp add: demo_stat_def)
qed

end
