(* ===== verification/Task_Spawner.thy ===== *)
theory Task_Spawner
  imports Task_Store Agent_Worktree Agent_Result
begin

text \<open>
  \<open>internal/agent/spawner.go\<close> and \<open>plan_executor.go\<close>: the execution of tasks. An execution runs in its
  own goroutine and keeps its own copy of the task, which it writes to the store as a whole. It is modelled as the
  stretches of code between the calls that wait (making the worktree, starting the session, waiting
  for it), so that anything may happen to the store between two stretches. An execution whose goroutine has
  ended is gone from \<open>activeTasks\<close>.

  What the outside returns (the store's success, the clock, git, the session, files, callbacks that are refused)
  is the argument of each stretch. Log messages, the file with the callback credentials
  and the sending of a callback are not modelled, that a callback is sent is.
\<close>

section \<open>The world of the executions\<close>

datatype stage = Queued | Making_worktree | Starting_session | Waiting

record execution =
  ex_task :: agent_task
  ex_stage :: stage
  ex_minutes :: int

datatype outside =
    Removed string
  | Stopped string
  | Callback agent_task string "string list"

record task_world =
  store :: task_store
  activeTasks :: "(string, execution) gomap"
  published :: "event list"
  outside :: "outside list"
  panicked :: bool

text \<open>The clock and the answers of the store, by the number of the call in a stretch.\<close>

record step_env =
  at :: "nat \<Rightarrow> time"
  db_ok :: "nat \<Rightarrow> bool"
  has_hub :: bool
  resolves :: "(string \<Rightarrow> string) option"
  can_stop :: bool
  git_removes :: bool

definition save :: "bool \<Rightarrow> agent_task \<Rightarrow> task_world \<Rightarrow> task_world" where
  "save ok t w = w\<lparr>store := snd (task_Update ok t (store w))\<rparr>"

definition task_event :: "time \<Rightarrow> string \<Rightarrow> agent_task \<Rightarrow> event" where
  "task_event now ty t =
     NewTaskEvent now ty (WorkspaceID t)
       \<lparr>tp_id = ID t, tp_type = TaskType t, Title = t_Title t, tp_status = t_Status t, Severity = [], tp_message = [],
        tp_session = SessionID t\<rparr>"

definition emitEvent :: "step_env \<Rightarrow> time \<Rightarrow> string \<Rightarrow> agent_task \<Rightarrow> task_world \<Rightarrow> task_world" where
  "emitEvent e now ty t w = (if has_hub e then w\<lparr>published := published w @ [task_event now ty t]\<rparr> else w)"

text \<open>
  A task copy and the world, threaded through the code that changes both. The session identifier a session
  manager resolves a temporary one to is asked for only when the session starter can resolve.
\<close>

definition persistResolvedSessionID :: "step_env \<Rightarrow> nat \<Rightarrow> agent_task \<Rightarrow> task_world \<Rightarrow> agent_task \<times> task_world" where
  "persistResolvedSessionID e n t w =
     (if trim_space (SessionID t) = [] then (t, w)
      else case resolves e of
        None \<Rightarrow> (t, w)
      | Some resolve \<Rightarrow>
          (let resolvedID = trim_space (resolve (SessionID t))
           in if resolvedID = [] \<or> resolvedID = SessionID t then (t, w)
              else (let t' = AddTimelineEvent (at e n) ''session_id_resolved'' (''Resolved session ID: '' @ resolvedID) ''system''
                               (t\<lparr>SessionID := resolvedID\<rparr>)
                    in (t', save (db_ok e n) t' w))))"

definition failTask :: "step_env \<Rightarrow> nat \<Rightarrow> string \<Rightarrow> agent_task \<Rightarrow> task_world \<Rightarrow> agent_task \<times> task_world" where
  "failTask e n reason t w =
     (let (t0, w0) = persistResolvedSessionID e n t w
      in case Transition (at e (n + 1)) (at e (n + 2)) StatusFailed t0 of
           Inl _ \<Rightarrow> (t0, w0)
         | Inr t1 \<Rightarrow>
             (let t2 = AddTimelineEvent (at e (n + 3)) ''failed'' reason ''system''
                         (t1\<lparr>t_Result := Some (empty_result\<lparr>VerdictStatus := ''failed'', VerdictSummary := reason\<rparr>)\<rparr>)
              in (t2, emitEvent e (at e (n + 4)) ''task_failed'' t2 (save (db_ok e (n + 1)) t2 w0))))"

definition cleanup_worktree :: "string \<Rightarrow> task_world \<Rightarrow> task_world" where
  "cleanup_worktree path w = (if path = [] then w else w\<lparr>outside := outside w @ [Removed path]\<rparr>)"

definition ends :: "string \<Rightarrow> task_world \<Rightarrow> task_world" where
  "ends tid w = w\<lparr>activeTasks := mdel tid (activeTasks w)\<rparr>"

definition goes_on :: "stage \<Rightarrow> int \<Rightarrow> agent_task \<Rightarrow> task_world \<Rightarrow> task_world" where
  "goes_on st mins t w = w\<lparr>activeTasks := mput (ID t) \<lparr>ex_task = t, ex_stage = st, ex_minutes = mins\<rparr> (activeTasks w)\<rparr>"

definition callback_wanted :: "(string \<Rightarrow> string \<Rightarrow> bool) \<Rightarrow> agent_task \<Rightarrow> bool" where
  "callback_wanted url_ok t =
     (case Origin t of
        None \<Rightarrow> False
      | Some d \<Rightarrow>
          (case o_CaseID d of
             None \<Rightarrow> False
           | Some n \<Rightarrow>
               URL d \<noteq> [] \<and>
               url_ok (System d)
                 (rev (dropWhile (\<lambda>c. c = CHR ''/'') (rev (URL d))) @ ''/api/ai-cases/'' @ show_int n @ ''/status'')))"

definition fireCallback :: "(string \<Rightarrow> string \<Rightarrow> bool) \<Rightarrow> agent_task \<Rightarrow> string \<Rightarrow> string list \<Rightarrow> task_world \<Rightarrow> task_world" where
  "fireCallback url_ok t status yamls w =
     (if callback_wanted url_ok t then w\<lparr>outside := outside w @ [Callback t status yamls]\<rparr> else w)"

section \<open>Where callbacks may go\<close>

text \<open>\<open>url.Parse\<close> is an argument: the scheme and the host name it finds, or nothing.\<close>

type_synonym url_parser = "string \<Rightarrow> (string \<times> string) option"

definition isLoopbackHost :: "string \<Rightarrow> bool" where
  "isLoopbackHost host = (host \<in> {''localhost'', ''127.0.0.1'', ''0.0.0.0'', ''::1'', ''[::1]''})"

text \<open>The second number of a host that begins with \<open>172.\<close> and has a second part.\<close>

definition second_octet :: "string \<Rightarrow> int option" where
  "second_octet host = (case split_on CHR ''.'' host of _ # p # _ \<Rightarrow> sscan_int p | _ \<Rightarrow> None)"

definition validateCallbackURLForOrigin :: "url_parser \<Rightarrow> bool \<Rightarrow> string \<Rightarrow> string \<Rightarrow> string option" where
  "validateCallbackURLForOrigin parse allowLocal originSystem rawURL =
     (case parse rawURL of
        None \<Rightarrow> Some ''invalid URL''
      | Some (scheme, hostname) \<Rightarrow>
          if scheme \<noteq> ''https'' \<and> scheme \<noteq> ''http'' then Some (''unsupported scheme: '' @ scheme)
          else if allowLocal then None
          else (let host = to_lower hostname
                in if isLoopbackHost host then
                     (if fold_key originSystem = ''lazyadmin'' then None
                      else Some (''callback to '' @ host @
                        '' is not allowed (set CDEV_ALLOW_LOCAL_CALLBACKS=1 or CDEV_ALLOW_LOCAL_CALLBACK=1 for dev)''))
                   else if host = ''169.254.169.254'' \<or> host = ''metadata.google.internal''
                   then Some (''callback to metadata endpoint '' @ host @ '' is not allowed'')
                   else if has_prefix ''10.'' host \<or> has_prefix ''192.168.'' host
                   then Some (''callback to private IP '' @ host @ '' is not allowed'')
                   else if has_prefix ''172.'' host \<and>
                     (case second_octet host of None \<Rightarrow> False | Some n \<Rightarrow> n \<ge> 16 \<and> n \<le> 31)
                   then Some (''callback to private IP '' @ host @ '' is not allowed'')
                   else None))"

section \<open>Spawning\<close>

definition task_minutes :: "agent_task \<Rightarrow> int" where
  "task_minutes t = (case Policy t of None \<Rightarrow> 30 | Some p \<Rightarrow> if MaxDurationMins p > 0 then MaxDurationMins p else 30)"

definition SpawnTask :: "step_env \<Rightarrow> string \<Rightarrow> task_world \<Rightarrow> string option \<times> task_world" where
  "SpawnTask e tid w =
     (if mem_key tid (activeTasks w) then (Some (''task '' @ tid @ '' is already running''), w)
      else case GetByID (db_ok e 0) tid (store w) of
        None \<Rightarrow> (Some ''task not found'', w)
      | Some t \<Rightarrow> (None, goes_on Queued (task_minutes t) t w))"

text \<open>
  A cancellation ends the wait of the execution, as \<open>wait_failed\<close> without \<open>deadline_passed\<close> and with the final
  state \<open>timeout\<close>; it changes nothing by itself.
\<close>

definition CancelTask :: "string \<Rightarrow> task_world \<Rightarrow> string option" where
  "CancelTask tid w = (if mem_key tid (activeTasks w) then None else Some (''task '' @ tid @ '' is not running''))"

definition ActiveTaskCount :: "task_world \<Rightarrow> nat" where
  "ActiveTaskCount w = length (activeTasks w)"

section \<open>Executing a task\<close>

text \<open>
  The beginning of both executors, up to the making of the worktree: a task that cannot be set to running is left
  alone.
\<close>

definition execution_begins :: "step_env \<Rightarrow> execution \<Rightarrow> task_world \<Rightarrow> task_world" where
  "execution_begins e x w =
     (let t = ex_task x
      in case Transition (at e 0) (at e 1) StatusRunning t of
           Inl _ \<Rightarrow> ends (ID t) w
         | Inr t1 \<Rightarrow>
             goes_on Making_worktree (ex_minutes x) t1 (emitEvent e (at e 2) ''task_started'' t1 (save (db_ok e 1) t1 w)))"

text \<open>What comes back from \<open>createWorktree\<close>; \<open>None\<close> is its panic.\<close>

definition execute_worktree ::
  "step_env \<Rightarrow> (string + string \<times> string) option \<Rightarrow> execution \<Rightarrow> task_world \<Rightarrow> task_world" where
  "execute_worktree e made x w =
     (let t = ex_task x
      in case made of
           None \<Rightarrow> ends (ID t) (w\<lparr>panicked := True\<rparr>)
         | Some (Inl err) \<Rightarrow> ends (ID t) (snd (failTask e 0 (''Failed to create worktree: '' @ err) t w))
         | Some (Inr (path, branch)) \<Rightarrow>
             (let t1 = AddTimelineEvent (at e 0) ''worktree'' (''Worktree created: '' @ path @ '' (branch: '' @ branch @ '')'') ''system''
                         (t\<lparr>WorktreePath := path, BranchName := branch\<rparr>)
              in goes_on Starting_session (ex_minutes x) t1 (save (db_ok e 0) t1 w)))"

definition agent_type :: "agent_task \<Rightarrow> string" where
  "agent_type t = (case Policy t of None \<Rightarrow> ''claude'' | Some p \<Rightarrow> if pol_AgentType p \<noteq> [] then pol_AgentType p else ''claude'')"

text \<open>What comes back from \<open>StartSessionWithPrompt\<close>, which gets the workspace, the prompt, the agent and the worktree.\<close>

type_synonym starter = "string \<Rightarrow> string \<Rightarrow> string \<Rightarrow> string \<Rightarrow> string + string"

definition execute_start :: "step_env \<Rightarrow> starter \<Rightarrow> execution \<Rightarrow> task_world \<Rightarrow> task_world" where
  "execute_start e start x w =
     (let t = ex_task x
      in case start (WorkspaceID t) (buildPrompt t) (agent_type t) (WorktreePath t) of
           Inl err \<Rightarrow>
             ends (ID t) (cleanup_worktree (WorktreePath t) (snd (failTask e 0 (''Failed to start agent session: '' @ err) t w)))
         | Inr sid \<Rightarrow>
             (let t1 = AddTimelineEvent (at e 0) ''session_started'' (''Agent session started: '' @ sid) ''system''
                         (t\<lparr>SessionID := sid\<rparr>)
              in goes_on Waiting (ex_minutes x) t1 (save (db_ok e 0) t1 w)))"

text \<open>
  What comes back from \<open>WaitForCompletion\<close>: the final state and whether an error, and whether the deadline had
  passed; and the files and outputs the result is made of.
\<close>

record waited =
  finalState :: string
  wait_failed :: bool
  deadline_passed :: bool
  resultFile :: "string option"
  statOutput :: "string option"
  diffOutput :: "string option"
  output_yamls :: "string list"

definition timed_out :: "waited \<Rightarrow> bool" where
  "timed_out r \<longleftrightarrow> wait_failed r \<and> deadline_passed r"

definition failed_state :: "waited \<Rightarrow> bool" where
  "failed_state r \<longleftrightarrow> finalState r = ''error'' \<or> finalState r = ''stopped''"

text \<open>The end of a session whose agent neither failed nor was stopped.\<close>

definition await_approval :: "step_env \<Rightarrow> task_result \<Rightarrow> agent_task \<Rightarrow> task_world \<Rightarrow> task_world" where
  "await_approval e result t w =
     (case Transition (at e 2) (at e 3) StatusValidating t of
        Inl _ \<Rightarrow> w
      | Inr t1 \<Rightarrow>
          (let t2 = AddTimelineEvent (at e 4) ''validating'' ''Validating agent results'' ''system'' t1;
               w2 = save (db_ok e 2) t2 w;
               good = TestsPassed result \<and> BuildPassed result
           in case Transition (at e 5) (at e 6) StatusAwaitingApproval t2 of
                Inl _ \<Rightarrow> w2
              | Inr t3 \<Rightarrow>
                  (let msg = (if good then ''Tests and build passed, awaiting human approval''
                              else ''Agent finished (tests='' @ show_bool (TestsPassed result) @ '', build='' @
                                   show_bool (BuildPassed result) @ ''), awaiting human review'');
                       t4 = AddTimelineEvent (at e 7) ''awaiting_approval'' msg ''system'' t3
                   in emitEvent e (at e 8) (if good then ''task_completed'' else ''task_progress'') t4 (save (db_ok e 3) t4 w2))))"

definition execute_finish :: "step_env \<Rightarrow> waited \<Rightarrow> execution \<Rightarrow> task_world \<Rightarrow> task_world" where
  "execute_finish e r x w =
     (let (t, w0) = persistResolvedSessionID e 0 (ex_task x) w; tid = ID t
      in if timed_out r then
           (case Policy t of
              None \<Rightarrow> ends tid (w0\<lparr>panicked := True\<rparr>)
            | Some p \<Rightarrow>
                ends tid (snd (failTask e 1 (''Task timed out after '' @ show_int (MaxDurationMins p) @ '' minutes'') t w0)))
         else (let t1 = AddTimelineEvent (at e 1) ''session_completed'' (''Agent session finished: state='' @ finalState r) ''system'' t;
                   w1 = save (db_ok e 1) t1 w0;
                   result = extractAndBuildResult (resultFile r) (statOutput r) (diffOutput r) (finalState r);
                   t2 = t1\<lparr>t_Result := Some result\<rparr>
               in if failed_state r then
                    ends tid (snd (failTask e 10 (''Agent session ended with state: '' @ finalState r) t2 w1))
                  else ends tid (await_approval e result t2 w1)))"

section \<open>Executing a plan case\<close>

text \<open>The error of writing the case context: there is none to write, or the file cannot be written.\<close>

definition writeCaseContext :: "string option \<Rightarrow> json option \<Rightarrow> string option" where
  "writeCaseContext write_err ctx = (if ctx = None then Some ''empty case context'' else write_err)"

definition plan_worktree ::
  "step_env \<Rightarrow> string option \<Rightarrow> (string + string \<times> string) option \<Rightarrow> execution \<Rightarrow> task_world \<Rightarrow> task_world" where
  "plan_worktree e write_err made x w =
     (let t = ex_task x
      in case made of
           None \<Rightarrow> ends (ID t) (w\<lparr>panicked := True\<rparr>)
         | Some (Inl err) \<Rightarrow> ends (ID t) (snd (failTask e 0 (''Failed to create worktree: '' @ err) t w))
         | Some (Inr (path, branch)) \<Rightarrow>
             (let t1 = AddTimelineEvent (at e 0) ''worktree'' (''Detached worktree created: '' @ path) ''system''
                         (t\<lparr>WorktreePath := path\<rparr>);
                  w1 = save (db_ok e 0) t1 w
              in case writeCaseContext write_err (CaseContext t) of
                   Some err \<Rightarrow>
                     ends (ID t) (cleanup_worktree path (snd (failTask e 1 (''Failed to write case context: '' @ err) t1 w1)))
                 | None \<Rightarrow> goes_on Starting_session (ex_minutes x) t1 w1))"

definition plan_start :: "step_env \<Rightarrow> starter \<Rightarrow> execution \<Rightarrow> task_world \<Rightarrow> task_world" where
  "plan_start e start x w =
     (let t = ex_task x
      in case start (WorkspaceID t) (buildPlanCasePrompt t) ''claude'' (WorktreePath t) of
           Inl err \<Rightarrow>
             ends (ID t) (cleanup_worktree (WorktreePath t) (snd (failTask e 0 (''Failed to start agent session: '' @ err) t w)))
         | Inr sid \<Rightarrow>
             (let t1 = AddTimelineEvent (at e 0) ''session_started'' (''Plan case session started: '' @ sid) ''system''
                         (t\<lparr>SessionID := sid\<rparr>)
              in goes_on Waiting (ex_minutes x) t1 (save (db_ok e 0) t1 w)))"

text \<open>The last transitions of a plan case, which goes to completed without approval.\<close>

definition plan_complete :: "step_env \<Rightarrow> (string \<Rightarrow> string \<Rightarrow> bool) \<Rightarrow> string list \<Rightarrow> agent_task \<Rightarrow> task_world \<Rightarrow> task_world" where
  "plan_complete e url_ok yamls t w =
     (case Transition (at e 2) (at e 3) StatusValidating t of
        Inl err \<Rightarrow> snd (failTask e 10 (''Failed to transition to validating: '' @ transition_error_text err) t w)
      | Inr t1 \<Rightarrow>
          (case Transition (at e 4) (at e 5) StatusCompleted t1 of
             Inl err \<Rightarrow> snd (failTask e 10 (''Failed to transition to completed: '' @ transition_error_text err) t1 w)
           | Inr t2 \<Rightarrow>
               (let t3 = t2\<lparr>t_Result := Some (empty_result\<lparr>VerdictStatus := ''converged'',
                           VerdictSummary := ''Plan case completed with '' @ show_int (int (length yamls)) @ '' output task YAMLs''\<rparr>)\<rparr>
                in fireCallback url_ok t3 ''Analyzed'' yamls (emitEvent e (at e 6) ''task_completed'' t3 (save (db_ok e 2) t3 w)))))"

definition plan_finish :: "step_env \<Rightarrow> (string \<Rightarrow> string \<Rightarrow> bool) \<Rightarrow> waited \<Rightarrow> execution \<Rightarrow> task_world \<Rightarrow> task_world" where
  "plan_finish e url_ok r x w =
     (let (t, w0) = persistResolvedSessionID e 0 (ex_task x) w; tid = ID t
      in if timed_out r then
           (let w1 = (if can_stop e \<and> trim_space (SessionID t) \<noteq> [] then w0\<lparr>outside := outside w0 @ [Stopped (SessionID t)]\<rparr> else w0);
                t1 = AddTimelineEvent (at e 1) ''worktree_retained''
                       (''Timed out plan case worktree preserved for inspection: '' @ WorktreePath t) ''system'' t;
                (t2, w2) = failTask e 10 (''Planning timed out after '' @ show_int (task_minutes t1) @ '' minutes'') t1
                             (save (db_ok e 1) t1 w1)
            in ends tid (fireCallback url_ok t2 ''PlanningTimeout'' [] w2))
         else (let t1 = AddTimelineEvent (at e 1) ''plan_complete''
                          (''Plan case finished: state='' @ finalState r @ '', output_yamls='' @ show_int (int (length (output_yamls r))))
                          ''system'' t
               in ends tid (cleanup_worktree (WorktreePath t1)
                    (if failed_state r then
                       (let (t2, w2) = failTask e 10 (''Plan case session ended with state: '' @ finalState r) t1 w0
                        in fireCallback url_ok t2 ''PlanningTimeout'' [] w2)
                     else plan_complete e url_ok (output_yamls r) t1 w0))))"

section \<open>One stretch of an execution\<close>

text \<open>What the outside answers, and the next stretch of the execution of a task, if it has one.\<close>

record answers =
  wenv :: worktree_env
  write_err :: "string option"
  started :: starter
  session :: waited
  url_ok :: "string \<Rightarrow> string \<Rightarrow> bool"

definition execution_step :: "step_env \<Rightarrow> answers \<Rightarrow> execution \<Rightarrow> task_world \<Rightarrow> task_world" where
  "execution_step e a x w =
     (case ex_stage x of
        Queued \<Rightarrow> execution_begins e x w
      | Making_worktree \<Rightarrow>
          (let made = createWorktree (wenv a) (ex_task x)
           in if IsPlanCase (ex_task x) then plan_worktree e (write_err a) made x w else execute_worktree e made x w)
      | Starting_session \<Rightarrow>
          if IsPlanCase (ex_task x) then plan_start e (started a) x w else execute_start e (started a) x w
      | Waiting \<Rightarrow>
          if IsPlanCase (ex_task x) then plan_finish e (url_ok a) (session a) x w else execute_finish e (session a) x w)"

definition advance :: "step_env \<Rightarrow> answers \<Rightarrow> string \<Rightarrow> task_world \<Rightarrow> task_world" where
  "advance e a tid w = (case mget (activeTasks w) tid of None \<Rightarrow> w | Some x \<Rightarrow> execution_step e a x w)"

section \<open>Where callbacks go\<close>

lemma first_part:
  assumes "c \<notin> set p" "c \<notin> set q"
  shows "has_prefix (p @ [c]) (q @ c # r) \<longleftrightarrow> p = q"
proof
  assume "has_prefix (p @ [c]) (q @ c # r)"
  then obtain t where "p @ c # t = q @ c # r" by (auto simp: has_prefix_iff)
  moreover have "takeWhile (\<lambda>x. x \<noteq> c) (p @ c # t) = p" "takeWhile (\<lambda>x. x \<noteq> c) (q @ c # r) = q"
    using assms by (auto simp: takeWhile_append)
  ultimately show "p = q" by simp
qed (simp add: has_prefix_iff)

lemma show_byte_eq: "show_nat (unat (x :: byte)) = s \<longleftrightarrow> parse_octet s = Some x \<and> show_nat (unat x) = s"
  by auto

lemma show_byte_inj: "show_nat (unat (x :: byte)) = show_nat (unat (y :: byte)) \<longleftrightarrow> x = y"
  by (metis option.inject parse_octet_show)

lemma no_dot: "CHR ''.'' \<notin> set (show_nat n)"
  using show_nat_digits [of "CHR ''.''" n] by (auto simp: is_digit_def)

lemma v4_string_four:
  "v4_string [a, b, c, d] = show_nat (unat a) @ CHR ''.'' # (show_nat (unat b) @ CHR ''.'' # (show_nat (unat c) @
     CHR ''.'' # show_nat (unat d)))"
  by (simp add: v4_string_def)

lemma v4_prefix1:
  "has_prefix (show_nat (unat (x :: byte)) @ ''.'') (v4_string [a, b, c, d]) \<longleftrightarrow> x = a"
  unfolding v4_string_four by (subst first_part) (simp_all add: no_dot show_byte_inj)

lemma v4_prefix2:
  "has_prefix (show_nat (unat (x :: byte)) @ ''.'' @ show_nat (unat (y :: byte)) @ ''.'') (v4_string [a, b, c, d]) \<longleftrightarrow> x = a \<and> y = b"
proof -
  have "has_prefix (p @ CHR ''.'' # t) (q @ CHR ''.'' # r) \<longleftrightarrow> p = q \<and> has_prefix t r"
    if "CHR ''.'' \<notin> set p" "CHR ''.'' \<notin> set q" for p q t r
  proof
    assume l: "has_prefix (p @ CHR ''.'' # t) (q @ CHR ''.'' # r)"
    then have "has_prefix (p @ [CHR ''.'']) (q @ CHR ''.'' # r)" by (auto simp: has_prefix_iff)
    then have "p = q" using first_part [OF that] by simp
    then show "p = q \<and> has_prefix t r" using l by (auto simp: has_prefix_iff)
  qed (auto simp: has_prefix_iff)
  then show ?thesis
    unfolding v4_string_four using first_part [of "CHR ''.''"] by (simp add: no_dot show_byte_inj)
qed

lemma list_four: "length [a, b, c, d] = 4"
  by simp

lemma v4_string_inj: "v4_string [a, b, c, d] = v4_string [p, q, r, s] \<longleftrightarrow> [a, b, c, d] = [p, q, r, s]"
  using parse_v4_string [of "[a, b, c, d]"] parse_v4_string [of "[p, q, r, s]"] by (metis list_four option.inject)

lemma to_lower_v4: "to_lower (v4_string b) = v4_string b"
proof -
  have no: "\<not> (65 \<le> code_of c \<and> code_of c \<le> 90)" if "c \<in> set (v4_string b)" for c
    using v4_string_chars [OF that] by (cases "c = CHR ''.''") (simp_all add: is_digit_def Let_def)
  show ?thesis unfolding to_lower_def by (rule map_idI) (rule if_not_P, rule no)
qed

lemma sscan_int_show:
  assumes "n < 2 ^ 63"
  shows "sscan_int (show_nat n) = Some (int n)"
proof -
  obtain x r where x: "show_nat n = x # r" by (cases "show_nat n") auto
  then have "is_digit x" using show_nat_digits [of x n] by simp
  then have "space_len (x # r) = 0" "x \<noteq> CHR ''-''" "x \<noteq> CHR ''+''"
    by (auto simp: space_len_zero_iff space_seqs_def is_digit_def)
  then have t: "trim_left_space (show_nat n) = show_nat n" "\<not> has_prefix ''-'' (show_nat n)" "\<not> has_prefix ''+'' (show_nat n)"
    by (simp_all add: x)
  have w: "takeWhile is_digit (show_nat n) = show_nat n" by (simp add: takeWhile_eq_all_conv show_nat_digits)
  show ?thesis using assms by (simp add: sscan_int_def Let_def t w show_nat_value)
qed

lemma second_octet_v4: "second_octet (v4_string [a, b, c, d]) = Some (int (unat b))"
proof -
  have "split_on CHR ''.'' (v4_string [a, b, c, d]) = map (\<lambda>x. show_nat (unat x)) [a, b, c, d]"
    unfolding v4_string_def by (rule split_join) (auto simp: no_dot)
  moreover have "unat b < 2 ^ 63" using unat_byte [of b] by simp
  ultimately show ?thesis using sscan_int_show [of "unat b"] by (simp add: second_octet_def)
qed

lemma byte_texts:
  "''10.'' = show_nat (unat (10 :: byte)) @ ''.''" "''172.'' = show_nat (unat (172 :: byte)) @ ''.''"
  "''192.168.'' = show_nat (unat (192 :: byte)) @ ''.'' @ show_nat (unat (168 :: byte)) @ ''.''"
  "''127.0.0.1'' = v4_string [127, 0, 0, 1]" "''0.0.0.0'' = v4_string [0, 0, 0, 0]"
  "''169.254.169.254'' = v4_string [169, 254, 169, 254]"
  by code_simp+

lemma v4_not_name: "is_digit c \<or> c = CHR ''.'' \<or> v4_string b \<noteq> c # s"
  using v4_string_chars [of c b] by auto

text \<open>
  With local callbacks off, a callback (which carries an API key) to a host given as an IPv4 address goes out
  exactly when the scheme is http or https and the address is not in 10/8, 172.16/12 or 192.168/16, not the
  metadata service and neither 127.0.0.1 nor 0.0.0.0 (these two for LazyAdmin only); so
  every other address of the loopback network and of the link-local network is let through.
\<close>

theorem callback_v4_hosts:
  assumes "parse raw = Some (scheme, v4_string [a, b, c, d])"
  shows "validateCallbackURLForOrigin parse False sys raw = None \<longleftrightarrow>
    (scheme = ''http'' \<or> scheme = ''https'') \<and>
    (if [a, b, c, d] \<in> {[127, 0, 0, 1], [0, 0, 0, 0]} then fold_key sys = ''lazyadmin''
     else [a, b, c, d] \<noteq> [169, 254, 169, 254] \<and> a \<noteq> 10 \<and> \<not> (a = 192 \<and> b = 168) \<and>
          \<not> (a = 172 \<and> 16 \<le> unat b \<and> unat b \<le> 31))"
proof -
  let ?h = "v4_string [a, b, c, d]"
  have names: "?h \<noteq> ''localhost''" "?h \<noteq> ''::1''" "?h \<noteq> ''[::1]''" "?h \<noteq> ''metadata.google.internal''"
    using v4_not_name [of "CHR ''l''" "[a, b, c, d]"] v4_not_name [of "CHR '':''" "[a, b, c, d]"]
      v4_not_name [of "CHR ''[''" "[a, b, c, d]"] v4_not_name [of "CHR ''m''" "[a, b, c, d]"]
    by (simp_all add: is_digit_def)
  define L where "L \<longleftrightarrow> [a, b, c, d] \<in> {[127, 0, 0, 1], [0, 0, 0, 0]}"
  define M where "M \<longleftrightarrow> [a, b, c, d] = [169, 254, 169, 254]"
  define T where "T \<longleftrightarrow> a = 10"
  define V where "V \<longleftrightarrow> a = 172"
  define W where "W \<longleftrightarrow> a = 192 \<and> b = 168"
  define B where "B \<longleftrightarrow> 16 \<le> unat b \<and> unat b \<le> 31"
  have loop: "isLoopbackHost ?h \<longleftrightarrow> L"
    unfolding isLoopbackHost_def byte_texts(4,5) insert_iff L_def using names v4_string_inj [of a b c d] by simp
  have meta: "?h = ''169.254.169.254'' \<longleftrightarrow> M"
    unfolding byte_texts(6) M_def by (rule v4_string_inj)
  have pre: "has_prefix ''10.'' ?h \<longleftrightarrow> T" "has_prefix ''172.'' ?h \<longleftrightarrow> V" "has_prefix ''192.168.'' ?h \<longleftrightarrow> W"
    unfolding byte_texts(1-3) v4_prefix1 v4_prefix2 T_def V_def W_def by auto
  have oct: "(case second_octet ?h of None \<Rightarrow> False | Some n \<Rightarrow> n \<ge> 16 \<and> n \<le> 31) \<longleftrightarrow> B"
    unfolding second_octet_v4 B_def option.case by linarith
  have "validateCallbackURLForOrigin parse False sys raw = None \<longleftrightarrow>
      (scheme = ''http'' \<or> scheme = ''https'') \<and>
      (if L then fold_key sys = ''lazyadmin'' else \<not> M \<and> \<not> T \<and> \<not> W \<and> \<not> (V \<and> B))"
    unfolding validateCallbackURLForOrigin_def assms option.case prod.case to_lower_v4 Let_def loop meta pre oct
    using names(4) by simp
  then show ?thesis unfolding L_def M_def T_def V_def W_def B_def .
qed

text \<open>The parser of the witness: it knows one URL, of a loopback address no rule covers.\<close>

definition one_url :: url_parser where
  "one_url u = (if u = ''http://127.0.0.2/'' then Some (''http'', v4_string [127, 0, 0, 2]) else None)"

theorem callback_v4_hosts_witness: "validateCallbackURLForOrigin one_url False ''github'' ''http://127.0.0.2/'' = None"
  using callback_v4_hosts [of one_url "''http://127.0.0.2/''" "''http''" 127 0 0 2 "''github''"] by (simp add: one_url_def)

end
