(* ===== verification/Task_Handler.thy ===== *)
theory Task_Handler
  imports Task_Spawner
begin

text \<open>
  \<open>internal/server/http/tasks.go\<close>: the endpoints for tasks, over the store and the executions. The calls of
  one handler on the store are taken together; what a handler reads besides the request are
  the clock, the answers of the database, and fresh identifiers, by number.
\<close>

section \<open>The handler and its requests\<close>

record task_handler =
  webhookSecret :: string
  has_spawner :: bool
  workspaceResolver :: "(string \<Rightarrow> string option) option"

record handler_env =
  henv :: step_env
  uuid :: "nat \<Rightarrow> string"

definition error_json :: "nat \<Rightarrow> string \<Rightarrow> http_response" where
  "error_json code msg = writeJSON code (JObj (f_str ''error'' msg))"

definition id_status :: "agent_task \<Rightarrow> http_response" where
  "id_status t = writeJSON 200 (JObj (f_str ''id'' (ID t) @ f_str ''status'' (t_Status t)))"

definition not_allowed :: http_response where
  "not_allowed = http_Error ''Method not allowed'' 405"

definition publish :: "step_env \<Rightarrow> time \<Rightarrow> string \<Rightarrow> string \<Rightarrow> task_payload \<Rightarrow> task_world \<Rightarrow> task_world" where
  "publish e now ty ws p w = (if has_hub e then w\<lparr>published := published w @ [NewTaskEvent now ty ws p]\<rparr> else w)"

definition payload_of :: "agent_task \<Rightarrow> task_payload" where
  "payload_of t =
     \<lparr>tp_id = ID t, tp_type = TaskType t, Title = t_Title t, tp_status = t_Status t, Severity = [], tp_message = [], tp_session = []\<rparr>"

text \<open>The body of a request is its text, or nothing when it cannot be read.\<close>

definition decode_read ::
  "(members \<Rightarrow> 'a \<times> string option \<Rightarrow> 'a \<times> string option) \<Rightarrow> 'a \<Rightarrow> string option \<Rightarrow> bool + 'a" where
  "decode_read dec zero text = (case text of None \<Rightarrow> Inl False | Some s \<Rightarrow> decode_first dec zero s)"

section \<open>The webhook\<close>

record webhook_trigger =
  wt_Type :: string
  wt_Ref :: string
  wt_Hash :: string
  wt_Timestamp :: string

record webhook_constraints =
  wc_MaxFilesChanged :: int
  wc_MustPassTests :: bool
  wc_Autonomy :: string
  wc_RequireApproval :: "string slice"

record webhook_payload =
  wh_Trigger :: webhook_trigger
  wh_WorkspaceID :: string
  wh_TaskType :: string
  wh_Title :: string
  wh_Description :: string
  wh_Severity :: string
  wh_Labels :: "string slice"
  wh_CaseID :: "int option"
  wh_TaskYAML :: string
  wh_Anchors :: "anchors option"
  wh_Constraints :: "webhook_constraints option"
  wh_Origin :: "task_origin option"
  wh_CaseContext :: "json option"
  wh_Prompt :: string

abbreviation (input) str_field where
  "str_field k v get put x e \<equiv> (let (s, e') = decode_string quiet k v (get x) e in (put s x, e'))"

definition trigger_field :: "string \<Rightarrow> json \<Rightarrow> webhook_trigger \<times> string option \<Rightarrow> webhook_trigger \<times> string option" where
  "trigger_field k v st =
     (let (x, e) = st
      in if k = ''type'' then str_field k v wt_Type (\<lambda>s x. x\<lparr>wt_Type := s\<rparr>) x e
         else if k = ''ref'' then str_field k v wt_Ref (\<lambda>s x. x\<lparr>wt_Ref := s\<rparr>) x e
         else if k = ''hash'' then str_field k v wt_Hash (\<lambda>s x. x\<lparr>wt_Hash := s\<rparr>) x e
         else if k = ''timestamp'' then str_field k v wt_Timestamp (\<lambda>s x. x\<lparr>wt_Timestamp := s\<rparr>) x e
         else (x, e))"

definition list_field :: "json \<Rightarrow> string list \<Rightarrow> string option \<Rightarrow> string list \<times> string option" where
  "list_field v old e = (let (xs, e') = decode_strings v (Some old) e in (case xs of None \<Rightarrow> [] | Some ys \<Rightarrow> ys, e'))"

definition anchors_field :: "string \<Rightarrow> json \<Rightarrow> anchors \<times> string option \<Rightarrow> anchors \<times> string option" where
  "anchors_field k v st =
     (let (x, e) = st
      in if k = ''files'' then (let (fs, e') = list_field v (a_Files x) e in (x\<lparr>a_Files := fs\<rparr>, e'))
         else if k = ''methods'' then (let (ms, e') = list_field v (a_Methods x) e in (x\<lparr>a_Methods := ms\<rparr>, e'))
         else if k = ''keywords'' then (let (ks, e') = list_field v (a_Keywords x) e in (x\<lparr>a_Keywords := ks\<rparr>, e'))
         else (x, e))"

definition constraints_field ::
  "string \<Rightarrow> json \<Rightarrow> webhook_constraints \<times> string option \<Rightarrow> webhook_constraints \<times> string option" where
  "constraints_field k v st =
     (let (x, e) = st
      in if k = ''max_files_changed'' then
           (let (n, e') = decode_int quiet k v (wc_MaxFilesChanged x) e in (x\<lparr>wc_MaxFilesChanged := n\<rparr>, e'))
         else if k = ''must_pass_tests'' then
           (let (b, e') = decode_bool v (wc_MustPassTests x) e in (x\<lparr>wc_MustPassTests := b\<rparr>, e'))
         else if k = ''autonomy'' then str_field k v wc_Autonomy (\<lambda>s x. x\<lparr>wc_Autonomy := s\<rparr>) x e
         else if k = ''require_approval'' then
           (let (xs, e') = decode_strings v (wc_RequireApproval x) e in (x\<lparr>wc_RequireApproval := xs\<rparr>, e'))
         else (x, e))"

definition origin_field :: "string \<Rightarrow> json \<Rightarrow> task_origin \<times> string option \<Rightarrow> task_origin \<times> string option" where
  "origin_field k v st =
     (let (x, e) = st
      in if k = ''system'' then str_field k v System (\<lambda>s x. x\<lparr>System := s\<rparr>) x e
         else if k = ''task_id'' then (let (n, e') = decode_int quiet k v (o_TaskID x) e in (x\<lparr>o_TaskID := n\<rparr>, e'))
         else if k = ''case_id'' then (let (n, e') = decode_int_ptr v (o_CaseID x) e in (x\<lparr>o_CaseID := n\<rparr>, e'))
         else if k = ''url'' then str_field k v URL (\<lambda>s x. x\<lparr>URL := s\<rparr>) x e
         else if k = ''api_key'' then str_field k v APIKey (\<lambda>s x. x\<lparr>APIKey := s\<rparr>) x e
         else (x, e))"

definition no_trigger :: webhook_trigger where
  "no_trigger = \<lparr>wt_Type = [], wt_Ref = [], wt_Hash = [], wt_Timestamp = []\<rparr>"

definition no_constraints :: webhook_constraints where
  "no_constraints = \<lparr>wc_MaxFilesChanged = 0, wc_MustPassTests = False, wc_Autonomy = [], wc_RequireApproval = None\<rparr>"

definition no_origin :: task_origin where
  "no_origin = \<lparr>System = [], o_TaskID = 0, o_CaseID = None, URL = [], APIKey = []\<rparr>"

definition no_anchors :: anchors where
  "no_anchors = \<lparr>a_Files = [], a_Methods = [], a_Keywords = []\<rparr>"

definition no_payload :: webhook_payload where
  "no_payload =
     \<lparr>wh_Trigger = no_trigger, wh_WorkspaceID = [], wh_TaskType = [], wh_Title = [], wh_Description = [], wh_Severity = [],
      wh_Labels = None, wh_CaseID = None, wh_TaskYAML = [], wh_Anchors = None, wh_Constraints = None, wh_Origin = None,
      wh_CaseContext = None, wh_Prompt = []\<rparr>"

definition payload_field :: "string \<Rightarrow> json \<Rightarrow> webhook_payload \<times> string option \<Rightarrow> webhook_payload \<times> string option" where
  "payload_field k v st =
     (let (x, e) = st
      in if k = ''trigger'' then (let (y, e') = decode_struct trigger_field v (wh_Trigger x) e in (x\<lparr>wh_Trigger := y\<rparr>, e'))
         else if k = ''workspace_id'' then str_field k v wh_WorkspaceID (\<lambda>s x. x\<lparr>wh_WorkspaceID := s\<rparr>) x e
         else if k = ''task_type'' then str_field k v wh_TaskType (\<lambda>s x. x\<lparr>wh_TaskType := s\<rparr>) x e
         else if k = ''title'' then str_field k v wh_Title (\<lambda>s x. x\<lparr>wh_Title := s\<rparr>) x e
         else if k = ''description'' then str_field k v wh_Description (\<lambda>s x. x\<lparr>wh_Description := s\<rparr>) x e
         else if k = ''severity'' then str_field k v wh_Severity (\<lambda>s x. x\<lparr>wh_Severity := s\<rparr>) x e
         else if k = ''labels'' then (let (ls, e') = decode_strings v (wh_Labels x) e in (x\<lparr>wh_Labels := ls\<rparr>, e'))
         else if k = ''case_id'' then (let (n, e') = decode_int_ptr v (wh_CaseID x) e in (x\<lparr>wh_CaseID := n\<rparr>, e'))
         else if k = ''task_yaml'' then str_field k v wh_TaskYAML (\<lambda>s x. x\<lparr>wh_TaskYAML := s\<rparr>) x e
         else if k = ''anchors'' then
           (let (a, e') = decode_struct_ptr anchors_field no_anchors v (wh_Anchors x) e in (x\<lparr>wh_Anchors := a\<rparr>, e'))
         else if k = ''constraints'' then
           (let (c, e') = decode_struct_ptr constraints_field no_constraints v (wh_Constraints x) e in (x\<lparr>wh_Constraints := c\<rparr>, e'))
         else if k = ''origin'' then
           (let (d, e') = decode_struct_ptr origin_field no_origin v (wh_Origin x) e in (x\<lparr>wh_Origin := d\<rparr>, e'))
         else if k = ''case_context'' then (x\<lparr>wh_CaseContext := Some v\<rparr>, e)
         else if k = ''prompt'' then str_field k v wh_Prompt (\<lambda>s x. x\<lparr>wh_Prompt := s\<rparr>) x e
         else (x, e))"

definition validateHMAC :: "string \<Rightarrow> string \<Rightarrow> string \<Rightarrow> bool" where
  "validateHMAC secret body signature =
     (trim_prefix ''sha256='' signature = hex_encode (hmac_sha256 secret body))"

text \<open>The case identifier inside a case context; an error of decoding is no identifier.\<close>

definition case_field :: "string \<Rightarrow> json \<Rightarrow> int option \<times> string option \<Rightarrow> int option \<times> string option" where
  "case_field k v st = (let (n, e) = st in if k = ''case_id'' then decode_int_ptr v n e else (n, e))"

definition extractCaseIDFromContext :: "json \<Rightarrow> int option" where
  "extractCaseIDFromContext ctx =
     (case unmarshal_struct quiet (decode_members case_field) None ctx of Inl _ \<Rightarrow> None | Inr n \<Rightarrow> n)"

definition shouldAutoSpawn :: "agent_task \<Rightarrow> bool" where
  "shouldAutoSpawn t = (case Policy t of None \<Rightarrow> True | Some p \<Rightarrow> Autonomy p \<noteq> ''manual'')"

definition webhook_policy :: "bool \<Rightarrow> webhook_constraints option \<Rightarrow> policy" where
  "webhook_policy isInvestigation constraints =
     (if isInvestigation then PlanCasePolicy
      else case constraints of
        Some c \<Rightarrow>
          \<lparr>MaxFilesChanged = wc_MaxFilesChanged c, MaxRounds = 3, MaxDurationMins = 30, MustPassTests = wc_MustPassTests c,
           MustPassBuild = True, Autonomy = wc_Autonomy c,
           RequireApproval = (case wc_RequireApproval c of None \<Rightarrow> [] | Some xs \<Rightarrow> xs), pol_AgentType = ''claude''\<rparr>
      | None \<Rightarrow> DefaultPolicy)"

text \<open>The task a valid payload becomes, in the workspace it resolved to.\<close>

definition webhook_task :: "handler_env \<Rightarrow> string \<Rightarrow> webhook_payload \<Rightarrow> agent_task" where
  "webhook_task h workspaceID p =
     (let e = henv h;
          isInvestigation = (wt_Type (wh_Trigger p) = ''plan_case'');
          caseID = (if isInvestigation then (case wh_CaseContext p of None \<Rightarrow> None | Some c \<Rightarrow> extractCaseIDFromContext c) else None);
          t = NewTask (uuid h 0) (at e 0) workspaceID (if isInvestigation then TaskTypePlanCase else wh_TaskType p)
                (wh_Title p) (wh_Description p)
      in AddTimelineEvent (at e 2) ''created'' ''Task created from webhook'' ''webhook''
           (t\<lparr>CaseID := (if caseID \<noteq> None then caseID else wh_CaseID p),
              TaskYAML := wh_TaskYAML p, Anchors := wh_Anchors p, Prompt := wh_Prompt p, CreatedBy := ''webhook'',
              t_Severity := (if wh_Severity p \<noteq> [] then wh_Severity p else t_Severity t),
              Labels := (case wh_Labels p of None \<Rightarrow> Labels t | Some ls \<Rightarrow> ls),
              Trigger := Some \<lparr>tr_Type = wt_Type (wh_Trigger p), tr_Source = ''lazyadmin'', tr_Ref = wt_Ref (wh_Trigger p),
                               tr_Hash = wt_Hash (wh_Trigger p), tr_Timestamp = at e 1\<rparr>,
              Origin := (case wh_Origin p of
                           None \<Rightarrow> None
                         | Some d \<Rightarrow> Some (if caseID \<noteq> None then d\<lparr>o_CaseID := caseID\<rparr> else d)),
              CaseContext := (if isInvestigation then wh_CaseContext p else None),
              Policy := Some (webhook_policy isInvestigation (wh_Constraints p))\<rparr>))"

text \<open>The checks of a payload that need nothing but the handler: an error, or the payload and its workspace.\<close>

definition check_payload :: "task_handler \<Rightarrow> webhook_payload \<Rightarrow> string + string" where
  "check_payload h p =
     (let isInvestigation = (wt_Type (wh_Trigger p) = ''plan_case'');
          taskType = (if isInvestigation then TaskTypePlanCase else wh_TaskType p)
      in if isInvestigation \<and> wh_CaseContext p = None
         then Inl ''case_context is required and must be valid JSON for plan_case trigger''
         else if wh_Title p = [] \<or> taskType = [] then Inl ''title and task_type are required''
         else if wh_WorkspaceID p = [] then Inl ''workspace_id is required''
         else case workspaceResolver h of
           None \<Rightarrow> Inr (wh_WorkspaceID p)
         | Some resolve \<Rightarrow>
             (case resolve (wh_WorkspaceID p) of
                None \<Rightarrow> Inl (''workspace not found: '' @ wh_WorkspaceID p @ '' (provide a valid workspace ID, name, or path)'')
              | Some ws \<Rightarrow> Inr ws))"

definition signature_error :: "task_handler \<Rightarrow> http_request \<Rightarrow> string \<Rightarrow> string option" where
  "signature_error h r body =
     (if webhookSecret h = [] then None
      else (let signature = header_Get r ''X-Webhook-Signature''
            in if signature = [] then Some ''missing signature''
               else if \<not> validateHMAC (webhookSecret h) body signature then Some ''invalid signature''
               else None))"

text \<open>Of the body at most a megabyte is read; \<open>None\<close> is a body that cannot be read.\<close>

definition webhook_limit :: nat where "webhook_limit = 2 ^ 20"

definition handleWebhook ::
  "handler_env \<Rightarrow> task_handler \<Rightarrow> http_request \<Rightarrow> string option \<Rightarrow> task_world \<Rightarrow> http_response \<times> task_world" where
  "handleWebhook he h r text w =
     (if Method r \<noteq> ''POST'' then (not_allowed, w)
      else case text of
        None \<Rightarrow> (error_json 400 ''failed to read body'', w)
      | Some whole \<Rightarrow>
          (let body = take webhook_limit whole; e = henv he
           in case signature_error h r body of
                Some err \<Rightarrow> (error_json 401 err, w)
              | None \<Rightarrow>
                  (case unmarshal (decode_members payload_field) no_payload body of
                     None \<Rightarrow> (error_json 400 ''invalid JSON payload'', w)
                   | Some p \<Rightarrow>
                       (case check_payload h p of
                          Inl err \<Rightarrow> (error_json 400 err, w)
                        | Inr ws \<Rightarrow>
                            (let t = webhook_task he ws p;
                                 (failed, s) = task_Create (db_ok e 1) t (store w)
                             in if failed \<noteq> None then (error_json 500 ''failed to create task'', w)
                                else (let w1 = publish e (at e 3) ''task_created'' ws
                                            ((payload_of t)\<lparr>Severity := t_Severity t\<rparr>) (w\<lparr>store := s\<rparr>);
                                          (spawned, w2) =
                                            (if has_spawner h \<and> shouldAutoSpawn t
                                             then (case SpawnTask e (ID t) w1 of (err, w') \<Rightarrow> (err = None, w'))
                                             else (False, w1))
                                      in (writeJSON 201 (JObj (f_bool ''auto_spawned'' spawned @ f_str ''id'' (ID t) @
                                                              f_str ''status'' (t_Status t))), w2)))))))"

section \<open>Deciding on tasks\<close>

text \<open>
  Approving and cancelling: load the task, move it to a status, note it in the timeline, save it. An event is published
  for an approval only.
\<close>

definition set_status ::
  "status \<Rightarrow> string \<Rightarrow> string \<Rightarrow> string option \<Rightarrow> handler_env \<Rightarrow> http_request \<Rightarrow> string \<Rightarrow> task_world \<Rightarrow> http_response \<times> task_world"
where
  "set_status target kind msg event he r tid w =
     (if Method r \<noteq> ''POST'' then (not_allowed, w)
      else (let e = henv he
            in case GetByID (db_ok e 0) tid (store w) of
                 None \<Rightarrow> (error_json 404 ''task not found'', w)
               | Some t \<Rightarrow>
                   (case Transition (at e 0) (at e 1) target t of
                      Inl err \<Rightarrow> (error_json 400 (transition_error_text err), w)
                    | Inr t1 \<Rightarrow>
                        (let t2 = AddTimelineEvent (at e 2) kind msg ''user'' t1;
                             (failed, s) = task_Update (db_ok e 1) t2 (store w)
                         in if failed \<noteq> None then (error_json 500 ''failed to update task'', w)
                            else (id_status t2,
                                  (case event of
                                     None \<Rightarrow> w\<lparr>store := s\<rparr>
                                   | Some ty \<Rightarrow> publish e (at e 3) ty (WorkspaceID t2) (payload_of t2) (w\<lparr>store := s\<rparr>)))))))"

definition handleTaskApprove :: "handler_env \<Rightarrow> http_request \<Rightarrow> string \<Rightarrow> task_world \<Rightarrow> http_response \<times> task_world" where
  "handleTaskApprove = set_status StatusCompleted ''approved'' ''Task approved'' (Some ''task_approved'')"

definition handleTaskCancel :: "handler_env \<Rightarrow> http_request \<Rightarrow> string \<Rightarrow> task_world \<Rightarrow> http_response \<times> task_world" where
  "handleTaskCancel = set_status StatusFailed ''cancelled'' ''Task cancelled by user'' None"

definition feedback_field :: "string \<Rightarrow> json \<Rightarrow> string \<times> string option \<Rightarrow> string \<times> string option" where
  "feedback_field k v st = (let (x, e) = st in if k = ''feedback'' then decode_string quiet k v x e else (x, e))"

definition next_revision :: "bool \<Rightarrow> string \<Rightarrow> task_store \<Rightarrow> int" where
  "next_revision ok tid s = (case GetRevisions ok tid s of None \<Rightarrow> 0 | Some rs \<Rightarrow> int (length rs)) + 1"

text \<open>Rejected tasks go back to running; feedback becomes a revision.\<close>

definition reject_task :: "handler_env \<Rightarrow> string \<Rightarrow> string \<Rightarrow> agent_task \<Rightarrow> task_world \<Rightarrow> http_response \<times> task_world" where
  "reject_task he tid feedback t w =
     (let e = henv he
      in case Transition (at e 0) (at e 1) StatusRunning t of
           Inl err \<Rightarrow> (error_json 400 (transition_error_text err), w)
         | Inr t1 \<Rightarrow>
             (let msg = (if feedback \<noteq> [] then ''Task rejected: '' @ feedback else ''Task rejected'');
                  t2 = AddTimelineEvent (at e 2) ''rejected'' msg ''user'' t1;
                  s1 = (if feedback = [] then store w
                        else snd (AddRevision (db_ok e 3)
                               \<lparr>rev_ID = uuid he 0, rev_TaskID = tid, RevisionNo = next_revision (db_ok e 2) tid (store w),
                                Feedback = feedback, ResultSummary = [], rev_CreatedBy = ''user'', rev_CreatedAt = at e 3\<rparr> (store w)));
                  (failed, s2) = task_Update (db_ok e 1) t2 s1
              in if failed \<noteq> None then (error_json 500 ''failed to update task'', w\<lparr>store := s1\<rparr>)
                 else (id_status t2,
                       publish e (at e 4) ''task_rejected'' (WorkspaceID t2)
                         ((payload_of t2)\<lparr>tp_message := feedback\<rparr>) (w\<lparr>store := s2\<rparr>))))"

definition handleTaskReject :: "handler_env \<Rightarrow> http_request \<Rightarrow> string \<Rightarrow> string option \<Rightarrow> task_world \<Rightarrow> http_response \<times> task_world" where
  "handleTaskReject he r tid text w =
     (if Method r \<noteq> ''POST'' then (not_allowed, w)
      else case GetByID (db_ok (henv he) 0) tid (store w) of
        None \<Rightarrow> (error_json 404 ''task not found'', w)
      | Some t \<Rightarrow>
          (case decode_read (decode_members feedback_field) [] text of
             Inl eof \<Rightarrow> if eof then reject_task he tid [] t w else (error_json 400 ''invalid JSON'', w)
           | Inr feedback \<Rightarrow> reject_task he tid feedback t w))"

definition spawnable :: "status \<Rightarrow> bool" where
  "spawnable s \<longleftrightarrow> s = StatusPending \<or> s = StatusFailed \<or> s = StatusStuck"

definition handleTaskSpawn :: "handler_env \<Rightarrow> task_handler \<Rightarrow> http_request \<Rightarrow> string \<Rightarrow> task_world \<Rightarrow> http_response \<times> task_world" where
  "handleTaskSpawn he h r tid w =
     (if Method r \<noteq> ''POST'' then (not_allowed, w)
      else if \<not> has_spawner h then (error_json 503 ''task spawner not configured'', w)
      else (let e = henv he
            in case GetByID (db_ok e 1) tid (store w) of
                 None \<Rightarrow> (error_json 404 ''task not found'', w)
               | Some t \<Rightarrow>
                   if \<not> spawnable (t_Status t)
                   then (error_json 400 (''task cannot be spawned in status: '' @ t_Status t @ '' (must be pending, failed, or stuck)''), w)
                   else (case SpawnTask e tid w of
                           (Some err, w') \<Rightarrow> (error_json 500 (''failed to spawn task: '' @ err), w')
                         | (None, w') \<Rightarrow> (writeJSON 200 (JObj (f_str ''id'' tid @ f_str ''status'' ''spawned'')), w'))))"

section \<open>Revisions and status updates\<close>

record revision_body =
  rb_Feedback :: string
  rb_ResultSummary :: string
  rb_CreatedBy :: string

definition revision_field :: "string \<Rightarrow> json \<Rightarrow> revision_body \<times> string option \<Rightarrow> revision_body \<times> string option" where
  "revision_field k v st =
     (let (x, e) = st
      in if k = ''feedback'' then str_field k v rb_Feedback (\<lambda>s x. x\<lparr>rb_Feedback := s\<rparr>) x e
         else if k = ''result_summary'' then str_field k v rb_ResultSummary (\<lambda>s x. x\<lparr>rb_ResultSummary := s\<rparr>) x e
         else if k = ''created_by'' then str_field k v rb_CreatedBy (\<lambda>s x. x\<lparr>rb_CreatedBy := s\<rparr>) x e
         else (x, e))"

definition revision_json :: "revision \<Rightarrow> json" where
  "revision_json r =
     JObj (f_str ''id'' (rev_ID r) @ f_str ''task_id'' (rev_TaskID r) @ f_int ''revision_no'' (RevisionNo r) @
           f_str ''feedback'' (Feedback r) @ f_str_opt ''result_summary'' (ResultSummary r) @
           f_str ''created_by'' (rev_CreatedBy r) @ f_str ''created_at'' (rfc3339 True 0 (rev_CreatedAt r)))"

definition handleTaskRevisions ::
  "handler_env \<Rightarrow> http_request \<Rightarrow> string \<Rightarrow> string option \<Rightarrow> task_world \<Rightarrow> http_response \<times> task_world" where
  "handleTaskRevisions he r tid text w =
     (let e = henv he
      in if Method r = ''GET'' then
           (case GetRevisions (db_ok e 0) tid (store w) of
              None \<Rightarrow> (error_json 500 ''failed to get revisions'', w)
            | Some rs \<Rightarrow> (writeJSON 200 (JArr (map revision_json rs)), w))
         else if Method r = ''POST'' then
           (case decode_read (decode_members revision_field) \<lparr>rb_Feedback = [], rb_ResultSummary = [], rb_CreatedBy = []\<rparr> text of
              Inl _ \<Rightarrow> (error_json 400 ''invalid JSON'', w)
            | Inr b \<Rightarrow>
                if rb_Feedback b = [] then (error_json 400 ''feedback is required'', w)
                else (let rev = \<lparr>rev_ID = uuid he 0, rev_TaskID = tid, RevisionNo = next_revision (db_ok e 0) tid (store w),
                                 Feedback = rb_Feedback b, ResultSummary = rb_ResultSummary b, rev_CreatedBy = rb_CreatedBy b,
                                 rev_CreatedAt = at e 0\<rparr>
                      in case AddRevision (db_ok e 1) rev (store w) of
                           (Some _, _) \<Rightarrow> (error_json 500 ''failed to add revision'', w)
                         | (None, s) \<Rightarrow>
                             (writeJSON 201 (JObj (f_str ''id'' (rev_ID rev) @ f_int ''revision_no'' (RevisionNo rev))), w\<lparr>store := s\<rparr>)))
         else (not_allowed, w))"

record status_body =
  sb_Status :: string
  sb_VerdictStatus :: string
  sb_VerdictSummary :: string
  sb_DiffContent :: string
  sb_FilesChanged :: "file_change slice"
  sb_RoundsCompleted :: int
  sb_SessionID :: string
  sb_BranchName :: string

definition no_status_body :: status_body where
  "no_status_body =
     \<lparr>sb_Status = [], sb_VerdictStatus = [], sb_VerdictSummary = [], sb_DiffContent = [], sb_FilesChanged = None,
      sb_RoundsCompleted = 0, sb_SessionID = [], sb_BranchName = []\<rparr>"

definition status_field :: "string \<Rightarrow> json \<Rightarrow> status_body \<times> string option \<Rightarrow> status_body \<times> string option" where
  "status_field k v st =
     (let (x, e) = st
      in if k = ''status'' then str_field k v sb_Status (\<lambda>s x. x\<lparr>sb_Status := s\<rparr>) x e
         else if k = ''verdict_status'' then str_field k v sb_VerdictStatus (\<lambda>s x. x\<lparr>sb_VerdictStatus := s\<rparr>) x e
         else if k = ''verdict_summary'' then str_field k v sb_VerdictSummary (\<lambda>s x. x\<lparr>sb_VerdictSummary := s\<rparr>) x e
         else if k = ''diff_content'' then str_field k v sb_DiffContent (\<lambda>s x. x\<lparr>sb_DiffContent := s\<rparr>) x e
         else if k = ''files_changed'' then
           (let (fs, e') = decode_changes v (sb_FilesChanged x) e in (x\<lparr>sb_FilesChanged := fs\<rparr>, e'))
         else if k = ''rounds_completed'' then
           (let (n, e') = decode_int quiet k v (sb_RoundsCompleted x) e in (x\<lparr>sb_RoundsCompleted := n\<rparr>, e'))
         else if k = ''session_id'' then str_field k v sb_SessionID (\<lambda>s x. x\<lparr>sb_SessionID := s\<rparr>) x e
         else if k = ''branch_name'' then str_field k v sb_BranchName (\<lambda>s x. x\<lparr>sb_BranchName := s\<rparr>) x e
         else (x, e))"

definition reported_result :: "status_body \<Rightarrow> task_result option \<Rightarrow> task_result option" where
  "reported_result b old =
     (if sb_VerdictStatus b = [] \<and> sb_VerdictSummary b = [] \<and> sb_DiffContent b = [] \<and> sb_FilesChanged b = None then old
      else (let r = (case old of None \<Rightarrow> empty_result | Some x \<Rightarrow> x)
            in Some (r\<lparr>VerdictStatus := (if sb_VerdictStatus b \<noteq> [] then sb_VerdictStatus b else VerdictStatus r),
                       VerdictSummary := (if sb_VerdictSummary b \<noteq> [] then sb_VerdictSummary b else VerdictSummary r),
                       DiffContent := (if sb_DiffContent b \<noteq> [] then sb_DiffContent b else DiffContent r),
                       FilesChanged := (case sb_FilesChanged b of None \<Rightarrow> FilesChanged r | Some fs \<Rightarrow> fs),
                       RoundsCompleted := (if sb_RoundsCompleted b > 0 then sb_RoundsCompleted b else RoundsCompleted r)\<rparr>)))"

definition status_event :: "status \<Rightarrow> string" where
  "status_event s =
     (if s = StatusRunning then ''task_started''
      else if s = StatusCompleted then ''task_completed''
      else if s = StatusFailed then ''task_failed''
      else ''task_progress'')"

definition handleTaskStatusUpdate ::
  "handler_env \<Rightarrow> http_request \<Rightarrow> string \<Rightarrow> string option \<Rightarrow> task_world \<Rightarrow> http_response \<times> task_world" where
  "handleTaskStatusUpdate he r tid text w =
     (if Method r \<noteq> ''PUT'' then (not_allowed, w)
      else case decode_read (decode_members status_field) no_status_body text of
        Inl _ \<Rightarrow> (error_json 400 ''invalid JSON'', w)
      | Inr b \<Rightarrow>
          if \<not> IsValidStatus (sb_Status b) then (error_json 400 ''invalid status'', w)
          else (let e = henv he
                in case GetByID (db_ok e 0) tid (store w) of
                     None \<Rightarrow> (error_json 404 ''task not found'', w)
                   | Some t \<Rightarrow>
                       (case Transition (at e 0) (at e 1) (sb_Status b) t of
                          Inl err \<Rightarrow> (error_json 400 (transition_error_text err), w)
                        | Inr t1 \<Rightarrow>
                            (let t2 = t1\<lparr>t_Result := reported_result b (t_Result t1),
                                         SessionID := (if sb_SessionID b \<noteq> [] then sb_SessionID b else SessionID t1),
                                         BranchName := (if sb_BranchName b \<noteq> [] then sb_BranchName b else BranchName t1)\<rparr>;
                                 (failed, s) = task_Update (db_ok e 1) t2 (store w)
                             in if failed \<noteq> None then (error_json 500 ''failed to update task'', w)
                                else (id_status t2,
                                      publish e (at e 2) (status_event (sb_Status b)) (WorkspaceID t2)
                                        ((payload_of t2)\<lparr>tp_session := SessionID t2\<rparr>) (w\<lparr>store := s\<rparr>))))))"

section \<open>Reading tasks\<close>

text \<open>The JSON of a task: fields with \<open>omitempty\<close> are left out when zero, the API key of the origin always.\<close>

definition trigger_json :: "task_trigger \<Rightarrow> json" where
  "trigger_json x =
     JObj (f_str ''type'' (tr_Type x) @ f_str_opt ''source'' (tr_Source x) @ f_str_opt ''ref'' (tr_Ref x) @
           f_str_opt ''hash'' (tr_Hash x) @ f_str ''timestamp'' (rfc3339 True 0 (tr_Timestamp x)))"

definition f_strs_opt :: "string \<Rightarrow> string list \<Rightarrow> members" where
  "f_strs_opt k xs = f_slice_opt k (Some (map JStr xs))"

definition anchors_json :: "anchors \<Rightarrow> json" where
  "anchors_json a = JObj (f_strs_opt ''files'' (a_Files a) @ f_strs_opt ''methods'' (a_Methods a) @ f_strs_opt ''keywords'' (a_Keywords a))"

definition policy_json :: "policy \<Rightarrow> json" where
  "policy_json p =
     JObj (f_int ''max_files_changed'' (MaxFilesChanged p) @ f_int ''max_rounds'' (MaxRounds p) @
           f_int ''max_duration_mins'' (MaxDurationMins p) @ f_bool ''must_pass_tests'' (MustPassTests p) @
           f_bool ''must_pass_build'' (MustPassBuild p) @ f_str ''autonomy'' (Autonomy p) @
           [(''require_approval'', JArr (map JStr (RequireApproval p)))] @ f_str ''agent_type'' (pol_AgentType p))"

definition change_json :: "file_change \<Rightarrow> json" where
  "change_json c = JObj (f_str ''path'' (fc_Path c) @ f_int ''lines_added'' (LinesAdded c) @ f_int ''lines_removed'' (LinesRemoved c))"

definition result_json :: "task_result \<Rightarrow> json" where
  "result_json r =
     JObj (f_str ''verdict_status'' (VerdictStatus r) @ f_str ''verdict_summary'' (VerdictSummary r) @
           f_str_opt ''diff_content'' (DiffContent r) @ f_slice_opt ''files_changed'' (Some (map change_json (FilesChanged r))) @
           f_int ''rounds_completed'' (RoundsCompleted r) @ f_bool ''tests_passed'' (TestsPassed r) @
           f_bool ''build_passed'' (BuildPassed r) @ f_str_opt ''pr_url'' (PRUrl r))"

definition timeline_json :: "timeline_event \<Rightarrow> json" where
  "timeline_json x =
     JObj (f_str ''timestamp'' (rfc3339 True 0 (tl_Timestamp x)) @ f_str ''type'' (tl_Type x) @
           f_str ''message'' (tl_Message x) @ f_str ''actor'' (tl_Actor x) @ f_ptr_opt ''data'' (tl_Data x))"

definition origin_json :: "task_origin \<Rightarrow> json" where
  "origin_json d =
     JObj (f_str ''system'' (System d) @ f_int_opt ''task_id'' (o_TaskID d) @
           f_ptr_opt ''case_id'' (map_option (\<lambda>n. JNum (show_int n)) (o_CaseID d)) @ f_str_opt ''url'' (URL d))"

definition task_json :: "agent_task \<Rightarrow> json" where
  "task_json t =
     JObj (f_str ''id'' (ID t) @ f_str ''workspace_id'' (WorkspaceID t) @
           f_ptr_opt ''case_id'' (map_option (\<lambda>n. JNum (show_int n)) (CaseID t)) @ f_str ''task_type'' (TaskType t) @
           f_str ''title'' (t_Title t) @ f_str ''description'' (Description t) @ f_str ''severity'' (t_Severity t) @
           f_strs_opt ''labels'' (Labels t) @ f_str ''status'' (t_Status t) @ f_str ''assignee'' (Assignee t) @
           f_str_opt ''task_yaml'' (TaskYAML t) @ f_ptr_opt ''trigger'' (map_option trigger_json (Trigger t)) @
           f_ptr_opt ''anchors'' (map_option anchors_json (Anchors t)) @ f_ptr_opt ''policy'' (map_option policy_json (Policy t)) @
           f_ptr_opt ''result'' (map_option result_json (t_Result t)) @
           f_slice_opt ''timeline'' (Some (map timeline_json (Timeline t))) @ f_str_opt ''session_id'' (SessionID t) @
           f_str_opt ''branch_name'' (BranchName t) @ f_str_opt ''worktree_path'' (WorktreePath t) @
           f_ptr_opt ''origin'' (map_option origin_json (Origin t)) @ f_ptr_opt ''case_context'' (CaseContext t) @
           f_str_opt ''prompt'' (Prompt t) @ f_str ''created_by'' (CreatedBy t) @
           f_str ''created_at'' (rfc3339 True 0 (t_CreatedAt t)) @
           f_ptr_opt ''started_at'' (map_option (\<lambda>n. JStr (rfc3339 True 0 n)) (StartedAt t)) @
           f_ptr_opt ''completed_at'' (map_option (\<lambda>n. JStr (rfc3339 True 0 n)) (CompletedAt t)))"

text \<open>\<open>q\<close> gives the value of a query parameter, \<open>order\<close> the order in which the database scans its rows.\<close>

definition handleTasks ::
  "handler_env \<Rightarrow> http_request \<Rightarrow> (string \<Rightarrow> string) \<Rightarrow> string list \<Rightarrow> task_world \<Rightarrow> http_response" where
  "handleTasks he r q order w =
     (if Method r \<noteq> ''GET'' then not_allowed
      else (let num = (\<lambda>k. if q k = [] then 0 else case sscan_int (q k) of None \<Rightarrow> 0 | Some n \<Rightarrow> n);
                f = \<lparr>qf_Status = q ''status'', qf_TaskType = q ''task_type'', qf_WorkspaceID = q ''workspace_id'',
                     Limit = num ''limit'', Offset = num ''offset''\<rparr>
            in case task_List (db_ok (henv he) 0) order f (store w) of
                 None \<Rightarrow> error_json 500 ''failed to list tasks''
               | Some ts \<Rightarrow> writeJSON 200 (JObj (f_int ''count'' (int (length ts)) @ [(''tasks'', JArr (map task_json ts))]))))"

definition handleTaskDetail :: "handler_env \<Rightarrow> http_request \<Rightarrow> string \<Rightarrow> task_world \<Rightarrow> http_response" where
  "handleTaskDetail he r tid w =
     (if Method r \<noteq> ''GET'' then not_allowed
      else case GetByID (db_ok (henv he) 0) tid (store w) of
        None \<Rightarrow> error_json 404 ''task not found''
      | Some t \<Rightarrow>
          writeJSON 200 (JObj [(''revisions'',
              JArr (map revision_json (case GetRevisions (db_ok (henv he) 1) tid (store w) of None \<Rightarrow> [] | Some rs \<Rightarrow> rs))),
            (''task'', task_json t)]))"

definition handleTaskStats :: "handler_env \<Rightarrow> http_request \<Rightarrow> task_world \<Rightarrow> http_response" where
  "handleTaskStats he r w =
     (if Method r \<noteq> ''GET'' then not_allowed
      else case CountByStatus (db_ok (henv he) 0) (store w) of
        None \<Rightarrow> error_json 500 ''failed to get stats''
      | Some counts \<Rightarrow> writeJSON 200 (map_json (map (\<lambda>(k, n). (k, JNum (show_int n))) counts)))"

text \<open>The routes, and under them the actions on one task.\<close>

record task_request =
  rq :: http_request
  rq_text :: "string option"
  rq_query :: "string \<Rightarrow> string"

definition handleTaskByID ::
  "handler_env \<Rightarrow> task_handler \<Rightarrow> task_request \<Rightarrow> task_world \<Rightarrow> http_response \<times> task_world" where
  "handleTaskByID he h q w =
     (let r = rq q; path = trim_prefix ''/api/tasks/'' (Path r);
          tid = takeWhile (\<lambda>c. c \<noteq> CHR ''/'') path; rest = dropWhile (\<lambda>c. c \<noteq> CHR ''/'') path; action = tl rest
      in if path = [] \<or> path = ''webhook'' \<or> path = ''stats'' then (\<lparr>Code = 200, Body = Plain []\<rparr>, w)
         else if rest = [] then (handleTaskDetail he r tid w, w)
         else if action = ''approve'' then handleTaskApprove he r tid w
         else if action = ''reject'' then handleTaskReject he r tid (rq_text q) w
         else if action = ''cancel'' then handleTaskCancel he r tid w
         else if action = ''spawn'' then handleTaskSpawn he h r tid w
         else if action = ''revisions'' then handleTaskRevisions he r tid (rq_text q) w
         else if action = ''status'' then handleTaskStatusUpdate he r tid (rq_text q) w
         else (http_Error ''Not found'' 404, w))"

definition serve_tasks ::
  "handler_env \<Rightarrow> task_handler \<Rightarrow> string list \<Rightarrow> task_request \<Rightarrow> task_world \<Rightarrow> http_response \<times> task_world" where
  "serve_tasks he h order q w =
     (let r = rq q
      in if Path r = ''/api/tasks/webhook'' then handleWebhook he h r (rq_text q) w
         else if Path r = ''/api/tasks'' then (handleTasks he r (rq_query q) order w, w)
         else if Path r = ''/api/tasks/stats'' then (handleTaskStats he r w, w)
         else if has_prefix ''/api/tasks/'' (Path r) then handleTaskByID he h q w
         else (http_Error ''404 page not found'' 404, w))"

end
