(* ===== verification/Task_System.thy ===== *)
theory Task_System
  imports Task_Handler
begin

text \<open>
  Tasks as a whole: the endpoints, the executions and restarts of the daemon, in any order and with any answers of
  the outside. An invariant of every stored task and of every copy an execution holds gives what can be
  relied on, however the two interleave.
\<close>

section \<open>The invariant\<close>

definition good :: "agent_task \<Rightarrow> bool" where
  "good t \<longleftrightarrow> lawful t \<and> Policy t \<noteq> None \<and> 8 \<le> length (ID t)"

definition store_ok :: "task_store \<Rightarrow> bool" where
  "store_ok s \<longleftrightarrow> wf_map (agent_tasks s) \<and> (\<forall>k t. mget (agent_tasks s) k = Some t \<longrightarrow> ID t = k \<and> good t)"

definition world_ok :: "task_world \<Rightarrow> bool" where
  "world_ok w \<longleftrightarrow> store_ok (store w) \<and> wf_map (activeTasks w) \<and>
     (\<forall>k x. mget (activeTasks w) k = Some x \<longrightarrow> ID (ex_task x) = k \<and> good (ex_task x)) \<and> \<not> panicked w"

lemma lawful_update [simp]:
  "lawful (t\<lparr>SessionID := a\<rparr>) \<longleftrightarrow> lawful t" "lawful (t\<lparr>t_Result := b\<rparr>) \<longleftrightarrow> lawful t"
  "lawful (t\<lparr>WorktreePath := c\<rparr>) \<longleftrightarrow> lawful t" "lawful (t\<lparr>BranchName := d\<rparr>) \<longleftrightarrow> lawful t"
  by (rule lawful_cong; simp add: changes_def)+

lemma good_update [simp]:
  "good (t\<lparr>SessionID := a\<rparr>) \<longleftrightarrow> good t" "good (t\<lparr>t_Result := b\<rparr>) \<longleftrightarrow> good t"
  "good (t\<lparr>WorktreePath := c\<rparr>) \<longleftrightarrow> good t" "good (t\<lparr>BranchName := d\<rparr>) \<longleftrightarrow> good t"
  "good (t\<lparr>CreatedBy := u, t_CreatedAt := n\<rparr>) \<longleftrightarrow> good t" "good (populateTask t) \<longleftrightarrow> good t"
  "ty \<noteq> ''status_change'' \<Longrightarrow> good (AddTimelineEvent now ty msg actor t) \<longleftrightarrow> good t"
  by (simp_all add: good_def)

lemma good_Transition: "Transition now now' s t = Inr t' \<Longrightarrow> good t \<Longrightarrow> good t'"
  using lawful_Transition Transition_fields by (fastforce simp: good_def)

lemma store_ok_Update:
  assumes "store_ok s" "good t"
  shows "store_ok (snd (task_Update ok t s))"
  using assms by (auto simp: store_ok_def task_Update_def split: option.splits)

lemma store_ok_get: "store_ok s \<Longrightarrow> GetByID ok tid s = Some t \<Longrightarrow> good t \<and> ID t = tid"
  by (auto simp: GetByID_def store_ok_def split: if_splits)

lemma store_ok_AddRevision [simp]: "store_ok (snd (AddRevision ok r s)) \<longleftrightarrow> store_ok s"
  by (simp add: AddRevision_def store_ok_def)

lemma world_ok_store: "world_ok w \<Longrightarrow> store_ok s \<Longrightarrow> world_ok (w\<lparr>store := s\<rparr>)"
  by (simp add: world_ok_def)

lemma world_ok_save: "world_ok w \<Longrightarrow> good t \<Longrightarrow> world_ok (save ok t w)"
  using store_ok_Update by (simp add: world_ok_def save_def)

lemma world_ok_quiet [simp]:
  "world_ok (w\<lparr>published := p\<rparr>) \<longleftrightarrow> world_ok w" "world_ok (w\<lparr>outside := d\<rparr>) \<longleftrightarrow> world_ok w"
  "world_ok (emitEvent e now ty t w) \<longleftrightarrow> world_ok w" "world_ok (publish e now ty ws pl w) \<longleftrightarrow> world_ok w"
  "world_ok (cleanup_worktree path w) \<longleftrightarrow> world_ok w" "world_ok (fireCallback url t st ys w) \<longleftrightarrow> world_ok w"
  by (simp_all add: world_ok_def emitEvent_def publish_def cleanup_worktree_def fireCallback_def)

lemma world_ok_ends: "world_ok w \<Longrightarrow> world_ok (ends tid w)"
  by (simp add: world_ok_def ends_def)

lemma world_ok_goes_on: "world_ok w \<Longrightarrow> good t \<Longrightarrow> world_ok (goes_on sg m t w)"
  by (simp add: world_ok_def goes_on_def)

lemma persist_ok:
  assumes "good t" "world_ok w"
  shows "good (fst (persistResolvedSessionID e n t w)) \<and> world_ok (snd (persistResolvedSessionID e n t w))"
  using assms by (auto simp: persistResolvedSessionID_def Let_def intro: world_ok_save split: option.split)

lemma persist_fields [simp]:
  "ID (fst (persistResolvedSessionID e n t w)) = ID t" "t_Status (fst (persistResolvedSessionID e n t w)) = t_Status t"
  "Policy (fst (persistResolvedSessionID e n t w)) = Policy t"
  by (simp_all add: persistResolvedSessionID_def Let_def split: option.split)

lemma fail_ok:
  assumes "good t" "world_ok w"
  shows "good (fst (failTask e n reason t w)) \<and> world_ok (snd (failTask e n reason t w))"
proof -
  obtain t0 w0 where p: "persistResolvedSessionID e n t w = (t0, w0)" by fastforce
  then have ok: "good t0" "world_ok w0" using persist_ok [OF assms, of e n] by auto
  show ?thesis
  proof (cases "Transition (at e (n + 1)) (at e (n + 2)) StatusFailed t0")
    case (Inl err)
    then show ?thesis using ok p by (simp add: failTask_def)
  next
    case (Inr t1)
    then have "good t1" using good_Transition ok(1) by blast
    then show ?thesis using ok p Inr by (simp add: failTask_def Let_def world_ok_save)
  qed
qed

lemmas world_ok_intros = world_ok_ends world_ok_goes_on world_ok_save world_ok_store fail_ok [THEN conjunct2]

section \<open>Executions keep it\<close>

lemma begins_ok: "world_ok w \<Longrightarrow> good (ex_task x) \<Longrightarrow> world_ok (execution_begins e x w)"
  by (auto simp: execution_begins_def Let_def split: sum.splits intro!: world_ok_intros dest: good_Transition)

lemma createWorktree_total: "good t \<Longrightarrow> createWorktree we t \<noteq> None"
  by (auto simp: createWorktree_def good_def Let_def split: option.splits sum.splits)

lemma worktree_ok:
  assumes "world_ok w" "good (ex_task x)" "made \<noteq> None"
  shows "world_ok (execute_worktree e made x w)" "world_ok (plan_worktree e err made x w)"
  using assms
  by (auto simp: execute_worktree_def plan_worktree_def Let_def split: sum.splits option.splits
      intro!: world_ok_intros)

lemma start_ok:
  assumes "world_ok w" "good (ex_task x)"
  shows "world_ok (execute_start e st x w)" "world_ok (plan_start e st x w)"
  using assms
  by (auto simp: execute_start_def plan_start_def Let_def split: sum.splits
      intro!: world_ok_intros)

lemma await_ok:
  assumes "world_ok w" "good t"
  shows "world_ok (await_approval e result t w)"
proof (cases "Transition (at e 2) (at e 3) StatusValidating t")
  case (Inr t1)
  then have t1: "good t1" using good_Transition assms(2) by blast
  show ?thesis
  proof (cases "Transition (at e 5) (at e 6) StatusAwaitingApproval (AddTimelineEvent (at e 4) ''validating'' ''Validating agent results'' ''system'' t1)")
    case (Inr t3)
    moreover from this have "good t3" by (rule good_Transition) (simp add: t1)
    ultimately show ?thesis using assms(1) t1 \<open>Transition (at e 2) (at e 3) StatusValidating t = Inr t1\<close>
      by (auto simp: await_approval_def Let_def intro!: world_ok_intros)
  qed (use Inr t1 assms in \<open>auto simp: await_approval_def Let_def intro!: world_ok_intros\<close>)
qed (simp add: await_approval_def assms)

lemma finish_ok:
  assumes "world_ok w" "good (ex_task x)"
  shows "world_ok (execute_finish e r x w)"
proof -
  obtain t w0 where p: "persistResolvedSessionID e 0 (ex_task x) w = (t, w0)" by fastforce
  then have ok: "good t" "world_ok w0" using persist_ok [OF assms(2,1), of e 0] by auto
  then obtain pol where pol: "Policy t = Some pol" by (auto simp: good_def)
  show ?thesis using ok pol p
    by (auto simp: execute_finish_def Let_def intro!: world_ok_intros await_ok)
qed

lemma plan_complete_ok:
  assumes "world_ok w" "good t"
  shows "world_ok (plan_complete e u ys t w)"
  using assms
  by (auto simp: plan_complete_def Let_def split: sum.splits intro!: world_ok_intros fail_ok [THEN conjunct2]
      dest: good_Transition)

lemma plan_finish_ok:
  assumes "world_ok w" "good (ex_task x)"
  shows "world_ok (plan_finish e u r x w)"
proof -
  obtain t w0 where p: "persistResolvedSessionID e 0 (ex_task x) w = (t, w0)" by fastforce
  then have ok: "good t" "world_ok w0" using persist_ok [OF assms(2,1), of e 0] by auto
  show ?thesis using ok p
    by (auto simp: plan_finish_def Let_def case_prod_unfold intro!: world_ok_intros plan_complete_ok)
qed

lemma advance_ok:
  assumes "world_ok w"
  shows "world_ok (advance e a tid w)"
proof (cases "mget (activeTasks w) tid")
  case (Some x)
  then have "good (ex_task x)" using assms by (auto simp: world_ok_def)
  then show ?thesis
    using Some assms createWorktree_total [of "ex_task x" "wenv a"]
    by (cases "ex_stage x") (auto simp: advance_def execution_step_def Let_def
        intro: begins_ok worktree_ok start_ok finish_ok plan_finish_ok)
qed (simp add: advance_def assms)

section \<open>The endpoints keep it\<close>

lemma spawn_ok: "world_ok w \<Longrightarrow> world_ok (snd (SpawnTask e tid w))"
  using store_ok_get by (auto simp: SpawnTask_def world_ok_def goes_on_def split: option.split)

lemma good_webhook_task:
  assumes "\<And>n. 8 \<le> length (uuid he n)"
  shows "good (webhook_task he ws p)"
proof -
  let ?t = "NewTask (uuid he 0) (at (henv he) 0) ws (if wt_Type (wh_Trigger p) = ''plan_case'' then TaskTypePlanCase else wh_TaskType p)
              (wh_Title p) (wh_Description p)"
  have "lawful (webhook_task he ws p) \<longleftrightarrow> lawful ?t"
    by (rule lawful_cong) (simp_all add: webhook_task_def Let_def changes_def AddTimelineEvent_def NewTimelineEvent_def NewTask_def)
  then have "lawful (webhook_task he ws p)" by simp
  moreover have "Policy (webhook_task he ws p) \<noteq> None" "ID (webhook_task he ws p) = uuid he 0"
    by (simp_all add: webhook_task_def Let_def AddTimelineEvent_def NewTask_def)
  ultimately show ?thesis using assms by (simp add: good_def)
qed

lemma store_ok_Create:
  assumes "store_ok s" "good t" "task_Create ok t s = (None, s')"
  shows "store_ok s'"
proof -
  have "mget (agent_tasks s) (ID t) = None" "agent_tasks s' = agent_tasks s @ [(ID t, t)]"
    using assms(3) by (auto simp: task_Create_def mem_key_def split: if_splits)
  moreover from this(1) have "ID t \<notin> fst ` set (agent_tasks s)" by (simp add: keys_mget)
  ultimately show ?thesis
    using assms(1,2) by (auto simp: store_ok_def wf_map_def map_add_def split: option.splits if_splits)
qed

lemma webhook_ok:
  assumes "world_ok w" "\<And>n. 8 \<le> length (uuid he n)"
  shows "world_ok (snd (handleWebhook he h r text w))"
proof -
  have "world_ok (w\<lparr>store := s\<rparr>)" if "task_Create ok (webhook_task he ws p) (store w) = (None, s)" for ok ws p s
    using store_ok_Create [OF _ good_webhook_task that] assms by (simp add: world_ok_def)
  then show ?thesis
    using assms(1) by (auto simp: handleWebhook_def Let_def case_prod_unfold prod_eq_iff split: option.splits sum.splits intro!: spawn_ok)
qed

lemma set_status_ok:
  assumes "world_ok w" "kind \<noteq> ''status_change''"
  shows "world_ok (snd (set_status target kind msg ev he r tid w))"
proof -
  have "store_ok (snd (task_Update ok (AddTimelineEvent n kind msg ''user'' t1) (store w)))"
    if "GetByID ok' tid (store w) = Some t" "Transition m m' target t = Inr t1" for ok ok' n m m' t t1
    using assms that store_ok_get good_Transition by (intro store_ok_Update) (auto simp: world_ok_def)
  then show ?thesis
    using assms(1) by (auto simp: set_status_def Let_def case_prod_unfold split: option.splits sum.splits intro!: world_ok_store)
qed

lemma get_transition_good:
  "world_ok w \<Longrightarrow> GetByID ok tid (store w) = Some t \<Longrightarrow> Transition m m' target t = Inr t1 \<Longrightarrow> good t1"
  using store_ok_get good_Transition by (auto simp: world_ok_def)

lemma world_ok_update: "world_ok w \<Longrightarrow> store_ok s \<Longrightarrow> good u \<Longrightarrow> world_ok (w\<lparr>store := snd (task_Update ok u s)\<rparr>)"
  using store_ok_Update by (simp add: world_ok_def)

lemma if_both: "P x \<Longrightarrow> P y \<Longrightarrow> P (if b then x else y)"
  by simp

lemma reject_task_ok:
  assumes "world_ok w" "good t"
  shows "world_ok (snd (reject_task he tid feedback t w))"
proof (cases "Transition (at (henv he) 0) (at (henv he) 1) StatusRunning t")
  case (Inr t1)
  then have t1: "good t1" using good_Transition assms(2) by blast
  have st: "store_ok (store w)" using assms by (simp add: world_ok_def)
  then have s: "store_ok (if feedback = [] then store w else snd (AddRevision ok rv (store w)))" for ok rv by simp
  show ?thesis
    unfolding reject_task_def Let_def case_prod_unfold Inr sum.case snd_conv if_distrib [of snd]
    by (intro if_both [where P = world_ok] world_ok_store s assms) (simp add: world_ok_update assms s t1)
qed (simp add: reject_task_def assms)

lemma reject_ok:
  assumes "world_ok w"
  shows "world_ok (snd (handleTaskReject he r tid text w))"
proof -
  have "good t" if "GetByID ok tid (store w) = Some t" for ok t
    using that assms store_ok_get by (auto simp: world_ok_def)
  then show ?thesis
    using assms by (auto simp: handleTaskReject_def split: option.split sum.split intro: reject_task_ok)
qed

lemma spawn_handler_ok: "world_ok w \<Longrightarrow> world_ok (snd (handleTaskSpawn he h r tid w))"
  using spawn_ok [of w "henv he" tid]
  unfolding handleTaskSpawn_def Let_def
  by (cases "SpawnTask (henv he) tid w"; cases "fst (SpawnTask (henv he) tid w)"; cases "GetByID (db_ok (henv he) 1) tid (store w)") simp_all

lemma revisions_ok: "world_ok w \<Longrightarrow> world_ok (snd (handleTaskRevisions he r tid text w))"
proof -
  assume w: "world_ok w"
  have "world_ok (w\<lparr>store := s\<rparr>)" if "AddRevision ok rv (store w) = (f, s)" for ok rv f s
    using store_ok_AddRevision [of ok rv "store w"] that w by (simp add: world_ok_def)
  then show ?thesis using w by (auto simp: handleTaskRevisions_def Let_def split: option.splits sum.splits prod.splits)
qed

lemma status_update_ok:
  assumes "world_ok w"
  shows "world_ok (snd (handleTaskStatusUpdate he r tid text w))"
proof -
  have "store_ok (store w)" using assms by (simp add: world_ok_def)
  note upd = world_ok_update [OF assms this]
  show ?thesis
    using assms
    by (auto simp: handleTaskStatusUpdate_def Let_def case_prod_unfold split: option.splits sum.splits
        intro!: upd intro: get_transition_good [OF assms])
qed

lemma serve_ok:
  assumes "world_ok w" "\<And>n. 8 \<le> length (uuid he n)"
  shows "world_ok (snd (serve_tasks he h order q w))"
proof -
  have "world_ok (snd (handleTaskByID he h q w))"
    unfolding handleTaskByID_def Let_def handleTaskApprove_def handleTaskCancel_def
    by (intro if_both [where P = "\<lambda>r. world_ok (snd r)"])
       (simp_all add: assms(1) set_status_ok reject_ok spawn_handler_ok revisions_ok status_update_ok)
  then show ?thesis
    unfolding serve_tasks_def Let_def
    by (intro if_both [where P = "\<lambda>r. world_ok (snd r)"]) (simp_all add: assms webhook_ok)
qed

definition rename_session :: "string \<Rightarrow> string \<Rightarrow> agent_task \<Rightarrow> agent_task" where
  "rename_session a b t = (if SessionID t = a then t\<lparr>SessionID := b\<rparr> else t)"

lemma rename_session_good [simp]: "good (rename_session a b t) \<longleftrightarrow> good t" "ID (rename_session a b t) = ID t"
  by (simp_all add: rename_session_def)

lemma mget_map_rows: "mget (map (\<lambda>(k, t). (k, f t)) m) k = map_option f (mget m k)"
  by (induction m) auto

lemma keys_map_rows: "map fst (map (\<lambda>(k, t). (k, f t)) m) = map fst m"
  by (induction m) auto

lemma replace_rows:
  "snd (ReplaceSessionID ok a b s) = s \<or>
   snd (ReplaceSessionID ok a b s) = s\<lparr>agent_tasks := map (\<lambda>(k, t). (k, rename_session a b t)) (agent_tasks s)\<rparr>"
  unfolding ReplaceSessionID_def rename_session_def by simp

lemma replace_ok:
  assumes "world_ok w"
  shows "world_ok (w\<lparr>store := snd (ReplaceSessionID ok a b (store w))\<rparr>)"
proof -
  have s: "store_ok (store w)" using assms by (simp add: world_ok_def)
  have "store_ok (store w\<lparr>agent_tasks := map (\<lambda>(k, t). (k, rename_session a b t)) (agent_tasks (store w))\<rparr>)"
    unfolding store_ok_def
  proof (intro conjI allI impI)
    show "wf_map (agent_tasks (store w\<lparr>agent_tasks := map (\<lambda>(k, t). (k, rename_session a b t)) (agent_tasks (store w))\<rparr>))"
      using s by (simp add: store_ok_def wf_map_def keys_map_rows del: map_map)
    fix k t
    assume "mget (agent_tasks (store w\<lparr>agent_tasks := map (\<lambda>(k, t). (k, rename_session a b t)) (agent_tasks (store w))\<rparr>)) k = Some t"
    then obtain t0 where "mget (agent_tasks (store w)) k = Some t0" "t = rename_session a b t0"
      by (auto simp: mget_map_rows)
    then show "ID t = k" "good t" using s by (auto simp: store_ok_def)
  qed
  then have "store_ok (snd (ReplaceSessionID ok a b (store w)))"
    using replace_rows [of ok a b "store w"] s by metis
  then show ?thesis using assms by (rule world_ok_store [rotated])
qed

section \<open>Everything that happens\<close>

text \<open>
  The requests, the stretches of executions, the renaming of sessions and restarts, which keep the store and forget the
  executions. Fresh identifiers have at least eight characters.
\<close>

inductive task_reach :: "task_handler \<Rightarrow> task_world \<Rightarrow> bool" for h :: task_handler where
  fresh: "\<lbrakk>agent_tasks (store w) = []; activeTasks w = []; \<not> panicked w\<rbrakk> \<Longrightarrow> task_reach h w"
| served: "\<lbrakk>task_reach h w; \<And>n. 8 \<le> length (uuid he n)\<rbrakk> \<Longrightarrow> task_reach h (snd (serve_tasks he h order q w))"
| advanced: "task_reach h w \<Longrightarrow> task_reach h (advance e a tid w)"
| renamed: "task_reach h w \<Longrightarrow> task_reach h (w\<lparr>store := snd (ReplaceSessionID ok old new (store w))\<rparr>)"
| restarted: "task_reach h w \<Longrightarrow> task_reach h (w\<lparr>activeTasks := []\<rparr>)"

lemma reach_ok: "task_reach h w \<Longrightarrow> world_ok w"
proof (induction rule: task_reach.induct)
  case (fresh w)
  then show ?case by (simp add: world_ok_def store_ok_def)
next
  case (served w he order q)
  then show ?case using serve_ok by blast
next
  case (advanced w e a tid)
  then show ?case using advance_ok by blast
next
  case (renamed w ok old new)
  then show ?case using replace_ok by blast
next
  case (restarted w)
  then show ?case by (simp add: world_ok_def)
qed

text \<open>
  C4: A task is completed only after it ran and its results were validated: whatever requests, executions, renamings
  and restarts happened, in any order and with any failures of the database, git and the sessions, a stored
  task with status completed has both instants set, and the changes of status its timeline records are a
  walk of the state machine from pending whose last step is the one to completed, from validating or from
  awaiting approval, after steps to running and to validating; and no execution has panicked.
\<close>

theorem completed_after_validation:
  assumes "task_reach h w" "GetByID ok tid (store w) = Some t" "t_Status t = StatusCompleted"
  shows "StartedAt t \<noteq> None \<and> CompletedAt t \<noteq> None \<and> \<not> panicked w \<and>
    (\<exists>q s. changes t = map (\<lambda>(a, b). change_message a b) (q @ [(s, StatusCompleted)]) \<and>
       walk StatusPending q s \<and> s \<in> {StatusValidating, StatusAwaitingApproval} \<and>
       StatusRunning \<in> targets q \<and> StatusValidating \<in> targets q)"
proof -
  have ok: "world_ok w" by (rule reach_ok [OF assms(1)])
  then have "good t" using store_ok_get assms(2) by (auto simp: world_ok_def)
  then have "lawful t" by (simp add: good_def)
  from lawful_completed [OF this assms(3)] show ?thesis using ok unfolding world_ok_def by metis
qed

text \<open>A task from a webhook that is reported to run and to be validated, and is then approved.\<close>

definition demo_step :: step_env where
  "demo_step = \<lparr>at = (\<lambda>_. 0), db_ok = (\<lambda>_. True), has_hub = False, resolves = None, can_stop = False, git_removes = True\<rparr>"

definition demo_henv :: handler_env where
  "demo_henv = \<lparr>henv = demo_step, uuid = (\<lambda>_. ''00000000-t'')\<rparr>"

definition demo_handler :: task_handler where
  "demo_handler = \<lparr>webhookSecret = [], has_spawner = False, workspaceResolver = None\<rparr>"

definition demo_world :: task_world where
  "demo_world =
     \<lparr>store = \<lparr>agent_tasks = [], agent_task_revisions = []\<rparr>, activeTasks = [], published = [], outside = [], panicked = False\<rparr>"

definition demo_request :: "string \<Rightarrow> string \<Rightarrow> string \<Rightarrow> task_request" where
  "demo_request meth path body =
     \<lparr>rq = \<lparr>Method = meth, Path = path, RemoteAddr = [], Header = [], has_TLS = False\<rparr>, rq_text = Some body,
      rq_query = (\<lambda>_. [])\<rparr>"

definition demo_serve :: "string \<Rightarrow> string \<Rightarrow> string \<Rightarrow> task_world \<Rightarrow> task_world" where
  "demo_serve meth path body w = snd (serve_tasks demo_henv demo_handler [] (demo_request meth path body) w)"

definition demo_body :: string where
  "demo_body = json_print (JObj [(''title'', JStr ''Fix''), (''task_type'', JStr ''fix-issue''), (''workspace_id'', JStr ''ws'')])"

definition demo_payload :: webhook_payload where
  "demo_payload = no_payload\<lparr>wh_Title := ''Fix'', wh_TaskType := ''fix-issue'', wh_WorkspaceID := ''ws''\<rparr>"

definition demo_task :: agent_task where
  "demo_task = webhook_task demo_henv ''ws'' demo_payload"

definition demo_created :: task_world where
  "demo_created = demo_world\<lparr>store := \<lparr>agent_tasks = [(''00000000-t'', demo_task)], agent_task_revisions = []\<rparr>\<rparr>"

lemma demo_parts [simp]:
  "henv demo_henv = demo_step" "uuid demo_henv n = ''00000000-t''" "db_ok demo_step n" "at demo_step n = 0"
  "\<not> has_hub demo_step" "webhookSecret demo_handler = []" "\<not> has_spawner demo_handler"
  by (simp_all add: demo_henv_def demo_step_def demo_handler_def)

lemma demo_webhook: "demo_serve ''POST'' ''/api/tasks/webhook'' demo_body demo_world = demo_created"
proof -
  have "length demo_body \<le> 200" by code_simp
  then have "take webhook_limit demo_body = demo_body" by (simp add: webhook_limit_def)
  moreover have "unmarshal (decode_members payload_field) no_payload demo_body = Some demo_payload" by code_simp
  moreover have "check_payload demo_handler demo_payload = Inr ''ws''" by code_simp
  moreover have "ID demo_task = ''00000000-t''" by code_simp
  ultimately show ?thesis
    unfolding demo_serve_def serve_tasks_def
    by (simp add: demo_request_def handleWebhook_def signature_error_def task_Create_def mem_key_def publish_def Let_def
        demo_created_def demo_world_def flip: demo_task_def)
qed

lemma demo_serve_reach: "task_reach demo_handler w \<Longrightarrow> task_reach demo_handler (demo_serve meth path body w)"
  unfolding demo_serve_def by (rule served) simp_all

lemma demo_created_reach: "task_reach demo_handler demo_created"
  unfolding demo_webhook [symmetric] by (intro demo_serve_reach fresh) (simp_all add: demo_world_def)

definition demo_status :: "status \<Rightarrow> string" where
  "demo_status s = json_print (JObj [(''status'', JStr s)])"

definition demo_done :: task_world where
  "demo_done =
     demo_serve ''POST'' ''/api/tasks/00000000-t/approve'' []
       (demo_serve ''PUT'' ''/api/tasks/00000000-t/status'' (demo_status StatusValidating)
         (demo_serve ''PUT'' ''/api/tasks/00000000-t/status'' (demo_status StatusRunning) demo_created))"

lemma demo_done_reach: "task_reach demo_handler demo_done"
  unfolding demo_done_def by (intro demo_serve_reach demo_created_reach)

theorem completed_after_validation_witness:
  "\<exists>t. GetByID True ''00000000-t'' (store demo_done) = Some t \<and> t_Status t = StatusCompleted \<and> StartedAt t \<noteq> None"
proof -
  have "map_option t_Status (GetByID True ''00000000-t'' (store demo_done)) = Some StatusCompleted" by code_simp
  then obtain t where t: "GetByID True ''00000000-t'' (store demo_done) = Some t" "t_Status t = StatusCompleted" by auto
  from completed_after_validation [OF demo_done_reach t] t show ?thesis by blast
qed

section \<open>The end of an execution overrides what happened meanwhile\<close>

definition row_status :: "string \<Rightarrow> task_world \<Rightarrow> status option" where
  "row_status tid w = map_option t_Status (mget (agent_tasks (store w)) tid)"

lemma row_status_get: "row_status tid w = Some st \<longleftrightarrow> (\<exists>t. GetByID True tid (store w) = Some t \<and> t_Status t = st)"
  by (auto simp: row_status_def GetByID_def)

lemma row_status_quiet [simp]:
  "row_status tid (emitEvent e now ty t w) = row_status tid w" "row_status tid (ends k w) = row_status tid w"
  "row_status tid (cleanup_worktree path w) = row_status tid w" "row_status tid (goes_on st m t w) = row_status tid w"
  "row_status tid (fireCallback url t rep ys w) = row_status tid w" "row_status tid (w\<lparr>outside := d\<rparr>) = row_status tid w"
  by (simp_all add: row_status_def emitEvent_def ends_def cleanup_worktree_def goes_on_def fireCallback_def)

lemma row_status_save [simp]:
  "row_status tid (save ok t w) = (if ok \<and> tid = ID t \<and> row_status tid w \<noteq> None then Some (t_Status t) else row_status tid w)"
  by (auto simp: row_status_def save_def task_Update_def split: option.split)

lemma row_status_persist:
  assumes "t_Status t = st" "row_status (ID t) w \<noteq> None"
  shows "row_status (ID t) (snd (persistResolvedSessionID e n t w)) \<noteq> None"
  using assms by (simp add: persistResolvedSessionID_def Let_def split: option.split)

lemma can_transition [simp]:
  "CanTransitionTo StatusRunning StatusFailed" "CanTransitionTo StatusRunning StatusValidating"
  "CanTransitionTo StatusValidating StatusAwaitingApproval"
  "CanTransitionTo StatusValidating StatusCompleted"
  by (simp_all add: CanTransitionTo_iff)

lemma Transition_ok:
  "CanTransitionTo (t_Status t) s \<Longrightarrow> \<exists>t'. Transition now now' s t = Inr t' \<and> t_Status t' = s \<and> ID t' = ID t"
  using Transition_fields by (metis Transition_iff)

lemma fail_status:
  assumes "t_Status t = StatusRunning" "row_status (ID t) w \<noteq> None" "\<And>n. db_ok e n"
  shows "row_status (ID t) (snd (failTask e n reason t w)) = Some StatusFailed"
proof -
  obtain t0 w0 where p: "persistResolvedSessionID e n t w = (t0, w0)" by fastforce
  have t0: "t_Status t0 = StatusRunning" "ID t0 = ID t"
    using persist_fields [of e n t w] p assms(1) by simp_all
  obtain t1 where "Transition (at e (n + 1)) (at e (n + 2)) StatusFailed t0 = Inr t1" "t_Status t1 = StatusFailed" "ID t1 = ID t"
    using Transition_ok [of t0 StatusFailed] t0 by auto
  moreover have "row_status (ID t) w0 \<noteq> None" using row_status_persist [OF assms(1,2), of e n] p by simp
  ultimately show ?thesis using p assms(3) by (simp add: failTask_def Let_def)
qed

lemma await_status:
  assumes "t_Status t = StatusRunning" "row_status (ID t) w \<noteq> None" "\<And>n. db_ok e n"
  shows "row_status (ID t) (await_approval e result t w) = Some StatusAwaitingApproval"
proof -
  obtain t1 where t1: "Transition (at e 2) (at e 3) StatusValidating t = Inr t1" "t_Status t1 = StatusValidating" "ID t1 = ID t"
    using Transition_ok [of t StatusValidating] assms(1) by auto
  let ?t2 = "AddTimelineEvent (at e 4) ''validating'' ''Validating agent results'' ''system'' t1"
  obtain t3 where "Transition (at e 5) (at e 6) StatusAwaitingApproval ?t2 = Inr t3" "t_Status t3 = StatusAwaitingApproval" "ID t3 = ID t"
    using Transition_ok [of ?t2 StatusAwaitingApproval] t1 by auto
  then show ?thesis using t1 assms by (simp add: await_approval_def Let_def)
qed

lemma plan_status:
  assumes "t_Status t = StatusRunning" "row_status (ID t) w \<noteq> None" "\<And>n. db_ok e n"
  shows "row_status (ID t) (plan_complete e url yamls t w) = Some StatusCompleted"
proof -
  obtain t1 where t1: "Transition (at e 2) (at e 3) StatusValidating t = Inr t1" "t_Status t1 = StatusValidating" "ID t1 = ID t"
    using Transition_ok [of t StatusValidating] assms(1) by auto
  moreover obtain t2 where "Transition (at e 4) (at e 5) StatusCompleted t1 = Inr t2" "t_Status t2 = StatusCompleted" "ID t2 = ID t"
    using Transition_ok [of t1 StatusCompleted] t1 by auto
  ultimately show ?thesis using assms by (simp add: plan_complete_def Let_def)
qed

lemma ends_gone [simp]: "mget (activeTasks (ends tid w)) tid = None"
  by (simp add: ends_def)

text \<open>
  C18: When the session of an execution ends and the database can be written, the end decides the status of the
  task, whatever was done to the stored task meanwhile: whether the row says running, failed (after a
  cancel), completed (after an approval) or anything else, it becomes failed when the wait ran into the
  deadline or the session ended in error or was stopped; in every other case, a cancelled wait among them,
  a plan case becomes completed and any other task awaiting approval; and the execution is over.
\<close>

theorem finish_decides_status:
  assumes "task_reach h w" "mget (activeTasks w) tid = Some x" "ex_stage x = Waiting"
    "t_Status (ex_task x) = StatusRunning" "row_status tid w = Some any" "\<And>n. db_ok e n"
  shows "row_status tid (advance e a tid w) =
      Some (if timed_out (session a) \<or> failed_state (session a) then StatusFailed
            else if IsPlanCase (ex_task x) then StatusCompleted else StatusAwaitingApproval) \<and>
    mget (activeTasks (advance e a tid w)) tid = None"
proof -
  have g: "good (ex_task x)" "ID (ex_task x) = tid"
    using reach_ok [OF assms(1)] assms(2) by (auto simp: world_ok_def)
  obtain t w0 where p: "persistResolvedSessionID e 0 (ex_task x) w = (t, w0)" by fastforce
  have t: "t_Status t = StatusRunning" "ID t = tid" "Policy t \<noteq> None" "row_status tid w0 \<noteq> None"
    using persist_fields [of e 0 "ex_task x" w] row_status_persist [of "ex_task x" StatusRunning w e 0] p g assms(4,5)
    by (auto simp: good_def)
  have fail: "row_status tid (snd (failTask e n reason u v)) = Some StatusFailed"
    if "t_Status u = StatusRunning" "ID u = tid" "row_status tid v \<noteq> None" for n reason u v
    using fail_status [of u v e n reason] that assms(6) by simp
  have await: "row_status tid (await_approval e result u v) = Some StatusAwaitingApproval"
    if "t_Status u = StatusRunning" "ID u = tid" "row_status tid v \<noteq> None" for result u v
    using await_status [of u v e result] that assms(6) by simp
  have plan: "row_status tid (plan_complete e url yamls u v) = Some StatusCompleted"
    if "t_Status u = StatusRunning" "ID u = tid" "row_status tid v \<noteq> None" for url yamls u v
    using plan_status [of u v e url yamls] that assms(6) by simp
  show ?thesis
  proof (cases "IsPlanCase (ex_task x)")
    case True
    then have adv: "advance e a tid w = plan_finish e (url_ok a) (session a) x w"
      using assms(2,3) by (simp add: advance_def execution_step_def)
    show ?thesis
      unfolding adv plan_finish_def p Let_def prod.case
      using t True assms(6) by (auto simp: split_beta fail plan)
  next
    case False
    then have adv: "advance e a tid w = execute_finish e (session a) x w"
      using assms(2,3) by (simp add: advance_def execution_step_def)
    show ?thesis
      unfolding adv execute_finish_def p Let_def prod.case
      using t False assms(6) by (cases "Policy t") (auto simp: fail await)
  qed
qed

text \<open>A task that runs, is cancelled by a request while its session runs, and awaits approval in the end.\<close>

definition demo_spawner :: task_handler where
  "demo_spawner = demo_handler\<lparr>has_spawner := True\<rparr>"

definition demo_queued :: task_world where
  "demo_queued = demo_created\<lparr>activeTasks := [(''00000000-t'', \<lparr>ex_task = populateTask demo_task, ex_stage = Queued, ex_minutes = 30\<rparr>)]\<rparr>"

lemma demo_queued_reach: "task_reach demo_spawner demo_queued"
proof -
  have "length demo_body \<le> 200" by code_simp
  then have "take webhook_limit demo_body = demo_body" by (simp add: webhook_limit_def)
  moreover have "unmarshal (decode_members payload_field) no_payload demo_body = Some demo_payload" by code_simp
  moreover have "check_payload demo_spawner demo_payload = Inr ''ws''" by code_simp
  moreover have "ID demo_task = ''00000000-t''" "shouldAutoSpawn demo_task" "task_minutes (populateTask demo_task) = 30" by code_simp+
  ultimately have "snd (serve_tasks demo_henv demo_spawner [] (demo_request ''POST'' ''/api/tasks/webhook'' demo_body) demo_world) = demo_queued"
    unfolding serve_tasks_def
    by (simp add: demo_request_def handleWebhook_def signature_error_def task_Create_def mem_key_def publish_def Let_def
        demo_created_def demo_world_def demo_queued_def SpawnTask_def GetByID_def goes_on_def demo_spawner_def
        flip: demo_task_def)
  moreover have "task_reach demo_spawner (snd (serve_tasks demo_henv demo_spawner []
      (demo_request ''POST'' ''/api/tasks/webhook'' demo_body) demo_world))"
    by (rule served [OF fresh]) (simp_all add: demo_world_def)
  ultimately show ?thesis by simp
qed

definition demo_answers :: answers where
  "demo_answers =
     \<lparr>wenv = demo_worktree_env, write_err = None, started = (\<lambda>_ _ _ _. Inr ''s1''),
      session = \<lparr>finalState = ''idle'', wait_failed = False, deadline_passed = False, resultFile = None, statOutput = None,
        diffOutput = None, output_yamls = []\<rparr>, url_ok = (\<lambda>_ _. False)\<rparr>"

definition demo_cancelled :: task_world where
  "demo_cancelled =
     snd (serve_tasks demo_henv demo_spawner [] (demo_request ''POST'' ''/api/tasks/00000000-t/cancel'' [])
       (advance demo_step demo_answers ''00000000-t'' (advance demo_step demo_answers ''00000000-t''
         (advance demo_step demo_answers ''00000000-t'' demo_queued))))"

lemma demo_cancelled_reach: "task_reach demo_spawner demo_cancelled"
  unfolding demo_cancelled_def by (intro served advanced demo_queued_reach) simp

theorem finish_decides_status_witness:
  "row_status ''00000000-t'' demo_cancelled = Some StatusFailed \<and>
   row_status ''00000000-t'' (advance demo_step demo_answers ''00000000-t'' demo_cancelled) = Some StatusAwaitingApproval"
proof -
  have f: "row_status ''00000000-t'' demo_cancelled = Some StatusFailed" by code_simp
  have "map_option (\<lambda>x. (ex_stage x, IsPlanCase (ex_task x), t_Status (ex_task x))) (mget (activeTasks demo_cancelled) ''00000000-t'') =
      Some (Waiting, False, StatusRunning)" by code_simp
  then obtain x where x: "mget (activeTasks demo_cancelled) ''00000000-t'' = Some x" "ex_stage x = Waiting"
    "\<not> IsPlanCase (ex_task x)" "t_Status (ex_task x) = StatusRunning" by auto
  have "\<not> timed_out (session demo_answers)" "\<not> failed_state (session demo_answers)" by code_simp+
  with finish_decides_status [OF demo_cancelled_reach x(1,2,4) f] f x(3) show ?thesis by simp
qed

section \<open>A rejected task\<close>

text \<open>What a step does to the row and the execution of one task; every step leaves those of other tasks alone.\<close>

definition same :: "string \<Rightarrow> task_world \<Rightarrow> task_world \<Rightarrow> bool" where
  "same tid w w' \<longleftrightarrow> mget (agent_tasks (store w')) tid = mget (agent_tasks (store w)) tid \<and>
     mget (activeTasks w') tid = mget (activeTasks w) tid"

lemma same_refl [simp]: "same tid w w"
  by (simp add: same_def)

lemma same_trans: "same tid u v \<Longrightarrow> same tid v w \<Longrightarrow> same tid u w"
  by (simp add: same_def)

lemma same_steps:
  "same tid w (emitEvent e now ty t w)" "same tid w (cleanup_worktree path w)" "same tid w (fireCallback url t st ys w)"
  "same tid w (w\<lparr>published := p\<rparr>)" "same tid w (w\<lparr>outside := d\<rparr>)" "same tid w (w\<lparr>panicked := b\<rparr>)"
  "ID t \<noteq> tid \<Longrightarrow> same tid w (save ok t w)" "k \<noteq> tid \<Longrightarrow> same tid w (ends k w)"
  "ID t \<noteq> tid \<Longrightarrow> same tid w (goes_on sg m t w)"
  by (auto simp: same_def emitEvent_def cleanup_worktree_def fireCallback_def save_def ends_def goes_on_def task_Update_def
      split: option.split)

lemma same_after:
  "same tid u w \<Longrightarrow> same tid u (emitEvent e now ty t w)" "same tid u w \<Longrightarrow> same tid u (cleanup_worktree path w)"
  "same tid u w \<Longrightarrow> same tid u (fireCallback url t st ys w)" "same tid u w \<Longrightarrow> same tid u (w\<lparr>outside := d\<rparr>)"
  "same tid u w \<Longrightarrow> same tid u (w\<lparr>panicked := b\<rparr>)" "same tid u w \<Longrightarrow> ID t \<noteq> tid \<Longrightarrow> same tid u (save ok t w)"
  "same tid u w \<Longrightarrow> k \<noteq> tid \<Longrightarrow> same tid u (ends k w)" "same tid u w \<Longrightarrow> ID t \<noteq> tid \<Longrightarrow> same tid u (goes_on sg m t w)"
  by (erule same_trans, rule same_steps; assumption)+

lemma same_persist: "same tid u w \<Longrightarrow> ID t \<noteq> tid \<Longrightarrow> same tid u (snd (persistResolvedSessionID e n t w))"
  by (auto simp: persistResolvedSessionID_def Let_def intro!: same_after split: option.split)

lemma same_fail:
  assumes "same tid u w" "ID t \<noteq> tid"
  shows "same tid u (snd (failTask e n reason t w))"
proof -
  obtain t0 w0 where p: "persistResolvedSessionID e n t w = (t0, w0)" by fastforce
  have "same tid u w0" "ID t0 \<noteq> tid" using same_persist [OF assms, of e n] persist_fields(1) [of e n t w] p assms(2) by auto
  then show ?thesis
    using p by (auto simp: failTask_def Let_def intro!: same_after split: sum.split dest: Transition_fields(2))
qed

lemma same_await:
  assumes "same tid u w" "ID t \<noteq> tid"
  shows "same tid u (await_approval e result t w)"
proof (cases "Transition (at e 2) (at e 3) StatusValidating t")
  case (Inr t1)
  then have t1: "ID t1 \<noteq> tid" using Transition_fields(2) assms(2) by metis
  let ?t2 = "AddTimelineEvent (at e 4) ''validating'' ''Validating agent results'' ''system'' t1"
  show ?thesis
  proof (cases "Transition (at e 5) (at e 6) StatusAwaitingApproval ?t2")
    case (Inr t3)
    then have "ID t3 \<noteq> tid" using Transition_fields(2) t1 by fastforce
    then show ?thesis
      using Inr t1 assms(1) \<open>Transition (at e 2) (at e 3) StatusValidating t = Inr t1\<close>
      by (auto simp: await_approval_def Let_def intro!: same_after)
  qed (use Inr t1 assms(1) in \<open>auto simp: await_approval_def Let_def intro!: same_after\<close>)
qed (simp add: await_approval_def assms(1))

lemma same_plan_complete:
  assumes "same tid u w" "ID t \<noteq> tid"
  shows "same tid u (plan_complete e url ys t w)"
proof (cases "Transition (at e 2) (at e 3) StatusValidating t")
  case (Inr t1)
  then have t1: "ID t1 \<noteq> tid" using Transition_fields(2) assms(2) by metis
  show ?thesis
    using Inr t1 assms by (auto simp: plan_complete_def Let_def intro!: same_after same_fail split: sum.split dest: Transition_fields(2))
qed (simp add: plan_complete_def assms same_fail)

lemma same_advance:
  assumes "world_ok w" "k \<noteq> tid"
  shows "same tid w (advance e a k w)"
proof (cases "mget (activeTasks w) k")
  case (Some x)
  then have id: "ID (ex_task x) \<noteq> tid" using assms by (auto simp: world_ok_def)
  obtain t w0 where p: "persistResolvedSessionID e 0 (ex_task x) w = (t, w0)" by fastforce
  have t: "ID t \<noteq> tid" "same tid w w0"
    using same_persist [OF same_refl id, of w e 0] persist_fields(1) [of e 0 "ex_task x" w] p id by auto
  have "same tid w (execution_begins e x w)"
    using id by (auto simp: execution_begins_def Let_def intro!: same_after split: sum.split dest: Transition_fields(2))
  moreover have "same tid w (execute_worktree e made x w)" "same tid w (plan_worktree e err made x w)" for made err
    using id by (auto simp: execute_worktree_def plan_worktree_def Let_def intro!: same_after same_fail split: option.split sum.split)
  moreover have "same tid w (execute_start e st x w)" "same tid w (plan_start e st x w)" for st
    using id by (auto simp: execute_start_def plan_start_def Let_def intro!: same_after same_fail split: sum.split)
  moreover have "same tid w (execute_finish e r x w)" for r
    using p t by (auto simp: execute_finish_def Let_def intro!: same_after same_fail same_await split: option.split)
  moreover have "same tid w (plan_finish e url r x w)" for url r
    using p t by (auto simp: plan_finish_def Let_def case_prod_unfold intro!: same_after same_fail same_plan_complete)
  ultimately show ?thesis
    using Some by (auto simp: advance_def execution_step_def Let_def split: stage.split)
qed (simp add: advance_def)

lemma same_store:
  "mget (agent_tasks s) tid = mget (agent_tasks (store w)) tid \<Longrightarrow> same tid w (w\<lparr>store := s\<rparr>)"
  by (simp add: same_def)

lemma same_publish: "same tid u w \<Longrightarrow> same tid u (publish e now ty ws p w)"
  by (simp add: same_def publish_def)

lemma rows_AddRevision [simp]: "agent_tasks (snd (AddRevision ok r s)) = agent_tasks s"
  by (simp add: AddRevision_def)

lemma rows_Update: "ID t \<noteq> tid \<Longrightarrow> mget (agent_tasks (snd (task_Update ok t s))) tid = mget (agent_tasks s) tid"
  by (simp add: task_Update_def split: option.split)

lemma same_set_status:
  assumes "world_ok w" "k \<noteq> tid"
  shows "same tid w (snd (set_status target kind msg ev he r k w))"
proof -
  have g: "ID t = k" if "GetByID ok k (store w) = Some t" for ok t
    using that assms(1) store_ok_get by (auto simp: world_ok_def)
  have "same tid w (w\<lparr>store := snd (task_Update ok (AddTimelineEvent n kind msg ''user'' t1) (store w))\<rparr>)" if "ID t1 = k" for ok n t1
    using that assms(2) by (intro same_store rows_Update) simp
  then show ?thesis
    by (auto simp: set_status_def Let_def case_prod_unfold intro!: same_publish split: option.split sum.split
        dest!: g Transition_fields(2))
qed

lemma same_reject_task:
  assumes "ID t \<noteq> tid"
  shows "same tid w (snd (reject_task he k feedback t w))"
proof (cases "Transition (at (henv he) 0) (at (henv he) 1) StatusRunning t")
  case (Inr t1)
  then have t1: "ID t1 \<noteq> tid" using Transition_fields(2) assms by metis
  show ?thesis
    unfolding reject_task_def Let_def case_prod_unfold Inr sum.case if_distrib [of snd] snd_conv
    using t1 by (intro if_both [where P = "same tid w"] same_publish same_store) (simp_all add: rows_Update)
qed (simp add: reject_task_def)

lemma same_by_id:
  assumes "world_ok w" "k \<noteq> tid"
  shows "same tid w (snd (handleTaskReject he r k text w))" "same tid w (snd (handleTaskSpawn he h r k w))"
    "same tid w (snd (handleTaskStatusUpdate he r k text w))"
proof -
  have g: "ID t = k" if "GetByID ok k (store w) = Some t" for ok t
    using that assms(1) store_ok_get by (auto simp: world_ok_def)
  show "same tid w (snd (handleTaskReject he r k text w))"
    using assms(2) by (auto simp: handleTaskReject_def intro!: same_reject_task split: option.split sum.split dest!: g)
  have sp: "same tid w (snd (SpawnTask e k w))" for e
    using assms(2) by (auto simp: SpawnTask_def intro!: same_steps split: option.split dest!: g)
  show "same tid w (snd (handleTaskSpawn he h r k w))"
    using sp [of "henv he"] unfolding handleTaskSpawn_def Let_def
    by (cases "SpawnTask (henv he) k w"; cases "fst (SpawnTask (henv he) k w)"; cases "GetByID (db_ok (henv he) 1) k (store w)") simp_all
  have "same tid w (w\<lparr>store := snd (task_Update ok u (store w))\<rparr>)" if "ID u = k" for ok u
    using that assms(2) by (intro same_store rows_Update) simp
  then show "same tid w (snd (handleTaskStatusUpdate he r k text w))"
    by (auto simp: handleTaskStatusUpdate_def Let_def case_prod_unfold intro!: same_publish split: option.split sum.split
        dest!: g Transition_fields(2))
qed

lemma same_revisions: "same tid w (snd (handleTaskRevisions he r k text w))"
proof -
  have "same tid w (w\<lparr>store := s\<rparr>)" if "AddRevision ok rv (store w) = (f, s)" for ok rv f s
    using rows_AddRevision [of ok rv "store w"] that by (intro same_store) simp
  then show ?thesis by (auto simp: handleTaskRevisions_def Let_def split: option.splits sum.splits prod.splits)
qed

lemma same_webhook:
  assumes "world_ok w" "mget (agent_tasks (store w)) tid \<noteq> None" "\<And>n. 8 \<le> length (uuid he n)"
  shows "same tid w (snd (handleWebhook he h r text w))"
proof -
  have c: "ID t \<noteq> tid \<and> same tid w (w\<lparr>store := s\<rparr>)" if "task_Create ok t (store w) = (None, s)" for ok t s
    using that assms(2)
    by (auto simp: task_Create_def mem_key_def same_def map_add_def split: if_splits option.splits)
  have sp: "same tid w (snd (SpawnTask e (ID t) (publish e n ty ws pl (w\<lparr>store := s\<rparr>))))"
    if "task_Create ok t (store w) = (None, s)" "good t" for ok t s e n ty ws pl
  proof -
    let ?v = "publish e n ty ws pl (w\<lparr>store := s\<rparr>)"
    have "store_ok s" using store_ok_Create [OF _ that(2,1)] assms(1) by (simp add: world_ok_def)
    then have g: "ID u = ID t" if "GetByID b (ID t) (store ?v) = Some u" for b u
      using that store_ok_get [of s b "ID t" u] by (simp add: publish_def split: if_splits)
    have v: "same tid w ?v" using c [OF that(1)] same_publish by blast
    show ?thesis
      using c [OF that(1)] v by (auto simp: SpawnTask_def intro!: same_after(8) split: option.split dest!: g)
  qed
  show ?thesis
    using c sp good_webhook_task [OF assms(3)]
    by (auto simp: handleWebhook_def Let_def case_prod_unfold prod_eq_iff intro!: same_publish split: option.split sum.split)
qed

text \<open>Steps of the daemon as values; those that spare a task are all but its cancellation and a report of its status.\<close>

datatype task_op = Serve handler_env "string list" task_request | Advance step_env answers string

fun run_op :: "task_handler \<Rightarrow> task_op \<Rightarrow> task_world \<Rightarrow> task_world" where
  "run_op h (Serve he order q) w = snd (serve_tasks he h order q w)"
| "run_op h (Advance e a tid) w = advance e a tid w"

fun spares :: "string \<Rightarrow> task_op \<Rightarrow> bool" where
  "spares tid (Serve he order q) \<longleftrightarrow>
     Path (rq q) \<noteq> ''/api/tasks/'' @ tid @ ''/cancel'' \<and> Path (rq q) \<noteq> ''/api/tasks/'' @ tid @ ''/status''"
| "spares tid (Advance e a k) \<longleftrightarrow> True"

fun fresh_uuids :: "task_op \<Rightarrow> bool" where
  "fresh_uuids (Serve he order q) \<longleftrightarrow> (\<forall>n. 8 \<le> length (uuid he n))"
| "fresh_uuids (Advance e a k) \<longleftrightarrow> True"

definition stranded :: "string \<Rightarrow> task_world \<Rightarrow> bool" where
  "stranded tid w \<longleftrightarrow> row_status tid w = Some StatusRunning \<and> mget (activeTasks w) tid = None"

lemma stranded_same: "stranded tid w \<Longrightarrow> same tid w w' \<Longrightarrow> stranded tid w'"
  by (simp add: stranded_def same_def row_status_def)

lemma stranded_get: "stranded tid w \<Longrightarrow> GetByID ok tid (store w) = Some t \<Longrightarrow> t_Status t = StatusRunning"
  by (auto simp: stranded_def row_status_def GetByID_def split: if_splits)

lemma no_transition [simp]:
  "\<not> CanTransitionTo StatusRunning StatusCompleted" "\<not> CanTransitionTo StatusRunning StatusRunning"
  by (simp_all add: CanTransitionTo_iff)

lemma stranded_refuses:
  assumes "stranded tid w"
  shows "snd (handleTaskApprove he r tid w) = w" "snd (handleTaskReject he r tid text w) = w"
    "snd (handleTaskSpawn he h r tid w) = w"
  using stranded_get [OF assms]
  by (auto simp: handleTaskApprove_def set_status_def handleTaskReject_def reject_task_def handleTaskSpawn_def spawnable_def
      Transition_def Let_def split: option.split sum.split)

lemma by_id_path:
  assumes "has_prefix ''/api/tasks/'' p" "path = trim_prefix ''/api/tasks/'' p"
    "takeWhile (\<lambda>c. c \<noteq> CHR ''/'') path = tid" "dropWhile (\<lambda>c. c \<noteq> CHR ''/'') path = rest" "rest \<noteq> []" "tl rest = action"
  shows "p = ''/api/tasks/'' @ tid @ ''/'' @ action"
proof -
  have "path = tid @ rest" using assms(3,4) takeWhile_dropWhile_id by metis
  moreover have "hd rest = CHR ''/''" using hd_dropWhile [of "\<lambda>c. c \<noteq> CHR ''/''" path] assms(4,5) by auto
  then have "rest = CHR ''/'' # action" using assms(5,6) by (cases rest) auto
  moreover have "p = ''/api/tasks/'' @ path" using assms(1,2) by (auto simp: trim_prefix_def has_prefix_iff)
  ultimately show ?thesis by simp
qed

lemma if_cases: "(b \<Longrightarrow> P x) \<Longrightarrow> (\<not> b \<Longrightarrow> P y) \<Longrightarrow> P (if b then x else y)"
  by simp

lemma stranded_by_id:
  assumes "world_ok w" "stranded tid w" "has_prefix ''/api/tasks/'' (Path (rq q))" "spares tid (Serve he order q)"
  shows "stranded tid (snd (handleTaskByID he h q w))"
proof -
  define path where "path = trim_prefix ''/api/tasks/'' (Path (rq q))"
  define k where "k = takeWhile (\<lambda>c. c \<noteq> CHR ''/'') path"
  define rest where "rest = dropWhile (\<lambda>c. c \<noteq> CHR ''/'') path"
  have no: "k \<noteq> tid" if "rest \<noteq> []" "tl rest = ''cancel'' \<or> tl rest = ''status''"
    using by_id_path [OF assms(3) path_def k_def [symmetric] rest_def [symmetric] that(1) refl] assms(4) that(2) by auto
  have set_status: "stranded tid (snd (set_status target kind msg ev he (rq q) k w))" if "k \<noteq> tid" for target kind msg ev
    using stranded_same [OF assms(2)] same_set_status [OF assms(1) that] by blast
  have approve: "stranded tid (snd (handleTaskApprove he (rq q) k w))"
    using set_status stranded_refuses(1) [OF assms(2)] assms(2) by (cases "k = tid") (simp_all add: handleTaskApprove_def)
  have cancel: "stranded tid (snd (handleTaskCancel he (rq q) k w))" if "k \<noteq> tid"
    using set_status [OF that] by (simp add: handleTaskCancel_def)
  have status: "stranded tid (snd (handleTaskStatusUpdate he (rq q) k (rq_text q) w))" if "k \<noteq> tid"
    using stranded_same [OF assms(2)] same_by_id(3) [OF assms(1) that] by blast
  have reject: "stranded tid (snd (handleTaskReject he (rq q) k (rq_text q) w))"
    using stranded_same [OF assms(2)] same_by_id(1) [OF assms(1)] stranded_refuses(2) [OF assms(2)] assms(2)
    by (cases "k = tid") auto
  have spawn: "stranded tid (snd (handleTaskSpawn he h (rq q) k w))"
    using stranded_same [OF assms(2)] same_by_id(2) [OF assms(1)] stranded_refuses(3) [OF assms(2)] assms(2)
    by (cases "k = tid") auto
  have revs: "stranded tid (snd (handleTaskRevisions he (rq q) k (rq_text q) w))"
    using stranded_same [OF assms(2) same_revisions] .
  show ?thesis
    unfolding handleTaskByID_def Let_def path_def [symmetric] k_def [symmetric] rest_def [symmetric]
    by (intro if_cases [where P = "\<lambda>r. stranded tid (snd r)"])
       (use no approve reject spawn revs assms(2) cancel status in simp_all)
qed

lemma stranded_op:
  assumes "world_ok w" "stranded tid w" "spares tid op" "fresh_uuids op"
  shows "stranded tid (run_op h op w) \<and> world_ok (run_op h op w)"
proof (cases op)
  case (Serve he order q)
  have "mget (agent_tasks (store w)) tid \<noteq> None" using assms(2) by (auto simp: stranded_def row_status_def)
  then have hook: "stranded tid (snd (handleWebhook he h (rq q) (rq_text q) w))"
    using stranded_same [OF assms(2) same_webhook [OF assms(1)]] assms(4) Serve by simp
  have "stranded tid (snd (serve_tasks he h order q w))"
    unfolding serve_tasks_def Let_def
    by (intro if_cases [where P = "\<lambda>r. stranded tid (snd r)"])
       (use hook assms(2) stranded_by_id [OF assms(1,2)] assms(3) Serve in simp_all)
  then show ?thesis using Serve assms(4) serve_ok [OF assms(1)] by simp
next
  case (Advance e a k)
  have "stranded tid (advance e a k w)"
  proof (cases "k = tid")
    case True
    then show ?thesis using assms(2) by (simp add: advance_def stranded_def)
  next
    case False
    then show ?thesis using stranded_same [OF assms(2) same_advance [OF assms(1)]] by simp
  qed
  then show ?thesis using Advance advance_ok [OF assms(1)] by simp
qed

lemma error_codes [simp]: "Code (error_json c m) = c" "Code not_allowed = 405"
  by (simp_all add: error_json_def writeJSON_def not_allowed_def http_Error_def)

lemma reject_strands:
  assumes "world_ok w" "mget (activeTasks w) tid = None" "handleTaskReject he r tid text w = (resp, w1)" "Code resp = 200"
  shows "stranded tid w1 \<and> world_ok w1"
proof -
  have ok: "world_ok w1" using reject_ok [OF assms(1), of he r tid "text"] assms(3) by simp
  have post: "Method r = ''POST''" using assms(3,4) by (cases "Method r = ''POST''") (auto simp: handleTaskReject_def)
  obtain t where get: "GetByID (db_ok (henv he) 0) tid (store w) = Some t"
    using assms(3,4) post by (cases "GetByID (db_ok (henv he) 0) tid (store w)") (auto simp: handleTaskReject_def)
  let ?d = "decode_read (decode_members feedback_field) [] text"
  have h: "(case ?d of Inl eof \<Rightarrow> if eof then reject_task he tid [] t w else (error_json 400 ''invalid JSON'', w)
      | Inr feedback \<Rightarrow> reject_task he tid feedback t w) = (resp, w1)"
    using assms(3) post get by (simp add: handleTaskReject_def)
  have "\<exists>feedback. reject_task he tid feedback t w = (resp, w1)"
  proof (cases ?d)
    case (Inl eof)
    then have eof using h assms(4) by (cases eof) auto
    then show ?thesis using h Inl by auto
  next
    case (Inr feedback)
    then show ?thesis using h by auto
  qed
  then obtain feedback where "reject_task he tid feedback t w = (resp, w1)" by blast
  note t = get this
  have "store_ok (store w)" using assms(1) by (simp add: world_ok_def)
  from store_ok_get [OF this get] have id: "ID t = tid" by simp
  obtain t1 where t1: "Transition (at (henv he) 0) (at (henv he) 1) StatusRunning t = Inr t1"
    using t(2) assms(4) by (cases "Transition (at (henv he) 0) (at (henv he) 1) StatusRunning t")
      (auto simp: reject_task_def)
  have f: "ID t1 = tid" "t_Status t1 = StatusRunning" using Transition_fields(1,2) [OF t1] id by simp_all
  have upd: "row_status tid (publish e n ty ws pl (w\<lparr>store := snd (task_Update ok u s)\<rparr>)) = Some (t_Status u)"
    if "fst (task_Update ok u s) = None" "ID u = tid" for e n ty ws pl ok u s
    using that by (auto simp: row_status_def publish_def task_Update_def split: if_splits option.splits)
  have act: "activeTasks (publish e n ty ws pl (w\<lparr>store := s\<rparr>)) = activeTasks w" for e n ty ws pl s
    by (simp add: publish_def)
  define u where "u = (\<lambda>msg. AddTimelineEvent (at (henv he) 2) ''rejected'' msg ''user'' t1)"
  have u: "ID (u msg) = tid" "t_Status (u msg) = StatusRunning" for msg using f by (simp_all add: u_def)
  define msg where "msg = (if feedback \<noteq> [] then ''Task rejected: '' @ feedback else ''Task rejected'')"
  define s where "s = (if feedback = [] then store w
     else snd (AddRevision (db_ok (henv he) 3)
            \<lparr>rev_ID = uuid he 0, rev_TaskID = tid, RevisionNo = next_revision (db_ok (henv he) 2) tid (store w),
             Feedback = feedback, ResultSummary = [], rev_CreatedBy = ''user'', rev_CreatedAt = at (henv he) 3\<rparr> (store w)))"
  define upd1 where "upd1 = task_Update (db_ok (henv he) 1) (u msg) s"
  define pl where "pl = (payload_of (u msg))\<lparr>tp_message := feedback\<rparr>"
  have eq: "(if fst upd1 \<noteq> None then (error_json 500 ''failed to update task'', w\<lparr>store := s\<rparr>)
      else (id_status (u msg), publish (henv he) (at (henv he) 4) ''task_rejected'' (WorkspaceID (u msg)) pl
              (w\<lparr>store := snd upd1\<rparr>))) = (resp, w1)"
    using t(2) unfolding reject_task_def Let_def t1 sum.case case_prod_unfold u_def msg_def s_def upd1_def pl_def .
  have "fst upd1 = None" using eq assms(4) by (cases "fst upd1 = None") auto
  with eq have "fst (task_Update (db_ok (henv he) 1) (u msg) s) = None"
    "w1 = publish (henv he) (at (henv he) 4) ''task_rejected'' (WorkspaceID (u msg)) pl
       (w\<lparr>store := snd (task_Update (db_ok (henv he) 1) (u msg) s)\<rparr>)"
    by (simp_all add: upd1_def)
  then have "stranded tid w1" using upd [OF _ u(1)] u(2) act assms(2) by (simp add: stranded_def)
  then show ?thesis using ok by simp
qed

text \<open>
  C19: A rejected task never runs again by itself: after a rejection was answered with success while no execution of
  the task was under way, whatever else happens (approvals, more rejections and attempts to spawn it, webhooks,
  the executions of other tasks), the stored task keeps status running and no execution of it begins; only
  a cancellation or a report of its status gets it out.
\<close>

theorem rejected_task_never_runs:
  assumes "task_reach h w" "mget (activeTasks w) tid = None" "handleTaskReject he r tid text w = (resp, w1)" "Code resp = 200"
    "\<forall>op \<in> set ops. spares tid op \<and> fresh_uuids op"
  shows "row_status tid (fold (run_op h) ops w1) = Some StatusRunning \<and> mget (activeTasks (fold (run_op h) ops w1)) tid = None"
proof -
  have "stranded tid (fold (run_op h) ops v) \<and> world_ok (fold (run_op h) ops v)" if "stranded tid v \<and> world_ok v" for v
    using that assms(5)
  proof (induction ops arbitrary: v)
    case (Cons op ops)
    then show ?case using stranded_op [of v tid op h] by simp
  qed simp
  then show ?thesis using reject_strands [OF reach_ok [OF assms(1)] assms(2-4)] by (simp add: stranded_def)
qed

definition demo_waiting :: task_world where
  "demo_waiting = advance demo_step demo_answers ''00000000-t'' demo_cancelled"

definition demo_retries :: "task_op list" where
  "demo_retries =
     [Serve demo_henv [] (demo_request ''POST'' ''/api/tasks/00000000-t/spawn'' []),
      Serve demo_henv [] (demo_request ''POST'' ''/api/tasks/00000000-t/approve'' []), Advance demo_step demo_answers ''00000000-t'']"

theorem rejected_task_never_runs_witness:
  "\<exists>w1. row_status ''00000000-t'' (fold (run_op demo_spawner) demo_retries w1) = Some StatusRunning"
proof -
  let ?r = "handleTaskReject demo_henv (rq (demo_request ''POST'' [] [])) ''00000000-t'' (Some []) demo_waiting"
  have "mget (activeTasks demo_waiting) ''00000000-t'' = None" "Code (fst ?r) = 200" by code_simp+
  moreover have "task_reach demo_spawner demo_waiting" unfolding demo_waiting_def by (intro advanced demo_cancelled_reach)
  moreover have "\<forall>op \<in> set demo_retries. spares ''00000000-t'' op \<and> fresh_uuids op"
    by (simp add: demo_retries_def demo_request_def)
  ultimately show ?thesis
    using rejected_task_never_runs [of demo_spawner demo_waiting "''00000000-t''" demo_henv _ "Some []" "fst ?r" "snd ?r"]
    by (metis prod.collapse)
qed

section \<open>Who may create tasks\<close>

text \<open>
  C5: With a webhook secret set, a webhook changes anything (creates a task, publishes, starts an execution) only when
  the header carries the HMAC-SHA256 of the first megabyte of the body under the secret, in
  hexadecimal; and then it answers 201 and has added exactly one task.
\<close>

theorem webhook_needs_signature:
  assumes "webhookSecret h \<noteq> []" "handleWebhook he h r text w = (resp, w')" "w' \<noteq> w"
  shows "(\<exists>body. text = Some body \<and>
      trim_prefix ''sha256='' (header_Get r ''X-Webhook-Signature'') =
        hex_encode (hmac_sha256 (webhookSecret h) (take webhook_limit body))) \<and>
    Code resp = 201 \<and> (\<exists>t. agent_tasks (store w') = agent_tasks (store w) @ [(ID t, t)] \<and> t_Status t = StatusPending)"
proof -
  have post: "Method r = ''POST''" using assms(2,3) by (cases "Method r = ''POST''") (auto simp: handleWebhook_def)
  obtain whole where whole: "text = Some whole"
    using assms(2,3) post by (cases "text") (auto simp: handleWebhook_def)
  define body where "body = take webhook_limit whole"
  have ok: "signature_error h r body = None"
    using assms(2,3) post whole by (cases "signature_error h r body") (auto simp: handleWebhook_def Let_def body_def)
  obtain p where p: "unmarshal (decode_members payload_field) no_payload body = Some p"
    using assms(2,3) post whole ok
    by (cases "unmarshal (decode_members payload_field) no_payload body") (auto simp: handleWebhook_def Let_def body_def)
  obtain ws where ws: "check_payload h p = Inr ws"
    using assms(2,3) post whole ok p by (cases "check_payload h p") (auto simp: handleWebhook_def Let_def body_def)
  define t where "t = webhook_task he ws p"
  define c where "c = task_Create (db_ok (henv he) 1) t (store w)"
  have spawn: "store (snd (SpawnTask e tid v)) = store v" for e tid v
    by (simp add: SpawnTask_def goes_on_def split: option.split)
  have pub: "store (publish e n ty ws pl v) = store v" for e n ty pl v by (simp add: publish_def)
  have c0: "fst c = None"
    using assms(2,3) post whole ok p ws
    by (cases "fst c = None") (auto simp: handleWebhook_def Let_def body_def [symmetric] t_def [symmetric] c_def [symmetric] case_prod_unfold simp del: One_nat_def)
  have "Code resp = 201 \<and> store w' = snd c"
    using assms(2) post whole ok p ws c0 spawn pub
    by (auto simp: handleWebhook_def Let_def body_def [symmetric] t_def [symmetric] c_def [symmetric] case_prod_unfold writeJSON_def simp del: One_nat_def)
  moreover have "agent_tasks (snd c) = agent_tasks (store w) @ [(ID t, t)]"
    using c0 by (auto simp: c_def task_Create_def split: if_splits)
  moreover have "t_Status t = StatusPending"
    by (simp add: t_def webhook_task_def Let_def AddTimelineEvent_def NewTask_def)
  moreover have "validateHMAC (webhookSecret h) body (header_Get r ''X-Webhook-Signature'')"
    using ok assms(1) by (auto simp: signature_error_def Let_def split: if_splits)
  ultimately show ?thesis using whole by (auto simp: validateHMAC_def body_def)
qed

text \<open>A signed request: its header is what the sender computes from the body.\<close>

definition demo_signed :: http_request where
  "demo_signed =
     \<lparr>Method = ''POST'', Path = ''/api/tasks/webhook'', RemoteAddr = [],
      Header = [(''X-Webhook-Signature'', [''sha256='' @ hex_encode (hmac_sha256 ''key'' demo_body)])], has_TLS = False\<rparr>"

definition demo_secret :: task_handler where
  "demo_secret = demo_handler\<lparr>webhookSecret := ''key''\<rparr>"

theorem webhook_needs_signature_witness:
  "Code (fst (handleWebhook demo_henv demo_secret demo_signed (Some demo_body) demo_world)) = 201"
proof -
  have "length demo_body \<le> 200" by code_simp
  then have b: "take webhook_limit demo_body = demo_body" by (simp add: webhook_limit_def)
  have sig: "signature_error demo_secret demo_signed demo_body = None"
    by (simp add: signature_error_def demo_secret_def demo_signed_def header_Get_def validateHMAC_def trim_prefix_def)
  have p: "unmarshal (decode_members payload_field) no_payload demo_body = Some demo_payload"
    "check_payload demo_secret demo_payload = Inr ''ws''" "ID demo_task = ''00000000-t''" by code_simp+
  have h: "Method demo_signed = ''POST''" "\<not> has_spawner demo_secret" "webhookSecret demo_secret \<noteq> []"
    by (simp_all add: demo_signed_def demo_secret_def)
  have "snd (handleWebhook demo_henv demo_secret demo_signed (Some demo_body) demo_world) = demo_created"
    using b sig p h
    by (simp add: handleWebhook_def task_Create_def mem_key_def publish_def Let_def demo_world_def demo_created_def
        flip: demo_task_def)
  moreover have "demo_created \<noteq> demo_world" by (simp add: demo_created_def demo_world_def)
  ultimately show ?thesis
    using webhook_needs_signature [of demo_secret demo_henv demo_signed "Some demo_body" demo_world] h(3) by (metis prod.collapse)
qed

end
