(* ===== verification/Image_Storage.thy ===== *)
theory Image_Storage
  imports Go_Path Go_Encoding
begin

text \<open>
  \<open>internal/services/imagestorage\<close>: the images of a workspace, kept as files of one directory with an index in
  memory, and the manager that opens a storage for a workspace on demand. The files are the map \<open>disk\<close>
  from paths to contents; what the operating system answers, the clock, the fresh identifier and the order in
  which the index is visited are the argument of each operation.
\<close>

section \<open>Constants\<close>

definition MaxImagesCount :: int where "MaxImagesCount = 50"
definition MaxTotalSizeMB :: int where "MaxTotalSizeMB = 100"
definition MaxSingleImageMB :: int where "MaxSingleImageMB = 10"
definition ImageTTL :: time where "ImageTTL = hour"
definition CdevImagesDir :: string where "CdevImagesDir = ''.cdev/images''"

definition megabytes :: "int \<Rightarrow> int" where "megabytes n = n * 1024 * 1024"

definition supportedMimeTypes :: "(string, string) gomap" where
  "supportedMimeTypes =
     [(''image/jpeg'', ''.jpg''), (''image/png'', ''.png''), (''image/gif'', ''.gif''), (''image/webp'', ''.webp'')]"

definition magicBytes :: "(string, string) gomap" where
  "magicBytes =
     [(''image/jpeg'', [CHR 0xFF, CHR 0xD8, CHR 0xFF]), (''image/png'', [CHR 0x89, CHR 0x50, CHR 0x4E, CHR 0x47]),
      (''image/gif'', [CHR 0x47, CHR 0x49, CHR 0x46, CHR 0x38]), (''image/webp'', [CHR 0x52, CHR 0x49, CHR 0x46, CHR 0x46])]"

section \<open>The storage\<close>

record stored_image =
  img_ID :: string
  LocalPath :: string
  FullPath :: string
  MimeType :: string
  img_Size :: int
  ContentHash :: string
  img_CreatedAt :: time
  img_ExpiresAt :: time

record storage =
  baseDir :: string
  workspacePath :: string
  images :: "(string, stored_image) gomap"
  hashIndex :: "(string, string) gomap"
  totalSize :: int
  disk :: "(string, string) gomap"

text \<open>How the writing of a new file ends; a failed write may leave a part of the data.\<close>

datatype writing = Create_fails | Write_fails string | Rename_fails | Saved

record disk_env =
  clock :: "nat \<Rightarrow> time"
  new_uuid :: string
  writes :: writing
  removes :: "string \<Rightarrow> bool"
  visits :: "string list"

definition os_Remove :: "disk_env \<Rightarrow> string \<Rightarrow> (string, string) gomap \<Rightarrow> (string, string) gomap" where
  "os_Remove e p d = (if removes e p then mdel p d else d)"

text \<open>The steps that expiry, eviction and deletion share: the file goes, and the entries of both indexes.\<close>

definition drop_image :: "disk_env \<Rightarrow> string \<Rightarrow> stored_image \<Rightarrow> storage \<Rightarrow> storage" where
  "drop_image e k img s =
     s\<lparr>disk := os_Remove e (FullPath img) (disk s), hashIndex := mdel (ContentHash img) (hashIndex s),
       images := mdel k (images s), totalSize := totalSize s - img_Size img\<rparr>"

definition cleanupExpiredLocked :: "disk_env \<Rightarrow> time \<Rightarrow> storage \<Rightarrow> storage" where
  "cleanupExpiredLocked e now s =
     fold (\<lambda>(k, img) s. if img_ExpiresAt img < now then drop_image e k img s else s) (range_entries (visits e) (images s)) s"

definition Cleanup :: "disk_env \<Rightarrow> storage \<Rightarrow> storage" where
  "Cleanup e s = cleanupExpiredLocked e (clock e 0) s"

definition evictOldestLocked :: "disk_env \<Rightarrow> storage \<Rightarrow> storage" where
  "evictOldestLocked e s =
     (if images s = [] then s
      else (let k = oldest_loop img_CreatedAt (range_entries (visits e) (images s)) [] zero_time
            in case mget (images s) k of
                 None \<Rightarrow> s
               | Some img \<Rightarrow> if k \<noteq> [] then drop_image e k img s else s))"

definition canAcceptUploadLocked :: "int \<Rightarrow> storage \<Rightarrow> string option" where
  "canAcceptUploadLocked sizeBytes s =
     (if sizeBytes > megabytes MaxSingleImageMB then Some ''Image exceeds maximum size of 10MB''
      else if int (length (images s)) \<ge> MaxImagesCount
      then Some ''Too many images. Please wait for cleanup or delete old images.''
      else if totalSize s + sizeBytes > megabytes MaxTotalSizeMB then Some ''Image storage full. Please wait for cleanup.''
      else None)"

definition validateMagicBytes :: "string \<Rightarrow> string \<Rightarrow> bool" where
  "validateMagicBytes data mimeType =
     (case mget magicBytes mimeType of
        None \<Rightarrow> False
      | Some expected \<Rightarrow>
          has_prefix expected data \<and>
          (mimeType = ''image/webp'' \<longrightarrow> 12 \<le> length data \<and> take 4 (drop 8 data) = ''WEBP''))"

text \<open>Making room: expired images first, then the oldest one; the message of the last refusal.\<close>

definition free_space :: "disk_env \<Rightarrow> int \<Rightarrow> storage \<Rightarrow> string option \<times> storage" where
  "free_space e n s =
     (if canAcceptUploadLocked n s = None then (None, s)
      else (let s1 = cleanupExpiredLocked e (clock e 0) s
            in if canAcceptUploadLocked n s1 = None then (None, s1)
               else (let s2 = evictOldestLocked e s1 in (canAcceptUploadLocked n s2, s2))))"

definition image_name :: "string \<Rightarrow> string \<Rightarrow> string" where
  "image_name k ext = ''img_'' @ k @ ext"

definition image_path :: "string \<Rightarrow> string \<Rightarrow> string" where
  "image_path dir name = path_join [dir, name]"

text \<open>Writing the file under a temporary name, renaming it and entering it into the indexes.\<close>

definition save_image :: "disk_env \<Rightarrow> string \<Rightarrow> string \<Rightarrow> string \<Rightarrow> storage \<Rightarrow> (string + stored_image) \<times> storage" where
  "save_image e mimeType ext data s =
     (let k = take 12 (new_uuid e); name = image_name k ext; full = image_path (baseDir s) name; temp = full @ ''.tmp'';
          contentHash = hex_encode (sha256 data)
      in case writes e of
           Create_fails \<Rightarrow> (Inl ''failed to create image file'', s)
         | Write_fails part \<Rightarrow>
             (Inl ''failed to write image data'', s\<lparr>disk := os_Remove e temp (mput temp part (disk s))\<rparr>)
         | Rename_fails \<Rightarrow> (Inl ''failed to save image'', s\<lparr>disk := os_Remove e temp (mput temp data (disk s))\<rparr>)
         | Saved \<Rightarrow>
             (let img = \<lparr>img_ID = k, LocalPath = path_join [CdevImagesDir, name], FullPath = full, MimeType = mimeType,
                         img_Size = int (length data), ContentHash = contentHash, img_CreatedAt = clock e 1,
                         img_ExpiresAt = clock e 1 + ImageTTL\<rparr>
              in (Inr img,
                  s\<lparr>disk := mput full data (mdel temp (disk s)), images := mput k img (images s),
                    hashIndex := mput contentHash k (hashIndex s), totalSize := totalSize s + img_Size img\<rparr>)))"

text \<open>The image with the same content, if the index still has it.\<close>

definition duplicate :: "string \<Rightarrow> storage \<Rightarrow> (string \<times> stored_image) option" where
  "duplicate contentHash s =
     (case mget (hashIndex s) contentHash of
        None \<Rightarrow> None
      | Some k \<Rightarrow> (case mget (images s) k of None \<Rightarrow> None | Some img \<Rightarrow> Some (k, img)))"

text \<open>Of the reader at most one byte more than the limit is read; \<open>None\<close> is a reader that fails.\<close>

definition Store :: "disk_env \<Rightarrow> string option \<Rightarrow> string \<Rightarrow> storage \<Rightarrow> (string + stored_image) \<times> storage" where
  "Store e reader mimeType s =
     (case mget supportedMimeTypes mimeType of
        None \<Rightarrow> (Inl (''unsupported image type: '' @ mimeType @ '' (supported: jpeg, png, gif, webp)''), s)
      | Some ext \<Rightarrow>
          (case reader of
             None \<Rightarrow> (Inl ''failed to read image data'', s)
           | Some whole \<Rightarrow>
               (let data = take (nat (megabytes MaxSingleImageMB + 1)) whole
                in if int (length data) > megabytes MaxSingleImageMB then (Inl ''image exceeds maximum size of 10MB'', s)
                   else if \<not> validateMagicBytes data mimeType
                   then (Inl (''invalid image format: content does not match declared type '' @ mimeType), s)
                   else (case duplicate (hex_encode (sha256 data)) s of
                           Some (k, img) \<Rightarrow>
                             (let img' = img\<lparr>img_ExpiresAt := clock e 0 + ImageTTL\<rparr>
                              in (Inr img', s\<lparr>images := mput k img' (images s)\<rparr>))
                         | None \<Rightarrow>
                             (case free_space e (int (length data)) s of
                                (Some msg, s1) \<Rightarrow> (Inl msg, s1)
                              | (None, s1) \<Rightarrow> save_image e mimeType ext data s1)))))"

text \<open>Reading: the file must still exist.\<close>

definition Get :: "string \<Rightarrow> storage \<Rightarrow> string + stored_image" where
  "Get k s =
     (case mget (images s) k of
        None \<Rightarrow> Inl (''image not found: '' @ k)
      | Some img \<Rightarrow> if mget (disk s) (FullPath img) = None then Inl (''image file not found: '' @ k) else Inr img)"

definition GetLocalPath :: "string \<Rightarrow> storage \<Rightarrow> string + string" where
  "GetLocalPath k s = (case Get k s of Inl err \<Rightarrow> Inl err | Inr img \<Rightarrow> Inr (LocalPath img))"

definition image_Delete :: "disk_env \<Rightarrow> string \<Rightarrow> storage \<Rightarrow> string option \<times> storage" where
  "image_Delete e k s =
     (case mget (images s) k of
        None \<Rightarrow> (Some (''image not found: '' @ k), s)
      | Some img \<Rightarrow>
          if mget (disk s) (FullPath img) \<noteq> None \<and> \<not> removes e (FullPath img)
          then (Some ''failed to delete image file'', s)
          else (None, drop_image e k img s))"

definition image_Clear :: "disk_env \<Rightarrow> storage \<Rightarrow> storage" where
  "image_Clear e s =
     s\<lparr>disk := fold (\<lambda>(k, img). os_Remove e (FullPath img)) (range_entries (visits e) (images s)) (disk s),
       images := [], hashIndex := [], totalSize := 0\<rparr>"

record storage_stats =
  ImageCount :: int
  TotalSizeBytes :: int
  OldestImage :: time
  NewestImage :: time

definition image_GetStats :: "storage \<Rightarrow> storage_stats" where
  "image_GetStats s =
     fold (\<lambda>(k, img) st.
        st\<lparr>OldestImage := (if OldestImage st = zero_time \<or> img_CreatedAt img < OldestImage st then img_CreatedAt img else OldestImage st),
           NewestImage := (if img_CreatedAt img > NewestImage st then img_CreatedAt img else NewestImage st)\<rparr>)
       (images s)
       \<lparr>ImageCount = int (length (images s)), TotalSizeBytes = totalSize s, OldestImage = zero_time, NewestImage = zero_time\<rparr>"

definition CanAcceptUpload :: "int \<Rightarrow> storage \<Rightarrow> bool \<times> string" where
  "CanAcceptUpload n s = (case canAcceptUploadLocked n s of None \<Rightarrow> (True, []) | Some msg \<Rightarrow> (False, msg))"

definition image_List :: "disk_env \<Rightarrow> storage \<Rightarrow> stored_image list" where
  "image_List e s = sort_key (\<lambda>i. - img_CreatedAt i) (map snd (range_entries (visits e) (images s)))"

section \<open>Which paths are images\<close>

text \<open>What \<open>Lstat\<close> says of a path.\<close>

datatype lstat = Missing | Denied | Symlink | Present

definition ValidatePath :: "(string \<Rightarrow> lstat) \<Rightarrow> storage \<Rightarrow> string \<Rightarrow> string option" where
  "ValidatePath stat s path =
     (let cleanPath = clean path
      in if CHR 0x00 \<in> set path then Some ''invalid path: null bytes not allowed''
         else if \<not> has_prefix CdevImagesDir cleanPath then Some (''invalid path: must be within '' @ CdevImagesDir)
         else if CHR ''/'' \<in> set (trim_prefix ''/'' (trim_prefix CdevImagesDir cleanPath))
         then Some ''invalid path: subdirectories not allowed''
         else if lower_runes (path_ext cleanPath) \<notin> snd ` set supportedMimeTypes
         then Some ''invalid path: unsupported extension''
         else (let full = path_join [workspacePath s, cleanPath]
               in case path_rel (clean (baseDir s)) (clean full) of
                    None \<Rightarrow> Some ''invalid path: escapes images directory''
                  | Some rel \<Rightarrow>
                      if has_prefix ''..'' rel then Some ''invalid path: escapes images directory''
                      else (case stat full of
                              Missing \<Rightarrow> Some (''image not found at path: '' @ path)
                            | Denied \<Rightarrow> Some ''cannot access path''
                            | Symlink \<Rightarrow> Some ''invalid path: symlinks not allowed''
                            | Present \<Rightarrow> None)))"

section \<open>Opening a storage\<close>

definition extractIDFromFilename :: "string \<Rightarrow> string" where
  "extractIDFromFilename filename =
     (if \<not> has_prefix ''img_'' filename then []
      else (let name = trim_prefix ''img_'' filename in trim_suffix (path_ext name) name))"

definition extensionToMimeType :: "string \<Rightarrow> string" where
  "extensionToMimeType ext =
     (case filter (\<lambda>(mime, x). x = lower_runes ext) supportedMimeTypes of
        [] \<Rightarrow> ''application/octet-stream''
      | (mime, x) # _ \<Rightarrow> mime)"

text \<open>An entry of the directory; \<open>de_Info\<close> is false where its size and times cannot be read.\<close>

record dir_entry =
  de_Name :: string
  de_IsDir :: bool
  de_Content :: string
  de_ModTime :: time
  de_Info :: bool

definition loads :: "dir_entry \<Rightarrow> bool" where
  "loads f \<longleftrightarrow>
     \<not> (de_IsDir f \<or> has_prefix ''.'' (de_Name f) \<or> has_suffix ''.tmp'' (de_Name f)) \<and> de_Info f \<and>
     extractIDFromFilename (de_Name f) \<noteq> []"

definition load_entry :: "dir_entry \<Rightarrow> storage \<Rightarrow> storage" where
  "load_entry f s =
     (if \<not> loads f then s
      else (let k = extractIDFromFilename (de_Name f);
                img = \<lparr>img_ID = k, LocalPath = path_join [CdevImagesDir, de_Name f], FullPath = image_path (baseDir s) (de_Name f),
                       MimeType = extensionToMimeType (path_ext (de_Name f)), img_Size = int (length (de_Content f)),
                       ContentHash = [], img_CreatedAt = de_ModTime f, img_ExpiresAt = de_ModTime f + ImageTTL\<rparr>
            in s\<lparr>images := mput k img (images s), totalSize := totalSize s + img_Size img\<rparr>))"

definition loadExistingImages :: "dir_entry list \<Rightarrow> storage \<Rightarrow> storage" where
  "loadExistingImages files s = fold load_entry files s"

definition dir_disk :: "string \<Rightarrow> dir_entry list \<Rightarrow> (string, string) gomap" where
  "dir_disk dir files = map (\<lambda>f. (image_path dir (de_Name f), de_Content f)) (filter (\<lambda>f. \<not> de_IsDir f) files)"

definition New :: "bool \<Rightarrow> dir_entry list \<Rightarrow> string \<Rightarrow> storage option" where
  "New mkdir_ok files workspace =
     (let dir = path_join [workspace, CdevImagesDir]
      in if \<not> mkdir_ok then None
         else Some (loadExistingImages files
           \<lparr>baseDir = dir, workspacePath = workspace, images = [], hashIndex = [], totalSize = 0, disk = dir_disk dir files\<rparr>))"

section \<open>Consistency\<close>

text \<open>
  The index of contents and the index of images agree, the cached size is the size of the images, and every image has
  its file, of its size and with its content.
\<close>

definition sizes :: "(string, stored_image) gomap \<Rightarrow> int" where
  "sizes m = sum_list (map (\<lambda>(k, img). img_Size img) m)"

definition filed :: "storage \<Rightarrow> string \<Rightarrow> stored_image \<Rightarrow> bool" where
  "filed s k img \<longleftrightarrow> img_ID img = k \<and> k \<noteq> [] \<and>
     (\<exists>data. mget (disk s) (FullPath img) = Some data \<and> int (length data) = img_Size img \<and>
        (ContentHash img \<noteq> [] \<longrightarrow> ContentHash img = hex_encode (sha256 data) \<and> mget (hashIndex s) (ContentHash img) = Some k))"

definition storage_ok :: "storage \<Rightarrow> bool" where
  "storage_ok s \<longleftrightarrow> wf_map (images s) \<and> totalSize s = sizes (images s) \<and>
     (\<forall>k img. mget (images s) k = Some img \<longrightarrow> filed s k img) \<and>
     (\<forall>h k. mget (hashIndex s) h = Some k \<longrightarrow> (\<exists>img. mget (images s) k = Some img \<and> ContentHash img = h)) \<and>
     (\<forall>k k' img img'. mget (images s) k = Some img \<longrightarrow> mget (images s) k' = Some img' \<longrightarrow> FullPath img = FullPath img' \<longrightarrow> k = k')"

lemma storage_okI [intro]:
  assumes "wf_map (images s)" "totalSize s = sizes (images s)"
    "\<And>k img. mget (images s) k = Some img \<Longrightarrow> filed s k img"
    "\<And>h k. mget (hashIndex s) h = Some k \<Longrightarrow> \<exists>img. mget (images s) k = Some img \<and> ContentHash img = h"
    "\<And>k k' img img'. mget (images s) k = Some img \<Longrightarrow> mget (images s) k' = Some img' \<Longrightarrow> FullPath img = FullPath img' \<Longrightarrow> k = k'"
  shows "storage_ok s"
  using assms by (auto simp: storage_ok_def)

lemma storage_okD:
  assumes "storage_ok s"
  shows "wf_map (images s)" "totalSize s = sizes (images s)"
    "mget (images s) k = Some img \<Longrightarrow> filed s k img"
    "mget (hashIndex s) h = Some k \<Longrightarrow> \<exists>img. mget (images s) k = Some img \<and> ContentHash img = h"
    "mget (images s) k = Some img \<Longrightarrow> mget (images s) k' = Some img' \<Longrightarrow> FullPath img = FullPath img' \<Longrightarrow> k = k'"
  using assms by (auto simp: storage_ok_def)

lemma sizes_simps [simp]: "sizes [] = 0" "sizes ((k, img) # m) = img_Size img + sizes m"
  by (simp_all add: sizes_def)

lemma sizes_new: "mget m k = None \<Longrightarrow> sizes (mput k img m) = sizes m + img_Size img"
  by (induction m) (auto split: if_splits)

lemma sizes_same: "mget m k = Some old \<Longrightarrow> img_Size img = img_Size old \<Longrightarrow> sizes (mput k img m) = sizes m"
  by (induction m) (auto split: if_splits)

lemma mdel_absent: "mget m k = None \<Longrightarrow> mdel k m = m"
  by (induction m) (auto split: if_splits)

lemma sizes_mdel: "wf_map m \<Longrightarrow> mget m k = Some img \<Longrightarrow> sizes (mdel k m) = sizes m - img_Size img"
proof (induction m)
  case (Cons x m)
  obtain k' v where x: "x = (k', v)" by (cases x)
  show ?case
  proof (cases "k = k'")
    case True
    then have "mget m k = None" using Cons.prems(1) by (auto simp: x wf_map_def map_of_eq_None_iff)
    then show ?thesis using True Cons.prems(2) by (simp add: x mdel_absent)
  next
    case False
    then show ?thesis using Cons by (simp add: x wf_map_def)
  qed
qed simp

lemma drop_image_fields [simp]:
  "images (drop_image e k img s) = mdel k (images s)" "totalSize (drop_image e k img s) = totalSize s - img_Size img"
  "hashIndex (drop_image e k img s) = mdel (ContentHash img) (hashIndex s)" "baseDir (drop_image e k img s) = baseDir s"
  "workspacePath (drop_image e k img s) = workspacePath s"
  by (simp_all add: drop_image_def)

lemma os_Remove_other [simp]: "p \<noteq> q \<Longrightarrow> mget (os_Remove e p d) q = mget d q"
  by (simp add: os_Remove_def)

lemma disk_drop_image: "p \<noteq> FullPath img \<Longrightarrow> mget (disk (drop_image e k img s)) p = mget (disk s) p"
  by (simp add: drop_image_def)

text \<open>Removing one image that the index holds keeps the storage consistent.\<close>

lemma drop_image_ok:
  assumes ok: "storage_ok s" and img: "mget (images s) k = Some img"
  shows "storage_ok (drop_image e k img s)"
proof
  show "wf_map (images (drop_image e k img s))" using storage_okD(1) [OF ok] by simp
  show "totalSize (drop_image e k img s) = sizes (images (drop_image e k img s))"
    using storage_okD(1,2) [OF ok] img by (simp add: sizes_mdel)
next
  fix k' img' assume "mget (images (drop_image e k img s)) k' = Some img'"
  then have g: "mget (images s) k' = Some img'" "k' \<noteq> k" by (auto split: if_splits)
  then have "FullPath img' \<noteq> FullPath img" using storage_okD(5) [OF ok img] by metis
  moreover have "ContentHash img' = [] \<or> ContentHash img \<noteq> ContentHash img'"
  proof (rule ccontr)
    assume "\<not> ?thesis"
    with storage_okD(3) [OF ok img] storage_okD(3) [OF ok g(1)] have "k = k'" by (auto simp: filed_def)
    with g(2) show False by simp
  qed
  ultimately show "filed (drop_image e k img s) k' img'"
    using storage_okD(3) [OF ok g(1)] by (auto simp: filed_def disk_drop_image)
next
  fix h k' assume "mget (hashIndex (drop_image e k img s)) h = Some k'"
  then have h: "mget (hashIndex s) h = Some k'" "h \<noteq> ContentHash img" by (auto split: if_splits)
  from storage_okD(4) [OF ok h(1)] h(2) img
  show "\<exists>i. mget (images (drop_image e k img s)) k' = Some i \<and> ContentHash i = h" by auto
next
  fix k1 k2 i1 i2
  assume "mget (images (drop_image e k img s)) k1 = Some i1" "mget (images (drop_image e k img s)) k2 = Some i2"
    "FullPath i1 = FullPath i2"
  then show "k1 = k2" using storage_okD(5) [OF ok] by (auto split: if_splits)
qed

text \<open>What a sequence of removals keeps: consistency, and everything bounded by what was there.\<close>

definition shrinks :: "storage \<Rightarrow> storage \<Rightarrow> bool" where
  "shrinks s s' \<longleftrightarrow> storage_ok s' \<and> length (images s') \<le> length (images s) \<and> totalSize s' \<le> totalSize s \<and>
     baseDir s' = baseDir s \<and> workspacePath s' = workspacePath s \<and>
     (\<forall>k img. mget (images s') k = Some img \<longrightarrow> mget (images s) k = Some img) \<and>
     (\<forall>h k. mget (hashIndex s') h = Some k \<longrightarrow> mget (hashIndex s) h = Some k) \<and>
     (\<forall>p. mget (disk s) p = None \<longrightarrow> mget (disk s') p = None)"

lemma shrinks_refl: "storage_ok s \<Longrightarrow> shrinks s s"
  by (simp add: shrinks_def)

lemma shrinks_trans: "shrinks s t \<Longrightarrow> shrinks t u \<Longrightarrow> shrinks s u"
  unfolding shrinks_def by auto

lemma shrinks_drop:
  assumes "storage_ok s" "mget (images s) k = Some img"
  shows "shrinks s (drop_image e k img s)"
proof -
  have "0 \<le> img_Size img" using storage_okD(3) [OF assms] by (auto simp: filed_def)
  moreover have "length (mdel k (images s)) \<le> length (images s)" by (induction "images s") (simp_all add: mdel_eq_filter)
  moreover have "mget (disk (drop_image e k img s)) p = None" if "mget (disk s) p = None" for p
    using that by (simp add: drop_image_def os_Remove_def)
  ultimately show ?thesis
    using drop_image_ok [OF assms] by (auto simp: shrinks_def split: if_splits)
qed

lemma cleanup_fold:
  assumes "storage_ok s" "distinct (map fst xs)" "\<forall>(k, img) \<in> set xs. mget (images s) k = Some img"
  shows "shrinks s (fold (\<lambda>(k, img) s. if img_ExpiresAt img < now then drop_image e k img s else s) xs s) \<and>
    (\<forall>k. mget (images (fold (\<lambda>(k, img) s. if img_ExpiresAt img < now then drop_image e k img s else s) xs s)) k =
       (if \<exists>img. (k, img) \<in> set xs \<and> img_ExpiresAt img < now then None else mget (images s) k))"
  using assms
proof (induction xs arbitrary: s)
  case Nil
  then show ?case by (simp add: shrinks_refl)
next
  case (Cons x xs)
  obtain k img where x: "x = (k, img)" by (cases x)
  define t where "t = (if img_ExpiresAt img < now then drop_image e k img s else s)"
  have img: "mget (images s) k = Some img" using Cons.prems(3) by (simp add: x)
  have st: "shrinks s t" using Cons.prems(1) img by (simp add: t_def shrinks_refl shrinks_drop)
  then have ok: "storage_ok t" by (simp add: shrinks_def)
  have new: "k \<notin> fst ` set xs" using Cons.prems(2) by (simp add: x)
  then have "\<forall>(k', i) \<in> set xs. mget (images t) k' = Some i"
    using Cons.prems(3) by (force simp: t_def)
  note IH = Cons.IH [OF ok _ this]
  have "(\<exists>i. (k', i) \<in> set (x # xs) \<and> img_ExpiresAt i < now) \<longleftrightarrow>
      k' = k \<and> img_ExpiresAt img < now \<or> (\<exists>i. (k', i) \<in> set xs \<and> img_ExpiresAt i < now)" for k'
    by (auto simp: x)
  then show ?case
    using IH Cons.prems(2) shrinks_trans [OF st] by (simp add: x t_def [symmetric]) (auto simp: t_def)
qed

lemma range_entries_distinct: "distinct ks \<Longrightarrow> distinct (map fst (range_entries ks m))"
proof (induction ks)
  case (Cons k ks)
  have "fst ` set (range_entries ks m) \<subseteq> set ks" by (auto simp: set_range_entries_mget)
  then show ?case using Cons by (auto simp: range_entries_def split: option.splits)
qed (simp add: range_entries_def)

text \<open>A cleanup removes exactly the expired images, whatever the order of its visits.\<close>

lemma cleanup_exact:
  assumes "storage_ok s" "distinct (visits e)" "fst ` set (images s) \<subseteq> set (visits e)"
  shows "shrinks s (cleanupExpiredLocked e now s)"
    "mget (images (cleanupExpiredLocked e now s)) k =
       (case mget (images s) k of None \<Rightarrow> None | Some img \<Rightarrow> if img_ExpiresAt img < now then None else Some img)"
proof -
  have vals: "\<forall>(k, img) \<in> set (range_entries (visits e) (images s)). mget (images s) k = Some img"
    by (auto simp: set_range_entries_mget)
  note fold = cleanup_fold [OF assms(1) range_entries_distinct [OF assms(2)] vals, of now e]
  from fold show "shrinks s (cleanupExpiredLocked e now s)" by (simp add: cleanupExpiredLocked_def)
  have "k \<in> set (visits e)" if "mget (images s) k \<noteq> None" using that assms(3) keys_mget [of k "images s"] by auto
  then have "(\<exists>img. (k, img) \<in> set (range_entries (visits e) (images s)) \<and> img_ExpiresAt img < now) \<longleftrightarrow>
      (\<exists>img. mget (images s) k = Some img \<and> img_ExpiresAt img < now)"
    by (auto simp: set_range_entries_mget)
  then show "mget (images (cleanupExpiredLocked e now s)) k =
       (case mget (images s) k of None \<Rightarrow> None | Some img \<Rightarrow> if img_ExpiresAt img < now then None else Some img)"
    using fold by (auto simp: cleanupExpiredLocked_def split: option.split)
qed

lemma evict_shrinks: "storage_ok s \<Longrightarrow> shrinks s (evictOldestLocked e s)"
  by (auto simp: evictOldestLocked_def Let_def shrinks_refl shrinks_drop split: option.split)

lemma free_space_shrinks:
  assumes "storage_ok s" "distinct (visits e)" "fst ` set (images s) \<subseteq> set (visits e)"
  shows "shrinks s (snd (free_space e n s))"
  using shrinks_refl [OF assms(1)] cleanup_exact(1) [OF assms, of "clock e 0"]
    shrinks_trans [OF cleanup_exact(1) [OF assms, of "clock e 0"] evict_shrinks]
  by (simp add: free_space_def Let_def shrinks_def)

lemma free_space_room: "free_space e n s = (None, s') \<Longrightarrow> canAcceptUploadLocked n s' = None"
  by (auto simp: free_space_def Let_def split: if_splits)

section \<open>Storing\<close>

text \<open>
  The identifier is new: no image has it, and neither file it would be written to exists. It is the beginning of a
  UUID, digits and dashes, so it has no slash.
\<close>

definition fresh_upload :: "disk_env \<Rightarrow> storage \<Rightarrow> bool" where
  "fresh_upload e s \<longleftrightarrow>
     (let k = take 12 (new_uuid e)
      in k \<noteq> [] \<and> CHR ''/'' \<notin> set k \<and> mget (images s) k = None \<and>
         (\<forall>ext \<in> snd ` set supportedMimeTypes.
            mget (disk s) (image_path (baseDir s) (image_name k ext)) = None \<and>
            mget (disk s) (image_path (baseDir s) (image_name k ext) @ ''.tmp'') = None))"

definition visits_all :: "disk_env \<Rightarrow> storage \<Rightarrow> bool" where
  "visits_all e s \<longleftrightarrow> distinct (visits e) \<and> fst ` set (images s) \<subseteq> set (visits e)"

lemma fresh_shrinks: "fresh_upload e s \<Longrightarrow> shrinks s t \<Longrightarrow> fresh_upload e t"
proof -
  assume f: "fresh_upload e s" and sh: "shrinks s t"
  have "mget (images t) k = None" if "mget (images s) k = None" for k
    using sh that unfolding shrinks_def by (metis not_None_eq)
  moreover have "mget (disk t) q = None" if "mget (disk s) q = None" for q
    using sh that unfolding shrinks_def by blast
  moreover have "baseDir t = baseDir s" using sh unfolding shrinks_def by blast
  ultimately show ?thesis using f by (simp add: fresh_upload_def Let_def)
qed

lemma image_not_at:
  assumes "storage_ok s" "mget (images s) k = Some img" "mget (disk s) p = None"
  shows "FullPath img \<noteq> p"
  using storage_okD(3) [OF assms(1,2)] assms(3) by (auto simp: filed_def)

text \<open>Changing the files at two paths where there are no images changes no image.\<close>

lemma disk_ok:
  assumes "storage_ok s" "\<And>k img. mget (images s) k = Some img \<Longrightarrow> mget d (FullPath img) = mget (disk s) (FullPath img)"
  shows "storage_ok (s\<lparr>disk := d\<rparr>)"
proof
  fix k img assume "mget (images (s\<lparr>disk := d\<rparr>)) k = Some img"
  then show "filed (s\<lparr>disk := d\<rparr>) k img" using storage_okD(3) [OF assms(1)] assms(2) by (simp add: filed_def)
qed (use storage_okD [OF assms(1)] in simp_all)

lemma save_image_ok:
  assumes ok: "storage_ok s" and fresh: "fresh_upload e s" and ext: "ext \<in> snd ` set supportedMimeTypes"
    and new: "mget (hashIndex s) (hex_encode (sha256 data)) = None"
  shows "storage_ok (snd (save_image e mimeType ext data s))"
    and "baseDir (snd (save_image e mimeType ext data s)) = baseDir s"
    and "snd (save_image e mimeType ext data s) = s' \<Longrightarrow>
      (images s' = images s \<and> totalSize s' = totalSize s) \<or>
      (length (images s') = Suc (length (images s)) \<and> totalSize s' = totalSize s + int (length data))"
proof -
  define k where "k = take 12 (new_uuid e)"
  define full where "full = image_path (baseDir s) (image_name k ext)"
  have k: "k \<noteq> []" "mget (images s) k = None" and free: "mget (disk s) full = None" "mget (disk s) (full @ ''.tmp'') = None"
    using fresh ext by (auto simp: fresh_upload_def Let_def k_def full_def)
  have at: "FullPath i \<noteq> full \<and> FullPath i \<noteq> full @ ''.tmp''" if "mget (images s) j = Some i" for i j
    using image_not_at [OF ok that] free by blast
  have failed: "storage_ok (s\<lparr>disk := os_Remove e (full @ ''.tmp'') (mput (full @ ''.tmp'') part (disk s))\<rparr>)" for part
    using at by (intro disk_ok [OF ok]) (simp add: os_Remove_def)
  define img where "img = \<lparr>img_ID = k, LocalPath = path_join [CdevImagesDir, image_name k ext], FullPath = full, MimeType = mimeType,
    img_Size = int (length data), ContentHash = hex_encode (sha256 data), img_CreatedAt = clock e 1, img_ExpiresAt = clock e 1 + ImageTTL\<rparr>"
  define t where "t = s\<lparr>disk := mput full data (mdel (full @ ''.tmp'') (disk s)), images := mput k img (images s),
    hashIndex := mput (hex_encode (sha256 data)) k (hashIndex s), totalSize := totalSize s + img_Size img\<rparr>"
  have saved: "storage_ok t"
  proof
    show "wf_map (images t)" using storage_okD(1) [OF ok] by (simp add: t_def)
    show "totalSize t = sizes (images t)" using storage_okD(2) [OF ok] k by (simp add: t_def sizes_new)
  next
    fix j i assume j: "mget (images t) j = Some i"
    show "filed t j i"
    proof (cases "j = k")
      case True
      then show ?thesis using j k by (auto simp: t_def img_def filed_def)
    next
      case False
      then have ji: "mget (images s) j = Some i" using j by (simp add: t_def)
      have "ContentHash i \<noteq> [] \<Longrightarrow> ContentHash i \<noteq> hex_encode (sha256 data)"
        using storage_okD(3) [OF ok ji] new by (auto simp: filed_def)
      then show ?thesis using storage_okD(3) [OF ok ji] at [OF ji] by (auto simp: t_def filed_def)
    qed
  next
    fix h j assume "mget (hashIndex t) h = Some j"
    then have hj: "if h = hex_encode (sha256 data) then j = k else mget (hashIndex s) h = Some j" by (auto simp: t_def split: if_splits)
    show "\<exists>i. mget (images t) j = Some i \<and> ContentHash i = h"
    proof (cases "h = hex_encode (sha256 data)")
      case True
      then show ?thesis using hj by (simp add: t_def img_def)
    next
      case False
      then show ?thesis using hj storage_okD(4) [OF ok, of h j] k by (auto simp: t_def)
    qed
  next
    fix j1 j2 i1 i2
    assume j: "mget (images t) j1 = Some i1" "mget (images t) j2 = Some i2" and same: "FullPath i1 = FullPath i2"
    have "FullPath i = full \<longleftrightarrow> j = k" if "mget (images t) j = Some i" for i j
      using that at [of j i] by (auto simp: t_def img_def split: if_splits)
    then have "j1 = k \<longleftrightarrow> j2 = k" using j same by metis
    then show "j1 = j2"
      using j same storage_okD(5) [OF ok, of j1 i1 j2 i2] by (auto simp: t_def split: if_splits)
  qed
  have cases: "snd (save_image e mimeType ext data s) =
      (case writes e of Create_fails \<Rightarrow> s
       | Write_fails part \<Rightarrow> s\<lparr>disk := os_Remove e (full @ ''.tmp'') (mput (full @ ''.tmp'') part (disk s))\<rparr>
       | Rename_fails \<Rightarrow> s\<lparr>disk := os_Remove e (full @ ''.tmp'') (mput (full @ ''.tmp'') data (disk s))\<rparr>
       | Saved \<Rightarrow> t)"
    by (simp add: save_image_def Let_def k_def full_def t_def img_def split: writing.split)
  show "storage_ok (snd (save_image e mimeType ext data s))"
    using ok failed saved unfolding cases by (cases "writes e") simp_all
  show "baseDir (snd (save_image e mimeType ext data s)) = baseDir s"
    unfolding cases by (cases "writes e") (simp_all add: t_def)
  show "(images s' = images s \<and> totalSize s' = totalSize s) \<or>
      (length (images s') = Suc (length (images s)) \<and> totalSize s' = totalSize s + int (length data))"
    if "snd (save_image e mimeType ext data s) = s'"
    using that [symmetric] k unfolding cases by (cases "writes e") (simp_all add: t_def img_def length_mput)
qed

text \<open>A store of data that passes the checks.\<close>

lemma Store_valid:
  assumes "mget supportedMimeTypes mimeType = Some ext" "int (length data) \<le> megabytes MaxSingleImageMB"
    "validateMagicBytes data mimeType"
  shows "Store e (Some data) mimeType s =
    (case duplicate (hex_encode (sha256 data)) s of
       Some (k, img) \<Rightarrow>
         (let img' = img\<lparr>img_ExpiresAt := clock e 0 + ImageTTL\<rparr> in (Inr img', s\<lparr>images := mput k img' (images s)\<rparr>))
     | None \<Rightarrow>
         (case free_space e (int (length data)) s of
            (Some msg, s1) \<Rightarrow> (Inl msg, s1)
          | (None, s1) \<Rightarrow> save_image e mimeType ext data s1))"
proof -
  have "int (nat (megabytes MaxSingleImageMB + 1)) = megabytes MaxSingleImageMB + 1"
    by (simp add: megabytes_def MaxSingleImageMB_def)
  then have "take (nat (megabytes MaxSingleImageMB + 1)) data = data" using assms(2) by simp
  then show ?thesis using assms by (simp add: Store_def Let_def)
qed

text \<open>Stores that a check refuses.\<close>

lemma Store_unsupported:
  "mget supportedMimeTypes mimeType = None \<Longrightarrow>
    Store e reader mimeType s = (Inl (''unsupported image type: '' @ mimeType @ '' (supported: jpeg, png, gif, webp)''), s)"
  by (simp add: Store_def)

lemma Store_too_large:
  assumes "mget supportedMimeTypes mimeType = Some ext" "megabytes MaxSingleImageMB < int (length data)"
  shows "Store e (Some data) mimeType s = (Inl ''image exceeds maximum size of 10MB'', s)"
proof -
  have "int (nat (megabytes MaxSingleImageMB + 1)) = megabytes MaxSingleImageMB + 1"
    by (simp add: megabytes_def MaxSingleImageMB_def)
  then have "megabytes MaxSingleImageMB < int (length (take (nat (megabytes MaxSingleImageMB + 1)) data))"
    using assms(2) by (simp add: min_def)
  then show ?thesis using assms(1) by (simp add: Store_def Let_def del: length_take)
qed

lemma Store_bad_format:
  assumes "mget supportedMimeTypes mimeType = Some ext" "int (length data) \<le> megabytes MaxSingleImageMB"
    "\<not> validateMagicBytes data mimeType"
  shows "Store e (Some data) mimeType s = (Inl (''invalid image format: content does not match declared type '' @ mimeType), s)"
proof -
  have "int (nat (megabytes MaxSingleImageMB + 1)) = megabytes MaxSingleImageMB + 1"
    by (simp add: megabytes_def MaxSingleImageMB_def)
  then have "take (nat (megabytes MaxSingleImageMB + 1)) data = data" using assms(2) by simp
  then show ?thesis using assms by (simp add: Store_def Let_def)
qed

text \<open>The state after a store, by its outcome.\<close>

lemma Store_cases:
  obtains (refused) "snd (Store e reader mimeType s) = s" "\<exists>err. fst (Store e reader mimeType s) = Inl err"
  | (known) data ext k img where "reader = Some data" "mget supportedMimeTypes mimeType = Some ext"
      "int (length data) \<le> megabytes MaxSingleImageMB" "validateMagicBytes data mimeType" "duplicate (hex_encode (sha256 data)) s = Some (k, img)"
      "Store e reader mimeType s = (Inr (img\<lparr>img_ExpiresAt := clock e 0 + ImageTTL\<rparr>),
         s\<lparr>images := mput k (img\<lparr>img_ExpiresAt := clock e 0 + ImageTTL\<rparr>) (images s)\<rparr>)"
  | (full) data msg where "reader = Some data" "Store e reader mimeType s = (Inl msg, snd (free_space e (int (length data)) s))"
  | (written) data ext s1 where "reader = Some data" "mget supportedMimeTypes mimeType = Some ext"
      "int (length data) \<le> megabytes MaxSingleImageMB" "validateMagicBytes data mimeType"
      "duplicate (hex_encode (sha256 data)) s = None" "free_space e (int (length data)) s = (None, s1)"
      "Store e reader mimeType s = save_image e mimeType ext data s1"
proof (cases "mget supportedMimeTypes mimeType")
  case None
  then show thesis by (intro refused) (simp_all add: Store_def)
next
  case ext: (Some ext)
  show thesis
  proof (cases reader)
    case None
    then show thesis by (intro refused) (simp_all add: Store_def ext)
  next
    case whole: (Some whole)
    define n where "n = nat (megabytes MaxSingleImageMB + 1)"
    have n: "int n = megabytes MaxSingleImageMB + 1" by (simp add: n_def megabytes_def MaxSingleImageMB_def)
    define bad where "bad \<longleftrightarrow> int (length (take n whole)) > megabytes MaxSingleImageMB \<or> \<not> validateMagicBytes (take n whole) mimeType"
    note unf = Store_def ext whole option.case n_def [symmetric] Let_def
    show thesis
    proof (cases bad)
      case True
      then show thesis by (intro refused) (auto simp: unf bad_def simp del: length_take)
    next
      case False
      then have "length (take n whole) < n" using n by (simp add: bad_def)
      then have w: "take n whole = whole" by (simp add: min_def split: if_splits)
      have good: "int (length whole) \<le> megabytes MaxSingleImageMB" "validateMagicBytes whole mimeType"
        using False unfolding bad_def w by simp_all
      note store = Store_valid [OF ext good, of e s, folded whole]
      show thesis
      proof (cases "duplicate (hex_encode (sha256 whole)) s")
        case None
        obtain r s1 where fs: "free_space e (int (length whole)) s = (r, s1)" by (cases "free_space e (int (length whole)) s")
        show thesis
        proof (cases r)
          case (Some msg)
          then show thesis using full [OF whole, of msg] by (simp add: store None fs)
        next
          case rn: None
          show thesis by (rule written [OF whole ext good None]) (simp_all add: store None fs rn)
        qed
      next
        case (Some ki)
        obtain k img where ki: "ki = (k, img)" by (cases ki)
        then show thesis using known [OF whole ext good, of k img] by (simp add: store Some Let_def)
      qed
    qed
  qed
qed

lemma duplicate_SomeD: "duplicate h s = Some (k, img) \<Longrightarrow> mget (hashIndex s) h = Some k \<and> mget (images s) k = Some img"
  by (auto simp: duplicate_def split: option.splits)

lemma no_duplicate: "storage_ok s \<Longrightarrow> duplicate h s = None \<Longrightarrow> mget (hashIndex s) h = None"
  using storage_okD(4) [of s h] by (force simp: duplicate_def split: option.splits)

lemma retouch_ok:
  assumes ok: "storage_ok s" and img: "mget (images s) k = Some img"
  shows "storage_ok (s\<lparr>images := mput k (img\<lparr>img_ExpiresAt := t\<rparr>) (images s)\<rparr>)"
proof
  show "wf_map (images (s\<lparr>images := mput k (img\<lparr>img_ExpiresAt := t\<rparr>) (images s)\<rparr>))" using storage_okD(1) [OF ok] by simp
  show "totalSize (s\<lparr>images := mput k (img\<lparr>img_ExpiresAt := t\<rparr>) (images s)\<rparr>) =
      sizes (images (s\<lparr>images := mput k (img\<lparr>img_ExpiresAt := t\<rparr>) (images s)\<rparr>))"
    using storage_okD(2) [OF ok] img by (simp add: sizes_same)
next
  fix h j assume "mget (hashIndex (s\<lparr>images := mput k (img\<lparr>img_ExpiresAt := t\<rparr>) (images s)\<rparr>)) h = Some j"
  then obtain i where "mget (images s) j = Some i" "ContentHash i = h" using storage_okD(4) [OF ok, of h j] by auto
  then show "\<exists>i. mget (images (s\<lparr>images := mput k (img\<lparr>img_ExpiresAt := t\<rparr>) (images s)\<rparr>)) j = Some i \<and> ContentHash i = h"
    using img by auto
qed (use storage_okD(3,5) [OF ok] img in \<open>auto simp: filed_def split: if_splits\<close>)

section \<open>Every history of a storage\<close>

text \<open>The limits a history keeps: those of the constants, or what was found when the storage was opened.\<close>

definition within :: "storage \<Rightarrow> storage \<Rightarrow> bool" where
  "within s0 s \<longleftrightarrow>
     int (length (images s)) \<le> max MaxImagesCount (int (length (images s0))) \<and>
     totalSize s \<le> max (megabytes MaxTotalSizeMB) (totalSize s0)"

lemma shrinks_ok: "shrinks s t \<Longrightarrow> storage_ok t"
  by (simp add: shrinks_def)

lemma within_shrinks: "within s0 s \<Longrightarrow> shrinks s t \<Longrightarrow> within s0 t"
  by (auto simp: within_def shrinks_def)

inductive storage_reach :: "storage \<Rightarrow> storage \<Rightarrow> bool" for s0 where
  opened: "storage_reach s0 s0"
| stored: "storage_reach s0 s \<Longrightarrow> visits_all e s \<Longrightarrow> fresh_upload e s \<Longrightarrow> storage_reach s0 (snd (Store e reader mimeType s))"
| deleted: "storage_reach s0 s \<Longrightarrow> storage_reach s0 (snd (image_Delete e k s))"
| cleared: "storage_reach s0 s \<Longrightarrow> storage_reach s0 (image_Clear e s)"
| cleaned: "storage_reach s0 s \<Longrightarrow> visits_all e s \<Longrightarrow> storage_reach s0 (Cleanup e s)"

lemma Store_keeps:
  assumes ok: "storage_ok s" and lim: "within s0 s" and v: "visits_all e s" and f: "fresh_upload e s"
  shows "storage_ok (snd (Store e reader mimeType s)) \<and> within s0 (snd (Store e reader mimeType s))"
proof (cases rule: Store_cases [of e reader mimeType s])
  case refused
  then show ?thesis using ok lim by simp
next
  case (known data ext k img)
  then have img: "mget (images s) k = Some img" using duplicate_SomeD by metis
  then have "length (mput k i (images s)) = length (images s)" for i by (simp add: length_mput)
  then show ?thesis using known(6) retouch_ok [OF ok img] lim by (simp add: within_def)
next
  case (full data msg)
  then show ?thesis
    using free_space_shrinks [OF ok, of e] v within_shrinks [OF lim] shrinks_ok
    by (simp add: visits_all_def) blast
next
  case (written data ext s1)
  have sh: "shrinks s s1" using free_space_shrinks [OF ok, of e "int (length data)"] v written(6) by (simp add: visits_all_def)
  then have ok1: "storage_ok s1" by (simp add: shrinks_def)
  have new: "mget (hashIndex s1) (hex_encode (sha256 data)) = None"
    using no_duplicate [OF ok written(5)] sh unfolding shrinks_def by (metis not_None_eq)
  have ext: "ext \<in> snd ` set supportedMimeTypes" using mget_in_set [OF written(2)] by force
  note sv = save_image_ok [OF ok1 fresh_shrinks [OF f sh] ext new]
  have room: "int (length (images s1)) < MaxImagesCount" "totalSize s1 + int (length data) \<le> megabytes MaxTotalSizeMB"
    using free_space_room [OF written(6)] by (auto simp: canAcceptUploadLocked_def split: if_splits)
  then show ?thesis using sv(1) sv(3) [OF refl, of mimeType] within_shrinks [OF lim sh]
    unfolding written(7) within_def by auto
qed

lemma Clear_ok: "storage_ok (image_Clear e s)"
  by rule (simp_all add: image_Clear_def)

lemma Delete_shrinks: "storage_ok s \<Longrightarrow> shrinks s (snd (image_Delete e k s))"
  by (auto simp: image_Delete_def shrinks_refl shrinks_drop split: option.split)

lemma reach_keeps:
  assumes "storage_reach s0 s" "storage_ok s0"
  shows "storage_ok s \<and> within s0 s"
  using assms
proof (induction rule: storage_reach.induct)
  case opened
  then show ?case by (simp add: within_def)
next
  case (stored s e reader mimeType)
  then show ?case using Store_keeps by blast
next
  case (deleted s e k)
  then have "shrinks s (snd (image_Delete e k s))" using Delete_shrinks by blast
  then show ?case using deleted within_shrinks shrinks_ok by blast
next
  case (cleared s e)
  then show ?case using Clear_ok by (simp add: within_def image_Clear_def MaxImagesCount_def megabytes_def MaxTotalSizeMB_def)
next
  case (cleaned s e)
  then have "shrinks s (Cleanup e s)" unfolding Cleanup_def by (intro cleanup_exact(1)) (simp_all add: visits_all_def)
  then show ?case using cleaned within_shrinks shrinks_ok by blast
qed

lemma free_space_dirs:
  "baseDir (snd (free_space e n s)) = baseDir s" "workspacePath (snd (free_space e n s)) = workspacePath s"
proof -
  have c: "baseDir (cleanupExpiredLocked e now t) = baseDir t \<and> workspacePath (cleanupExpiredLocked e now t) = workspacePath t" for now t
    unfolding cleanupExpiredLocked_def by (rule fold_invariant [where Q = "\<lambda>_. True"]) auto
  have "baseDir (evictOldestLocked e t) = baseDir t \<and> workspacePath (evictOldestLocked e t) = workspacePath t" for t
    by (auto simp: evictOldestLocked_def Let_def split: option.split)
  then show "baseDir (snd (free_space e n s)) = baseDir s" "workspacePath (snd (free_space e n s)) = workspacePath s"
    using c by (simp_all add: free_space_def Let_def)
qed

lemma reach_dirs: "storage_reach s0 s \<Longrightarrow> baseDir s = baseDir s0 \<and> workspacePath s = workspacePath s0"
proof (induction rule: storage_reach.induct)
  case (stored s e reader mimeType)
  have "baseDir (snd (save_image e m x d t)) = baseDir t \<and> workspacePath (snd (save_image e m x d t)) = workspacePath t" for m x d t
    by (simp add: save_image_def Let_def split: writing.split)
  moreover have "baseDir s1 = baseDir s \<and> workspacePath s1 = workspacePath s" if "free_space e n s = (r, s1)" for n r s1
    using free_space_dirs [of e n s] that by simp
  ultimately show ?case
    using stored.IH by (cases rule: Store_cases [of e reader mimeType s]) (force simp: free_space_dirs)+
next
  case (deleted s e k)
  then show ?case by (auto simp: image_Delete_def split: option.split)
next
  case (cleaned s e)
  have "baseDir (Cleanup e s) = baseDir s \<and> workspacePath (Cleanup e s) = workspacePath s"
    unfolding Cleanup_def cleanupExpiredLocked_def by (rule fold_invariant [where Q = "\<lambda>_. True"]) auto
  then show ?case using cleaned by simp
qed (simp_all add: image_Clear_def)

section \<open>Opening\<close>

text \<open>
  What a directory lists: names without slashes, each once. Further, no two of the files it loads have the same
  identifier (names that differ in the extension only), because the loading counts the sizes of both.
\<close>

definition listing :: "dir_entry list \<Rightarrow> bool" where
  "listing files \<longleftrightarrow> distinct (map de_Name files) \<and> (\<forall>f \<in> set files. plain_comp (de_Name f)) \<and>
     distinct (map (\<lambda>f. extractIDFromFilename (de_Name f)) (filter loads files))"

lemma dir_disk_get:
  assumes dir: "is_abs dir" and l: "listing files" and f: "f \<in> set files" "\<not> de_IsDir f"
  shows "mget (dir_disk dir files) (image_path dir (de_Name f)) = Some (de_Content f)"
proof -
  let ?fs = "filter (\<lambda>f. \<not> de_IsDir f) files"
  have names: "distinct (map de_Name ?fs)" "\<forall>f \<in> set ?fs. plain_comp (de_Name f)"
    using l by (auto simp: listing_def distinct_map_filter)
  then have "inj_on (\<lambda>f. image_path dir (de_Name f)) (set ?fs)"
    unfolding inj_on_def image_path_def using path_join_inj [OF dir] by (metis distinct_map inj_onD)
  then have "distinct (map fst (dir_disk dir files))"
    using names(1) by (simp add: dir_disk_def distinct_map comp_def)
  then show ?thesis using f by (intro map_of_is_SomeI) (auto simp: dir_disk_def)
qed

lemma load_all_ok:
  assumes dir: "is_abs dir" and l: "listing all" and sub: "set files \<subseteq> set all" "listing files"
    and s: "s = \<lparr>baseDir = dir, workspacePath = ws, images = [], hashIndex = [], totalSize = 0, disk = dir_disk dir all\<rparr>"
  shows "storage_ok (fold load_entry files s) \<and> hashIndex (fold load_entry files s) = [] \<and>
    disk (fold load_entry files s) = dir_disk dir all \<and> baseDir (fold load_entry files s) = dir \<and>
    workspacePath (fold load_entry files s) = ws \<and>
    (\<forall>k img. mget (images (fold load_entry files s)) k = Some img \<longrightarrow>
       (\<exists>f \<in> set files. loads f \<and> k = extractIDFromFilename (de_Name f) \<and> FullPath img = image_path dir (de_Name f)))"
  using sub
proof (induction files rule: rev_induct)
  case Nil
  then show ?case by (auto simp: s storage_ok_def)
next
  case (snoc f files)
  let ?t = "fold load_entry files s"
  have "listing files" using snoc.prems by (auto simp: listing_def)
  note IH = snoc.IH [OF _ this]
  have ok: "storage_ok ?t" "hashIndex ?t = []" "disk ?t = dir_disk dir all" "baseDir ?t = dir" "workspacePath ?t = ws"
    and origin: "\<And>k img. mget (images ?t) k = Some img \<Longrightarrow>
       \<exists>g \<in> set files. loads g \<and> k = extractIDFromFilename (de_Name g) \<and> FullPath img = image_path dir (de_Name g)"
    using IH snoc.prems by auto
  show ?case
  proof (cases "loads f")
    case False
    then have "fold load_entry (files @ [f]) s = ?t" by (simp add: load_entry_def)
    then show ?thesis using ok origin by (simp only: set_append) blast
  next
    case True
    define k where "k = extractIDFromFilename (de_Name f)"
    have k: "k \<noteq> []" "\<not> de_IsDir f" using True by (simp_all add: loads_def k_def)
    have new: "mget (images ?t) k = None"
    proof (rule ccontr)
      assume "mget (images ?t) k \<noteq> None"
      then obtain g where "g \<in> set files" "loads g" "k = extractIDFromFilename (de_Name g)" using origin by blast
      then show False using snoc.prems(2) True by (auto simp: listing_def k_def)
    qed
    have path: "FullPath img \<noteq> image_path dir (de_Name f)" if ji: "mget (images ?t) j = Some img" for j img
    proof -
      obtain g where g: "g \<in> set files" "FullPath img = image_path dir (de_Name g)" using origin [OF ji] by blast
      have "distinct (map de_Name (files @ [f]))" "\<forall>g \<in> set (files @ [f]). plain_comp (de_Name g)"
        using snoc.prems(2) unfolding listing_def by blast+
      then have "de_Name f \<notin> de_Name ` set files" "plain_comp (de_Name g)" "plain_comp (de_Name f)" using g(1) by simp_all
      moreover from this(1) have "de_Name g \<noteq> de_Name f" using g(1) by (metis imageI)
      ultimately show ?thesis using g(2) path_join_inj [OF dir] by (simp add: image_path_def)
    qed
    have ff: "mget (dir_disk dir all) (image_path dir (de_Name f)) = Some (de_Content f)"
      using dir_disk_get [OF dir l] snoc.prems(1) k(2) by simp
    define img where "img = \<lparr>img_ID = k, LocalPath = path_join [CdevImagesDir, de_Name f], FullPath = image_path dir (de_Name f),
      MimeType = extensionToMimeType (path_ext (de_Name f)), img_Size = int (length (de_Content f)),
      ContentHash = [], img_CreatedAt = de_ModTime f, img_ExpiresAt = de_ModTime f + ImageTTL\<rparr>"
    have step: "fold load_entry (files @ [f]) s = ?t\<lparr>images := mput k img (images ?t), totalSize := totalSize ?t + img_Size img\<rparr>"
      using True ok(4) by (simp add: load_entry_def k_def img_def Let_def)
    have "storage_ok (?t\<lparr>images := mput k img (images ?t), totalSize := totalSize ?t + img_Size img\<rparr>)"
    proof
      fix j1 j2 i1 i2
      assume "mget (images (?t\<lparr>images := mput k img (images ?t), totalSize := totalSize ?t + img_Size img\<rparr>)) j1 = Some i1"
        "mget (images (?t\<lparr>images := mput k img (images ?t), totalSize := totalSize ?t + img_Size img\<rparr>)) j2 = Some i2"
        "FullPath i1 = FullPath i2"
      then show "j1 = j2" using storage_okD(5) [OF ok(1), of j1 i1 j2 i2] path
        by (auto simp: img_def split: if_splits) (metis (full_types))+
    qed (use storage_okD(1-3) [OF ok(1)] ok(2,3) new ff k(1) in \<open>auto simp: sizes_new filed_def img_def split: if_splits\<close>)
    moreover have "\<exists>g \<in> set (files @ [f]). loads g \<and> j = extractIDFromFilename (de_Name g) \<and> FullPath i = image_path dir (de_Name g)"
      if "mget (mput k img (images ?t)) j = Some i" for j i
      using that origin [of j i] True by (cases "j = k") (auto simp: img_def k_def)
    ultimately show ?thesis unfolding step using ok(2-5) by simp
  qed
qed

lemma New_ok:
  assumes "New True files ws = Some s0" "is_abs ws" "listing files"
  shows "storage_ok s0" "baseDir s0 = path_join [ws, CdevImagesDir]" "workspacePath s0 = ws"
proof -
  have dir: "is_abs (path_join [ws, CdevImagesDir])"
    using path_join_below(3) [OF assms(2), of "[''.cdev'', ''images'']"] by (simp add: plain_comp_def CdevImagesDir_def)
  from load_all_ok [OF dir assms(3) subset_refl assms(3) refl, of ws] assms(1)
  show "storage_ok s0" "baseDir s0 = path_join [ws, CdevImagesDir]" "workspacePath s0 = ws"
    by (auto simp: New_def Let_def loadExistingImages_def)
qed

section \<open>Where images lie\<close>

lemma path_ext_dot:
  assumes "CHR ''.'' \<notin> set e" "CHR ''/'' \<notin> set e"
  shows "path_ext (p @ CHR ''.'' # e) = CHR ''.'' # e"
proof -
  have "takeWhile (\<lambda>c. c \<noteq> CHR ''/'') (rev e @ CHR ''.'' # q) = rev e @ CHR ''.'' # takeWhile (\<lambda>c. c \<noteq> CHR ''/'') q" for q
    using assms(2) by (simp add: takeWhile_append)
  then have "after_slash (p @ CHR ''.'' # e) = after_slash p @ CHR ''.'' # e" by (simp add: after_slash_def)
  moreover have "takeWhile (\<lambda>c. c \<noteq> CHR ''.'') (rev e @ CHR ''.'' # q) = rev e" for q
    using assms(1) by (simp add: takeWhile_append)
  ultimately show ?thesis by (simp add: path_ext_def)
qed

lemma extract_image_name:
  assumes "ext \<in> snd ` set supportedMimeTypes"
  shows "extractIDFromFilename (image_name k ext) = k"
proof -
  obtain e where e: "ext = CHR ''.'' # e" "CHR ''.'' \<notin> set e" "CHR ''/'' \<notin> set e"
    using assms by (auto simp: supportedMimeTypes_def)
  then have "path_ext (k @ ext) = ext" using path_ext_dot by simp
  moreover have "trim_prefix ''img_'' (image_name k ext) = k @ ext" "has_prefix ''img_'' (image_name k ext)"
    unfolding image_name_def by (simp_all only: str_laws)
  ultimately show ?thesis by (simp add: extractIDFromFilename_def Let_def)
qed

lemma image_name_plain:
  assumes "ext \<in> snd ` set supportedMimeTypes" "CHR ''/'' \<notin> set k"
  shows "plain_comp (image_name k ext)"
  using assms by (auto simp: supportedMimeTypes_def plain_comp_def image_name_def)

text \<open>Every image lies directly in the directory, under a name from which its identifier is read back.\<close>

definition placed :: "storage \<Rightarrow> bool" where
  "placed s \<longleftrightarrow>
     (\<forall>k img. mget (images s) k = Some img \<longrightarrow>
        (\<exists>nm. plain_comp nm \<and> extractIDFromFilename nm = k \<and> FullPath img = path_join [baseDir s, nm] \<and>
           LocalPath img = path_join [CdevImagesDir, nm]))"

lemma placed_shrinks: "placed s \<Longrightarrow> shrinks s t \<Longrightarrow> placed t"
  unfolding placed_def shrinks_def by metis

lemma placed_retouch: "placed s \<Longrightarrow> mget (images s) k = Some img \<Longrightarrow>
    placed (s\<lparr>images := mput k (img\<lparr>img_ExpiresAt := t\<rparr>) (images s)\<rparr>)"
  unfolding placed_def by (auto split: if_splits)

lemma placed_save:
  assumes "placed s" "fresh_upload e s" "ext \<in> snd ` set supportedMimeTypes"
  shows "placed (snd (save_image e mimeType ext data s))"
proof -
  let ?k = "take 12 (new_uuid e)"
  have "CHR ''/'' \<notin> set ?k" using assms(2) by (simp add: fresh_upload_def Let_def)
  then have "plain_comp (image_name ?k ext)" "extractIDFromFilename (image_name ?k ext) = ?k"
    using image_name_plain extract_image_name assms(3) by auto
  then show ?thesis
    using assms(1) by (cases "writes e") (auto simp: save_image_def Let_def placed_def image_path_def split: if_splits)
qed

lemma placed_reach:
  assumes "storage_reach s0 s" "storage_ok s0" "placed s0"
  shows "placed s"
  using assms
proof (induction rule: storage_reach.induct)
  case (stored s e reader mimeType)
  have ok: "storage_ok s" using reach_keeps stored.hyps(1) stored.prems(1) by blast
  have pl: "placed s" using stored by blast
  have sh: "shrinks s (snd (free_space e n s))" for n
    using free_space_shrinks [OF ok] stored.hyps(2) by (simp add: visits_all_def)
  show ?case
  proof (cases rule: Store_cases [of e reader mimeType s])
    case refused
    then show ?thesis using pl by simp
  next
    case (known data ext k img)
    then show ?thesis using placed_retouch [OF pl] duplicate_SomeD by fastforce
  next
    case (full data msg)
    then show ?thesis using placed_shrinks [OF pl sh] by simp
  next
    case (written data ext s1)
    have s1: "shrinks s s1" using sh [of "int (length data)"] written(6) by simp
    have "ext \<in> snd ` set supportedMimeTypes" using mget_in_set [OF written(2)] by force
    then show ?thesis
      unfolding written(7) by (rule placed_save [OF placed_shrinks [OF pl s1] fresh_shrinks [OF stored.hyps(3) s1]])
  qed
next
  case (deleted s e k)
  then have "storage_ok s" using reach_keeps by blast
  then show ?case using placed_shrinks Delete_shrinks deleted by blast
next
  case (cleared s e)
  then show ?case by (simp add: placed_def image_Clear_def)
next
  case (cleaned s e)
  then have "storage_ok s" using reach_keeps by blast
  then have "shrinks s (Cleanup e s)"
    using cleaned.hyps(2) unfolding Cleanup_def by (intro cleanup_exact(1)) (simp_all add: visits_all_def)
  then show ?case using placed_shrinks cleaned by blast
qed

lemma placed_load:
  assumes "placed s" "plain_comp (de_Name f)"
  shows "placed (load_entry f s) \<and> baseDir (load_entry f s) = baseDir s"
  using assms by (auto simp: load_entry_def placed_def image_path_def Let_def split: if_splits)

lemma placed_New:
  assumes "New True files ws = Some s0" "listing files"
  shows "placed s0"
proof -
  have "placed (fold load_entry fs t)" if "placed t" "\<forall>f \<in> set fs. plain_comp (de_Name f)" for fs t
    using that by (induction fs arbitrary: t) (simp_all add: placed_load)
  moreover have "\<forall>f \<in> set files. plain_comp (de_Name f)" using assms(2) by (simp add: listing_def)
  ultimately show ?thesis
    using assms(1) by (auto simp: New_def Let_def loadExistingImages_def placed_def)
qed

text \<open>The two paths written out.\<close>

lemma images_comps: "join ''/'' [''.cdev'', ''images''] = CdevImagesDir" "\<forall>c \<in> set [''.cdev'', ''images'']. plain_comp c"
  by (simp_all add: CdevImagesDir_def plain_comp_def)

lemma full_path_below:
  assumes "is_abs ws" "dir = path_join [ws, CdevImagesDir]" "plain_comp nm"
  shows "path_join [dir, nm] = dir @ ''/'' @ nm"
proof -
  note d = path_join_below [OF assms(1) _ images_comps(2), unfolded images_comps(1), folded assms(2)]
  have "path_join [dir, nm] = render True (clean_comps dir @ [nm])"
    using path_join_plain(1) [OF _ assms(3)] d(3) by simp
  then show ?thesis
    using d(1,2) join_snoc [of "''/''" "clean_comps ws @ [''.cdev'', ''images'']" nm] by (simp add: render_def)
qed

lemma local_path_below:
  assumes "plain_comp nm"
  shows "path_join [CdevImagesDir, nm] = CdevImagesDir @ ''/'' @ nm"
proof -
  let ?cs = "[''.cdev'', ''images'', nm]"
  have j: "join ''/'' [CdevImagesDir, nm] = join ''/'' ?cs" by (simp add: CdevImagesDir_def join_Cons)
  have rel: "\<not> is_abs (join ''/'' ?cs)" by (simp add: is_abs_def join_Cons)
  have pl: "\<forall>c \<in> set ?cs. plain_comp c" using images_comps(2) assms by simp
  then have "split_on CHR ''/'' (join ''/'' ?cs) = ?cs" by (intro split_join) (auto simp: plain_comp_def)
  then have "clean_comps (join ''/'' ?cs) = ?cs"
    using foldl_clean_plain [OF pl, of False "[]"] rel by (simp add: clean_comps_def)
  then have "clean (join ''/'' ?cs) = join ''/'' ?cs" using rel by (simp add: clean_def render_def)
  then show ?thesis unfolding path_join_def Let_def using j by (simp add: CdevImagesDir_def join_Cons)
qed


section \<open>What is stored is served\<close>

text \<open>
  A successful store can be relied on: the image it returns is what \<open>Get\<close> gives for its identifier, its file holds
  content with the digest of the uploaded data (the data itself, if no image had this digest before), and
  uploading the data again returns the same image with a new expiry and adds nothing.
\<close>

theorem stored_image_served:
  assumes "New True files ws = Some s0" "is_abs ws" "listing files" "storage_reach s0 s" "visits_all e s" "fresh_upload e s"
    and st: "Store e (Some data) mimeType s = (Inr img, s')"
  shows "Get (img_ID img) s' = Inr img \<and>
    (\<exists>content. mget (disk s') (FullPath img) = Some content \<and> hex_encode (sha256 content) = hex_encode (sha256 data) \<and>
       (duplicate (hex_encode (sha256 data)) s = None \<longrightarrow> content = data)) \<and>
    fst (Store e' (Some data) mimeType s') = Inr (img\<lparr>img_ExpiresAt := clock e' 0 + ImageTTL\<rparr>) \<and>
    length (images (snd (Store e' (Some data) mimeType s'))) = length (images s')"
proof -
  have ok: "storage_ok s" using reach_keeps [OF assms(4) New_ok(1) [OF assms(1-3)]] ..
  have again: "fst (Store e' (Some data) mimeType s') = Inr (img\<lparr>img_ExpiresAt := clock e' 0 + ImageTTL\<rparr>) \<and>
      length (images (snd (Store e' (Some data) mimeType s'))) = length (images s')"
    if "mget supportedMimeTypes mimeType = Some ext" "int (length data) \<le> megabytes MaxSingleImageMB"
      "validateMagicBytes data mimeType" "mget (hashIndex s') (hex_encode (sha256 data)) = Some k" "mget (images s') k = Some img"
    for ext k
    using Store_valid [OF that(1-3), of e' s'] that(4,5) by (simp add: duplicate_def Let_def length_mput)
  show ?thesis
  proof (cases rule: Store_cases [of e "Some data" mimeType s])
    case refused
    then show ?thesis using st by simp
  next
    case (full d msg)
    then show ?thesis using st by simp
  next
    case (known d ext k i)
    then have d: "d = data" and i: "mget (hashIndex s) (hex_encode (sha256 data)) = Some k" "mget (images s) k = Some i"
      using duplicate_SomeD by auto
    have res: "img = i\<lparr>img_ExpiresAt := clock e 0 + ImageTTL\<rparr>" "s' = s\<lparr>images := mput k img (images s)\<rparr>"
      using st unfolding known(6) by auto
    have "ContentHash i = hex_encode (sha256 data)" using storage_okD(4) [OF ok i(1)] i(2) by simp
    moreover note storage_okD(3) [OF ok i(2)]
    moreover have "mget (hashIndex s') (hex_encode (sha256 data)) = Some k" "mget (images s') k = Some img"
      using i(1) by (simp_all add: res(2))
    moreover have "duplicate (hex_encode (sha256 data)) s \<noteq> None" using known(5) d by simp
    ultimately show ?thesis
      using again [of ext k] known(2-4) d hex_sha256_nonempty [of data] by (auto simp: filed_def Get_def res)
  next
    case (written d ext s1)
    then have d: "d = data" by simp
    define k where "k = take 12 (new_uuid e)"
    have saved: "save_image e mimeType ext data s1 = (Inr img, s')" using st written(7) d by simp
    then have "writes e = Saved" by (cases "writes e") (simp_all add: save_image_def Let_def)
    with saved have "img_ID img = k" "mget (images s') k = Some img" "mget (hashIndex s') (hex_encode (sha256 data)) = Some k"
      "mget (disk s') (FullPath img) = Some data"
      by (auto simp: save_image_def Let_def k_def)
    then show ?thesis using again [of ext k] written(2-4) d by (simp add: Get_def)
  qed
qed

section \<open>Paths of images\<close>

lemma comps_of_relative:
  assumes "has_prefix ''.cdev'' (clean path)"
  shows "clean path = join ''/'' (clean_comps path)" "clean_comps path \<noteq> []" "\<forall>c \<in> set (clean_comps path). plain_comp c"
proof -
  have rel: "\<not> is_abs path"
    using assms by (auto simp: clean_def render_def is_abs_def has_prefix_iff)
  then show c: "clean path = join ''/'' (clean_comps path)" "clean_comps path \<noteq> []"
    using assms by (auto simp: clean_def render_def has_prefix_iff)
  obtain x cs where x: "clean_comps path = x # cs" using c(2) by (cases "clean_comps path") auto
  have "x \<noteq> ''..''"
  proof
    assume "x = ''..''"
    then have "clean path = ''..'' @ (if cs = [] then [] else ''/'' @ join ''/'' cs)" using c(1) x by (simp add: join_Cons)
    then show False using assms by (auto simp: has_prefix_iff)
  qed
  then show "\<forall>c \<in> set (clean_comps path). plain_comp c"
    using clean_comps_form [of path] rel x by simp
qed

text \<open>A path with one component below the image directory, and where it leads.\<close>

lemma below_images:
  assumes ws: "is_abs ws" and dir: "dir = path_join [ws, CdevImagesDir]" and cs: "clean_comps path = [''.cdev'', ''images'', nm]"
    and path: "clean path = CdevImagesDir @ ''/'' @ nm" and nm: "plain_comp nm"
  shows "path_join [ws, clean path] = dir @ ''/'' @ nm" "path_rel (clean dir) (clean (path_join [ws, clean path])) = Some nm"
proof -
  let ?w = "clean_comps ws" and ?f = "path_join [ws, clean path]"
  have full: "clean path = join ''/'' [''.cdev'', ''images'', nm]" using path by (simp add: CdevImagesDir_def)
  have pl: "\<forall>c \<in> set [''.cdev'', ''images'', nm]. plain_comp c" using images_comps(2) nm by simp
  note f = path_join_below [OF ws _ pl, folded full]
  note d = path_join_below [OF ws _ images_comps(2), unfolded images_comps(1), folded dir]
  show split: "?f = dir @ ''/'' @ nm"
    using f(1) d(1) join_snoc [of "''/''" "?w @ [''.cdev'', ''images'']" nm] by (simp add: render_def)
  have comps: "clean_comps (clean ?f) = ?w @ [''.cdev'', ''images'', nm]" "is_abs (clean ?f)"
    "clean_comps (clean dir) = ?w @ [''.cdev'', ''images'']" "is_abs (clean dir)"
    using f(2,3) d(2,3) clean_abs(1,2) [of ?f] clean_abs(1,2) [of dir] by simp_all
  have strip: "strip_common (?w @ [''.cdev'', ''images'']) (?w @ [''.cdev'', ''images'', nm]) = ([], [nm])" by simp
  have "clean (clean ?f) \<noteq> clean (clean dir)"
    using clean_abs(2) [OF comps(2)] clean_abs(2) [OF comps(4)] comps(1,3) by auto
  then show "path_rel (clean dir) (clean ?f) = Some nm"
    unfolding path_rel_def using comps strip by (simp add: rel_base_comps_def rel_targ_comps_def)
qed

text \<open>An accepted path has one component below the image directory.\<close>

lemma accepted_below:
  assumes ws: "is_abs ws" and dir: "dir = path_join [ws, CdevImagesDir]" and pre: "has_prefix CdevImagesDir (clean path)"
    and sub: "CHR ''/'' \<notin> set (trim_prefix ''/'' (trim_prefix CdevImagesDir (clean path)))"
    and ext: "lower_runes (path_ext (clean path)) \<in> snd ` set supportedMimeTypes"
    and rel: "path_rel (clean dir) (clean (path_join [ws, clean path])) = Some r" "\<not> has_prefix ''..'' r"
  shows "\<exists>nm. clean_comps path = [''.cdev'', ''images'', nm] \<and> clean path = CdevImagesDir @ ''/'' @ nm \<and> plain_comp nm"
proof -
  have "has_prefix ''.cdev'' (clean path)" using pre by (auto simp: CdevImagesDir_def has_prefix_iff)
  note cs = comps_of_relative [OF this]
  note f = path_join_below [OF ws cs(2,3), folded cs(1)]
  note d = path_join_below [OF ws _ images_comps(2), unfolded images_comps(1), folded dir]
  have "clean_comps (clean (path_join [ws, clean path])) = clean_comps ws @ clean_comps path"
    using clean_abs(2) [OF f(3)] f(2) by simp
  moreover have dc: "clean_comps (clean dir) = clean_comps ws @ [''.cdev'', ''images'']" "is_abs (clean dir)"
    using clean_abs(1,2) [of dir] d(2,3) by simp_all
  moreover obtain rest where
    "clean_comps (clean (path_join [ws, clean path])) = clean_comps (clean dir) @ rest"
    using path_rel_contained [OF rel dc(2)] by blast
  ultimately have c: "clean_comps path = [''.cdev'', ''images''] @ rest" by simp
  show ?thesis
  proof (cases rest)
    case Nil
    then have "clean path = CdevImagesDir" using cs(1) c by (simp add: CdevImagesDir_def)
    moreover have "lower_runes (path_ext CdevImagesDir) \<notin> snd ` set supportedMimeTypes" by code_simp
    ultimately show ?thesis using ext by simp
  next
    case (Cons nm more)
    have p: "clean path = CdevImagesDir @ ''/'' @ join ''/'' rest"
      using cs(1) c Cons by (simp add: CdevImagesDir_def)
    then have "CHR ''/'' \<notin> set (join ''/'' rest)" using sub by (simp add: trim_prefix_def)
    then have "more = []" by (auto simp: Cons join_Cons split: if_splits)
    then show ?thesis using c p cs(3) Cons by auto
  qed
qed

text \<open>
  A path is accepted exactly when, cleaned, it names one file directly in the image directory of the workspace, with
  the extension of an image and a name that does not begin with two dots, and this file is there and no symbolic
  link: nothing outside the directory is ever accepted, whatever dots and slashes the path has.
\<close>

theorem ValidatePath_iff:
  assumes "New True files ws = Some s0" "is_abs ws" "listing files" "storage_reach s0 s"
  shows "ValidatePath stat s path = None \<longleftrightarrow> CHR 0x00 \<notin> set path \<and>
    (\<exists>nm. clean path = ''.cdev/images/'' @ nm \<and> CHR ''/'' \<notin> set nm \<and> \<not> has_prefix ''..'' nm \<and>
       lower_runes (path_ext nm) \<in> {''.jpg'', ''.png'', ''.gif'', ''.webp''} \<and> stat (baseDir s @ ''/'' @ nm) = Present)"
    (is "_ \<longleftrightarrow> ?rhs")
proof -
  have dirs: "baseDir s = path_join [ws, CdevImagesDir]" "workspacePath s = ws"
    using reach_dirs [OF assms(4)] New_ok(2,3) [OF assms(1-3)] by simp_all
  have exts: "snd ` set supportedMimeTypes = {''.jpg'', ''.png'', ''.gif'', ''.webp''}" by (simp add: supportedMimeTypes_def)
  have CD: "''.cdev/images/'' @ nm = CdevImagesDir @ ''/'' @ nm" for nm by (simp add: CdevImagesDir_def)
  have eval: "ValidatePath stat s path = None \<longleftrightarrow> CHR 0x00 \<notin> set path \<and> \<not> has_prefix ''..'' nm \<and>
      lower_runes (path_ext nm) \<in> {''.jpg'', ''.png'', ''.gif'', ''.webp''} \<and> stat (baseDir s @ ''/'' @ nm) = Present"
    if "clean_comps path = [''.cdev'', ''images'', nm]" "clean path = CdevImagesDir @ ''/'' @ nm" "plain_comp nm" for nm
  proof -
    note b = below_images [OF assms(2) dirs(1) that]
    have "has_prefix CdevImagesDir (clean path)" "trim_prefix ''/'' (trim_prefix CdevImagesDir (clean path)) = nm"
      using that(2) by (simp_all add: trim_prefix_def)
    moreover have "path_ext (clean path) = path_ext nm"
      using that(2,3) path_ext_below [of nm CdevImagesDir] by (simp add: plain_comp_def)
    moreover have "CHR ''/'' \<notin> set nm" using that(3) by (simp add: plain_comp_def)
    ultimately show ?thesis
      unfolding ValidatePath_def Let_def dirs(2) b(2) exts by (simp add: b(1) split: lstat.split)
  qed
  show ?thesis
  proof
    assume v: "ValidatePath stat s path = None"
    then obtain r where "has_prefix CdevImagesDir (clean path)"
      "CHR ''/'' \<notin> set (trim_prefix ''/'' (trim_prefix CdevImagesDir (clean path)))"
      "lower_runes (path_ext (clean path)) \<in> snd ` set supportedMimeTypes"
      "path_rel (clean (baseDir s)) (clean (path_join [ws, clean path])) = Some r" "\<not> has_prefix ''..'' r"
      unfolding ValidatePath_def Let_def dirs(2) by (auto split: if_splits option.splits)
    from accepted_below [OF assms(2) dirs(1) this] obtain nm where
      n: "clean_comps path = [''.cdev'', ''images'', nm]" "clean path = CdevImagesDir @ ''/'' @ nm" "plain_comp nm" by blast
    with eval [OF n] v show ?rhs unfolding CD by (auto simp: plain_comp_def)
  next
    assume ?rhs
    then obtain nm where nm: "clean path = CdevImagesDir @ ''/'' @ nm" "CHR ''/'' \<notin> set nm" and ok: "CHR 0x00 \<notin> set path"
      "\<not> has_prefix ''..'' nm" "lower_runes (path_ext nm) \<in> {''.jpg'', ''.png'', ''.gif'', ''.webp''}"
      "stat (baseDir s @ ''/'' @ nm) = Present" unfolding CD by blast
    have "has_prefix ''.cdev'' (clean path)" by (simp add: nm(1) CdevImagesDir_def)
    note cs = comps_of_relative [OF this]
    have "clean_comps path = split_on CHR ''/'' (clean path)"
      using cs split_join [of "clean_comps path" "CHR ''/''"] by (auto simp: plain_comp_def)
    also have "\<dots> = [''.cdev'', ''images'', nm]"
    proof -
      have "split_on CHR ''/'' nm = [nm]" using nm(2) split_go_end [of "CHR ''/''" nm "[]"] by (simp add: split_on_def)
      moreover have "split_on CHR ''/'' CdevImagesDir = [''.cdev'', ''images'']" by code_simp
      ultimately show ?thesis using split_on_sep [of "CHR ''/''" CdevImagesDir nm] nm(1) by simp
    qed
    finally have c: "clean_comps path = [''.cdev'', ''images'', nm]" .
    with cs(3) have "plain_comp nm" by simp
    from eval [OF c nm(1) this] ok show "ValidatePath stat s path = None" by blast
  qed
qed

section \<open>One upload\<close>

definition demo_storage :: storage where
  "demo_storage =
     \<lparr>baseDir = ''/w/.cdev/images'', workspacePath = ''/w'', images = [], hashIndex = [], totalSize = 0, disk = []\<rparr>"

definition demo_disk :: disk_env where
  "demo_disk =
     \<lparr>clock = (\<lambda>_. 0), new_uuid = ''0f8b2c41-77a0-4c1e'', writes = Saved, removes = (\<lambda>_. True), visits = []\<rparr>"

definition demo_jpeg :: string where "demo_jpeg = [CHR 0xFF, CHR 0xD8, CHR 0xFF, CHR 0xE0]"

definition demo_uploaded :: "(string + stored_image) \<times> storage" where
  "demo_uploaded = Store demo_disk (Some demo_jpeg) ''image/jpeg'' demo_storage"

lemma demo_new: "New True [] ''/w'' = Some demo_storage" "is_abs ''/w''" "listing []"
  by code_simp+

lemma demo_uploads: "visits_all demo_disk demo_storage" "fresh_upload demo_disk demo_storage"
  by (simp_all add: visits_all_def fresh_upload_def demo_disk_def demo_storage_def Let_def)

lemma demo_saved: "\<exists>img. fst demo_uploaded = Inr img \<and> img_ID img = ''0f8b2c41-77a''"
proof -
  have "mget supportedMimeTypes ''image/jpeg'' = Some ''.jpg''" "int (length demo_jpeg) \<le> megabytes MaxSingleImageMB"
    "validateMagicBytes demo_jpeg ''image/jpeg''"
    "free_space demo_disk (int (length demo_jpeg)) demo_storage = (None, demo_storage)" by code_simp+
  moreover have "duplicate h demo_storage = None" for h by (simp add: duplicate_def demo_storage_def)
  ultimately have u: "demo_uploaded = save_image demo_disk ''image/jpeg'' ''.jpg'' demo_jpeg demo_storage"
    unfolding demo_uploaded_def by (subst Store_valid) simp_all
  have w: "writes demo_disk = Saved" "take 12 (new_uuid demo_disk) = ''0f8b2c41-77a''" by (simp_all add: demo_disk_def)
  show ?thesis unfolding u save_image_def Let_def w by simp
qed


theorem stored_image_served_witness: "\<exists>img. Get ''0f8b2c41-77a'' (snd demo_uploaded) = Inr img"
proof -
  obtain img where img: "fst demo_uploaded = Inr img" "img_ID img = ''0f8b2c41-77a''" using demo_saved by blast
  then have "Store demo_disk (Some demo_jpeg) ''image/jpeg'' demo_storage = (Inr img, snd demo_uploaded)"
    by (metis demo_uploaded_def prod.collapse)
  from stored_image_served [OF demo_new opened demo_uploads this] img(2) show ?thesis by auto
qed

theorem ValidatePath_iff_witness:
  "ValidatePath (\<lambda>_. Present) demo_storage ''.cdev//x/../images/./img_a.PNG'' = None"
proof -
  have "clean ''.cdev//x/../images/./img_a.PNG'' = ''.cdev/images/'' @ ''img_a.PNG''"
    "lower_runes (path_ext ''img_a.PNG'') = ''.png''" by code_simp+
  then show ?thesis
    using ValidatePath_iff [OF demo_new opened, of "\<lambda>_. Present" "''.cdev//x/../images/./img_a.PNG''"]
    by (auto intro!: exI [of _ "''img_a.PNG''"])
qed

end
