(* ===== verification/Image_Handler.thy ===== *)
theory Image_Handler
  imports Http_Common Image_Storage Rate_Limiter
begin

text \<open>
  \<open>internal/services/imagestorage/manager.go\<close>, which opens the storage of a workspace on first use, and
  \<open>internal/server/http/images.go\<close>, the endpoints for images. A storage is opened on what its directory lists
  at that moment, an argument of the operation; the paths the resolver gives are absolute. What the multipart
  parser of the standard library makes of a request is an argument too. The header \<open>Retry-After\<close> of a
  refused upload is not modelled.
\<close>

section \<open>The manager\<close>

record image_manager =
  storages :: "(string, storage) gomap"

record open_env =
  GetWorkspacePath :: "string \<Rightarrow> string option"
  mkdir_ok :: bool
  directory :: "string \<Rightarrow> dir_entry list"

definition NewManager :: image_manager where "NewManager = \<lparr>storages = []\<rparr>"

definition GetStorage :: "open_env \<Rightarrow> string \<Rightarrow> image_manager \<Rightarrow> (string + storage) \<times> image_manager" where
  "GetStorage oe workspaceID m =
     (case mget (storages m) workspaceID of
        Some s \<Rightarrow> (Inr s, m)
      | None \<Rightarrow>
          (case GetWorkspacePath oe workspaceID of
             None \<Rightarrow> (Inl ''workspace not found'', m)
           | Some path \<Rightarrow>
               (case New (mkdir_ok oe) (directory oe path) path of
                  None \<Rightarrow> (Inl (''failed to create image storage for workspace '' @ workspaceID), m)
                | Some s \<Rightarrow> (Inr s, m\<lparr>storages := mput workspaceID s (storages m)\<rparr>))))"

definition CloseWorkspace :: "string \<Rightarrow> image_manager \<Rightarrow> image_manager" where
  "CloseWorkspace workspaceID m = m\<lparr>storages := mdel workspaceID (storages m)\<rparr>"

definition manager_Close :: "image_manager \<Rightarrow> image_manager" where
  "manager_Close m = m\<lparr>storages := []\<rparr>"

definition ListWorkspaces :: "string list \<Rightarrow> image_manager \<Rightarrow> string list" where
  "ListWorkspaces order m = map fst (range_entries order (storages m))"

section \<open>The handler\<close>

text \<open>The manager may be missing; \<open>query\<close> gives the value of a query parameter.\<close>

record image_world =
  manager :: "image_manager option"
  rateLimiter :: rate_limiter

datatype form = Too_large | Unparsable string | No_file | Uploaded string string "string option"

record image_request =
  ir :: http_request
  query :: "string \<Rightarrow> string"
  form :: form

record image_env =
  open_with :: open_env
  operating :: disk_env
  limit_now :: time
  trust_proxy :: bool
  lstats :: "string \<Rightarrow> lstat"

definition NewImageHandler :: "image_manager option \<Rightarrow> image_world" where
  "NewImageHandler m = \<lparr>manager = m, rateLimiter = NewRateLimiter [WithMaxRequests 10, WithWindow minute]\<rparr>"

definition error_message :: "nat \<Rightarrow> string \<Rightarrow> string \<Rightarrow> http_response" where
  "error_message code err msg = writeJSON code (JObj (f_str ''error'' err @ f_str ''message'' msg))"

definition error_id :: "nat \<Rightarrow> string \<Rightarrow> string \<Rightarrow> http_response" where
  "error_id code err k = writeJSON code (JObj (f_str ''error'' err @ f_str ''id'' k))"

definition getStorage :: "image_env \<Rightarrow> image_request \<Rightarrow> image_world \<Rightarrow> (string + string \<times> storage) \<times> image_world" where
  "getStorage e q w =
     (case manager w of
        None \<Rightarrow> (Inl ''image storage manager not available'', w)
      | Some m \<Rightarrow>
          (let ws = query q ''workspace_id''
           in if ws = [] then (Inl ''workspace_id parameter is required'', w)
              else (case GetStorage (open_with e) ws m of
                      (Inl err, m') \<Rightarrow> (Inl err, w\<lparr>manager := Some m'\<rparr>)
                    | (Inr s, m') \<Rightarrow> (Inr (ws, s), w\<lparr>manager := Some m'\<rparr>))))"

text \<open>The storage of a workspace after an operation on it.\<close>

definition put_storage :: "string \<Rightarrow> storage \<Rightarrow> image_world \<Rightarrow> image_world" where
  "put_storage ws s w =
     w\<lparr>manager := map_option (\<lambda>m. m\<lparr>storages := mput ws s (storages m)\<rparr>) (manager w)\<rparr>"

text \<open>The loop that looks for a substring.\<close>

definition contains_loop :: "string \<Rightarrow> string \<Rightarrow> bool" where
  "contains_loop s substr \<longleftrightarrow>
     length substr \<le> length s \<and>
     list_ex (\<lambda>i. take (length substr) (drop i s) = substr) [0..<Suc (length s - length substr)]"

definition store_error_response :: "string \<Rightarrow> http_response" where
  "store_error_response errMsg =
     (if contains_loop errMsg ''unsupported image type'' then error_message 415 ''unsupported_type'' errMsg
      else if contains_loop errMsg ''exceeds maximum size'' then error_message 413 ''image_too_large'' errMsg
      else (let status = (if contains_loop errMsg ''storage full'' \<or> contains_loop errMsg ''Too many images'' then 507 else 400)
            in if contains_loop errMsg ''invalid image format'' then error_message 400 ''invalid_format'' errMsg
               else error_message status ''storage_error'' errMsg))"

definition last_dot :: "string \<Rightarrow> string" where
  "last_dot s = (if CHR ''.'' \<in> set s then CHR ''.'' # rev (takeWhile (\<lambda>c. c \<noteq> CHR ''.'') (rev s)) else [])"

definition detectMimeTypeFromFilename :: "string \<Rightarrow> string" where
  "detectMimeTypeFromFilename filename =
     (if length filename < 4 then []
      else (let ext = to_lower (last_dot filename)
            in if ext = ''.jpg'' \<or> ext = ''.jpeg'' then ''image/jpeg''
               else if ext = ''.png'' then ''image/png''
               else if ext = ''.gif'' then ''image/gif''
               else if ext = ''.webp'' then ''image/webp''
               else []))"

definition upload_json :: "stored_image \<Rightarrow> json" where
  "upload_json img =
     JObj (f_bool ''success'' True @ f_str ''id'' (img_ID img) @ f_str ''local_path'' (LocalPath img) @
           f_str ''mime_type'' (MimeType img) @ f_int ''size'' (img_Size img) @ f_int ''expires_at'' (unix (img_ExpiresAt img)))"

definition info_json :: "stored_image \<Rightarrow> json" where
  "info_json img =
     JObj (f_str ''id'' (img_ID img) @ f_str ''local_path'' (LocalPath img) @ f_str ''mime_type'' (MimeType img) @
           f_int ''size'' (img_Size img) @ f_int ''created_at'' (unix (img_CreatedAt img)) @
           f_int ''expires_at'' (unix (img_ExpiresAt img)))"

definition handleUpload :: "image_env \<Rightarrow> image_request \<Rightarrow> image_world \<Rightarrow> http_response \<times> image_world" where
  "handleUpload e q w =
     (case getStorage e q w of
        (Inl err, w1) \<Rightarrow> (error_message 400 ''invalid_request'' err, w1)
      | (Inr (ws, s), w1) \<Rightarrow>
          (let (ok, l) = Allow (IPKeyExtractor (trust_proxy e) (ir q)) (limit_now e) (rateLimiter w1);
               w2 = w1\<lparr>rateLimiter := l\<rparr>
           in if \<not> ok then
                (error_message 429 ''rate_limit_exceeded'' ''Too many uploads. Please wait before trying again.'', w2)
              else (case form q of
                      Too_large \<Rightarrow> (error_message 413 ''image_too_large'' ''Image exceeds maximum size of 10MB'', w2)
                    | Unparsable err \<Rightarrow>
                        (error_message 400 ''invalid_request'' (''Failed to parse multipart form: '' @ err), w2)
                    | No_file \<Rightarrow>
                        (error_message 400 ''missing_file'' ''No file provided. Use 'file' field in multipart form.'', w2)
                    | Uploaded ctype filename content \<Rightarrow>
                        (let mimeType = (if ctype = [] then detectMimeTypeFromFilename filename else ctype)
                         in case Store (operating e) content mimeType s of
                              (Inl err, s') \<Rightarrow> (store_error_response err, put_storage ws s' w2)
                            | (Inr img, s') \<Rightarrow> (writeJSON 200 (upload_json img), put_storage ws s' w2)))))"

definition isValidImageID :: "string \<Rightarrow> bool" where
  "isValidImageID k \<longleftrightarrow>
     length k \<noteq> 0 \<and> length k \<le> 36 \<and>
     (\<forall>c \<in> set k. (97 \<le> code_of c \<and> code_of c \<le> 102) \<or> (48 \<le> code_of c \<and> code_of c \<le> 57) \<or> c = CHR ''-'')"

definition handleList :: "image_env \<Rightarrow> image_request \<Rightarrow> image_world \<Rightarrow> http_response \<times> image_world" where
  "handleList e q w =
     (case getStorage e q w of
        (Inl err, w1) \<Rightarrow> (error_message 400 ''invalid_request'' err, w1)
      | (Inr (ws, s), w1) \<Rightarrow>
          (let k = query q ''id''
           in if k \<noteq> [] then
                (if \<not> isValidImageID k then (error_message 400 ''invalid_id'' ''Invalid image ID format'', w1)
                 else (case Get k s of
                         Inl err \<Rightarrow> (error_id 404 ''image_not_found'' k, w1)
                       | Inr img \<Rightarrow> (writeJSON 200 (info_json img), w1)))
              else (let imgs = image_List (operating e) s
                    in (writeJSON 200 (JObj ([(''images'', JArr (map info_json imgs))] @ f_int ''count'' (int (length imgs)) @
                          f_int ''total_size_bytes'' (TotalSizeBytes (image_GetStats s)) @
                          f_int ''max_images'' MaxImagesCount @ f_int ''max_total_size_mb'' MaxTotalSizeMB)), w1))))"

definition handleDelete :: "image_env \<Rightarrow> image_request \<Rightarrow> image_world \<Rightarrow> http_response \<times> image_world" where
  "handleDelete e q w =
     (case getStorage e q w of
        (Inl err, w1) \<Rightarrow> (error_message 400 ''invalid_request'' err, w1)
      | (Inr (ws, s), w1) \<Rightarrow>
          (let k = query q ''id''
           in if k = [] then (error_message 400 ''missing_id'' ''id query parameter is required'', w1)
              else if \<not> isValidImageID k then (error_message 400 ''invalid_id'' ''Invalid image ID format'', w1)
              else (case image_Delete (operating e) k s of
                      (Some err, s') \<Rightarrow> (error_id 404 ''image_not_found'' k, put_storage ws s' w1)
                    | (None, s') \<Rightarrow>
                        (writeJSON 200 (JObj (f_str ''id'' k @ f_str ''message'' ''Image deleted'' @ f_bool ''success'' True)),
                         put_storage ws s' w1))))"

definition HandleImages :: "image_env \<Rightarrow> image_request \<Rightarrow> image_world \<Rightarrow> http_response \<times> image_world" where
  "HandleImages e q w =
     (if Method (ir q) = ''POST'' then handleUpload e q w
      else if Method (ir q) = ''GET'' then handleList e q w
      else if Method (ir q) = ''DELETE'' then handleDelete e q w
      else (http_Error ''Method not allowed'' 405, w))"

definition ValidateImagePath :: "image_env \<Rightarrow> image_request \<Rightarrow> image_world \<Rightarrow> http_response \<times> image_world" where
  "ValidateImagePath e q w =
     (if Method (ir q) \<noteq> ''GET'' then (http_Error ''Method not allowed'' 405, w)
      else (case getStorage e q w of
              (Inl err, w1) \<Rightarrow> (error_message 400 ''invalid_request'' err, w1)
            | (Inr (ws, s), w1) \<Rightarrow>
                (let path = query q ''path''
                 in if path = [] then (error_message 400 ''missing_path'' ''path query parameter is required'', w1)
                    else (case ValidatePath (lstats e) s path of
                            Some err \<Rightarrow>
                              (writeJSON 400 (JObj (f_bool ''valid'' False @ f_str ''path'' path @ f_str_opt ''message'' err)), w1)
                          | None \<Rightarrow> (writeJSON 200 (JObj (f_bool ''valid'' True @ f_str ''path'' path)), w1)))))"

definition HandleImageStats :: "image_env \<Rightarrow> image_request \<Rightarrow> image_world \<Rightarrow> http_response \<times> image_world" where
  "HandleImageStats e q w =
     (if Method (ir q) \<noteq> ''GET'' then (http_Error ''Method not allowed'' 405, w)
      else (case getStorage e q w of
              (Inl err, w1) \<Rightarrow> (error_message 400 ''invalid_request'' err, w1)
            | (Inr (ws, s), w1) \<Rightarrow>
                (let st = image_GetStats s; (canAccept, reason) = CanAcceptUpload (megabytes MaxSingleImageMB) s
                 in (writeJSON 200 (JObj (f_int ''image_count'' (ImageCount st) @ f_int ''total_size_bytes'' (TotalSizeBytes st) @
                       f_int ''max_images'' MaxImagesCount @ f_int ''max_total_size_mb'' MaxTotalSizeMB @
                       f_int ''max_single_size_mb'' MaxSingleImageMB @ f_bool ''can_accept_upload'' canAccept @
                       f_str_opt ''reason'' reason)), w1))))"

definition HandleClearImages :: "image_env \<Rightarrow> image_request \<Rightarrow> image_world \<Rightarrow> http_response \<times> image_world" where
  "HandleClearImages e q w =
     (if Method (ir q) \<noteq> ''DELETE'' then (http_Error ''Method not allowed'' 405, w)
      else (case getStorage e q w of
              (Inl err, w1) \<Rightarrow> (error_message 400 ''invalid_request'' err, w1)
            | (Inr (ws, s), w1) \<Rightarrow>
                (writeJSON 200 (JObj (f_int ''deleted'' (ImageCount (image_GetStats s)) @
                   f_str ''message'' ''All images cleared'' @ f_bool ''success'' True)),
                 put_storage ws (image_Clear (operating e) s) w1)))"

section \<open>What an upload answers\<close>

lemma contains_loopI: "contains_loop (a @ sub @ b) sub"
proof -
  have "length a \<in> set [0..<Suc (length (a @ sub @ b) - length sub)]" by simp
  then show ?thesis unfolding contains_loop_def list_ex_iff by (auto intro!: bexI [of _ "length a"])
qed

text \<open>The texts of the errors are told apart rightly.\<close>

lemma store_error_codes:
  "Code (store_error_response (''unsupported image type: '' @ mimeType @ suffix)) = 415"
  "Code (store_error_response ''image exceeds maximum size of 10MB'') = 413"
  "Code (store_error_response ''Too many images. Please wait for cleanup or delete old images.'') = 507"
  "Code (store_error_response ''Image storage full. Please wait for cleanup.'') = 507"
  "Code (store_error_response ''failed to create image file'') = 400"
  "Code (store_error_response ''failed to write image data'') = 400"
  "Code (store_error_response ''failed to save image'') = 400"
proof -
  have "contains_loop (''unsupported image type: '' @ mimeType @ suffix) ''unsupported image type''"
    using contains_loopI [of "[]" "''unsupported image type''" "'': '' @ mimeType @ suffix"] by simp
  then show "Code (store_error_response (''unsupported image type: '' @ mimeType @ suffix)) = 415"
    by (simp add: store_error_response_def error_message_def writeJSON_def)
qed code_simp+

lemma bad_format_code:
  assumes "mget supportedMimeTypes mimeType = Some ext"
  shows "Code (store_error_response (''invalid image format: content does not match declared type '' @ mimeType)) = 400"
proof -
  have "\<forall>m \<in> {''image/jpeg'', ''image/png'', ''image/gif'', ''image/webp''}.
      Code (store_error_response (''invalid image format: content does not match declared type '' @ m)) = 400"
    by code_simp
  moreover have "mimeType \<in> {''image/jpeg'', ''image/png'', ''image/gif'', ''image/webp''}"
    using mget_in_set [OF assms] by (auto simp: supportedMimeTypes_def)
  ultimately show ?thesis by blast
qed

lemma full_message:
  assumes "free_space e n s = (Some msg, s')" "n \<le> megabytes MaxSingleImageMB"
  shows "msg \<in> {''Too many images. Please wait for cleanup or delete old images.'', ''Image storage full. Please wait for cleanup.''}"
proof -
  have "canAcceptUploadLocked n s' = Some msg" using assms(1) by (auto simp: free_space_def Let_def split: if_splits)
  then show ?thesis using assms(2) by (auto simp: canAcceptUploadLocked_def split: if_splits)
qed

lemma save_error_code:
  "(case fst (save_image e mimeType ext data s) of Inl err \<Rightarrow> Code (store_error_response err) = 400 | Inr _ \<Rightarrow> writes e = Saved)"
  by (cases "writes e") (simp_all add: save_image_def Let_def store_error_codes)

text \<open>The status an upload should get once its content is there.\<close>

definition store_status :: "disk_env \<Rightarrow> string option \<Rightarrow> string \<Rightarrow> storage \<Rightarrow> nat" where
  "store_status e content mimeType s =
     (if mget supportedMimeTypes mimeType = None then 415
      else case content of
        None \<Rightarrow> 400
      | Some data \<Rightarrow>
          if 10 * 1024 * 1024 < length data then 413
          else if \<not> validateMagicBytes data mimeType then 400
          else if duplicate (hex_encode (sha256 data)) s \<noteq> None then 200
          else if fst (free_space e (int (length data)) s) \<noteq> None then 507
          else if writes e \<noteq> Saved then 400 else 200)"

lemma Store_status:
  "(case fst (Store e content mimeType s) of Inl err \<Rightarrow> Code (store_error_response err) | Inr _ \<Rightarrow> 200) =
    store_status e content mimeType s"
    (is "?code = _")
proof -
  have lim: "megabytes MaxSingleImageMB < int (length data) \<longleftrightarrow> 10 * 1024 * 1024 < length data" for data :: string
    by (simp add: megabytes_def MaxSingleImageMB_def)
  show ?thesis
  proof (cases "mget supportedMimeTypes mimeType")
    case None
    then show ?thesis unfolding Store_unsupported [OF None] fst_conv sum.case store_error_codes(1) by (simp add: store_status_def)
  next
    case ext: (Some ext)
    show ?thesis
    proof (cases content)
      case None
      have "Code (store_error_response ''failed to read image data'') = 400" by code_simp
      then show ?thesis using ext None by (simp add: Store_def store_status_def)
    next
      case (Some data)
      note status = store_status_def ext Some option.case
      show ?thesis
      proof (cases "10 * 1024 * 1024 < length data")
        case True
        then show ?thesis
          unfolding status Store_too_large [OF ext True [folded lim]] fst_conv sum.case store_error_codes(2) by simp
      next
        case small: False
        then have small': "int (length data) \<le> megabytes MaxSingleImageMB" using lim [of data] by simp
        show ?thesis
        proof (cases "validateMagicBytes data mimeType")
          case False
          then show ?thesis
            using small unfolding status Store_bad_format [OF ext small' False] fst_conv sum.case bad_format_code [OF ext] by simp
        next
          case valid: True
          note st = Store_valid [OF ext small' valid, of e s]
          show ?thesis
          proof (cases "duplicate (hex_encode (sha256 data)) s")
            case (Some ki)
            then show ?thesis using small valid unfolding status st by (cases ki) (simp add: Let_def)
          next
            case new: None
            obtain r s1 where fs: "free_space e (int (length data)) s = (r, s1)" by fastforce
            show ?thesis
            proof (cases r)
              case (Some msg)
              then have "Code (store_error_response msg) = 507"
                using full_message [of _ _ s msg s1] fs small' store_error_codes(3,4) by blast
              then show ?thesis using small valid new fs Some unfolding status st by simp
            next
              case None
              then have "fst (Store e (Some data) mimeType s) = fst (save_image e mimeType ext data s1)"
                using fs new by (simp add: st)
              moreover have "writes e = Saved \<Longrightarrow> \<exists>img. fst (save_image e mimeType ext data s1) = Inr img"
                by (simp add: save_image_def Let_def)
              ultimately show ?thesis
                using small valid new fs None save_error_code [of e mimeType ext data s1] unfolding status
                by (auto split: sum.splits)
            qed
          qed
        qed
      qed
    qed
  qed
qed

text \<open>Making room only removes images, and a refused upload does nothing else to the index.\<close>

lemma drop_subset: "mget (images (drop_image e j i s)) k = Some img \<Longrightarrow> mget (images s) k = Some img"
  by (simp add: drop_image_def split: if_splits)

lemma free_space_subset: "mget (images (snd (free_space e n s))) k = Some img \<Longrightarrow> mget (images s) k = Some img"
proof -
  have "\<forall>k img. mget (images (cleanupExpiredLocked e now t)) k = Some img \<longrightarrow> mget (images t) k = Some img" for now t
    unfolding cleanupExpiredLocked_def
    by (rule fold_invariant [where Q = "\<lambda>_. True"]) (auto dest: drop_subset split: if_splits)
  then have c: "mget (images (cleanupExpiredLocked e now t)) k = Some img \<Longrightarrow> mget (images t) k = Some img" for now t
    by blast
  have "evictOldestLocked e t = t \<or> (\<exists>j i. evictOldestLocked e t = drop_image e j i t)" for t
    by (auto simp: evictOldestLocked_def Let_def split: option.split)
  then have o: "mget (images (evictOldestLocked e t)) k = Some img \<Longrightarrow> mget (images t) k = Some img" for t
    using drop_subset by metis
  have "snd (free_space e n s) = s \<or> snd (free_space e n s) = cleanupExpiredLocked e (clock e 0) s \<or>
      snd (free_space e n s) = evictOldestLocked e (cleanupExpiredLocked e (clock e 0) s)"
    by (simp add: free_space_def Let_def)
  then show "mget (images (snd (free_space e n s))) k = Some img \<Longrightarrow> mget (images s) k = Some img"
    using c o by metis
qed

lemma refused_adds_nothing:
  assumes "fst (Store e content mimeType s) = Inl err" "mget (images (snd (Store e content mimeType s))) k = Some img"
  shows "mget (images s) k = Some img"
proof (cases rule: Store_cases [of e content mimeType s])
  case refused
  then show ?thesis using assms(2) by simp
next
  case (known data ext k i)
  show ?thesis using assms(1) unfolding known(6) by simp
next
  case (full data msg)
  show ?thesis using assms(2) unfolding full(2) by (auto dest: free_space_subset)
next
  case (written data ext s1)
  have "images (snd (save_image e mimeType ext data s1)) = images s1"
    using assms(1) unfolding written(7) by (cases "writes e") (simp_all add: save_image_def Let_def)
  then show ?thesis using assms(2) written(6) free_space_subset [of e "int (length data)" s k img] unfolding written(7) by simp
qed

lemma accepted_is_stored:
  assumes "Store e content mimeType s = (Inr img, s')"
  shows "\<exists>data k. content = Some data \<and> mget (hashIndex s') (hex_encode (sha256 data)) = Some k \<and> mget (images s') k = Some img"
proof (cases rule: Store_cases [of e content mimeType s])
  case (known data ext k i)
  then show ?thesis using assms duplicate_SomeD by auto
next
  case (written data ext s1)
  then show ?thesis using assms unfolding written(7) by (cases "writes e") (auto simp: save_image_def Let_def)
qed (use assms in auto)

lemma getStorage_put:
  assumes "getStorage e q w = (Inr (ws, s), w1)"
  shows "put_storage ws s w1 = w1"
proof -
  obtain m where "manager w1 = Some m" "mget (storages m) ws = Some s"
    using assms by (auto simp: getStorage_def GetStorage_def Let_def split: option.splits if_splits prod.splits sum.splits)
  then show ?thesis by (simp add: put_storage_def AList.update_triv)
qed


definition demo_world :: image_world where
  "demo_world = NewImageHandler (Some NewManager)"

definition demo_env :: image_env where
  "demo_env =
     \<lparr>open_with = \<lparr>GetWorkspacePath = (\<lambda>_. Some ''/w''), mkdir_ok = True, directory = (\<lambda>_. [])\<rparr>, operating = demo_disk,
      limit_now = 0, trust_proxy = False, lstats = (\<lambda>_. Missing)\<rparr>"

definition demo_upload :: image_request where
  "demo_upload =
     \<lparr>ir = \<lparr>Method = ''POST'', Path = ''/api/images'', RemoteAddr = ''127.0.0.1:80'', Header = [], has_TLS = False\<rparr>,
      query = (\<lambda>_. ''ws''), form = Uploaded ''image/jpeg'' ''a.jpg'' (Some demo_jpeg)\<rparr>"


end
