(* ===== verification/Jsonl_Reader.thy ===== *)
theory Jsonl_Reader
  imports Go_Strings
begin

text \<open>
  \<open>internal/adapters/jsonl/reader.go\<close>: the reader of JSON lines every session file is read with. What
  is left to read is a string, at whose end the file reports the end or an error, by a read of its own.
  \<open>ReadSlice\<close> of the standard library works on a buffer of 4096 bytes: it returns up to the next newline,
  or the whole buffer when there is none in it.
\<close>

section \<open>Slices of the buffer\<close>

definition newline :: char where "newline = CHR 0x0A"

definition buffer_size :: nat where "buffer_size = 4096"

datatype slice_end = Found | Buffer_full | At_end

definition ReadSlice :: "string \<Rightarrow> slice_end \<times> string \<times> string" where
  "ReadSlice s =
     (let front = take buffer_size s; l = takeWhile (\<lambda>c. c \<noteq> newline) front
      in if length l < length front then (Found, take (Suc (length l)) s, drop (Suc (length l)) s)
         else if buffer_size \<le> length s then (Buffer_full, front, drop buffer_size s)
         else (At_end, s, []))"

section \<open>Lines\<close>

record jsonl_line =
  Data :: string
  BytesRead :: nat
  TooLong :: bool

datatype next_result = Line jsonl_line | EOF | Failed

definition trimLine :: "string \<Rightarrow> string" where
  "trimLine b = trim_suffix [CHR 0x0D] (trim_suffix [newline] b)"

definition over :: "int \<Rightarrow> nat \<Rightarrow> bool" where
  "over maxLineBytes n \<longleftrightarrow> maxLineBytes > 0 \<and> int n > maxLineBytes"

definition finish_line :: "string \<Rightarrow> nat \<Rightarrow> bool \<Rightarrow> jsonl_line" where
  "finish_line buf bytesRead tooLong =
     (if tooLong then \<lparr>Data = [], BytesRead = bytesRead, TooLong = True\<rparr>
      else \<lparr>Data = trimLine buf, BytesRead = bytesRead, TooLong = False\<rparr>)"

lemma ReadSlice_full: "ReadSlice s = (Buffer_full, part, rest) \<Longrightarrow> length rest < length s"
  by (auto simp: ReadSlice_def Let_def buffer_size_def split: if_splits)

text \<open>\<open>fails\<close>: the file ends in an error.\<close>

function next_loop :: "bool \<Rightarrow> int \<Rightarrow> string \<Rightarrow> nat \<Rightarrow> bool \<Rightarrow> string \<Rightarrow> next_result \<times> string" where
  "next_loop fails maxLineBytes buf bytesRead tooLong s =
     (let (e, part, rest) = ReadSlice s;
          bytesRead' = bytesRead + length part;
          tooLong' = (tooLong \<or> over maxLineBytes (length buf + length part));
          buf' = (if tooLong' then buf else buf @ part)
      in case e of
           Buffer_full \<Rightarrow> next_loop fails maxLineBytes buf' bytesRead' tooLong' rest
         | At_end \<Rightarrow>
             if fails then (Failed, rest)
             else if part = [] then (EOF, rest)
             else (Line (finish_line buf' bytesRead' tooLong'), rest)
         | Found \<Rightarrow> (Line (finish_line buf' bytesRead' tooLong'), rest))"
  by pat_completeness auto

termination
  by (relation "measure (\<lambda>(_, _, _, _, _, s). length s)") (auto dest: ReadSlice_full [OF sym])

declare next_loop.simps [simp del]

definition Next :: "bool \<Rightarrow> int \<Rightarrow> string \<Rightarrow> next_result \<times> string" where
  "Next fails maxLineBytes s = next_loop fails maxLineBytes [] 0 False s"

section \<open>One line at a time\<close>

text \<open>What \<open>Next\<close> makes of a whole line, newline included.\<close>

definition line_of :: "int \<Rightarrow> string \<Rightarrow> jsonl_line" where
  "line_of maxLineBytes l = finish_line l (length l) (over maxLineBytes (length l))"

lemma takeWhile_short: "length (takeWhile P s) < length s \<longleftrightarrow> (\<exists>c \<in> set s. \<not> P c)"
proof -
  have "length (takeWhile P s) < length s \<longleftrightarrow> takeWhile P s \<noteq> s"
    by (metis length_takeWhile_le less_le linorder_neq_iff takeWhile_eq_take take_all_iff)
  then show ?thesis by (auto simp: takeWhile_eq_all_conv)
qed

lemma ReadSlice_cases:
  obtains (found) l r where "newline \<notin> set l" "s = l @ newline # r" "length l < buffer_size" "ReadSlice s = (Found, l @ [newline], r)"
  | (full) p r where "newline \<notin> set p" "s = p @ r" "length p = buffer_size" "ReadSlice s = (Buffer_full, p, r)"
  | (rest) "newline \<notin> set s" "length s < buffer_size" "ReadSlice s = (At_end, s, [])"
proof -
  define front where "front = take buffer_size s"
  define l where "l = takeWhile (\<lambda>c. c \<noteq> newline) front"
  show thesis
  proof (cases "length l < length front")
    case True
    then obtain r where r: "front = l @ newline # r"
      using takeWhile_dropWhile_id [of "\<lambda>c. c \<noteq> newline" front] hd_dropWhile [of "\<lambda>c. c \<noteq> newline" front] unfolding l_def
      by (metis append_Nil2 list.exhaust_sel nat_neq_iff)
    then have s: "s = l @ newline # (r @ drop buffer_size s)"
      using append_take_drop_id [of buffer_size s] unfolding front_def by simp
    have len: "length l < buffer_size" using True unfolding front_def by simp
    have "ReadSlice s = (Found, take (Suc (length l)) s, drop (Suc (length l)) s)"
      using True by (simp add: ReadSlice_def front_def [symmetric] l_def [symmetric] Let_def)
    moreover have "take (Suc (length l)) s = l @ [newline]" "drop (Suc (length l)) s = r @ drop buffer_size s"
      by (subst s, simp)+
    ultimately have "ReadSlice s = (Found, l @ [newline], r @ drop buffer_size s)" by simp
    moreover have "newline \<notin> set l" using set_takeWhileD [of newline _ front] unfolding l_def by auto
    ultimately show thesis using found s len by blast
  next
    case False
    then have no: "newline \<notin> set front" using takeWhile_short [of "\<lambda>c. c \<noteq> newline" front] unfolding l_def by auto
    show thesis
    proof (cases "buffer_size \<le> length s")
      case True
      then show thesis
        using full [of front "drop buffer_size s"] no False by (simp add: ReadSlice_def front_def l_def Let_def)
    next
      case short: False
      then have "front = s" by (simp add: front_def)
      then show thesis using rest no False short by (simp add: ReadSlice_def front_def l_def Let_def)
    qed
  qed
qed

text \<open>
  The loop, from any point inside a line: \<open>seen\<close> is what was read of the line. A last line without newline is lost
  when the buffer is full at the very end of the file.
\<close>

lemma next_loop_line:
  assumes "\<not> tooLong \<longrightarrow> buf = seen" "tooLong = over maxLineBytes (length seen)" "newline \<notin> set l"
  shows "next_loop False maxLineBytes buf (length seen) tooLong (l @ newline # r) = (Line (line_of maxLineBytes (seen @ l @ [newline])), r)"
    and "next_loop False maxLineBytes buf (length seen) tooLong l =
      (if buffer_size dvd length l then (EOF, []) else (Line (line_of maxLineBytes (seen @ l)), []))"
proof -
  have over_mono: "over maxLineBytes m \<Longrightarrow> m \<le> n \<Longrightarrow> over maxLineBytes n" for m n by (simp add: over_def)
  have step: "(tooLong \<or> over maxLineBytes (length buf + length part)) = over maxLineBytes (length (seen @ part))"
    if "\<not> tooLong \<longrightarrow> buf = seen" "tooLong = over maxLineBytes (length seen)" for tooLong buf seen part
    using that over_mono [of "length seen" "length seen + length part"] by auto
  have fin: "finish_line (if t then buf else buf @ part) n t = finish_line (seen @ part) n t"
    if "\<not> tooLong \<longrightarrow> buf = seen" "t = (tooLong \<or> over maxLineBytes (length buf + length part))" for tooLong t buf seen part n
    using that by (auto simp: finish_line_def)
  show "next_loop False maxLineBytes buf (length seen) tooLong (l @ newline # r) = (Line (line_of maxLineBytes (seen @ l @ [newline])), r)"
    using assms
  proof (induction "length l" arbitrary: l buf seen tooLong rule: less_induct)
    case less
    show ?case
    proof (cases rule: ReadSlice_cases [of "l @ newline # r"])
      case (found l' r')
      then have "l' = l" "r' = r" using less.prems(3)
        by (auto simp: append_eq_append_conv2 append_eq_Cons_conv Cons_eq_append_conv)
      then show ?thesis
        using found(4) step [OF less.prems(1,2), of "l @ [newline]"] fin [OF less.prems(1) refl, of "l @ [newline]"]
        by (subst next_loop.simps) (simp add: line_of_def)
    next
      case (full p r')
      from full(1,2) obtain q where q: "l = p @ q" "r' = q @ newline # r"
        by (auto simp: append_eq_append_conv2 append_eq_Cons_conv Cons_eq_append_conv)
      have "length q < length l" using q(1) full(3) by (simp add: buffer_size_def)
      note IH = less.hyps [OF this, of "tooLong \<or> over maxLineBytes (length buf + length p)" "if tooLong \<or> over maxLineBytes (length buf + length p) then buf else buf @ p" "seen @ p"]
      show ?thesis
        using full(4) q less.prems(3) step [OF less.prems(1,2), of p] IH less.prems(1)
        by (subst next_loop.simps) (auto simp: Let_def split: if_splits)
    next
      case rest
      then show ?thesis by simp
    qed
  qed
  show "next_loop False maxLineBytes buf (length seen) tooLong l =
      (if buffer_size dvd length l then (EOF, []) else (Line (line_of maxLineBytes (seen @ l)), []))"
    using assms
  proof (induction "length l" arbitrary: l buf seen tooLong rule: less_induct)
    case less
    show ?case
    proof (cases rule: ReadSlice_cases [of l])
      case (found l' r')
      then show ?thesis using less.prems(3) by simp
    next
      case (full p q)
      have "length q < length l" using full(2,3) by (simp add: buffer_size_def)
      note IH = less.hyps [OF this, of "tooLong \<or> over maxLineBytes (length buf + length p)" "if tooLong \<or> over maxLineBytes (length buf + length p) then buf else buf @ p" "seen @ p"]
      show ?thesis
        using full less.prems(3) step [OF less.prems(1,2), of p] IH less.prems(1)
        by (subst next_loop.simps) (auto simp: Let_def split: if_splits)
    next
      case rest
      have "buffer_size dvd length l \<longleftrightarrow> l = []" using rest(2) by (auto dest: dvd_imp_le)
      then show ?thesis
        using rest(3) step [OF less.prems(1,2), of l] fin [OF less.prems(1) refl, of l]
        by (subst next_loop.simps) (simp add: line_of_def)
    qed
  qed
qed

section \<open>All lines of a file\<close>

lemma Next_line: "newline \<notin> set l \<Longrightarrow> Next False maxLineBytes (l @ newline # r) = (Line (line_of maxLineBytes (l @ [newline])), r)"
  using next_loop_line(1) [of False "[]" "[]" maxLineBytes l r] by (simp add: Next_def over_def)

lemma Next_last:
  "newline \<notin> set l \<Longrightarrow>
    Next False maxLineBytes l = (if buffer_size dvd length l then (EOF, []) else (Line (line_of maxLineBytes l), []))"
  using next_loop_line(2) [of False "[]" "[]" maxLineBytes l] by (simp add: Next_def over_def)

lemma line_cases:
  obtains "newline \<notin> set s" | l r where "newline \<notin> set l" "s = l @ newline # r"
  by (metis split_list_first)

lemma Next_consumes: "Next False maxLineBytes s = (Line l, r) \<Longrightarrow> length r < length s"
proof (cases rule: line_cases [of s])
  case 1
  moreover assume "Next False maxLineBytes s = (Line l, r)"
  ultimately show ?thesis using Next_last [of s maxLineBytes] by (cases "s = []") (auto split: if_splits)
next
  case (2 l' r')
  moreover assume "Next False maxLineBytes s = (Line l, r)"
  ultimately show ?thesis using Next_line [of l' maxLineBytes r'] by auto
qed

text \<open>The loop of the callers: one line after another until the end.\<close>

function read_all :: "int \<Rightarrow> string \<Rightarrow> jsonl_line list" where
  "read_all maxLineBytes s =
     (case Next False maxLineBytes s of (Line l, r) \<Rightarrow> l # read_all maxLineBytes r | _ \<Rightarrow> [])"
  by pat_completeness auto

termination
  by (relation "measure (\<lambda>(_, s). length s)") (auto dest: Next_consumes [OF sym])

declare read_all.simps [simp del]

lemma trimLine_line: "newline \<notin> set l \<Longrightarrow> trimLine (l @ [newline]) = trim_suffix [CHR 0x0D] l"
  by (simp add: trimLine_def trim_suffix_def has_suffix_def)

text \<open>
  C22: Reading a file to its end always ends, and gives every line that a newline ends, once and in order, without its
  newline and carriage return, with the number of bytes it took; a line over the limit (which counts its
  newline) is given as too long, without data. What stands behind the last newline is given too, unless its
  length is a multiple of 4096: such an unfinished last line is silently left out.
\<close>

theorem jsonl_reads_every_line:
  assumes "\<forall>l \<in> set ls. newline \<notin> set l" "newline \<notin> set end_of_file"
  shows "read_all maxLineBytes (concat (map (\<lambda>l. l @ [newline]) ls) @ end_of_file) =
    map (\<lambda>l. if 0 < maxLineBytes \<and> maxLineBytes < int (length l) + 1
             then \<lparr>Data = [], BytesRead = length l + 1, TooLong = True\<rparr>
             else \<lparr>Data = trim_suffix [CHR 0x0D] l, BytesRead = length l + 1, TooLong = False\<rparr>) ls @
    (if 4096 dvd length end_of_file then []
     else [if 0 < maxLineBytes \<and> maxLineBytes < int (length end_of_file)
           then \<lparr>Data = [], BytesRead = length end_of_file, TooLong = True\<rparr>
           else \<lparr>Data = trim_suffix [CHR 0x0D] end_of_file, BytesRead = length end_of_file, TooLong = False\<rparr>])"
  using assms
proof (induction ls)
  case Nil
  have "trimLine end_of_file = trim_suffix [CHR 0x0D] end_of_file"
  proof -
    have "last end_of_file \<noteq> newline \<or> end_of_file = []" using Nil.prems(2) last_in_set by metis
    then have "\<not> has_suffix [newline] end_of_file" by (auto simp: has_suffix_iff)
    then show ?thesis by (simp add: trimLine_def trim_suffix_def)
  qed
  moreover have "read_all maxLineBytes [] = []"
    using Next_last [of "[]" maxLineBytes] by (subst read_all.simps) simp
  ultimately show ?case
    using Next_last [OF Nil.prems(2), of maxLineBytes]
    by (subst read_all.simps) (auto simp: buffer_size_def line_of_def finish_line_def over_def)
next
  case (Cons l ls)
  have "Next False maxLineBytes (concat (map (\<lambda>l. l @ [newline]) (l # ls)) @ end_of_file) =
      (Line (line_of maxLineBytes (l @ [newline])), concat (map (\<lambda>l. l @ [newline]) ls) @ end_of_file)"
    using Next_line [of l maxLineBytes "concat (map (\<lambda>l. l @ [newline]) ls) @ end_of_file"] Cons.prems(1) by simp
  moreover have "line_of maxLineBytes (l @ [newline]) =
      (if 0 < maxLineBytes \<and> maxLineBytes < int (length l) + 1
       then \<lparr>Data = [], BytesRead = length l + 1, TooLong = True\<rparr>
       else \<lparr>Data = trim_suffix [CHR 0x0D] l, BytesRead = length l + 1, TooLong = False\<rparr>)"
    using Cons.prems(1) by (auto simp: line_of_def finish_line_def over_def trimLine_line)
  ultimately show ?case using Cons by (subst read_all.simps) simp
qed

text \<open>An unfinished line that fills the buffer exactly is lost.\<close>

theorem jsonl_reads_every_line_witness:
  "read_all 0 (''{1}'' @ [CHR 0x0D, newline] @ replicate 4096 (CHR ''x'')) = [\<lparr>Data = ''{1}'', BytesRead = 5, TooLong = False\<rparr>]"
proof -
  have "newline \<notin> set (''{1}'' @ [CHR 0x0D])" "newline \<notin> set (replicate 4096 (CHR ''x''))" by (auto simp: newline_def)
  then show ?thesis
    using jsonl_reads_every_line [of "[''{1}'' @ [CHR 0x0D]]" "replicate 4096 (CHR ''x'')" 0]
    by (simp add: trim_suffix_def has_suffix_def)
qed

end
