(* ===== verification/Diff_Truncate.thy ===== *)
theory Diff_Truncate
  imports Go_Path
begin

text \<open>
  \<open>internal/adapters/git/diff_truncate.go\<close>: the cutting of a diff to a size, never inside a rune.
\<close>

section \<open>Valid UTF-8\<close>

lemma decode_codes_width: "snd (decode_codes bs) \<le> length bs" "bs \<noteq> [] \<Longrightarrow> 1 \<le> snd (decode_codes bs)"
  "snd (decode_codes bs) \<le> 4"
  by (cases bs rule: decode_codes.cases; auto split: list.split)+

lemma decode_rune_width: "snd (decode_rune s) \<le> length s" "s \<noteq> [] \<Longrightarrow> 1 \<le> snd (decode_rune s)" "snd (decode_rune s) \<le> 4"
  using decode_codes_width [of "map of_char (take 4 s)"] by (auto simp: decode_rune_def)

text \<open>\<open>utf8.Valid\<close>: a malformed front is the replacement rune with width 1.\<close>

function utf8_valid :: "string \<Rightarrow> bool" where
  "utf8_valid s =
     (if s = [] then True
      else (let (r, w) = decode_rune s in if r = 65533 \<and> w \<le> 1 then False else utf8_valid (drop w s)))"
  by pat_completeness auto

termination
proof (relation "measure length")
  fix s :: string and x r w
  assume "s \<noteq> []" "x = decode_rune s" "(r, w) = x"
  moreover from this have "1 \<le> w" using decode_rune_width(2) [of s] by (metis snd_conv)
  ultimately show "(drop w s, s) \<in> measure length" by (cases s) auto
qed simp

declare utf8_valid.simps [simp del]

lemma utf8_valid_Nil [simp]: "utf8_valid []"
  by (simp add: utf8_valid.simps)

section \<open>Truncation\<close>

function trim_invalid :: "string \<Rightarrow> string" where
  "trim_invalid s = (if s \<noteq> [] \<and> \<not> utf8_valid s then trim_invalid (butlast s) else s)"
  by pat_completeness auto

termination by (relation "measure length") auto

declare trim_invalid.simps [simp del]

definition TruncateDiff :: "string \<Rightarrow> int \<Rightarrow> string \<times> bool" where
  "TruncateDiff diff maxSizeKB =
     (if maxSizeKB \<le> 0 then (if diff = [] then ([], False) else ([], True))
      else (let maxBytes = maxSizeKB * 1024
            in if int (length diff) \<le> maxBytes then (diff, False)
               else (trim_invalid (take (nat maxBytes) diff), True)))"

section \<open>What is lost\<close>

lemma trim_invalid_longest:
  "\<exists>n. trim_invalid s = take n s \<and> n \<le> length s \<and> utf8_valid (take n s) \<and> (\<forall>m \<le> length s. utf8_valid (take m s) \<longrightarrow> m \<le> n)"
proof (induction s rule: trim_invalid.induct)
  case (1 s)
  show ?case
  proof (cases "s \<noteq> [] \<and> \<not> utf8_valid s")
    case True
    then obtain n where n: "trim_invalid (butlast s) = take n (butlast s)" "n \<le> length (butlast s)" "utf8_valid (take n (butlast s))"
      "\<forall>m \<le> length (butlast s). utf8_valid (take m (butlast s)) \<longrightarrow> m \<le> n" using 1 by blast
    have front: "take m (butlast s) = take m s" if "m \<le> length (butlast s)" for m
      using that True by (intro take_butlast) (cases s; simp split: if_splits)
    have "m \<le> n" if "m \<le> length s" "utf8_valid (take m s)" for m
    proof (cases "m = length s")
      case True
      with that \<open>s \<noteq> [] \<and> \<not> utf8_valid s\<close> show ?thesis by simp
    next
      case False
      with that have "m \<le> length (butlast s)" by simp
      with n(4) that(2) show ?thesis by (simp add: front)
    qed
    then show ?thesis using True n(1-3) front [OF n(2)] by (subst trim_invalid.simps) (auto intro!: exI [of _ n])
  next
    case False
    then have "utf8_valid s" by auto
    moreover have "trim_invalid s = s" using False by (subst trim_invalid.simps) (simp only: if_False)
    ultimately show ?thesis by (intro exI [of _ "length s"]) simp
  qed
qed

text \<open>A well-formed rune is decoded from its own bytes, whatever follows.\<close>

lemma decode_codes_local:
  assumes "decode_codes bs = (r, w)" "\<not> (r = 65533 \<and> w \<le> 1)"
  shows "decode_codes (take w bs @ cs) = (r, w)"
  using assms by (cases bs rule: decode_codes.cases) (auto split: if_splits list.splits)

lemma decode_codes_four: "decode_codes (take 4 bs) = decode_codes bs"
  by (cases bs rule: decode_codes.cases) (auto simp: take_Cons' split: list.split)

lemma decode_rune_local:
  assumes "decode_rune s = (r, w)" "\<not> (r = 65533 \<and> w \<le> 1)"
  shows "decode_rune (take w s @ t) = (r, w)"
proof -
  have "decode_codes (map of_char s) = (r, w)" using assms(1) decode_codes_four [of "map of_char s"] by (simp add: decode_rune_def take_map)
  from decode_codes_local [OF this assms(2), of "map of_char t"]
  show ?thesis using decode_codes_four [of "map of_char (take w s @ t)"] by (simp add: decode_rune_def take_map)
qed

text \<open>Cut anywhere, valid text has a valid prefix at most three bytes shorter.\<close>

lemma valid_prefix_near: "utf8_valid s \<Longrightarrow> n \<le> length s \<Longrightarrow> \<exists>k \<le> 3. k \<le> n \<and> utf8_valid (take (n - k) s)"
proof (induction s arbitrary: n rule: utf8_valid.induct)
  case (1 s)
  show ?case
  proof (cases "s = []")
    case True
    then show ?thesis using "1.prems" by (intro exI [of _ 0]) simp
  next
    case False
    obtain r w where rw: "decode_rune s = (r, w)" by (cases "decode_rune s")
    have wide: "1 \<le> w" "w \<le> 4" using decode_rune_width(2,3) [of s] False rw by simp_all
    have good: "\<not> (r = 65533 \<and> w \<le> 1)" and tail: "utf8_valid (drop w s)"
      using "1.prems"(1) False rw by (subst (asm) utf8_valid.simps, auto split: if_splits)+
    show ?thesis
    proof (cases "n < w")
      case True
      then show ?thesis using wide by (intro exI [of _ n]) simp
    next
      case n: False
      have "n - w \<le> length (drop w s)" using "1.prems"(2) by simp
      then obtain k where k: "k \<le> 3" "k \<le> n - w" "utf8_valid (take (n - w - k) (drop w s))"
        using "1.IH" [OF False rw [symmetric] refl good tail] by blast
      have parts: "take (n - k) s = take w s @ take (n - w - k) (drop w s)"
        using k(2) n by (metis diff_diff_eq le_add_diff_inverse2 Nat.diff_diff_right diff_le_mono2 add.commute
            le_add_diff_inverse less_imp_le_nat linorder_not_less ordered_cancel_comm_monoid_diff_class.add_diff_assoc take_add)
      then have "utf8_valid (take (n - k) s)"
        using k(3) decode_rune_local [OF rw good, of "take (n - w - k) (drop w s)"] good False wide "1.prems"(2) n
        by (subst utf8_valid.simps) (auto simp: Let_def min_def split: if_splits)
      then show ?thesis using k n by (intro exI [of _ k]) simp
    qed
  qed
qed

text \<open>
  A diff is cut to the limit without breaking a rune: what is returned is the longest valid front of it within the
  limit, and unchanged when it fits. Of a diff that is valid UTF-8 at most three bytes less than the limit are
  returned; a diff with an invalid byte loses everything from this byte on as soon as it is cut at all.
\<close>

theorem TruncateDiff_longest:
  assumes "0 < maxSizeKB"
  shows "(int (length diff) \<le> maxSizeKB * 1024 \<longrightarrow> TruncateDiff diff maxSizeKB = (diff, False)) \<and>
    (maxSizeKB * 1024 < int (length diff) \<longrightarrow>
      (\<exists>n. TruncateDiff diff maxSizeKB = (take n diff, True) \<and> int n \<le> maxSizeKB * 1024 \<and> utf8_valid (take n diff) \<and>
         (\<forall>m. int m \<le> maxSizeKB * 1024 \<and> utf8_valid (take m diff) \<longrightarrow> m \<le> n) \<and>
         (utf8_valid diff \<longrightarrow> maxSizeKB * 1024 - 3 \<le> int n)))"
proof (intro conjI impI)
  assume "int (length diff) \<le> maxSizeKB * 1024"
  then show "TruncateDiff diff maxSizeKB = (diff, False)" using assms by (simp add: TruncateDiff_def)
next
  assume long: "maxSizeKB * 1024 < int (length diff)"
  define M where "M = nat (maxSizeKB * 1024)"
  have M: "int M = maxSizeKB * 1024" "M \<le> length diff" using assms long by (simp_all add: M_def)
  obtain n where n: "trim_invalid (take M diff) = take n (take M diff)" "n \<le> length (take M diff)" "utf8_valid (take n (take M diff))"
    "\<forall>m \<le> length (take M diff). utf8_valid (take m (take M diff)) \<longrightarrow> m \<le> n"
    using trim_invalid_longest by blast
  have nM: "n \<le> M" using n(2) by simp
  have best: "m \<le> n" if "m \<le> M" "utf8_valid (take m diff)" for m
    using n(4) that M(2) by (simp add: min_absorb1)
  have near: "M - 3 \<le> n" if valid: "utf8_valid diff"
  proof -
    obtain k where k: "k \<le> 3" "utf8_valid (take (M - k) diff)" using valid_prefix_near [OF valid M(2)] by blast
    have "M - k \<le> n" using k(2) by (intro best) simp_all
    then show ?thesis using k(1) by linarith
  qed
  show "\<exists>n. TruncateDiff diff maxSizeKB = (take n diff, True) \<and> int n \<le> maxSizeKB * 1024 \<and> utf8_valid (take n diff) \<and>
         (\<forall>m. int m \<le> maxSizeKB * 1024 \<and> utf8_valid (take m diff) \<longrightarrow> m \<le> n) \<and>
         (utf8_valid diff \<longrightarrow> maxSizeKB * 1024 - 3 \<le> int n)"
  proof (intro exI [of _ n] conjI allI impI)
    show "TruncateDiff diff maxSizeKB = (take n diff, True)"
      using assms long n(1) nM by (simp add: TruncateDiff_def Let_def M_def [symmetric] min_absorb1)
    show "int n \<le> maxSizeKB * 1024" using nM M(1) by linarith
    show "utf8_valid (take n diff)" using n(3) nM by (simp add: min_absorb1)
    show "m \<le> n" if "int m \<le> maxSizeKB * 1024 \<and> utf8_valid (take m diff)" for m
      using that M(1) by (intro best) auto
    show "maxSizeKB * 1024 - 3 \<le> int n" if "utf8_valid diff" using near [OF that] M(1) by linarith
  qed
qed

theorem TruncateDiff_longest_witness: "TruncateDiff [CHR 0xE2, CHR 0x82, CHR 0xAC] 1 = ([CHR 0xE2, CHR 0x82, CHR 0xAC], False)"
  using TruncateDiff_longest [of 1 "[CHR 0xE2, CHR 0x82, CHR 0xAC]"] by simp

end
