(* ===== verification/File_Watcher.thy ===== *)
theory File_Watcher
  imports Go_Path Events
begin

text \<open>
  \<open>internal/adapters/watcher\<close>: the watcher of a workspace's files and its debouncer. Events come from
  fsnotify, a parameter of the model like the tree of the file system; what the code does with them is modelled to
  the published events.

  The debouncer runs on timers: \<open>armed\<close> holds the timers that have not gone off, \<open>firing\<close> the paths of
  those whose goroutine has not yet got the lock, and \<open>delivering\<close> the calls of the callback that are still to
  run, so that each of these may be overtaken by other steps.
\<close>

section \<open>The debouncer\<close>

definition FileChangeCreated :: string where "FileChangeCreated = ''created''"
definition FileChangeModified :: string where "FileChangeModified = ''modified''"
definition FileChangeDeleted :: string where "FileChangeDeleted = ''deleted''"
definition FileChangeRenamed :: string where "FileChangeRenamed = ''renamed''"

definition mergeChangeTypes :: "string \<Rightarrow> string \<Rightarrow> string" where
  "mergeChangeTypes existing new =
     (if new = FileChangeDeleted then FileChangeDeleted
      else if existing = FileChangeCreated then FileChangeCreated
      else new)"

record debounced_event =
  ChangeType :: string
  Timer :: nat

record debouncer =
  dwindow :: time
  pending :: "(string, debounced_event) gomap"
  stopped :: bool
  armed :: "(nat, string \<times> time) gomap"
  next_timer :: nat
  firing :: "string list"
  delivering :: "(string \<times> string) list"

definition NewDebouncer :: "time \<Rightarrow> debouncer" where
  "NewDebouncer w =
     \<lparr>dwindow = w, pending = [], stopped = False, armed = [], next_timer = 0, firing = [], delivering = []\<rparr>"

definition AfterFunc :: "time \<Rightarrow> string \<Rightarrow> debouncer \<Rightarrow> nat \<times> debouncer" where
  "AfterFunc now path d =
     (next_timer d, d\<lparr>armed := mput (next_timer d) (path, now + dwindow d) (armed d), next_timer := Suc (next_timer d)\<rparr>)"

definition timer_Stop :: "nat \<Rightarrow> debouncer \<Rightarrow> debouncer" where
  "timer_Stop t d = d\<lparr>armed := mdel t (armed d)\<rparr>"

definition debouncer_Add :: "time \<Rightarrow> string \<Rightarrow> string \<Rightarrow> debouncer \<Rightarrow> debouncer" where
  "debouncer_Add now path changeType d =
     (if stopped d then d
      else case mget (pending d) path of
        Some existing \<Rightarrow>
          (let (t, d') = AfterFunc now path (timer_Stop (Timer existing) d)
           in d'\<lparr>pending := mput path \<lparr>ChangeType = mergeChangeTypes (ChangeType existing) changeType, Timer = t\<rparr> (pending d')\<rparr>)
      | None \<Rightarrow>
          (let (t, d') = AfterFunc now path d in d'\<lparr>pending := mput path \<lparr>ChangeType = changeType, Timer = t\<rparr> (pending d')\<rparr>))"

text \<open>A timer that is due goes off: its goroutine starts.\<close>

definition timer_expires :: "time \<Rightarrow> nat \<Rightarrow> debouncer \<Rightarrow> debouncer" where
  "timer_expires now t d =
     (case mget (armed d) t of
        None \<Rightarrow> d
      | Some (path, due) \<Rightarrow> if due \<le> now then d\<lparr>armed := mdel t (armed d), firing := firing d @ [path]\<rparr> else d)"

definition fire :: "string \<Rightarrow> debouncer \<Rightarrow> debouncer" where
  "fire path d =
     (case mget (pending d) path of
        None \<Rightarrow> d
      | Some e \<Rightarrow>
          (let d' = d\<lparr>pending := mdel path (pending d)\<rparr>
           in if stopped d then d' else d'\<lparr>delivering := delivering d' @ [(path, ChangeType e)]\<rparr>))"

definition fires :: "string \<Rightarrow> debouncer \<Rightarrow> debouncer" where
  "fires path d = (if path \<in> set (firing d) then fire path (d\<lparr>firing := remove1 path (firing d)\<rparr>) else d)"

definition debouncer_Stop :: "debouncer \<Rightarrow> debouncer" where
  "debouncer_Stop d = fold (\<lambda>(_, e). timer_Stop (Timer e)) (pending d) (d\<lparr>stopped := True, pending := []\<rparr>)"

section \<open>Ignored paths\<close>

definition split_file :: "string \<Rightarrow> string \<times> string" where
  "split_file path = (upto_slash path, after_slash path)"

text \<open>The length of a cleaned path: cleaning keeps some of the components and at most one slash for each.\<close>

definition weight :: "string list \<Rightarrow> nat" where
  "weight cs = sum_list (map (\<lambda>c. Suc (length c)) cs)"

lemma weight_simps [simp]: "weight [] = 0" "weight (c # cs) = Suc (length c) + weight cs" "weight (xs @ ys) = weight xs + weight ys"
  by (simp_all add: weight_def)

lemma weight_join: "cs \<noteq> [] \<Longrightarrow> Suc (length (join ''/'' cs)) = weight cs"
  by (induction cs) (auto simp: join_Cons)

lemma weight_split: "weight (split_on c s) = Suc (length s)"
proof -
  have "weight (split_go c cur s) = Suc (length cur + length s)" for cur
    by (induction c cur s rule: split_go.induct) simp_all
  then show ?thesis by (simp add: split_on_def)
qed

lemma weight_butlast: "weight (butlast cs) \<le> weight cs"
  by (induction cs) auto

lemma weight_clean_step: "weight (clean_step r acc c) + (if c = [] then 1 else 0) \<le> weight acc + Suc (length c)"
  using weight_butlast [of acc] by auto

lemma weight_foldl_clean:
  "weight (foldl (clean_step r) acc cs) + length (filter (\<lambda>c. c = []) cs) \<le> weight acc + weight cs"
proof (induction cs arbitrary: acc)
  case (Cons c cs)
  show ?case
    using Cons.IH [of "clean_step r acc c"] weight_clean_step [of r acc c]
    by (cases "c = []") (simp_all del: clean_step.simps)
qed simp

lemma length_clean_slash: "p \<noteq> [] \<Longrightarrow> length (clean (p @ ''/'')) \<le> length p"
proof -
  assume p: "p \<noteq> []"
  have parts: "split_on CHR ''/'' (p @ ''/'') = split_on CHR ''/'' p @ [[]]"
    using split_on_sep [of "CHR ''/''" p "[]"] by (simp add: split_on_def)
  define cs where "cs = clean_comps (p @ ''/'')"
  have abs: "is_abs (p @ ''/'') = is_abs p" using p by (cases p) (auto simp: is_abs_def)
  have first: "hd (split_on CHR ''/'' p) = []" if "is_abs p"
    using that by (auto simp: is_abs_def has_prefix_iff split_on_def)
  have empties: "length (filter (\<lambda>c. c = []) (split_on CHR ''/'' p @ [[]])) \<ge> (if is_abs p then 2 else 1)"
  proof (cases "is_abs p")
    case True
    then have "[] \<in> set (split_on CHR ''/'' p)" using first split_go_nonempty unfolding split_on_def by (metis hd_in_set)
    then have "filter (\<lambda>c. c = []) (split_on CHR ''/'' p) \<noteq> []" by (auto simp: filter_empty_conv)
    then show ?thesis using True by (cases "filter (\<lambda>c. c = []) (split_on CHR ''/'' p)") auto
  qed simp
  have "weight cs + length (filter (\<lambda>c. c = []) (split_on CHR ''/'' p @ [[]])) \<le> Suc (length p) + 1"
    using weight_foldl_clean [of "is_abs p" "[]" "split_on CHR ''/'' p @ [[]]"] parts abs weight_split [of "CHR ''/''" p]
    by (simp add: cs_def clean_comps_def)
  with empties have w: "weight cs + (if is_abs p then 1 else 0) \<le> Suc (length p)" by (auto split: if_splits)
  show ?thesis
  proof (cases "cs = []")
    case True
    moreover have "1 \<le> length p" using p by (cases p) simp_all
    ultimately show ?thesis by (simp add: clean_def render_def cs_def [symmetric])
  next
    case False
    then show ?thesis using w weight_join [OF False] by (auto simp: clean_def render_def cs_def [symmetric] abs split: if_splits)
  qed
qed

lemma clean_dir_shorter:
  assumes "path \<noteq> []" "path \<noteq> ''/''" "path \<noteq> ''.''"
  shows "length (clean (upto_slash path)) < length path \<or> clean (upto_slash path) = ''.''"
proof (cases "upto_slash path = []")
  case True
  then show ?thesis by (simp add: clean_def clean_comps_def split_on_def render_def is_abs_def)
next
  case False
  have "upto_slash path @ after_slash path = path" by (rule after_slash_suffix)
  then have len: "length (upto_slash path) \<le> length path" by (metis le_add1 length_append)
  have "last (upto_slash path) = CHR ''/''"
  proof -
    define r where "r = dropWhile (\<lambda>c. c \<noteq> CHR ''/'') (rev path)"
    have "upto_slash path = rev r"
    proof -
      have "path = rev r @ after_slash path"
        unfolding r_def after_slash_def by (metis rev_append rev_rev_ident takeWhile_dropWhile_id)
      then show ?thesis using \<open>upto_slash path @ after_slash path = path\<close> by (metis append_same_eq)
    qed
    moreover from this False have "r \<noteq> []" by simp
    then have "hd r = CHR ''/''" unfolding r_def using hd_dropWhile by blast
    ultimately show ?thesis by (simp add: last_rev)
  qed
  with False obtain q where q: "upto_slash path = q @ ''/''" by (metis append_butlast_last_id)
  show ?thesis
  proof (cases "q = []")
    case True
    then have "clean (upto_slash path) = ''/''" using q by (simp add: clean_def clean_comps_def split_on_def render_def is_abs_def)
    moreover have "1 < length path"
      using assms q True \<open>upto_slash path @ after_slash path = path\<close> by (cases "after_slash path") auto
    ultimately show ?thesis by simp
  next
    case q': False
    then show ?thesis using length_clean_slash [OF q'] q len by simp
  qed
qed

text \<open>The components of a path, from the right.\<close>

function splitPath_loop :: "string \<Rightarrow> string list \<Rightarrow> string list" where
  "splitPath_loop path parts =
     (if path \<noteq> [] \<and> path \<noteq> ''/'' \<and> path \<noteq> ''.'' then
        (let (dir, nm) = split_file path
         in splitPath_loop (clean dir) (if nm \<noteq> [] then nm # parts else parts))
      else parts)"
  by pat_completeness auto

termination
proof (relation "measure (\<lambda>(path, _). if path = ''.'' then 0 else Suc (length path))")
  fix path :: string and parts x dir nm
  assume "path \<noteq> [] \<and> path \<noteq> ''/'' \<and> path \<noteq> ''.''" "x = split_file path" "(dir, nm) = x"
  then show "((clean dir, if nm \<noteq> [] then nm # parts else parts), path, parts)
      \<in> measure (\<lambda>(path, _). if path = ''.'' then 0 else Suc (length path))"
    using clean_dir_shorter [of path] by (auto simp: split_file_def)
qed simp

declare splitPath_loop.simps [simp del]

definition splitPath :: "string \<Rightarrow> string list" where
  "splitPath path = splitPath_loop path []"

definition shouldIgnore :: "string list \<Rightarrow> string \<Rightarrow> bool" where
  "shouldIgnore patterns path \<longleftrightarrow>
     (\<exists>pattern \<in> set patterns. path_match pattern (path_base path) \<or> (\<exists>part \<in> set (splitPath path). path_match pattern part))"


text \<open>What it computes: the cleaned components of the directory, then the last component as it is written.\<close>

lemma foldl_clean_form: "clean_form r (acc @ cs) \<Longrightarrow> foldl (clean_step r) acc cs = acc @ cs"
proof (induction cs arbitrary: acc)
  case (Cons c cs)
  have "clean_step r acc c = acc @ [c]"
  proof (cases "c = ''..''")
    case True
    have "clean_form r (ds @ ''..'' # es) \<Longrightarrow> \<not> r \<and> (ds = [] \<or> last ds = ''..'')" for ds es
      by (induction ds) (auto split: if_splits)
    from this [of acc cs] Cons.prems True show ?thesis by auto
  next
    case False
    then have "plain_comp c" using clean_form_comps [OF Cons.prems, of c] by simp
    then show ?thesis by (simp add: plain_comp_def)
  qed
  then show ?case using Cons.IH [of "acc @ [c]"] Cons.prems by simp
qed simp

lemma form_comp: "clean_form r cs \<Longrightarrow> c \<in> set cs \<Longrightarrow> c \<noteq> [] \<and> CHR ''/'' \<notin> set c"
  using clean_form_comps [of r cs c] by (auto simp: plain_comp_def)

lemma form_not_abs: "clean_form r cs \<Longrightarrow> \<not> is_abs (join ''/'' cs)"
  using form_comp [of r cs "hd cs"] by (cases cs; cases "hd cs") (auto simp: is_abs_def has_prefix_iff join_Cons)

lemma after_slash_split:
  assumes "d = [] \<or> last d = CHR ''/''" "CHR ''/'' \<notin> set c"
  shows "after_slash (d @ c) = c" "upto_slash (d @ c) = d"
proof -
  have t: "takeWhile (\<lambda>c. c \<noteq> CHR ''/'') (rev c @ ys) = rev c @ takeWhile (\<lambda>c. c \<noteq> CHR ''/'') ys" for ys
    using assms(2) by (subst takeWhile_append2) auto
  have "takeWhile (\<lambda>c. c \<noteq> CHR ''/'') (rev d) = []"
    using assms(1) by (cases d rule: rev_cases) auto
  then show *: "after_slash (d @ c) = c" by (simp add: after_slash_def t)
  show "upto_slash (d @ c) = d" by (simp add: upto_slash_def *)
qed

lemma clean_render_form:
  assumes f: "clean_form r cs" and ne: "cs \<noteq> []"
  shows "clean ((if r then ''/'' else []) @ join ''/'' cs @ ''/'') = render r cs"
proof -
  let ?d = "(if r then ''/'' else []) @ join ''/'' cs @ ''/''"
  have cs: "\<forall>c \<in> set cs. CHR ''/'' \<notin> set c" using form_comp [OF f] by blast
  have "is_abs ?d = r"
    using form_not_abs [OF f] ne form_comp [OF f, of "hd cs"]
    by (cases "join ''/'' cs") (auto simp: is_abs_def has_prefix_iff join_Cons neq_Nil_conv split: if_splits)
  moreover have "split_on CHR ''/'' ?d = (if r then [[]] else []) @ cs @ [[]]"
    using split_on_sep [of "CHR ''/''" "[]" "join ''/'' cs @ ''/''"] split_on_sep [of "CHR ''/''" "join ''/'' cs" "[]"]
      split_join [OF ne] cs
    by (auto simp: split_on_def)
  moreover have "foldl (clean_step r) [] ((if r then [[]] else []) @ cs @ [[]]) = cs"
    using foldl_clean_form [of r "[]" cs] f by (cases r) simp_all
  ultimately show ?thesis by (simp add: clean_def clean_comps_def)
qed

lemma split_render:
  assumes f: "clean_form r (cs @ [c])"
  obtains d where "render r (cs @ [c]) = d @ c" "upto_slash (d @ c) = d" "after_slash (d @ c) = c" "clean d = render r cs"
proof
  let ?d = "(if r then ''/'' else []) @ (if cs = [] then [] else join ''/'' cs @ ''/'')"
  have f': "clean_form r cs" using clean_form_butlast [OF f] by simp
  show "render r (cs @ [c]) = ?d @ c" by (simp add: render_def join_snoc)
  have "?d = [] \<or> last ?d = CHR ''/''" by simp
  with form_comp [OF f, of c] show "upto_slash (?d @ c) = ?d" "after_slash (?d @ c) = c"
    using after_slash_split [of ?d c] by auto
  show "clean ?d = render r cs"
  proof (cases "cs = []")
    case True
    then show ?thesis by (simp add: clean_def clean_comps_def split_on_def render_def is_abs_def has_prefix_iff)
  next
    case False
    then show ?thesis using clean_render_form [OF f'] by simp
  qed
qed

lemma splitPath_loop_render: "clean_form r cs \<Longrightarrow> splitPath_loop (render r cs) parts = cs @ parts"
proof (induction cs arbitrary: parts rule: rev_induct)
  case Nil
  show ?case by (subst splitPath_loop.simps) (simp add: render_def)
next
  case (snoc c cs)
  obtain d where d: "render r (cs @ [c]) = d @ c" "upto_slash (d @ c) = d" "after_slash (d @ c) = c" "clean d = render r cs"
    using split_render [OF snoc.prems] .
  have c: "c \<noteq> []" "c \<noteq> ''.''" "CHR ''/'' \<notin> set c"
    using clean_form_comps [OF snoc.prems, of c] by (auto simp: plain_comp_def)
  have "d @ c \<noteq> [] \<and> d @ c \<noteq> ''/'' \<and> d @ c \<noteq> ''.''"
    using c d(2,3) by (auto simp: append_eq_Cons_conv after_slash_def)
  then show ?case
    using snoc.IH [of "c # parts"] clean_form_butlast [OF snoc.prems] c d
    by (subst splitPath_loop.simps) (simp add: split_file_def)
qed

lemma splitPath_components_lemma:
  "splitPath path =
     (if path \<in> {[], ''/'', ''.''} then []
      else clean_comps (upto_slash path) @ (if after_slash path = [] then [] else [after_slash path]))"
  unfolding splitPath_def
  by (subst splitPath_loop.simps) (simp add: split_file_def clean_def splitPath_loop_render [OF clean_comps_form])

section \<open>Watching directories\<close>

text \<open>
  The tree \<open>filepath.Walk\<close> goes through: the names of a directory with what is under them, in the order of the
  names. What cannot be read is handed to the callback as an error, which skips it.
\<close>

datatype fs_node = FsUnreadable | FsFile | FsDir "(string \<times> fs_node) list"

fun addWatchRecursive :: "string list \<Rightarrow> (string \<Rightarrow> bool) \<Rightarrow> string \<Rightarrow> fs_node \<Rightarrow> string list" where
  "addWatchRecursive patterns can_watch path FsUnreadable = []"
| "addWatchRecursive patterns can_watch path FsFile = []"
| "addWatchRecursive patterns can_watch path (FsDir entries) =
     (if shouldIgnore patterns path then []
      else (if can_watch path then [path] else []) @
        concat (map (\<lambda>(nm, n). addWatchRecursive patterns can_watch (path_join [path, nm]) n) entries))"

text \<open>The directories under a path, each with the paths on the way to it, itself last.\<close>

fun dirs_below :: "string \<Rightarrow> fs_node \<Rightarrow> string list list" where
  "dirs_below path FsUnreadable = []"
| "dirs_below path FsFile = []"
| "dirs_below path (FsDir entries) =
     [path] # map ((#) path) (concat (map (\<lambda>(nm, n). dirs_below (path_join [path, nm]) n) entries))"

section \<open>The watcher\<close>

record fs_event =
  Name :: string
  op_Create :: bool
  op_Write :: bool
  op_Remove :: bool
  op_Rename :: bool

record pending_rename =
  oldPath :: string
  rename_time :: time

text \<open>\<open>watches\<close> are the directories given to fsnotify, none when there is no fsnotify watcher.\<close>

record watcher =
  rootPath :: string
  watch_workspace :: string
  debounceMS :: int
  watches :: "string list option"
  ignorePatterns :: "string list"
  watcher_running :: bool
  watch_debouncer :: "debouncer option"
  pendingRenames :: "(string, pending_rename) gomap"
  published :: "event list"

record fs_env =
  can_create :: bool
  tree_at :: "string \<Rightarrow> fs_node"
  can_watch :: "string \<Rightarrow> bool"
  stat_size :: "string \<Rightarrow> int option"

definition millisecond :: int where "millisecond = 1000000"
definition one_second :: time where "one_second = 1000000000"

definition NewWatcherWithWorkspace :: "string \<Rightarrow> int \<Rightarrow> string list \<Rightarrow> string \<Rightarrow> watcher" where
  "NewWatcherWithWorkspace root ms patterns wid =
     \<lparr>rootPath = root, watch_workspace = wid, debounceMS = ms, watches = None, ignorePatterns = patterns,
      watcher_running = False, watch_debouncer = None, pendingRenames = [], published = []\<rparr>"

definition NewWatcher :: "string \<Rightarrow> int \<Rightarrow> string list \<Rightarrow> watcher" where
  "NewWatcher root ms patterns = NewWatcherWithWorkspace root ms patterns []"

definition watch_below :: "fs_env \<Rightarrow> string \<Rightarrow> watcher \<Rightarrow> watcher" where
  "watch_below e path w =
     w\<lparr>watches := map_option (\<lambda>ws. ws @ addWatchRecursive (ignorePatterns w) (can_watch e) path (tree_at e path)) (watches w)\<rparr>"

text \<open>The walk itself never fails, since its callback returns no error; so \<open>Start\<close> fails only without fsnotify.\<close>

definition watcher_Start :: "fs_env \<Rightarrow> watcher \<Rightarrow> bool \<times> watcher" where
  "watcher_Start e w =
     (if watcher_running w then (True, w)
      else if \<not> can_create e then (False, w)
      else (True, watch_below e (rootPath w)
        (w\<lparr>watches := Some [], watch_debouncer := Some (NewDebouncer (debounceMS w * millisecond)), watcher_running := True\<rparr>)))"

definition watcher_Stop :: "watcher \<Rightarrow> watcher" where
  "watcher_Stop w =
     (if \<not> watcher_running w then w
      else w\<lparr>watcher_running := False, watch_debouncer := map_option debouncer_Stop (watch_debouncer w), watches := None\<rparr>)"

definition AddIgnorePattern :: "string \<Rightarrow> watcher \<Rightarrow> watcher" where
  "AddIgnorePattern pattern w = w\<lparr>ignorePatterns := ignorePatterns w @ [pattern]\<rparr>"

definition RemoveIgnorePattern :: "string \<Rightarrow> watcher \<Rightarrow> watcher" where
  "RemoveIgnorePattern pattern w = w\<lparr>ignorePatterns := remove1 pattern (ignorePatterns w)\<rparr>"

definition IsRunning :: "watcher \<Rightarrow> bool" where "IsRunning w = watcher_running w"

definition publishEvent :: "event \<Rightarrow> watcher \<Rightarrow> watcher" where
  "publishEvent ev w =
     w\<lparr>published := published w @ [if watch_workspace w \<noteq> [] then SetContext (watch_workspace w) [] ev else ev]\<rparr>"

definition rel_path :: "watcher \<Rightarrow> string \<Rightarrow> string" where
  "rel_path w path = (case path_rel (rootPath w) path of Some r \<Rightarrow> r | None \<Rightarrow> path)"

definition track_rename :: "time \<Rightarrow> string \<Rightarrow> watcher \<Rightarrow> watcher" where
  "track_rename now relPath w =
     w\<lparr>pendingRenames := mput (path_dir relPath) \<lparr>oldPath = relPath, rename_time = now\<rparr> (pendingRenames w)\<rparr>"

definition debounce :: "time \<Rightarrow> string \<Rightarrow> string \<Rightarrow> watcher \<Rightarrow> watcher" where
  "debounce now path change w = w\<lparr>watch_debouncer := map_option (debouncer_Add now path change) (watch_debouncer w)\<rparr>"

definition handleEvent :: "time \<Rightarrow> fs_env \<Rightarrow> fs_event \<Rightarrow> watcher \<Rightarrow> watcher" where
  "handleEvent now e ev w =
     (let relPath = rel_path w (Name ev)
      in if shouldIgnore (ignorePatterns w) (Name ev) \<or> shouldIgnore (ignorePatterns w) relPath then w
         else if op_Create ev then
           (let w' = (case tree_at e (Name ev) of FsDir _ \<Rightarrow> watch_below e (Name ev) w | _ \<Rightarrow> w)
            in debounce now relPath FileChangeCreated w')
         else if op_Write ev then debounce now relPath FileChangeModified w
         else if op_Remove ev then debounce now relPath FileChangeDeleted w
         else if op_Rename ev then track_rename now relPath w
         else w)"

definition handleDebouncedEvent :: "time \<Rightarrow> fs_env \<Rightarrow> string \<Rightarrow> string \<Rightarrow> watcher \<Rightarrow> watcher" where
  "handleDebouncedEvent now e path change w =
     (let sz = (if change \<noteq> FileChangeDeleted
                then (case stat_size e (path_join [rootPath w, path]) of Some n \<Rightarrow> n | None \<Rightarrow> 0) else 0);
          dir = path_dir path
      in case (if change = FileChangeCreated then mget (pendingRenames w) dir else None) of
           None \<Rightarrow> publishEvent (NewFileChangedEvent now path change sz) w
         | Some p \<Rightarrow>
             (let w' = w\<lparr>pendingRenames := mdel dir (pendingRenames w)\<rparr>
              in if now - rename_time p < one_second then publishEvent (NewFileRenamedEvent now (oldPath p) path) w'
                 else publishEvent (NewFileChangedEvent now path change sz) w'))"

text \<open>Go goes through the map in no particular order, so the order is an argument.\<close>

definition drop_stale :: "time \<Rightarrow> string \<Rightarrow> watcher \<Rightarrow> watcher" where
  "drop_stale now dir w =
     (case mget (pendingRenames w) dir of
        None \<Rightarrow> w
      | Some p \<Rightarrow>
          if now - rename_time p > one_second
          then publishEvent (NewFileChangedEvent now (oldPath p) FileChangeDeleted 0)
            (w\<lparr>pendingRenames := mdel dir (pendingRenames w)\<rparr>)
          else w)"

definition processStalePendingRenames :: "time \<Rightarrow> string list \<Rightarrow> watcher \<Rightarrow> watcher" where
  "processStalePendingRenames now order w = fold (drop_stale now) order w"

text \<open>The timers, goroutines and callbacks of the watcher's debouncer as steps of their own.\<close>

definition watch_timer :: "time \<Rightarrow> nat \<Rightarrow> watcher \<Rightarrow> watcher" where
  "watch_timer now t w = w\<lparr>watch_debouncer := map_option (timer_expires now t) (watch_debouncer w)\<rparr>"

definition watch_fires :: "string \<Rightarrow> watcher \<Rightarrow> watcher" where
  "watch_fires path w = w\<lparr>watch_debouncer := map_option (fires path) (watch_debouncer w)\<rparr>"

definition watch_callback :: "time \<Rightarrow> fs_env \<Rightarrow> string \<Rightarrow> string \<Rightarrow> watcher \<Rightarrow> watcher" where
  "watch_callback now e path change w =
     (case watch_debouncer w of
        None \<Rightarrow> w
      | Some d \<Rightarrow>
          if (path, change) \<in> set (delivering d)
          then handleDebouncedEvent now e path change
            (w\<lparr>watch_debouncer := Some (d\<lparr>delivering := remove1 (path, change) (delivering d)\<rparr>)\<rparr>)
          else w)"

section \<open>What the debouncer delivers\<close>

datatype debounce_step = Added time string string | Expired time nat | Fired string

fun debounce_run1 :: "debounce_step \<Rightarrow> debouncer \<Rightarrow> debouncer" where
  "debounce_run1 (Added now path change) d = debouncer_Add now path change d"
| "debounce_run1 (Expired now t) d = timer_expires now t d"
| "debounce_run1 (Fired path) d = fires path d"

definition debounce_run :: "debounce_step list \<Rightarrow> debouncer \<Rightarrow> debouncer" where
  "debounce_run ss d = fold debounce_run1 ss d"

fun added_to :: "string \<Rightarrow> debounce_step \<Rightarrow> string list" where
  "added_to path (Added now p change) = (if p = path then [change] else [])"
| "added_to path s = []"

definition changes_of :: "string \<Rightarrow> debounce_step list \<Rightarrow> string list" where
  "changes_of path ss = concat (map (added_to path) ss)"

definition delivered_to :: "string \<Rightarrow> debouncer \<Rightarrow> string list" where
  "delivered_to path d = map snd (filter (\<lambda>(p, c). p = path) (delivering d))"

definition merged :: "string list \<Rightarrow> string" where
  "merged cs = foldl mergeChangeTypes (hd cs) (tl cs)"

lemma merged_snoc: "cs \<noteq> [] \<Longrightarrow> merged (cs @ [c]) = mergeChangeTypes (merged cs) c"
  by (cases cs) (simp_all add: merged_def)

text \<open>Every pending change has a timer of its own, still to go off, or a goroutine on its way.\<close>

definition timed :: "debouncer \<Rightarrow> string \<Rightarrow> debounced_event \<Rightarrow> bool" where
  "timed d p ev \<longleftrightarrow> Timer ev < next_timer d \<and> ((\<exists>due. mget (armed d) (Timer ev) = Some (p, due)) \<or> p \<in> set (firing d))"

definition debouncer_ok :: "debouncer \<Rightarrow> bool" where
  "debouncer_ok d \<longleftrightarrow>
     \<not> stopped d \<and> (\<forall>p ev. mget (pending d) p = Some ev \<longrightarrow> timed d p ev) \<and>
     (\<forall>p q ev ew. mget (pending d) p = Some ev \<longrightarrow> mget (pending d) q = Some ew \<longrightarrow> Timer ev = Timer ew \<longrightarrow> p = q)"

definition accounted :: "string \<Rightarrow> string list \<Rightarrow> debouncer \<Rightarrow> bool" where
  "accounted path cs d \<longleftrightarrow>
     (\<exists>groups rest. cs = concat groups @ rest \<and> [] \<notin> set groups \<and> delivered_to path d = map merged groups \<and>
        map_option ChangeType (mget (pending d) path) = (if rest = [] then None else Some (merged rest)))"

lemma debouncer_okD:
  "debouncer_ok d \<Longrightarrow> \<not> stopped d"
  "debouncer_ok d \<Longrightarrow> mget (pending d) p = Some ev \<Longrightarrow> timed d p ev"
  "debouncer_ok d \<Longrightarrow> mget (pending d) p = Some ev \<Longrightarrow> mget (pending d) q = Some ew \<Longrightarrow> Timer ev = Timer ew \<Longrightarrow> p = q"
  unfolding debouncer_ok_def by (blast, blast, blast)

lemma debouncer_ok_Added: "debouncer_ok d \<Longrightarrow> debouncer_ok (debouncer_Add now path change d)"
proof -
  assume ok: "debouncer_ok d"
  let ?d = "debouncer_Add now path change d"
  obtain ct gone where d: "?d = d\<lparr>armed := mput (next_timer d) (path, now + dwindow d) gone, next_timer := Suc (next_timer d),
      pending := mput path \<lparr>ChangeType = ct, Timer = next_timer d\<rparr> (pending d)\<rparr>"
    and gone: "gone = armed d \<or> (\<exists>ev. mget (pending d) path = Some ev \<and> gone = mdel (Timer ev) (armed d))"
    using debouncer_okD(1) [OF ok]
    by (cases "mget (pending d) path") (auto simp: debouncer_Add_def AfterFunc_def timer_Stop_def)
  have old: "timed ?d p ev" if p: "mget (pending d) p = Some ev" "p \<noteq> path" for p ev
  proof -
    have "mget gone (Timer ev) = mget (armed d) (Timer ev)"
      using gone debouncer_okD(3) [OF ok p(1)] p(2) by (auto split: if_splits)
    with debouncer_okD(2) [OF ok p(1)] show ?thesis by (auto simp: timed_def d)
  qed
  have "Timer ev < next_timer d" if "mget (pending d) p = Some ev" for p ev
    using debouncer_okD(2) [OF ok that] by (simp add: timed_def)
  then have less: "Timer ev \<noteq> next_timer d" if "mget (pending d) p = Some ev" for p ev using that by fastforce
  show ?thesis
    unfolding debouncer_ok_def
  proof (intro conjI allI impI)
    show "\<not> stopped ?d" using debouncer_okD(1) [OF ok] by (simp add: d)
  next
    fix p ev assume "mget (pending ?d) p = Some ev"
    then show "timed ?d p ev" using old [of p ev] by (cases "p = path") (auto simp: d timed_def)
  next
    fix p q ev ew assume "mget (pending ?d) p = Some ev" "mget (pending ?d) q = Some ew" "Timer ev = Timer ew"
    then show "p = q"
      using less [of p ev] less [of q ew] debouncer_okD(3) [OF ok, of p ev q ew]
      by (cases "p = path"; cases "q = path") (auto simp: d)
  qed
qed

lemma debouncer_ok_shrink:
  assumes ok: "debouncer_ok d" and "\<not> stopped d'" "next_timer d' = next_timer d"
    and "\<And>p ev. mget (pending d') p = Some ev \<Longrightarrow> mget (pending d) p = Some ev \<and> timed d' p ev"
  shows "debouncer_ok d'"
  using assms(2,4) debouncer_okD(3) [OF ok] unfolding debouncer_ok_def by meson

lemma debouncer_ok_Expired: "debouncer_ok d \<Longrightarrow> debouncer_ok (timer_expires now t d)"
proof (rule debouncer_ok_shrink)
  assume ok: "debouncer_ok d"
  show "\<not> stopped (timer_expires now t d)" "next_timer (timer_expires now t d) = next_timer d"
    using debouncer_okD(1) [OF ok] by (auto simp: timer_expires_def split: option.split)
  fix p ev assume "mget (pending (timer_expires now t d)) p = Some ev"
  then have p: "mget (pending d) p = Some ev" by (auto simp: timer_expires_def split: option.splits if_splits)
  with debouncer_okD(2) [OF ok this] show "mget (pending d) p = Some ev \<and> timed (timer_expires now t d) p ev"
    by (auto simp: timer_expires_def timed_def split: option.splits)
qed

lemma debouncer_ok_Fired: "debouncer_ok d \<Longrightarrow> debouncer_ok (fires path d)"
proof (rule debouncer_ok_shrink)
  assume ok: "debouncer_ok d"
  show "\<not> stopped (fires path d)" "next_timer (fires path d) = next_timer d"
    using debouncer_okD(1) [OF ok] by (auto simp: fires_def fire_def Let_def split: option.split)
  fix p ev assume "mget (pending (fires path d)) p = Some ev"
  then have p: "mget (pending d) p = Some ev" "path \<in> set (firing d) \<Longrightarrow> p \<noteq> path"
    by (auto simp: fires_def fire_def Let_def split: option.splits if_splits)
  with debouncer_okD(2) [OF ok this(1)] show "mget (pending d) p = Some ev \<and> timed (fires path d) p ev"
    by (auto simp: fires_def fire_def Let_def timed_def split: option.splits)
qed

lemma debouncer_ok_run: "debouncer_ok (debounce_run ss (NewDebouncer w))"
proof -
  have "debouncer_ok (debounce_run1 s d)" if "debouncer_ok d" for s d
    using that by (cases s) (simp_all add: debouncer_ok_Added debouncer_ok_Expired debouncer_ok_Fired)
  moreover have "debouncer_ok (NewDebouncer w)" by (simp add: debouncer_ok_def NewDebouncer_def)
  ultimately show ?thesis unfolding debounce_run_def by (induction ss rule: rev_induct) simp_all
qed

lemma accounted_Added:
  assumes "\<not> stopped d" and acc: "accounted path cs d"
  shows "accounted path (cs @ added_to path (Added now p c)) (debouncer_Add now p c d)"
proof (cases "p = path")
  case False
  have "mget (pending (debouncer_Add now p c d)) path = mget (pending d) path"
    and "delivering (debouncer_Add now p c d) = delivering d"
    using False assms(1) by (auto simp: debouncer_Add_def AfterFunc_def timer_Stop_def split: option.split)
  then show ?thesis using acc False by (simp add: accounted_def delivered_to_def)
next
  case True
  obtain groups rest where g: "cs = concat groups @ rest" "[] \<notin> set groups" "delivered_to path d = map merged groups"
      "map_option ChangeType (mget (pending d) path) = (if rest = [] then None else Some (merged rest))"
    using acc unfolding accounted_def by blast
  have "map_option ChangeType (mget (pending (debouncer_Add now p c d)) path) = Some (merged (rest @ [c]))"
  proof (cases "rest = []")
    case r: True
    then have "mget (pending d) path = None" using g(4) by simp
    then show ?thesis using True assms(1) r by (simp add: debouncer_Add_def AfterFunc_def merged_def)
  next
    case False
    then obtain ev where ev: "mget (pending d) path = Some ev" "ChangeType ev = merged rest" using g(4) by auto
    then have "map_option ChangeType (mget (pending (debouncer_Add now path c d)) path) = Some (mergeChangeTypes (ChangeType ev) c)"
      using assms(1) by (simp add: debouncer_Add_def AfterFunc_def timer_Stop_def)
    then show ?thesis unfolding True merged_snoc [OF False] ev(2) .
  qed
  moreover have "delivered_to path (debouncer_Add now p c d) = delivered_to path d"
    by (auto simp: delivered_to_def debouncer_Add_def AfterFunc_def timer_Stop_def split: option.split)
  ultimately show ?thesis using g True unfolding accounted_def
    by (intro exI [of _ groups] exI [of _ "rest @ [c]"]) simp
qed

lemma accounted_Expired: "accounted path cs d \<Longrightarrow> accounted path cs (timer_expires now t d)"
proof -
  have "pending (timer_expires now t d) = pending d" "delivering (timer_expires now t d) = delivering d"
    by (auto simp: timer_expires_def split: option.split)
  then show "accounted path cs d \<Longrightarrow> accounted path cs (timer_expires now t d)" by (simp add: accounted_def delivered_to_def)
qed

lemma accounted_Fired:
  assumes "\<not> stopped d" and acc: "accounted path cs d"
  shows "accounted path cs (fires p d)"
proof -
  obtain groups rest where g: "cs = concat groups @ rest" "[] \<notin> set groups" "delivered_to path d = map merged groups"
      "map_option ChangeType (mget (pending d) path) = (if rest = [] then None else Some (merged rest))"
    using acc unfolding accounted_def by blast
  show ?thesis
  proof (cases "p = path \<and> p \<in> set (firing d) \<and> rest \<noteq> []")
    case True
    then obtain ev where "mget (pending d) path = Some ev" "ChangeType ev = merged rest" "p = path" "path \<in> set (firing d)"
      using g(4) by auto
    then have "delivered_to path (fires p d) = delivered_to path d @ [merged rest]" "mget (pending (fires p d)) path = None"
      using assms(1) by (simp_all add: fires_def fire_def delivered_to_def)
    then show ?thesis using g True unfolding accounted_def
      by (intro exI [of _ "groups @ [rest]"] exI [of _ "[]"]) auto
  next
    case False
    then have "delivered_to path (fires p d) = delivered_to path d" "mget (pending (fires p d)) path = mget (pending d) path"
      using g(4) assms(1) by (auto simp: fires_def fire_def delivered_to_def Let_def split: option.split)
    then show ?thesis using g unfolding accounted_def by auto
  qed
qed

lemma accounted_run: "accounted path (changes_of path ss) (debounce_run ss (NewDebouncer w))"
proof (induction ss rule: rev_induct)
  case Nil
  show ?case by (auto simp: accounted_def changes_of_def debounce_run_def NewDebouncer_def delivered_to_def)
next
  case (snoc s ss)
  have ns: "\<not> stopped (debounce_run ss (NewDebouncer w))" using debouncer_okD(1) [OF debouncer_ok_run] .
  have "accounted path (changes_of path ss @ added_to path s) (debounce_run1 s (debounce_run ss (NewDebouncer w)))"
  proof (cases s)
    case (Added now p c)
    then show ?thesis using accounted_Added [OF ns snoc.IH] by simp
  next
    case (Expired now t)
    then show ?thesis using accounted_Expired [OF snoc.IH] by simp
  next
    case (Fired p)
    then show ?thesis using accounted_Fired [OF ns snoc.IH] by simp
  qed
  then show ?case by (simp add: debounce_run_def changes_of_def)
qed

text \<open>
  C23: nothing is lost and nothing invented: in every state the debouncer can reach, the changes reported for a path
  fall into consecutive groups, and the callbacks for the path are the merges of these groups, in order; the changes
  after the last group are merged in the pending entry, which has a timer or a goroutine that will deliver it. So once
  no timer is armed and no goroutine is on its way, every change has been delivered.
\<close>

theorem debouncer_delivers_every_change:
  assumes "d = debounce_run ss (NewDebouncer w)"
  shows "\<exists>groups rest. changes_of path ss = concat groups @ rest \<and> [] \<notin> set groups \<and>
      delivered_to path d = map merged groups \<and>
      map_option ChangeType (mget (pending d) path) = (if rest = [] then None else Some (merged rest)) \<and>
      (rest = [] \<or> path \<in> (\<lambda>(t, p, due). p) ` set (armed d) \<union> set (firing d))"
proof -
  obtain groups rest where g: "changes_of path ss = concat groups @ rest" "[] \<notin> set groups"
      "delivered_to path d = map merged groups"
      "map_option ChangeType (mget (pending d) path) = (if rest = [] then None else Some (merged rest))"
    using accounted_run [of path ss w] unfolding accounted_def assms by blast
  have "rest = [] \<or> path \<in> (\<lambda>(t, p, due). p) ` set (armed d) \<union> set (firing d)"
  proof (cases rest)
    case (Cons c cs)
    then obtain ev where "mget (pending d) path = Some ev" using g(4) by auto
    then have "timed d path ev" using debouncer_okD(2) [OF debouncer_ok_run] unfolding assms by blast
    then show ?thesis unfolding timed_def using mget_in_set by force
  qed simp
  with g show ?thesis by blast
qed

theorem debouncer_delivers_every_change_witness:
  "\<exists>groups rest. changes_of ''f'' [Added 0 ''f'' FileChangeCreated, Added 5 ''f'' FileChangeModified, Expired 20 1, Fired ''f''] = concat groups @ rest \<and>
     [] \<notin> set groups \<and> [FileChangeCreated] = map merged groups \<and> rest = []"
  using debouncer_delivers_every_change [OF refl,
      where w = 10 and path = "''f''" and ss = "[Added 0 ''f'' FileChangeCreated, Added 5 ''f'' FileChangeModified, Expired 20 1, Fired ''f'']"]
  by (simp add: debounce_run_def NewDebouncer_def debouncer_Add_def AfterFunc_def timer_Stop_def mergeChangeTypes_def
      timer_expires_def fires_def fire_def delivered_to_def FileChangeCreated_def FileChangeModified_def FileChangeDeleted_def
      split: if_splits)


lemma stopped_delivers_nothing: "stopped d \<Longrightarrow> delivering (debounce_run ss d) = delivering d"
proof -
  have "stopped (debounce_run1 s d) \<and> delivering (debounce_run1 s d) = delivering d" if "stopped d" for s d
    using that
    by (cases s) (auto simp: debouncer_Add_def timer_expires_def fires_def fire_def Let_def split: option.split)
  then have "stopped d \<Longrightarrow> stopped (debounce_run ss d) \<and> delivering (debounce_run ss d) = delivering d"
    unfolding debounce_run_def by (induction ss arbitrary: d) simp_all
  then show "stopped d \<Longrightarrow> delivering (debounce_run ss d) = delivering d" by simp
qed

section \<open>Which directories are watched\<close>

text \<open>
  splitting ends for every path, absolute, relative or uncleaned (each round the cleaned directory is shorter, or
  it is a dot), and gives the components of the cleaned directory followed by the last component.
\<close>

theorem splitPath_components:
  "splitPath path =
     (if path = [] \<or> path = ''/'' \<or> path = ''.'' then []
      else clean_comps (upto_slash path) @ (if after_slash path = [] then [] else [after_slash path]))"
  using splitPath_components_lemma [of path] by simp

text \<open>
  of a tree the walk watches, in order, exactly the directories with no ignored directory on the way to them, the
  root included, that fsnotify takes.
\<close>

theorem addWatchRecursive_exact:
  "addWatchRecursive patterns adds root tree =
     map last (filter (\<lambda>ds. adds (last ds) \<and> list_all (\<lambda>p. \<not> shouldIgnore patterns p) ds) (dirs_below root tree))"
proof (induction patterns adds root tree rule: addWatchRecursive.induct)
  case (3 patterns adds path entries)
  let ?ok = "\<lambda>ds. adds (last ds) \<and> list_all (\<lambda>p. \<not> shouldIgnore patterns p) ds"
  let ?below = "concat (map (\<lambda>(nm, n). dirs_below (path_join [path, nm]) n) entries)"
  have ne: "[] \<notin> set (dirs_below p n)" for p n by (induction p n rule: dirs_below.induct) auto
  have below: "concat (map (\<lambda>(nm, n). addWatchRecursive patterns adds (path_join [path, nm]) n) entries) = map last (filter ?ok ?below)"
    if "\<not> shouldIgnore patterns path"
  proof -
    have "(case x of (nm, n) \<Rightarrow> addWatchRecursive patterns adds (path_join [path, nm]) n) =
        map last (filter ?ok (case x of (nm, n) \<Rightarrow> dirs_below (path_join [path, nm]) n))" if "x \<in> set entries" for x
      using 3 [OF \<open>\<not> shouldIgnore patterns path\<close>] that by (cases x) auto
    then show ?thesis by (simp add: filter_concat map_concat o_def cong: map_cong)
  qed
  have "[] \<notin> set dss \<Longrightarrow>
      map last (filter ?ok (map ((#) path) dss)) = (if shouldIgnore patterns path then [] else map last (filter ?ok dss))" for dss
    by (induction dss) auto
  moreover have "[] \<notin> set ?below" using ne by auto
  ultimately have "map last (filter ?ok (map ((#) path) ?below)) = (if shouldIgnore patterns path then [] else map last (filter ?ok ?below))"
    by blast
  then show ?case using below by (simp del: map_concat)
qed simp_all

lemma ignored_root_watches_nothing: "shouldIgnore patterns root \<Longrightarrow> addWatchRecursive patterns adds root tree = []"
  by (cases tree) simp_all

section \<open>Renames\<close>

lemma publishEvent_simps [simp]:
  "pendingRenames (publishEvent ev w) = pendingRenames w" "watch_workspace (publishEvent ev w) = watch_workspace w"
  by (simp_all add: publishEvent_def)

lemma watch_below_simps [simp]:
  "watch_debouncer (watch_below e p w) = watch_debouncer w" "pendingRenames (watch_below e p w) = pendingRenames w"
  "published (watch_below e p w) = published w" "watch_workspace (watch_below e p w) = watch_workspace w"
  "rootPath (watch_below e p w) = rootPath w"
  by (simp_all add: watch_below_def)

lemma mdel_mput_same [simp]: "mdel k (mput k v m) = mdel k m"
  by (induction m) auto

definition seen :: "watcher \<Rightarrow> fs_event \<Rightarrow> string \<Rightarrow> bool" where
  "seen w ev rel \<longleftrightarrow>
     rel_path w (Name ev) = rel \<and> \<not> shouldIgnore (ignorePatterns w) (Name ev) \<and> \<not> shouldIgnore (ignorePatterns w) rel"

lemma handleEvent_rename:
  assumes "seen w ev rel" "op_Rename ev" "\<not> op_Create ev" "\<not> op_Write ev" "\<not> op_Remove ev"
  shows "handleEvent now e ev w = track_rename now rel w"
  using assms by (simp add: handleEvent_def seen_def)

lemma handleEvent_create:
  assumes "seen w ev rel" "op_Create ev"
  obtains ws where "handleEvent now e ev w = debounce now rel FileChangeCreated (w\<lparr>watches := ws\<rparr>)"
proof -
  have "(case tree_at e (Name ev) of FsDir _ \<Rightarrow> watch_below e (Name ev) w | _ \<Rightarrow> w) =
      w\<lparr>watches := (case tree_at e (Name ev) of FsDir _ \<Rightarrow> watches (watch_below e (Name ev) w) | _ \<Rightarrow> watches w)\<rparr>"
    by (simp add: watch_below_def split: fs_node.split)
  with assms that show ?thesis by (simp add: handleEvent_def seen_def)
qed

definition in_context :: "watcher \<Rightarrow> event \<Rightarrow> event" where
  "in_context w ev = (if watch_workspace w \<noteq> [] then SetContext (watch_workspace w) [] ev else ev)"

text \<open>
  A rename within a directory, as fsnotify tells it (the old name is renamed, the new one created), is published
  as exactly one event once the timer of the new name has gone off: the rename of the old name to the new one when the
  callback runs within a second of the rename, and otherwise only the creation of the new name; either way the
  old name is forgotten.
\<close>

theorem rename_is_published:
  assumes w: "watch_debouncer w = Some d" "\<not> stopped d" "mget (pending d) new = None"
    and r: "seen w r old" "op_Rename r" "\<not> op_Create r" "\<not> op_Write r" "\<not> op_Remove r"
    and c: "seen w c new" "op_Create c" and dir: "path_dir old = path_dir new"
    and due: "t1 + dwindow d \<le> t2"
    and w1: "w1 = handleEvent t1 e c (handleEvent t0 e r w)"
    and w2: "w2 = watch_callback t3 e new FileChangeCreated (watch_fires new (watch_timer t2 (next_timer d) w1))"
  shows "published w2 = published w @
      [in_context w (if t3 - t0 < one_second then NewFileRenamedEvent t3 old new
         else NewFileChangedEvent t3 new FileChangeCreated
           (case stat_size e (path_join [rootPath w, new]) of Some n \<Rightarrow> n | None \<Rightarrow> 0))] \<and>
    pendingRenames w2 = mdel (path_dir new) (pendingRenames w)"
proof -
  let ?t = "track_rename t0 old w"
  have "seen ?t c new" using c(1) by (simp add: seen_def track_rename_def rel_path_def)
  from handleEvent_create [OF this c(2)] obtain ws where
    "w1 = debounce t1 new FileChangeCreated (?t\<lparr>watches := ws\<rparr>)"
    unfolding w1 handleEvent_rename [OF r] by metis
  then have w1': "w1 = w\<lparr>watches := ws, pendingRenames := mput (path_dir new) \<lparr>oldPath = old, rename_time = t0\<rparr> (pendingRenames w),
      watch_debouncer := Some (debouncer_Add t1 new FileChangeCreated d)\<rparr>"
    using w(1) dir by (simp add: debounce_def track_rename_def)
  define d2 where "d2 = fires new (timer_expires t2 (next_timer d) (debouncer_Add t1 new FileChangeCreated d))"
  have "delivering d2 = delivering d @ [(new, FileChangeCreated)]"
    using w due by (simp add: d2_def debouncer_Add_def AfterFunc_def timer_expires_def fires_def fire_def)
  then have del: "(new, FileChangeCreated) \<in> set (delivering d2)" by simp
  define w3 where "w3 = w\<lparr>watches := ws, pendingRenames := mput (path_dir new) \<lparr>oldPath = old, rename_time = t0\<rparr> (pendingRenames w),
      watch_debouncer := Some (d2\<lparr>delivering := remove1 (new, FileChangeCreated) (delivering d2)\<rparr>)\<rparr>"
  have "w2 = handleDebouncedEvent t3 e new FileChangeCreated w3"
    using del by (simp add: w2 w1' watch_fires_def watch_timer_def watch_callback_def d2_def w3_def)
  moreover have "watch_workspace w3 = watch_workspace w" "rootPath w3 = rootPath w" "published w3 = published w"
    "mget (pendingRenames w3) (path_dir new) = Some \<lparr>oldPath = old, rename_time = t0\<rparr>"
    "mdel (path_dir new) (pendingRenames w3) = mdel (path_dir new) (pendingRenames w)"
    by (simp_all add: w3_def)
  moreover have "FileChangeCreated \<noteq> FileChangeDeleted" by (simp add: FileChangeCreated_def FileChangeDeleted_def)
  ultimately show ?thesis
    by (simp add: handleDebouncedEvent_def Let_def publishEvent_def in_context_def)
qed

definition fs_rename :: "string \<Rightarrow> fs_event" where
  "fs_rename p = \<lparr>Name = p, op_Create = False, op_Write = False, op_Remove = False, op_Rename = True\<rparr>"
definition fs_created :: "string \<Rightarrow> fs_event" where
  "fs_created p = \<lparr>Name = p, op_Create = True, op_Write = False, op_Remove = False, op_Rename = False\<rparr>"

definition plain_env :: fs_env where
  "plain_env = \<lparr>can_create = True, tree_at = (\<lambda>_. FsFile), can_watch = (\<lambda>_. True), stat_size = (\<lambda>_. Some 7)\<rparr>"

definition started :: watcher where
  "started = snd (watcher_Start plain_env (NewWatcher ''/r'' 100 []))"

lemma started_eq:
  "started = \<lparr>rootPath = ''/r'', watch_workspace = [], debounceMS = 100, watches = Some [], ignorePatterns = [],
     watcher_running = True, watch_debouncer = Some (NewDebouncer 100000000), pendingRenames = [], published = []\<rparr>"
  by (simp add: started_def watcher_Start_def NewWatcher_def NewWatcherWithWorkspace_def plain_env_def watch_below_def millisecond_def)

lemma started_seen:
  "seen started (fs_rename ''/r/a'') ''a''" "seen started (fs_created ''/r/b'') ''b''"
  "path_dir ''a'' = ''.''" "path_dir ''b'' = ''.''"
  by (simp_all add: seen_def started_eq shouldIgnore_def rel_path_def fs_rename_def fs_created_def) code_simp+

theorem rename_is_published_witness:
  "published (watch_callback 200000001 plain_env ''b'' FileChangeCreated (watch_fires ''b'' (watch_timer 200000000 0
     (handleEvent 1 plain_env (fs_created ''/r/b'') (handleEvent 0 plain_env (fs_rename ''/r/a'') started))))) =
     [NewFileRenamedEvent 200000001 ''a'' ''b'']"
proof -
  have d: "watch_debouncer started = Some (NewDebouncer 100000000)" "\<not> stopped (NewDebouncer 100000000)"
    "mget (pending (NewDebouncer 100000000)) ''b'' = None" "next_timer (NewDebouncer 100000000) = 0"
    "1 + dwindow (NewDebouncer 100000000) \<le> 200000000"
    by (simp_all add: started_eq NewDebouncer_def)
  have ops: "op_Rename (fs_rename ''/r/a'')" "\<not> op_Create (fs_rename ''/r/a'')" "\<not> op_Write (fs_rename ''/r/a'')"
    "\<not> op_Remove (fs_rename ''/r/a'')" "op_Create (fs_created ''/r/b'')"
    by (simp_all add: fs_rename_def fs_created_def)
  have dirs: "path_dir ''a'' = path_dir ''b''" by (simp add: started_seen)
  show ?thesis
    using rename_is_published [OF d(1-3) started_seen(1) ops(1-4) started_seen(2) ops(5) dirs d(5) refl refl,
        where e = plain_env and ?t0.0 = 0 and ?t3.0 = 200000001]
    unfolding d(4) by (simp add: one_second_def in_context_def started_eq)
qed

text \<open>
  Two renames in one directory within the window: the directory remembers only the last old name, so the first new
  name is published as a rename of the second file, and the disappearance of the first is never told.
\<close>

lemma renames_mispaired:
  "let w = foldl (\<lambda>w f. f w) started
     [handleEvent 0 plain_env (fs_rename ''/r/a''), handleEvent 1 plain_env (fs_created ''/r/b''),
      handleEvent 2 plain_env (fs_rename ''/r/c''), handleEvent 3 plain_env (fs_created ''/r/d''),
      watch_timer 200000000 0, watch_timer 200000000 1, watch_fires ''b'', watch_fires ''d'',
      watch_callback 200000001 plain_env ''b'' FileChangeCreated, watch_callback 200000002 plain_env ''d'' FileChangeCreated]
   in published w = [NewFileRenamedEvent 200000001 ''c'' ''b'', NewFileChangedEvent 200000002 ''d'' FileChangeCreated 7] \<and>
      pendingRenames w = []"
  by code_simp

end
