(* ===== verification/Session_Identity.thy ===== *)
theory Session_Identity
  imports Go_Path Events
begin

text \<open>
  \<open>internal/session\<close>: a session and the identity of sessions. A session starts under an identifier of
  its own (\<open>temporaryID\<close>); once Claude has written its file the session goes on under the name of that file, and
  the old identifier becomes an alias. Here are the state of the manager, the resolution of aliases and the update.

  A session holds a Claude manager, which this model knows by a number: the operations on it are entries of the log
  \<open>calls\<close>, so that what was asked of which process can be said.
\<close>

section \<open>Sessions\<close>

type_synonym session_status = string

definition StatusStopped :: session_status where "StatusStopped = ''stopped''"
definition StatusStarting :: session_status where "StatusStarting = ''starting''"
definition StatusRunning :: session_status where "StatusRunning = ''running''"
definition StatusStopping :: session_status where "StatusStopping = ''stopping''"
definition StatusError :: session_status where "StatusError = ''error''"

record session =
  sess_ID :: string
  sess_Workspace :: string
  ProjectPath :: string
  Status :: session_status
  StartedAt :: time
  LastActive :: time
  sess_Error :: string
  claudeManager :: "nat option"
  fileWatcher :: bool

definition NewSession :: "time \<Rightarrow> string \<Rightarrow> string \<Rightarrow> session" where
  "NewSession now sid wid =
     \<lparr>sess_ID = sid, sess_Workspace = wid, ProjectPath = [], Status = StatusStopped, StartedAt = now, LastActive = now,
      sess_Error = [], claudeManager = None, fileWatcher = False\<rparr>"

definition SetStatus :: "time \<Rightarrow> session_status \<Rightarrow> session \<Rightarrow> session" where
  "SetStatus now st s = s\<lparr>Status := st, LastActive := now\<rparr>"

definition SetError :: "time \<Rightarrow> string option \<Rightarrow> session \<Rightarrow> session" where
  "SetError now err s =
     s\<lparr>Status := StatusError, sess_Error := (case err of None \<Rightarrow> sess_Error s | Some m \<Rightarrow> m), LastActive := now\<rparr>"

definition UpdateLastActive :: "time \<Rightarrow> session \<Rightarrow> session" where
  "UpdateLastActive now s = s\<lparr>LastActive := now\<rparr>"

definition SetSessionID :: "string \<Rightarrow> session \<Rightarrow> session" where
  "SetSessionID newID s = s\<lparr>sess_ID := newID\<rparr>"

section \<open>The manager\<close>

text \<open>What is asked of the Claude manager of a session.\<close>

datatype claude_call =
    CmStop
  | CmStartPTY string bool string bool
  | CmStart string bool string string
  | CmPTYInput string
  | CmResponse string string
  | CmSetID string

text \<open>Everything done outside: calls of Claude managers, keys typed into terminals, commands run.\<close>

datatype call = Claude nat claude_call | Inject string string string | Bash string string

type_synonym watch_key = "string \<times> string"

text \<open>
  Workspaces are the map from their identifiers to their paths. A watched stream is the list of its watchers, and
  \<open>gitWatchers\<close> the workspaces whose git state is watched.
\<close>

record session_manager =
  sessions :: "(string, session) gomap"
  workspaces :: "(string, string) gomap"
  activeSessions :: "(string, string) gomap"
  activeSessionWorkspaces :: "(string, string) gomap"
  sessionAliases :: "(string, string) gomap"
  sessionProjectPaths :: "(string, string) gomap"
  idleTimeout :: time
  streamerSessions :: "(watch_key, string list) gomap"
  streamerClientSessions :: "(string, watch_key list) gomap"
  liveInjector :: bool
  gitWatchers :: "string list"
  gitWatcherCounts :: "(string, int) gomap"
  sessionFileWatchers :: "(string, string \<times> string) gomap"
  next_claude :: nat
  calls :: "call list"
  sm_published :: "event list"

definition NewManager :: session_manager where
  "NewManager =
     \<lparr>sessions = [], workspaces = [], activeSessions = [], activeSessionWorkspaces = [], sessionAliases = [],
      sessionProjectPaths = [], idleTimeout = 30 * minute, streamerSessions = [], streamerClientSessions = [],
      liveInjector = False, gitWatchers = [], gitWatcherCounts = [], sessionFileWatchers = [],
      next_claude = 0, calls = [], sm_published = []\<rparr>"

text \<open>Reading a map of strings: a missing key reads as the empty string.\<close>

definition mread :: "string \<Rightarrow> (string, string) gomap \<Rightarrow> string" where
  "mread k m = (case mget m k of None \<Rightarrow> [] | Some v \<Rightarrow> v)"

definition PublishEvent :: "event \<Rightarrow> session_manager \<Rightarrow> session_manager" where
  "PublishEvent ev m = m\<lparr>sm_published := sm_published m @ [ev]\<rparr>"

definition agentTypeClaude :: string where "agentTypeClaude = ''claude''"

definition ask :: "call \<Rightarrow> session_manager \<Rightarrow> session_manager" where
  "ask c m = m\<lparr>calls := calls m @ [c]\<rparr>"

definition update_session :: "string \<Rightarrow> (session \<Rightarrow> session) \<Rightarrow> session_manager \<Rightarrow> session_manager" where
  "update_session k f m = (case mget (sessions m) k of None \<Rightarrow> m | Some s \<Rightarrow> m\<lparr>sessions := mput k (f s) (sessions m)\<rparr>)"

section \<open>Aliases\<close>

function resolve_loop :: "(string, string) gomap \<Rightarrow> string list \<Rightarrow> string \<Rightarrow> string" where
  "resolve_loop aliases visited currentID =
     (case mget aliases currentID of
        None \<Rightarrow> currentID
      | Some nextID \<Rightarrow>
          if nextID = [] \<or> nextID = currentID then currentID
          else if currentID \<in> set visited then currentID
          else resolve_loop aliases (currentID # visited) nextID)"
  by pat_completeness auto

termination
proof (relation "measure (\<lambda>(aliases, visited, _). card (fst ` set aliases - set visited))")
  fix aliases :: "(string, string) gomap" and visited currentID nextID
  assume a: "mget aliases currentID = Some nextID" "currentID \<notin> set visited"
  have "currentID \<in> fst ` set aliases" using mget_in_set [OF a(1)] by force
  then have "fst ` set aliases - set (currentID # visited) \<subset> fst ` set aliases - set visited" using a(2) by auto
  then show "((aliases, currentID # visited, nextID), aliases, visited, currentID)
      \<in> measure (\<lambda>(aliases, visited, _). card (fst ` set aliases - set visited))"
    by (simp add: psubset_card_mono)
qed simp

declare resolve_loop.simps [simp del]

definition resolveSessionID :: "string \<Rightarrow> session_manager \<Rightarrow> string" where
  "resolveSessionID sid m = resolve_loop (sessionAliases m) [] sid"

definition GetSession :: "string \<Rightarrow> session_manager \<Rightarrow> string + session" where
  "GetSession sid m =
     (case mget (sessions m) (resolveSessionID sid m) of
        None \<Rightarrow> Inl (''session not found: '' @ sid)
      | Some s \<Rightarrow> Inr s)"

section \<open>The real identifier\<close>

definition put_path :: "string \<Rightarrow> string \<Rightarrow> session_manager \<Rightarrow> session_manager" where
  "put_path k p m = m\<lparr>sessionProjectPaths := mput k p (sessionProjectPaths m)\<rparr>"

definition put_alias :: "string \<Rightarrow> string \<Rightarrow> session_manager \<Rightarrow> session_manager" where
  "put_alias a t m = m\<lparr>sessionAliases := mput a t (sessionAliases m)\<rparr>"

text \<open>The identifier already leads to the real one.\<close>

definition update_known :: "string \<Rightarrow> string \<Rightarrow> session_manager \<Rightarrow> session_manager" where
  "update_known temporaryID realID m =
     (let projectPath = trim_space (mread temporaryID (sessionProjectPaths m));
          m1 = put_alias temporaryID realID m
      in if projectPath \<noteq> [] then put_path realID projectPath m1 else m1)"

text \<open>There is a session of that name already: only aliases and paths change.\<close>

definition update_taken :: "string \<Rightarrow> string \<Rightarrow> string \<Rightarrow> session_manager \<Rightarrow> session_manager" where
  "update_taken temporaryID resolved realID m =
     (let projectPath = trim_space (mread resolved (sessionProjectPaths m));
          m1 = put_alias temporaryID realID m;
          m2 = if resolved \<noteq> temporaryID then put_alias resolved realID m1 else m1
      in if projectPath \<noteq> []
         then (let m3 = put_path temporaryID projectPath (put_path realID projectPath m2)
               in if resolved \<noteq> temporaryID then put_path resolved projectPath m3 else m3)
         else m2)"

text \<open>The session moves to its new name in every map.\<close>

definition move_active :: "string \<Rightarrow> string \<Rightarrow> string \<Rightarrow> string \<Rightarrow> session_manager \<Rightarrow> session_manager" where
  "move_active workspaceID temporaryID resolved realID m =
     m\<lparr>activeSessions :=
         (if mread workspaceID (activeSessions m) = resolved \<or> mread workspaceID (activeSessions m) = temporaryID
          then mput workspaceID realID (activeSessions m) else activeSessions m),
       activeSessionWorkspaces :=
         mput realID workspaceID (mdel resolved (mdel temporaryID (activeSessionWorkspaces m)))\<rparr>"

definition move_paths :: "string \<Rightarrow> string \<Rightarrow> string \<Rightarrow> session_manager \<Rightarrow> session_manager" where
  "move_paths temporaryID resolved realID m =
     (let p1 = trim_space (mread resolved (sessionProjectPaths m));
          projectPath = (if p1 = [] then trim_space (mread temporaryID (sessionProjectPaths m)) else p1);
          m1 = m\<lparr>sessionProjectPaths := mdel temporaryID (mdel resolved (sessionProjectPaths m))\<rparr>
      in if projectPath \<noteq> []
         then (let m2 = put_path temporaryID projectPath (put_path realID projectPath m1)
               in if resolved \<noteq> temporaryID then put_path resolved projectPath m2 else m2)
         else m1)"

definition retarget :: "string \<Rightarrow> string \<Rightarrow> (string, string) gomap \<Rightarrow> (string, string) gomap" where
  "retarget old new = map (\<lambda>(a, t). (a, if t = old then new else t))"

definition set_claude_id :: "session \<Rightarrow> string \<Rightarrow> session_manager \<Rightarrow> session_manager" where
  "set_claude_id s sid m = (case claudeManager s of None \<Rightarrow> m | Some c \<Rightarrow> ask (Claude c (CmSetID sid)) m)"

definition rename_session :: "string \<Rightarrow> string \<Rightarrow> string \<Rightarrow> session \<Rightarrow> session_manager \<Rightarrow> session_manager" where
  "rename_session temporaryID resolved realID s m =
     m\<lparr>sessions := mput realID (SetSessionID realID s) (mdel resolved (mdel temporaryID (sessions m))),
       sessionAliases := retarget resolved realID (mput resolved realID (mput temporaryID realID (sessionAliases m)))\<rparr>"

definition updateSessionID :: "string \<Rightarrow> string \<Rightarrow> string \<Rightarrow> session_manager \<Rightarrow> session_manager" where
  "updateSessionID workspaceID temporaryID realID m =
     (let resolved = resolveSessionID temporaryID m
      in if resolved = realID then update_known temporaryID realID m
         else if mget (sessions m) realID \<noteq> None then update_taken temporaryID resolved realID m
         else (case mget (sessions m) resolved of
                 None \<Rightarrow> m
               | Some s \<Rightarrow>
                   rename_session temporaryID resolved realID s
                     (set_claude_id s realID
                       (move_paths temporaryID resolved realID (move_active workspaceID temporaryID resolved realID m)))))"

section \<open>Where aliases lead\<close>

definition alias_step :: "(string, string) gomap \<Rightarrow> string \<Rightarrow> string \<Rightarrow> bool" where
  "alias_step al a b \<longleftrightarrow> mget al a = Some b \<and> b \<noteq> [] \<and> b \<noteq> a"

definition final :: "(string, string) gomap \<Rightarrow> string \<Rightarrow> bool" where
  "final al a \<longleftrightarrow> (case mget al a of None \<Rightarrow> True | Some b \<Rightarrow> b = [] \<or> b = a)"

lemma final_iff: "final al a \<longleftrightarrow> (\<nexists>b. alias_step al a b)"
  by (auto simp: final_def alias_step_def split: option.split)

lemma alias_step_fun: "alias_step al a b \<Longrightarrow> alias_step al a c \<Longrightarrow> b = c"
  by (simp add: alias_step_def)

lemma resolve_unfold:
  "resolve_loop al v a =
     (if final al a \<or> a \<in> set v then a else resolve_loop al (a # v) (the (mget al a)))"
  by (subst resolve_loop.simps) (auto simp: final_def split: option.split)

lemma resolve_final [simp]: "final al a \<Longrightarrow> resolve_loop al v a = a"
  by (subst resolve_unfold) simp

lemma resolve_loop_reaches: "(alias_step al)\<^sup>*\<^sup>* a (resolve_loop al v a)"
proof (induction al v a rule: resolve_loop.induct)
  case (1 al v a)
  show ?case
  proof (cases "final al a \<or> a \<in> set v")
    case True
    then show ?thesis by (subst resolve_unfold) simp
  next
    case False
    then obtain b where b: "mget al a = Some b" "\<not> (b = [] \<or> b = a)" by (auto simp: final_def split: option.splits)
    then have "alias_step al a b" by (simp add: alias_step_def)
    moreover have "resolve_loop al v a = resolve_loop al (a # v) b" using False b by (subst resolve_unfold) simp
    ultimately show ?thesis using 1 [OF b] False by (metis converse_rtranclp_into_rtranclp)
  qed
qed

lemma resolve_loop_ends:
  "\<forall>y \<in> set v. (alias_step al)\<^sup>+\<^sup>+ y a \<Longrightarrow>
   final al (resolve_loop al v a) \<or> (alias_step al)\<^sup>+\<^sup>+ (resolve_loop al v a) (resolve_loop al v a)"
proof (induction al v a rule: resolve_loop.induct)
  case (1 al v a)
  show ?case
  proof (cases "final al a \<or> a \<in> set v")
    case True
    then show ?thesis using 1(2) by (subst resolve_unfold, subst (2 3) resolve_unfold) auto
  next
    case False
    then obtain b where b: "mget al a = Some b" "\<not> (b = [] \<or> b = a)" by (auto simp: final_def split: option.splits)
    then have s: "alias_step al a b" by (simp add: alias_step_def)
    then have "\<forall>y \<in> set (a # v). (alias_step al)\<^sup>+\<^sup>+ y b" using 1(2) by (auto intro: tranclp.trancl_into_trancl)
    moreover have "resolve_loop al v a = resolve_loop al (a # v) b" using False b by (subst resolve_unfold) simp
    ultimately show ?thesis using 1(1) [OF b] False by simp
  qed
qed

lemma alias_linear:
  "(alias_step al)\<^sup>*\<^sup>* a b \<Longrightarrow> (alias_step al)\<^sup>*\<^sup>* a c \<Longrightarrow> (alias_step al)\<^sup>*\<^sup>* b c \<or> (alias_step al)\<^sup>*\<^sup>* c b"
proof (induction rule: rtranclp_induct)
  case (step b b')
  then consider "(alias_step al)\<^sup>*\<^sup>* b c" | "(alias_step al)\<^sup>*\<^sup>* c b" by blast
  then show ?case
  proof cases
    case 1
    then show ?thesis
    proof (cases rule: converse_rtranclpE)
      case base
      then show ?thesis using step(2) by auto
    next
      case (step d)
      then show ?thesis using alias_step_fun [OF \<open>alias_step al b b'\<close>] by auto
    qed
  next
    case 2
    then show ?thesis using step(2) by (meson rtranclp.rtrancl_into_rtrancl)
  qed
qed simp

lemma cycle_returns: "(alias_step al)\<^sup>*\<^sup>* a b \<Longrightarrow> (alias_step al)\<^sup>+\<^sup>+ a a \<Longrightarrow> (alias_step al)\<^sup>+\<^sup>+ b b \<and> (alias_step al)\<^sup>*\<^sup>* b a"
proof (induction rule: rtranclp_induct)
  case (step b c)
  then have b: "(alias_step al)\<^sup>+\<^sup>+ b b" "(alias_step al)\<^sup>*\<^sup>* b a" by auto
  from b(1) obtain d where d: "alias_step al b d" "(alias_step al)\<^sup>*\<^sup>* d b" by (meson tranclpD)
  with alias_step_fun [OF d(1) step(2)] have cb: "(alias_step al)\<^sup>*\<^sup>* c b" by simp
  then have "(alias_step al)\<^sup>+\<^sup>+ c c" using step(2) by (metis rtranclp_into_tranclp1)
  then show ?case using cb b(2) by auto
qed simp

lemma final_no_step: "final al a \<Longrightarrow> (alias_step al)\<^sup>*\<^sup>* a b \<Longrightarrow> b = a"
  by (metis converse_rtranclpE final_iff)

lemma resolve_loop_final:
  assumes "(alias_step al)\<^sup>*\<^sup>* a t" "final al t"
  shows "resolve_loop al [] a = t"
proof -
  let ?r = "resolve_loop al [] a"
  have rt: "(alias_step al)\<^sup>*\<^sup>* ?r t"
    using alias_linear [OF resolve_loop_reaches assms(1)] final_no_step [OF assms(2)] by (metis rtranclp.rtrancl_refl)
  from resolve_loop_ends [of "[]" al a] consider "final al ?r" | "(alias_step al)\<^sup>+\<^sup>+ ?r ?r" by auto
  then show ?thesis
  proof cases
    case 1
    then show ?thesis using final_no_step [OF 1 rt] by simp
  next
    case 2
    then have "(alias_step al)\<^sup>+\<^sup>+ t t" using cycle_returns [OF rt] by blast
    then show ?thesis using assms(2) by (meson final_iff tranclpD)
  qed
qed

lemma resolve_loop_cong:
  "(\<And>b. (alias_step al)\<^sup>*\<^sup>* a b \<Longrightarrow> mget al' b = mget al b) \<Longrightarrow> resolve_loop al' v a = resolve_loop al v a"
proof (induction al v a rule: resolve_loop.induct)
  case (1 al v a)
  have same: "mget al' a = mget al a" using 1(2) by simp
  show ?case
  proof (cases "final al a \<or> a \<in> set v")
    case True
    then show ?thesis using same by (subst (1 2) resolve_unfold) (auto simp: final_def)
  next
    case False
    then obtain b where b: "mget al a = Some b" "\<not> (b = [] \<or> b = a)" by (auto simp: final_def split: option.splits)
    then have s: "alias_step al a b" by (simp add: alias_step_def)
    have "resolve_loop al' (a # v) b = resolve_loop al (a # v) b"
    proof (rule 1(1) [OF b])
      show "a \<notin> set v" using False by simp
      show "(alias_step al)\<^sup>*\<^sup>* b c \<Longrightarrow> mget al' c = mget al c" for c
        using 1(2) s by (meson converse_rtranclp_into_rtranclp)
    qed
    then show ?thesis using False b same by (subst (1 2) resolve_unfold) (auto simp: final_def)
  qed
qed

lemma mget_retarget: "mget (retarget old new al) a = map_option (\<lambda>t. if t = old then new else t) (mget al a)"
proof (induction al)
  case (Cons x al)
  then show ?case by (cases x) (simp add: retarget_def)
qed (simp add: retarget_def)

lemma resolveSessionID_reaches: "(alias_step (sessionAliases m))\<^sup>*\<^sup>* sid (resolveSessionID sid m)"
  by (simp add: resolveSessionID_def resolve_loop_reaches)

text \<open>What an update does to the aliases when the session moves, and when the name is taken.\<close>

definition moved_aliases :: "string \<Rightarrow> string \<Rightarrow> string \<Rightarrow> (string, string) gomap \<Rightarrow> (string, string) gomap" where
  "moved_aliases t r real al = retarget r real (mput r real (mput t real al))"

lemma resolve_moved:
  assumes t: "resolve_loop al [] t = r" and r: "final al r" "r \<noteq> real" "r \<noteq> []" and real: "final al real" "real \<noteq> []"
  shows "resolve_loop (moved_aliases t r real al) [] sid =
    (if resolve_loop al [] sid = r then real else resolve_loop al [] sid)"
proof -
  let ?al = "moved_aliases t r real al"
  have tr: "(alias_step al)\<^sup>*\<^sup>* t r" using resolve_loop_reaches [of al t "[]"] t by simp
  have t_real: "t \<noteq> real" using t r(2) real(1) by auto
  have get: "mget ?al a = (if a = r \<or> a = t then Some real else map_option (\<lambda>x. if x = r then real else x) (mget al a))" for a
    by (simp add: moved_aliases_def mget_retarget)
  have fin: "final ?al real"
    using real(1) r(2) t_real unfolding final_def get by (auto split: option.splits)
  show ?thesis
  proof (cases "resolve_loop al [] sid = r")
    case True
    then have "(alias_step al)\<^sup>*\<^sup>* sid r" using resolve_loop_reaches [of al sid "[]"] by simp
    then have "(alias_step ?al)\<^sup>*\<^sup>* sid real"
    proof (induction rule: converse_rtranclp_induct)
      case base
      then show ?case using r(2) real(2) by (intro r_into_rtranclp) (simp add: alias_step_def get)
    next
      case (step a b)
      show ?case
      proof (cases "a = t \<or> a = r \<or> b = r")
        case True
        have "a \<noteq> real" using step(1) real(1) unfolding final_iff by blast
        then have "alias_step ?al a real"
          using True step(1) real(2) by (auto simp: alias_step_def get)
        then show ?thesis by blast
      next
        case False
        then have "alias_step ?al a b" using step(1) by (auto simp: alias_step_def get)
        then show ?thesis using step.IH by (rule converse_rtranclp_into_rtranclp)
      qed
    qed
    then show ?thesis using resolve_loop_final [OF _ fin] True by simp
  next
    case False
    have off: "a \<noteq> r \<and> a \<noteq> t \<and> mget al a \<noteq> Some r" if "(alias_step al)\<^sup>*\<^sup>* sid a" for a
    proof -
      have "\<not> (alias_step al)\<^sup>*\<^sup>* sid r" using resolve_loop_final [OF _ r(1)] False by blast
      then have "\<not> (alias_step al)\<^sup>*\<^sup>* a r" using that by (meson rtranclp_trans)
      then have "a \<noteq> r \<and> a \<noteq> t \<and> \<not> alias_step al a r" using tr by blast
      then show ?thesis using r(3) by (auto simp: alias_step_def)
    qed
    have "resolve_loop ?al [] sid = resolve_loop al [] sid"
    proof (rule resolve_loop_cong)
      fix b assume "(alias_step al)\<^sup>*\<^sup>* sid b"
      from off [OF this] show "mget ?al b = mget al b" by (cases "mget al b") (auto simp: get)
    qed
    then show ?thesis using False by simp
  qed
qed

lemma put_simps [simp]:
  "sessions (put_path k p m) = sessions m" "sessionAliases (put_path k p m) = sessionAliases m"
  "sessions (put_alias a t m) = sessions m" "sessionAliases (put_alias a t m) = mput a t (sessionAliases m)"
  "sessions (ask c m) = sessions m" "sessionAliases (ask c m) = sessionAliases m"
  "sessions (PublishEvent ev m) = sessions m" "sessionAliases (PublishEvent ev m) = sessionAliases m"
  by (simp_all add: put_path_def put_alias_def ask_def PublishEvent_def)

lemma move_simps [simp]:
  "sessions (move_active w t r real m) = sessions m" "sessionAliases (move_active w t r real m) = sessionAliases m"
  "sessions (move_paths t r real m) = sessions m" "sessionAliases (move_paths t r real m) = sessionAliases m"
  "sessions (set_claude_id s sid m) = sessions m" "sessionAliases (set_claude_id s sid m) = sessionAliases m"
  by (simp_all add: move_active_def move_paths_def set_claude_id_def Let_def split: option.split)

lemma update_taken_simps [simp]:
  "sessions (update_taken t r real m) = sessions m" "sessions (update_known t real m) = sessions m"
  "sessionAliases (update_known t real m) = mput t real (sessionAliases m)"
  "mget (sessionAliases (update_taken t r real m)) a = (if a = t \<or> a = r then Some real else mget (sessionAliases m) a)"
  by (simp_all add: update_taken_def update_known_def Let_def)

lemma updateSessionID_moves:
  assumes "resolveSessionID temp m = r" "r \<noteq> real" "mget (sessions m) real = None" "mget (sessions m) r = Some s"
  shows "sessions (updateSessionID ws temp real m) = mput real (SetSessionID real s) (mdel r (mdel temp (sessions m)))"
    "sessionAliases (updateSessionID ws temp real m) = moved_aliases temp r real (sessionAliases m)"
  using assms by (simp_all add: updateSessionID_def rename_session_def moved_aliases_def)

lemma resolve_never_on_way:
  assumes "resolve_loop al [] t = r" "final al r" "resolve_loop al [] sid = t"
  shows "t = r"
proof -
  have tr: "(alias_step al)\<^sup>*\<^sup>* t r" using resolve_loop_reaches [of al t "[]"] assms(1) by simp
  from resolve_loop_ends [of "[]" al sid] assms(3) consider "final al t" | "(alias_step al)\<^sup>+\<^sup>+ t t" by auto
  then show ?thesis
  proof cases
    case 1
    then show ?thesis using final_no_step [OF 1 tr] by simp
  next
    case 2
    then have "(alias_step al)\<^sup>+\<^sup>+ r r" using cycle_returns [OF tr] by blast
    then show ?thesis using assms(2) by (meson final_iff tranclpD)
  qed
qed

text \<open>
  C25: once the real identifier of a session is known, the session is found under the real identifier, under the
  temporary one and under every identifier that led to it before, and it carries the real one; every other
  identifier finds what it found before.
\<close>

theorem real_id_takes_over:
  assumes "resolveSessionID temp m = r" "final (sessionAliases m) r" "r \<noteq> real" "r \<noteq> []"
    "mget (sessions m) r = Some s" "mget (sessions m) real = None" "final (sessionAliases m) real" "real \<noteq> []"
  shows "GetSession sid (updateSessionID ws temp real m) =
    (if resolveSessionID sid m = r \<or> resolveSessionID sid m = real then Inr (s\<lparr>sess_ID := real\<rparr>) else GetSession sid m)"
proof -
  let ?m = "updateSessionID ws temp real m"
  have res: "resolveSessionID sid ?m = (if resolveSessionID sid m = r then real else resolveSessionID sid m)"
    unfolding resolveSessionID_def updateSessionID_moves(2) [OF assms(1,3,6,5)]
    using assms by (intro resolve_moved) (simp_all add: resolveSessionID_def)
  have "resolveSessionID sid m \<noteq> temp" if "resolveSessionID sid m \<noteq> r"
    using that resolve_never_on_way [of "sessionAliases m" temp r sid] assms(1,2) by (auto simp: resolveSessionID_def)
  then show ?thesis
    by (auto simp: GetSession_def res updateSessionID_moves(1) [OF assms(1,3,6,5)] SetSessionID_def)
qed

text \<open>
  C26: when the real identifier is the name of a session already, as it is after two sessions waited for their
  files in one directory and both were told of the same one, the second session stays in the map as it was, but no
  identifier leads to it any more: it cannot be asked, stopped or found.
\<close>

theorem taken_id_strands_session:
  assumes "resolveSessionID temp m \<noteq> real" "mget (sessions m) real \<noteq> None" "final (sessionAliases m) real" "real \<noteq> []"
  shows "sessions (updateSessionID ws temp real m) = sessions m \<and>
    resolveSessionID sid (updateSessionID ws temp real m) \<noteq> resolveSessionID temp m"
proof -
  let ?r = "resolveSessionID temp m"
  let ?al = "sessionAliases (updateSessionID ws temp real m)"
  have get: "mget ?al a = (if a = temp \<or> a = ?r then Some real else mget (sessionAliases m) a)" for a
    using assms(1,2) by (auto simp: updateSessionID_def)
  have "temp \<noteq> real" using assms(1,3) by (auto simp: resolveSessionID_def)
  then have fin: "final ?al real" using assms(1,3) by (simp add: final_def get)
  have step: "alias_step ?al ?r real" using assms(1,4) by (simp add: alias_step_def get)
  have "resolve_loop ?al [] sid \<noteq> ?r"
  proof
    assume r: "resolve_loop ?al [] sid = ?r"
    from resolve_loop_ends [of "[]" ?al sid] r consider "final ?al ?r" | "(alias_step ?al)\<^sup>+\<^sup>+ ?r ?r" by auto
    then show False
    proof cases
      case 1
      then show False using step by (simp add: final_iff)
    next
      case 2
      then have "(alias_step ?al)\<^sup>+\<^sup>+ real real" using cycle_returns [OF r_into_rtranclp [of "alias_step ?al", OF step]] by blast
      then show False using fin by (meson final_iff tranclpD)
    qed
  qed
  then show ?thesis using assms(1,2) by (auto simp: updateSessionID_def resolveSessionID_def)
qed

text \<open>
  C27: the resolution of an identifier ends whatever the aliases are, cycles included, and gives an identifier
  the aliases lead to, either one without an alias of its own or one on a cycle.
\<close>

theorem resolve_follows_aliases:
  "(alias_step (sessionAliases m))\<^sup>*\<^sup>* sid (resolveSessionID sid m) \<and>
   (final (sessionAliases m) (resolveSessionID sid m) \<or>
    (alias_step (sessionAliases m))\<^sup>+\<^sup>+ (resolveSessionID sid m) (resolveSessionID sid m))"
  using resolve_loop_ends [of "[]" "sessionAliases m" sid]
  by (simp add: resolve_loop_reaches resolveSessionID_def)

definition two_sessions :: session_manager where
  "two_sessions = NewManager\<lparr>sessions := [(''t1'', NewSession 0 ''t1'' ''w''), (''t2'', NewSession 0 ''t2'' ''w'')]\<rparr>"

lemma two_sessions_resolve:
  "resolveSessionID ''t1'' two_sessions = ''t1''" "final (sessionAliases two_sessions) x"
  "mget (sessions two_sessions) ''t1'' = Some (NewSession 0 ''t1'' ''w'')" "mget (sessions two_sessions) ''r'' = None"
  by (simp_all add: two_sessions_def NewManager_def resolveSessionID_def final_def)

theorem real_id_takes_over_witness:
  "GetSession ''t1'' (updateSessionID ''w'' ''t1'' ''r'' two_sessions) = Inr (NewSession 0 ''r'' ''w'')"
  using real_id_takes_over [OF two_sessions_resolve(1,2) _ _ two_sessions_resolve(3,4,2),
      where sid = "''t1''" and ws = "''w''"]
  by (simp add: two_sessions_resolve NewSession_def)

definition one_named :: session_manager where
  "one_named = updateSessionID ''w'' ''t1'' ''r'' two_sessions"

lemma one_named_facts:
  "resolveSessionID ''t2'' one_named = ''t2''" "mget (sessions one_named) ''r'' \<noteq> None" "final (sessionAliases one_named) ''r''"
  by code_simp+

theorem taken_id_strands_session_witness:
  "mget (sessions (updateSessionID ''w'' ''t2'' ''r'' one_named)) ''t2'' = Some (NewSession 0 ''t2'' ''w'') \<and>
   (\<forall>sid. resolveSessionID sid (updateSessionID ''w'' ''t2'' ''r'' one_named) \<noteq> ''t2'')"
proof -
  have "mget (sessions one_named) ''t2'' = Some (NewSession 0 ''t2'' ''w'')" by code_simp
  then show ?thesis
    using taken_id_strands_session [OF _ one_named_facts(2,3), where temp = "''t2''" and ws = "''w''"] by (simp add: one_named_facts(1))
qed

end
