(* ===== verification/Session_Watch.thy ===== *)
theory Session_Watch
  imports Session_Identity "HOL-Library.List_Lexorder" "HOL-Library.Char_ord"
begin

text \<open>
  \<open>internal/session/manager.go\<close>, \<open>internal/gitutil/worktree.go\<close> and \<open>internal/pathutil\<close>: where the files
  of sessions are, and who watches them. The file system, git and the order in which maps are gone through are
  arguments (\<open>session_env\<close>); so is whether a streamer can be started.
\<close>

section \<open>Files of sessions\<close>

text \<open>
  \<open>stat_file\<close> tells a file that exists from one that does not and from one that cannot be told;
  \<open>real_path\<close> is the absolute path with its links resolved; \<open>historical\<close> is the resolver, if one is set,
  which fails, knows no path or gives one.
\<close>

record session_env =
  sm_clock :: "nat \<Rightarrow> time"
  home_dir :: "string option"
  stat_file :: "string \<Rightarrow> bool option"
  real_path :: "string \<Rightarrow> string"
  worktree_list :: "string \<Rightarrow> string option"
  is_git_repo :: "string \<Rightarrow> bool"
  historical :: "(string \<Rightarrow> string \<Rightarrow> string + string option) option"
  order_sessions :: "string list"
  order_active :: "string list"
  order_workspaces :: "string list"
  order_streams :: "watch_key list"
  streamer_ok :: "string \<Rightarrow> string \<Rightarrow> bool"

definition NormalizePath :: "session_env \<Rightarrow> string \<Rightarrow> string" where
  "NormalizePath e path = (if trim_space path = [] then [] else clean (real_path e path))"

definition IsWithinPath :: "session_env \<Rightarrow> string \<Rightarrow> string \<Rightarrow> bool" where
  "IsWithinPath e root candidate =
     (let r = NormalizePath e root; c = NormalizePath e candidate
      in if r = [] \<or> c = [] then False else if r = c then True else has_prefix (r @ ''/'') c)"

fun unique_paths :: "session_env \<Rightarrow> string list \<Rightarrow> string list \<Rightarrow> string list" where
  "unique_paths e seen [] = []"
| "unique_paths e seen (p # ps) =
     (let n = NormalizePath e p
      in if n = [] \<or> n \<in> set seen then unique_paths e seen ps else n # unique_paths e (n # seen) ps)"

definition ListWorktreePaths :: "session_env \<Rightarrow> string \<Rightarrow> string list option" where
  "ListWorktreePaths e path =
     (let p = NormalizePath e path
      in if p = [] then None
         else case worktree_list e p of
           None \<Rightarrow> None
         | Some output \<Rightarrow>
             Some (unique_paths e []
               (map (\<lambda>t. trim_space (trim_prefix ''worktree '' t))
                 (filter (has_prefix ''worktree '') (map trim_space (split_on CHR 0x0A output))))))"

definition EncodePath :: "string \<Rightarrow> string" where
  "EncodePath path = map (\<lambda>c. if c = CHR ''/'' \<or> c = CHR ''.'' then CHR ''-'' else c) (clean path)"

definition getSessionsDir :: "session_env \<Rightarrow> string \<Rightarrow> string" where
  "getSessionsDir e repoPath =
     path_join [case home_dir e of Some h \<Rightarrow> h | None \<Rightarrow> ''~'', ''.claude'', ''projects'', EncodePath repoPath]"

definition session_file :: "session_env \<Rightarrow> string \<Rightarrow> string \<Rightarrow> string" where
  "session_file e projectPath sid = path_join [getSessionsDir e projectPath, sid @ ''.jsonl'']"

definition sessionFileExistsAtProjectPath :: "session_env \<Rightarrow> string \<Rightarrow> string \<Rightarrow> bool" where
  "sessionFileExistsAtProjectPath e projectPath sid \<longleftrightarrow> stat_file e (session_file e projectPath sid) = Some True"

definition GetWorkspace :: "string \<Rightarrow> session_manager \<Rightarrow> string + string" where
  "GetWorkspace wid m =
     (case mget (workspaces m) wid of None \<Rightarrow> Inl (''workspace not found: '' @ wid) | Some p \<Rightarrow> Inr p)"

definition workspaceProjectPathsForWorkspace :: "session_env \<Rightarrow> string \<Rightarrow> string \<Rightarrow> session_manager \<Rightarrow> string list" where
  "workspaceProjectPathsForWorkspace e wid path m =
     unique_paths e []
       (path # (case ListWorktreePaths e path of Some ps \<Rightarrow> ps | None \<Rightarrow> []) @
        map (\<lambda>(k, s). ProjectPath s)
          (filter (\<lambda>(k, s). sess_Workspace s = wid \<and> trim_space (ProjectPath s) \<noteq> [])
            (range_entries (order_sessions e) (sessions m))) @
        concat (map (\<lambda>(sid, w).
            if w \<noteq> wid then []
            else (let p = trim_space (mread sid (sessionProjectPaths m)) in if p \<noteq> [] then [p] else []))
          (range_entries (order_active e) (activeSessionWorkspaces m))))"

definition workspaceProjectPaths :: "session_env \<Rightarrow> string \<Rightarrow> session_manager \<Rightarrow> string + string list" where
  "workspaceProjectPaths e wid m =
     (case GetWorkspace wid m of Inl err \<Rightarrow> Inl err | Inr path \<Rightarrow> Inr (workspaceProjectPathsForWorkspace e wid path m))"

definition projectPathForSession :: "string \<Rightarrow> session_manager \<Rightarrow> string" where
  "projectPathForSession sid m =
     (let p = trim_space (mread (resolveSessionID sid m) (sessionProjectPaths m))
      in if p \<noteq> [] then p else trim_space (mread sid (sessionProjectPaths m)))"

definition resolveSessionProjectPath :: "session_env \<Rightarrow> string \<Rightarrow> string \<Rightarrow> session_manager \<Rightarrow> (string + string) \<times> session_manager" where
  "resolveSessionProjectPath e wid sid m =
     (let r = resolveSessionID sid m; p = projectPathForSession r m
      in if p \<noteq> [] \<and> sessionFileExistsAtProjectPath e p r then (Inr p, m)
         else case workspaceProjectPaths e wid m of
           Inl err \<Rightarrow> (Inl err, m)
         | Inr ps \<Rightarrow>
             (case find (\<lambda>p. sessionFileExistsAtProjectPath e p r) ps of
                Some p \<Rightarrow> (Inr p, m)
              | None \<Rightarrow>
                  (case historical e of
                     None \<Rightarrow> (Inl (''session not found: '' @ sid), m)
                   | Some res \<Rightarrow>
                       (case res wid r of
                          Inl err \<Rightarrow> (Inl err, m)
                        | Inr None \<Rightarrow> (Inl (''session not found: '' @ sid), m)
                        | Inr (Some p) \<Rightarrow>
                            if trim_space p \<noteq> [] \<and> sessionFileExistsAtProjectPath e p r
                            then (Inr p, put_path r p m)
                            else (Inl (''session not found: '' @ sid), m)))))"

definition sessionFileExistsForWorkspace :: "session_env \<Rightarrow> string \<Rightarrow> string \<Rightarrow> string \<Rightarrow> session_manager \<Rightarrow> bool" where
  "sessionFileExistsForWorkspace e wid path sid m \<longleftrightarrow>
     (\<exists>p \<in> set (workspaceProjectPathsForWorkspace e wid path m). sessionFileExistsAtProjectPath e p (resolveSessionID sid m))"

definition SessionFileExists :: "session_env \<Rightarrow> string \<Rightarrow> string \<Rightarrow> session_manager \<Rightarrow> (string + bool) \<times> session_manager" where
  "SessionFileExists e wid sid m =
     (case resolveSessionProjectPath e wid sid m of
        (Inl err, m') \<Rightarrow> ((if contains err ''session not found'' then Inr False else Inl err), m')
      | (Inr p, m') \<Rightarrow>
          ((case stat_file e (session_file e p (resolveSessionID sid m')) of
              Some b \<Rightarrow> Inr b | None \<Rightarrow> Inl ''failed to access session file''), m'))"

text \<open>The file goes; what is left is for the file system to say.\<close>

definition DeleteHistorySession :: "session_env \<Rightarrow> string \<Rightarrow> string \<Rightarrow> session_manager \<Rightarrow> (string + string) \<times> session_manager" where
  "DeleteHistorySession e wid sid m =
     (case resolveSessionProjectPath e wid sid m of
        (Inl err, m') \<Rightarrow> (Inl err, m')
      | (Inr p, m') \<Rightarrow>
          (let f = session_file e p (resolveSessionID sid m')
           in if stat_file e f = Some False then (Inl (''session file not found: '' @ sid), m') else (Inr f, m')))"

section \<open>Watching sessions\<close>

record watch_info =
  wi_Workspace :: string
  wi_Session :: string
  Watching :: bool

text \<open>The sets of watchers and of watched sessions are lists without repetitions.\<close>

definition add_to :: "'k \<Rightarrow> 'v \<Rightarrow> ('k, 'v list) gomap \<Rightarrow> ('k, 'v list) gomap" where
  "add_to k v m = (case mget m k of None \<Rightarrow> mput k [v] m | Some vs \<Rightarrow> mput k (List.insert v vs) m)"

definition WatchWorkspaceSession :: "session_env \<Rightarrow> string \<Rightarrow> string \<Rightarrow> string \<Rightarrow> session_manager \<Rightarrow> (string + watch_info) \<times> session_manager" where
  "WatchWorkspaceSession e client wid sid0 m0 =
     (let sid = resolveSessionID sid0 m0
      in case resolveSessionProjectPath e wid sid m0 of
        (Inl err, m) \<Rightarrow> (Inl err, m)
      | (Inr projectPath, m) \<Rightarrow>
          (case stat_file e (session_file e projectPath sid) of
             Some False \<Rightarrow> (Inl (''session not found: '' @ sid), m)
           | None \<Rightarrow> (Inl ''failed to access session file'', m)
           | Some True \<Rightarrow>
               (let k = (wid, sid); info = \<lparr>wi_Workspace = wid, wi_Session = sid, Watching = True\<rparr>
                in if mget (streamerSessions m) k \<noteq> None
                   then (Inr info, m\<lparr>streamerSessions := add_to k client (streamerSessions m),
                           streamerClientSessions := add_to client k (streamerClientSessions m)\<rparr>)
                   else if \<not> streamer_ok e (getSessionsDir e projectPath) sid
                   then (Inl ''failed to start session watch'', m)
                   else (Inr info, m\<lparr>streamerSessions := mput k [client] (streamerSessions m),
                           streamerClientSessions := add_to client k (streamerClientSessions m),
                           activeSessions := mput wid sid (activeSessions m)\<rparr>))))"

text \<open>The least key of a list, by workspace and then session: the choice every order of the loop makes.\<close>

definition key_less :: "watch_key \<Rightarrow> watch_key \<Rightarrow> bool" where
  "key_less a b \<longleftrightarrow> fst a < fst b \<or> fst a = fst b \<and> snd a < snd b"

definition least_key :: "watch_key list \<Rightarrow> watch_key option" where
  "least_key ks = fold (\<lambda>k best. case best of None \<Rightarrow> Some k | Some b \<Rightarrow> if key_less k b then Some k else best) ks None"

definition put_client :: "string \<Rightarrow> watch_key list \<Rightarrow> (string, watch_key list) gomap \<Rightarrow> (string, watch_key list) gomap" where
  "put_client client ks m = (if ks = [] then mdel client m else mput client ks m)"

definition UnwatchWorkspaceSession :: "string \<Rightarrow> string \<Rightarrow> session_manager \<Rightarrow> watch_info \<times> session_manager" where
  "UnwatchWorkspaceSession client sid0 m =
     (case mget (streamerClientSessions m) client of
        None \<Rightarrow> (\<lparr>wi_Workspace = [], wi_Session = [], Watching = False\<rparr>, m)
      | Some watched \<Rightarrow>
          if watched = [] then (\<lparr>wi_Workspace = [], wi_Session = [], Watching = False\<rparr>, m)
          else (let s = trim_space sid0; sid = (if s \<noteq> [] then resolveSessionID s m else [])
                in case least_key (filter (\<lambda>k. sid = [] \<or> snd k = sid) watched) of
                     None \<Rightarrow> (\<lparr>wi_Workspace = [], wi_Session = sid, Watching = True\<rparr>, m)
                   | Some target \<Rightarrow>
                       (let rest = removeAll target watched
                        in case mget (streamerSessions m) target of
                             None \<Rightarrow>
                               (\<lparr>wi_Workspace = fst target, wi_Session = snd target, Watching = rest \<noteq> []\<rparr>,
                                m\<lparr>streamerClientSessions := put_client client rest (streamerClientSessions m)\<rparr>)
                           | Some watchers \<Rightarrow>
                               (let others = removeAll client watchers
                                in (\<lparr>wi_Workspace = fst target, wi_Session = snd target, Watching = others \<noteq> []\<rparr>,
                                    m\<lparr>streamerSessions :=
                                        (if others \<noteq> [] then mput target others (streamerSessions m)
                                         else mdel target (streamerSessions m)),
                                      streamerClientSessions := put_client client rest (streamerClientSessions m)\<rparr>)))))"

definition GetWatchedSession :: "session_manager \<Rightarrow> watch_info" where
  "GetWatchedSession m =
     (case least_key (map fst (streamerSessions m)) of
        None \<Rightarrow> \<lparr>wi_Workspace = [], wi_Session = [], Watching = False\<rparr>
      | Some k \<Rightarrow> \<lparr>wi_Workspace = fst k, wi_Session = snd k, Watching = True\<rparr>)"

section \<open>Watching git\<close>

definition count_of :: "string \<Rightarrow> session_manager \<Rightarrow> int" where
  "count_of wid m = (case mget (gitWatcherCounts m) wid of None \<Rightarrow> 0 | Some n \<Rightarrow> n)"

definition set_count :: "string \<Rightarrow> int \<Rightarrow> session_manager \<Rightarrow> session_manager" where
  "set_count wid n m = m\<lparr>gitWatcherCounts := mput wid n (gitWatcherCounts m)\<rparr>"

definition StartGitWatcher :: "bool \<Rightarrow> session_env \<Rightarrow> string \<Rightarrow> session_manager \<Rightarrow> string option \<times> session_manager" where
  "StartGitWatcher git_enabled e wid m0 =
     (if \<not> git_enabled then (None, m0)
      else (let m = set_count wid (count_of wid m0 + 1) m0
            in if wid \<in> set (gitWatchers m) then (None, m)
               else case GetWorkspace wid m of
                 Inl err \<Rightarrow> (Some err, set_count wid (count_of wid m - 1) m)
               | Inr path \<Rightarrow>
                   if \<not> is_git_repo e path then (None, set_count wid (count_of wid m - 1) m)
                   else (None, m\<lparr>gitWatchers := wid # gitWatchers m\<rparr>)))"

definition StopGitWatcher :: "string \<Rightarrow> session_manager \<Rightarrow> session_manager" where
  "StopGitWatcher wid m0 =
     (let m = (if count_of wid m0 > 0 then set_count wid (count_of wid m0 - 1) m0 else m0)
      in if count_of wid m > 0 then m
         else if wid \<in> set (gitWatchers m)
         then m\<lparr>gitWatchers := removeAll wid (gitWatchers m), gitWatcherCounts := mdel wid (gitWatcherCounts m)\<rparr>
         else m)"

text \<open>One watched session of a client that went away.\<close>

definition drop_watch :: "string \<Rightarrow> watch_key \<Rightarrow> session_manager \<Rightarrow> session_manager" where
  "drop_watch client k m =
     (case mget (streamerSessions m) k of
        None \<Rightarrow> m
      | Some watchers \<Rightarrow>
          (let others = removeAll client watchers
           in m\<lparr>streamerSessions := (if others \<noteq> [] then mput k others (streamerSessions m) else mdel k (streamerSessions m))\<rparr>))"

definition OnClientDisconnect :: "string \<Rightarrow> string list \<Rightarrow> session_manager \<Rightarrow> session_manager" where
  "OnClientDisconnect client subscribed m0 =
     (let m = fold StopGitWatcher subscribed m0
      in case mget (streamerClientSessions m) client of
           None \<Rightarrow> m
         | Some watched \<Rightarrow>
             if watched = [] then m
             else (let m' = fold (drop_watch client) watched m
                   in m'\<lparr>streamerClientSessions := mdel client (streamerClientSessions m')\<rparr>))"


text \<open>A session in somebody's terminal that is no longer followed: its stream ends for all its watchers.\<close>

definition stop_stream :: "watch_key \<Rightarrow> session_manager \<Rightarrow> session_manager" where
  "stop_stream k m =
     (case mget (streamerSessions m) k of
        None \<Rightarrow> m
      | Some _ \<Rightarrow>
          m\<lparr>streamerSessions := mdel k (streamerSessions m),
            streamerClientSessions := map (\<lambda>(c, ks). (c, removeAll k ks)) (streamerClientSessions m)\<rparr>)"

definition stop_streams :: "session_manager \<Rightarrow> session_manager" where
  "stop_streams m = m\<lparr>streamerSessions := [], streamerClientSessions := []\<rparr>"

section \<open>Who watches what\<close>

definition client_watches :: "session_manager \<Rightarrow> string \<Rightarrow> watch_key \<Rightarrow> bool" where
  "client_watches m c k \<longleftrightarrow> (case mget (streamerClientSessions m) c of None \<Rightarrow> False | Some ks \<Rightarrow> k \<in> set ks)"

definition stream_feeds :: "session_manager \<Rightarrow> watch_key \<Rightarrow> string \<Rightarrow> bool" where
  "stream_feeds m k c \<longleftrightarrow> (case mget (streamerSessions m) k of None \<Rightarrow> False | Some cs \<Rightarrow> c \<in> set cs)"

definition watch_ok :: "session_manager \<Rightarrow> bool" where
  "watch_ok m \<longleftrightarrow>
     (\<forall>c k. client_watches m c k \<longleftrightarrow> stream_feeds m k c) \<and> (\<forall>k. mget (streamerSessions m) k \<noteq> Some [])"

lemma watch_okD:
  "watch_ok m \<Longrightarrow> client_watches m c k \<longleftrightarrow> stream_feeds m k c"
  "watch_ok m \<Longrightarrow> mget (streamerSessions m) k = Some cs \<Longrightarrow> cs \<noteq> []"
  unfolding watch_ok_def by blast+

lemma watch_ok_same:
  "streamerSessions m' = streamerSessions m \<Longrightarrow> streamerClientSessions m' = streamerClientSessions m \<Longrightarrow> watch_ok m' = watch_ok m"
  by (simp add: watch_ok_def client_watches_def stream_feeds_def)

lemma mget_add_to: "mget (add_to k v m) k' = (if k' = k then Some (case mget m k of None \<Rightarrow> [v] | Some vs \<Rightarrow> List.insert v vs) else mget m k')"
  by (simp add: add_to_def split: option.split)

lemma put_path_watch [simp]:
  "streamerSessions (put_path k p m) = streamerSessions m" "streamerClientSessions (put_path k p m) = streamerClientSessions m"
  by (simp_all add: put_path_def)

lemma resolveSessionProjectPath_keeps:
  assumes "resolveSessionProjectPath e wid sid m = (r, m')"
  shows "streamerSessions m' = streamerSessions m \<and> streamerClientSessions m' = streamerClientSessions m \<and>
    sessions m' = sessions m \<and> sessionAliases m' = sessionAliases m"
  using assms
  by (auto simp: resolveSessionProjectPath_def Let_def put_path_def split: if_splits sum.splits option.splits)

lemma insert_not_Nil [simp]: "List.insert x xs \<noteq> []" "[] \<noteq> List.insert x xs"
  by (cases xs; auto simp: List.insert_def)+

lemma removeAll_only: "removeAll c cs = [] \<Longrightarrow> d \<in> set cs \<Longrightarrow> d = c"
  by (induction cs) (auto split: if_splits)

text \<open>What the operations do to who watches what.\<close>

lemma watch_added:
  assumes "WatchWorkspaceSession e c wid sid m = (Inr info, m')" and ok: "watch_ok m"
  shows "watch_ok m' \<and> info = \<lparr>wi_Workspace = wid, wi_Session = resolveSessionID sid m, Watching = True\<rparr> \<and>
    (\<forall>d k. client_watches m' d k \<longleftrightarrow> client_watches m d k \<or> d = c \<and> k = (wid, resolveSessionID sid m))"
proof -
  let ?k = "(wid, resolveSessionID sid m)"
  obtain r m1 where r: "resolveSessionProjectPath e wid (resolveSessionID sid m) m = (r, m1)" by fastforce
  with assms(1) obtain p where "r = Inr p" by (cases r) (auto simp: WatchWorkspaceSession_def Let_def)
  with r have m1: "resolveSessionProjectPath e wid (resolveSessionID sid m) m = (Inr p, m1)" by simp
  note keep = resolveSessionProjectPath_keeps [OF m1]
  have info: "info = \<lparr>wi_Workspace = wid, wi_Session = resolveSessionID sid m, Watching = True\<rparr>"
    using assms(1) m1 by (auto simp: WatchWorkspaceSession_def Let_def split: option.splits bool.splits if_splits)
  have str: "streamerSessions m' = (if mget (streamerSessions m) ?k \<noteq> None then add_to ?k c (streamerSessions m) else mput ?k [c] (streamerSessions m))"
    and cl: "streamerClientSessions m' = add_to c ?k (streamerClientSessions m)"
    using assms(1) m1 keep by (auto simp: WatchWorkspaceSession_def Let_def split: option.splits bool.splits if_splits)
  have w: "client_watches m' d k \<longleftrightarrow> client_watches m d k \<or> d = c \<and> k = ?k" for d k
    by (auto simp: client_watches_def cl mget_add_to split: option.splits)
  have s: "stream_feeds m' k d \<longleftrightarrow> stream_feeds m k d \<or> d = c \<and> k = ?k" for d k
    by (auto simp: stream_feeds_def str mget_add_to split: option.splits)
  have "mget (streamerSessions m') k \<noteq> Some []" for k
    using watch_okD(2) [OF ok, of k] by (auto simp: str mget_add_to split: option.splits)
  then have "watch_ok m'" unfolding watch_ok_def using w s watch_okD(1) [OF ok] by blast
  with info w show ?thesis by blast
qed

lemma watch_refused:
  assumes "WatchWorkspaceSession e c wid sid m = (Inl err, m')"
  shows "streamerSessions m' = streamerSessions m \<and> streamerClientSessions m' = streamerClientSessions m"
proof -
  obtain r m1 where r: "resolveSessionProjectPath e wid (resolveSessionID sid m) m = (r, m1)" by fastforce
  note keep = resolveSessionProjectPath_keeps [OF r]
  show ?thesis using assms r keep
    by (cases r) (auto simp: WatchWorkspaceSession_def Let_def split: option.splits bool.splits if_splits)
qed


lemma least_key_in: "least_key ks = Some k \<Longrightarrow> k \<in> set ks"
proof -
  have "fold (\<lambda>k best. case best of None \<Rightarrow> Some k | Some b \<Rightarrow> if key_less k b then Some k else best) ks b = Some k \<Longrightarrow>
      k \<in> set ks \<or> b = Some k" for b
    by (induction ks arbitrary: b) (fastforce split: option.splits if_splits)+
  from this [of None] show "least_key ks = Some k \<Longrightarrow> k \<in> set ks" by (auto simp: least_key_def)
qed

lemma least_key_None: "least_key ks = None \<longleftrightarrow> ks = []"
proof -
  have "fold (\<lambda>k best. case best of None \<Rightarrow> Some k | Some b \<Rightarrow> if key_less k b then Some k else best) xs (Some b) \<noteq> None" for xs b
    by (induction xs arbitrary: b) auto
  from this [of "tl ks" "hd ks"] show ?thesis by (cases ks) (simp_all add: least_key_def del: not_None_eq)
qed

lemma client_put: "client_watches (m\<lparr>streamerClientSessions := put_client c ks (streamerClientSessions m)\<rparr>) d k \<longleftrightarrow>
    (if d = c then k \<in> set ks else client_watches m d k)"
  by (auto simp: client_watches_def put_client_def)

text \<open>The key an unwatching removes.\<close>

definition unwatched :: "string \<Rightarrow> string \<Rightarrow> session_manager \<Rightarrow> watch_key option" where
  "unwatched c sid0 m =
     (let s = trim_space sid0; sid = (if s \<noteq> [] then resolveSessionID s m else [])
      in least_key (filter (\<lambda>k. sid = [] \<or> snd k = sid)
           (case mget (streamerClientSessions m) c of None \<Rightarrow> [] | Some ks \<Rightarrow> ks)))"

lemma watch_removed:
  assumes ok: "watch_ok m" and m'_def: "m' = snd (UnwatchWorkspaceSession c sid m)"
  shows "watch_ok m' \<and> (\<forall>d k. client_watches m' d k \<longleftrightarrow> client_watches m d k \<and> \<not> (d = c \<and> unwatched c sid m = Some k)) \<and>
    (\<forall>k. unwatched c sid m = Some k \<longrightarrow> client_watches m c k)"
proof (cases "unwatched c sid m")
  case None
  then have "m' = m"
    unfolding m'_def unwatched_def UnwatchWorkspaceSession_def by (auto simp: Let_def split: option.splits)
  with ok None show ?thesis by simp
next
  case (Some t)
  then obtain ks where ks: "mget (streamerClientSessions m) c = Some ks" "t \<in> set ks"
    using least_key_in [of _ t] unfolding unwatched_def by (fastforce simp: Let_def split: option.splits)
  then have wt: "client_watches m c t" by (simp add: client_watches_def)
  then have "stream_feeds m t c" using watch_okD(1) [OF ok] by blast
  then obtain cs where cs: "mget (streamerSessions m) t = Some cs" "c \<in> set cs" by (auto simp: stream_feeds_def split: option.splits)
  have ne: "ks \<noteq> []" using ks(2) by auto
  have m': "streamerSessions m' = (if removeAll c cs \<noteq> [] then mput t (removeAll c cs) (streamerSessions m) else mdel t (streamerSessions m))"
    "streamerClientSessions m' = put_client c (removeAll t ks) (streamerClientSessions m)"
    using Some ks(1) ne cs(1) unfolding m'_def unwatched_def UnwatchWorkspaceSession_def by (simp_all add: Let_def)
  have w: "client_watches m' d k \<longleftrightarrow> client_watches m d k \<and> \<not> (d = c \<and> t = k)" for d k
    using ks(1) by (auto simp: client_watches_def m'(2) put_client_def dest: removeAll_only)
  have s: "stream_feeds m' k d \<longleftrightarrow> stream_feeds m k d \<and> \<not> (d = c \<and> t = k)" for d k
  proof (cases "k = t")
    case True
    show ?thesis using True cs removeAll_only [of c cs d] by (auto simp: stream_feeds_def m'(1))
  next
    case False
    then show ?thesis by (auto simp: stream_feeds_def m'(1))
  qed
  have "mget (streamerSessions m') k \<noteq> Some []" for k
    using watch_okD(2) [OF ok, of k] by (auto simp: m'(1))
  then have "watch_ok m'" unfolding watch_ok_def using w s watch_okD(1) [OF ok] by blast
  with w wt Some show ?thesis by auto
qed

lemma watch_stopped:
  assumes ok: "watch_ok m"
  shows "watch_ok (stop_stream t m) \<and> (\<forall>d k. client_watches (stop_stream t m) d k \<longleftrightarrow> client_watches m d k \<and> k \<noteq> t)"
proof (cases "mget (streamerSessions m) t")
  case None
  then have "\<not> client_watches m d t" for d using watch_okD(1) [OF ok] by (simp add: stream_feeds_def)
  then show ?thesis using ok None by (auto simp: stop_stream_def)
next
  case (Some cs)
  have get: "mget (map (\<lambda>(c, ks). (c, removeAll t ks)) cm) d = map_option (removeAll t) (mget cm d)" for cm :: "(string, watch_key list) gomap" and d
    by (induction cm) auto
  have w: "client_watches (stop_stream t m) d k \<longleftrightarrow> client_watches m d k \<and> k \<noteq> t" for d k
    using Some by (auto simp: client_watches_def stop_stream_def get split: option.splits)
  have s: "stream_feeds (stop_stream t m) k d \<longleftrightarrow> stream_feeds m k d \<and> k \<noteq> t" for d k
    using Some by (auto simp: stream_feeds_def stop_stream_def split: option.splits)
  have "mget (streamerSessions (stop_stream t m)) k \<noteq> Some []" for k
    using watch_okD(2) [OF ok, of k] Some by (auto simp: stop_stream_def)
  then show ?thesis unfolding watch_ok_def using w s watch_okD(1) [OF ok] by blast
qed

lemma git_keeps_watches [simp]:
  "streamerSessions (StopGitWatcher w m) = streamerSessions m"
  "streamerClientSessions (StopGitWatcher w m) = streamerClientSessions m"
  by (simp_all add: StopGitWatcher_def set_count_def Let_def)

lemma fold_git_keeps [simp]:
  "streamerSessions (fold StopGitWatcher ws m) = streamerSessions m"
  "streamerClientSessions (fold StopGitWatcher ws m) = streamerClientSessions m"
  by (induction ws arbitrary: m) simp_all

lemma drop_watch_feeds:
  "stream_feeds (drop_watch c t m) k d \<longleftrightarrow> stream_feeds m k d \<and> \<not> (d = c \<and> k = t)"
  "streamerClientSessions (drop_watch c t m) = streamerClientSessions m"
  "(\<forall>k. mget (streamerSessions m) k \<noteq> Some []) \<Longrightarrow> \<forall>k. mget (streamerSessions (drop_watch c t m)) k \<noteq> Some []"
proof -
  show "stream_feeds (drop_watch c t m) k d \<longleftrightarrow> stream_feeds m k d \<and> \<not> (d = c \<and> k = t)"
    by (cases "k = t") (auto simp: stream_feeds_def drop_watch_def Let_def split: option.splits dest: removeAll_only)
qed (auto simp: drop_watch_def Let_def split: option.splits)

lemma fold_drop_watch:
  assumes "\<forall>k. mget (streamerSessions m) k \<noteq> Some []"
  shows "(stream_feeds (fold (drop_watch c) ts m) k d \<longleftrightarrow> stream_feeds m k d \<and> \<not> (d = c \<and> k \<in> set ts)) \<and>
    streamerClientSessions (fold (drop_watch c) ts m) = streamerClientSessions m \<and>
    (\<forall>k. mget (streamerSessions (fold (drop_watch c) ts m)) k \<noteq> Some [])"
  using assms
proof (induction ts arbitrary: m)
  case (Cons t ts)
  from Cons.IH [OF drop_watch_feeds(3) [OF Cons.prems, of c t]] show ?case by (auto simp: drop_watch_feeds(1,2))
qed simp

lemma watch_disconnected:
  assumes ok: "watch_ok m" and m'_def: "m' = OnClientDisconnect c subscribed m"
  shows "watch_ok m' \<and> (\<forall>d k. client_watches m' d k \<longleftrightarrow> client_watches m d k \<and> d \<noteq> c)"
proof -
  let ?m = "fold StopGitWatcher subscribed m"
  have ok1: "watch_ok ?m" using ok watch_ok_same [of ?m m] by simp
  have same: "client_watches ?m d k = client_watches m d k" for d k by (simp add: client_watches_def)
  consider (none) "mget (streamerClientSessions m) c = None \<or> mget (streamerClientSessions m) c = Some []"
    | (some) ks where "mget (streamerClientSessions m) c = Some ks" "ks \<noteq> []"
    by (cases "mget (streamerClientSessions m) c") auto
  then show ?thesis
  proof cases
    case none
    then have "m' = ?m" unfolding m'_def OnClientDisconnect_def by (auto simp: Let_def split: option.split)
    moreover have "\<not> client_watches m c k" for k using none by (auto simp: client_watches_def)
    ultimately show ?thesis using ok1 same by auto
  next
    case some
    let ?m2 = "fold (drop_watch c) ks ?m"
    have m': "m' = ?m2\<lparr>streamerClientSessions := mdel c (streamerClientSessions ?m2)\<rparr>"
      using some unfolding m'_def OnClientDisconnect_def by (simp add: Let_def)
    have ne: "\<forall>k. mget (streamerSessions ?m) k \<noteq> Some []" using ok1 by (simp add: watch_ok_def)
    note fd = fold_drop_watch [OF ne, of c ks]
    have feeds: "stream_feeds m' k d \<longleftrightarrow> stream_feeds m k d \<and> \<not> (d = c \<and> k \<in> set ks)" for k d
      using fd [of k d] by (simp add: m' stream_feeds_def)
    have w: "client_watches m' d k \<longleftrightarrow> client_watches m d k \<and> d \<noteq> c" for d k
      using fd by (auto simp: m' client_watches_def)
    have fk: "stream_feeds m k c \<longleftrightarrow> k \<in> set ks" for k using watch_okD(1) [OF ok, of c k] some by (simp add: client_watches_def)
    have "client_watches m' d k \<longleftrightarrow> stream_feeds m' k d" for d k
      using w [of d k] feeds [of k d] watch_okD(1) [OF ok, of d k] fk [of k] by blast
    moreover have "mget (streamerSessions m') k \<noteq> Some []" for k
      using fd [THEN conjunct2, THEN conjunct2, THEN spec, of k] by (simp add: m')
    ultimately show ?thesis using w unfolding watch_ok_def by blast
  qed
qed


section \<open>Watching as a relation\<close>

datatype watch_op =
    Watches session_env string string string
  | Unwatches string string
  | Disconnects string "string list"
  | Stream_stops watch_key
  | All_stop

fun watch_run1 :: "watch_op \<Rightarrow> session_manager \<Rightarrow> session_manager" where
  "watch_run1 (Watches e c wid sid) m = snd (WatchWorkspaceSession e c wid sid m)"
| "watch_run1 (Unwatches c sid) m = snd (UnwatchWorkspaceSession c sid m)"
| "watch_run1 (Disconnects c subscribed) m = OnClientDisconnect c subscribed m"
| "watch_run1 (Stream_stops k) m = stop_stream k m"
| "watch_run1 All_stop m = stop_streams m"

text \<open>The abstract step: who watches what is a set of pairs.\<close>

fun watch_spec :: "watch_op \<Rightarrow> session_manager \<Rightarrow> (string \<times> watch_key) set \<Rightarrow> (string \<times> watch_key) set" where
  "watch_spec (Watches e c wid sid) m W =
     (case fst (WatchWorkspaceSession e c wid sid m) of Inl _ \<Rightarrow> W | Inr _ \<Rightarrow> insert (c, (wid, resolveSessionID sid m)) W)"
| "watch_spec (Unwatches c sid) m W = (case unwatched c sid m of None \<Rightarrow> W | Some k \<Rightarrow> W - {(c, k)})"
| "watch_spec (Disconnects c subscribed) m W = {(d, k) \<in> W. d \<noteq> c}"
| "watch_spec (Stream_stops t) m W = {(d, k) \<in> W. k \<noteq> t}"
| "watch_spec All_stop m W = {}"

definition watching :: "session_manager \<Rightarrow> (string \<times> watch_key) set" where
  "watching m = {(c, k). client_watches m c k}"

lemma watch_step_refines:
  assumes ok: "watch_ok m"
  shows "watch_ok (watch_run1 a m) \<and> watching (watch_run1 a m) = watch_spec a m (watching m)"
proof (cases a)
  case (Watches e c wid sid)
  obtain r m' where w: "WatchWorkspaceSession e c wid sid m = (r, m')" by fastforce
  show ?thesis
  proof (cases r)
    case (Inl err)
    from watch_refused [OF w [unfolded Inl]]
    have same: "streamerSessions m' = streamerSessions m" "streamerClientSessions m' = streamerClientSessions m" by simp_all
    have "watch_ok m' = watch_ok m" by (rule watch_ok_same [OF same])
    moreover have "client_watches m' = client_watches m" unfolding client_watches_def fun_eq_iff same(2) by simp
    ultimately show ?thesis using ok Watches w Inl by (simp add: watching_def)
  next
    case (Inr info)
    from watch_added [OF w [unfolded Inr] ok] show ?thesis using Watches w Inr by (auto simp: watching_def)
  qed
next
  case (Unwatches c sid)
  from watch_removed [OF ok refl, of c sid] show ?thesis
    using Unwatches by (auto simp: watching_def split: option.split)
next
  case (Disconnects c subscribed)
  from watch_disconnected [OF ok refl, of c subscribed] show ?thesis using Disconnects by (auto simp: watching_def)
next
  case (Stream_stops t)
  from watch_stopped [OF ok, of t] show ?thesis using Stream_stops by (auto simp: watching_def)
next
  case All_stop
  then show ?thesis by (simp add: watching_def stop_streams_def watch_ok_def client_watches_def stream_feeds_def)
qed

text \<open>
  The managers these operations lead to, with the other operations in between, which leave the two tables alone.
\<close>

inductive watch_reach :: "session_manager \<Rightarrow> bool" where
  nobody: "streamerSessions m = [] \<Longrightarrow> streamerClientSessions m = [] \<Longrightarrow> watch_reach m"
| operation: "watch_reach m \<Longrightarrow> watch_reach (watch_run1 a m)"
| others: "watch_reach m \<Longrightarrow> streamerSessions m' = streamerSessions m \<Longrightarrow>
    streamerClientSessions m' = streamerClientSessions m \<Longrightarrow> watch_reach m'"

lemma watch_reach_ok: "watch_reach m \<Longrightarrow> watch_ok m"
proof (induction rule: watch_reach.induct)
  case (nobody m)
  then show ?case by (simp add: watch_ok_def client_watches_def stream_feeds_def)
next
  case (operation m a)
  then show ?case by (simp add: watch_step_refines)
next
  case (others m m')
  then show ?case using watch_ok_same [OF others(2,3)] by simp
qed

text \<open>
  C28: whatever else happens in between, who watches what behaves as a set of pairs: watching adds a pair, unwatching
  removes the one it names, a disconnect removes those of the client and stopping a stream those of the session; the
  table by clients and the table by sessions always tell the same pairs, and a stream runs exactly as long as somebody
  watches.
\<close>

theorem watches_as_relation:
  assumes "watch_reach m"
  shows "watching (watch_run1 a m) = watch_spec a m (watching m) \<and>
    (stream_feeds m k c \<longleftrightarrow> (c, k) \<in> watching m) \<and>
    (mget (streamerSessions m) k \<noteq> None \<longleftrightarrow> (\<exists>c. (c, k) \<in> watching m))"
proof -
  have ok: "watch_ok m" using watch_reach_ok assms .
  have "mget (streamerSessions m) k \<noteq> None \<longleftrightarrow> (\<exists>c. stream_feeds m k c)"
    using watch_okD(2) [OF ok, of k] by (force simp: stream_feeds_def neq_Nil_conv split: option.split)
  then show ?thesis using watch_step_refines [OF ok, of a] watch_okD(1) [OF ok] by (simp add: watching_def)
qed

definition demo_session_env :: session_env where
  "demo_session_env =
     \<lparr>sm_clock = (\<lambda>n. int n), home_dir = Some ''/h'', stat_file = (\<lambda>_. Some True), real_path = (\<lambda>p. p),
      worktree_list = (\<lambda>_. None), is_git_repo = (\<lambda>p. p = ''/g''), historical = None, order_sessions = [], order_active = [],
      order_workspaces = [''w''], order_streams = [], streamer_ok = (\<lambda>_ _. True)\<rparr>"

definition demo_manager :: session_manager where
  "demo_manager = NewManager\<lparr>workspaces := [(''w'', ''/r'')]\<rparr>"

theorem watches_as_relation_witness:
  "watching (watch_run1 (Watches demo_session_env ''phone'' ''w'' ''s'') demo_manager) = {(''phone'', (''w'', ''s''))}"
proof -
  have "watch_reach demo_manager" by (rule nobody) (simp_all add: demo_manager_def NewManager_def)
  from watches_as_relation [OF this, of "Watches demo_session_env ''phone'' ''w'' ''s''"]
  have "watching (watch_run1 (Watches demo_session_env ''phone'' ''w'' ''s'') demo_manager) =
      watch_spec (Watches demo_session_env ''phone'' ''w'' ''s'') demo_manager (watching demo_manager)" by blast
  moreover have "fst (WatchWorkspaceSession demo_session_env ''phone'' ''w'' ''s'' demo_manager) =
      Inr \<lparr>wi_Workspace = ''w'', wi_Session = ''s'', Watching = True\<rparr>" by code_simp
  moreover have "resolveSessionID ''s'' demo_manager = ''s''" by code_simp
  moreover have "watching demo_manager = {}"
    by (simp add: watching_def client_watches_def demo_manager_def NewManager_def)
  ultimately show ?thesis by simp
qed

section \<open>Counting the subscribers of git\<close>

definition git_ok :: "session_manager \<Rightarrow> bool" where
  "git_ok m \<longleftrightarrow> (\<forall>w. 0 \<le> count_of w m \<and> (w \<in> set (gitWatchers m) \<longleftrightarrow> 0 < count_of w m))"

lemma count_set [simp]: "count_of w (set_count v n m) = (if w = v then n else count_of w m)"
  "gitWatchers (set_count v n m) = gitWatchers m" "workspaces (set_count v n m) = workspaces m"
  by (simp_all add: count_of_def set_count_def)

lemma git_ok_Start: "git_ok m \<Longrightarrow> git_ok (snd (StartGitWatcher on e w m))"
proof -
  assume ok: "git_ok m"
  have n: "0 \<le> count_of v m" "v \<in> set (gitWatchers m) \<longleftrightarrow> 0 < count_of v m" for v using ok by (simp_all add: git_ok_def)
  have "count_of v (x\<lparr>gitWatchers := ws\<rparr>) = count_of v x" for v x ws by (simp add: count_of_def)
  then show ?thesis
    using n n [of w] by (auto simp: StartGitWatcher_def Let_def git_ok_def split: sum.split)
qed

lemma git_ok_Stop: "git_ok m \<Longrightarrow> git_ok (StopGitWatcher w m)"
proof -
  assume ok: "git_ok m"
  have n: "0 \<le> count_of v m" "v \<in> set (gitWatchers m) \<longleftrightarrow> 0 < count_of v m" for v using ok by (simp_all add: git_ok_def)
  have c: "count_of v (x\<lparr>gitWatchers := ws, gitWatcherCounts := mdel w (gitWatcherCounts x)\<rparr>) = (if v = w then 0 else count_of v x)" for v x ws
    by (simp add: count_of_def)
  show ?thesis
    using n n [of w] by (auto simp: StopGitWatcher_def Let_def git_ok_def c)
qed


text \<open>
  A client that subscribed while the workspace was no git repository was not counted, but its leaving is: the watcher
  stops although the client that came later is still subscribed.
\<close>

lemma uncounted_subscriber_stops_watcher:
  assumes "git_ok m" "mget (workspaces m) w = Some p" "is_git_repo e p" "count_of w m = 0"
  shows "w \<in> set (gitWatchers (snd (StartGitWatcher True e w m)))"
    "w \<notin> set (gitWatchers (StopGitWatcher w (snd (StartGitWatcher True e w m))))"
    "\<not> is_git_repo e' p \<Longrightarrow> gitWatchers (snd (StartGitWatcher True e' w m)) = gitWatchers m \<and>
       count_of w (snd (StartGitWatcher True e' w m)) = 0"
proof -
  have n: "w \<notin> set (gitWatchers m)" using assms(1,4) by (simp add: git_ok_def)
  have c: "count_of w (x\<lparr>gitWatchers := ws\<rparr>) = count_of w x" for x ws by (simp add: count_of_def)
  have s: "snd (StartGitWatcher True e w m) = (set_count w 1 m)\<lparr>gitWatchers := w # gitWatchers m\<rparr>"
    using n assms(2,3,4) by (simp add: StartGitWatcher_def Let_def GetWorkspace_def)
  show "w \<in> set (gitWatchers (snd (StartGitWatcher True e w m)))" by (simp add: s)
  show "w \<notin> set (gitWatchers (StopGitWatcher w (snd (StartGitWatcher True e w m))))"
    by (simp add: s StopGitWatcher_def Let_def c)
  show "gitWatchers (snd (StartGitWatcher True e' w m)) = gitWatchers m \<and> count_of w (snd (StartGitWatcher True e' w m)) = 0"
    if "\<not> is_git_repo e' p"
    using that n assms(2,4) by (simp add: StartGitWatcher_def Let_def GetWorkspace_def)
qed

end
