(* ===== verification/Session_Lifecycle.thy ===== *)
theory Session_Lifecycle
  imports Session_Watch
begin

text \<open>
  \<open>internal/session/manager.go\<close>: starting, finding, stopping and idling of sessions, the wait for the file of a
  new session, and what is sent to a session. The processes of Claude, the terminals of live sessions, the session cache and
  the parser of UUIDs (a package outside the repository) are arguments, \<open>life_env\<close>.
\<close>

record life_env =
  outside :: session_env
  new_id :: string
  recent :: "string \<Rightarrow> string"
  watcher_enabled :: bool
  uuid_ok :: "string \<Rightarrow> bool"
  claude_pty :: "nat \<Rightarrow> bool"
  claude_running :: "nat \<Rightarrow> bool"
  claude_pending :: "nat \<Rightarrow> string"
  claude_error :: "claude_call \<Rightarrow> string option"
  live_app :: "string \<Rightarrow> string \<Rightarrow> string option"
  live_count :: "string \<Rightarrow> nat option"
  inject_error :: "string option"

abbreviation now_at :: "life_env \<Rightarrow> nat \<Rightarrow> time" where
  "now_at e n \<equiv> sm_clock (outside e) n"

section \<open>Workspaces\<close>

definition RegisterWorkspace :: "string \<Rightarrow> string \<Rightarrow> session_manager \<Rightarrow> session_manager" where
  "RegisterWorkspace wid path m = m\<lparr>workspaces := mput wid path (workspaces m)\<rparr>"

definition UnregisterWorkspace :: "string \<Rightarrow> session_manager \<Rightarrow> string option \<times> session_manager" where
  "UnregisterWorkspace wid m =
     (if \<exists>(k, s) \<in> set (sessions m). sess_Workspace s = wid \<and> Status s = StatusRunning
      then (Some ''cannot unregister workspace with active session'', m)
      else (None, m\<lparr>workspaces := mdel wid (workspaces m)\<rparr>))"

definition ListWorkspaces :: "session_env \<Rightarrow> session_manager \<Rightarrow> (string \<times> string) list" where
  "ListWorkspaces e m = range_entries (order_workspaces e) (workspaces m)"

section \<open>Starting sessions\<close>

text \<open>The steps the three ways of starting share: a fresh Claude manager, the entry in the maps, the active session.\<close>

definition open_session :: "life_env \<Rightarrow> string \<Rightarrow> string \<Rightarrow> string \<Rightarrow> session_manager \<Rightarrow> session \<times> session_manager" where
  "open_session e wid dir sid m =
     (let s = SetStatus (now_at e 2) StatusRunning
            ((SetStatus (now_at e 1) StatusStarting ((NewSession (now_at e 0) sid wid)\<lparr>ProjectPath := dir\<rparr>))
              \<lparr>claudeManager := Some (next_claude m), fileWatcher := watcher_enabled e\<rparr>)
      in (s, m\<lparr>sessions := mput sid s (sessions m), sessionProjectPaths := mput sid dir (sessionProjectPaths m),
              activeSessions := mput wid sid (activeSessions m), next_claude := Suc (next_claude m)\<rparr>))"

definition StartSession :: "life_env \<Rightarrow> string \<Rightarrow> session_manager \<Rightarrow> (string + session) \<times> session_manager" where
  "StartSession e wid m =
     (case mget (workspaces m) wid of
        None \<Rightarrow> (Inl (''workspace not found: '' @ wid), m)
      | Some path \<Rightarrow>
          (let sid = (if recent e path = [] then new_id e else recent e path);
               (s, m') = open_session e wid path sid m
           in (Inr s, m')))"

definition StartNewSessionInDir :: "life_env \<Rightarrow> string \<Rightarrow> string \<Rightarrow> session_manager \<Rightarrow> (string + session) \<times> session_manager" where
  "StartNewSessionInDir e wid workDir m =
     (case mget (workspaces m) wid of
        None \<Rightarrow> (Inl (''workspace not found: '' @ wid), m)
      | Some path \<Rightarrow>
          (let (s, m') = open_session e wid (if workDir \<noteq> [] then workDir else path) (new_id e) m in (Inr s, m')))"

definition StartNewSession :: "life_env \<Rightarrow> string \<Rightarrow> session_manager \<Rightarrow> (string + session) \<times> session_manager" where
  "StartNewSession e wid m = StartNewSessionInDir e wid [] m"

definition startSessionWithID :: "life_env \<Rightarrow> string \<Rightarrow> string \<Rightarrow> session_manager \<Rightarrow> (string + session) \<times> session_manager" where
  "startSessionWithID e wid sid m0 =
     (case GetWorkspace wid m0 of
        Inl _ \<Rightarrow> (Inl (''workspace not found: '' @ wid), m0)
      | Inr path \<Rightarrow>
          (let (r, m) = resolveSessionProjectPath (outside e) wid sid m0;
               dir = (case r of Inl _ \<Rightarrow> path | Inr p \<Rightarrow> if trim_space p \<noteq> [] then p else path)
           in case mget (sessions m) sid of
                Some existing \<Rightarrow>
                  if sess_Workspace existing \<noteq> wid
                  then (Inr (existing\<lparr>sess_Workspace := wid\<rparr>),
                        m\<lparr>sessions := mput sid (existing\<lparr>sess_Workspace := wid\<rparr>) (sessions m),
                          activeSessionWorkspaces := mput sid wid (mdel sid (activeSessionWorkspaces m)),
                          activeSessions := mput wid sid (activeSessions m)\<rparr>)
                  else (Inr existing, m)
              | None \<Rightarrow>
                  (let (s, m') = open_session e wid dir sid m
                   in (Inr s, m'\<lparr>activeSessionWorkspaces := mput sid wid (activeSessionWorkspaces m')\<rparr>))))"

section \<open>Finding sessions\<close>

definition GetSessionForWorkspace :: "session_env \<Rightarrow> string \<Rightarrow> session_manager \<Rightarrow> session option" where
  "GetSessionForWorkspace e wid m =
     find (\<lambda>s. sess_Workspace s = wid \<and> Status s = StatusRunning) (map snd (range_entries (order_sessions e) (sessions m)))"

definition GetSessionsForWorkspace :: "session_env \<Rightarrow> string \<Rightarrow> session_manager \<Rightarrow> session list" where
  "GetSessionsForWorkspace e wid m =
     filter (\<lambda>s. sess_Workspace s = wid) (map snd (range_entries (order_sessions e) (sessions m)))"

definition ActivateSession :: "string \<Rightarrow> string \<Rightarrow> session_manager \<Rightarrow> string option \<times> session_manager" where
  "ActivateSession wid sid m =
     (if mget (workspaces m) wid = None then (Some (''workspace not found: '' @ wid), m)
      else (None, m\<lparr>activeSessions := mput wid sid (activeSessions m),
              activeSessionWorkspaces := mput sid wid (activeSessionWorkspaces m)\<rparr>))"

definition GetActiveSession :: "string \<Rightarrow> session_manager \<Rightarrow> string" where
  "GetActiveSession wid m = mread wid (activeSessions m)"

definition CountActiveSessionsForWorkspace :: "string \<Rightarrow> session_manager \<Rightarrow> nat" where
  "CountActiveSessionsForWorkspace wid m =
     length (filter (\<lambda>(k, s). sess_Workspace s = wid \<and> Status s = StatusRunning) (sessions m))"

definition ListSessions :: "session_env \<Rightarrow> string \<Rightarrow> session_manager \<Rightarrow> session list" where
  "ListSessions e wid m =
     filter (\<lambda>s. wid = [] \<or> sess_Workspace s = wid) (map snd (range_entries (order_sessions e) (sessions m)))"

definition findWorkspaceForSession :: "life_env \<Rightarrow> string \<Rightarrow> session_manager \<Rightarrow> string" where
  "findWorkspaceForSession e sid m =
     (let ws = range_entries (order_workspaces (outside e)) (workspaces m)
      in case find (\<lambda>(wid, path). sessionFileExistsForWorkspace (outside e) wid path sid m) ws of
           Some (wid, _) \<Rightarrow> wid
         | None \<Rightarrow>
             (case filter (\<lambda>(wid, path). case live_count e path of None \<Rightarrow> False | Some n \<Rightarrow> 0 < n) ws of
                [(wid, _)] \<Rightarrow> wid
              | _ \<Rightarrow> []))"

section \<open>Stopping sessions\<close>

definition CancelSessionFileWatcher :: "string \<Rightarrow> session_manager \<Rightarrow> session_manager" where
  "CancelSessionFileWatcher sid m = m\<lparr>sessionFileWatchers := mdel sid (sessionFileWatchers m)\<rparr>"

definition session_stopped :: "time \<Rightarrow> string \<Rightarrow> string \<Rightarrow> session_manager \<Rightarrow> session_manager" where
  "session_stopped now wid sid m = PublishEvent (SetAgentType agentTypeClaude (NewSessionStoppedEvent now wid sid)) m"

definition clear_active :: "string \<Rightarrow> string \<Rightarrow> session_manager \<Rightarrow> session_manager" where
  "clear_active wid sid m =
     m\<lparr>activeSessions := (if mread wid (activeSessions m) = sid then mdel wid (activeSessions m) else activeSessions m),
       activeSessionWorkspaces := mdel sid (activeSessionWorkspaces m)\<rparr>"

definition stopSessionInternal :: "life_env \<Rightarrow> string \<Rightarrow> session_manager \<Rightarrow> session_manager" where
  "stopSessionInternal e k m =
     (case mget (sessions m) k of
        None \<Rightarrow> m
      | Some s \<Rightarrow>
          if Status s \<noteq> StatusRunning \<and> Status s \<noteq> StatusStarting then m
          else (let m1 = CancelSessionFileWatcher (sess_ID s) m;
                    m2 = (case claudeManager s of None \<Rightarrow> m1 | Some c \<Rightarrow> ask (Claude c CmStop) m1);
                    s' = SetStatus (now_at e 2) StatusStopped ((SetStatus (now_at e 1) StatusStopping s)\<lparr>fileWatcher := False\<rparr>)
                in session_stopped (now_at e 3) (sess_Workspace s) (sess_ID s)
                     (clear_active (sess_Workspace s) (sess_ID s) (m2\<lparr>sessions := mput k s' (sessions m2)\<rparr>))))"

definition stopWatchingLiveSession :: "life_env \<Rightarrow> string \<Rightarrow> string \<Rightarrow> session_manager \<Rightarrow> session_manager" where
  "stopWatchingLiveSession e wid sid m =
     session_stopped (now_at e 3) wid sid (clear_active wid sid (stop_stream (wid, sid) m))"

definition StopSession :: "life_env \<Rightarrow> string \<Rightarrow> session_manager \<Rightarrow> string option \<times> session_manager" where
  "StopSession e sid0 m =
     (let sid = resolveSessionID sid0 m
      in if mget (sessions m) sid \<noteq> None then (None, stopSessionInternal e sid m)
         else (let wid = (case find (\<lambda>(w, s). s = sid) (range_entries (order_workspaces (outside e)) (activeSessions m)) of
                        Some (w, _) \<Rightarrow> w
                      | None \<Rightarrow> (case find (\<lambda>(k, _). snd k = sid) (range_entries (order_streams (outside e)) (streamerSessions m)) of
                                   Some (k, _) \<Rightarrow> fst k | None \<Rightarrow> []))
               in if wid = [] then (Some (''session not found: '' @ sid0), m)
                  else (None, stopWatchingLiveSession e wid sid m)))"

definition checkIdleSessions :: "life_env \<Rightarrow> session_manager \<Rightarrow> session_manager" where
  "checkIdleSessions e m =
     fold (\<lambda>k m. case mget (sessions m) k of
              None \<Rightarrow> m
            | Some s \<Rightarrow>
                if Status s = StatusRunning \<and> now_at e 0 - LastActive s > idleTimeout m then stopSessionInternal e k m else m)
       (order_sessions (outside e)) m"

text \<open>\<open>locked\<close>: the lock of the manager is got within five seconds.\<close>

definition manager_Stop :: "bool \<Rightarrow> life_env \<Rightarrow> session_manager \<Rightarrow> string option \<times> session_manager" where
  "manager_Stop locked e m =
     (let m1 = (stop_streams m)\<lparr>sessionFileWatchers := []\<rparr>
      in if \<not> locked then (Some ''timeout waiting for lock'', m1)
         else (None, fold (stopSessionInternal e) (order_sessions (outside e)) m1))"


section \<open>Waiting for the file of a new session\<close>

text \<open>
  The registration comes first, so that there is one watcher for a temporary identifier; \<open>created\<close> is whether
  fsnotify gives a watcher.
\<close>

definition WatchForNewSessionFile :: "life_env \<Rightarrow> bool \<Rightarrow> string \<Rightarrow> string \<Rightarrow> string \<Rightarrow> session_manager \<Rightarrow> session_manager" where
  "WatchForNewSessionFile e created wid temporaryID repoPath m =
     (if mget (sessionFileWatchers m) temporaryID \<noteq> None \<or> \<not> created then m
      else m\<lparr>sessionFileWatchers :=
          mput temporaryID (wid, NormalizePath (outside e) repoPath) (sessionFileWatchers m)\<rparr>)"

definition FailSessionIDResolution :: "time \<Rightarrow> string \<Rightarrow> string \<Rightarrow> string \<Rightarrow> string \<Rightarrow> session_manager \<Rightarrow> session_manager" where
  "FailSessionIDResolution now wid temporaryID reason message m =
     (if mget (sessionFileWatchers m) temporaryID = None then m
      else PublishEvent (SetAgentType agentTypeClaude (NewSessionIDFailedEvent now temporaryID wid reason message))
        (CancelSessionFileWatcher temporaryID m))"

definition HasActiveSessionFileWatcher :: "string \<Rightarrow> string \<Rightarrow> session_manager \<Rightarrow> bool" where
  "HasActiveSessionFileWatcher wid temporaryID m =
     (case mget (sessionFileWatchers m) temporaryID of None \<Rightarrow> False | Some (w, _) \<Rightarrow> w = wid)"

text \<open>The session a file is of, if it can be that of a new session.\<close>

definition file_session :: "life_env \<Rightarrow> string \<Rightarrow> string \<Rightarrow> string option" where
  "file_session e temporaryID filename =
     (if \<not> has_suffix ''.jsonl'' filename \<or> has_prefix ''agent-'' filename then None
      else (let sid = trim_suffix ''.jsonl'' filename
            in if sid = temporaryID \<or> \<not> uuid_ok e sid then None else Some sid))"

text \<open>The directory is read in the order of the names; entries that are directories are marked.\<close>

definition scanForExistingSessionFile :: "life_env \<Rightarrow> (string \<times> bool) list option \<Rightarrow> string \<Rightarrow> string" where
  "scanForExistingSessionFile e entries temporaryID =
     (case entries of
        None \<Rightarrow> []
      | Some es \<Rightarrow>
          (case List.map_filter (\<lambda>(nm, dir). if dir then None else file_session e temporaryID nm) es of
             [] \<Rightarrow> [] | sid # _ \<Rightarrow> sid))"

definition ensureInternalPTYSessionWatch :: "life_env \<Rightarrow> string \<Rightarrow> string \<Rightarrow> session_manager \<Rightarrow> session_manager" where
  "ensureInternalPTYSessionWatch e wid sid m =
     (if wid = [] \<or> sid = [] then m else snd (WatchWorkspaceSession (outside e) ''internal:pty-session'' wid sid m))"

text \<open>The real identifier is known: the maps are updated, the file is followed, and the wait is over.\<close>

definition session_id_found :: "life_env \<Rightarrow> string \<Rightarrow> string \<Rightarrow> string \<Rightarrow> string \<Rightarrow> session_manager \<Rightarrow> session_manager" where
  "session_id_found e wid temporaryID realID path m =
     CancelSessionFileWatcher temporaryID
       (PublishEvent (SetAgentType agentTypeClaude (NewSessionIDResolvedEvent (now_at e 0) temporaryID realID wid path))
         (ensureInternalPTYSessionWatch e wid realID (updateSessionID wid temporaryID realID m)))"

text \<open>A file is created in the directory of the sessions, and the directory itself is.\<close>

definition session_file_created :: "life_env \<Rightarrow> string \<Rightarrow> string \<Rightarrow> session_manager \<Rightarrow> session_manager" where
  "session_file_created e temporaryID path m =
     (case mget (sessionFileWatchers m) temporaryID of
        None \<Rightarrow> m
      | Some (wid, _) \<Rightarrow>
          if \<not> has_suffix ''.jsonl'' path then m
          else case file_session e temporaryID (path_base path) of
            None \<Rightarrow> m
          | Some realID \<Rightarrow> session_id_found e wid temporaryID realID path m)"

definition sessions_dir_created :: "life_env \<Rightarrow> string \<Rightarrow> (string \<times> bool) list option \<Rightarrow> session_manager \<Rightarrow> session_manager" where
  "sessions_dir_created e temporaryID entries m =
     (case mget (sessionFileWatchers m) temporaryID of
        None \<Rightarrow> m
      | Some (wid, repoPath) \<Rightarrow>
          (let sid = scanForExistingSessionFile e entries temporaryID
           in if sid = [] then m
              else session_id_found e wid temporaryID sid (session_file (outside e) repoPath sid) m))"

section \<open>Sending to a session\<close>

definition ask_claude :: "life_env \<Rightarrow> nat \<Rightarrow> claude_call \<Rightarrow> session_manager \<Rightarrow> string option \<times> session_manager" where
  "ask_claude e c q m = (claude_error e q, ask (Claude c q) m)"

definition no_claude :: "string \<Rightarrow> string" where "no_claude sid = ''no Claude manager for session: '' @ sid"
definition not_running :: "string \<Rightarrow> string" where "not_running sid = ''session not running: '' @ sid"

text \<open>The workspace of a session that is not managed.\<close>

definition workspace_of :: "life_env \<Rightarrow> string \<Rightarrow> session_manager \<Rightarrow> string" where
  "workspace_of e sid m =
     (let wid = mread sid (activeSessionWorkspaces m) in if wid = [] then findWorkspaceForSession e sid m else wid)"

text \<open>The session runs in somebody's terminal: it is made the active one, and the text is typed there.\<close>

definition live_session :: "life_env \<Rightarrow> string \<Rightarrow> string \<Rightarrow> session_manager \<Rightarrow> string option" where
  "live_session e wid sid m =
     (case mget (workspaces m) wid of
        Some path \<Rightarrow> if liveInjector m \<and> wid \<noteq> [] then live_app e path sid else None
      | None \<Rightarrow> None)"

definition type_live :: "life_env \<Rightarrow> string \<Rightarrow> string \<Rightarrow> string \<Rightarrow> string \<Rightarrow> string \<Rightarrow> session_manager \<Rightarrow> string option \<times> session_manager" where
  "type_live e wid sid kind txt app m =
     (map_option (\<lambda>err. ''failed to inject '' @ kind @ '' to LIVE session: '' @ err) (inject_error e),
      ask (Inject kind txt app)
        (m\<lparr>activeSessionWorkspaces := mput sid wid (activeSessionWorkspaces m),
           activeSessions := mput wid sid (activeSessions m)\<rparr>))"

text \<open>A command after an exclamation mark is run in the workspace.\<close>

definition run_bash :: "life_env \<Rightarrow> string \<Rightarrow> string \<Rightarrow> string \<Rightarrow> session_manager \<Rightarrow> string option \<times> session_manager" where
  "run_bash e wid sid prompt m =
     (let cmd = trim_space (trim_prefix ''!'' prompt)
      in if cmd = [] then (Some (''empty bash command after '' @ [CHR 0x27] @ ''!'' @ [CHR 0x27]), m)
         else case GetWorkspace wid m of
           Inl err \<Rightarrow> (Some (''failed to get workspace for bash command: '' @ err), m)
         | Inr path \<Rightarrow>
             (None, PublishEvent (SetAgentType agentTypeClaude (SetContext wid sid
                 (NewPTYStateEventWithSession (now_at e 0) ''idle'' False [] sid))) (ask (Bash path cmd) m)))"

definition prompt_interactive :: "life_env \<Rightarrow> string \<Rightarrow> session \<Rightarrow> string \<Rightarrow> string \<Rightarrow> string \<Rightarrow> bool \<Rightarrow> session_manager \<Rightarrow> string option \<times> session_manager" where
  "prompt_interactive e k s sid prompt mode yolo m =
     (if has_prefix ''!'' prompt then run_bash e (sess_Workspace s) sid prompt m
      else (let m1 = (if Status s \<noteq> StatusRunning then update_session k (SetStatus (now_at e 0) StatusRunning) m else m)
            in case claudeManager s of
                 None \<Rightarrow> (Some (no_claude sid), m1)
               | Some c \<Rightarrow>
                   (let m2 = update_session k (UpdateLastActive (now_at e 1)) m1
                    in if claude_pty e c \<and> claude_running e c
                       then (case ask_claude e c (CmPTYInput prompt) m2 of
                               (Some err, m3) \<Rightarrow> (Some (''failed to send prompt to PTY: '' @ err), m3)
                             | (None, m3) \<Rightarrow>
                                 (case ask_claude e c (CmPTYInput [CHR 0x0D]) m3 of
                                    (Some err, m4) \<Rightarrow> (Some (''failed to send Enter to PTY: '' @ err), m4)
                                  | (None, m4) \<Rightarrow> (None, m4)))
                       else (let claudeSessionID = (if mode = ''continue'' then sid else []);
                                 watchID = (if claudeSessionID \<noteq> [] then claudeSessionID else sess_ID s)
                             in case ask_claude e c (CmStartPTY prompt (mode = ''continue'') claudeSessionID yolo) m2 of
                                  (Some err, m3) \<Rightarrow> (Some err, m3)
                                | (None, m3) \<Rightarrow>
                                    (None, snd (WatchWorkspaceSession (outside e) ''internal:pty-session'' (sess_Workspace s) watchID m3))))))"

definition prompt_plain :: "life_env \<Rightarrow> string \<Rightarrow> session \<Rightarrow> string \<Rightarrow> string \<Rightarrow> string \<Rightarrow> string \<Rightarrow> bool \<Rightarrow> session_manager \<Rightarrow> string option \<times> session_manager" where
  "prompt_plain e k s sid prompt mode permissionMode yolo m =
     (if Status s \<noteq> StatusRunning
      then (Some (not_running sid @ '' (use session/start with resume_session_id to resume historical sessions)''), m)
      else case claudeManager s of
        None \<Rightarrow> (Some (no_claude sid), m)
      | Some c \<Rightarrow>
          (let m1 = update_session k (UpdateLastActive (now_at e 0)) m;
               perm = (if yolo then ''bypassPermissions'' else permissionMode)
           in if mode = ''continue'' then ask_claude e c (CmStart prompt True sid perm) m1
              else ask_claude e c (CmStart prompt False [] perm) m1))"

definition prompt_session :: "life_env \<Rightarrow> string \<Rightarrow> string \<Rightarrow> string \<Rightarrow> string \<Rightarrow> string \<Rightarrow> bool \<Rightarrow> session_manager \<Rightarrow> string option \<times> session_manager" where
  "prompt_session e k sid prompt mode permissionMode yolo m =
     (case mget (sessions m) k of
        None \<Rightarrow> (Some (''session not found: '' @ sid), m)
      | Some s \<Rightarrow>
          if permissionMode = ''interactive'' then prompt_interactive e k s sid prompt mode yolo m
          else prompt_plain e k s sid prompt mode permissionMode yolo m)"

definition SendPrompt :: "life_env \<Rightarrow> string \<Rightarrow> string \<Rightarrow> string \<Rightarrow> string \<Rightarrow> bool \<Rightarrow> session_manager \<Rightarrow> string option \<times> session_manager" where
  "SendPrompt e sid prompt mode permissionMode yolo m =
     (case GetSession sid m of
        Inr _ \<Rightarrow> prompt_session e (resolveSessionID sid m) sid prompt mode permissionMode yolo m
      | Inl err \<Rightarrow>
          (let wid = workspace_of e sid m
           in if wid = [] \<or> mget (workspaces m) wid = None then (Some err, m)
              else case live_session e wid sid m of
                Some app \<Rightarrow> type_live e wid sid ''prompt'' prompt app m
              | None \<Rightarrow>
                  (case startSessionWithID e wid sid m of
                     (Inl serr, m') \<Rightarrow>
                       (Some ((if permissionMode = ''interactive'' then ''failed to start PTY session: ''
                               else ''failed to auto-start session for historical session '' @ sid @ '': '') @ serr), m')
                   | (Inr _, m') \<Rightarrow> prompt_session e sid sid prompt mode permissionMode yolo m')))"

text \<open>Keys and input go to a terminal or, for a managed session, to its pseudo terminal.\<close>

definition key_input :: "string \<Rightarrow> string + string" where
  "key_input k =
     (if k = ''enter'' \<or> k = ''return'' then Inr [CHR 0x0D]
      else if k = ''escape'' \<or> k = ''esc'' then Inr [CHR 0x1B]
      else if k = ''up'' then Inr (CHR 0x1B # ''[A'')
      else if k = ''down'' then Inr (CHR 0x1B # ''[B'')
      else if k = ''right'' then Inr (CHR 0x1B # ''[C'')
      else if k = ''left'' then Inr (CHR 0x1B # ''[D'')
      else if k = ''tab'' then Inr [CHR 0x09]
      else if k = ''backspace'' then Inr [CHR 0x7F]
      else if k = ''space'' then Inr '' ''
      else Inl (''unknown key: '' @ k))"

definition send_pty :: "life_env \<Rightarrow> string \<Rightarrow> string \<Rightarrow> string + string \<Rightarrow> session_manager \<Rightarrow> string option \<times> session_manager" where
  "send_pty e k sid inp m =
     (case mget (sessions m) k of
        None \<Rightarrow> (Some (''session not found: '' @ sid), m)
      | Some s \<Rightarrow>
          if Status s \<noteq> StatusRunning then (Some (not_running sid), m)
          else case claudeManager s of
            None \<Rightarrow> (Some (no_claude sid), m)
          | Some c \<Rightarrow>
              if \<not> claude_pty e c then (Some (''session not in interactive mode (PTY): '' @ sid), m)
              else case inp of
                Inl err \<Rightarrow> (Some err, m)
              | Inr i \<Rightarrow> ask_claude e c (CmPTYInput i) (update_session k (UpdateLastActive (now_at e 0)) m))"

definition send_live :: "life_env \<Rightarrow> string \<Rightarrow> string \<Rightarrow> string \<Rightarrow> string \<Rightarrow> session_manager \<Rightarrow> string option \<times> session_manager" where
  "send_live e sid kind txt err m =
     (let wid = workspace_of e sid m
      in case live_session e wid sid m of
           Some app \<Rightarrow> type_live e wid sid kind txt app m
         | None \<Rightarrow> (Some err, m))"

definition SendKey :: "life_env \<Rightarrow> string \<Rightarrow> string \<Rightarrow> session_manager \<Rightarrow> string option \<times> session_manager" where
  "SendKey e sid k m =
     (case GetSession sid m of
        Inl err \<Rightarrow> send_live e sid ''key'' k err m
      | Inr _ \<Rightarrow> send_pty e (resolveSessionID sid m) sid (key_input k) m)"

definition SendInput :: "life_env \<Rightarrow> string \<Rightarrow> string \<Rightarrow> session_manager \<Rightarrow> string option \<times> session_manager" where
  "SendInput e sid inp m =
     (case GetSession sid m of
        Inl err \<Rightarrow> send_live e sid ''input'' inp err m
      | Inr _ \<Rightarrow> send_pty e (resolveSessionID sid m) sid (Inr inp) m)"

definition EmitPermissionResolved :: "life_env \<Rightarrow> string \<Rightarrow> string \<Rightarrow> string \<Rightarrow> session_manager \<Rightarrow> session_manager" where
  "EmitPermissionResolved e sid client inp m =
     PublishEvent (SetAgentType agentTypeClaude
       (NewPTYPermissionResolvedEvent (now_at e 0) sid (workspace_of e sid m) client inp)) m"

definition respond :: "life_env \<Rightarrow> string \<Rightarrow> string \<Rightarrow> string \<Rightarrow> session_manager \<Rightarrow> string option \<times> session_manager" where
  "respond e sid answer nothing m =
     (case GetSession sid m of
        Inl err \<Rightarrow> (Some err, m)
      | Inr s \<Rightarrow>
          if Status s \<noteq> StatusRunning then (Some (not_running sid), m)
          else case claudeManager s of
            None \<Rightarrow> (Some (no_claude sid), m)
          | Some c \<Rightarrow>
              (let m1 = update_session (resolveSessionID sid m) (UpdateLastActive (now_at e 0)) m
               in if claude_pending e c = [] then (Some nothing, m1)
                  else ask_claude e c (CmResponse (claude_pending e c) answer) m1))"

definition RespondToPermission :: "life_env \<Rightarrow> string \<Rightarrow> bool \<Rightarrow> session_manager \<Rightarrow> string option \<times> session_manager" where
  "RespondToPermission e sid allow m = respond e sid (if allow then ''yes'' else ''no'') ''no pending permission request'' m"

definition RespondToQuestion :: "life_env \<Rightarrow> string \<Rightarrow> string \<Rightarrow> session_manager \<Rightarrow> string option \<times> session_manager" where
  "RespondToQuestion e sid response m = respond e sid response ''no pending question'' m"


section \<open>The table of sessions\<close>

definition session_ok :: "nat \<Rightarrow> string \<Rightarrow> session \<Rightarrow> bool" where
  "session_ok n k s \<longleftrightarrow>
     sess_ID s = k \<and> (Status s = StatusRunning \<or> Status s = StatusStopped) \<and> (\<exists>c < n. claudeManager s = Some c)"

definition sessions_ok :: "session_manager \<Rightarrow> bool" where
  "sessions_ok m \<longleftrightarrow>
     (\<forall>k s. mget (sessions m) k = Some s \<longrightarrow> session_ok (next_claude m) k s) \<and>
     (\<forall>k l s t. mget (sessions m) k = Some s \<longrightarrow> mget (sessions m) l = Some t \<longrightarrow> claudeManager s = claudeManager t \<longrightarrow> k = l)"

lemma sessions_okD:
  "sessions_ok m \<Longrightarrow> mget (sessions m) k = Some s \<Longrightarrow> session_ok (next_claude m) k s"
  "sessions_ok m \<Longrightarrow> mget (sessions m) k = Some s \<Longrightarrow> mget (sessions m) l = Some t \<Longrightarrow> claudeManager s = claudeManager t \<Longrightarrow> k = l"
  unfolding sessions_ok_def by blast+

definition same_core :: "session_manager \<Rightarrow> session_manager \<Rightarrow> bool" where
  "same_core m' m \<longleftrightarrow> sessions m' = sessions m \<and> next_claude m' = next_claude m"

lemma same_core_ok: "same_core m' m \<Longrightarrow> sessions_ok m' = sessions_ok m"
  by (simp add: same_core_def sessions_ok_def)

lemma same_core_trans: "same_core m2 m1 \<Longrightarrow> same_core m1 m \<Longrightarrow> same_core m2 m"
  by (simp add: same_core_def)

lemma same_core_simps [simp]:
  "same_core m m" "same_core (put_path k p m) m" "same_core (put_alias a t m) m" "same_core (ask c m) m"
  "same_core (PublishEvent ev m) m" "same_core (CancelSessionFileWatcher sid m) m" "same_core (clear_active w sid m) m"
  "same_core (session_stopped now w sid m) m" "same_core (stop_stream wk m) m" "same_core (set_count w n m) m"
  "same_core (stop_streams m) m" "same_core (drop_watch cl wk m) m"
  by (simp_all add: same_core_def put_path_def put_alias_def ask_def PublishEvent_def CancelSessionFileWatcher_def
      clear_active_def session_stopped_def stop_stream_def set_count_def stop_streams_def drop_watch_def Let_def split: option.split)

lemma put_session:
  assumes ok: "sessions_ok m" and s: "session_ok (next_claude m') k s" "next_claude m \<le> next_claude m'"
    and core: "sessions m' = mput k s (sessions m)"
    and own: "\<And>l t. mget (sessions m) l = Some t \<Longrightarrow> claudeManager t = claudeManager s \<Longrightarrow> l = k"
  shows "sessions_ok m'"
proof -
  have "session_ok (next_claude m') l t" if "mget (sessions m') l = Some t" for l t
  proof (cases "l = k")
    case False
    then have "session_ok (next_claude m) l t" using that sessions_okD(1) [OF ok] by (simp add: core)
    then show ?thesis using s(2) by (auto simp: session_ok_def)
  qed (use that s in \<open>simp add: core\<close>)
  moreover have "l = l'" if "mget (sessions m') l = Some t" "mget (sessions m') l' = Some t'" "claudeManager t = claudeManager t'" for l l' t t'
    using that own [of l t] own [of l' t'] sessions_okD(2) [OF ok, of l t l' t'] by (auto simp: core split: if_splits)
  ultimately show ?thesis unfolding sessions_ok_def by blast
qed

text \<open>Changing a session in place: its name and its Claude manager stay.\<close>

lemma change_session:
  assumes ok: "sessions_ok m" and s: "mget (sessions m) k = Some s"
    and f: "sess_ID s' = sess_ID s" "claudeManager s' = claudeManager s" "Status s' = StatusRunning \<or> Status s' = StatusStopped"
    and core: "sessions m' = mput k s' (sessions m)" "next_claude m' = next_claude m"
  shows "sessions_ok m'"
proof (rule put_session [OF ok _ _ core(1)])
  show "session_ok (next_claude m') k s'" using sessions_okD(1) [OF ok s] f core(2) by (simp add: session_ok_def)
  show "l = k" if "mget (sessions m) l = Some t" "claudeManager t = claudeManager s'" for l t
    using sessions_okD(2) [OF ok that(1) s] that(2) f(2) by simp
qed (simp add: core)

lemma update_session_ok:
  assumes "sessions_ok m" "\<And>s. sess_ID (f s) = sess_ID s \<and> claudeManager (f s) = claudeManager s \<and> (Status (f s) = Status s \<or> Status (f s) = StatusRunning)"
  shows "sessions_ok (update_session k f m)"
proof (cases "mget (sessions m) k")
  case (Some s)
  show ?thesis
    by (rule change_session [OF assms(1) Some]) (use assms(2) [of s] sessions_okD(1) [OF assms(1) Some] Some in \<open>auto simp: update_session_def session_ok_def\<close>)
qed (simp add: update_session_def assms)

lemma open_session_ok: "sessions_ok m \<Longrightarrow> sessions_ok (snd (open_session e wid dir sid m))"
proof -
  assume ok: "sessions_ok m"
  let ?s = "fst (open_session e wid dir sid m)" and ?m = "snd (open_session e wid dir sid m)"
  have s: "sess_ID ?s = sid" "Status ?s = StatusRunning" "claudeManager ?s = Some (next_claude m)"
    by (simp_all add: open_session_def NewSession_def SetStatus_def Let_def)
  show ?thesis
  proof (rule put_session [OF ok])
    show "session_ok (next_claude ?m) sid ?s" using s by (simp add: session_ok_def open_session_def Let_def)
    show "next_claude m \<le> next_claude ?m" by (simp add: open_session_def Let_def)
    show "sessions ?m = mput sid ?s (sessions m)" by (simp add: open_session_def Let_def)
    show "l = sid" if "mget (sessions m) l = Some t" "claudeManager t = claudeManager ?s" for l t
      using sessions_okD(1) [OF ok that(1)] that(2) s(3) by (simp add: session_ok_def)
  qed
qed

lemma resolveSessionProjectPath_core:
  "resolveSessionProjectPath e wid sid m = (r, m') \<Longrightarrow> same_core m' m"
  by (auto simp: resolveSessionProjectPath_def Let_def same_core_def put_path_def split: if_splits sum.splits option.splits)

lemma WatchWorkspaceSession_core: "same_core (snd (WatchWorkspaceSession e c wid sid m)) m"
proof -
  obtain r m1 where r: "resolveSessionProjectPath e wid (resolveSessionID sid m) m = (r, m1)" by fastforce
  from resolveSessionProjectPath_core [OF r] show ?thesis
    by (cases r) (auto simp: WatchWorkspaceSession_def Let_def r same_core_def split: option.split bool.split)
qed

lemma startSessionWithID_ok: "sessions_ok m \<Longrightarrow> sessions_ok (snd (startSessionWithID e wid sid m))"
proof (cases "GetWorkspace wid m")
  case (Inr path)
  assume "sessions_ok m"
  obtain r m1 where r: "resolveSessionProjectPath (outside e) wid sid m = (r, m1)" by fastforce
  then have ok: "sessions_ok m1" using resolveSessionProjectPath_core same_core_ok \<open>sessions_ok m\<close> by blast
  show ?thesis
  proof (cases "mget (sessions m1) sid")
    case None
    have "sessions_ok (x\<lparr>activeSessionWorkspaces := y\<rparr>) = sessions_ok x" for x y by (simp add: sessions_ok_def)
    then show ?thesis using open_session_ok [OF ok] None Inr r by (simp add: startSessionWithID_def Let_def case_prod_unfold)
  next
    case (Some s)
    have st: "Status s = StatusRunning \<or> Status s = StatusStopped" using sessions_okD(1) [OF ok Some] by (simp add: session_ok_def)
    have "sessions_ok (m1\<lparr>sessions := mput sid (s\<lparr>sess_Workspace := wid\<rparr>) (sessions m1), activeSessionWorkspaces := a, activeSessions := b\<rparr>)" for a b
      by (rule change_session [OF ok Some]) (use st in simp_all)
    then show ?thesis using Some Inr r ok by (simp add: startSessionWithID_def Let_def)
  qed
qed (simp add: startSessionWithID_def)

lemma stopSessionInternal_ok: "sessions_ok m \<Longrightarrow> sessions_ok (stopSessionInternal e k m)"
proof (cases "mget (sessions m) k")
  case (Some s)
  assume ok: "sessions_ok m"
  have "claudeManager s \<noteq> None" using sessions_okD(1) [OF ok Some] by (auto simp: session_ok_def)
  then show ?thesis
  proof (cases "Status s = StatusRunning \<or> Status s = StatusStarting")
    case True
    show ?thesis
      by (rule change_session [OF ok Some, where s' = "SetStatus (now_at e 2) StatusStopped ((SetStatus (now_at e 1) StatusStopping s)\<lparr>fileWatcher := False\<rparr>)"])
        (use True Some \<open>claudeManager s \<noteq> None\<close> in \<open>auto simp: stopSessionInternal_def Let_def SetStatus_def session_stopped_def PublishEvent_def
          clear_active_def ask_def CancelSessionFileWatcher_def\<close>)
  qed (use ok Some in \<open>simp add: stopSessionInternal_def\<close>)
qed (simp add: stopSessionInternal_def)


lemma updateSessionID_core:
  "next_claude (updateSessionID wid t real m) = next_claude m"
  by (simp add: updateSessionID_def update_known_def update_taken_def rename_session_def set_claude_id_def move_paths_def
      move_active_def put_path_def put_alias_def ask_def Let_def split: option.split)

lemma updateSessionID_ok: "sessions_ok m \<Longrightarrow> sessions_ok (updateSessionID wid t real m)"
proof -
  assume ok: "sessions_ok m"
  let ?r = "resolveSessionID t m" and ?m = "updateSessionID wid t real m"
  consider (same) "sessions ?m = sessions m"
    | (moved) s where "?r \<noteq> real" "mget (sessions m) real = None" "mget (sessions m) ?r = Some s"
    by (cases "?r = real \<or> mget (sessions m) real \<noteq> None"; cases "mget (sessions m) ?r") (auto simp: updateSessionID_def Let_def)
  then show ?thesis
  proof cases
    case same
    then show ?thesis using ok same_core_ok [of ?m m] by (simp add: same_core_def updateSessionID_core)
  next
    case moved
    note core = updateSessionID_moves(1) [OF refl moved, of wid]
    have s: "session_ok (next_claude m) ?r s" using sessions_okD(1) [OF ok moved(3)] .
    let ?base = "m\<lparr>sessions := mdel ?r (mdel t (sessions m))\<rparr>"
    have ok0: "sessions_ok ?base" using ok unfolding sessions_ok_def by auto
    have named: "session_ok (next_claude ?m) real (SetSessionID real s)"
      using s by (simp add: session_ok_def SetSessionID_def updateSessionID_core)
    have own: "l = real" if "mget (sessions ?base) l = Some u" "claudeManager u = claudeManager (SetSessionID real s)" for l u
      using sessions_okD(2) [OF ok, of l u ?r s] that moved(3) by (auto simp: SetSessionID_def split: if_splits)
    show ?thesis
      by (rule put_session [OF ok0 named]) (use core own in \<open>simp_all add: updateSessionID_core\<close>)
  qed
qed

lemma session_id_found_ok: "sessions_ok m \<Longrightarrow> sessions_ok (session_id_found e wid t real path m)"
proof -
  assume "sessions_ok m"
  then have "sessions_ok (updateSessionID wid t real m)" by (rule updateSessionID_ok)
  moreover have "same_core (session_id_found e wid t real path m) (updateSessionID wid t real m)"
    unfolding session_id_found_def ensureInternalPTYSessionWatch_def
    by (intro same_core_trans [OF same_core_simps(6)] same_core_trans [OF same_core_simps(5)])
      (simp add: WatchWorkspaceSession_core)
  ultimately show ?thesis using same_core_ok by blast
qed

text \<open>What prompts, keys and answers do to the table.\<close>

lemma ask_claude_core [simp]: "same_core (snd (ask_claude e c q m)) m"
  by (simp add: ask_claude_def)

lemma ask_claude_ok [simp]: "sessions_ok (snd (ask_claude e c q m)) = sessions_ok m"
  by (rule same_core_ok) simp

lemma touch_ok:
  "sessions_ok m \<Longrightarrow> sessions_ok (update_session k (UpdateLastActive now) m)"
  "sessions_ok m \<Longrightarrow> sessions_ok (update_session k (SetStatus now StatusRunning) m)"
  by (rule update_session_ok; simp add: UpdateLastActive_def SetStatus_def)+

lemma sessions_ok_ask [simp]: "sessions_ok (ask c m) = sessions_ok m" "sessions_ok (PublishEvent ev m) = sessions_ok m"
  by (rule same_core_ok; simp)+

lemma watch_sessions_ok [simp]: "sessions_ok (snd (WatchWorkspaceSession e c wid sid m)) = sessions_ok m"
  by (rule same_core_ok) (rule WatchWorkspaceSession_core)

lemma type_live_ok [simp]: "sessions_ok (snd (type_live e wid sid kind txt app m)) = sessions_ok m"
  by (rule same_core_ok) (simp add: type_live_def same_core_def ask_def)

lemma prompt_session_ok:
  assumes ok: "sessions_ok m"
  shows "sessions_ok (snd (prompt_session e k sid prompt mode perm yolo m))"
proof -
  have "sessions_ok (snd (run_bash e wid sid prompt m))" for wid
    using ok by (simp add: run_bash_def Let_def split: sum.split)
  moreover have "sessions_ok (snd (prompt_plain e k s sid prompt mode perm yolo m))" for s
    using ok by (simp add: prompt_plain_def Let_def touch_ok split: option.split)
  moreover have "sessions_ok (snd (prompt_interactive e k s sid prompt mode yolo m))" for s
    using ok calculation(1)
    by (simp add: prompt_interactive_def Let_def touch_ok ask_claude_def split: option.split)
  ultimately show ?thesis using ok by (simp add: prompt_session_def split: option.split)
qed

lemma SendPrompt_ok: "sessions_ok m \<Longrightarrow> sessions_ok (snd (SendPrompt e sid prompt mode perm yolo m))"
  using prompt_session_ok startSessionWithID_ok
  by (auto simp: SendPrompt_def Let_def case_prod_unfold split: sum.split option.split)

lemma send_ok:
  assumes "sessions_ok m"
  shows "sessions_ok (snd (SendKey e sid key m))" "sessions_ok (snd (SendInput e sid inp m))"
    "sessions_ok (snd (RespondToPermission e sid allow m))" "sessions_ok (snd (RespondToQuestion e sid answer m))"
proof -
  have "sessions_ok (snd (send_live e sid kind inp err m))" for kind inp err
    using assms by (simp add: send_live_def Let_def split: option.split)
  moreover have "sessions_ok (snd (send_pty e k sid i m))" for k i
    using assms by (simp add: send_pty_def touch_ok split: option.split sum.split)
  moreover have "sessions_ok (snd (respond e sid answer nothing m))" for answer nothing
    using assms by (simp add: respond_def Let_def touch_ok split: option.split sum.split)
  ultimately show "sessions_ok (snd (SendKey e sid key m))" "sessions_ok (snd (SendInput e sid inp m))"
    "sessions_ok (snd (RespondToPermission e sid allow m))" "sessions_ok (snd (RespondToQuestion e sid answer m))"
    by (simp_all add: SendKey_def SendInput_def RespondToPermission_def RespondToQuestion_def split: sum.split)
qed


section \<open>The operations together\<close>

datatype life_op =
    Registers string string
  | Unregisters string
  | Starts life_env string
  | Starts_new life_env string string
  | Starts_known life_env string string
  | Activates string string
  | Stops life_env string
  | Idles life_env
  | Stops_all bool life_env
  | Waits_for_file life_env bool string string string
  | File_created life_env string string
  | Dir_created life_env string "(string \<times> bool) list option"
  | Resolution_fails time string string string string
  | Prompts life_env string string string string bool
  | Keys life_env string string
  | Inputs life_env string string
  | Answers_permission life_env string bool
  | Answers_question life_env string string
  | Watching_op watch_op
  | Git_starts bool session_env string
  | Git_stops string

fun life_run1 :: "life_op \<Rightarrow> session_manager \<Rightarrow> session_manager" where
  "life_run1 (Registers wid p) m = RegisterWorkspace wid p m"
| "life_run1 (Unregisters wid) m = snd (UnregisterWorkspace wid m)"
| "life_run1 (Starts e wid) m = snd (StartSession e wid m)"
| "life_run1 (Starts_new e wid dir) m = snd (StartNewSessionInDir e wid dir m)"
| "life_run1 (Starts_known e wid sid) m = snd (startSessionWithID e wid sid m)"
| "life_run1 (Activates wid sid) m = snd (ActivateSession wid sid m)"
| "life_run1 (Stops e sid) m = snd (StopSession e sid m)"
| "life_run1 (Idles e) m = checkIdleSessions e m"
| "life_run1 (Stops_all locked e) m = snd (manager_Stop locked e m)"
| "life_run1 (Waits_for_file e created wid t p) m = WatchForNewSessionFile e created wid t p m"
| "life_run1 (File_created e t p) m = session_file_created e t p m"
| "life_run1 (Dir_created e t es) m = sessions_dir_created e t es m"
| "life_run1 (Resolution_fails now wid t reason msg) m = FailSessionIDResolution now wid t reason msg m"
| "life_run1 (Prompts e sid prompt mode perm yolo) m = snd (SendPrompt e sid prompt mode perm yolo m)"
| "life_run1 (Keys e sid k) m = snd (SendKey e sid k m)"
| "life_run1 (Inputs e sid i) m = snd (SendInput e sid i m)"
| "life_run1 (Answers_permission e sid allow) m = snd (RespondToPermission e sid allow m)"
| "life_run1 (Answers_question e sid r) m = snd (RespondToQuestion e sid r m)"
| "life_run1 (Watching_op a) m = watch_run1 a m"
| "life_run1 (Git_starts on e wid) m = snd (StartGitWatcher on e wid m)"
| "life_run1 (Git_stops wid) m = StopGitWatcher wid m"

definition life_run :: "life_op list \<Rightarrow> session_manager" where
  "life_run ops = fold life_run1 ops NewManager"

lemma StopGitWatcher_core: "same_core (StopGitWatcher w m) m"
  by (simp add: StopGitWatcher_def same_core_def set_count_def Let_def)

lemma fold_core:
  assumes "\<And>x m. same_core (f x m) m"
  shows "same_core (fold f xs m) m"
proof (induction xs arbitrary: m)
  case (Cons x xs)
  then show ?case using same_core_trans assms by fastforce
qed simp

lemma watch_run1_core: "same_core (watch_run1 a m) m"
proof (cases a)
  case (Watches e c wid sid)
  then show ?thesis by (simp add: WatchWorkspaceSession_core)
next
  case (Unwatches c sid)
  then show ?thesis by (auto simp: UnwatchWorkspaceSession_def same_core_def Let_def split: option.split)
next
  case (Disconnects c ws)
  let ?m = "fold StopGitWatcher ws m"
  have 1: "same_core ?m m" by (rule fold_core) (rule StopGitWatcher_core)
  have "same_core (fold (drop_watch c) ks ?m) ?m" for ks by (rule fold_core) simp
  then have "same_core (fold (drop_watch c) ks ?m) m" for ks using same_core_trans [OF _ 1] by blast
  then show ?thesis using Disconnects 1 by (auto simp: OnClientDisconnect_def same_core_def Let_def split: option.split)
qed simp_all

lemma fold_keeps_ok:
  assumes "\<And>k m. sessions_ok m \<Longrightarrow> sessions_ok (f k m)"
  shows "sessions_ok m \<Longrightarrow> sessions_ok (fold f ks m)"
  using assms by (induction ks arbitrary: m) simp_all

lemma StopSession_ok: "sessions_ok m \<Longrightarrow> sessions_ok (snd (StopSession e sid m))"
proof -
  have "same_core (stopWatchingLiveSession e w s m) m" for w s
    unfolding stopWatchingLiveSession_def
    by (intro same_core_trans [OF same_core_simps(8)] same_core_trans [OF same_core_simps(7)]) simp
  then have "sessions_ok (stopWatchingLiveSession e w s m) = sessions_ok m" for w s by (rule same_core_ok)
  then show "sessions_ok m \<Longrightarrow> sessions_ok (snd (StopSession e sid m))"
    by (simp add: StopSession_def stopSessionInternal_ok Let_def)
qed

lemma life_step_ok:
  assumes ok: "sessions_ok m"
  shows "sessions_ok (life_run1 a m)"
proof (cases a)
  case (Starts e wid)
  then show ?thesis using ok open_session_ok by (simp add: StartSession_def Let_def case_prod_unfold split: option.split)
next
  case (Starts_new e wid dir)
  then show ?thesis using ok open_session_ok by (simp add: StartNewSessionInDir_def Let_def case_prod_unfold split: option.split)
next
  case (Idles e)
  show ?thesis unfolding Idles life_run1.simps checkIdleSessions_def
    by (auto intro!: fold_keeps_ok ok simp: stopSessionInternal_ok split: option.split)
next
  case (Stops_all locked e)
  have m1: "sessions_ok ((stop_streams m)\<lparr>sessionFileWatchers := []\<rparr>)"
    using ok by (simp add: sessions_ok_def stop_streams_def)
  have "sessions_ok (fold (stopSessionInternal e) ks ((stop_streams m)\<lparr>sessionFileWatchers := []\<rparr>))" for ks
    by (rule fold_keeps_ok [OF _ m1]) (rule stopSessionInternal_ok)
  then show ?thesis using Stops_all m1 by (simp add: manager_Stop_def Let_def)
next
  case (File_created e t p)
  then show ?thesis using ok by (auto simp: session_file_created_def session_id_found_ok split: option.split)
next
  case (Dir_created e t es)
  then show ?thesis using ok by (auto simp: sessions_dir_created_def session_id_found_ok Let_def split: option.split)
next
  case (Watching_op w)
  then show ?thesis using ok same_core_ok [OF watch_run1_core] by simp
next
  case (Git_starts on e w)
  have "same_core (snd (StartGitWatcher on e w m)) m"
    by (auto simp: StartGitWatcher_def same_core_def set_count_def Let_def split: sum.split)
  then show ?thesis using Git_starts ok same_core_ok by simp
next
  case (Git_stops w)
  then show ?thesis using ok same_core_ok [OF StopGitWatcher_core] by simp
next
  case (Resolution_fails now wid t reason msg)
  have "same_core (FailSessionIDResolution now wid t reason msg m) m"
    by (simp add: FailSessionIDResolution_def same_core_trans [OF same_core_simps(5)])
  then show ?thesis using Resolution_fails ok same_core_ok by simp
qed (use ok in \<open>simp_all add: startSessionWithID_ok StopSession_ok SendPrompt_ok send_ok RegisterWorkspace_def UnregisterWorkspace_def
    ActivateSession_def WatchForNewSessionFile_def sessions_ok_def [of "_\<lparr>workspaces := _\<rparr>"]
    sessions_ok_def [of "_\<lparr>activeSessions := _, activeSessionWorkspaces := _\<rparr>"] sessions_ok_def [of "_\<lparr>sessionFileWatchers := _\<rparr>"]
    sessions_okD\<close>)


lemma life_run_ok: "sessions_ok (life_run ops)"
proof -
  have "sessions_ok NewManager" by (simp add: sessions_ok_def NewManager_def)
  then show ?thesis unfolding life_run_def by (rule fold_keeps_ok [rotated]) (rule life_step_ok)
qed

text \<open>
  C24: after every sequence of operations each session of the table is filed under its own identifier, runs or is stopped
  (the states in between never show), and has a Claude manager that was created for it and that no other session has.
\<close>

theorem session_table_typed:
  assumes "m = life_run ops" "mget (sessions m) k = Some s"
  shows "sess_ID s = k \<and> (Status s = StatusRunning \<or> Status s = StatusStopped) \<and>
    (\<exists>c < next_claude m. claudeManager s = Some c) \<and>
    (\<forall>l t. mget (sessions m) l = Some t \<and> claudeManager t = claudeManager s \<longrightarrow> l = k)"
proof -
  have ok: "sessions_ok m" using life_run_ok assms(1) by simp
  from sessions_okD(1) [OF ok assms(2)] sessions_okD(2) [OF ok _ assms(2)] show ?thesis by (auto simp: session_ok_def)
qed

section \<open>Stopping\<close>

lemma session_status_distinct [simp]:
  "StatusRunning \<noteq> StatusStopped" "StatusStopped \<noteq> StatusRunning" "StatusStopped \<noteq> StatusStarting"
  by (simp_all add: StatusRunning_def StatusStopped_def StatusStarting_def)

text \<open>
  C29: stopping a session, under whichever of its identifiers, ends it: it is stopped, its own Claude process and no other
  is told to, one event says so, and it is no longer the active session of its workspace; every other session is as
  before, and stopping it again changes nothing and tells nobody.
\<close>

theorem StopSession_ends_session:
  assumes "resolveSessionID sid m = k" "mget (sessions m) k = Some s" "Status s = StatusRunning" "sess_ID s = k"
    "claudeManager s = Some c" and stop: "StopSession e sid m = (err, m')"
  shows "err = None \<and> calls m' = calls m @ [Claude c CmStop] \<and>
    sm_published m' = sm_published m @ [SetAgentType agentTypeClaude (NewSessionStoppedEvent (now_at e 3) (sess_Workspace s) k)] \<and>
    (\<exists>t. mget (sessions m') k = Some t \<and> Status t = StatusStopped \<and> \<not> fileWatcher t \<and> sess_ID t = k) \<and>
    (\<forall>l. l \<noteq> k \<longrightarrow> mget (sessions m') l = mget (sessions m) l) \<and>
    (k \<noteq> [] \<longrightarrow> GetActiveSession (sess_Workspace s) m' \<noteq> k) \<and>
    StopSession e' sid m' = (None, m')"
proof -
  have m': "err = None" "m' = stopSessionInternal e k m" using stop assms(1,2) by (simp_all add: StopSession_def Let_def)
  have al: "sessionAliases m' = sessionAliases m"
    using assms(2,3,5) by (simp add: m'(2) stopSessionInternal_def Let_def session_stopped_def PublishEvent_def clear_active_def
        ask_def CancelSessionFileWatcher_def)
  have k: "\<exists>t. mget (sessions m') k = Some t \<and> Status t = StatusStopped \<and> \<not> fileWatcher t \<and> sess_ID t = k"
    using assms(2-5) by (simp add: m'(2) stopSessionInternal_def Let_def session_stopped_def PublishEvent_def clear_active_def
        ask_def CancelSessionFileWatcher_def SetStatus_def)
  then have again: "StopSession e' sid m' = (None, m')"
    using assms(1) by (auto simp: StopSession_def stopSessionInternal_def Let_def resolveSessionID_def al)
  have "calls m' = calls m @ [Claude c CmStop] \<and>
    sm_published m' = sm_published m @ [SetAgentType agentTypeClaude (NewSessionStoppedEvent (now_at e 3) (sess_Workspace s) k)] \<and>
    (\<forall>l. l \<noteq> k \<longrightarrow> mget (sessions m') l = mget (sessions m) l) \<and> (k \<noteq> [] \<longrightarrow> GetActiveSession (sess_Workspace s) m' \<noteq> k)"
    using assms(2-5) by (auto simp: m'(2) stopSessionInternal_def Let_def session_stopped_def PublishEvent_def clear_active_def
        ask_def CancelSessionFileWatcher_def GetActiveSession_def mread_def split: if_splits option.splits)
  with m'(1) k again show ?thesis by blast
qed

section \<open>Idle sessions\<close>

definition is_idle :: "life_env \<Rightarrow> session_manager \<Rightarrow> session \<Rightarrow> bool" where
  "is_idle e m s \<longleftrightarrow> Status s = StatusRunning \<and> now_at e 0 - LastActive s > idleTimeout m"

definition stopped_session :: "life_env \<Rightarrow> session \<Rightarrow> session" where
  "stopped_session e s =
     SetStatus (now_at e 2) StatusStopped ((SetStatus (now_at e 1) StatusStopping s)\<lparr>fileWatcher := False\<rparr>)"

lemma stopSessionInternal_sessions:
  "idleTimeout (stopSessionInternal e k m) = idleTimeout m"
  "mget (sessions (stopSessionInternal e k m)) l =
     (case mget (sessions m) l of
        None \<Rightarrow> None
      | Some s \<Rightarrow> if l = k \<and> (Status s = StatusRunning \<or> Status s = StatusStarting) then Some (stopped_session e s) else Some s)"
  by (auto simp: stopSessionInternal_def Let_def session_stopped_def PublishEvent_def clear_active_def ask_def
      CancelSessionFileWatcher_def stopped_session_def split: option.split)

text \<open>
  the idle check stops every session that runs and has not been active for longer than the timeout, and leaves every other
  session as it is.
\<close>

theorem idle_sessions_are_stopped:
  assumes "valid_order (order_sessions (outside e)) (sessions m)"
  shows "mget (sessions (checkIdleSessions e m)) k =
    map_option (\<lambda>s. if is_idle e m s then stopped_session e s else s) (mget (sessions m) k)"
proof -
  let ?f = "\<lambda>k m. case mget (sessions m) k of None \<Rightarrow> m
      | Some s \<Rightarrow> if Status s = StatusRunning \<and> now_at e 0 - LastActive s > idleTimeout m then stopSessionInternal e k m else m"
  have step: "idleTimeout (?f l x) = idleTimeout x \<and> mget (sessions (?f l x)) k =
      (if l = k then map_option (\<lambda>s. if is_idle e x s then stopped_session e s else s) (mget (sessions x) k) else mget (sessions x) k)" for l x
    by (auto simp: stopSessionInternal_sessions is_idle_def split: option.split)
  have loop: "mget (sessions (fold ?f ls x)) k =
      (if k \<in> set ls then map_option (\<lambda>s. if is_idle e x s then stopped_session e s else s) (mget (sessions x) k) else mget (sessions x) k)"
    if "distinct ls" for ls x
    using that
  proof (induction ls arbitrary: x)
    case (Cons l ls)
    have "is_idle e (?f l x) = is_idle e x" using step by (simp add: is_idle_def fun_eq_iff)
    then show ?case using Cons step [where l = l and x = x] by auto
  qed simp
  have "k \<in> set (order_sessions (outside e))" if "mget (sessions m) k \<noteq> None"
    using that assms keys_mget [of k "sessions m"] by (simp add: valid_order_def)
  then show ?thesis unfolding checkIdleSessions_def using loop assms
    by (cases "mget (sessions m) k") (auto simp: valid_order_def)
qed


section \<open>What goes wrong\<close>

text \<open>
  starting a session of a workspace whose most recent session runs already replaces that session in the table without
  stopping it: its Claude process is told nothing, and no session has its manager any more, so nothing can stop it.
\<close>

theorem restart_strands_process:
  assumes "m = life_run ops" "mget (workspaces m) wid = Some path" "recent e path = k" "k \<noteq> []"
    "mget (sessions m) k = Some s" "claudeManager s = Some c" and start: "StartSession e wid m = (r, m')"
  shows "calls m' = calls m \<and> (\<forall>l t. mget (sessions m') l = Some t \<longrightarrow> claudeManager t \<noteq> Some c)"
proof -
  have ok: "sessions_ok m" using life_run_ok assms(1) by simp
  have c: "c < next_claude m" using sessions_okD(1) [OF ok assms(5)] assms(6) by (simp add: session_ok_def)
  have "claudeManager t \<noteq> Some c" if t: "mget (sessions m') l = Some t" for l t
  proof (cases "l = k")
    case True
    then show ?thesis using t start assms(2-4) c
      by (auto simp: StartSession_def open_session_def Let_def SetStatus_def NewSession_def)
  next
    case False
    then have "mget (sessions m) l = Some t" using t start assms(2-4) by (auto simp: StartSession_def open_session_def Let_def)
    then show ?thesis using sessions_okD(2) [OF ok _ assms(5), of l t] False assms(6) by auto
  qed
  moreover have "calls m' = calls m" using start assms(2-4) by (auto simp: StartSession_def open_session_def Let_def)
  ultimately show ?thesis by blast
qed

text \<open>
  A prompt that continues a session hands Claude the identifier it came with, not the one it resolves to: a client that
  still uses the temporary identifier asks Claude to resume a session Claude has never heard of.
\<close>

lemma continue_hands_on_alias:
  assumes "mget (sessions m) (resolveSessionID sid m) = Some s" "Status s = StatusRunning" "claudeManager s = Some c"
    "perm \<noteq> ''interactive''" "\<not> yolo"
  shows "calls (snd (SendPrompt e sid prompt ''continue'' perm yolo m)) = calls m @ [Claude c (CmStart prompt True sid perm)]"
  using assms
  by (simp add: SendPrompt_def GetSession_def prompt_session_def prompt_plain_def ask_claude_def ask_def update_session_def Let_def)

section \<open>Concrete inputs\<close>

definition demo_life :: life_env where
  "demo_life =
     \<lparr>outside = demo_session_env\<lparr>order_sessions := [''s'']\<rparr>, new_id = ''t'', recent = (\<lambda>_. ''s''), watcher_enabled = True, uuid_ok = (\<lambda>_. True),
      claude_pty = (\<lambda>_. False), claude_running = (\<lambda>_. True), claude_pending = (\<lambda>_. []), claude_error = (\<lambda>_. None),
      live_app = (\<lambda>_ _. None), live_count = (\<lambda>_. None), inject_error = None\<rparr>"

definition demo_ops :: "life_op list" where
  "demo_ops = [Registers ''w'' ''/r'', Starts demo_life ''w'']"

definition demo_session :: session where
  "demo_session = \<lparr>sess_ID = ''s'', sess_Workspace = ''w'', ProjectPath = ''/r'', Status = StatusRunning, StartedAt = 0, LastActive = 2,
     sess_Error = [], claudeManager = Some 0, fileWatcher = True\<rparr>"

lemma demo_facts:
  "mget (sessions (life_run demo_ops)) ''s'' = Some demo_session" "resolveSessionID ''s'' (life_run demo_ops) = ''s''"
  "mget (workspaces (life_run demo_ops)) ''w'' = Some ''/r''" "recent demo_life ''/r'' = ''s''"
  "sessions (life_run demo_ops) = [(''s'', demo_session)]" "calls (life_run demo_ops) = []"
  by code_simp+

theorem session_table_typed_witness: "\<exists>c < next_claude (life_run demo_ops). claudeManager demo_session = Some c"
  using session_table_typed [OF refl demo_facts(1)] by blast

theorem StopSession_ends_session_witness:
  "calls (snd (StopSession demo_life ''s'' (life_run demo_ops))) = [Claude 0 CmStop]"
proof -
  have d: "Status demo_session = StatusRunning" "sess_ID demo_session = ''s''" "claudeManager demo_session = Some 0"
    by (simp_all add: demo_session_def)
  obtain err m' where s: "StopSession demo_life ''s'' (life_run demo_ops) = (err, m')" by fastforce
  from StopSession_ends_session [OF demo_facts(2,1) d s] show ?thesis by (simp add: s demo_facts(6))
qed

theorem idle_sessions_are_stopped_witness:
  "map_option Status (mget (sessions (checkIdleSessions (demo_life\<lparr>outside := (outside demo_life)\<lparr>sm_clock := (\<lambda>_. hour)\<rparr>\<rparr>) (life_run demo_ops))) ''s'') =
     Some StatusStopped"
proof -
  let ?e = "demo_life\<lparr>outside := (outside demo_life)\<lparr>sm_clock := (\<lambda>_. hour)\<rparr>\<rparr>"
  have v: "valid_order (order_sessions (outside ?e)) (sessions (life_run demo_ops))"
    by (simp add: valid_order_def demo_facts(5) demo_life_def)
  have "is_idle ?e (life_run demo_ops) demo_session" by code_simp
  then show ?thesis
    using idle_sessions_are_stopped [OF v, of "''s''"] by (simp add: demo_facts(1) stopped_session_def SetStatus_def)
qed

theorem restart_strands_process_witness:
  "\<forall>l t. mget (sessions (snd (StartSession demo_life ''w'' (life_run demo_ops)))) l = Some t \<longrightarrow> claudeManager t \<noteq> Some 0"
proof -
  obtain r m' where s: "StartSession demo_life ''w'' (life_run demo_ops) = (r, m')" by fastforce
  have c: "claudeManager demo_session = Some 0" by (simp add: demo_session_def)
  from restart_strands_process [OF refl demo_facts(3,4) _ demo_facts(1) c s] show ?thesis by (simp add: s)
qed

end
