(* ===== verification/Go_Url.thy ===== *)
theory Go_Url
  imports Go_JSON
begin

text \<open>
  The parser of Go's package \<open>net/url\<close> (Go 1.24.0) as the daemon uses it: scheme, host and path of a URL,
  and which texts are refused. The texts of errors, the query and the names of users are not kept.
\<close>

section \<open>Characters\<close>

definition is_alpha :: "char \<Rightarrow> bool" where
  "is_alpha c \<longleftrightarrow> (let n = of_char c :: nat in 65 \<le> n \<and> n \<le> 90 \<or> 97 \<le> n \<and> n \<le> 122)"

definition is_alnum :: "char \<Rightarrow> bool" where
  "is_alnum c \<longleftrightarrow> is_alpha c \<or> is_digit c"

definition stringContainsCTLByte :: "string \<Rightarrow> bool" where
  "stringContainsCTLByte s \<longleftrightarrow> list_ex (\<lambda>c. of_char c < (32 :: nat) \<or> of_char c = (127 :: nat)) s"

text \<open>\<open>strings.Cut\<close> at a byte: what is before it, and what is behind it when it occurs.\<close>

definition cut_at :: "char \<Rightarrow> string \<Rightarrow> string \<times> string option" where
  "cut_at c s = (let a = takeWhile (\<lambda>x. x \<noteq> c) s in (a, if c \<in> set s then Some (drop (Suc (length a)) s) else None))"

text \<open>Before and from the last occurrence of a byte.\<close>

definition last_at :: "char \<Rightarrow> string \<Rightarrow> (string \<times> string) option" where
  "last_at c s =
     (if c \<notin> set s then None
      else (let n = length (takeWhile (\<lambda>x. x \<noteq> c) (rev s)) in Some (take (length s - Suc n) s, drop (length s - Suc n) s)))"

section \<open>Escapes\<close>

datatype encoding = encodePath | encodeHost | encodeZone | encodeUserPassword | encodeFragment

definition host_char :: "char \<Rightarrow> bool" where
  "host_char c \<longleftrightarrow> is_alnum c \<or> c \<in> set ''!$&()*+,;=:[]<>-_.~'' \<or> c = CHR 0x22 \<or> c = CHR 0x27"

text \<open>A byte that \<open>shouldEscape\<close> refuses in a host; bytes from 0x80 on pass.\<close>

definition bad_host_byte :: "char \<Rightarrow> bool" where
  "bad_host_byte c \<longleftrightarrow> of_char c < (128 :: nat) \<and> \<not> host_char c"

fun unescape_go :: "encoding \<Rightarrow> nat \<Rightarrow> string \<Rightarrow> string option" where
  "unescape_go mode k [] = Some []"
| "unescape_go mode (Suc k) (c # s) = unescape_go mode k s"
| "unescape_go mode 0 (c # s) =
     (if c = CHR 0x25 then
        (case s of
           a # b # _ \<Rightarrow>
             (case (hex_value a, hex_value b) of
                (Some x, Some y) \<Rightarrow>
                  (let lit = (a = CHR ''2'' \<and> b = CHR ''5''); v = char_of (x * 16 + y)
                   in if mode = encodeHost \<and> x < 8 \<and> \<not> lit then None
                      else if mode = encodeZone \<and> \<not> lit \<and> v \<noteq> CHR 0x20 \<and> \<not> host_char v then None
                      else map_option (Cons v) (unescape_go mode 2 s))
              | _ \<Rightarrow> None)
         | _ \<Rightarrow> None)
      else if (mode = encodeHost \<or> mode = encodeZone) \<and> bad_host_byte c then None
      else map_option (Cons c) (unescape_go mode 0 s))"

definition unescape :: "string \<Rightarrow> encoding \<Rightarrow> string option" where
  "unescape s mode = unescape_go mode 0 s"

section \<open>The authority\<close>

definition validOptionalPort :: "string \<Rightarrow> bool" where
  "validOptionalPort port = (case port of [] \<Rightarrow> True | c # ds \<Rightarrow> c = CHR '':'' \<and> list_all is_digit ds)"

definition parseHost :: "string \<Rightarrow> string option" where
  "parseHost host =
     (if has_prefix ''['' host then
        (case last_at (CHR '']'') host of
           None \<Rightarrow> None
         | Some (front, tail) \<Rightarrow>
             if \<not> validOptionalPort (drop 1 tail) then None
             else case index_of [CHR 0x25, CHR ''2'', CHR ''5''] front of
               None \<Rightarrow> unescape host encodeHost
             | Some z \<Rightarrow>
                 (case (unescape (take z host) encodeHost, unescape (drop z front) encodeZone, unescape tail encodeHost) of
                    (Some a, Some b, Some c) \<Rightarrow> Some (a @ b @ c)
                  | _ \<Rightarrow> None))
      else case last_at (CHR '':'') host of
        Some (_, port) \<Rightarrow> if validOptionalPort port then unescape host encodeHost else None
      | None \<Rightarrow> unescape host encodeHost)"

definition validUserinfo :: "string \<Rightarrow> bool" where
  "validUserinfo s \<longleftrightarrow> list_all (\<lambda>c. is_alnum c \<or> c \<in> set ''-._:~!$&()*+,;=@'' \<or> c = CHR 0x25 \<or> c = CHR 0x27) s"

definition parseAuthority :: "string \<Rightarrow> string option" where
  "parseAuthority authority =
     (case last_at (CHR ''@'') authority of
        None \<Rightarrow> parseHost authority
      | Some (userinfo, tail) \<Rightarrow>
          (case parseHost (drop 1 tail) of
             None \<Rightarrow> None
           | Some host \<Rightarrow>
               if \<not> validUserinfo userinfo then None
               else (let (name, password) = cut_at (CHR '':'') userinfo
                     in if unescape name encodeUserPassword = None then None
                        else case password of
                          None \<Rightarrow> Some host
                        | Some p \<Rightarrow> if unescape p encodeUserPassword = None then None else Some host)))"

section \<open>URLs\<close>

record url =
  Scheme :: string
  Opaque :: string
  Host :: string
  url_Path :: string

fun scheme_scan :: "string \<Rightarrow> string \<Rightarrow> (string \<times> string) option" where
  "scheme_scan seen [] = Some ([], rev seen)"
| "scheme_scan seen (c # s) =
     (if is_alpha c then scheme_scan (c # seen) s
      else if is_digit c \<or> c \<in> set ''+-.'' then
        (if seen = [] then Some ([], c # s) else scheme_scan (c # seen) s)
      else if c = CHR '':'' then (if seen = [] then None else Some (rev seen, s))
      else Some ([], rev seen @ c # s))"

definition getScheme :: "string \<Rightarrow> (string \<times> string) option" where
  "getScheme s = scheme_scan [] s"

definition lower_ascii :: "string \<Rightarrow> string" where
  "lower_ascii s = map (\<lambda>c. let n = of_char c :: nat in if 65 \<le> n \<and> n \<le> 90 then char_of (n + 32) else c) s"

definition parse_url_rest :: "string \<Rightarrow> string \<Rightarrow> url option" where
  "parse_url_rest scheme rest =
     (let with_path = (\<lambda>host p. map_option (\<lambda>q. \<lparr>Scheme = scheme, Opaque = [], Host = host, url_Path = q\<rparr>) (unescape p encodePath))
      in if \<not> has_prefix ''/'' rest \<and> scheme \<noteq> [] then Some \<lparr>Scheme = scheme, Opaque = rest, Host = [], url_Path = []\<rparr>
         else if \<not> has_prefix ''/'' rest \<and> CHR '':'' \<in> set (fst (cut_at (CHR ''/'') rest)) then None
         else if (scheme \<noteq> [] \<or> \<not> has_prefix ''///'' rest) \<and> has_prefix ''//'' rest
         then (let a = takeWhile (\<lambda>x. x \<noteq> CHR ''/'') (drop 2 rest)
               in case parseAuthority a of
                    None \<Rightarrow> None
                  | Some host \<Rightarrow> with_path host (drop (length a) (drop 2 rest)))
         else with_path [] rest)"

definition parse_url :: "string \<Rightarrow> url option" where
  "parse_url s =
     (if stringContainsCTLByte s then None
      else if s = ''*'' then Some \<lparr>Scheme = [], Opaque = [], Host = [], url_Path = ''*''\<rparr>
      else case getScheme s of
        None \<Rightarrow> None
      | Some (scheme, rest) \<Rightarrow>
          parse_url_rest (lower_ascii scheme)
            (if has_suffix ''?'' rest \<and> count_list rest (CHR ''?'') = 1 then butlast rest
             else fst (cut_at (CHR ''?'') rest)))"

definition url_Parse :: "string \<Rightarrow> url option" where
  "url_Parse raw =
     (let (u, frag) = cut_at (CHR ''#'') raw
      in case parse_url u of
           None \<Rightarrow> None
         | Some p \<Rightarrow> (case frag of None \<Rightarrow> Some p | Some f \<Rightarrow> if unescape f encodeFragment = None then None else Some p))"

definition strip_brackets :: "string \<Rightarrow> string" where
  "strip_brackets h = (if has_prefix ''['' h \<and> has_suffix '']'' h then butlast (drop 1 h) else h)"

definition Hostname :: "url \<Rightarrow> string" where
  "Hostname u =
     strip_brackets (case last_at (CHR '':'') (Host u) of
       Some (h, port) \<Rightarrow> if validOptionalPort port then h else Host u
     | None \<Rightarrow> Host u)"

section \<open>A plain URL\<close>

text \<open>A host of letters, digits, dots and dashes, perhaps with a port, is read as it stands.\<close>

definition plain_host :: "string \<Rightarrow> bool" where
  "plain_host h \<longleftrightarrow> h \<noteq> [] \<and> list_all (\<lambda>c. is_alnum c \<or> c = CHR ''.'' \<or> c = CHR ''-'') h"

lemma unescape_plain:
  "list_all (\<lambda>c. host_char c) h \<Longrightarrow> unescape_go encodeHost 0 h = Some h"
  by (induction h) (auto simp: bad_host_byte_def host_char_def is_alnum_def is_alpha_def is_digit_def)

lemma last_at_notin [simp]: "c \<notin> set s \<Longrightarrow> last_at c s = None"
  by (simp add: last_at_def)

lemma last_at_append: "c \<notin> set b \<Longrightarrow> last_at c (a @ c # b) = Some (a, c # b)"
proof -
  assume c: "c \<notin> set b"
  have "takeWhile (\<lambda>x. x \<noteq> c) (rev (a @ c # b)) = rev b"
    using c by (simp add: takeWhile_append)
  then show ?thesis by (simp add: last_at_def)
qed

lemma cut_at_notin [simp]: "c \<notin> set s \<Longrightarrow> cut_at c s = (s, None)"
proof -
  assume c: "c \<notin> set s"
  then have "takeWhile (\<lambda>x. x \<noteq> c) s = s" by (induction s) auto
  with c show ?thesis by (simp add: cut_at_def)
qed

lemma cut_at_append: "c \<notin> set a \<Longrightarrow> cut_at c (a @ c # b) = (a, Some b)"
proof -
  assume "c \<notin> set a"
  then have "takeWhile (\<lambda>x. x \<noteq> c) (a @ c # b) = a" by (subst takeWhile_append2) auto
  then show ?thesis by (simp add: cut_at_def)
qed

definition plain_char :: "char \<Rightarrow> bool" where
  "plain_char c \<longleftrightarrow> is_alnum c \<or> c = CHR ''.'' \<or> c = CHR ''-''"

lemma plain_not [simp]:
  "\<not> plain_char (CHR '':'')" "\<not> plain_char (CHR ''/'')" "\<not> plain_char (CHR ''@'')" "\<not> plain_char (CHR ''?'')"
  "\<not> plain_char (CHR 0x23)" "\<not> plain_char (CHR ''['')" "\<not> plain_char (CHR '']'')" "\<not> plain_char (CHR 0x25)"
  by (simp_all add: plain_char_def is_alnum_def is_alpha_def is_digit_def)

lemma plain_host_char: "plain_char c \<Longrightarrow> host_char c"
  by (auto simp: plain_char_def host_char_def)

lemma plain_no_control: "plain_char c \<Longrightarrow> 32 \<le> (of_char c :: nat) \<and> (of_char c :: nat) < 127"
  by (auto simp: plain_char_def is_alnum_def is_alpha_def is_digit_def Let_def)

lemma plain_hostD:
  assumes "plain_host h"
  shows "list_all host_char h" "CHR '':'' \<notin> set h" "CHR ''/'' \<notin> set h" "CHR ''@'' \<notin> set h" "CHR ''?'' \<notin> set h"
    "CHR 0x23 \<notin> set h" "\<not> has_prefix ''['' h" "\<not> stringContainsCTLByte h" "h \<noteq> []"
proof -
  have p: "\<And>c. c \<in> set h \<Longrightarrow> plain_char c" and ne: "h \<noteq> []"
    using assms by (simp_all add: plain_host_def list_all_iff plain_char_def)
  show "CHR '':'' \<notin> set h" "CHR ''/'' \<notin> set h" "CHR ''@'' \<notin> set h" "CHR ''?'' \<notin> set h" "CHR 0x23 \<notin> set h" "h \<noteq> []"
    using p plain_not ne by blast+
  show "list_all host_char h" using p plain_host_char by (simp add: list_all_iff)
  show "\<not> has_prefix ''['' h" using p [of "hd h"] ne plain_not by (cases h) auto
  show "\<not> stringContainsCTLByte h"
    using p plain_no_control by (fastforce simp: stringContainsCTLByte_def list_ex_iff)
qed

lemma parseHost_plain: "plain_host h \<Longrightarrow> parseHost h = Some h"
  by (simp add: parseHost_def plain_hostD unescape_def unescape_plain)

lemma parseHost_port:
  assumes "plain_host h" "list_all is_digit ds"
  shows "parseHost (h @ '':'' @ ds) = Some (h @ '':'' @ ds)"
proof -
  have ds: "CHR '':'' \<notin> set ds" "list_all host_char ds"
    using assms(2) by (auto simp: list_all_iff is_digit_def host_char_def is_alnum_def)
  have "\<not> has_prefix ''['' (h @ '':'' @ ds)"
    using plain_hostD(7,9) [OF assms(1)] by (cases h) auto
  moreover have "list_all host_char (h @ '':'' @ ds)"
    using plain_hostD(1) [OF assms(1)] ds by (auto simp: host_char_def)
  ultimately show ?thesis
    using last_at_append [OF ds(1), of h] assms(2)
    by (simp add: parseHost_def validOptionalPort_def unescape_def unescape_plain)
qed

end
