(* ===== verification/Origin_Check.thy ===== *)
theory Origin_Check
  imports Go_Url Client_Address Http_Common
begin

text \<open>
  \<open>internal/security/origin.go\<close>, the CORS middleware of \<open>internal/server/http/server.go\<close>, the checks for
  servers without an origin checker, and \<open>RequestBaseURL\<close> of \<open>internal/security/network.go\<close>: which web pages
  may talk to the daemon. The origin of a request is its header; capital letters of a host are folded as far as
  ASCII goes.
\<close>

section \<open>The checker\<close>

record origin_checker =
  allowedOrigins :: "string list"
  bindLocalhostOnly :: bool

definition isLocalhost :: "string \<Rightarrow> bool" where
  "isLocalhost host \<longleftrightarrow>
     host = ''localhost'' \<or> host = ''127.0.0.1'' \<or> host = ''::1'' \<or> has_suffix ''.localhost'' host"

definition matchOrigin :: "string \<Rightarrow> string \<Rightarrow> bool" where
  "matchOrigin origin allowed =
     (if origin = allowed then True
      else case url_Parse origin of
        None \<Rightarrow> False
      | Some u \<Rightarrow>
          if has_prefix ''*.'' allowed
          then (let domain = drop 2 allowed; host = Hostname u in host \<noteq> domain \<and> has_suffix (''.'' @ domain) host)
          else False)"

definition allowed_origin :: "origin_checker \<Rightarrow> string \<Rightarrow> bool" where
  "allowed_origin oc origin =
     (if origin = [] then True
      else case url_Parse origin of
        None \<Rightarrow> False
      | Some u \<Rightarrow>
          if bindLocalhostOnly oc \<and> isLocalhost (Hostname u) then True
          else list_ex (matchOrigin origin) (allowedOrigins oc))"

definition CheckOrigin :: "origin_checker \<Rightarrow> http_request \<Rightarrow> bool" where
  "CheckOrigin oc r = allowed_origin oc (header_Get r ''Origin'')"

section \<open>Without a checker\<close>

definition isLocalhostOrigin :: "string \<Rightarrow> bool" where
  "isLocalhostOrigin origin =
     (case url_Parse origin of None \<Rightarrow> False | Some u \<Rightarrow> isLocalhost (trim_space (lower_runes (Hostname u))))"

text \<open>The unified server compares texts.\<close>

definition localhostOrigins :: "string list" where
  "localhostOrigins =
     [''http://localhost'', ''https://localhost'', ''http://127.0.0.1'', ''https://127.0.0.1'', ''http://[::1]'', ''https://[::1]'']"

definition unified_isLocalhostOrigin :: "string \<Rightarrow> bool" where
  "unified_isLocalhostOrigin origin \<longleftrightarrow>
     list_ex (\<lambda>allowed. origin = allowed \<or> length origin > length allowed \<and> take (length allowed + 1) origin = allowed @ '':'') localhostOrigins"

definition unified_checkOrigin :: "origin_checker option \<Rightarrow> http_request \<Rightarrow> bool" where
  "unified_checkOrigin checker r =
     (case checker of
        Some oc \<Rightarrow> CheckOrigin oc r
      | None \<Rightarrow> (let origin = header_Get r ''Origin'' in if origin = [] then True else unified_isLocalhostOrigin origin))"

definition allowOrigin :: "origin_checker option \<Rightarrow> string \<Rightarrow> bool" where
  "allowOrigin checker origin =
     (case checker of Some oc \<Rightarrow> allowed_origin oc origin | None \<Rightarrow> isLocalhostOrigin origin)"

section \<open>The middleware\<close>

datatype cors_outcome =
    Cors_forbidden http_response
  | Cors_preflight "(string \<times> string) list"
  | Cors_next "(string \<times> string) list"

definition cors_headers :: "(string \<times> string) list" where
  "cors_headers =
     [(''Access-Control-Allow-Methods'', ''GET, POST, DELETE, OPTIONS''),
      (''Access-Control-Allow-Headers'', ''Content-Type, Authorization, X-Cdev-Token'')]"

definition corsMiddleware :: "origin_checker option \<Rightarrow> http_request \<Rightarrow> cors_outcome" where
  "corsMiddleware checker r =
     (let origin = header_Get r ''Origin'';
          go = (\<lambda>hs. if Method r = ''OPTIONS'' then Cors_preflight (hs @ cors_headers) else Cors_next (hs @ cors_headers));
          allowed = (case checker of Some oc \<Rightarrow> CheckOrigin oc r | None \<Rightarrow> isLocalhostOrigin origin)
      in if origin = [] then go []
         else if \<not> allowed then Cors_forbidden (http_Error ''Origin not allowed'' 403)
         else go [(''Access-Control-Allow-Origin'', origin), (''Access-Control-Allow-Credentials'', ''true'')])"

section \<open>The URL of the server\<close>

text \<open>\<open>host\<close>: the host the request names.\<close>

definition request_proto :: "bool \<Rightarrow> http_request \<Rightarrow> string" where
  "request_proto trusted r =
     (let read = (\<lambda>name. lower_runes (trim_space (firstForwardedValue (header_Get r name))));
          p0 = (if trusted then read ''X-Forwarded-Proto'' else []);
          p = (if trusted \<and> p0 = [] then read ''X-Forwarded-Scheme'' else p0)
      in if p \<noteq> ''http'' \<and> p \<noteq> ''https'' then (if has_TLS r then ''https'' else ''http'') else p)"

definition RequestBaseURL :: "string \<Rightarrow> http_request \<Rightarrow> ip_net list \<Rightarrow> string option" where
  "RequestBaseURL reqHost r trustedProxies =
     (let trusted = IsTrustedProxy (RemoteAddr r) trustedProxies;
          forwardedHost = firstForwardedValue (header_Get r ''X-Forwarded-Host'');
          host = (if trusted \<and> forwardedHost \<noteq> [] then forwardedHost else trim_space reqHost)
      in if host = [] then None
         else (let proto = request_proto trusted r;
                   port = firstForwardedValue (header_Get r ''X-Forwarded-Port'');
                   host' = (if trusted \<and> port \<noteq> [] \<and> CHR '':'' \<notin> set host \<and>
                       (proto = ''http'' \<and> port \<noteq> ''80'' \<or> proto = ''https'' \<and> port \<noteq> ''443'')
                     then host @ '':'' @ port else host);
                   base = proto @ ''://'' @ host'
               in case url_Parse base of None \<Rightarrow> None | Some u \<Rightarrow> if Host u = [] then None else Some base))"

section \<open>Ordinary origins\<close>

text \<open>An origin as a browser sends it: scheme, host, and a port unless it is the usual one.\<close>

definition origin_of :: "string \<Rightarrow> string \<Rightarrow> string option \<Rightarrow> string" where
  "origin_of scheme host port = scheme @ ''://'' @ host @ (case port of None \<Rightarrow> [] | Some ds \<Rightarrow> '':'' @ ds)"

definition web_origin :: "string \<Rightarrow> string \<Rightarrow> string option \<Rightarrow> bool" where
  "web_origin scheme host port \<longleftrightarrow>
     scheme \<in> {''http'', ''https''} \<and> plain_host host \<and> (case port of None \<Rightarrow> True | Some ds \<Rightarrow> list_all is_digit ds)"

lemma scheme_scan_http:
  "scheme \<in> {''http'', ''https''} \<Longrightarrow> getScheme (scheme @ '':'' @ r) = Some (scheme, r)"
  by (auto simp: getScheme_def is_alpha_def is_digit_def Let_def)

definition authority_of :: "string \<Rightarrow> string option \<Rightarrow> string" where
  "authority_of host port = host @ (case port of None \<Rightarrow> [] | Some ds \<Rightarrow> '':'' @ ds)"

lemma authority_plain:
  assumes "web_origin scheme host port" "a = authority_of host port"
  shows "CHR ''/'' \<notin> set a" "CHR ''@'' \<notin> set a" "CHR ''?'' \<notin> set a" "CHR 0x23 \<notin> set a"
    "\<not> stringContainsCTLByte a" "parseHost a = Some a"
proof -
  have h: "plain_host host" using assms(1) by (simp add: web_origin_def)
  have d: "list_all is_digit ds" if "port = Some ds" for ds using assms(1) that by (simp add: web_origin_def)
  have digit: "is_digit c \<Longrightarrow> plain_char c" for c by (simp add: plain_char_def is_alnum_def)
  have ds: "c \<notin> set ds" if "port = Some ds" "\<not> plain_char c" for ds c
    using d [OF that(1)] that(2) digit by (auto simp: list_all_iff)
  show "CHR ''/'' \<notin> set a" "CHR ''@'' \<notin> set a" "CHR ''?'' \<notin> set a" "CHR 0x23 \<notin> set a"
    using plain_hostD [OF h] ds by (auto simp: assms(2) authority_of_def split: option.splits)
  have "list_ex (\<lambda>c. of_char c < (32 :: nat) \<or> of_char c = (127 :: nat)) ds = False" if "port = Some ds" for ds
    using d [OF that] plain_no_control digit by (fastforce simp: list_ex_iff list_all_iff)
  then show "\<not> stringContainsCTLByte a"
    using plain_hostD(8) [OF h] by (auto simp: assms(2) authority_of_def stringContainsCTLByte_def split: option.splits)
  show "parseHost a = Some a"
    using parseHost_plain [OF h] parseHost_port [OF h d] by (auto simp: assms(2) authority_of_def split: option.splits)
qed

lemma has_suffix_notin: "c \<notin> set s \<Longrightarrow> \<not> has_suffix [c] s"
  by (auto simp: has_suffix_iff)

lemma parse_web_origin:
  assumes "web_origin scheme host port"
  shows "url_Parse (origin_of scheme host port) =
      Some \<lparr>Scheme = scheme, Opaque = [], Host = authority_of host port, url_Path = []\<rparr>"
    "Hostname \<lparr>Scheme = scheme, Opaque = [], Host = authority_of host port, url_Path = []\<rparr> = host"
proof -
  let ?a = "authority_of host port"
  note a = authority_plain [OF assms refl]
  have sch: "scheme = ''http'' \<or> scheme = ''https''" using assms by (simp add: web_origin_def)
  have o: "origin_of scheme host port = scheme @ '':'' @ ''//'' @ ?a"
    by (simp add: origin_of_def authority_of_def split: option.split)
  have quiet: "CHR 0x23 \<notin> set (scheme @ '':'' @ ''//'' @ ?a)" "CHR ''?'' \<notin> set (''//'' @ ?a)"
    "\<not> stringContainsCTLByte (scheme @ '':'' @ ''//'' @ ?a)"
    using sch a by (auto simp: stringContainsCTLByte_def)
  have t: "takeWhile (\<lambda>x. x \<noteq> CHR ''/'') ?a = ?a"
    unfolding takeWhile_eq_all_conv using a(1) by blast
  have au: "parseAuthority ?a = Some ?a" using a by (simp add: parseAuthority_def)
  have q: "\<not> has_suffix ''?'' (''//'' @ ?a)" by (rule has_suffix_notin) (rule quiet)
  have low: "lower_ascii scheme = scheme" using sch by (auto simp: lower_ascii_def)
  have g: "getScheme (scheme @ '':'' @ ''//'' @ ?a) = Some (scheme, ''//'' @ ?a)"
    by (rule scheme_scan_http) (use sch in simp)
  have cuts: "fst (cut_at (CHR ''?'') (''//'' @ ?a)) = ''//'' @ ?a"
    "cut_at (CHR 0x23) (scheme @ '':'' @ ''//'' @ ?a) = (scheme @ '':'' @ ''//'' @ ?a, None)"
    using cut_at_notin [OF quiet(1)] cut_at_notin [OF quiet(2)] by (simp_all only: fst_conv)
  have ne: "scheme \<noteq> []" "scheme @ '':'' @ ''//'' @ ?a \<noteq> ''*''" using sch by auto
  have "parse_url_rest scheme (''//'' @ ?a) = Some \<lparr>Scheme = scheme, Opaque = [], Host = ?a, url_Path = []\<rparr>"
    using ne(1) by (simp add: parse_url_rest_def unescape_def Let_def t au numeral_2_eq_2 del: takeWhile_eq_all_conv)
  then have "parse_url (scheme @ '':'' @ ''//'' @ ?a) = Some \<lparr>Scheme = scheme, Opaque = [], Host = ?a, url_Path = []\<rparr>"
    unfolding parse_url_def using quiet(3) ne(2) g q low cuts(1) by (simp only: if_False option.case prod.case simp_thms)
  then show "url_Parse (origin_of scheme host port) = Some \<lparr>Scheme = scheme, Opaque = [], Host = ?a, url_Path = []\<rparr>"
    unfolding o url_Parse_def cuts(2) by simp
  have h: "plain_host host" using assms by (simp add: web_origin_def)
  have "strip_brackets host = host" using plain_hostD(7) [OF h] by (simp add: strip_brackets_def)
  moreover have "CHR '':'' \<notin> set ds \<and> validOptionalPort ('':'' @ ds)" if "port = Some ds" for ds
    using assms that by (auto simp: web_origin_def validOptionalPort_def list_all_iff is_digit_def)
  ultimately show "Hostname \<lparr>Scheme = scheme, Opaque = [], Host = ?a, url_Path = []\<rparr> = host"
    using last_at_append [of "CHR '':''" _ host] plain_hostD(2) [OF h]
    by (auto simp: Hostname_def authority_of_def split: option.splits)
qed

section \<open>Which origins are let in\<close>

text \<open>
  C30: a web page from an ordinary origin is let in exactly when the daemon is bound to localhost and the page comes
  from localhost or a name below it, or its origin is in the list, or its host lies strictly below a domain the list
  allows with a star: never a host that only ends with the letters of the domain, and never the domain itself.
\<close>

theorem origin_allowed_iff:
  assumes "web_origin scheme host port" "header_Get r ''Origin'' = origin_of scheme host port"
  shows "CheckOrigin oc r \<longleftrightarrow>
    bindLocalhostOnly oc \<and> (host = ''localhost'' \<or> host = ''127.0.0.1'' \<or> (\<exists>l. host = l @ ''.localhost'')) \<or>
    origin_of scheme host port \<in> set (allowedOrigins oc) \<or>
    (\<exists>l domain. ''*.'' @ domain \<in> set (allowedOrigins oc) \<and> host = l @ ''.'' @ domain)"
proof -
  let ?o = "origin_of scheme host port" and ?u = "\<lparr>Scheme = scheme, Opaque = [], Host = authority_of host port, url_Path = []\<rparr>"
  note p = parse_web_origin [OF assms(1)]
  have ne: "?o \<noteq> []" by (simp add: origin_of_def)
  have no6: "host \<noteq> ''::1''" using plain_hostD(2) [of host] assms(1) by (auto simp: web_origin_def)
  have m: "matchOrigin ?o a \<longleftrightarrow> ?o = a \<or> (\<exists>l domain. a = ''*.'' @ domain \<and> host = l @ ''.'' @ domain)" for a
  proof (cases "has_prefix ''*.'' a")
    case True
    then obtain d where d: "a = ''*.'' @ d" by (auto simp: has_prefix_iff)
    then show ?thesis by (auto simp: matchOrigin_def p has_suffix_iff Let_def)
  next
    case False
    then show ?thesis by (auto simp: matchOrigin_def p)
  qed
  have "list_ex (matchOrigin ?o) (allowedOrigins oc) \<longleftrightarrow> ?o \<in> set (allowedOrigins oc) \<or>
      (\<exists>l domain. ''*.'' @ domain \<in> set (allowedOrigins oc) \<and> host = l @ ''.'' @ domain)"
    unfolding list_ex_iff m by blast
  then show ?thesis
    unfolding CheckOrigin_def allowed_origin_def assms(2) using ne no6
    by (auto simp: p isLocalhost_def has_suffix_iff)
qed

definition page_at :: "string \<Rightarrow> http_request" where
  "page_at origin = \<lparr>Method = ''GET'', Path = ''/ws'', RemoteAddr = ''1.2.3.4:5'', Header = [(''Origin'', [origin])], has_TLS = False\<rparr>"

theorem origin_allowed_iff_witness:
  "CheckOrigin \<lparr>allowedOrigins = [''*.example.com''], bindLocalhostOnly = True\<rparr> (page_at ''https://app.example.com:8443'') \<and>
   \<not> CheckOrigin \<lparr>allowedOrigins = [''*.example.com''], bindLocalhostOnly = True\<rparr> (page_at ''https://evilexample.com'')"
proof -
  have "web_origin ''https'' ''app.example.com'' (Some ''8443'')" "web_origin ''https'' ''evilexample.com'' None"
    by code_simp+
  moreover have "header_Get (page_at (origin_of s h p)) ''Origin'' = origin_of s h p" for s h p
    by (simp add: header_Get_def page_at_def)
  ultimately have "CheckOrigin oc (page_at (origin_of ''https'' ''app.example.com'' (Some ''8443''))) \<longleftrightarrow>
      bindLocalhostOnly oc \<and> (\<exists>l. ''app.example.com'' = l @ ''.localhost'') \<or>
      origin_of ''https'' ''app.example.com'' (Some ''8443'') \<in> set (allowedOrigins oc) \<or>
      (\<exists>l domain. ''*.'' @ domain \<in> set (allowedOrigins oc) \<and> ''app.example.com'' = l @ ''.'' @ domain)"
    "CheckOrigin oc (page_at (origin_of ''https'' ''evilexample.com'' None)) \<longleftrightarrow>
      bindLocalhostOnly oc \<and> (\<exists>l. ''evilexample.com'' = l @ ''.localhost'') \<or>
      origin_of ''https'' ''evilexample.com'' None \<in> set (allowedOrigins oc) \<or>
      (\<exists>l domain. ''*.'' @ domain \<in> set (allowedOrigins oc) \<and> ''evilexample.com'' = l @ ''.'' @ domain)" for oc
    using origin_allowed_iff [of "''https''" "''app.example.com''" "Some ''8443''" _ oc]
      origin_allowed_iff [of "''https''" "''evilexample.com''" None _ oc] by simp_all
  moreover have "\<not> has_suffix ''.localhost'' ''evilexample.com''" "\<not> has_suffix ''.example.com'' ''evilexample.com''" by code_simp+
  ultimately show ?thesis
    using append_Cons [of _ _ _] by (auto simp: origin_of_def has_suffix_iff intro: exI [of _ "''app''"])
qed

text \<open>
  Without a checker the unified server lets in a page of another host, by a text that reads as a URL with
  the name and password of a user; the HTTP server does not.
\<close>

lemma unified_origin_by_prefix:
  "unified_checkOrigin None (page_at ''http://localhost:80@evil.com'')"
  "map_option Hostname (url_Parse ''http://localhost:80@evil.com'') = Some ''evil.com''"
  "\<not> isLocalhostOrigin ''http://localhost:80@evil.com''"
  by code_simp+

text \<open>The middleware answers an origin that is not let in, and passes on every other request.\<close>

lemma corsMiddleware_blocks:
  "(\<exists>resp. corsMiddleware (Some oc) r = Cors_forbidden resp) \<longleftrightarrow> \<not> CheckOrigin oc r"
  by (auto simp: corsMiddleware_def CheckOrigin_def allowed_origin_def Let_def)

end
