(* ===== verification/Config.thy ===== *)
theory Config
  imports Go_Url Client_Address Go_Path
begin

text \<open>
  \<open>internal/config/config.go\<close>, \<open>defaults.go\<close> and \<open>validation.go\<close>: the configuration of the daemon, its
  defaults, and what is refused. Reading the file and the environment is the work of a package outside the
  repository: the configuration it delivers, with the defaults of \<open>setDefaults\<close> where nothing is set, is the
  argument of \<open>Load\<close>. The file system is an argument: \<open>stat\<close> tells of a path that it is missing, that it cannot be
  accessed, or whether it is a directory.
\<close>

datatype stat_result = Stat_missing | Stat_error string | Stat_file | Stat_dir

record fs_env =
  stat :: "string \<Rightarrow> stat_result"
  cwd :: "string option"

definition path_Abs :: "fs_env \<Rightarrow> string \<Rightarrow> string option" where
  "path_Abs e p = (if is_abs p then Some (clean p) else map_option (\<lambda>d. path_join [d, p]) (cwd e))"

section \<open>The configuration\<close>

record server_config =
  srv_Port :: int
  srv_Host :: string
  ExternalURL :: string
  Headless :: bool

record watcher_config =
  watch_Enabled :: bool
  DebounceMS :: int
  IgnorePatterns :: "string list"

record claude_config =
  cl_Command :: string
  cl_Args :: "string list"
  TimeoutMinutes :: int
  SkipPermissions :: bool

record git_config =
  git_Enabled :: bool
  git_Command :: string
  DiffOnChange :: bool

record logging_config =
  log_Level :: string
  log_Format :: string

record limits_config =
  MaxFileSizeKB :: int
  MaxDiffSizeKB :: int
  MaxLogBuffer :: int
  MaxPromptLen :: int

record security_config =
  RequireAuth :: bool
  RequirePairingApproval :: bool
  TokenExpirySecs :: int
  CdevAccessToken :: string
  AllowedOrigins :: "string list"
  BindLocalhostOnly :: bool
  RequireSecureTransport :: bool
  TLSCertFile :: string
  TLSKeyFile :: string
  TrustedProxies :: "string list"

record config =
  cfg_Server :: server_config
  repository_Path :: string
  cfg_Watcher :: watcher_config
  cfg_Claude :: claude_config
  cfg_Git :: git_config
  cfg_Logging :: logging_config
  cfg_Limits :: limits_config
  cfg_Security :: security_config

section \<open>Defaults\<close>

definition DefaultSkipDirectories :: "string list" where
  "DefaultSkipDirectories =
     [''.git'', ''.svn'', ''.hg'', ''.cdev'', ''.claude'', ''node_modules'', ''vendor'', ''__pycache__'', ''.pytest_cache'',
      ''.mypy_cache'', ''.tox'', ''.venv'', ''venv'', ''.idea'', ''.vscode'', ''.vs'', ''dist'', ''build'', ''target'', ''coverage'',
      ''.coverage'', ''.nyc_output'', ''.next'', ''.nuxt'', ''.cache'', ''.parcel-cache'', ''.turbo'']"

definition DefaultWatcherIgnorePatterns :: "string list" where
  "DefaultWatcherIgnorePatterns =
     [''.git'', ''.cdev'', ''.claude'', ''node_modules'', ''.venv'', ''venv'', ''__pycache__'', ''*.pyc'', ''.DS_Store'', ''Thumbs.db'',
      ''dist'', ''build'', ''coverage'', ''.next'', ''.nuxt'', ''*.log'', ''.idea'', ''.vscode'', ''*.swp'', ''*.swo'', ''*~'']"

definition SkipDirectoriesSet :: "string list \<Rightarrow> string list" where
  "SkipDirectoriesSet customDirs = remdups (if length customDirs > 0 then customDirs else DefaultSkipDirectories)"

definition default_config :: config where
  "default_config =
     \<lparr>cfg_Server = \<lparr>srv_Port = 16180, srv_Host = ''127.0.0.1'', ExternalURL = [], Headless = False\<rparr>,
      repository_Path = [],
      cfg_Watcher = \<lparr>watch_Enabled = True, DebounceMS = 100, IgnorePatterns = DefaultWatcherIgnorePatterns\<rparr>,
      cfg_Claude = \<lparr>cl_Command = ''claude'', cl_Args = [''-p'', ''--verbose'', ''--output-format'', ''stream-json''],
        TimeoutMinutes = 30, SkipPermissions = False\<rparr>,
      cfg_Git = \<lparr>git_Enabled = True, git_Command = ''git'', DiffOnChange = True\<rparr>,
      cfg_Logging = \<lparr>log_Level = ''info'', log_Format = ''console''\<rparr>,
      cfg_Limits = \<lparr>MaxFileSizeKB = 200, MaxDiffSizeKB = 500, MaxLogBuffer = 1000, MaxPromptLen = 10000\<rparr>,
      cfg_Security = \<lparr>RequireAuth = True, RequirePairingApproval = True, TokenExpirySecs = 3600, CdevAccessToken = [],
        AllowedOrigins = [], BindLocalhostOnly = True, RequireSecureTransport = True, TLSCertFile = [], TLSKeyFile = [],
        TrustedProxies = []\<rparr>\<rparr>"

section \<open>Validation\<close>

text \<open>\<open>None\<close>: no error.\<close>

definition orelse :: "string option \<Rightarrow> string option \<Rightarrow> string option" where
  "orelse a b = (case a of None \<Rightarrow> b | Some e \<Rightarrow> Some e)"

definition check :: "bool \<Rightarrow> string \<Rightarrow> string option" where
  "check bad msg = (if bad then Some msg else None)"

definition validateExistingFile :: "fs_env \<Rightarrow> string \<Rightarrow> string \<Rightarrow> string option" where
  "validateExistingFile e path fieldName =
     (case stat e path of
        Stat_missing \<Rightarrow> Some (fieldName @ '' does not exist: '' @ path)
      | Stat_error err \<Rightarrow> Some (''unable to access '' @ fieldName @ '' ('' @ path @ ''): '' @ err)
      | Stat_dir \<Rightarrow> Some (fieldName @ '' must be a file, not a directory: '' @ path)
      | Stat_file \<Rightarrow> None)"

text \<open>Schemes are compared without regard to case; those of a URL are in small letters already.\<close>

definition validateExternalURL :: "string \<Rightarrow> string \<Rightarrow> string list \<Rightarrow> string option" where
  "validateExternalURL rawURL fieldName allowedSchemes =
     (case url_Parse rawURL of
        None \<Rightarrow> Some (fieldName @ '' is not a valid URL'')
      | Some u \<Rightarrow>
          if Host u = [] then Some (fieldName @ '' must include a host'')
          else if Scheme u \<notin> set allowedSchemes
          then Some (fieldName @ '' must use one of these schemes: '' @ join '', '' allowedSchemes)
          else None)"

fun validateTrustedProxies :: "string list \<Rightarrow> string option" where
  "validateTrustedProxies [] = None"
| "validateTrustedProxies (proxy # proxies) =
     (let trimmed = trim_space proxy
      in if trimmed = [] then Some ''security.trusted_proxies contains an empty value''
         else if ParseIP trimmed \<noteq> None then validateTrustedProxies proxies
         else if ParseCIDR trimmed = None then Some (''security.trusted_proxies has invalid CIDR/IP value: '' @ trimmed)
         else validateTrustedProxies proxies)"

definition validateServer :: "server_config \<Rightarrow> string option" where
  "validateServer cfg =
     (if srv_Port cfg < 1 \<or> srv_Port cfg > 65535 then Some ''server.port must be between 1 and 65535''
      else if srv_Host cfg = [] then Some ''server.host cannot be empty''
      else if ExternalURL cfg \<noteq> [] then validateExternalURL (ExternalURL cfg) ''server.external_url'' [''http'', ''https'']
      else None)"

definition validateTLSFiles :: "fs_env \<Rightarrow> security_config \<Rightarrow> string option" where
  "validateTLSFiles e cfg =
     (if TLSCertFile cfg \<noteq> [] \<or> TLSKeyFile cfg \<noteq> [] then
        (if TLSCertFile cfg = [] \<or> TLSKeyFile cfg = []
         then Some ''security.tls_cert_file and security.tls_key_file must both be set''
         else orelse (validateExistingFile e (TLSCertFile cfg) ''security.tls_cert_file'')
                (validateExistingFile e (TLSKeyFile cfg) ''security.tls_key_file''))
      else None)"

definition validateTransport :: "security_config \<Rightarrow> server_config \<Rightarrow> string option" where
  "validateTransport cfg serverCfg =
     (if RequireSecureTransport cfg \<and> \<not> BindLocalhostOnly cfg \<and> (TLSCertFile cfg = [] \<or> TLSKeyFile cfg = []) then
        (if ExternalURL serverCfg = []
         then Some ''security.require_secure_transport is true and security.bind_localhost_only is false; configure security.tls_cert_file and security.tls_key_file, or set server.external_url to an https URL''
         else validateExternalURL (ExternalURL serverCfg) ''server.external_url'' [''https''])
      else None)"

definition validateSecurity :: "fs_env \<Rightarrow> security_config \<Rightarrow> server_config \<Rightarrow> string option" where
  "validateSecurity e cfg serverCfg =
     orelse (validateTLSFiles e cfg)
       (orelse (validateTransport cfg serverCfg) (validateTrustedProxies (TrustedProxies cfg)))"

definition validateRepository :: "fs_env \<Rightarrow> string \<Rightarrow> string option" where
  "validateRepository e path =
     (if path = [] then None
      else case stat e path of
        Stat_missing \<Rightarrow> Some (''repository.path does not exist: '' @ path)
      | Stat_error err \<Rightarrow> Some (''error accessing repository.path: '' @ err)
      | Stat_file \<Rightarrow> Some (''repository.path is not a directory: '' @ path)
      | Stat_dir \<Rightarrow> None)"

definition validateWatcher :: "watcher_config \<Rightarrow> string option" where
  "validateWatcher cfg =
     (if DebounceMS cfg < 0 then Some ''watcher.debounce_ms cannot be negative''
      else check (DebounceMS cfg > 10000) ''watcher.debounce_ms cannot exceed 10000ms'')"

definition validateClaude :: "claude_config \<Rightarrow> string option" where
  "validateClaude cfg =
     (if cl_Command cfg = [] then Some ''claude.command cannot be empty''
      else if TimeoutMinutes cfg < 1 then Some ''claude.timeout_minutes must be at least 1''
      else check (TimeoutMinutes cfg > 120) ''claude.timeout_minutes cannot exceed 120'')"

definition validateLimits :: "limits_config \<Rightarrow> string option" where
  "validateLimits cfg =
     (if MaxFileSizeKB cfg < 1 then Some ''limits.max_file_size_kb must be at least 1''
      else if MaxFileSizeKB cfg > 10240 then Some ''limits.max_file_size_kb cannot exceed 10240 (10MB)''
      else if MaxDiffSizeKB cfg < 1 then Some ''limits.max_diff_size_kb must be at least 1''
      else if MaxLogBuffer cfg < 100 then Some ''limits.max_log_buffer must be at least 100''
      else check (MaxPromptLen cfg < 100) ''limits.max_prompt_len must be at least 100'')"

definition Validate :: "fs_env \<Rightarrow> config \<Rightarrow> string option" where
  "Validate e cfg =
     orelse (validateServer (cfg_Server cfg))
       (orelse (validateSecurity e (cfg_Security cfg) (cfg_Server cfg))
         (orelse (validateRepository e (repository_Path cfg))
           (orelse (validateWatcher (cfg_Watcher cfg))
             (orelse (validateClaude (cfg_Claude cfg)) (validateLimits (cfg_Limits cfg))))))"

section \<open>Loading\<close>

definition mergeClaudeArgs :: "string list \<Rightarrow> string list \<Rightarrow> string list" where
  "mergeClaudeArgs baseArgs userArgs = baseArgs @ filter (\<lambda>a. a \<notin> set baseArgs) userArgs"

definition baseArgs :: "string list" where
  "baseArgs = [''-p'', ''--verbose'', ''--output-format'', ''stream-json'']"

definition postProcess :: "fs_env \<Rightarrow> config \<Rightarrow> string + config" where
  "postProcess e cfg =
     (let finish = (\<lambda>c. Inr (c\<lparr>cfg_Claude := (cfg_Claude c)\<lparr>cl_Args := mergeClaudeArgs baseArgs (cl_Args (cfg_Claude c))\<rparr>\<rparr>))
      in if repository_Path cfg \<noteq> [] then
           (case path_Abs e (repository_Path cfg) of
              None \<Rightarrow> Inl ''failed to resolve repository path''
            | Some p \<Rightarrow> finish (cfg\<lparr>repository_Path := p\<rparr>))
         else finish cfg)"

text \<open>Which of the settings of the port counts; \<open>None\<close>: the one under its present name, or the default.\<close>

definition applyLegacyServerPortMapping :: "bool \<Rightarrow> bool \<Rightarrow> bool \<Rightarrow> bool \<Rightarrow> int \<Rightarrow> int option" where
  "applyLegacyServerPortMapping portEnv httpPortEnv portCfg httpPortCfg httpPort =
     (if portEnv then None
      else if httpPortEnv then Some httpPort
      else if portCfg then None
      else if httpPortCfg then Some httpPort
      else None)"

definition applyLegacySecurityAccessTokenMapping :: "string option \<Rightarrow> config \<Rightarrow> config" where
  "applyLegacySecurityAccessTokenMapping env cfg =
     (let token = trim_space (case env of None \<Rightarrow> [] | Some t \<Rightarrow> t)
      in if token \<noteq> [] then cfg\<lparr>cfg_Security := (cfg_Security cfg)\<lparr>CdevAccessToken := token\<rparr>\<rparr> else cfg)"

definition Load :: "fs_env \<Rightarrow> string + config \<Rightarrow> string + config" where
  "Load e delivered =
     (case delivered of
        Inl err \<Rightarrow> Inl err
      | Inr cfg0 \<Rightarrow>
          (case postProcess e cfg0 of
             Inl err \<Rightarrow> Inl err
           | Inr cfg \<Rightarrow> (case Validate e cfg of None \<Rightarrow> Inr cfg | Some err \<Rightarrow> Inl err)))"

definition GetConfigDir :: "string option \<Rightarrow> string option" where
  "GetConfigDir home = map_option (\<lambda>h. path_join [h, ''.cdev'']) home"

definition config_file_path :: "string option \<Rightarrow> string \<Rightarrow> string" where
  "config_file_path home name =
     (case GetConfigDir home of
        None \<Rightarrow> path_join [[], ''.cdev'', name]
      | Some d \<Rightarrow> path_join [d, name])"

definition DefaultWorkspacesPath :: "string option \<Rightarrow> string" where
  "DefaultWorkspacesPath home = config_file_path home ''workspaces.yaml''"

definition DefaultAuthRegistryPath :: "string option \<Rightarrow> string" where
  "DefaultAuthRegistryPath home = config_file_path home ''auth_registry.json''"

section \<open>What a loaded configuration gives\<close>

lemma orelse_None [simp]: "orelse a b = None \<longleftrightarrow> a = None \<and> b = None"
  by (simp add: orelse_def split: option.split)

lemma check_None [simp]: "check bad msg = None \<longleftrightarrow> \<not> bad"
  by (simp add: check_def)

lemma default_config_valid: "Validate e default_config = None"
  by (simp add: Validate_def default_config_def validateServer_def validateSecurity_def validateTLSFiles_def
      validateTransport_def validateRepository_def validateWatcher_def validateClaude_def validateLimits_def)

lemma ParseCIDR_not_nil: "map_sum id f x = Inl a \<longleftrightarrow> x = Inl a"
  by (cases x) auto

text \<open>Proxies that pass the validation are understood by the server, one range for each.\<close>

lemma validated_proxies_parse:
  "validateTrustedProxies ps = None \<Longrightarrow> \<exists>ns. ParseTrustedProxies ps = Inr ns \<and> length ns = length ps"
proof (induction ps)
  case Nil
  then show ?case by simp
next
  case (Cons p ps)
  let ?t = "trim_space p"
  have t: "?t \<noteq> []" and rest: "validateTrustedProxies ps = None" and ok: "ParseIP ?t \<noteq> None \<or> ParseCIDR ?t \<noteq> None"
    using Cons.prems by (auto simp: Let_def split: if_splits)
  obtain ns where "ParseTrustedProxies ps = Inr ns" "length ns = length ps" using Cons.IH [OF rest] by blast
  then show ?case using t ok by (auto simp: Let_def split: option.split)
qed

definition fits_http :: "string \<Rightarrow> bool" where
  "fits_http raw \<longleftrightarrow> (\<exists>u. url_Parse raw = Some u \<and> Host u \<noteq> [] \<and> Scheme u \<in> {''http'', ''https''})"

definition fits_https :: "string \<Rightarrow> bool" where
  "fits_https raw \<longleftrightarrow> (\<exists>u. url_Parse raw = Some u \<and> Host u \<noteq> [] \<and> Scheme u = ''https'')"

lemma validateExternalURL_None:
  "validateExternalURL raw f schemes = None \<longleftrightarrow> (\<exists>u. url_Parse raw = Some u \<and> Host u \<noteq> [] \<and> Scheme u \<in> set schemes)"
  by (auto simp: validateExternalURL_def split: option.split)

lemma validateExistingFile_None: "validateExistingFile e p f = None \<longleftrightarrow> stat e p = Stat_file"
  by (simp add: validateExistingFile_def split: stat_result.split)

text \<open>
  C35: a configuration that loads keeps to every bound that is checked: the port and the host of the server, the
  debouncing of the watcher, the command, arguments and timeout of Claude, the five limits; its external
  address is an http or https URL with a host, its repository a directory; TLS files are given both or not at
  all and are files; a daemon that must be reached securely and not only from the machine has both or is
  known under an https URL; and every trusted proxy is understood by the server.
\<close>

theorem loaded_config_safe:
  assumes "Load e delivered = Inr cfg"
  shows "1 \<le> srv_Port (cfg_Server cfg) \<and> srv_Port (cfg_Server cfg) \<le> 65535 \<and> srv_Host (cfg_Server cfg) \<noteq> [] \<and>
    (ExternalURL (cfg_Server cfg) \<noteq> [] \<longrightarrow> fits_http (ExternalURL (cfg_Server cfg))) \<and>
    (TLSCertFile (cfg_Security cfg) \<noteq> [] \<or> TLSKeyFile (cfg_Security cfg) \<noteq> [] \<longrightarrow>
      stat e (TLSCertFile (cfg_Security cfg)) = Stat_file \<and> stat e (TLSKeyFile (cfg_Security cfg)) = Stat_file) \<and>
    (RequireSecureTransport (cfg_Security cfg) \<and> \<not> BindLocalhostOnly (cfg_Security cfg) \<longrightarrow>
      stat e (TLSCertFile (cfg_Security cfg)) = Stat_file \<and> stat e (TLSKeyFile (cfg_Security cfg)) = Stat_file \<or>
      fits_https (ExternalURL (cfg_Server cfg))) \<and>
    (\<exists>ns. ParseTrustedProxies (TrustedProxies (cfg_Security cfg)) = Inr ns \<and> length ns = length (TrustedProxies (cfg_Security cfg))) \<and>
    (repository_Path cfg \<noteq> [] \<longrightarrow> stat e (repository_Path cfg) = Stat_dir) \<and>
    0 \<le> DebounceMS (cfg_Watcher cfg) \<and> DebounceMS (cfg_Watcher cfg) \<le> 10000 \<and>
    cl_Command (cfg_Claude cfg) \<noteq> [] \<and> set baseArgs \<subseteq> set (cl_Args (cfg_Claude cfg)) \<and>
    1 \<le> TimeoutMinutes (cfg_Claude cfg) \<and> TimeoutMinutes (cfg_Claude cfg) \<le> 120 \<and>
    1 \<le> MaxFileSizeKB (cfg_Limits cfg) \<and> MaxFileSizeKB (cfg_Limits cfg) \<le> 10240 \<and> 1 \<le> MaxDiffSizeKB (cfg_Limits cfg) \<and>
    100 \<le> MaxLogBuffer (cfg_Limits cfg) \<and> 100 \<le> MaxPromptLen (cfg_Limits cfg)"
proof -
  obtain cfg0 where d: "delivered = Inr cfg0" and post: "postProcess e cfg0 = Inr cfg" and v: "Validate e cfg = None"
    using assms by (auto simp: Load_def split: sum.splits option.splits)
  have parts: "validateServer (cfg_Server cfg) = None" "validateTLSFiles e (cfg_Security cfg) = None"
    "validateTransport (cfg_Security cfg) (cfg_Server cfg) = None" "validateTrustedProxies (TrustedProxies (cfg_Security cfg)) = None"
    "validateRepository e (repository_Path cfg) = None" "validateWatcher (cfg_Watcher cfg) = None"
    "validateClaude (cfg_Claude cfg) = None" "validateLimits (cfg_Limits cfg) = None"
    using v by (simp_all add: Validate_def validateSecurity_def)
  have server: "1 \<le> srv_Port (cfg_Server cfg)" "srv_Port (cfg_Server cfg) \<le> 65535" "srv_Host (cfg_Server cfg) \<noteq> []"
    "ExternalURL (cfg_Server cfg) \<noteq> [] \<longrightarrow> fits_http (ExternalURL (cfg_Server cfg))"
    using parts(1) by (auto simp: validateServer_def validateExternalURL_None fits_http_def split: if_splits)
  have files: "TLSCertFile (cfg_Security cfg) \<noteq> [] \<or> TLSKeyFile (cfg_Security cfg) \<noteq> [] \<longrightarrow>
      stat e (TLSCertFile (cfg_Security cfg)) = Stat_file \<and> stat e (TLSKeyFile (cfg_Security cfg)) = Stat_file"
    using parts(2) by (auto simp: validateTLSFiles_def validateExistingFile_None split: if_splits)
  have tls: "RequireSecureTransport (cfg_Security cfg) \<and> \<not> BindLocalhostOnly (cfg_Security cfg) \<longrightarrow>
      stat e (TLSCertFile (cfg_Security cfg)) = Stat_file \<and> stat e (TLSKeyFile (cfg_Security cfg)) = Stat_file \<or>
      fits_https (ExternalURL (cfg_Server cfg))"
    using parts(3) files
    by (auto simp: validateTransport_def validateExternalURL_None fits_https_def split: if_splits)
  have repo: "repository_Path cfg \<noteq> [] \<longrightarrow> stat e (repository_Path cfg) = Stat_dir"
    using parts(5) by (auto simp: validateRepository_def split: if_splits stat_result.splits)
  have watcher: "0 \<le> DebounceMS (cfg_Watcher cfg)" "DebounceMS (cfg_Watcher cfg) \<le> 10000"
    using parts(6) by (auto simp: validateWatcher_def check_def split: if_splits)
  have claude: "cl_Command (cfg_Claude cfg) \<noteq> []" "1 \<le> TimeoutMinutes (cfg_Claude cfg)" "TimeoutMinutes (cfg_Claude cfg) \<le> 120"
    using parts(7) by (auto simp: validateClaude_def check_def split: if_splits)
  have limits: "1 \<le> MaxFileSizeKB (cfg_Limits cfg)" "MaxFileSizeKB (cfg_Limits cfg) \<le> 10240" "1 \<le> MaxDiffSizeKB (cfg_Limits cfg)"
    "100 \<le> MaxLogBuffer (cfg_Limits cfg)" "100 \<le> MaxPromptLen (cfg_Limits cfg)"
    using parts(8) by (auto simp: validateLimits_def check_def split: if_splits)
  have "set baseArgs \<subseteq> set (cl_Args (cfg_Claude cfg))"
    using post by (auto simp: postProcess_def mergeClaudeArgs_def Let_def split: if_splits option.splits)
  then show ?thesis using server files tls repo watcher claude limits validated_proxies_parse [OF parts(4)] by blast
qed

definition demo_fs :: fs_env where
  "demo_fs = \<lparr>stat = (\<lambda>p. if p = ''/srv'' then Stat_dir else Stat_missing), cwd = Some ''/''\<rparr>"

definition demo_config :: config where
  "demo_config = default_config\<lparr>repository_Path := ''srv'',
     cfg_Server := (cfg_Server default_config)\<lparr>ExternalURL := ''https://a.example''\<rparr>,
     cfg_Security := (cfg_Security default_config)\<lparr>BindLocalhostOnly := False, TrustedProxies := [''10.0.0.0/8'']\<rparr>\<rparr>"

theorem loaded_config_safe_witness:
  "\<exists>cfg. Load demo_fs (Inr demo_config) = Inr cfg \<and> repository_Path cfg = ''/srv'' \<and> fits_https (ExternalURL (cfg_Server cfg)) \<and>
     set baseArgs \<subseteq> set (cl_Args (cfg_Claude cfg))"
proof -
  let ?c = "demo_config\<lparr>repository_Path := ''/srv''\<rparr>"
  have "Load demo_fs (Inr demo_config) = Inr ?c" by code_simp
  from loaded_config_safe [OF this]
  have "fits_https (ExternalURL (cfg_Server ?c)) \<and> set baseArgs \<subseteq> set (cl_Args (cfg_Claude ?c))"
    by (simp add: demo_config_def default_config_def demo_fs_def)
  with \<open>Load demo_fs (Inr demo_config) = Inr ?c\<close> show ?thesis by (intro exI [of _ ?c]) simp
qed

text \<open>
  A flag the user repeats is dropped, but not the value he gave it, which is left as an argument of its own.
\<close>

lemma repeated_flag_leaves_value:
  "mergeClaudeArgs baseArgs [''--output-format'', ''text''] = baseArgs @ [''text'']"
  by (simp add: mergeClaudeArgs_def baseArgs_def)

end
