(* ===== verification/Git_Tracker_Manager.thy ===== *)
theory Git_Tracker_Manager
  imports Config
begin

text \<open>
  \<open>internal/workspace/git_tracker_manager.go\<close>: one git tracker per workspace, made when it is first asked for
  and checked from time to time. A tracker is known by the path it was made for. What git and the file
  system say is an argument: \<open>repo\<close> gives the name of the repository at a path, if there is one, and \<open>status\<close> the
  error of a run of git there.
\<close>

section \<open>The trackers\<close>

datatype tracker_state = Healthy | Unhealthy | Unavailable | NotGit

record tracker_info =
  ti_Workspace :: string
  ti_Path :: string
  State :: tracker_state
  IsGitRepo :: bool
  RepoName :: string
  LastChecked :: time
  LastError :: string

record cached_tracker =
  tracker :: "string option"
  info :: tracker_info
  ct_lastUsed :: time
  initError :: "string option"
  initialized :: bool

type_synonym trackers = "(string, cached_tracker) gomap"

record git_env =
  repo :: "string \<Rightarrow> string option"
  status :: "string \<Rightarrow> string option"

definition new_tracker :: "time \<Rightarrow> string \<Rightarrow> string \<Rightarrow> cached_tracker" where
  "new_tracker now wid path =
     \<lparr>tracker = None,
      info = \<lparr>ti_Workspace = wid, ti_Path = path, State = Unavailable, IsGitRepo = False, RepoName = [], LastChecked = now,
        LastError = []\<rparr>,
      ct_lastUsed = now, initError = None, initialized = False\<rparr>"

definition RegisterWorkspace :: "fs_env \<Rightarrow> time \<Rightarrow> string \<Rightarrow> string \<Rightarrow> trackers \<Rightarrow> string option \<times> trackers" where
  "RegisterWorkspace e now wid path m =
     (case stat e path of
        Stat_missing \<Rightarrow> (Some (''path does not exist: '' @ path), m)
      | Stat_error err \<Rightarrow> (Some (''failed to access path: '' @ err), m)
      | Stat_file \<Rightarrow> (Some (''path is not a directory: '' @ path), m)
      | Stat_dir \<Rightarrow>
          (case mget m wid of
             Some ct \<Rightarrow> if ti_Path (info ct) \<noteq> path then (None, mput wid (new_tracker now wid path) (mdel wid m)) else (None, m)
           | None \<Rightarrow> (None, mput wid (new_tracker now wid path) m)))"

definition UnregisterWorkspace :: "string \<Rightarrow> trackers \<Rightarrow> trackers" where
  "UnregisterWorkspace wid m = (if mem_key wid m then mdel wid m else m)"

definition init_fails :: "tracker_state \<Rightarrow> string \<Rightarrow> cached_tracker \<Rightarrow> cached_tracker" where
  "init_fails st msg ct = ct\<lparr>initError := Some msg, info := (info ct)\<lparr>State := st, LastError := msg\<rparr>\<rparr>"

definition initializeTracker :: "fs_env \<Rightarrow> git_env \<Rightarrow> time \<Rightarrow> cached_tracker \<Rightarrow> cached_tracker" where
  "initializeTracker e g now ct0 =
     (let ct = ct0\<lparr>initialized := True, info := (info ct0)\<lparr>LastChecked := now\<rparr>\<rparr>; path = ti_Path (info ct0)
      in case stat e path of
        Stat_missing \<Rightarrow> init_fails Unavailable (''workspace path no longer exists: '' @ path) ct
      | Stat_error err \<Rightarrow> init_fails Unhealthy (''failed to access workspace path: '' @ err) ct
      | Stat_file \<Rightarrow> init_fails Unhealthy (''workspace path is not a directory: '' @ path) ct
      | Stat_dir \<Rightarrow>
          (case repo g path of
             None \<Rightarrow> ct\<lparr>info := (info ct)\<lparr>IsGitRepo := False, State := NotGit, LastError := []\<rparr>, tracker := None\<rparr>
           | Some name \<Rightarrow>
               ct\<lparr>tracker := Some path, initError := None,
                  info := (info ct)\<lparr>IsGitRepo := True, RepoName := name, State := Healthy, LastError := []\<rparr>\<rparr>))"

text \<open>The tracker, none for a directory that is no repository, or an error.\<close>

definition GetTracker :: "fs_env \<Rightarrow> git_env \<Rightarrow> time \<Rightarrow> string \<Rightarrow> trackers \<Rightarrow> (string + string option) \<times> trackers" where
  "GetTracker e g now wid m =
     (case mget m wid of
        None \<Rightarrow> (Inl (''workspace not registered: '' @ wid), m)
      | Some ct0 \<Rightarrow>
          (let ct = (if initialized ct0 then ct0 else initializeTracker e g now ct0)\<lparr>ct_lastUsed := now\<rparr>; m' = mput wid ct m
           in case initError ct of
                Some err \<Rightarrow> (Inl err, m')
              | None \<Rightarrow> if \<not> IsGitRepo (info ct) then (Inr None, m') else (Inr (tracker ct), m')))"

definition GetTrackerInfo :: "fs_env \<Rightarrow> git_env \<Rightarrow> time \<Rightarrow> string \<Rightarrow> trackers \<Rightarrow> (string + tracker_info) \<times> trackers" where
  "GetTrackerInfo e g now wid m =
     (case mget m wid of
        None \<Rightarrow> (Inl (''workspace not registered: '' @ wid), m)
      | Some ct0 \<Rightarrow>
          (let ct = (if initialized ct0 then ct0 else initializeTracker e g now ct0) in (Inr (info ct), mput wid ct m)))"

definition GetAllTrackerInfo :: "string list \<Rightarrow> trackers \<Rightarrow> tracker_info list" where
  "GetAllTrackerInfo order m = map (\<lambda>(_, ct). info ct) (range_entries order m)"

definition RefreshTracker :: "fs_env \<Rightarrow> git_env \<Rightarrow> time \<Rightarrow> string \<Rightarrow> trackers \<Rightarrow> string option \<times> trackers" where
  "RefreshTracker e g now wid m =
     (case mget m wid of
        None \<Rightarrow> (Some (''workspace not registered: '' @ wid), m)
      | Some ct0 \<Rightarrow>
          (let ct = initializeTracker e g now (ct0\<lparr>initialized := False, initError := None, tracker := None\<rparr>)
           in (initError ct, mput wid ct m)))"

definition check_health :: "fs_env \<Rightarrow> git_env \<Rightarrow> time \<Rightarrow> cached_tracker \<Rightarrow> cached_tracker" where
  "check_health e g now ct =
     (let set = (\<lambda>st msg. ct\<lparr>info := (info ct)\<lparr>State := st, LastError := msg, LastChecked := now\<rparr>\<rparr>)
      in if \<not> initialized ct then ct
         else case stat e (ti_Path (info ct)) of
           Stat_missing \<Rightarrow> set Unavailable ''path no longer exists''
         | Stat_error err \<Rightarrow> set Unhealthy err
         | _ \<Rightarrow>
             if IsGitRepo (info ct) \<and> tracker ct \<noteq> None then
               (case status g (ti_Path (info ct)) of Some err \<Rightarrow> set Unhealthy err | None \<Rightarrow> set Healthy [])
             else ct)"

definition checkTrackerHealth :: "fs_env \<Rightarrow> git_env \<Rightarrow> time \<Rightarrow> string \<Rightarrow> trackers \<Rightarrow> trackers" where
  "checkTrackerHealth e g now wid m =
     (case mget m wid of None \<Rightarrow> m | Some ct \<Rightarrow> mput wid (check_health e g now ct) m)"

definition checkAllTrackers :: "fs_env \<Rightarrow> git_env \<Rightarrow> time \<Rightarrow> string list \<Rightarrow> trackers \<Rightarrow> trackers" where
  "checkAllTrackers e g now order m = fold (checkTrackerHealth e g now) order m"

definition Stop_trackers :: "trackers \<Rightarrow> trackers" where
  "Stop_trackers m = []"

record tracker_stats =
  total :: int
  healthy :: int
  unhealthy :: int
  unavailable :: int
  not_git :: int
  uninitialized :: int

definition count_if :: "('a \<Rightarrow> bool) \<Rightarrow> 'a list \<Rightarrow> int" where
  "count_if p xs = int (length (filter p xs))"

definition Stats :: "trackers \<Rightarrow> tracker_stats" where
  "Stats m =
     (let cts = map snd m; in_state = (\<lambda>st. count_if (\<lambda>ct. initialized ct \<and> State (info ct) = st) cts)
      in \<lparr>total = int (length m), healthy = in_state Healthy, unhealthy = in_state Unhealthy,
          unavailable = in_state Unavailable, not_git = in_state NotGit,
          uninitialized = count_if (\<lambda>ct. \<not> initialized ct) cts\<rparr>)"

section \<open>What holds of every tracker\<close>

text \<open>
  A tracker is filed under its workspace; one that can be handed out belongs to a repository and to the path that is
  registered, and a failed start leaves none.
\<close>

definition ct_ok :: "string \<Rightarrow> cached_tracker \<Rightarrow> bool" where
  "ct_ok wid ct \<longleftrightarrow>
     ti_Workspace (info ct) = wid \<and>
     tracker ct = (if initialized ct \<and> initError ct = None \<and> IsGitRepo (info ct) then Some (ti_Path (info ct)) else None) \<and>
     (\<not> initialized ct \<longrightarrow> initError ct = None)"

definition trackers_ok :: "trackers \<Rightarrow> bool" where
  "trackers_ok m \<longleftrightarrow> wf_map m \<and> (\<forall>wid ct. mget m wid = Some ct \<longrightarrow> ct_ok wid ct)"

datatype tracker_op =
    Op_register string string
  | Op_unregister string
  | Op_get string
  | Op_info string
  | Op_refresh string
  | Op_health "string list"
  | Op_stop

fun tracker_step :: "fs_env \<Rightarrow> git_env \<Rightarrow> time \<Rightarrow> tracker_op \<Rightarrow> trackers \<Rightarrow> trackers" where
  "tracker_step e g now (Op_register wid path) m = snd (RegisterWorkspace e now wid path m)"
| "tracker_step e g now (Op_unregister wid) m = UnregisterWorkspace wid m"
| "tracker_step e g now (Op_get wid) m = snd (GetTracker e g now wid m)"
| "tracker_step e g now (Op_info wid) m = snd (GetTrackerInfo e g now wid m)"
| "tracker_step e g now (Op_refresh wid) m = snd (RefreshTracker e g now wid m)"
| "tracker_step e g now (Op_health order) m = checkAllTrackers e g now order m"
| "tracker_step e g now Op_stop m = Stop_trackers m"

text \<open>The file system and git may change between two steps.\<close>

fun tracker_run :: "(fs_env \<times> git_env \<times> time \<times> tracker_op) list \<Rightarrow> trackers \<Rightarrow> trackers" where
  "tracker_run [] m = m"
| "tracker_run ((e, g, now, op) # ops) m = tracker_run ops (tracker_step e g now op m)"

lemma trackers_ok_put [invs]: "trackers_ok m \<Longrightarrow> ct_ok wid ct \<Longrightarrow> trackers_ok (mput wid ct m)"
  by (simp add: trackers_ok_def)

lemma trackers_ok_del [invs]: "trackers_ok m \<Longrightarrow> trackers_ok (mdel wid m)"
  by (simp add: trackers_ok_def)

lemma ct_ok_new [invs]: "ct_ok wid (new_tracker now wid path)"
  by (simp add: ct_ok_def new_tracker_def)

lemma initialize_simps:
  "ti_Workspace (info (initializeTracker e g now ct)) = ti_Workspace (info ct)"
  "ti_Path (info (initializeTracker e g now ct)) = ti_Path (info ct)"
  "initialized (initializeTracker e g now ct)"
  by (simp_all add: initializeTracker_def init_fails_def Let_def split: stat_result.split option.split)

lemma ct_ok_init:
  assumes "ti_Workspace (info ct) = wid" "tracker ct = None" "initError ct = None"
  shows "ct_ok wid (initializeTracker e g now ct)"
proof -
  have "tracker (initializeTracker e g now ct) =
      (if initError (initializeTracker e g now ct) = None \<and> IsGitRepo (info (initializeTracker e g now ct))
       then Some (ti_Path (info ct)) else None)"
    using assms(2,3) by (cases "stat e (ti_Path (info ct))"; cases "repo g (ti_Path (info ct))")
      (simp_all add: initializeTracker_def init_fails_def Let_def)
  then show ?thesis using assms(1) by (simp add: ct_ok_def initialize_simps)
qed

lemma ct_ok_used [invs]: "ct_ok wid ct \<Longrightarrow> ct_ok wid (ct\<lparr>ct_lastUsed := now\<rparr>)"
  by (simp add: ct_ok_def)

lemma ct_ok_started [invs]: "ct_ok wid ct \<Longrightarrow> ct_ok wid (if initialized ct then ct else initializeTracker e g now ct)"
  using ct_ok_init [of ct wid e g now] by (cases "initialized ct") (simp_all add: ct_ok_def)

lemma ct_ok_health [invs]: "ct_ok wid ct \<Longrightarrow> ct_ok wid (check_health e g now ct)"
  by (cases "stat e (ti_Path (info ct))"; cases "status g (ti_Path (info ct))") (simp_all add: ct_ok_def check_health_def Let_def)

lemma snd_GetTracker:
  "snd (GetTracker e g now wid m) =
     (case mget m wid of None \<Rightarrow> m
      | Some ct \<Rightarrow> mput wid ((if initialized ct then ct else initializeTracker e g now ct)\<lparr>ct_lastUsed := now\<rparr>) m)"
  unfolding GetTracker_def Let_def by (simp split: option.split del: if_split)

lemma trackers_okD: "trackers_ok m \<Longrightarrow> mget m wid = Some ct \<Longrightarrow> ct_ok wid ct"
  by (simp add: trackers_ok_def)

lemma trackers_ok_health [invs]: "trackers_ok m \<Longrightarrow> trackers_ok (checkTrackerHealth e g now wid m)"
  by (simp add: checkTrackerHealth_def trackers_ok_put ct_ok_health trackers_okD split: option.split)

lemma tracker_step_ok: "trackers_ok m \<Longrightarrow> trackers_ok (tracker_step e g now op m)"
proof (cases op)
  case (Op_register wid path)
  assume "trackers_ok m"
  then show ?thesis
    by (simp add: Op_register RegisterWorkspace_def trackers_ok_put trackers_ok_del ct_ok_new split: stat_result.split option.split)
next
  case (Op_unregister wid)
  assume "trackers_ok m"
  then show ?thesis by (simp add: Op_unregister UnregisterWorkspace_def trackers_ok_del)
next
  case (Op_get wid)
  assume ok: "trackers_ok m"
  have "trackers_ok (mput wid ((if initialized ct then ct else initializeTracker e g now ct)\<lparr>ct_lastUsed := now\<rparr>) m)"
    if "mget m wid = Some ct" for ct
    by (intro trackers_ok_put [OF ok] ct_ok_used ct_ok_started trackers_okD [OF ok that])
  then show ?thesis using ok by (simp add: Op_get snd_GetTracker split: option.split)
next
  case (Op_info wid)
  assume ok: "trackers_ok m"
  show ?thesis
  proof (cases "mget m wid")
    case None
    then show ?thesis using ok by (simp add: Op_info GetTrackerInfo_def)
  next
    case (Some ct)
    have "trackers_ok (mput wid (if initialized ct then ct else initializeTracker e g now ct) m)"
      by (intro trackers_ok_put ct_ok_started trackers_okD [OF ok Some] ok)
    then show ?thesis by (simp add: Op_info GetTrackerInfo_def Some Let_def)
  qed
next
  case (Op_refresh wid)
  assume ok: "trackers_ok m"
  show ?thesis
  proof (cases "mget m wid")
    case None
    then show ?thesis using ok by (simp add: Op_refresh RefreshTracker_def)
  next
    case (Some ct)
    have "ct_ok wid (initializeTracker e g now (ct\<lparr>initialized := False, initError := None, tracker := None\<rparr>))"
      by (rule ct_ok_init) (use trackers_okD [OF ok Some] in \<open>simp_all add: ct_ok_def\<close>)
    then show ?thesis by (simp add: Op_refresh RefreshTracker_def Some Let_def trackers_ok_put ok)
  qed
next
  case (Op_health order)
  assume "trackers_ok m"
  then have "trackers_ok (fold (checkTrackerHealth e g now) order m)"
    by (induction order arbitrary: m) (simp_all add: trackers_ok_health)
  then show ?thesis by (simp add: Op_health checkAllTrackers_def)
next
  case Op_stop
  show ?thesis by (simp add: Op_stop Stop_trackers_def trackers_ok_def)
qed

lemma tracker_run_ok: "trackers_ok m \<Longrightarrow> trackers_ok (tracker_run ops m)"
  by (induction ops m rule: tracker_run.induct) (simp_all add: tracker_step_ok)

text \<open>
  C36: whatever happened to the workspaces, the file system and the repositories before, a tracker that is handed out
  works on the directory the workspace is registered with, for a workspace that is a repository by its last check.
\<close>

theorem tracker_matches_workspace:
  assumes "GetTracker e g now wid (tracker_run ops []) = (Inr (Some p), m)"
  shows "\<exists>ct. mget m wid = Some ct \<and> ti_Path (info ct) = p \<and> ti_Workspace (info ct) = wid \<and> IsGitRepo (info ct) \<and>
    initError ct = None \<and> (\<exists>ct0. mget (tracker_run ops []) wid = Some ct0 \<and> ti_Path (info ct0) = p)"
proof -
  let ?m = "tracker_run ops []"
  have ok: "trackers_ok ?m" by (rule tracker_run_ok) (simp add: trackers_ok_def)
  obtain ct0 where c: "mget ?m wid = Some ct0"
    using assms by (auto simp: GetTracker_def split: option.splits)
  let ?c = "(if initialized ct0 then ct0 else initializeTracker e g now ct0)\<lparr>ct_lastUsed := now\<rparr>"
  have path: "ti_Path (info ?c) = ti_Path (info ct0)" by (simp add: initialize_simps)
  have "ct_ok wid ?c" by (intro ct_ok_used ct_ok_started trackers_okD [OF ok c])
  moreover have "tracker ?c = Some p" "m = mput wid ?c ?m"
    using assms snd_GetTracker [of e g now wid ?m]
    by (simp_all add: GetTracker_def c Let_def split: option.splits if_split_asm)
  ultimately show ?thesis using c path by (simp add: ct_ok_def split: if_split_asm)
qed

definition dir_at :: "string \<Rightarrow> fs_env" where
  "dir_at d = \<lparr>stat = (\<lambda>p. if p = d then Stat_dir else Stat_missing), cwd = None\<rparr>"

definition repo_at :: "string \<Rightarrow> git_env" where
  "repo_at d = \<lparr>repo = (\<lambda>p. if p = d then Some ''r'' else None), status = (\<lambda>_. None)\<rparr>"

theorem tracker_matches_workspace_witness:
  "\<exists>m ct. GetTracker (dir_at ''/r'') (repo_at ''/r'') 2 ''w'' (tracker_run [(dir_at ''/r'', repo_at ''/r'', 1, Op_register ''w'' ''/r'')] [])
     = (Inr (Some ''/r''), m) \<and> mget m ''w'' = Some ct \<and> ti_Path (info ct) = ''/r''"
proof -
  let ?g = "GetTracker (dir_at ''/r'') (repo_at ''/r'') 2 ''w'' (tracker_run [(dir_at ''/r'', repo_at ''/r'', 1, Op_register ''w'' ''/r'')] [])"
  have "fst ?g = Inr (Some ''/r'')" by code_simp
  then obtain m where "?g = (Inr (Some ''/r''), m)" by (metis prod.collapse)
  from tracker_matches_workspace [OF this] this show ?thesis by blast
qed

text \<open>
  A workspace whose directory was missing when it was first used stays unusable although the directory is back: the
  health check does not start it again; only a refresh does.
\<close>

lemma no_recovery_by_itself:
  "fst (GetTracker (dir_at ''/r'') (repo_at ''/r'') 4 ''w''
     (tracker_run [(dir_at ''/r'', repo_at ''/r'', 1, Op_register ''w'' ''/r''), (dir_at ''/x'', repo_at ''/r'', 2, Op_get ''w''),
        (dir_at ''/r'', repo_at ''/r'', 3, Op_health [''w''])] [])) = Inl ''workspace path no longer exists: /r''"
  "fst (GetTracker (dir_at ''/r'') (repo_at ''/r'') 4 ''w''
     (tracker_run [(dir_at ''/r'', repo_at ''/r'', 1, Op_register ''w'' ''/r''), (dir_at ''/x'', repo_at ''/r'', 2, Op_get ''w''),
        (dir_at ''/r'', repo_at ''/r'', 3, Op_refresh ''w'')] [])) = Inr (Some ''/r'')"
  by code_simp+

end
