(* ===== verification/Workspace_Config.thy ===== *)
theory Workspace_Config
  imports Git_Tracker_Manager
begin

text \<open>
  \<open>internal/config/workspaces.go\<close> and \<open>workspaces_validation.go\<close>: the file of workspaces, how it is read, repaired
  and checked, on Unix. Writing and reading YAML is the work of packages outside the repository: the file is what was last
  saved in it. Whether directories and files can be written is an argument, as are fresh identifiers (by
  number) and the clock.
\<close>

section \<open>The file\<close>

record manager_config =
  Enabled :: bool
  mgr_Port :: int
  mgr_Host :: string
  AutoStartWorkspaces :: bool
  mgr_LogLevel :: string
  MaxConcurrentWorkspaces :: int
  AutoStopIdleMinutes :: int
  PortRangeStart :: int
  PortRangeEnd :: int
  RestartOnCrash :: bool
  MaxRestartAttempts :: int
  RestartBackoffSeconds :: int

record workspace_def =
  ws_ID :: string
  ws_Name :: string
  ws_Path :: string
  ws_Port :: int
  AutoStart :: bool
  ConfigFile :: string
  CreatedAt :: time
  LastAccessed :: time

record workspace_defaults =
  def_Watcher :: watcher_config
  def_Git :: git_config
  def_Logging :: logging_config
  def_Limits :: limits_config

record workspaces_config =
  Manager :: manager_config
  Workspaces :: "workspace_def list"
  Defaults :: workspace_defaults

datatype workspaces_file = File_missing | File_bad string | File_holds workspaces_config

definition createDefaultWorkspacesConfig :: workspaces_config where
  "createDefaultWorkspacesConfig =
     \<lparr>Manager = \<lparr>Enabled = True, mgr_Port = 8765, mgr_Host = ''127.0.0.1'', AutoStartWorkspaces = False, mgr_LogLevel = ''info'',
        MaxConcurrentWorkspaces = 5, AutoStopIdleMinutes = 30, PortRangeStart = 16180, PortRangeEnd = 16213,
        RestartOnCrash = True, MaxRestartAttempts = 3, RestartBackoffSeconds = 5\<rparr>,
      Workspaces = [],
      Defaults = \<lparr>def_Watcher = \<lparr>watch_Enabled = True, DebounceMS = 100, IgnorePatterns = DefaultWatcherIgnorePatterns\<rparr>,
        def_Git = \<lparr>git_Enabled = True, git_Command = ''git'', DiffOnChange = True\<rparr>,
        def_Logging = \<lparr>log_Level = ''info'', log_Format = ''console''\<rparr>,
        def_Limits = \<lparr>MaxFileSizeKB = 200, MaxDiffSizeKB = 500, MaxLogBuffer = 1000, MaxPromptLen = 10000\<rparr>\<rparr>\<rparr>"

section \<open>Repair\<close>

definition bad_port :: "int \<Rightarrow> bool" where
  "bad_port p \<longleftrightarrow> p < 1 \<or> p > 65535"

definition in_range :: "manager_config \<Rightarrow> bool" where
  "in_range c \<longleftrightarrow> mgr_Port c \<ge> PortRangeStart c \<and> mgr_Port c \<le> PortRangeEnd c"

definition sanitize_ports :: "manager_config \<Rightarrow> manager_config" where
  "sanitize_ports c0 =
     (let d = Manager createDefaultWorkspacesConfig;
          reset = (\<lambda>c. c\<lparr>PortRangeStart := PortRangeStart d, PortRangeEnd := PortRangeEnd d\<rparr>);
          c1 = (if bad_port (mgr_Port c0) then c0\<lparr>mgr_Port := mgr_Port d\<rparr> else c0);
          c2 = (if bad_port (PortRangeStart c1) then c1\<lparr>PortRangeStart := PortRangeStart d\<rparr> else c1);
          c3 = (if bad_port (PortRangeEnd c2) then c2\<lparr>PortRangeEnd := PortRangeEnd d\<rparr> else c2);
          c4 = (if PortRangeStart c3 \<ge> PortRangeEnd c3 then reset c3 else c3)
      in if in_range c4 then (let c5 = c4\<lparr>mgr_Port := mgr_Port d\<rparr> in if in_range c5 then reset c5 else c5) else c4)"

definition sanitizeWorkspaceManagerConfig :: "manager_config \<Rightarrow> manager_config" where
  "sanitizeWorkspaceManagerConfig c0 =
     (let d = Manager createDefaultWorkspacesConfig;
          c1 = sanitize_ports c0;
          c2 = (if MaxConcurrentWorkspaces c1 < 1 \<or> MaxConcurrentWorkspaces c1 > 100
            then c1\<lparr>MaxConcurrentWorkspaces := MaxConcurrentWorkspaces d\<rparr> else c1);
          c3 = (if AutoStopIdleMinutes c2 < 0 then c2\<lparr>AutoStopIdleMinutes := AutoStopIdleMinutes d\<rparr> else c2);
          c4 = (if MaxRestartAttempts c3 < 0 then c3\<lparr>MaxRestartAttempts := MaxRestartAttempts d\<rparr> else c3);
          c5 = (if RestartBackoffSeconds c4 < 0 then c4\<lparr>RestartBackoffSeconds := RestartBackoffSeconds d\<rparr> else c4);
          c6 = (if PortRangeEnd c5 - PortRangeStart c5 + 1 < MaxConcurrentWorkspaces c5
            then c5\<lparr>MaxConcurrentWorkspaces := MaxConcurrentWorkspaces d\<rparr> else c5);
          c7 = (if mgr_Host c6 = [] then c6\<lparr>mgr_Host := mgr_Host d\<rparr> else c6)
      in if mgr_LogLevel c7 = [] then c7\<lparr>mgr_LogLevel := mgr_LogLevel d\<rparr> else c7)"

text \<open>An identifier of eight characters, absolute paths, and times where none are set.\<close>

fun postProcess_from :: "fs_env \<Rightarrow> (nat \<Rightarrow> string) \<Rightarrow> time \<Rightarrow> nat \<Rightarrow> workspace_def list \<Rightarrow> string + workspace_def list" where
  "postProcess_from e uuid now n [] = Inr []"
| "postProcess_from e uuid now n (ws # rest) =
     (case path_Abs e (ws_Path ws) of
        None \<Rightarrow> Inl ''failed to resolve workspace path''
      | Some p \<Rightarrow>
          (let ws' = ws\<lparr>ws_ID := (if ws_ID ws = [] then ''ws-'' @ take 8 (uuid n) else ws_ID ws), ws_Path := p,
                 CreatedAt := (if CreatedAt ws = zero_time then now else CreatedAt ws),
                 LastAccessed := (if LastAccessed ws = zero_time then now else LastAccessed ws)\<rparr>
           in map_sum id (Cons ws') (postProcess_from e uuid now (Suc n) rest)))"

definition postProcessWorkspaces :: "fs_env \<Rightarrow> (nat \<Rightarrow> string) \<Rightarrow> time \<Rightarrow> workspace_def list \<Rightarrow> string + workspace_def list" where
  "postProcessWorkspaces e uuid now wss = postProcess_from e uuid now 0 wss"

section \<open>Validation\<close>

definition validateWorkspaceManager :: "manager_config \<Rightarrow> string option" where
  "validateWorkspaceManager c =
     (if mgr_Port c < 1 \<or> mgr_Port c > 65535 then Some ''manager.port must be between 1 and 65535''
      else if PortRangeStart c < 1 \<or> PortRangeStart c > 65535 then Some ''manager.port_range_start must be between 1 and 65535''
      else if PortRangeEnd c < 1 \<or> PortRangeEnd c > 65535 then Some ''manager.port_range_end must be between 1 and 65535''
      else if PortRangeStart c \<ge> PortRangeEnd c then Some ''manager.port_range_start must be less than port_range_end''
      else if mgr_Port c \<ge> PortRangeStart c \<and> mgr_Port c \<le> PortRangeEnd c then
        Some (''manager.port ('' @ show_int (mgr_Port c) @ '') must not be in workspace port range ['' @
          show_int (PortRangeStart c) @ ''-'' @ show_int (PortRangeEnd c) @ '']'')
      else if MaxConcurrentWorkspaces c < 1 then Some ''manager.max_concurrent_workspaces must be at least 1''
      else if MaxConcurrentWorkspaces c > 100 then Some ''manager.max_concurrent_workspaces cannot exceed 100''
      else if PortRangeEnd c - PortRangeStart c + 1 < MaxConcurrentWorkspaces c then
        Some (''port range ('' @ show_int (PortRangeEnd c - PortRangeStart c + 1) @
          '' ports) must accommodate max_concurrent_workspaces ('' @ show_int (MaxConcurrentWorkspaces c) @ '')'')
      else if AutoStopIdleMinutes c < 0 then Some ''manager.auto_stop_idle_minutes cannot be negative''
      else if MaxRestartAttempts c < 0 then Some ''manager.max_restart_attempts cannot be negative''
      else check (RestartBackoffSeconds c < 0) ''manager.restart_backoff_seconds cannot be negative'')"

definition isParentOrChild :: "string \<Rightarrow> string \<Rightarrow> bool" where
  "isParentOrChild path1 path2 =
     (let a = clean path1 @ ''/''; b = clean path2 @ ''/'' in if has_prefix a b then True else has_prefix b a)"

text \<open>What has been seen of the workspaces before: identifiers, names, ports and paths.\<close>

definition validate_path :: "fs_env \<Rightarrow> string list \<Rightarrow> string \<Rightarrow> string option" where
  "validate_path e paths p =
     (if p = [] then Some '': path cannot be empty''
      else case stat e p of
        Stat_missing \<Rightarrow> Some ('': path does not exist: '' @ p)
      | Stat_error err \<Rightarrow> Some ('': error accessing path: '' @ err)
      | Stat_file \<Rightarrow> Some ('': path is not a directory: '' @ p)
      | Stat_dir \<Rightarrow>
          (case find (isParentOrChild p) paths of
             Some q \<Rightarrow> Some ('': path '' @ p @ '' conflicts with existing workspace path '' @ q @ '' (cannot be parent or child)'')
           | None \<Rightarrow> None))"

definition validate_port :: "manager_config \<Rightarrow> int list \<Rightarrow> int \<Rightarrow> string option" where
  "validate_port mc ports p =
     (if p < 0 \<or> p > 65535 then Some '': port must be between 0 and 65535''
      else if p = 0 then None
      else if p < PortRangeStart mc \<or> p > PortRangeEnd mc then
        Some ('': port '' @ show_int p @ '' outside allowed range ['' @ show_int (PortRangeStart mc) @ ''-'' @ show_int (PortRangeEnd mc) @ '']'')
      else if p = mgr_Port mc then Some ('': port '' @ show_int p @ '' conflicts with manager port'')
      else check (p \<in> set ports) ('': duplicate port: '' @ show_int p))"

definition validate_one :: "fs_env \<Rightarrow> manager_config \<Rightarrow> string list \<Rightarrow> string list \<Rightarrow> int list \<Rightarrow> string list \<Rightarrow> workspace_def \<Rightarrow> string option" where
  "validate_one e mc ids names ports paths ws =
     (if ws_ID ws = [] then Some '': id cannot be empty''
      else if ws_ID ws \<in> set ids then Some ('': duplicate id: '' @ ws_ID ws)
      else if ws_Name ws = [] then Some '': name cannot be empty''
      else if ws_Name ws \<in> set names then Some ('': duplicate name: '' @ ws_Name ws)
      else orelse (validate_path e paths (ws_Path ws))
        (orelse (validate_port mc ports (ws_Port ws))
          (check (ConfigFile ws \<noteq> [] \<and> (stat e (ConfigFile ws) \<noteq> Stat_file \<and> stat e (ConfigFile ws) \<noteq> Stat_dir))
            ('': config file does not exist: '' @ ConfigFile ws))))"

fun validate_from ::
  "fs_env \<Rightarrow> manager_config \<Rightarrow> nat \<Rightarrow> string list \<Rightarrow> string list \<Rightarrow> int list \<Rightarrow> string list \<Rightarrow> workspace_def list \<Rightarrow> string option" where
  "validate_from e mc i ids names ports paths [] = None"
| "validate_from e mc i ids names ports paths (ws # rest) =
     (case validate_one e mc ids names ports paths ws of
        Some err \<Rightarrow> Some (''workspace '' @ show_nat i @ err)
      | None \<Rightarrow>
          validate_from e mc (Suc i) (ws_ID ws # ids) (ws_Name ws # names)
            (if ws_Port ws \<noteq> 0 then ws_Port ws # ports else ports) (ws_Path ws # paths) rest)"

definition validateWorkspaceDefinitions :: "fs_env \<Rightarrow> workspace_def list \<Rightarrow> manager_config \<Rightarrow> string option" where
  "validateWorkspaceDefinitions e wss mc =
     (if length wss > 100 then Some ''cannot have more than 100 workspaces'' else validate_from e mc 0 [] [] [] [] wss)"

definition ValidateWorkspaces :: "fs_env \<Rightarrow> workspaces_config \<Rightarrow> string option" where
  "ValidateWorkspaces e cfg =
     orelse (validateWorkspaceManager (Manager cfg)) (validateWorkspaceDefinitions e (Workspaces cfg) (Manager cfg))"

section \<open>Reading and saving\<close>

definition SaveWorkspaces :: "bool \<Rightarrow> workspaces_config \<Rightarrow> workspaces_file \<Rightarrow> string option \<times> workspaces_file" where
  "SaveWorkspaces writable cfg f = (if writable then (None, File_holds cfg) else (Some ''failed to write config file'', f))"

record load_env =
  le_fs :: fs_env
  le_uuid :: "nat \<Rightarrow> string"
  le_now :: time
  writable :: bool

definition LoadWorkspaces :: "load_env \<Rightarrow> workspaces_file \<Rightarrow> (string + workspaces_config) \<times> workspaces_file" where
  "LoadWorkspaces e f =
     (case f of
        File_missing \<Rightarrow>
          (case SaveWorkspaces (writable e) createDefaultWorkspacesConfig f of
             (None, f') \<Rightarrow> (Inr createDefaultWorkspacesConfig, f')
           | (Some err, f') \<Rightarrow> (Inl (''failed to create default workspaces config: '' @ err), f'))
      | File_bad err \<Rightarrow> (Inl (''error reading workspaces config: '' @ err), f)
      | File_holds cfg \<Rightarrow>
          (case postProcessWorkspaces (le_fs e) (le_uuid e) (le_now e) (Workspaces cfg) of
             Inl err \<Rightarrow> (Inl err, f)
           | Inr wss \<Rightarrow>
               (let cfg' = cfg\<lparr>Manager := sanitizeWorkspaceManagerConfig (Manager cfg), Workspaces := wss\<rparr>
                in case ValidateWorkspaces (le_fs e) cfg' of None \<Rightarrow> (Inr cfg', f) | Some err \<Rightarrow> (Inl err, f))))"

section \<open>The repaired settings\<close>

lemma default_manager [simp]:
  "mgr_Port (Manager createDefaultWorkspacesConfig) = 8765"
  "PortRangeStart (Manager createDefaultWorkspacesConfig) = 16180"
  "PortRangeEnd (Manager createDefaultWorkspacesConfig) = 16213"
  "MaxConcurrentWorkspaces (Manager createDefaultWorkspacesConfig) = 5"
  "AutoStopIdleMinutes (Manager createDefaultWorkspacesConfig) = 30"
  "MaxRestartAttempts (Manager createDefaultWorkspacesConfig) = 3"
  "RestartBackoffSeconds (Manager createDefaultWorkspacesConfig) = 5"
  by (simp_all add: createDefaultWorkspacesConfig_def)

definition ports_ok :: "manager_config \<Rightarrow> bool" where
  "ports_ok c \<longleftrightarrow> \<not> bad_port (mgr_Port c) \<and> \<not> bad_port (PortRangeStart c) \<and> \<not> bad_port (PortRangeEnd c) \<and>
     PortRangeStart c < PortRangeEnd c \<and> \<not> in_range c"

lemma sanitize_ports_ok: "ports_ok (sanitize_ports c)"
  by (simp add: ports_ok_def sanitize_ports_def bad_port_def in_range_def Let_def)

lemma sanitize_ports_same: "ports_ok c \<Longrightarrow> sanitize_ports c = c"
  by (simp add: ports_ok_def sanitize_ports_def Let_def)

lemma sanitize_ports_max [simp]: "MaxConcurrentWorkspaces (sanitize_ports c) = MaxConcurrentWorkspaces c"
  by (simp add: sanitize_ports_def Let_def)

lemma sanitize_keeps_ports:
  "mgr_Port (sanitizeWorkspaceManagerConfig c) = mgr_Port (sanitize_ports c)"
  "PortRangeStart (sanitizeWorkspaceManagerConfig c) = PortRangeStart (sanitize_ports c)"
  "PortRangeEnd (sanitizeWorkspaceManagerConfig c) = PortRangeEnd (sanitize_ports c)"
  by (simp_all add: sanitizeWorkspaceManagerConfig_def Let_def del: sanitize_ports_max)

text \<open>
  C34: the repaired settings pass the validation exactly when the range of ports kept has room: five ports, or
  as many as the configured number of workspaces. A valid range of two to four ports is kept although the default
  number of workspaces does not fit, and is then refused. Repairing again changes nothing.
\<close>

theorem sanitized_validates_iff:
  "let s = sanitizeWorkspaceManagerConfig c; ports = PortRangeEnd s - PortRangeStart s + 1
   in (validateWorkspaceManager s = None \<longleftrightarrow>
        5 \<le> ports \<or> 1 \<le> MaxConcurrentWorkspaces c \<and> MaxConcurrentWorkspaces c \<le> ports \<and> MaxConcurrentWorkspaces c \<le> 100) \<and>
      2 \<le> ports \<and> sanitizeWorkspaceManagerConfig s = s"
proof -
  let ?p = "sanitize_ports c" and ?s = "sanitizeWorkspaceManagerConfig c"
  have p: "ports_ok ?p" by (rule sanitize_ports_ok)
  have mx: "MaxConcurrentWorkspaces ?s =
      (let m = (if MaxConcurrentWorkspaces c < 1 \<or> MaxConcurrentWorkspaces c > 100 then 5 else MaxConcurrentWorkspaces c)
       in if PortRangeEnd ?p - PortRangeStart ?p + 1 < m then 5 else m)"
    by (simp add: sanitizeWorkspaceManagerConfig_def Let_def)
  have rest: "0 \<le> AutoStopIdleMinutes ?s" "0 \<le> MaxRestartAttempts ?s" "0 \<le> RestartBackoffSeconds ?s"
    "mgr_Host ?s \<noteq> []" "mgr_LogLevel ?s \<noteq> []"
    by (simp_all add: sanitizeWorkspaceManagerConfig_def Let_def createDefaultWorkspacesConfig_def)
  have s_ok: "ports_ok ?s" using p by (simp add: ports_ok_def in_range_def sanitize_keeps_ports)
  have two: "2 \<le> PortRangeEnd ?p - PortRangeStart ?p + 1" using p by (simp add: ports_ok_def)
  have valid: "validateWorkspaceManager ?s = None \<longleftrightarrow>
      1 \<le> MaxConcurrentWorkspaces ?s \<and> MaxConcurrentWorkspaces ?s \<le> 100 \<and>
      MaxConcurrentWorkspaces ?s \<le> PortRangeEnd ?s - PortRangeStart ?s + 1"
    using s_ok rest by (auto simp: validateWorkspaceManager_def ports_ok_def bad_port_def in_range_def)
  also have "\<dots> \<longleftrightarrow> 5 \<le> PortRangeEnd ?p - PortRangeStart ?p + 1 \<or>
      1 \<le> MaxConcurrentWorkspaces c \<and> MaxConcurrentWorkspaces c \<le> PortRangeEnd ?p - PortRangeStart ?p + 1 \<and> MaxConcurrentWorkspaces c \<le> 100"
    unfolding sanitize_keeps_ports mx by (auto simp: Let_def)
  moreover have "sanitizeWorkspaceManagerConfig ?s = ?s"
  proof -
    have "\<not> (MaxConcurrentWorkspaces ?s < 1 \<or> MaxConcurrentWorkspaces ?s > 100)" unfolding mx by (auto simp: Let_def)
    moreover have "MaxConcurrentWorkspaces ?s = 5 \<or> \<not> PortRangeEnd ?s - PortRangeStart ?s + 1 < MaxConcurrentWorkspaces ?s"
      unfolding sanitize_keeps_ports mx by (auto simp: Let_def)
    ultimately show ?thesis
      using sanitize_ports_same [OF s_ok] rest by (auto simp: sanitizeWorkspaceManagerConfig_def [of ?s] Let_def)
  qed
  ultimately show ?thesis using two by (simp add: sanitize_keeps_ports Let_def)
qed

section \<open>The workspaces that are accepted\<close>

definition slashes :: "string list \<Rightarrow> string" where
  "slashes cs = concat (map (\<lambda>c. ''/'' @ c) cs) @ ''/''"

lemma slashes_simps [simp]: "slashes [] = ''/''" "slashes (c # cs) = ''/'' @ c @ slashes cs"
  by (simp_all add: slashes_def)

lemma slashes_hd: "\<exists>r. slashes cs = CHR ''/'' # r"
  by (cases cs) auto

lemma slash_free_eq:
  assumes "CHR ''/'' \<notin> set x" "CHR ''/'' \<notin> set y"
  shows "has_prefix (x @ CHR ''/'' # a) (y @ CHR ''/'' # b) \<longleftrightarrow> x = y \<and> has_prefix a b"
  using assms
proof (induction x arbitrary: y)
  case Nil
  then show ?case by (cases y) auto
next
  case (Cons c x)
  then show ?case by (cases y) auto
qed

lemma has_prefix_slashes:
  "\<forall>c \<in> set a. plain_comp c \<Longrightarrow> \<forall>c \<in> set b. plain_comp c \<Longrightarrow> has_prefix (slashes a) (slashes b) \<longleftrightarrow> (\<exists>cs. b = a @ cs)"
proof (induction a arbitrary: b)
  case Nil
  then show ?case using slashes_hd [of b] by auto
next
  case (Cons x a)
  show ?case
  proof (cases b)
    case Nil
    have "x \<noteq> []" using Cons.prems by (simp add: plain_comp_def)
    then show ?thesis using Nil slashes_hd [of a] by (cases x) auto
  next
    case (Cons y b')
    obtain r r' where r: "slashes a = CHR ''/'' # r" "slashes b' = CHR ''/'' # r'" using slashes_hd by blast
    have "CHR ''/'' \<notin> set x" "CHR ''/'' \<notin> set y" using Cons.prems Cons by (auto simp: plain_comp_def)
    then have "has_prefix (x @ slashes a) (y @ slashes b') \<longleftrightarrow> x = y \<and> has_prefix (slashes a) (slashes b')"
      using slash_free_eq [of x y r r'] by (simp add: r)
    then show ?thesis using Cons.IH [of b'] Cons.prems Cons by auto
  qed
qed

lemma render_slash: "render True cs @ ''/'' = (if cs = [] then ''//'' else slashes cs)"
proof -
  have "cs \<noteq> [] \<Longrightarrow> ''/'' @ join ''/'' cs @ ''/'' = slashes cs"
    by (induction cs rule: list_nonempty_induct) (simp_all add: join_Cons)
  then show ?thesis by (simp add: render_def)
qed

text \<open>One directory is the other or lies below it, unless the upper one is the root, which is not recognised.\<close>

definition overlaps :: "string \<Rightarrow> string \<Rightarrow> bool" where
  "overlaps p q \<longleftrightarrow>
     (let a = clean_comps p; b = clean_comps q
      in a = b \<or> a \<noteq> [] \<and> take (length a) b = a \<or> b \<noteq> [] \<and> take (length b) a = b)"

lemma prefix_render:
  assumes "\<forall>c \<in> set a. plain_comp c" "\<forall>c \<in> set b. plain_comp c"
  shows "has_prefix (render True a @ ''/'') (render True b @ ''/'') \<longleftrightarrow> a = b \<or> a \<noteq> [] \<and> take (length a) b = a"
proof -
  have two: "\<not> has_prefix ''//'' (slashes cs)" "\<not> has_prefix (slashes cs) ''//''" if ne: "cs \<noteq> []" and pl: "\<forall>c \<in> set cs. plain_comp c" for cs
  proof -
    obtain c cs' where cs: "cs = c # cs'" using ne by (cases cs) auto
    then obtain d x where "c = d # x" "d \<noteq> CHR ''/''" using pl by (cases c) (auto simp: plain_comp_def)
    with cs show "\<not> has_prefix ''//'' (slashes cs)" "\<not> has_prefix (slashes cs) ''//''" by auto
  qed
  have "(\<exists>cs. b = a @ cs) \<longleftrightarrow> take (length a) b = a" by (metis append_eq_conv_conj)
  then show ?thesis
    using has_prefix_slashes [OF assms] two [of a] two [of b] assms unfolding render_slash by auto
qed

lemma isParentOrChild_overlaps:
  assumes "is_abs p" "is_abs q"
  shows "isParentOrChild p q \<longleftrightarrow> overlaps p q"
proof -
  have c: "\<forall>c \<in> set (clean_comps p). plain_comp c" "\<forall>c \<in> set (clean_comps q). plain_comp c"
    using clean_comps_form [of p] clean_comps_form [of q] assms by (simp_all add: clean_form_rooted)
  show ?thesis
    unfolding isParentOrChild_def overlaps_def Let_def clean_abs(3) [OF assms(1)] clean_abs(3) [OF assms(2)]
    using prefix_render [OF c] prefix_render [OF c(2,1)] by auto
qed

lemma validate_one_None:
  assumes "validate_one e mc ids names ports paths ws = None"
  shows "ws_ID ws \<notin> set ids" "ws_Name ws \<notin> set names" "ws_ID ws \<noteq> []" "ws_Name ws \<noteq> []" "stat e (ws_Path ws) = Stat_dir"
    "\<forall>q \<in> set paths. \<not> isParentOrChild (ws_Path ws) q"
    "ws_Port ws \<noteq> 0 \<Longrightarrow> PortRangeStart mc \<le> ws_Port ws \<and> ws_Port ws \<le> PortRangeEnd mc \<and> ws_Port ws \<noteq> mgr_Port mc \<and> ws_Port ws \<notin> set ports"
  using assms
  by (auto simp: validate_one_def validate_path_def validate_port_def find_None_iff split: if_splits stat_result.splits option.splits)

definition apart :: "string \<Rightarrow> string \<Rightarrow> bool" where
  "apart p q \<longleftrightarrow> \<not> isParentOrChild q p"

lemma validate_from_None:
  "validate_from e mc i ids names ports paths wss = None \<Longrightarrow>
    distinct (map ws_ID wss) \<and> set (map ws_ID wss) \<inter> set ids = {} \<and>
    distinct (map ws_Name wss) \<and> set (map ws_Name wss) \<inter> set names = {} \<and>
    sorted_wrt apart (map ws_Path wss) \<and> (\<forall>p \<in> set (map ws_Path wss). stat e p = Stat_dir \<and> (\<forall>q \<in> set paths. apart q p)) \<and>
    distinct (filter (\<lambda>n. n \<noteq> 0) (map ws_Port wss)) \<and>
    (\<forall>n \<in> set (map ws_Port wss). n \<noteq> 0 \<longrightarrow> PortRangeStart mc \<le> n \<and> n \<le> PortRangeEnd mc \<and> n \<noteq> mgr_Port mc \<and> n \<notin> set ports)"
proof (induction wss arbitrary: i ids names ports paths)
  case Nil
  then show ?case by simp
next
  case (Cons w wss)
  have one: "validate_one e mc ids names ports paths w = None"
    and rest: "validate_from e mc (Suc i) (ws_ID w # ids) (ws_Name w # names) (if ws_Port w \<noteq> 0 then ws_Port w # ports else ports)
        (ws_Path w # paths) wss = None"
    using Cons.prems by (simp_all split: option.splits split del: if_split)
  note o = validate_one_None [OF one] and r = Cons.IH [OF rest]
  have ids: "distinct (map ws_ID (w # wss)) \<and> set (map ws_ID (w # wss)) \<inter> set ids = {}" using o(1) r by auto
  have names: "distinct (map ws_Name (w # wss)) \<and> set (map ws_Name (w # wss)) \<inter> set names = {}" using o(2) r by auto
  have later: "\<forall>p \<in> set (map ws_Path wss). apart (ws_Path w) p" "\<forall>q \<in> set paths. apart q (ws_Path w)"
    using o(6) r by (simp_all add: apart_def)
  have paths: "sorted_wrt apart (map ws_Path (w # wss))"
    "\<forall>p \<in> set (map ws_Path (w # wss)). stat e p = Stat_dir \<and> (\<forall>q \<in> set paths. apart q p)"
    using o(5) r later by auto
  have ports: "distinct (filter (\<lambda>n. n \<noteq> 0) (map ws_Port (w # wss)))"
    "\<forall>n \<in> set (map ws_Port (w # wss)). n \<noteq> 0 \<longrightarrow> PortRangeStart mc \<le> n \<and> n \<le> PortRangeEnd mc \<and> n \<noteq> mgr_Port mc \<and> n \<notin> set ports"
    using o(7) r by (auto split: if_splits)
  show ?case using ids names paths ports by blast
qed

lemma path_Abs_abs: "cwd e = Some d \<Longrightarrow> is_abs d \<Longrightarrow> path_Abs e p = Some q \<Longrightarrow> is_abs q"
  using clean_abs(1) [of p] clean_abs(1) [of "d @ ''/'' @ p"] clean_abs(1) [of d]
  by (cases "p = []") (auto simp: path_Abs_def path_join_def is_abs_def has_prefix_extend split: if_splits)

lemma postProcess_abs:
  "postProcess_from e uuid now n wss = Inr wss' \<Longrightarrow> cwd e = Some d \<Longrightarrow> is_abs d \<Longrightarrow> \<forall>w \<in> set wss'. is_abs (ws_Path w)"
proof (induction wss arbitrary: n wss')
  case Nil
  then show ?case by simp
next
  case (Cons w wss)
  obtain p wss1 where p: "path_Abs e (ws_Path w) = Some p" "postProcess_from e uuid now (Suc n) wss = Inr wss1"
    using Cons.prems(1) by (auto simp: Let_def split: option.splits; cases "postProcess_from e uuid now (Suc n) wss"; simp)
  then show ?case
    using Cons.IH [OF p(2) Cons.prems(2,3)] path_Abs_abs [OF Cons.prems(2,3) p(1)] Cons.prems(1) by (auto simp: Let_def)
qed

text \<open>
  C33: in workspaces that have been loaded no identifier, name or port occurs twice, every path is a directory, no two are
  the same directory and no workspace lies within another one, except within the root of the file system, which
  the check for parents passes over; and the ports lie in the range of the manager, whose own port does not.
\<close>

theorem loaded_workspaces_apart:
  assumes "LoadWorkspaces e (File_holds raw) = (Inr cfg, f)" "cwd (le_fs e) = Some d" "is_abs d"
  shows "distinct (map ws_ID (Workspaces cfg)) \<and> distinct (map ws_Name (Workspaces cfg)) \<and>
    sorted_wrt (\<lambda>p q. \<not> overlaps p q) (map ws_Path (Workspaces cfg)) \<and>
    (\<forall>w \<in> set (Workspaces cfg). stat (le_fs e) (ws_Path w) = Stat_dir) \<and>
    distinct (filter (\<lambda>n. n \<noteq> 0) (map ws_Port (Workspaces cfg))) \<and>
    (\<forall>w \<in> set (Workspaces cfg). ws_Port w \<noteq> 0 \<longrightarrow>
       PortRangeStart (Manager cfg) \<le> ws_Port w \<and> ws_Port w \<le> PortRangeEnd (Manager cfg) \<and> ws_Port w \<noteq> mgr_Port (Manager cfg)) \<and>
    \<not> in_range (Manager cfg) \<and> f = File_holds raw"
proof -
  obtain wss where wss: "postProcessWorkspaces (le_fs e) (le_uuid e) (le_now e) (Workspaces raw) = Inr wss"
    and cfg: "cfg = raw\<lparr>Manager := sanitizeWorkspaceManagerConfig (Manager raw), Workspaces := wss\<rparr>"
    and valid: "ValidateWorkspaces (le_fs e) cfg = None" and f: "f = File_holds raw"
    using assms(1) by (auto simp: LoadWorkspaces_def Let_def split: sum.splits option.splits)
  have from_None: "validate_from (le_fs e) (Manager cfg) 0 [] [] [] [] (Workspaces cfg) = None"
    using valid by (auto simp: ValidateWorkspaces_def validateWorkspaceDefinitions_def split: if_splits)
  note v = validate_from_None [OF from_None]
  have abs: "\<forall>p \<in> set (map ws_Path (Workspaces cfg)). is_abs p"
    using postProcess_abs [OF wss [unfolded postProcessWorkspaces_def] assms(2,3)] cfg by auto
  have "sorted_wrt (\<lambda>p q. \<not> overlaps p q) (map ws_Path (Workspaces cfg))"
  proof (rule sorted_wrt_mono_rel [rotated])
    show "sorted_wrt apart (map ws_Path (Workspaces cfg))" using v by blast
    fix p q assume "p \<in> set (map ws_Path (Workspaces cfg))" "q \<in> set (map ws_Path (Workspaces cfg))" "apart p q"
    then show "\<not> overlaps p q" using isParentOrChild_overlaps [of q p] abs by (auto simp: apart_def overlaps_def Let_def)
  qed
  moreover have "\<not> in_range (Manager cfg)"
    using sanitize_ports_ok [of "Manager raw"] cfg by (simp add: ports_ok_def in_range_def sanitize_keeps_ports)
  ultimately show ?thesis using v f by auto
qed

definition demo_def :: "string \<Rightarrow> string \<Rightarrow> workspace_def" where
  "demo_def nm path = \<lparr>ws_ID = [], ws_Name = nm, ws_Path = path, ws_Port = 0, AutoStart = False, ConfigFile = [], CreatedAt = zero_time, LastAccessed = zero_time\<rparr>"

definition demo_load_env :: load_env where
  "demo_load_env = \<lparr>le_fs = \<lparr>stat = (\<lambda>_. Stat_dir), cwd = Some ''/home''\<rparr>, le_uuid = (\<lambda>n. replicate 8 (char_of (97 + n))), le_now = 5, writable = True\<rparr>"

definition demo_workspaces :: workspaces_config where
  "demo_workspaces = createDefaultWorkspacesConfig\<lparr>Workspaces := [demo_def ''a'' ''x'', demo_def ''b'' ''/home/xy/'']\<rparr>"

theorem loaded_workspaces_apart_witness:
  "\<exists>cfg f. LoadWorkspaces demo_load_env (File_holds demo_workspaces) = (Inr cfg, f) \<and>
     map ws_Path (Workspaces cfg) = [''/home/x'', ''/home/xy''] \<and> sorted_wrt (\<lambda>p q. \<not> overlaps p q) (map ws_Path (Workspaces cfg))"
proof -
  let ?l = "LoadWorkspaces demo_load_env (File_holds demo_workspaces)"
  have paths: "map_option (\<lambda>c. map ws_Path (Workspaces c)) (case fst ?l of Inr c \<Rightarrow> Some c | _ \<Rightarrow> None) = Some [''/home/x'', ''/home/xy'']"
    by code_simp
  obtain cfg f where l: "?l = (Inr cfg, f)" using paths by (cases ?l) (auto split: sum.splits)
  have "cwd (le_fs demo_load_env) = Some ''/home''" "is_abs ''/home''" by (simp_all add: demo_load_env_def is_abs_def)
  from loaded_workspaces_apart [OF l this] show ?thesis using l paths by auto
qed

text \<open>The root of the file system is not seen to contain the other workspaces.\<close>

lemma root_contains_nothing: "\<not> isParentOrChild ''/'' ''/home''" "isParentOrChild ''/home'' ''/home/x''"
  by code_simp+

end
