(* ===== verification/Workspace_Manager.thy ===== *)
theory Workspace_Manager
  imports Workspace_Config
begin

text \<open>
  \<open>internal/workspace/config_manager.go\<close> and \<open>workspace.go\<close>: the workspaces of the daemon in memory and in the file,
  and how \<open>internal/app/app.go\<close> opens them. The discovery of repositories is known by the paths it is told. Besides what
  reading and saving need, an operation gets whether directories can be made, the fresh identifier, the order in which
  the map is visited, and what git says of the directories.
\<close>

section \<open>A workspace\<close>

datatype workspace_status = Stopped | Starting | Running | Stopping | Errored

record workspace =
  Definition :: workspace_def
  Status :: workspace_status
  PID :: int
  LastActive :: time
  ErrorMessage :: string
  RestartCount :: int

definition NewWorkspace :: "time \<Rightarrow> workspace_def \<Rightarrow> workspace" where
  "NewWorkspace now d = \<lparr>Definition = d, Status = Stopped, PID = 0, LastActive = now, ErrorMessage = [], RestartCount = 0\<rparr>"

definition IsRunning :: "workspace \<Rightarrow> bool" where
  "IsRunning w \<longleftrightarrow> Status w = Running \<or> Status w = Starting"

definition IsStopped :: "workspace \<Rightarrow> bool" where
  "IsStopped w \<longleftrightarrow> Status w = Stopped"

definition UpdateLastActive :: "time \<Rightarrow> workspace \<Rightarrow> workspace" where
  "UpdateLastActive now w = w\<lparr>LastActive := now\<rparr>"

definition SetStatus :: "workspace_status \<Rightarrow> workspace \<Rightarrow> workspace" where
  "SetStatus st w = w\<lparr>Status := st\<rparr>"

definition SetError :: "string \<Rightarrow> workspace \<Rightarrow> workspace" where
  "SetError msg w = w\<lparr>Status := Errored, ErrorMessage := msg\<rparr>"

definition SetPID :: "int \<Rightarrow> workspace \<Rightarrow> workspace" where
  "SetPID pid w = w\<lparr>PID := pid\<rparr>"

definition IncrementRestartCount :: "workspace \<Rightarrow> int \<times> workspace" where
  "IncrementRestartCount w = (RestartCount w + 1, w\<lparr>RestartCount := RestartCount w + 1\<rparr>)"

definition ResetRestartCount :: "workspace \<Rightarrow> workspace" where
  "ResetRestartCount w = w\<lparr>RestartCount := 0\<rparr>"

definition GetIdleTime :: "time \<Rightarrow> workspace \<Rightarrow> time" where
  "GetIdleTime now w = now - LastActive w"

section \<open>The manager\<close>

text \<open>\<open>cm_file\<close>: the file at \<open>configPath\<close>.\<close>

record config_manager =
  cm_workspaces :: "(string, workspace) gomap"
  configPath :: string
  gitTrackers :: "trackers option"
  configuredPaths :: "string list"
  cm_file :: workspaces_file

record cm_env = load_env +
  mkdir_ok :: bool
  new_id :: string
  cm_order :: "string list"
  real :: "string \<Rightarrow> string"
  common_dir :: "string \<Rightarrow> string option"

definition updateDiscoveryConfiguredPaths :: "config_manager \<Rightarrow> config_manager" where
  "updateDiscoveryConfiguredPaths m =
     m\<lparr>configuredPaths := remdups (map (\<lambda>(_, w). ws_Path (Definition w)) (cm_workspaces m))\<rparr>"

definition NewConfigManager :: "time \<Rightarrow> workspaces_config \<Rightarrow> string \<Rightarrow> workspaces_file \<Rightarrow> config_manager" where
  "NewConfigManager now cfg path f =
     updateDiscoveryConfiguredPaths
       \<lparr>cm_workspaces = fold (\<lambda>d. mput (ws_ID d) (NewWorkspace now d)) (Workspaces cfg) [],
        configPath = path, gitTrackers = None, configuredPaths = [], cm_file = f\<rparr>"

text \<open>How the application opens the manager: a file that cannot be loaded counts as one without workspaces.\<close>

definition open_manager :: "load_env \<Rightarrow> string \<Rightarrow> workspaces_file \<Rightarrow> config_manager" where
  "open_manager e path f =
     (case LoadWorkspaces e f of
        (Inr cfg, f') \<Rightarrow> NewConfigManager (le_now e) cfg path f'
      | (Inl _, f') \<Rightarrow> NewConfigManager (le_now e) (createDefaultWorkspacesConfig\<lparr>Workspaces := []\<rparr>) path f')"

definition register :: "cm_env \<Rightarrow> workspace_def \<Rightarrow> config_manager \<Rightarrow> config_manager" where
  "register e d m =
     m\<lparr>gitTrackers := map_option (\<lambda>t. snd (RegisterWorkspace (le_fs e) (le_now e) (ws_ID d) (ws_Path d) t)) (gitTrackers m)\<rparr>"

definition unregister :: "string \<Rightarrow> config_manager \<Rightarrow> config_manager" where
  "unregister wid m = m\<lparr>gitTrackers := map_option (UnregisterWorkspace wid) (gitTrackers m)\<rparr>"

definition SetGitTrackerManager :: "cm_env \<Rightarrow> trackers \<Rightarrow> config_manager \<Rightarrow> config_manager" where
  "SetGitTrackerManager e t m =
     fold (\<lambda>(_, w). register e (Definition w)) (range_entries (cm_order e) (cm_workspaces m)) (m\<lparr>gitTrackers := Some t\<rparr>)"

definition ListWorkspaces :: "cm_env \<Rightarrow> config_manager \<Rightarrow> workspace list" where
  "ListWorkspaces e m = map snd (range_entries (cm_order e) (cm_workspaces m))"

definition GetAllWorkspaceIDs :: "cm_env \<Rightarrow> config_manager \<Rightarrow> string list" where
  "GetAllWorkspaceIDs e m = map fst (range_entries (cm_order e) (cm_workspaces m))"

definition GetWorkspace :: "string \<Rightarrow> config_manager \<Rightarrow> string + workspace" where
  "GetWorkspace wid m =
     (case mget (cm_workspaces m) wid of None \<Rightarrow> Inl (''workspace not found: '' @ wid) | Some w \<Rightarrow> Inr w)"

section \<open>Finding a workspace\<close>

text \<open>\<open>real\<close> makes a path absolute and resolves its links; \<open>common_dir\<close> is the answer of git.\<close>

definition NormalizePath :: "cm_env \<Rightarrow> string \<Rightarrow> string" where
  "NormalizePath e p = (if trim_space p = [] then [] else clean (real e p))"

definition IsWithinPath :: "cm_env \<Rightarrow> string \<Rightarrow> string \<Rightarrow> bool" where
  "IsWithinPath e root candidate =
     (let r = NormalizePath e root; c = NormalizePath e candidate
      in if r = [] \<or> c = [] then False else if r = c then True else has_prefix (r @ ''/'') c)"

definition SameRepoFamily :: "cm_env \<Rightarrow> string \<Rightarrow> string \<Rightarrow> bool" where
  "SameRepoFamily e p q =
     (let a = NormalizePath e p; b = NormalizePath e q
      in if a = [] \<or> b = [] then False
         else if a = b then True
         else case (common_dir e a, common_dir e b) of
           (Some x, Some y) \<Rightarrow> trim_space x \<noteq> [] \<and> trim_space x = trim_space y
         | _ \<Rightarrow> False)"

definition ResolveWorkspace :: "cm_env \<Rightarrow> string \<Rightarrow> config_manager \<Rightarrow> string + workspace" where
  "ResolveWorkspace e idOrName m =
     (case mget (cm_workspaces m) idOrName of
        Some w \<Rightarrow> Inr w
      | None \<Rightarrow>
          (let ws = ListWorkspaces e m; path = (\<lambda>w. ws_Path (Definition w)); resolved = NormalizePath e idOrName;
               missing = Inl (''workspace not found: '' @ idOrName)
           in case find (\<lambda>w. lower_runes (ws_Name (Definition w)) = lower_runes idOrName) ws of
                Some w \<Rightarrow> Inr w
              | None \<Rightarrow>
                  if resolved = [] then missing
                  else case find (\<lambda>w. NormalizePath e (path w) = resolved) ws of
                    Some w \<Rightarrow> Inr w
                  | None \<Rightarrow>
                      (case find (\<lambda>w. IsWithinPath e (path w) resolved) ws of
                         Some w \<Rightarrow> Inr w
                       | None \<Rightarrow>
                           (case find (\<lambda>w. SameRepoFamily e (path w) resolved) ws of Some w \<Rightarrow> Inr w | None \<Rightarrow> missing))))"

section \<open>Changing the workspaces\<close>

definition saveConfig :: "cm_env \<Rightarrow> config_manager \<Rightarrow> string option \<times> config_manager" where
  "saveConfig e m =
     (if configPath m = [] then (None, m)
      else (let (existing, f) = LoadWorkspaces (load_env.truncate e) (cm_file m);
                base = (case existing of Inr cfg \<Rightarrow> cfg | Inl _ \<Rightarrow> createDefaultWorkspacesConfig);
                cfg = \<lparr>Manager = Manager base,
                  Workspaces = map (\<lambda>(_, w). Definition w) (range_entries (cm_order e) (cm_workspaces m)), Defaults = Defaults base\<rparr>;
                (err, f') = SaveWorkspaces (writable e) cfg f
            in (err, m\<lparr>cm_file := f'\<rparr>)))"

definition has_path :: "string \<Rightarrow> config_manager \<Rightarrow> bool" where
  "has_path p m \<longleftrightarrow> list_ex (\<lambda>(_, w). ws_Path (Definition w) = p) (cm_workspaces m)"

text \<open>The path a workspace is added with, made when it is missing and that is wanted; the file system afterwards.\<close>

definition workspace_dir :: "cm_env \<Rightarrow> string \<Rightarrow> bool \<Rightarrow> string + string \<times> fs_env" where
  "workspace_dir e path createIfMissing =
     (case path_Abs (le_fs e) path of
        None \<Rightarrow> Inl ''invalid path''
      | Some p \<Rightarrow>
          (case stat (le_fs e) p of
             Stat_missing \<Rightarrow>
               if \<not> createIfMissing then Inl (''path does not exist: '' @ p)
               else if \<not> mkdir_ok e then Inl ''failed to create directory''
               else Inr (p, (le_fs e)\<lparr>stat := (stat (le_fs e))(p := Stat_dir)\<rparr>)
           | Stat_error err \<Rightarrow> Inl (''failed to access path: '' @ err)
           | Stat_file \<Rightarrow> Inl (''path is not a directory: '' @ p)
           | Stat_dir \<Rightarrow> Inr (p, le_fs e)))"

definition AddWorkspaceWithOptions ::
  "cm_env \<Rightarrow> string \<Rightarrow> string \<Rightarrow> bool \<Rightarrow> bool \<Rightarrow> config_manager \<Rightarrow> (string + workspace) \<times> config_manager" where
  "AddWorkspaceWithOptions e0 name path autoStart createIfMissing m =
     (case workspace_dir e0 path createIfMissing of
        Inl err \<Rightarrow> (Inl err, m)
      | Inr (p, fs) \<Rightarrow>
          if has_path p m then (Inl (''workspace already exists for path: '' @ p), m)
          else (let e = e0\<lparr>le_fs := fs\<rparr>;
                    d = \<lparr>ws_ID = new_id e, ws_Name = name, ws_Path = p, ws_Port = 0, AutoStart = autoStart, ConfigFile = [],
                         CreatedAt = le_now e, LastAccessed = zero_time\<rparr>;
                    w = NewWorkspace (le_now e) d;
                    m1 = register e d (m\<lparr>cm_workspaces := mput (new_id e) w (cm_workspaces m)\<rparr>)
                in case saveConfig e m1 of
                     (Some err, m2) \<Rightarrow>
                       (Inl (''failed to save config: '' @ err),
                        unregister (new_id e) (m2\<lparr>cm_workspaces := mdel (new_id e) (cm_workspaces m2)\<rparr>))
                   | (None, m2) \<Rightarrow> (Inr w, updateDiscoveryConfiguredPaths m2)))"

definition AddWorkspace :: "cm_env \<Rightarrow> string \<Rightarrow> string \<Rightarrow> bool \<Rightarrow> config_manager \<Rightarrow> (string + workspace) \<times> config_manager" where
  "AddWorkspace e name path autoStart m = AddWorkspaceWithOptions e name path autoStart False m"

definition RemoveWorkspace :: "cm_env \<Rightarrow> string \<Rightarrow> config_manager \<Rightarrow> string option \<times> config_manager" where
  "RemoveWorkspace e wid m =
     (case mget (cm_workspaces m) wid of
        None \<Rightarrow> (Some (''workspace not found: '' @ wid), m)
      | Some w \<Rightarrow>
          (let m0 = unregister wid m; m1 = m0\<lparr>cm_workspaces := mdel wid (cm_workspaces m0)\<rparr>
           in case saveConfig e m1 of
                (Some err, m2) \<Rightarrow>
                  (Some (''failed to save config: '' @ err), register e (Definition w) (m2\<lparr>cm_workspaces := mput wid w (cm_workspaces m2)\<rparr>))
              | (None, m2) \<Rightarrow> (None, updateDiscoveryConfiguredPaths m2)))"

definition UpdateWorkspace :: "cm_env \<Rightarrow> workspace \<Rightarrow> config_manager \<Rightarrow> string option \<times> config_manager" where
  "UpdateWorkspace e w m =
     (let wid = ws_ID (Definition w)
      in case mget (cm_workspaces m) wid of
           None \<Rightarrow> (Some (''workspace not found: '' @ wid), m)
         | Some _ \<Rightarrow>
             (let (err, m') = saveConfig e (m\<lparr>cm_workspaces := mput wid w (cm_workspaces m)\<rparr>)
              in (map_option (\<lambda>s. ''failed to save config: '' @ s) err, m')))"

text \<open>
  \<open>workspace/update\<close> and \<open>PUT /api/workspaces/{id}\<close>: the name and the automatic start of the workspace that
  \<open>GetWorkspace\<close> returns, a pointer into the map, are set before \<open>UpdateWorkspace\<close> is called with it.
\<close>

definition edit_definition :: "string option \<Rightarrow> bool option \<Rightarrow> workspace_def \<Rightarrow> workspace_def" where
  "edit_definition name autoStart d =
     d\<lparr>ws_Name := (case name of None \<Rightarrow> ws_Name d | Some n \<Rightarrow> n),
       AutoStart := (case autoStart of None \<Rightarrow> AutoStart d | Some a \<Rightarrow> a)\<rparr>"

definition edit_workspace ::
  "cm_env \<Rightarrow> string \<Rightarrow> string option \<Rightarrow> bool option \<Rightarrow> config_manager \<Rightarrow> string option \<times> config_manager" where
  "edit_workspace e wid name autoStart m =
     (case mget (cm_workspaces m) wid of
        None \<Rightarrow> (Some (''workspace not found: '' @ wid), m)
      | Some w \<Rightarrow> UpdateWorkspace e (w\<lparr>Definition := edit_definition name autoStart (Definition w)\<rparr>) m)"

section \<open>What is saved\<close>

definition definitions :: "config_manager \<Rightarrow> workspace_def set" where
  "definitions m = Definition ` ran (mget (cm_workspaces m))"

text \<open>Every workspace is filed under its identifier.\<close>

definition cm_ok :: "config_manager \<Rightarrow> bool" where
  "cm_ok m \<longleftrightarrow> wf_map (cm_workspaces m) \<and> (\<forall>k w. mget (cm_workspaces m) k = Some w \<longrightarrow> ws_ID (Definition w) = k)"

text \<open>The order of an operation visits exactly the identifiers given.\<close>

definition visits :: "cm_env \<Rightarrow> string set \<Rightarrow> bool" where
  "visits e ids \<longleftrightarrow> distinct (cm_order e) \<and> set (cm_order e) = ids"

definition ids_of :: "config_manager \<Rightarrow> string set" where
  "ids_of m = dom (mget (cm_workspaces m))"

lemma LoadWorkspaces_unwritable: "\<not> writable e \<Longrightarrow> snd (LoadWorkspaces e f) = f"
  by (auto simp: LoadWorkspaces_def SaveWorkspaces_def Let_def split: workspaces_file.split sum.split option.split)

lemma writable_truncate [simp]: "writable (load_env.truncate e) = writable e" "le_fs (load_env.truncate e) = le_fs e"
  by (simp_all add: load_env.truncate_def)

lemma saveConfig_fails: "saveConfig e m = (Some err, m') \<Longrightarrow> m' = m"
  using LoadWorkspaces_unwritable [of "load_env.truncate e" "cm_file m"]
  by (auto simp: saveConfig_def SaveWorkspaces_def Let_def split: prod.splits if_splits)

definition saved_as :: "cm_env \<Rightarrow> config_manager \<Rightarrow> workspaces_config" where
  "saved_as e m =
     (let base = (case fst (LoadWorkspaces (load_env.truncate e) (cm_file m)) of Inr cfg \<Rightarrow> cfg | Inl _ \<Rightarrow> createDefaultWorkspacesConfig)
      in \<lparr>Manager = Manager base, Workspaces = map (\<lambda>(_, w). Definition w) (range_entries (cm_order e) (cm_workspaces m)),
          Defaults = Defaults base\<rparr>)"

lemma saveConfig_saves:
  "saveConfig e m = (None, m') \<Longrightarrow> configPath m \<noteq> [] \<Longrightarrow> m' = m\<lparr>cm_file := File_holds (saved_as e m)\<rparr>"
  by (auto simp: saveConfig_def saved_as_def SaveWorkspaces_def Let_def split: prod.splits if_splits)

lemma saved_workspaces:
  assumes "cm_ok m" "visits e (ids_of m)"
  shows "set (Workspaces (saved_as e m)) = definitions m" "map ws_ID (Workspaces (saved_as e m)) = cm_order e"
proof -
  have v: "valid_order (cm_order e) (cm_workspaces m)"
    using assms(2) by (simp add: valid_order_def visits_def ids_of_def dom_map_of_conv_image_fst)
  have all: "\<And>k w. (k, w) \<in> set (range_entries (cm_order e) (cm_workspaces m)) \<Longrightarrow> ws_ID (Definition w) = k"
    using assms(1) by (auto simp: set_range_entries_mget cm_ok_def)
  have "map ws_ID (Workspaces (saved_as e m)) = map fst (range_entries (cm_order e) (cm_workspaces m))"
    using all by (auto simp: saved_as_def Let_def)
  then show "map ws_ID (Workspaces (saved_as e m)) = cm_order e" using range_entries_keys [OF v] by simp
  have "set (range_entries (cm_order e) (cm_workspaces m)) = {(k, w). mget (cm_workspaces m) k = Some w}"
    using assms(2) by (auto simp: set_range_entries_mget visits_def ids_of_def)
  then show "set (Workspaces (saved_as e m)) = definitions m"
    by (force simp: saved_as_def definitions_def ran_def Let_def)
qed

text \<open>The file names exactly the workspaces in memory, each once.\<close>

definition in_step :: "config_manager \<Rightarrow> bool" where
  "in_step m \<longleftrightarrow> (\<exists>cfg. cm_file m = File_holds cfg \<and> set (Workspaces cfg) = definitions m \<and> distinct (map ws_ID (Workspaces cfg)))"

lemma in_step_saved:
  assumes "saveConfig e m = (None, m')" "configPath m \<noteq> []" "cm_ok m" "visits e (ids_of m)"
  shows "in_step m'"
  using saveConfig_saves [OF assms(1,2)] saved_workspaces [OF assms(3,4)] assms(4)
  by (simp add: in_step_def definitions_def visits_def)

lemma register_simps [simp]:
  "cm_workspaces (register e d m) = cm_workspaces m" "cm_file (register e d m) = cm_file m" "configPath (register e d m) = configPath m"
  by (simp_all add: register_def)

lemma unregister_simps [simp]:
  "cm_workspaces (unregister i m) = cm_workspaces m" "cm_file (unregister i m) = cm_file m" "configPath (unregister i m) = configPath m"
  by (simp_all add: unregister_def)

lemma discovery_simps [simp]:
  "cm_workspaces (updateDiscoveryConfiguredPaths m) = cm_workspaces m" "cm_file (updateDiscoveryConfiguredPaths m) = cm_file m"
  "configPath (updateDiscoveryConfiguredPaths m) = configPath m"
  by (simp_all add: updateDiscoveryConfiguredPaths_def)

lemma in_step_cong:
  "cm_file m' = cm_file m \<Longrightarrow> cm_workspaces m' = cm_workspaces m \<Longrightarrow> in_step m' = in_step m"
  by (simp add: in_step_def definitions_def)

lemma cm_ok_put: "cm_ok m \<Longrightarrow> ws_ID (Definition w) = k \<Longrightarrow> cm_workspaces m' = mput k w (cm_workspaces m) \<Longrightarrow> cm_ok m'"
  by (simp add: cm_ok_def)

lemma cm_ok_del: "cm_ok m \<Longrightarrow> cm_workspaces m' = mdel k (cm_workspaces m) \<Longrightarrow> cm_ok m'"
  by (simp add: cm_ok_def)

text \<open>Two maps with the same entries.\<close>

definition same_workspaces :: "config_manager \<Rightarrow> config_manager \<Rightarrow> bool" where
  "same_workspaces m m' \<longleftrightarrow> mget (cm_workspaces m') = mget (cm_workspaces m) \<and> cm_file m' = cm_file m \<and> configPath m' = configPath m \<and>
     (wf_map (cm_workspaces m) \<longrightarrow> wf_map (cm_workspaces m'))"

lemma same_in_step: "same_workspaces m m' \<Longrightarrow> in_step m \<Longrightarrow> in_step m'"
  by (simp add: same_workspaces_def in_step_def definitions_def)

text \<open>What adding a workspace does: nothing, when it is refused.\<close>

lemma AddWorkspace_cases:
  assumes "AddWorkspaceWithOptions e nm path auto create m = (r, m')" "mget (cm_workspaces m) (new_id e) = None"
  obtains (refused) err where "r = Inl err" "same_workspaces m m'"
  | (added) fs d m2 where "r = Inr (NewWorkspace (le_now e) d)" "ws_ID d = new_id e" "ws_Name d = nm" "\<not> has_path (ws_Path d) m"
      "saveConfig (e\<lparr>le_fs := fs\<rparr>) (register (e\<lparr>le_fs := fs\<rparr>) d (m\<lparr>cm_workspaces := mput (new_id e) (NewWorkspace (le_now e) d) (cm_workspaces m)\<rparr>)) = (None, m2)"
      "m' = updateDiscoveryConfiguredPaths m2"
proof (cases "workspace_dir e path create")
  case (Inl err)
  then have "r = Inl err" "m' = m" using assms(1) by (simp_all add: AddWorkspaceWithOptions_def)
  then show thesis by (intro refused [of err]) (simp_all add: same_workspaces_def)
next
  case (Inr pf)
  obtain p fs where pf: "pf = (p, fs)" by (cases pf)
  let ?e = "e\<lparr>le_fs := fs\<rparr>"
  let ?d = "\<lparr>ws_ID = new_id e, ws_Name = nm, ws_Path = p, ws_Port = 0, AutoStart = auto, ConfigFile = [], CreatedAt = le_now e, LastAccessed = zero_time\<rparr>"
  let ?w = "NewWorkspace (le_now e) ?d"
  let ?m1 = "register ?e ?d (m\<lparr>cm_workspaces := mput (new_id e) ?w (cm_workspaces m)\<rparr>)"
  show thesis
  proof (cases "has_path p m")
    case True
    then have "r = Inl (''workspace already exists for path: '' @ p)" "m' = m"
      using assms(1) Inr pf by (simp_all add: AddWorkspaceWithOptions_def)
    then show thesis using refused by (simp add: same_workspaces_def)
  next
    case no: False
    obtain err m2 where s: "saveConfig ?e ?m1 = (err, m2)" by fastforce
    show thesis
    proof (cases err)
      case None
      then show thesis
        using assms(1) Inr pf no s added [of ?d fs m2] by (simp add: AddWorkspaceWithOptions_def Let_def)
    next
      case (Some msg)
      have "m2 = ?m1" using saveConfig_fails s Some by blast
      then have "r = Inl (''failed to save config: '' @ msg)"
        "m' = unregister (new_id e) (?m1\<lparr>cm_workspaces := mdel (new_id e) (cm_workspaces ?m1)\<rparr>)"
        using assms(1) Inr pf no s Some by (simp_all add: AddWorkspaceWithOptions_def Let_def)
      moreover have "mget (mdel (new_id e) (mput (new_id e) ?w (cm_workspaces m))) = mget (cm_workspaces m)"
        using assms(2) by (auto simp: fun_eq_iff)
      ultimately show thesis using refused by (simp add: same_workspaces_def)
    qed
  qed
qed

lemma same_cm_ok: "same_workspaces m m' \<Longrightarrow> cm_ok m \<Longrightarrow> cm_ok m'"
  by (simp add: same_workspaces_def cm_ok_def)

lemma RemoveWorkspace_cases:
  assumes "RemoveWorkspace e wid m = (r, m')"
  obtains (refused) err where "r = Some err" "same_workspaces m m'"
  | (removed) m0 m2 where "r = None" "mget (cm_workspaces m) wid \<noteq> None" "cm_workspaces m0 = mdel wid (cm_workspaces m)"
      "configPath m0 = configPath m" "saveConfig e m0 = (None, m2)" "m' = updateDiscoveryConfiguredPaths m2"
proof (cases "mget (cm_workspaces m) wid")
  case None
  then have "r = Some (''workspace not found: '' @ wid)" "m' = m" using assms by (simp_all add: RemoveWorkspace_def)
  then show thesis by (intro refused [of "''workspace not found: '' @ wid"]) (simp_all add: same_workspaces_def)
next
  case (Some w)
  let ?m0 = "unregister wid m"
  let ?m1 = "?m0\<lparr>cm_workspaces := mdel wid (cm_workspaces ?m0)\<rparr>"
  obtain err m2 where s: "saveConfig e ?m1 = (err, m2)" by fastforce
  show thesis
  proof (cases err)
    case None
    then show thesis using assms Some s removed [of ?m1 m2] by (simp add: RemoveWorkspace_def Let_def)
  next
    case (Some msg)
    have "m2 = ?m1" using saveConfig_fails s Some by blast
    then have "r = Some (''failed to save config: '' @ msg)"
      "m' = register e (Definition w) (?m1\<lparr>cm_workspaces := mput wid w (cm_workspaces ?m1)\<rparr>)"
      using assms \<open>mget (cm_workspaces m) wid = Some w\<close> s Some by (simp_all add: RemoveWorkspace_def Let_def)
    moreover have "mget (mput wid w (mdel wid (cm_workspaces m))) = mget (cm_workspaces m)"
      using \<open>mget (cm_workspaces m) wid = Some w\<close> by (auto simp: fun_eq_iff)
    ultimately show thesis using refused by (simp add: same_workspaces_def)
  qed
qed

lemma ids_of_simps:
  "cm_workspaces m' = mput k w (cm_workspaces m) \<Longrightarrow> ids_of m' = insert k (ids_of m)"
  "cm_workspaces m' = mdel k (cm_workspaces m) \<Longrightarrow> ids_of m' = ids_of m - {k}"
  by (auto simp: ids_of_def split: if_splits)

lemma definitions_put:
  "cm_workspaces m' = mput k w (cm_workspaces m) \<Longrightarrow> mget (cm_workspaces m) k = None \<Longrightarrow> definitions m' = insert (Definition w) (definitions m)"
  using ran_map_upd [of "mget (cm_workspaces m)" k w] unfolding definitions_def by (simp add: update_conv' image_insert [symmetric] del: mget_mput image_insert)

lemma definitions_del:
  "cm_ok m \<Longrightarrow> cm_workspaces m' = mdel k (cm_workspaces m) \<Longrightarrow> definitions m' = {d \<in> definitions m. ws_ID d \<noteq> k}"
  by (auto simp: definitions_def ran_def cm_ok_def split: if_splits)

text \<open>No two workspaces have one path.\<close>

definition own_paths :: "config_manager \<Rightarrow> bool" where
  "own_paths m \<longleftrightarrow>
     (\<forall>k w k' w'. mget (cm_workspaces m) k = Some w \<longrightarrow> mget (cm_workspaces m) k' = Some w' \<longrightarrow>
        ws_Path (Definition w) = ws_Path (Definition w') \<longrightarrow> k = k')"

lemma own_paths_put:
  assumes "own_paths m" "\<not> has_path (ws_Path (Definition w)) m" "cm_workspaces m' = mput k w (cm_workspaces m)"
  shows "own_paths m'"
proof -
  have "ws_Path (Definition w') \<noteq> ws_Path (Definition w)" if "mget (cm_workspaces m) k' = Some w'" for k' w'
    using assms(2) mget_in_set [OF that] by (force simp: has_path_def list_ex_iff)
  then show ?thesis using assms(1,3) unfolding own_paths_def by (auto split: if_splits) metis+
qed

lemma own_paths_sub:
  "own_paths m \<Longrightarrow> (\<And>k w. mget (cm_workspaces m') k = Some w \<Longrightarrow> mget (cm_workspaces m) k = Some w) \<Longrightarrow> own_paths m'"
  unfolding own_paths_def by metis

lemma own_paths_edit:
  assumes "own_paths m" "mget (cm_workspaces m) k = Some w0" "ws_Path (Definition w) = ws_Path (Definition w0)"
    "cm_workspaces m' = mput k w (cm_workspaces m)"
  shows "own_paths m'"
  unfolding own_paths_def using assms unfolding own_paths_def by (auto split: if_splits)

text \<open>What every operation keeps, whether it succeeds or not.\<close>

definition manager_ok :: "config_manager \<Rightarrow> bool" where
  "manager_ok m \<longleftrightarrow> cm_ok m \<and> configPath m \<noteq> [] \<and> own_paths m"

lemma manager_ok_same: "same_workspaces m m' \<Longrightarrow> manager_ok m \<Longrightarrow> manager_ok m'"
  using same_cm_ok [of m m'] by (auto simp: manager_ok_def same_workspaces_def own_paths_def)

lemma manager_ok_cong:
  "cm_workspaces m' = cm_workspaces m \<Longrightarrow> configPath m' = configPath m \<Longrightarrow> manager_ok m' = manager_ok m"
  by (simp add: manager_ok_def cm_ok_def own_paths_def)

text \<open>
  The managers that come of a good one by additions under fresh identifiers, removals, updates, and the setting of
  the trackers. The flag says that an update could not be saved and no operation was since.
\<close>

inductive cm_reach :: "bool \<Rightarrow> config_manager \<Rightarrow> bool" where
  start: "manager_ok m \<Longrightarrow> in_step m \<Longrightarrow> cm_reach False m"
| added: "cm_reach behind m \<Longrightarrow> mget (cm_workspaces m) (new_id e) = None \<Longrightarrow> visits e (insert (new_id e) (ids_of m)) \<Longrightarrow>
    AddWorkspaceWithOptions e nm path auto create m = (r, m') \<Longrightarrow> cm_reach (behind \<and> isl r) m'"
| removed: "cm_reach behind m \<Longrightarrow> visits e (ids_of m - {wid}) \<Longrightarrow> RemoveWorkspace e wid m = (res, m') \<Longrightarrow>
    cm_reach (behind \<and> res \<noteq> None) m'"
| updated: "cm_reach behind m \<Longrightarrow> visits e (ids_of m) \<Longrightarrow> edit_workspace e wid name start m = (res, m') \<Longrightarrow>
    cm_reach (res \<noteq> None \<and> (behind \<or> mget (cm_workspaces m) wid \<noteq> None)) m'"
| tracked: "cm_reach behind m \<Longrightarrow> cm_reach behind (m\<lparr>gitTrackers := t\<rparr>)"

lemma Add_step:
  assumes "AddWorkspaceWithOptions e nm path auto create m = (r, m')" "mget (cm_workspaces m) (new_id e) = None"
    "visits e (insert (new_id e) (ids_of m))" "manager_ok m"
  shows "manager_ok m' \<and> (in_step m \<or> \<not> isl r \<longrightarrow> in_step m') \<and>
    (case r of Inl _ \<Rightarrow> definitions m' = definitions m \<and> cm_file m' = cm_file m
     | Inr w \<Rightarrow> definitions m' = insert (Definition w) (definitions m))"
  using assms(1,2)
proof (cases rule: AddWorkspace_cases)
  case (refused err)
  then have "definitions m' = definitions m" by (simp add: same_workspaces_def definitions_def)
  moreover have "manager_ok m'" "in_step m \<longrightarrow> in_step m'" "cm_file m' = cm_file m"
    using manager_ok_same [OF refused(2) assms(4)] same_in_step [OF refused(2)] refused(2) by (simp_all add: same_workspaces_def)
  ultimately show ?thesis using refused(1) by simp
next
  case (added fs d m2)
  let ?e = "e\<lparr>le_fs := fs\<rparr>" and ?w = "NewWorkspace (le_now e) d"
  let ?m1 = "register ?e d (m\<lparr>cm_workspaces := mput (new_id e) ?w (cm_workspaces m)\<rparr>)"
  have w: "ws_ID (Definition ?w) = new_id e" "Definition ?w = d" using added(2) by (simp_all add: NewWorkspace_def)
  have m: "cm_ok m" "configPath m \<noteq> []" "own_paths m" using assms(4) by (simp_all add: manager_ok_def)
  have ok: "cm_ok ?m1" by (rule cm_ok_put [OF m(1) w(1)]) simp
  have own: "own_paths ?m1" by (rule own_paths_put [OF m(3), of ?w]) (use added(4) w(2) in simp_all)
  have path: "configPath ?m1 \<noteq> []" using m(2) by simp
  have "visits ?e (ids_of ?m1)" using assms(3) ids_of_simps(1) [of ?m1 "new_id e" ?w m] by (simp add: visits_def)
  then have "in_step m2" by (rule in_step_saved [OF added(5) path ok])
  moreover have m2: "m2 = ?m1\<lparr>cm_file := File_holds (saved_as ?e ?m1)\<rparr>" by (rule saveConfig_saves [OF added(5) path])
  moreover have "manager_ok m'"
    using ok own path manager_ok_cong [of m' ?m1] m2 added(6) by (simp add: manager_ok_def)
  moreover have "definitions ?m1 = insert d (definitions m)"
    using definitions_put [of ?m1 "new_id e" ?w m] assms(2) w(2) by simp
  ultimately show ?thesis
    using added(1,6) in_step_cong [of m' m2] w(2) by (simp add: definitions_def)
qed

lemma Remove_step:
  assumes "RemoveWorkspace e wid m = (r, m')" "visits e (ids_of m - {wid})" "manager_ok m"
  shows "manager_ok m' \<and> (in_step m \<or> r = None \<longrightarrow> in_step m') \<and>
    (if r = None then definitions m' = {d \<in> definitions m. ws_ID d \<noteq> wid}
     else definitions m' = definitions m \<and> cm_file m' = cm_file m)"
  using assms(1)
proof (cases rule: RemoveWorkspace_cases)
  case (refused err)
  then have "definitions m' = definitions m" by (simp add: same_workspaces_def definitions_def)
  moreover have "manager_ok m'" "in_step m \<longrightarrow> in_step m'" "cm_file m' = cm_file m"
    using manager_ok_same [OF refused(2) assms(3)] same_in_step [OF refused(2)] refused(2) by (simp_all add: same_workspaces_def)
  ultimately show ?thesis using refused(1) by simp
next
  case (removed m0 m2)
  have m: "cm_ok m" "configPath m \<noteq> []" "own_paths m" using assms(3) by (simp_all add: manager_ok_def)
  have ok: "cm_ok m0" by (rule cm_ok_del [OF m(1) removed(3)])
  have own: "own_paths m0" by (rule own_paths_sub [OF m(3)]) (use removed(3) in \<open>simp split: if_splits\<close>)
  have path: "configPath m0 \<noteq> []" using m(2) removed(4) by simp
  have "visits e (ids_of m0)" using assms(2) ids_of_simps(2) [OF removed(3)] by simp
  then have "in_step m2" by (rule in_step_saved [OF removed(5) path ok])
  moreover have m2: "m2 = m0\<lparr>cm_file := File_holds (saved_as e m0)\<rparr>" by (rule saveConfig_saves [OF removed(5) path])
  moreover have "manager_ok m'"
    using ok own path manager_ok_cong [of m' m0] m2 removed(6) by (simp add: manager_ok_def)
  moreover have "definitions m0 = {d \<in> definitions m. ws_ID d \<noteq> wid}" by (rule definitions_del [OF m(1) removed(3)])
  ultimately show ?thesis
    using removed(1,6) in_step_cong [of m' m2] by (simp add: definitions_def)
qed

lemma definitions_edit:
  assumes "cm_ok m" "mget (cm_workspaces m) k = Some w" "cm_workspaces m' = mput k (w\<lparr>Definition := f (Definition w)\<rparr>) (cm_workspaces m)"
  shows "definitions m' = (\<lambda>d. if ws_ID d = k then f d else d) ` definitions m"
proof -
  have id: "\<And>j v. mget (cm_workspaces m) j = Some v \<Longrightarrow> ws_ID (Definition v) = j" using assms(1) by (simp add: cm_ok_def)
  have d: "definitions n = {Definition v | v. \<exists>j. mget (cm_workspaces n) j = Some v}" for n
    by (auto simp: definitions_def ran_def)
  show ?thesis
  proof (intro set_eqI iffI)
    fix x assume "x \<in> definitions m'"
    then obtain j v where "mget (cm_workspaces m') j = Some v" "x = Definition v" unfolding d by blast
    then show "x \<in> (\<lambda>d. if ws_ID d = k then f d else d) ` definitions m"
      using assms(2,3) id unfolding d by (cases "j = k") (auto intro!: image_eqI)
  next
    fix x assume "x \<in> (\<lambda>d. if ws_ID d = k then f d else d) ` definitions m"
    then obtain j v where v: "mget (cm_workspaces m) j = Some v" "x = (if ws_ID (Definition v) = k then f (Definition v) else Definition v)"
      unfolding d by blast
    then show "x \<in> definitions m'"
    proof (cases "j = k")
      case True
      then have "x = Definition (w\<lparr>Definition := f (Definition w)\<rparr>)" using v assms(2) id by auto
      moreover have "mget (cm_workspaces m') k = Some (w\<lparr>Definition := f (Definition w)\<rparr>)" using assms(3) by simp
      ultimately show ?thesis unfolding d by blast
    next
      case False
      then have "mget (cm_workspaces m') j = Some v" "x = Definition v" using v assms(3) id by auto
      then show ?thesis unfolding d by blast
    qed
  qed
qed

lemma Edit_step:
  assumes "edit_workspace e wid name auto m = (r, m')" "visits e (ids_of m)" "manager_ok m"
  shows "manager_ok m' \<and> (r = None \<or> in_step m \<and> mget (cm_workspaces m) wid = None \<longrightarrow> in_step m') \<and>
    definitions m' = (\<lambda>d. if ws_ID d = wid then edit_definition name auto d else d) ` definitions m \<and>
    (r \<noteq> None \<longrightarrow> cm_file m' = cm_file m)"
proof (cases "mget (cm_workspaces m) wid")
  case None
  then have "\<forall>d \<in> definitions m. ws_ID d \<noteq> wid" using assms(3) by (auto simp: definitions_def ran_def manager_ok_def cm_ok_def)
  then have "(\<lambda>d. if ws_ID d = wid then edit_definition name auto d else d) ` definitions m = definitions m" by force
  then show ?thesis using None assms by (auto simp: edit_workspace_def)
next
  case (Some w)
  let ?w = "w\<lparr>Definition := edit_definition name auto (Definition w)\<rparr>"
  let ?m = "m\<lparr>cm_workspaces := mput wid ?w (cm_workspaces m)\<rparr>"
  have m: "cm_ok m" "configPath m \<noteq> []" "own_paths m" using assms(3) by (simp_all add: manager_ok_def)
  have w: "ws_ID (Definition ?w) = wid" "ws_Path (Definition ?w) = ws_Path (Definition w)"
    using m(1) Some by (simp_all add: cm_ok_def edit_definition_def)
  obtain err m2 where s: "saveConfig e ?m = (err, m2)" by fastforce
  have r: "r = None \<longleftrightarrow> err = None" "m' = m2"
    using assms(1) Some s w(1) by (auto simp: edit_workspace_def UpdateWorkspace_def Let_def)
  have ok: "cm_ok ?m" by (rule cm_ok_put [OF m(1) w(1)]) simp
  have mok: "manager_ok ?m"
    using ok m(2) own_paths_edit [OF m(3) Some w(2), of ?m] by (simp add: manager_ok_def)
  have defs: "definitions ?m = (\<lambda>d. if ws_ID d = wid then edit_definition name auto d else d) ` definitions m"
    by (rule definitions_edit [OF m(1) Some]) simp
  show ?thesis
  proof (cases err)
    case None
    have "wid \<in> ids_of m" using Some by (simp add: ids_of_def domI)
    then have "ids_of ?m = ids_of m" using ids_of_simps(1) [of ?m wid ?w m] by auto
    then have "in_step m2" using in_step_saved [OF s [unfolded None] _ ok] m(2) assms(2) by simp
    moreover have "m2 = ?m\<lparr>cm_file := File_holds (saved_as e ?m)\<rparr>"
      by (rule saveConfig_saves) (use s None m(2) in simp_all)
    ultimately show ?thesis
      using r None defs mok manager_ok_cong [of m2 ?m] by (simp add: definitions_def)
  next
    case (Some msg)
    then have "m2 = ?m" using saveConfig_fails s by blast
    then show ?thesis using r Some defs mok \<open>mget (cm_workspaces m) wid = Some w\<close> by (cases r) simp_all
  qed
qed

lemma cm_reach_ok: "cm_reach behind m \<Longrightarrow> manager_ok m \<and> (\<not> behind \<longrightarrow> in_step m)"
proof (induction rule: cm_reach.induct)
  case (start m)
  then show ?case by simp
next
  case (added behind m e nm path auto create r m')
  then show ?case using Add_step [OF added.hyps(4,2,3)] by blast
next
  case (removed behind m e wid res m')
  then show ?case using Remove_step [OF removed.hyps(3,2)] by blast
next
  case (updated behind m e wid name start res m')
  then show ?case using Edit_step [OF updated.hyps(3,2)] by (cases "res = None") auto
next
  case (tracked behind m t)
  then show ?case
    using in_step_cong [of "m\<lparr>gitTrackers := t\<rparr>" m] manager_ok_cong [of "m\<lparr>gitTrackers := t\<rparr>" m] by simp
qed


section \<open>A name used twice\<close>

lemma postProcess_names:
  "postProcess_from e uuid now n wss = Inr wss' \<Longrightarrow> map ws_Name wss' = map ws_Name wss"
proof (induction wss arbitrary: n wss')
  case Nil
  then show ?case by simp
next
  case (Cons w wss)
  obtain p wss1 where p: "path_Abs e (ws_Path w) = Some p" "postProcess_from e uuid now (Suc n) wss = Inr wss1"
    using Cons.prems(1) by (auto simp: Let_def split: option.splits; cases "postProcess_from e uuid now (Suc n) wss"; simp)
  then show ?case using Cons.IH [OF p(2)] Cons.prems(1) by (auto simp: Let_def)
qed

lemma taken_name_not_loaded:
  assumes "\<not> distinct (map ws_Name (Workspaces cfg))"
  shows "\<exists>err. LoadWorkspaces e (File_holds cfg) = (Inl err, File_holds cfg)"
proof (cases "postProcessWorkspaces (le_fs e) (le_uuid e) (le_now e) (Workspaces cfg)")
  case (Inl err)
  then show ?thesis by (simp add: LoadWorkspaces_def)
next
  case (Inr wss)
  let ?c = "cfg\<lparr>Manager := sanitizeWorkspaceManagerConfig (Manager cfg), Workspaces := wss\<rparr>"
  have "map ws_Name wss = map ws_Name (Workspaces cfg)" using Inr postProcess_names by (simp add: postProcessWorkspaces_def)
  then have "validate_from (le_fs e) (Manager ?c) 0 [] [] [] [] wss \<noteq> None"
    using validate_from_None [of "le_fs e" "Manager ?c" 0 "[]" "[]" "[]" "[]" wss] assms by auto
  then have "ValidateWorkspaces (le_fs e) ?c \<noteq> None"
    by (simp add: ValidateWorkspaces_def validateWorkspaceDefinitions_def)
  then show ?thesis using Inr by (auto simp: LoadWorkspaces_def Let_def)
qed

lemma open_unreadable:
  assumes "LoadWorkspaces l f = (Inl err, f)"
  shows "cm_workspaces (open_manager l path f) = []" "cm_file (open_manager l path f) = f" "configPath (open_manager l path f) = path"
  using assms by (simp_all add: open_manager_def NewConfigManager_def)

lemma saved_alone:
  assumes "cm_workspaces m = mput i (NewWorkspace now d) []" "visits e {i}"
  shows "Workspaces (saved_as e m) = [d]"
proof -
  have "cm_order e = [i]" using assms(2) by (cases "cm_order e") (auto simp: visits_def neq_Nil_conv subset_singleton_iff)
  then show ?thesis by (simp add: saved_as_def assms(1) range_entries_def NewWorkspace_def Let_def)
qed

text \<open>
  C31: a workspace can be added under a name that is taken. The file is then refused by every later load, so that the
  daemon starts without workspaces; the next workspace that is added is saved as the only one, with the settings of the
  manager reset: the others are gone from the file.
\<close>

theorem taken_name_loses_workspaces:
  assumes "cm_reach behind m" "mget (cm_workspaces m) (new_id e) = None" "visits e (insert (new_id e) (ids_of m))"
    "mget (cm_workspaces m) k = Some w0" "ws_Name (Definition w0) = nm"
    "AddWorkspaceWithOptions e nm path auto create m = (Inr w, m1)"
  shows "(\<exists>err. fst (LoadWorkspaces l (cm_file m1)) = Inl err) \<and>
    cm_workspaces (open_manager l (configPath m1) (cm_file m1)) = [] \<and>
    (\<forall>e2 nm2 path2 auto2 create2 w2 m2. visits e2 {new_id e2} \<and>
       AddWorkspaceWithOptions e2 nm2 path2 auto2 create2 (open_manager l (configPath m1) (cm_file m1)) = (Inr w2, m2) \<longrightarrow>
       (\<exists>cfg. cm_file m2 = File_holds cfg \<and> Workspaces cfg = [Definition w2] \<and> Manager cfg = Manager createDefaultWorkspacesConfig))"
proof -
  have ok: "manager_ok m" "cm_ok m" using cm_reach_ok [OF assms(1)] by (simp_all add: manager_ok_def)
  have step: "configPath m1 \<noteq> []" "in_step m1" "definitions m1 = insert (Definition w) (definitions m)"
    using Add_step [OF assms(6,2,3) ok(1)] by (simp_all add: manager_ok_def)
  then obtain cfg where cfg: "cm_file m1 = File_holds cfg" "set (Workspaces cfg) = insert (Definition w) (definitions m)"
    by (auto simp: in_step_def)
  have w: "ws_ID (Definition w) = new_id e" "ws_Name (Definition w) = nm"
    using AddWorkspace_cases [OF assms(6,2)] by (force simp: NewWorkspace_def)+
  have w0: "ws_ID (Definition w0) = k" "Definition w0 \<in> definitions m"
    using assms(4) ok by (auto simp: cm_ok_def definitions_def ran_def)
  have "k \<noteq> new_id e" using assms(2,4) by auto
  then have differ: "Definition w \<noteq> Definition w0" using w w0 by auto
  have "\<not> inj_on ws_Name (set (Workspaces cfg))"
    using differ w w0 assms(5) cfg(2) by (auto simp: inj_on_def)
  then have nd: "\<not> distinct (map ws_Name (Workspaces cfg))" by (simp add: distinct_map)
  have refused: "\<exists>err. LoadWorkspaces l' (File_holds cfg) = (Inl err, File_holds cfg)" for l' by (rule taken_name_not_loaded [OF nd])
  then obtain err where load: "LoadWorkspaces l (cm_file m1) = (Inl err, cm_file m1)" using cfg(1) by metis
  let ?o = "open_manager l (configPath m1) (cm_file m1)"
  note o = open_unreadable [OF load, of "configPath m1"]
  have again: "\<exists>cfg'. cm_file m2 = File_holds cfg' \<and> Workspaces cfg' = [Definition w2] \<and> Manager cfg' = Manager createDefaultWorkspacesConfig"
    if v: "visits e2 {new_id e2}" and add: "AddWorkspaceWithOptions e2 nm2 path2 auto2 create2 ?o = (Inr w2, m2)"
    for e2 nm2 path2 auto2 create2 w2 m2
  proof -
    have new: "mget (cm_workspaces ?o) (new_id e2) = None" by (simp add: o)
    obtain fs d m3 where a: "w2 = NewWorkspace (le_now e2) d"
      "saveConfig (e2\<lparr>le_fs := fs\<rparr>) (register (e2\<lparr>le_fs := fs\<rparr>) d (?o\<lparr>cm_workspaces := mput (new_id e2) (NewWorkspace (le_now e2) d) (cm_workspaces ?o)\<rparr>)) = (None, m3)"
      "m2 = updateDiscoveryConfiguredPaths m3"
      by (rule AddWorkspace_cases [OF add new]) auto
    let ?m = "register (e2\<lparr>le_fs := fs\<rparr>) d (?o\<lparr>cm_workspaces := mput (new_id e2) (NewWorkspace (le_now e2) d) (cm_workspaces ?o)\<rparr>)"
    have m3: "m3 = ?m\<lparr>cm_file := File_holds (saved_as (e2\<lparr>le_fs := fs\<rparr>) ?m)\<rparr>"
      by (rule saveConfig_saves [OF a(2)]) (simp add: o step(1))
    have "Workspaces (saved_as (e2\<lparr>le_fs := fs\<rparr>) ?m) = [d]"
      by (rule saved_alone [where now = "le_now e2" and i = "new_id e2"]) (use v in \<open>simp_all add: o visits_def\<close>)
    moreover have "Manager (saved_as (e2\<lparr>le_fs := fs\<rparr>) ?m) = Manager createDefaultWorkspacesConfig"
      using refused [of "load_env.truncate (e2\<lparr>le_fs := fs\<rparr>)"] o(2) by (auto simp: saved_as_def cfg(1) Let_def)
    ultimately show ?thesis using a(1,3) m3 by (simp add: NewWorkspace_def)
  qed
  show ?thesis using load o(1) again by auto
qed

definition demo_cm_env :: "string \<Rightarrow> string list \<Rightarrow> cm_env" where
  "demo_cm_env i order = load_env.extend demo_load_env
     \<lparr>mkdir_ok = True, new_id = i, cm_order = order, real = (\<lambda>p. p), common_dir = (\<lambda>_. None)\<rparr>"

definition demo_cm :: config_manager where
  "demo_cm = open_manager demo_load_env ''/w.yaml'' (File_holds createDefaultWorkspacesConfig)"

definition demo_cm_one :: config_manager where
  "demo_cm_one = snd (AddWorkspaceWithOptions (demo_cm_env ''1'' [''1'']) ''a'' ''/a'' False False demo_cm)"

lemma default_workspaces_load:
  "LoadWorkspaces e (File_holds createDefaultWorkspacesConfig) = (Inr createDefaultWorkspacesConfig, File_holds createDefaultWorkspacesConfig)"
proof -
  let ?d = createDefaultWorkspacesConfig
  have ws: "Workspaces ?d = []" by (simp add: createDefaultWorkspacesConfig_def)
  have "ports_ok (Manager ?d)" by (simp add: ports_ok_def bad_port_def in_range_def)
  then have "sanitizeWorkspaceManagerConfig (Manager ?d) = Manager ?d"
    using sanitize_ports_same [of "Manager ?d"]
    by (simp add: sanitizeWorkspaceManagerConfig_def Let_def)
  then have "?d\<lparr>Manager := sanitizeWorkspaceManagerConfig (Manager ?d), Workspaces := []\<rparr> = ?d" using ws by simp
  moreover have "validateWorkspaceManager (Manager ?d) = None" by (simp add: validateWorkspaceManager_def)
  ultimately show ?thesis
    by (simp add: LoadWorkspaces_def ws postProcessWorkspaces_def ValidateWorkspaces_def validateWorkspaceDefinitions_def orelse_def Let_def)
qed

lemma demo_cm_simps: "cm_workspaces demo_cm = []" "cm_file demo_cm = File_holds createDefaultWorkspacesConfig" "configPath demo_cm = ''/w.yaml''"
  by (simp_all add: demo_cm_def open_manager_def default_workspaces_load NewConfigManager_def) (simp add: createDefaultWorkspacesConfig_def)

lemma demo_cm_reach: "cm_reach False demo_cm"
proof (rule start)
  show "manager_ok demo_cm" by (simp add: manager_ok_def cm_ok_def own_paths_def demo_cm_simps)
  have "Workspaces createDefaultWorkspacesConfig = []" by (simp add: createDefaultWorkspacesConfig_def)
  then show "in_step demo_cm" by (simp add: in_step_def demo_cm_simps definitions_def)
qed

lemma demo_cm_one_reach: "cm_reach False demo_cm_one"
proof -
  let ?e = "demo_cm_env ''1'' [''1'']"
  have "mget (cm_workspaces demo_cm) (new_id ?e) = None" by (simp add: demo_cm_simps)
  moreover have "visits ?e (insert (new_id ?e) (ids_of demo_cm))"
    by (simp add: visits_def ids_of_def demo_cm_env_def load_env.extend_def demo_cm_simps)
  ultimately show ?thesis
    using added [OF demo_cm_reach _ _ surjective_pairing, of ?e "''a''" "''/a''" False False] by (simp add: demo_cm_one_def)
qed

lemma demo_cm_one_eval: "map (\<lambda>(k, w). (k, ws_Name (Definition w))) (cm_workspaces demo_cm_one) = [(''1'', ''a'')]"
  by code_simp

lemma demo_cm_one_get: "\<exists>w. cm_workspaces demo_cm_one = [(''1'', w)] \<and> ws_Name (Definition w) = ''a''"
proof -
  have "length (cm_workspaces demo_cm_one) = 1" using demo_cm_one_eval by (metis length_map One_nat_def length_Cons list.size(3))
  then obtain k w where kw: "cm_workspaces demo_cm_one = [(k, w)]" by (cases "cm_workspaces demo_cm_one") auto
  show ?thesis using demo_cm_one_eval kw by auto
qed


theorem taken_name_loses_workspaces_witness:
  "\<exists>w m1 err. AddWorkspaceWithOptions (demo_cm_env ''2'' [''1'', ''2'']) ''a'' ''/b'' False False demo_cm_one = (Inr w, m1) \<and>
     fst (LoadWorkspaces demo_load_env (cm_file m1)) = Inl err"
proof -
  obtain w0 where w0: "cm_workspaces demo_cm_one = [(''1'', w0)]" "ws_Name (Definition w0) = ''a''" using demo_cm_one_get by blast
  let ?e = "demo_cm_env ''2'' [''1'', ''2'']"
  have "(case fst (AddWorkspaceWithOptions ?e ''a'' ''/b'' False False demo_cm_one) of Inr _ \<Rightarrow> True | Inl _ \<Rightarrow> False)" by code_simp
  then obtain w m1 where a: "AddWorkspaceWithOptions ?e ''a'' ''/b'' False False demo_cm_one = (Inr w, m1)"
    by (cases "AddWorkspaceWithOptions ?e ''a'' ''/b'' False False demo_cm_one") (auto split: sum.splits)
  have e: "new_id ?e = ''2''" "cm_order ?e = [''1'', ''2'']" by (simp_all add: demo_cm_env_def load_env.extend_def)
  have "mget (cm_workspaces demo_cm_one) (new_id ?e) = None" "visits ?e (insert (new_id ?e) (ids_of demo_cm_one))"
    "mget (cm_workspaces demo_cm_one) ''1'' = Some w0"
    using w0(1) by (auto simp: e visits_def ids_of_def)
  from taken_name_loses_workspaces [OF demo_cm_one_reach this w0(2) a] a show ?thesis by blast
qed

text \<open>An update whose saving fails is kept in memory all the same.\<close>

lemma failed_update_stays:
  assumes "mget (cm_workspaces m) (ws_ID (Definition w)) = Some w0" "UpdateWorkspace e w m = (Some err, m')"
  shows "mget (cm_workspaces m') (ws_ID (Definition w)) = Some w \<and> cm_file m' = cm_file m"
proof -
  let ?m = "m\<lparr>cm_workspaces := mput (ws_ID (Definition w)) w (cm_workspaces m)\<rparr>"
  obtain r m2 where s: "saveConfig e ?m = (r, m2)" by fastforce
  then have "r \<noteq> None" "m' = m2" using assms by (auto simp: UpdateWorkspace_def Let_def)
  then have "m' = ?m" using saveConfig_fails s by blast
  then show ?thesis by simp
qed

end
