(* ===== verification/Unified_Client.thy ===== *)
theory Unified_Client
  imports Hub Rpc_Dispatcher Rate_Limiter Token Http_Common
begin

text \<open>
  The client half of \<open>internal/server/unified/server.go\<close>, and \<open>internal/server/common\<close>: what is queued for a phone on
  its WebSocket, and what becomes of what it sends. The socket itself and the two goroutines on it are not modelled:
  the queue \<open>uc_send\<close> is what the writing one takes messages from, and every message the reading one gets is an argument.

  The numbers of a payload are kept as their literals (Go reads them as floating point and prints the same digits for
  the integers the events hold).
\<close>

section \<open>Send buffers\<close>

datatype send_error = ErrBufferFull | ErrClosed

record send_buffer =
  sb_id :: string
  sb_ch :: "string list"
  sb_cap :: nat
  sb_closed :: bool

definition NewSendBuffer :: "string \<Rightarrow> nat \<Rightarrow> send_buffer" where
  "NewSendBuffer i n = \<lparr>sb_id = i, sb_ch = [], sb_cap = n, sb_closed = False\<rparr>"

text \<open>Between the test of \<open>closed\<close> and the send the lock is free: the two halves of \<open>Send\<close>.\<close>

definition Send_checks :: "send_buffer \<Rightarrow> send_error option" where
  "Send_checks b = (if sb_closed b then Some ErrClosed else None)"

definition Send_queues :: "string \<Rightarrow> send_buffer \<Rightarrow> send_error option \<times> send_buffer" where
  "Send_queues d b =
     (if length (sb_ch b) < sb_cap b then (None, b\<lparr>sb_ch := sb_ch b @ [d]\<rparr>) else (Some ErrBufferFull, b))"

definition buffer_Send :: "string \<Rightarrow> send_buffer \<Rightarrow> send_error option \<times> send_buffer" where
  "buffer_Send d b = (case Send_checks b of Some e \<Rightarrow> (Some e, b) | None \<Rightarrow> Send_queues d b)"

definition buffer_Close :: "send_buffer \<Rightarrow> send_buffer" where
  "buffer_Close b = (if sb_closed b then b else b\<lparr>sb_closed := True\<rparr>)"

section \<open>Clients\<close>

definition SendBufferSize :: nat where "SendBufferSize = 1024"

record unified_client =
  uc_id :: string
  uc_send :: "string list"
  authPayload :: "token_payload option"
  rateLimitKey :: string
  uc_closed :: bool

definition NewUnifiedClient :: "string \<Rightarrow> string \<Rightarrow> unified_client" where
  "NewUnifiedClient i key = \<lparr>uc_id = i, uc_send = [], authPayload = None, rateLimitKey = key, uc_closed = False\<rparr>"

definition SetAuthPayload :: "token_payload \<Rightarrow> unified_client \<Rightarrow> unified_client" where
  "SetAuthPayload p c = c\<lparr>authPayload := Some p\<rparr>"

definition SendRaw :: "string \<Rightarrow> unified_client \<Rightarrow> unified_client" where
  "SendRaw d c =
     (if uc_closed c then c else if length (uc_send c) < SendBufferSize then c\<lparr>uc_send := uc_send c @ [d]\<rparr> else c)"

definition unified_Close :: "unified_client \<Rightarrow> unified_client" where
  "unified_Close c = (if uc_closed c then c else c\<lparr>uc_closed := True\<rparr>)"

section \<open>Events as notifications\<close>

text \<open>
  A value as \<open>json.Unmarshal\<close> puts it into an interface and \<open>json.Marshal\<close> prints it again: an object becomes a map,
  the last of several members of one name counts, and the names are sorted.
\<close>

fun go_value :: "json \<Rightarrow> json"
  and go_items :: "json list \<Rightarrow> json list"
  and go_members :: "(string \<times> json) list \<Rightarrow> (string, json) gomap" where
  "go_value JNull = JNull"
| "go_value (JBool b) = JBool b"
| "go_value (JNum n) = JNum n"
| "go_value (JStr s) = JStr s"
| "go_value (JArr js) = JArr (go_items js)"
| "go_value (JObj kvs) = map_json (go_members kvs)"
| "go_items [] = []"
| "go_items (j # js) = go_value j # go_items js"
| "go_members [] = []"
| "go_members ((k, v) # kvs) = (let m = go_members kvs in if mem_key k m then m else mput k (go_value v) m)"

text \<open>The members of an object as a map, unmarshalled one level deep.\<close>

definition object_map :: "(string \<times> json) list \<Rightarrow> string \<Rightarrow> json option" where
  "object_map kvs k = map_of (rev kvs) k"

definition put_text :: "(string \<times> json) list \<Rightarrow> string \<Rightarrow> (string, json) gomap \<Rightarrow> (string, json) gomap" where
  "put_text kvs k m = (case object_map kvs k of Some (JStr s) \<Rightarrow> if s \<noteq> [] then mput k (JStr s) m else m | _ \<Rightarrow> m)"

definition put_any :: "(string \<times> json) list \<Rightarrow> string \<Rightarrow> (string, json) gomap \<Rightarrow> (string, json) gomap" where
  "put_any kvs k m = (case object_map kvs k of Some v \<Rightarrow> mput k (go_value v) m | None \<Rightarrow> m)"

definition notification_params :: "(string \<times> json) list \<Rightarrow> json" where
  "notification_params eventData =
     (let rest = (\<lambda>m. put_any eventData ''timestamp''
            (put_text eventData ''agent_type'' (put_text eventData ''session_id'' (put_text eventData ''workspace_id'' m))))
      in map_json (case object_map eventData ''payload'' of
           Some (JObj kvs) \<Rightarrow> rest (go_members kvs)
         | _ \<Rightarrow> rest (put_any eventData ''payload'' [])))"

definition event_method :: "string \<Rightarrow> string" where
  "event_method ty = ''event/'' @ ty"

text \<open>\<open>None\<close>: an error.\<close>

definition notification_text :: "event \<Rightarrow> string option" where
  "notification_text e =
     (case ToJSON e of
        None \<Rightarrow> None
      | Some data \<Rightarrow>
          (case json_parse data of
             Some (JObj kvs) \<Rightarrow>
               (case NewNotification (event_method (Type e)) (GJson (notification_params kvs)) of
                  Inl _ \<Rightarrow> None | Inr n \<Rightarrow> Some (json_print (notification_json n)))
           | _ \<Rightarrow> None))"

definition unified_Send :: "event \<Rightarrow> unified_client \<Rightarrow> bool \<times> unified_client" where
  "unified_Send e c =
     (if uc_closed c then (False, c)
      else case notification_text e of None \<Rightarrow> (False, c) | Some t \<Rightarrow> (True, SendRaw t c))"

text \<open>\<open>common.EventToJSONRPCNotification\<close>: the payload alone, read into a struct without regard to case.\<close>

fun decode_payload_member :: "(string \<times> json) list \<Rightarrow> json \<Rightarrow> json" where
  "decode_payload_member [] p = p"
| "decode_payload_member ((k, v) # kvs) p = decode_payload_member kvs (if fold_key k = ''payload'' then go_value v else p)"

definition EventToJSONRPCNotification :: "event \<Rightarrow> string option" where
  "EventToJSONRPCNotification e =
     (case ToJSON e of
        None \<Rightarrow> None
      | Some data \<Rightarrow>
          (case json_parse data of
             Some (JObj kvs) \<Rightarrow>
               (let p = decode_payload_member kvs JNull
                in case NewNotification (event_method (Type e)) (if p = JNull then GNil else GJson p) of
                     Inl _ \<Rightarrow> None | Inr n \<Rightarrow> Some (json_print (notification_json n)))
           | _ \<Rightarrow> None))"

interpretation ucs: subscriber unified_Send unified_Close uc_closed uc_id
  by unfold_locales
    (auto simp: unified_Send_def unified_Close_def SendRaw_def split: option.splits)

interpretation fuc: subscriber "filtered_Send unified_Send" "filtered_Close unified_Close"
  "\<lambda>f. uc_closed (inner f)" "\<lambda>f. uc_id (inner f)"
  by (rule filtered_subscriber) (rule ucs.subscriber_axioms)

section \<open>Messages of a client\<close>

type_synonym rpc_context = "string \<times> token_payload option"

definition client_context :: "unified_client \<Rightarrow> rpc_context" where
  "client_context c = (uc_id c, authPayload c)"

text \<open>A client without a key, or a server without a limiter, is not limited.\<close>

definition isRateLimited :: "unified_client \<Rightarrow> time \<Rightarrow> rate_limiter option \<Rightarrow> bool \<times> rate_limiter option" where
  "isRateLimited c now lim =
     (case lim of
        None \<Rightarrow> (False, lim)
      | Some r \<Rightarrow>
          if rateLimitKey c = [] then (False, lim)
          else (let (ok, r') = Allow (rateLimitKey c) now r in (\<not> ok, Some r')))"

text \<open>The answer to be sent, if there is one; a response of no bytes is none.\<close>

definition handleJSONRPC ::
  "json_env \<Rightarrow> (rpc_context, 's) registry option \<Rightarrow> unified_client \<Rightarrow> string \<Rightarrow> 's \<Rightarrow> string option \<times> 's" where
  "handleJSONRPC env disp c data s =
     (case disp of
        None \<Rightarrow> (None, s)
      | Some reg \<Rightarrow>
          (let (resp, s') = HandleMessage env reg (client_context c) data s
           in (case resp of Some t \<Rightarrow> if t = [] then None else Some t | None \<Rightarrow> None, s')))"

definition handleMessage ::
  "json_env \<Rightarrow> (rpc_context, 's) registry option \<Rightarrow> unified_client \<Rightarrow> string \<Rightarrow> 's \<Rightarrow> string option \<times> 's" where
  "handleMessage env disp c data s =
     (if \<not> IsJSONRPC env data then (None, s) else handleJSONRPC env disp c data s)"

section \<open>What a client is told of an event\<close>

lemma object_map_simps:
  "object_map [] k = None"
  "object_map ((k', v) # kvs) k = (case object_map kvs k of Some x \<Rightarrow> Some x | None \<Rightarrow> if k = k' then Some v else None)"
  by (simp_all add: object_map_def map_add_def split: option.split)

lemma wf_go_members: "wf_map (go_members kvs)"
  by (induction kvs rule: go_value_go_items_go_members.induct(3) [of "\<lambda>_. True" "\<lambda>_. True"]) (simp_all add: Let_def)

lemma mget_go_members: "mget (go_members kvs) k = map_option go_value (object_map kvs k)"
  by (induction kvs rule: go_value_go_items_go_members.induct(3) [of "\<lambda>_. True" "\<lambda>_. True"])
    (auto simp: object_map_simps Let_def mem_key_def split: option.split)

lemma mget_same_entries: "wf_map m \<Longrightarrow> wf_map m' \<Longrightarrow> set m' = set m \<Longrightarrow> mget m' = mget m"
  by (rule ext) (metis mget_iff_in_set not_None_eq)

lemma map_json_members:
  assumes "wf_map m"
  shows "\<exists>ps. map_json m = JObj ps \<and> mget ps = mget m"
proof (intro exI conjI)
  let ?ps = "sort_key (\<lambda>(k, _). map code_of k) m"
  show "map_json m = JObj ?ps" by (simp add: map_json_def)
  have "wf_map ?ps" using assms by (simp add: wf_map_def distinct_map)
  then show "mget ?ps = mget m" by (intro mget_same_entries assms) simp_all
qed

lemma mget_put_text:
  "mget (put_text kvs k m) x =
     (if x = k then (case object_map kvs k of Some (JStr s) \<Rightarrow> if s \<noteq> [] then Some (JStr s) else mget m x | _ \<Rightarrow> mget m x) else mget m x)"
  by (auto simp: put_text_def split: option.split json.split)

lemma wf_puts: "wf_map m \<Longrightarrow> wf_map (put_text kvs k m)" "wf_map m \<Longrightarrow> wf_map (put_any kvs k m)"
  by (auto simp: put_text_def put_any_def split: option.split json.split)

text \<open>The members of an event's text.\<close>

definition event_members :: "event \<Rightarrow> (string \<times> json) list" where
  "event_members e =
     f_str ''event'' (EventType e) @ f_str ''timestamp'' (rfc3339 True 0 (EventTime e)) @
     f_str_opt ''workspace_id'' (ev_workspace e) @ f_str_opt ''session_id'' (ev_session e) @
     f_str_opt ''agent_type'' (AgentType e) @ [(''payload'', Payload e)] @ f_str_opt ''request_id'' (RequestID e)"

lemma event_members_get:
  "object_map (event_members e) ''payload'' = Some (Payload e)"
  "object_map (event_members e) ''timestamp'' = Some (JStr (rfc3339 True 0 (EventTime e)))"
  "object_map (event_members e) ''workspace_id'' = (if ev_workspace e = [] then None else Some (JStr (ev_workspace e)))"
  "object_map (event_members e) ''session_id'' = (if ev_session e = [] then None else Some (JStr (ev_session e)))"
  "object_map (event_members e) ''agent_type'' = (if AgentType e = [] then None else Some (JStr (AgentType e)))"
  by (simp_all add: event_members_def f_str_def f_str_opt_def object_map_simps)

text \<open>
  C37: an event whose payload is an object, and whose strings are ASCII and numbers integers, is put, for an open
  client with room in its queue, at the end of this queue as one notification named after its type, whose
  parameters are the members of the payload, with the time of the event, and with its workspace, session and agent where it has them, which
  take the place of members of these names. When the queue is full the client is left as it was: the event is
  lost, although the send reports success.
\<close>

theorem event_reaches_client:
  assumes "ToJSON e = Some data" "printable (event_json e)" "Payload e = JObj kvs" "\<not> uc_closed c"
  shows "\<exists>ps. unified_Send e c =
      (True,
       if length (uc_send c) < 1024
       then c\<lparr>uc_send := uc_send c @ [json_print (notification_json
              \<lparr>notif_version = Version, notif_method = ''event/'' @ EventType e, notif_params = Some (JObj ps)\<rparr>)]\<rparr>
       else c) \<and>
    (\<forall>k. mget ps k =
      (if k = ''timestamp'' then Some (JStr (rfc3339 True 0 (EventTime e)))
       else if k = ''agent_type'' \<and> AgentType e \<noteq> [] then Some (JStr (AgentType e))
       else if k = ''session_id'' \<and> ev_session e \<noteq> [] then Some (JStr (ev_session e))
       else if k = ''workspace_id'' \<and> ev_workspace e \<noteq> [] then Some (JStr (ev_workspace e))
       else map_option go_value (object_map kvs k)))"
proof -
  have parsed: "json_parse data = Some (JObj (event_members e))"
    using assms(1) json_roundtrip [OF assms(2)]
    by (auto simp: ToJSON_def event_json_def event_members_def Let_def split: if_splits)
  let ?m = "put_any (event_members e) ''timestamp''
    (put_text (event_members e) ''agent_type'' (put_text (event_members e) ''session_id''
      (put_text (event_members e) ''workspace_id'' (go_members kvs))))"
  have params: "notification_params (event_members e) = map_json ?m"
    by (simp add: notification_params_def event_members_get assms(3) Let_def)
  have "wf_map ?m" by (intro wf_puts wf_go_members)
  then obtain ps where ps: "map_json ?m = JObj ps" "mget ps = mget ?m" using map_json_members by blast
  have members: "mget ?m k =
      (if k = ''timestamp'' then Some (JStr (rfc3339 True 0 (EventTime e)))
       else if k = ''agent_type'' \<and> AgentType e \<noteq> [] then Some (JStr (AgentType e))
       else if k = ''session_id'' \<and> ev_session e \<noteq> [] then Some (JStr (ev_session e))
       else if k = ''workspace_id'' \<and> ev_workspace e \<noteq> [] then Some (JStr (ev_workspace e))
       else map_option go_value (object_map kvs k))" for k
    by (cases "ev_workspace e = []"; cases "ev_session e = []"; cases "AgentType e = []")
      (simp_all only: put_any_def event_members_get option.case mget_mput mget_put_text mget_go_members json.case go_value.simps
        if_True if_False simp_thms refl if_cancel)
  have sends: "unified_Send e c = (True, SendRaw (json_print (notification_json
      \<lparr>notif_version = Version, notif_method = ''event/'' @ EventType e, notif_params = Some (JObj ps)\<rparr>)) c)"
  proof -
    have made: "NewNotification (event_method (Type e)) (GJson (notification_params (event_members e))) =
        Inr \<lparr>notif_version = Version, notif_method = ''event/'' @ EventType e, notif_params = Some (JObj ps)\<rparr>"
      unfolding params ps(1) NewNotification_def marshal_field_def event_method_def Type_def goval.case sum.case by (rule refl)
    have "notification_text e = Some (json_print (notification_json
        \<lparr>notif_version = Version, notif_method = ''event/'' @ EventType e, notif_params = Some (JObj ps)\<rparr>))"
      unfolding notification_text_def assms(1) option.case parsed json.case made sum.case by (rule refl)
    then show ?thesis unfolding unified_Send_def using assms(4) by (simp only: if_False option.case)
  qed
  show ?thesis
  proof (intro exI conjI allI)
    show "unified_Send e c =
      (True,
       if length (uc_send c) < 1024
       then c\<lparr>uc_send := uc_send c @ [json_print (notification_json
              \<lparr>notif_version = Version, notif_method = ''event/'' @ EventType e, notif_params = Some (JObj ps)\<rparr>)]\<rparr>
       else c)"
      using sends assms(4) by (simp only: SendRaw_def SendBufferSize_def if_False)
  qed (unfold ps(2), rule members)
qed

definition demo_client :: unified_client where
  "demo_client = NewUnifiedClient ''c'' ''10.0.0.1''"

theorem event_reaches_client_witness:
  "\<exists>ps. unified_Send sample_event demo_client =
      (True, demo_client\<lparr>uc_send := [json_print (notification_json
         \<lparr>notif_version = Version, notif_method = ''event/git_branch_changed'', notif_params = Some (JObj ps)\<rparr>)]\<rparr>) \<and>
    mget ps ''workspace_id'' = Some (JStr ''ws-1'')"
proof -
  have "printable (event_json sample_event)"
    using sample_event_time
    by (simp add: event_json_def sample_event_def NewGitBranchChangedEvent_def NewEventWithContext_def f_str_def f_str_opt_def ascii_def)
  moreover obtain kvs where "Payload sample_event = JObj kvs"
    by (simp add: sample_event_def NewGitBranchChangedEvent_def NewEventWithContext_def)
  moreover have "\<not> uc_closed demo_client" "uc_send demo_client = []" by (simp_all add: demo_client_def NewUnifiedClient_def)
  moreover have "EventType sample_event = ''git_branch_changed''" "ev_workspace sample_event = ''ws-1''"
    by (simp_all add: sample_event_def NewGitBranchChangedEvent_def NewEventWithContext_def)
  ultimately show ?thesis
    using event_reaches_client [OF sample_event_text, of _ demo_client] by fastforce
qed

text \<open>
  The hub takes a subscriber for gone when its \<open>Send\<close> fails. A client whose queue is full loses the event, and the
  send succeeds all the same, so that it stays and gets the later ones: what it sees has gaps.
\<close>

lemma full_client_loses_event:
  assumes "ToJSON e = Some data" "printable (event_json e)" "Payload e = JObj kvs" "\<not> uc_closed c" "length (uc_send c) = SendBufferSize"
  shows "unified_Send e c = (True, c)"
proof -
  have parsed: "json_parse data = Some (JObj (event_members e))"
    using assms(1) json_roundtrip [OF assms(2)]
    by (auto simp: ToJSON_def event_json_def event_members_def Let_def split: if_splits)
  then show ?thesis
    using assms(4,5)
    by (simp add: unified_Send_def notification_text_def assms(1) NewNotification_def marshal_field_def SendRaw_def
        del: json_print.simps)
qed

text \<open>A batch, which the dispatcher would serve, is dropped without an answer; so is whatever is no request of version 2.0.\<close>

lemma batch_is_dropped: "handleMessage env disp c (CHR ''['' # rest) s = (None, s)"
  by (simp add: handleMessage_def IsJSONRPC_def)

end
