(* ===== verification/Unified_Server.thy ===== *)
theory Unified_Server
  imports Unified_Client Origin_Check Permission_Service Session_Watch
begin

text \<open>
  The server half of \<open>internal/server/unified/server.go\<close>, with the methods of
  \<open>internal/rpc/handler/methods/subscription.go\<close> and \<open>client.go\<close> that act on it: who may connect, what a client is
  subscribed to and looks at, and what its leaving ends. A client and the filter before it are one object under the
  identifier of the client, which the server, the hub and the goroutine that reads for it refer to. The hub is known by whom it sends to and by what was published. The handler of disconnects and the manager
  of git watchers is the session manager, as \<open>internal/app/app.go\<close> wires it.
\<close>

section \<open>The server\<close>

record session_focus =
  fo_workspace :: string
  fo_session :: string
  FocusedAt :: time

record unified_server =
  us_objects :: "(string, unified_client filtered) gomap"
  us_clients :: "string list"
  us_filtered :: "string list"
  us_hub :: "string list"
  us_published :: "event list"
  sessionFocus :: "(string, session_focus) gomap"
  us_sessions :: session_manager
  us_limiter :: "rate_limiter option"
  heartbeatSeq :: int

record ws_settings =
  ws_requireSecure :: bool
  ws_requireAuth :: bool
  ws_tokens :: "token_manager option"
  ws_checker :: "origin_checker option"
  ws_proxies :: "ip_net list"
  ws_keyExtractor :: "(http_request \<Rightarrow> string) option"

text \<open>The clock, and the orders in which maps are visited.\<close>

record server_env =
  sv_session :: session_env
  sv_git :: bool
  sv_now :: time
  sv_order_workspaces :: "string list"
  sv_order_focus :: "string list"

definition defaultWSMessagesPerMinute :: int where
  "defaultWSMessagesPerMinute = 600"

definition NewServer :: "session_manager \<Rightarrow> unified_server" where
  "NewServer m =
     \<lparr>us_objects = [], us_clients = [], us_filtered = [], us_hub = [], us_published = [], sessionFocus = [], us_sessions = m,
      us_limiter = Some (NewRateLimiter [WithMaxRequests defaultWSMessagesPerMinute, WithWindow (60 * second)]), heartbeatSeq = 0\<rparr>"

definition change_client :: "string \<Rightarrow> (unified_client filtered \<Rightarrow> unified_client filtered) \<Rightarrow> unified_server \<Rightarrow> unified_server" where
  "change_client c f s =
     (case mget (us_objects s) c of None \<Rightarrow> s | Some x \<Rightarrow> s\<lparr>us_objects := mput c (f x) (us_objects s)\<rparr>)"

definition send_raw :: "string \<Rightarrow> string \<Rightarrow> unified_server \<Rightarrow> unified_server" where
  "send_raw data c s = change_client c (\<lambda>x. x\<lparr>inner := SendRaw data (inner x)\<rparr>) s"

definition GetFilteredSubscriber :: "string \<Rightarrow> unified_server \<Rightarrow> unified_client filtered option" where
  "GetFilteredSubscriber c s = (if c \<in> set (us_filtered s) then mget (us_objects s) c else None)"

definition GetClient :: "string \<Rightarrow> unified_server \<Rightarrow> unified_client option" where
  "GetClient c s = (if c \<in> set (us_clients s) then map_option inner (mget (us_objects s) c) else None)"

definition ClientCount :: "unified_server \<Rightarrow> int" where
  "ClientCount s = int (length (us_clients s))"

definition Broadcast :: "string \<Rightarrow> unified_server \<Rightarrow> unified_server" where
  "Broadcast data s = fold (send_raw data) (us_clients s) s"

section \<open>Connecting\<close>

definition bearer_token :: "string \<Rightarrow> string" where
  "bearer_token hdr = (if length hdr > 7 \<and> take 7 hdr = ''Bearer '' then drop 7 hdr else [])"

text \<open>\<open>None\<close>: an error.\<close>

definition validateTokenFromRequest :: "ws_settings \<Rightarrow> time \<Rightarrow> http_request \<Rightarrow> token_payload option" where
  "validateTokenFromRequest cfg now r =
     (case ws_tokens cfg of
        None \<Rightarrow> None
      | Some tm \<Rightarrow>
          (let token = bearer_token (header_Get r ''Authorization'')
           in if token = [] then None
              else case ValidateToken tm token now of
                Inl _ \<Rightarrow> None
              | Inr p \<Rightarrow> if p_type p \<noteq> TokenTypeSession \<and> p_type p \<noteq> TokenTypeAccess then None else Some p))"

definition rate_limit_key :: "bool \<Rightarrow> ws_settings \<Rightarrow> rate_limiter option \<Rightarrow> http_request \<Rightarrow> string" where
  "rate_limit_key trust_proxy cfg lim r =
     (if lim = None then []
      else (case ws_keyExtractor cfg of
          Some f \<Rightarrow> f
        | None \<Rightarrow> if length (ws_proxies cfg) > 0 then TrustedProxyIPKeyExtractor trust_proxy (ws_proxies cfg) else IPKeyExtractor trust_proxy) r)"

text \<open>
  A refusal by the server, a handshake the WebSocket library refuses, for the origin or because it is none, or a client.
\<close>

datatype ws_outcome = Ws_refused http_response | Ws_not_upgraded | Ws_connected

definition connect_client :: "unified_client \<Rightarrow> unified_server \<Rightarrow> unified_server" where
  "connect_client u s =
     s\<lparr>us_objects := mput (uc_id u) (NewFilteredSubscriber u) (us_objects s), us_clients := uc_id u # us_clients s,
       us_filtered := uc_id u # us_filtered s, us_hub := uc_id u # us_hub s\<rparr>"

definition HandleWebSocket ::
  "ws_settings \<Rightarrow> bool \<Rightarrow> bool \<Rightarrow> time \<Rightarrow> string \<Rightarrow> http_request \<Rightarrow> unified_server \<Rightarrow> ws_outcome \<times> unified_server" where
  "HandleWebSocket cfg trust_proxy handshake now fresh r s =
     (if ws_requireSecure cfg \<and> \<not> isLocalRequest r (ws_proxies cfg) \<and> \<not> isSecureRequest r (ws_proxies cfg)
      then (Ws_refused (http_Error ''Upgrade to WSS is required'' 426), s)
      else (let payload = validateTokenFromRequest cfg now r
            in if ws_requireAuth cfg \<and> payload = None then (Ws_refused (http_Error ''Unauthorized'' 401), s)
               else if \<not> handshake \<or> \<not> unified_checkOrigin (ws_checker cfg) r then (Ws_not_upgraded, s)
               else (let u = NewUnifiedClient fresh (rate_limit_key trust_proxy cfg (us_limiter s) r);
                         u' = (if ws_requireAuth cfg then SetAuthPayload (the payload) u else u)
                     in (Ws_connected, connect_client u' s))))"

section \<open>What a client looks at\<close>

definition viewers :: "string list \<Rightarrow> string \<Rightarrow> string \<Rightarrow> string \<Rightarrow> unified_server \<Rightarrow> string list" where
  "viewers order c wid sid s =
     map fst (filter (\<lambda>(d, f). d \<noteq> c \<and> fo_workspace f = wid \<and> fo_session f = sid) (range_entries order (sessionFocus s)))"

definition nil_if_empty :: "'a list \<Rightarrow> 'a slice" where
  "nil_if_empty xs = (if xs = [] then None else Some xs)"

definition publish_event :: "event \<Rightarrow> unified_server \<Rightarrow> unified_server" where
  "publish_event e s = s\<lparr>us_published := us_published s @ [e]\<rparr>"

definition emitSessionLeft :: "server_env \<Rightarrow> string \<Rightarrow> string \<Rightarrow> string \<Rightarrow> unified_server \<Rightarrow> unified_server" where
  "emitSessionLeft e c wid sid s =
     (let remaining = viewers (sv_order_focus e) c wid sid s
      in if length remaining > 0 then publish_event (NewSessionLeftEvent (sv_now e) c wid sid (Some remaining)) s else s)"

definition focus_json :: "string \<Rightarrow> string \<Rightarrow> string list \<Rightarrow> json" where
  "focus_json wid sid others =
     JObj (f_str ''workspace_id'' wid @ f_str ''session_id'' sid @ f_slice ''other_viewers'' (map_option (map JStr) (nil_if_empty others)) @
       f_int ''viewer_count'' (int (length others) + 1) @ [(''success'', JBool True)])"

definition server_SetSessionFocus :: "server_env \<Rightarrow> string \<Rightarrow> string \<Rightarrow> string \<Rightarrow> unified_server \<Rightarrow> json \<times> unified_server" where
  "server_SetSessionFocus e c wid sid s =
     (let old = mget (sessionFocus s) c;
          s1 = s\<lparr>sessionFocus := mput c \<lparr>fo_workspace = wid, fo_session = sid, FocusedAt = sv_now e\<rparr> (sessionFocus s)\<rparr>;
          others = viewers (sv_order_focus e) c wid sid s1;
          s2 = (if GetFilteredSubscriber c s1 \<noteq> None then change_client c (SetSessionFocus wid sid) s1 else s1);
          s3 = (if length others > 0 then publish_event (NewSessionJoinedEvent (sv_now e) c wid sid (Some others)) s2 else s2);
          s4 = (case old of
                  None \<Rightarrow> s3
                | Some f \<Rightarrow>
                    if fo_workspace f \<noteq> wid \<or> fo_session f \<noteq> sid then emitSessionLeft e c (fo_workspace f) (fo_session f) s3 else s3)
      in (focus_json wid sid others, s4))"

definition clearClientFocus :: "server_env \<Rightarrow> string \<Rightarrow> unified_server \<Rightarrow> unified_server" where
  "clearClientFocus e c s =
     (let focus = mget (sessionFocus s) c;
          s1 = s\<lparr>sessionFocus := mdel c (sessionFocus s)\<rparr>;
          s2 = (if GetFilteredSubscriber c s1 \<noteq> None then change_client c ClearSessionFocus s1 else s1)
      in case focus of None \<Rightarrow> s2 | Some f \<Rightarrow> emitSessionLeft e c (fo_workspace f) (fo_session f) s2)"

text \<open>The clients that view each session; in one workspace, or in all for the empty one.\<close>

definition GetSessionViewers :: "string list \<Rightarrow> string \<Rightarrow> unified_server \<Rightarrow> (string, string list) gomap" where
  "GetSessionViewers order wid s =
     fold (\<lambda>(c, f) m.
         if wid \<noteq> [] \<and> fo_workspace f \<noteq> wid then m
         else mput (fo_session f) ((case mget m (fo_session f) of None \<Rightarrow> [] | Some cs \<Rightarrow> cs) @ [c]) m)
       (range_entries order (sessionFocus s)) []"

definition GetAllSessionFocus :: "unified_server \<Rightarrow> (string, session_focus) gomap" where
  "GetAllSessionFocus s = sessionFocus s"

section \<open>Leaving\<close>

definition removeClient :: "server_env \<Rightarrow> string \<Rightarrow> unified_server \<Rightarrow> unified_server" where
  "removeClient e c s =
     (let subscribed = (case GetFilteredSubscriber c s of None \<Rightarrow> [] | Some x \<Rightarrow> GetSubscribedWorkspaces (sv_order_workspaces e) x);
          s1 = s\<lparr>us_clients := removeAll c (us_clients s), us_filtered := removeAll c (us_filtered s)\<rparr>;
          s2 = clearClientFocus e c s1
      in if length subscribed > 0 then s2\<lparr>us_sessions := OnClientDisconnect c subscribed (us_sessions s2)\<rparr> else s2)"

text \<open>The end of the goroutine that reads: the client is closed and its callback runs.\<close>

definition client_gone :: "server_env \<Rightarrow> string \<Rightarrow> unified_server \<Rightarrow> unified_server" where
  "client_gone e c s =
     (let s1 = change_client c (filtered_Close unified_Close) s
      in removeClient e c (s1\<lparr>us_hub := removeAll c (us_hub s1)\<rparr>))"

definition server_Stop :: "unified_server \<Rightarrow> unified_server" where
  "server_Stop s = (fold (\<lambda>c. change_client c (filtered_Close unified_Close)) (us_clients s) s)\<lparr>us_clients := []\<rparr>"

text \<open>The heart beats as an event of its own kind, not as a notification; \<open>status\<close>: what the status provider says.\<close>

definition broadcastHeartbeat :: "server_env \<Rightarrow> string \<Rightarrow> int \<Rightarrow> unified_server \<Rightarrow> unified_server" where
  "broadcastHeartbeat e status uptime s =
     (if ClientCount s = 0 then s
      else (let seq = heartbeatSeq s + 1; s1 = s\<lparr>heartbeatSeq := seq\<rparr>
            in case ToJSON (NewHeartbeatEvent (sv_now e) seq status uptime) of
                 None \<Rightarrow> s1
               | Some data \<Rightarrow> Broadcast data s1))"

text \<open>The hub sends one event; those it cannot be sent to are dropped and closed.\<close>

definition hub_sends :: "event \<Rightarrow> string list \<Rightarrow> unified_server \<Rightarrow> unified_server" where
  "hub_sends ev order s =
     (let (m, failed) = send_all (filtered_Send unified_Send) ev (filter (\<lambda>c. c \<in> set (us_hub s)) order) (us_objects s)
      in fold (\<lambda>c x. change_client c (filtered_Close unified_Close) (x\<lparr>us_hub := removeAll c (us_hub x)\<rparr>)) failed (s\<lparr>us_objects := m\<rparr>))"

section \<open>Methods\<close>

type_synonym server_handler = "(rpc_context, unified_server) rpc_handler"

definition fails :: "rpc_error \<Rightarrow> unified_server \<Rightarrow> (goval \<times> rpc_error option) \<times> unified_server" where
  "fails err s = ((GNil, Some err), s)"

definition returns :: "json \<Rightarrow> unified_server \<Rightarrow> (goval \<times> rpc_error option) \<times> unified_server" where
  "returns j s = ((GJson j, None), s)"

definition workspace_param :: "json_env \<Rightarrow> json option \<Rightarrow> rpc_error + string" where
  "workspace_param env params =
     (case unmarshal_params env (decode_field env ''workspace_id'') [] params of
        Inl err \<Rightarrow> Inl (NewError InvalidParams (''failed to parse params: '' @ err))
      | Inr wid \<Rightarrow> if wid = [] then Inl (NewError InvalidParams ''workspace_id is required'') else Inr wid)"

text \<open>The filter of the client that calls.\<close>

definition calling_filter :: "rpc_context \<Rightarrow> unified_server \<Rightarrow> rpc_error + unified_client filtered" where
  "calling_filter ctx s =
     (if fst ctx = [] then Inl (NewError InternalError ''client ID not found in context'')
      else case GetFilteredSubscriber (fst ctx) s of
        None \<Rightarrow> Inl (NewError InternalError ''client not found'')
      | Some x \<Rightarrow> Inr x)"

definition subscribed_json :: "server_env \<Rightarrow> string \<Rightarrow> string \<Rightarrow> unified_server \<Rightarrow> json" where
  "subscribed_json e c wid s =
     JObj [(''subscribed'', JArr (case mget (us_objects s) c of
             None \<Rightarrow> [] | Some x \<Rightarrow> map JStr (GetSubscribedWorkspaces (sv_order_workspaces e) x))),
           (''success'', JBool True), (''workspace_id'', JStr wid)]"

definition rpc_Subscribe :: "json_env \<Rightarrow> server_env \<Rightarrow> server_handler" where
  "rpc_Subscribe env e ctx params s =
     (case workspace_param env params of
        Inl err \<Rightarrow> fails err s
      | Inr wid \<Rightarrow>
          (case calling_filter ctx s of
             Inl err \<Rightarrow> fails err s
           | Inr _ \<Rightarrow>
               (let s1 = change_client (fst ctx) (SubscribeWorkspace wid) s;
                    s2 = s1\<lparr>us_sessions := snd (StartGitWatcher (sv_git e) (sv_session e) wid (us_sessions s1))\<rparr>
                in returns (subscribed_json e (fst ctx) wid s2) s2)))"

definition rpc_Unsubscribe :: "json_env \<Rightarrow> server_env \<Rightarrow> server_handler" where
  "rpc_Unsubscribe env e ctx params s =
     (case workspace_param env params of
        Inl err \<Rightarrow> fails err s
      | Inr wid \<Rightarrow>
          (case calling_filter ctx s of
             Inl err \<Rightarrow> fails err s
           | Inr _ \<Rightarrow>
               (let s1 = change_client (fst ctx) (\<lambda>x. snd (ClearSessionFocusIfWorkspace wid (UnsubscribeWorkspace wid x))) s;
                    s2 = s1\<lparr>us_sessions := StopGitWatcher wid (us_sessions s1)\<rparr>
                in returns (subscribed_json e (fst ctx) wid s2) s2)))"

definition rpc_Subscriptions :: "server_env \<Rightarrow> server_handler" where
  "rpc_Subscriptions e ctx params s =
     (case calling_filter ctx s of
        Inl err \<Rightarrow> fails err s
      | Inr x \<Rightarrow>
          (let ws = GetSubscribedWorkspaces (sv_order_workspaces e) x
           in returns (JObj (f_int ''count'' (int (length ws)) @ [(''is_filtering'', JBool (IsFiltering x)), (''workspaces'', JArr (map JStr ws))])) s))"

definition rpc_SubscribeAll :: "server_handler" where
  "rpc_SubscribeAll ctx params s =
     (case calling_filter ctx s of
        Inl err \<Rightarrow> fails err s
      | Inr _ \<Rightarrow>
          returns (JObj [(''is_filtering'', JBool False), (''success'', JBool True)])
            (change_client (fst ctx) (\<lambda>x. ClearSessionFocus (SubscribeAll x)) s))"

record focus_params =
  fp_workspace :: string
  fp_session :: string

definition focus_field :: "json_env \<Rightarrow> string \<Rightarrow> json \<Rightarrow> focus_params \<times> string option \<Rightarrow> focus_params \<times> string option" where
  "focus_field env k v st =
     (case st of (p, err) \<Rightarrow>
        if k = ''workspace_id'' then (let (x, err') = decode_string env k v (fp_workspace p) err in (p\<lparr>fp_workspace := x\<rparr>, err'))
        else if k = ''session_id'' then (let (x, err') = decode_string env k v (fp_session p) err in (p\<lparr>fp_session := x\<rparr>, err'))
        else (p, err))"

definition rpc_SessionFocus :: "json_env \<Rightarrow> server_env \<Rightarrow> server_handler" where
  "rpc_SessionFocus env e ctx params s =
     (case unmarshal_params env (decode_members (focus_field env)) \<lparr>fp_workspace = [], fp_session = []\<rparr> params of
        Inl err \<Rightarrow> fails (ErrInvalidParams (''invalid params: '' @ err)) s
      | Inr p \<Rightarrow>
          if fp_workspace p = [] then fails (ErrInvalidParams ''workspace_id is required'') s
          else if fp_session p = [] then fails (ErrInvalidParams ''session_id is required'') s
          else if fst ctx = [] then fails (ErrInternalError ''client ID not found in context'') s
          else (let (j, s') = server_SetSessionFocus e (fst ctx) (fp_workspace p) (fp_session p) s in returns j s'))"

definition server_registry :: "json_env \<Rightarrow> server_env \<Rightarrow> (rpc_context, unified_server) registry" where
  "server_registry env e =
     RegisterWithMeta ''client/session/focus'' (rpc_SessionFocus env e) ''Set session focus for current client''
       (RegisterWithMeta ''workspace/subscribeAll'' rpc_SubscribeAll ''Subscribe to all workspace events''
         (RegisterWithMeta ''workspace/subscriptions'' (rpc_Subscriptions e) ''List workspace subscriptions''
           (RegisterWithMeta ''workspace/unsubscribe'' (rpc_Unsubscribe env e) ''Unsubscribe from workspace events''
             (RegisterWithMeta ''workspace/subscribe'' (rpc_Subscribe env e) ''Subscribe to workspace events'' NewRegistry))))"

text \<open>One message of a client; over the limit, its connection is closed.\<close>

definition client_message :: "json_env \<Rightarrow> server_env \<Rightarrow> string \<Rightarrow> string \<Rightarrow> unified_server \<Rightarrow> unified_server" where
  "client_message env e c data s =
     (case mget (us_objects s) c of
        None \<Rightarrow> s
      | Some x \<Rightarrow>
          (let (limited, lim) = isRateLimited (inner x) (sv_now e) (us_limiter s); s1 = s\<lparr>us_limiter := lim\<rparr>
           in if limited then client_gone e c s1
              else (let (resp, s2) = handleMessage env (Some (server_registry env e)) (inner x) data s1
                    in case resp of None \<Rightarrow> s2 | Some t \<Rightarrow> send_raw t c s2)))"

section \<open>Who is let in\<close>

lemma bearer_token_iff: "bearer_token hdr = t \<and> t \<noteq> [] \<longleftrightarrow> hdr = ''Bearer '' @ t \<and> t \<noteq> []"
proof
  assume "bearer_token hdr = t \<and> t \<noteq> []"
  then have "take 7 hdr = ''Bearer ''" "t = drop 7 hdr" "t \<noteq> []" by (auto simp: bearer_token_def split: if_splits)
  then show "hdr = ''Bearer '' @ t \<and> t \<noteq> []" by (metis append_take_drop_id)
qed (auto simp: bearer_token_def)

lemma validateTokenFromRequest_iff:
  "validateTokenFromRequest cfg now r = Some p \<longleftrightarrow>
    (\<exists>tm token. ws_tokens cfg = Some tm \<and> header_Get r ''Authorization'' = ''Bearer '' @ token \<and> token \<noteq> [] \<and>
      ValidateToken tm token now = Inr p \<and> p_type p \<in> {TokenTypeSession, TokenTypeAccess})" (is "?l \<longleftrightarrow> ?r")
proof
  assume ?l
  then obtain tm where "ws_tokens cfg = Some tm" "bearer_token (header_Get r ''Authorization'') \<noteq> []"
    "ValidateToken tm (bearer_token (header_Get r ''Authorization'')) now = Inr p" "p_type p \<in> {TokenTypeSession, TokenTypeAccess}"
    by (auto simp: validateTokenFromRequest_def Let_def split: option.splits if_splits sum.splits)
  with bearer_token_iff [of "header_Get r ''Authorization''"] show ?r by blast
next
  assume ?r
  then obtain tm token where t: "ws_tokens cfg = Some tm" "header_Get r ''Authorization'' = ''Bearer '' @ token" "token \<noteq> []"
    "ValidateToken tm token now = Inr p" "p_type p \<in> {TokenTypeSession, TokenTypeAccess}" by blast
  have "bearer_token (header_Get r ''Authorization'') = token" using t(2,3) bearer_token_iff by blast
  then show ?l using t(1,3-5) by (auto simp: validateTokenFromRequest_def)
qed

text \<open>
  C38: a WebSocket request becomes a client exactly when it is local or secure where that is required, carries a valid
  session or access token where that is required, is a handshake and comes from an allowed origin. The client then is
  known to the server and the hub under its identifier, with the payload of its token; a request that is refused gets
  426 or 401 and changes nothing.
\<close>

theorem websocket_admits_exactly:
  fixes cfg r now tp handshake c s
  defines "secure \<equiv> ws_requireSecure cfg \<longrightarrow> isLocalRequest r (ws_proxies cfg) \<or> isSecureRequest r (ws_proxies cfg)"
    and "authorised p \<equiv> (\<exists>tm token. ws_tokens cfg = Some tm \<and> header_Get r ''Authorization'' = ''Bearer '' @ token \<and> token \<noteq> [] \<and>
      ValidateToken tm token now = Inr p \<and> p_type p \<in> {TokenTypeSession, TokenTypeAccess})"
    and "outcome \<equiv> fst (HandleWebSocket cfg tp handshake now c r s)" and "s' \<equiv> snd (HandleWebSocket cfg tp handshake now c r s)"
  shows "(outcome = Ws_connected \<longleftrightarrow>
      secure \<and> (ws_requireAuth cfg \<longrightarrow> (\<exists>p. authorised p)) \<and> handshake \<and> unified_checkOrigin (ws_checker cfg) r) \<and>
    (if outcome = Ws_connected
     then (\<exists>u. GetClient c s' = Some u \<and> c \<in> set (us_hub s') \<and> uc_id u = c \<and> \<not> uc_closed u \<and> uc_send u = [] \<and>
       (ws_requireAuth cfg \<longrightarrow> (\<exists>p. authorised p \<and> authPayload u = Some p)))
     else s' = s \<and> (\<not> secure \<longrightarrow> outcome = Ws_refused (http_Error ''Upgrade to WSS is required'' 426)) \<and>
       (secure \<and> ws_requireAuth cfg \<and> (\<nexists>p. authorised p) \<longrightarrow> outcome = Ws_refused (http_Error ''Unauthorized'' 401)))"
proof -
  have payload: "validateTokenFromRequest cfg now r = Some p \<longleftrightarrow> authorised p" for p
    unfolding authorised_def by (rule validateTokenFromRequest_iff)
  then have none: "validateTokenFromRequest cfg now r = None \<longleftrightarrow> (\<nexists>p. authorised p)" by (metis not_None_eq)
  have known: "GetClient c (connect_client u s) = Some u \<and> c \<in> set (us_hub (connect_client u s))" if "uc_id u = c" for u
    using that by (simp add: connect_client_def GetClient_def NewFilteredSubscriber_def)
  consider (insecure) "\<not> secure" | (bare) "secure" "ws_requireAuth cfg" "\<nexists>p. authorised p"
    | (not_upgraded) "secure" "ws_requireAuth cfg \<longrightarrow> (\<exists>p. authorised p)" "\<not> (handshake \<and> unified_checkOrigin (ws_checker cfg) r)"
    | (ok) "secure" "ws_requireAuth cfg \<longrightarrow> (\<exists>p. authorised p)" "handshake" "unified_checkOrigin (ws_checker cfg) r" by blast
  then show ?thesis
  proof cases
    case insecure
    then show ?thesis by (simp add: outcome_def s'_def HandleWebSocket_def secure_def)
  next
    case bare
    then show ?thesis using none by (auto simp: outcome_def s'_def HandleWebSocket_def secure_def Let_def)
  next
    case not_upgraded
    then have "HandleWebSocket cfg tp handshake now c r s = (Ws_not_upgraded, s)"
      using none by (auto simp: HandleWebSocket_def secure_def Let_def)
    then show ?thesis using not_upgraded by (auto simp: outcome_def s'_def)
  next
    case ok
    let ?u = "NewUnifiedClient c (rate_limit_key tp cfg (us_limiter s) r)"
    let ?u' = "if ws_requireAuth cfg then SetAuthPayload (the (validateTokenFromRequest cfg now r)) ?u else ?u"
    have eq: "HandleWebSocket cfg tp handshake now c r s = (Ws_connected, connect_client ?u' s)"
      using ok none by (auto simp: HandleWebSocket_def secure_def Let_def)
    have u': "uc_id ?u' = c" "\<not> uc_closed ?u'" "uc_send ?u' = []" by (simp_all add: NewUnifiedClient_def SetAuthPayload_def)
    have "\<exists>p. authorised p \<and> authPayload ?u' = Some p" if auth: "ws_requireAuth cfg"
    proof -
      from ok(2) auth obtain p where "authorised p" by blast
      then show ?thesis using auth by (auto simp: payload [symmetric] SetAuthPayload_def)
    qed
    with known [OF u'(1)] u' show ?thesis using ok unfolding outcome_def s'_def eq by auto
  qed
qed

section \<open>What all clients have in common\<close>

text \<open>What does not change of a client: its identifier, and what it was let in with.\<close>

definition badge :: "unified_server \<Rightarrow> string \<Rightarrow> (string \<times> token_payload option) option" where
  "badge s c = map_option (\<lambda>x. (uc_id (inner x), authPayload (inner x))) (mget (us_objects s) c)"

definition keeps_badge :: "(unified_client filtered \<Rightarrow> unified_client filtered) \<Rightarrow> bool" where
  "keeps_badge f \<longleftrightarrow> (\<forall>x. uc_id (inner (f x)) = uc_id (inner x) \<and> authPayload (inner (f x)) = authPayload (inner x))"

lemma keeps_badge_simps [simp]:
  "keeps_badge (\<lambda>x. x\<lparr>inner := SendRaw data (inner x)\<rparr>)"
  "keeps_badge (filtered_Close unified_Close)"
  "keeps_badge (SetSessionFocus wid sid)"
  "keeps_badge ClearSessionFocus"
  "keeps_badge (SubscribeWorkspace wid)"
  "keeps_badge (\<lambda>x. ClearSessionFocus (SubscribeAll x))"
  "keeps_badge (\<lambda>x. snd (ClearSessionFocusIfWorkspace wid (UnsubscribeWorkspace wid x)))"
  by (auto simp: keeps_badge_def SendRaw_def filtered_Close_def unified_Close_def SetSessionFocus_def ClearSessionFocus_def
      SubscribeWorkspace_def SubscribeAll_def ClearSessionFocusIfWorkspace_def UnsubscribeWorkspace_def)

lemma change_client_simps [simp]:
  "us_clients (change_client c f s) = us_clients s"
  "us_filtered (change_client c f s) = us_filtered s"
  "us_hub (change_client c f s) = us_hub s"
  "us_published (change_client c f s) = us_published s"
  "sessionFocus (change_client c f s) = sessionFocus s"
  "us_sessions (change_client c f s) = us_sessions s"
  "us_limiter (change_client c f s) = us_limiter s"
  "heartbeatSeq (change_client c f s) = heartbeatSeq s"
  "mget (us_objects (change_client c f s)) d = (if d = c then map_option f (mget (us_objects s) c) else mget (us_objects s) d)"
  by (simp_all add: change_client_def split: option.split)

lemma badge_change [simp]: "keeps_badge f \<Longrightarrow> badge (change_client c f s) = badge s"
  by (rule ext) (auto simp: badge_def keeps_badge_def map_option.compositionality comp_def split: option.split)

lemma badge_same: "us_objects s' = us_objects s \<Longrightarrow> badge s' = badge s"
  by (rule ext) (simp add: badge_def)

definition may_talk :: "token_payload option \<Rightarrow> bool" where
  "may_talk p \<longleftrightarrow> (\<exists>q. p = Some q \<and> p_type q \<in> {TokenTypeSession, TokenTypeAccess})"

definition us_ok :: "bool \<Rightarrow> unified_server \<Rightarrow> bool" where
  "us_ok auth s \<longleftrightarrow>
     set (us_clients s) \<subseteq> set (us_filtered s) \<and> set (us_hub s) \<subseteq> set (us_filtered s) \<and>
     (\<forall>c \<in> set (us_filtered s). \<exists>p. badge s c = Some (c, p) \<and> (auth \<longrightarrow> may_talk p)) \<and>
     (\<forall>c. mget (sessionFocus s) c \<noteq> None \<longrightarrow> c \<in> set (us_filtered s)) \<and> watch_ok (us_sessions s)"

text \<open>The parts that matter here are the same, or fewer.\<close>

lemma us_ok_fewer:
  assumes "us_ok auth s" "badge s' = badge s" "us_filtered s' = us_filtered s" "set (us_clients s') \<subseteq> set (us_clients s)"
    "set (us_hub s') \<subseteq> set (us_hub s)" "sessionFocus s' = sessionFocus s" "us_sessions s' = us_sessions s"
  shows "us_ok auth s'"
  using assms(1,4,5) unfolding us_ok_def assms(2,3,6,7) by blast

lemma us_ok_change: "us_ok auth s \<Longrightarrow> keeps_badge f \<Longrightarrow> us_ok auth (change_client c f s)"
  by (rule us_ok_fewer [of auth s]) simp_all

lemma us_ok_publish [simp]: "us_ok auth (publish_event ev s) = us_ok auth s"
  by (simp add: us_ok_def publish_event_def badge_def)

lemma emitSessionLeft_simps [simp]:
  "us_ok auth (emitSessionLeft e c w d s) = us_ok auth s"
  "us_filtered (emitSessionLeft e c w d s) = us_filtered s" "us_sessions (emitSessionLeft e c w d s) = us_sessions s"
  "us_clients (emitSessionLeft e c w d s) = us_clients s" "us_hub (emitSessionLeft e c w d s) = us_hub s"
  "us_objects (emitSessionLeft e c w d s) = us_objects s" "sessionFocus (emitSessionLeft e c w d s) = sessionFocus s"
  unfolding emitSessionLeft_def Let_def by (simp_all split: if_split) (simp_all add: publish_event_def)

section \<open>Over all sequences of operations\<close>

lemma us_ok_SetSessionFocus:
  assumes "us_ok auth s" "c \<in> set (us_filtered s)"
  shows "us_ok auth (snd (server_SetSessionFocus e c wid sid s)) \<and>
    us_filtered (snd (server_SetSessionFocus e c wid sid s)) = us_filtered s \<and>
    us_sessions (snd (server_SetSessionFocus e c wid sid s)) = us_sessions s"
proof -
  let ?s1 = "s\<lparr>sessionFocus := mput c \<lparr>fo_workspace = wid, fo_session = sid, FocusedAt = sv_now e\<rparr> (sessionFocus s)\<rparr>"
  have "us_ok auth ?s1" using assms by (auto simp: us_ok_def badge_def)
  then have "us_ok auth (change_client c (SetSessionFocus wid sid) ?s1)" by (rule us_ok_change) simp
  with \<open>us_ok auth ?s1\<close> show ?thesis
    by (simp add: server_SetSessionFocus_def Let_def split: option.split) (simp add: publish_event_def)
qed

lemma us_ok_leaves:
  assumes ok: "us_ok auth s" and s': "s' = client_gone e c s"
  shows "us_ok auth s' \<and> set (us_filtered s') = set (us_filtered s) - {c} \<and> mget (sessionFocus s') c = None"
proof -
  let ?s0 = "(change_client c (filtered_Close unified_Close) s)\<lparr>us_hub := removeAll c (us_hub s)\<rparr>"
  let ?s1 = "?s0\<lparr>us_clients := removeAll c (us_clients s), us_filtered := removeAll c (us_filtered s)\<rparr>"
  let ?s2 = "clearClientFocus e c ?s1"
  have b: "badge ?s1 = badge s"
    using badge_same [of ?s1 "change_client c (filtered_Close unified_Close) s"] by simp
  have "us_ok auth (?s1\<lparr>sessionFocus := mdel c (sessionFocus s)\<rparr>)"
    using ok b by (auto simp: us_ok_def badge_def fun_eq_iff)
  moreover have "GetFilteredSubscriber c (?s1\<lparr>sessionFocus := mdel c (sessionFocus s)\<rparr>) = None" by (simp add: GetFilteredSubscriber_def)
  ultimately have 2: "us_ok auth ?s2" "us_filtered ?s2 = removeAll c (us_filtered s)" "sessionFocus ?s2 = mdel c (sessionFocus s)"
    by (simp_all add: clearClientFocus_def Let_def split: option.split)
  have "us_ok auth (?s2\<lparr>us_sessions := OnClientDisconnect c ws (us_sessions ?s2)\<rparr>)" for ws
    using 2(1) watch_disconnected [of "us_sessions ?s2" _ c ws] by (auto simp: us_ok_def badge_def)
  with 2 show ?thesis unfolding s' client_gone_def removeClient_def Let_def by (simp add: Diff_insert0)
qed

text \<open>A property every handler of a registry keeps is kept by every message.\<close>

lemma HandleMessage_keeps:
  assumes step: "\<And>meth h params s. Get meth reg = Some h \<Longrightarrow> P s \<Longrightarrow> P (snd (h ctx params s))" and "P s"
  shows "P (snd (HandleMessage env reg ctx data s))"
proof -
  have d: "P (snd (Dispatch reg ctx req s))" if "P s" for req s
    using step [of "rpc_request.Method req" _ s "req_params req"] that
    by (auto simp: Dispatch_def Let_def case_prod_unfold split: option.splits sum.splits)
  have b: "P (snd (batch_loop env reg ctx raws s))" if "P s" for raws s
    using that d by (induction raws arbitrary: s) (auto simp: Let_def case_prod_unfold split: sum.splits)
  show ?thesis
    using assms(2) d b
    by (auto simp: HandleMessage_def handleBatch_def DispatchBytes_def Let_def case_prod_unfold split: option.splits json.splits sum.splits)
qed

lemma server_methods:
  assumes "Get meth (server_registry env e) = Some h"
  shows "h \<in> {rpc_SessionFocus env e, rpc_SubscribeAll, rpc_Subscriptions e, rpc_Unsubscribe env e, rpc_Subscribe env e}"
  using assms
  by (simp add: server_registry_def RegisterWithMeta_def NewRegistry_def Get_def apply_middleware.simps split: option.splits if_splits)

lemma start_git_watches [simp]:
  "streamerSessions (snd (StartGitWatcher on env w m)) = streamerSessions m"
  "streamerClientSessions (snd (StartGitWatcher on env w m)) = streamerClientSessions m"
  by (simp_all add: StartGitWatcher_def set_count_def Let_def split: sum.split)

text \<open>The same clients, and the same tables of watches.\<close>

definition same_watches :: "unified_server \<Rightarrow> unified_server \<Rightarrow> bool" where
  "same_watches s s' \<longleftrightarrow> us_filtered s' = us_filtered s \<and> streamerSessions (us_sessions s') = streamerSessions (us_sessions s) \<and>
     streamerClientSessions (us_sessions s') = streamerClientSessions (us_sessions s)"

lemma us_ok_sessions:
  "us_ok auth s \<Longrightarrow> streamerSessions m = streamerSessions (us_sessions s) \<Longrightarrow>
    streamerClientSessions m = streamerClientSessions (us_sessions s) \<Longrightarrow> us_ok auth (s\<lparr>us_sessions := m\<rparr>)"
  using watch_ok_same [of m "us_sessions s"] by (auto simp: us_ok_def badge_def)

lemma us_ok_method:
  assumes "Get meth (server_registry env e) = Some h" "us_ok auth s" "fst ctx \<in> set (us_filtered s)"
  shows "us_ok auth (snd (h ctx params s)) \<and> same_watches s (snd (h ctx params s))"
proof -
  have change: "us_ok auth (change_client c f s)" if "keeps_badge f" for c f using us_ok_change [OF assms(2) that] .
  consider (focus) "h = rpc_SessionFocus env e" | (all) "h = rpc_SubscribeAll" | (list) "h = rpc_Subscriptions e"
    | (unsub) "h = rpc_Unsubscribe env e" | (sub) "h = rpc_Subscribe env e"
    using server_methods [OF assms(1)] by blast
  then show ?thesis
  proof cases
    case focus
    then show ?thesis
      using us_ok_SetSessionFocus [OF assms(2,3)] assms(2)
      by (auto simp: rpc_SessionFocus_def fails_def returns_def same_watches_def Let_def case_prod_unfold split: sum.split)
  next
    case all
    then show ?thesis using assms(2) change by (auto simp: rpc_SubscribeAll_def fails_def returns_def same_watches_def split: sum.split)
  next
    case list
    then show ?thesis using assms(2) by (auto simp: rpc_Subscriptions_def fails_def returns_def same_watches_def Let_def split: sum.split)
  next
    case unsub
    then show ?thesis
      using assms(2) change
      by (auto simp: rpc_Unsubscribe_def fails_def returns_def same_watches_def Let_def intro!: us_ok_sessions split: sum.split)
  next
    case sub
    then show ?thesis
      using assms(2) change
      by (auto simp: rpc_Subscribe_def fails_def returns_def same_watches_def Let_def intro!: us_ok_sessions split: sum.split)
  qed
qed

lemma us_ok_message:
  assumes "us_ok auth s" "c \<in> set (us_filtered s)" "mget (us_objects s) c = Some x"
  shows "us_ok auth (snd (handleMessage jenv (Some (server_registry jenv e)) (inner x) data s)) \<and>
    same_watches s (snd (handleMessage jenv (Some (server_registry jenv e)) (inner x) data s))"
proof -
  have id: "uc_id (inner x) = c" using assms by (auto simp: us_ok_def badge_def)
  let ?P = "\<lambda>t. us_ok auth t \<and> same_watches s t"
  have "?P (snd (HandleMessage jenv (server_registry jenv e) (client_context (inner x)) data s))"
  proof (rule HandleMessage_keeps)
    fix meth h params t
    assume "Get meth (server_registry jenv e) = Some h" "?P t"
    with us_ok_method [of meth jenv e h auth t "client_context (inner x)" params] assms(2) id
    show "?P (snd (h (client_context (inner x)) params t))" by (auto simp: same_watches_def client_context_def)
  qed (use assms(1) in \<open>simp add: same_watches_def\<close>)
  then show ?thesis
    using assms(1) by (auto simp: handleMessage_def handleJSONRPC_def same_watches_def case_prod_unfold Let_def)
qed

definition subscribed_to :: "string \<Rightarrow> unified_server \<Rightarrow> (string, bool) gomap" where
  "subscribed_to c s = (case mget (us_objects s) c of None \<Rightarrow> [] | Some x \<Rightarrow> filtered.workspaces x)"

lemma gone_watches:
  assumes "us_ok auth s" "c \<in> set (us_filtered s)" "valid_order (sv_order_workspaces e) (subscribed_to c s)"
  shows "watching (us_sessions (client_gone e c s)) =
    (if subscribed_to c s = [] then watching (us_sessions s) else {(d, k) \<in> watching (us_sessions s). d \<noteq> c})"
proof -
  obtain x where x: "mget (us_objects s) c = Some x" using assms(1,2) by (auto simp: us_ok_def badge_def)
  let ?s0 = "(change_client c (filtered_Close unified_Close) s)\<lparr>us_hub := removeAll c (us_hub s)\<rparr>"
  let ?x = "filtered_Close unified_Close x"
  have f: "GetFilteredSubscriber c ?s0 = Some ?x" using assms(2) x by (simp add: GetFilteredSubscriber_def)
  have "filtered.workspaces ?x = subscribed_to c s" using x by (simp add: subscribed_to_def filtered_Close_def)
  then have ws: "GetSubscribedWorkspaces (sv_order_workspaces e) ?x = sv_order_workspaces e"
    using range_entries_keys [OF assms(3)] by (simp add: GetSubscribedWorkspaces_def)
  have empty: "sv_order_workspaces e = [] \<longleftrightarrow> subscribed_to c s = []" using assms(3) by (auto simp: valid_order_def)
  have same: "us_sessions (clearClientFocus e c t) = us_sessions t" for t
    by (simp add: clearClientFocus_def Let_def split: option.split)
  have w: "watching (OnClientDisconnect c ws m) = {(d, k) \<in> watching m. d \<noteq> c}" if "watch_ok m" for ws m
    using watch_disconnected [OF that refl, of c ws] by (auto simp: watching_def)
  show ?thesis
    using f ws empty w assms(1) unfolding client_gone_def removeClient_def Let_def
    by (auto simp: same us_ok_def)
qed

text \<open>
  The servers the program can get to, with any requests, messages and operations of the session manager on behalf of
  connected clients in between; \<open>L\<close> are the clients that left without being subscribed to a workspace.
\<close>

definition client_op :: "string list \<Rightarrow> watch_op \<Rightarrow> bool" where
  "client_op connected a \<longleftrightarrow> (\<forall>e c wid sid. a = Watches e c wid sid \<longrightarrow> c \<in> set connected)"

inductive us_reach :: "ws_settings \<Rightarrow> unified_server \<Rightarrow> string set \<Rightarrow> bool" for cfg where
  start: "streamerSessions m = [] \<Longrightarrow> streamerClientSessions m = [] \<Longrightarrow> us_reach cfg (NewServer m) {}"
| connect: "us_reach cfg s L \<Longrightarrow> mget (us_objects s) c = None \<Longrightarrow> us_reach cfg (snd (HandleWebSocket cfg tp handshake now c r s)) L"
| message: "us_reach cfg s L \<Longrightarrow> c \<in> set (us_filtered s) \<Longrightarrow> valid_order (sv_order_workspaces e) (subscribed_to c s) \<Longrightarrow>
    s' = client_message env e c data s \<Longrightarrow>
    us_reach cfg s' (if c \<notin> set (us_filtered s') \<and> subscribed_to c s = [] then insert c L else L)"
| gone: "us_reach cfg s L \<Longrightarrow> c \<in> set (us_filtered s) \<Longrightarrow> valid_order (sv_order_workspaces e) (subscribed_to c s) \<Longrightarrow>
    us_reach cfg (client_gone e c s) (if subscribed_to c s = [] then insert c L else L)"
| focus: "us_reach cfg s L \<Longrightarrow> c \<in> set (us_filtered s) \<Longrightarrow> us_reach cfg (snd (server_SetSessionFocus e c wid sid s)) L"
| sessions: "us_reach cfg s L \<Longrightarrow> client_op (us_filtered s) a \<Longrightarrow> us_reach cfg (s\<lparr>us_sessions := watch_run1 a (us_sessions s)\<rparr>) L"
| event: "us_reach cfg s L \<Longrightarrow> distinct order \<Longrightarrow> us_reach cfg (hub_sends ev order s) L"
| heartbeat: "us_reach cfg s L \<Longrightarrow> us_reach cfg (broadcastHeartbeat e status uptime s) L"
| stop: "us_reach cfg s L \<Longrightarrow> us_reach cfg (server_Stop s) L"

definition watched_by :: "unified_server \<Rightarrow> string set \<Rightarrow> bool" where
  "watched_by s L \<longleftrightarrow> (\<forall>(c, k) \<in> watching (us_sessions s). c \<in> set (us_filtered s) \<union> L)"

lemma same_watches_watching: "same_watches s s' \<Longrightarrow> watching (us_sessions s') = watching (us_sessions s)"
  by (simp add: same_watches_def watching_def client_watches_def)

lemma watch_spec_watchers:
  "(c, k) \<in> watch_spec a m W \<Longrightarrow> (c, k) \<in> W \<or> (\<exists>e wid sid. a = Watches e c wid sid)"
  by (cases a) (auto split: sum.splits option.splits)

lemma HandleWebSocket_cases:
  obtains (same) "snd (HandleWebSocket cfg tp handshake now c r s) = s"
  | (new) u where "snd (HandleWebSocket cfg tp handshake now c r s) = connect_client u s" "uc_id u = c"
      "ws_requireAuth cfg \<longrightarrow> (\<exists>q. validateTokenFromRequest cfg now r = Some q \<and> authPayload u = Some q)"
proof (cases "fst (HandleWebSocket cfg tp handshake now c r s) = Ws_connected")
  case True
  let ?u = "NewUnifiedClient c (rate_limit_key tp cfg (us_limiter s) r)"
  let ?u' = "if ws_requireAuth cfg then SetAuthPayload (the (validateTokenFromRequest cfg now r)) ?u else ?u"
  have "snd (HandleWebSocket cfg tp handshake now c r s) = connect_client ?u' s"
    "ws_requireAuth cfg \<longrightarrow> validateTokenFromRequest cfg now r \<noteq> None"
    using True by (auto simp: HandleWebSocket_def Let_def split: if_splits)
  moreover have "uc_id ?u' = c" by (simp add: NewUnifiedClient_def SetAuthPayload_def)
  ultimately show ?thesis by (intro new [of ?u']) (auto simp: SetAuthPayload_def)
next
  case False
  then show ?thesis by (intro same) (auto simp: HandleWebSocket_def Let_def)
qed

lemma us_ok_connect:
  assumes "us_ok (ws_requireAuth cfg) s" "mget (us_objects s) c = None"
  shows "us_ok (ws_requireAuth cfg) (snd (HandleWebSocket cfg tp handshake now c r s)) \<and>
    set (us_filtered s) \<subseteq> set (us_filtered (snd (HandleWebSocket cfg tp handshake now c r s))) \<and>
    us_sessions (snd (HandleWebSocket cfg tp handshake now c r s)) = us_sessions s"
proof -
  have ok: "us_ok (ws_requireAuth cfg) (connect_client u s)"
    if "uc_id u = c" "ws_requireAuth cfg \<longrightarrow> may_talk (authPayload u)" for u
    using assms that by (auto simp: us_ok_def badge_def connect_client_def NewFilteredSubscriber_def)
  have p: "may_talk (Some q)" if "validateTokenFromRequest cfg now r = Some q" for q
    using that validateTokenFromRequest_iff [of cfg now r q] by (auto simp: may_talk_def)
  show ?thesis
  proof (cases rule: HandleWebSocket_cases [of cfg tp handshake now c r s])
    case same
    then show ?thesis using assms(1) by simp
  next
    case (new u)
    then show ?thesis using ok [of u] p by (auto simp: connect_client_def)
  qed
qed

lemma fold_changes:
  assumes "\<And>c s. us_ok auth s \<Longrightarrow> us_ok auth (f c s) \<and> us_filtered (f c s) = us_filtered s \<and> us_sessions (f c s) = us_sessions s"
  shows "us_ok auth s \<Longrightarrow> us_ok auth (fold f cs s) \<and> us_filtered (fold f cs s) = us_filtered s \<and> us_sessions (fold f cs s) = us_sessions s"
proof (induction cs arbitrary: s)
  case (Cons c cs)
  then show ?case using assms [OF Cons.prems, of c] Cons.IH [of "f c s"] by simp
qed simp

lemma us_ok_hub_sends:
  assumes "us_ok auth s" "distinct order"
  shows "us_ok auth (hub_sends ev order s) \<and> us_filtered (hub_sends ev order s) = us_filtered s \<and>
    us_sessions (hub_sends ev order s) = us_sessions s"
proof -
  let ?m = "fst (send_all (filtered_Send unified_Send) ev (filter (\<lambda>c. c \<in> set (us_hub s)) order) (us_objects s))"
  let ?g = "\<lambda>c x. change_client c (filtered_Close unified_Close) (x\<lparr>us_hub := removeAll c (us_hub x)\<rparr>)"
  have keep: "uc_id (inner (snd (filtered_Send unified_Send ev x))) = uc_id (inner x) \<and>
      authPayload (inner (snd (filtered_Send unified_Send ev x))) = authPayload (inner x)" for x
    by (auto simp: filtered_Send_def unified_Send_def SendRaw_def Let_def split: option.split)
  have "badge (s\<lparr>us_objects := ?m\<rparr>) = badge s"
    using send_all_spec [of "filter (\<lambda>c. c \<in> set (us_hub s)) order" "filtered_Send unified_Send" ev "us_objects s"] assms(2) keep
    by (intro ext) (simp add: badge_def option.map_comp comp_def)
  then have "us_ok auth (s\<lparr>us_objects := ?m\<rparr>)" by (intro us_ok_fewer [OF assms(1)]) simp_all
  moreover have "us_ok auth (?g c x) \<and> us_filtered (?g c x) = us_filtered x \<and> us_sessions (?g c x) = us_sessions x"
    if "us_ok auth x" for c x
  proof -
    have "us_ok auth (x\<lparr>us_hub := removeAll c (us_hub x)\<rparr>)"
      using badge_same [of "x\<lparr>us_hub := removeAll c (us_hub x)\<rparr>" x] by (intro us_ok_fewer [OF that]) auto
    then show ?thesis by (simp add: us_ok_change)
  qed
  ultimately show ?thesis
    unfolding hub_sends_def Let_def case_prod_unfold using fold_changes [of auth ?g] by simp
qed

lemma send_raw_ok:
  "us_ok auth s \<Longrightarrow> us_ok auth (send_raw t c s) \<and> us_filtered (send_raw t c s) = us_filtered s \<and> us_sessions (send_raw t c s) = us_sessions s"
  by (simp add: send_raw_def us_ok_change)

lemma us_ok_heartbeat:
  assumes "us_ok auth s"
  shows "us_ok auth (broadcastHeartbeat e status uptime s) \<and>
    us_filtered (broadcastHeartbeat e status uptime s) = us_filtered s \<and> us_sessions (broadcastHeartbeat e status uptime s) = us_sessions s"
proof -
  have ok: "us_ok auth (s\<lparr>heartbeatSeq := n\<rparr>)" for n
    using badge_same [of "s\<lparr>heartbeatSeq := n\<rparr>" s] by (intro us_ok_fewer [OF assms]) simp_all
  have "us_ok auth (Broadcast d (s\<lparr>heartbeatSeq := n\<rparr>)) \<and> us_filtered (Broadcast d (s\<lparr>heartbeatSeq := n\<rparr>)) = us_filtered s \<and>
      us_sessions (Broadcast d (s\<lparr>heartbeatSeq := n\<rparr>)) = us_sessions s" for d n
    using fold_changes [OF send_raw_ok ok] by (simp add: Broadcast_def)
  with assms ok show ?thesis by (simp add: broadcastHeartbeat_def Let_def split: option.split)
qed

lemma us_ok_Stop:
  assumes "us_ok auth s"
  shows "us_ok auth (server_Stop s) \<and> us_filtered (server_Stop s) = us_filtered s \<and> us_sessions (server_Stop s) = us_sessions s"
proof -
  let ?s = "fold (\<lambda>c. change_client c (filtered_Close unified_Close)) (us_clients s) s"
  have ok: "us_ok auth ?s \<and> us_filtered ?s = us_filtered s \<and> us_sessions ?s = us_sessions s"
    by (rule fold_changes [OF _ assms]) (simp add: us_ok_change)
  then have "us_ok auth (?s\<lparr>us_clients := []\<rparr>)"
    using badge_same [of "?s\<lparr>us_clients := []\<rparr>" ?s] by (auto intro: us_ok_fewer [of auth ?s])
  with ok show ?thesis by (simp add: server_Stop_def)
qed

lemma us_ok_limiter: "us_ok auth (s\<lparr>us_limiter := l\<rparr>) = us_ok auth s"
  by (simp add: us_ok_def badge_def)

lemma client_message_cases:
  assumes "us_ok auth s" "c \<in> set (us_filtered s)"
  obtains (limited) l where "client_message env e c data s = client_gone e c (s\<lparr>us_limiter := l\<rparr>)"
  | (served) "us_ok auth (client_message env e c data s)" "same_watches s (client_message env e c data s)"
proof -
  obtain x where x: "mget (us_objects s) c = Some x" using assms by (auto simp: us_ok_def badge_def)
  obtain b l where l: "isRateLimited (inner x) (sv_now e) (us_limiter s) = (b, l)" by fastforce
  show ?thesis
  proof (cases b)
    case True
    then show ?thesis using x l by (intro limited [of l]) (simp add: client_message_def)
  next
    case False
    let ?s = "s\<lparr>us_limiter := l\<rparr>"
    obtain resp t where m: "handleMessage env (Some (server_registry env e)) (inner x) data ?s = (resp, t)" by fastforce
    have "us_ok auth t" "same_watches ?s t"
      using us_ok_message [of auth ?s c x env e data] assms x by (simp_all add: us_ok_limiter m)
    then show ?thesis
      using x l False send_raw_ok [of auth t _ c]
      by (intro served) (simp_all add: client_message_def m same_watches_def split: option.split)
  qed
qed

lemma watched_gone:
  assumes "us_ok auth s" "watched_by s L" "c \<in> set (us_filtered s)" "valid_order (sv_order_workspaces e) (subscribed_to c s)"
  shows "watched_by (client_gone e c s) (if subscribed_to c s = [] then insert c L else L)"
  using gone_watches [OF assms(1,3,4)] us_ok_leaves [OF assms(1) refl, of e c] assms(2)
  by (auto simp: watched_by_def)

lemma us_reach_ok: "us_reach cfg s L \<Longrightarrow> us_ok (ws_requireAuth cfg) s \<and> watched_by s L"
proof (induction rule: us_reach.induct)
  case (start m)
  then show ?case
    by (simp add: us_ok_def NewServer_def watched_by_def watching_def watch_ok_def client_watches_def stream_feeds_def)
next
  case (connect s L c tp handshake now r)
  then show ?case using us_ok_connect [of cfg s c tp handshake now r] by (auto simp: watched_by_def)
next
  case (message s L c e s' env data)
  then have ok: "us_ok (ws_requireAuth cfg) s" by simp
  show ?case
  proof (cases rule: client_message_cases [OF ok message(2), of env e data])
    case (1 l)
    let ?s = "s\<lparr>us_limiter := l\<rparr>"
    have ok': "us_ok (ws_requireAuth cfg) ?s" "watched_by ?s L" using message(5) by (simp_all add: us_ok_limiter watched_by_def)
    have sub: "subscribed_to c ?s = subscribed_to c s" by (simp add: subscribed_to_def)
    show ?thesis
      using us_ok_leaves [OF ok'(1) refl, of e c] watched_gone [OF ok', of c e] message(2-4) 1 sub by auto
  next
    case 2
    then have "us_filtered s' = us_filtered s" using message(4) by (simp add: same_watches_def)
    then show ?thesis using 2 message(2,4,5) same_watches_watching [of s s'] by (auto simp: watched_by_def)
  qed
next
  case (gone s L c e)
  then show ?case using us_ok_leaves [of "ws_requireAuth cfg" s _ e c] watched_gone [of "ws_requireAuth cfg" s L c e] by simp
next
  case (focus s L c e wid sid)
  then show ?case using us_ok_SetSessionFocus [of "ws_requireAuth cfg" s c e wid sid] by (simp add: watched_by_def)
next
  case (sessions s L a)
  then have ok: "watch_ok (us_sessions s)" by (simp add: us_ok_def)
  from watch_step_refines [OF this, of a]
  have m: "watch_ok (watch_run1 a (us_sessions s))"
    "watching (watch_run1 a (us_sessions s)) = watch_spec a (us_sessions s) (watching (us_sessions s))" by simp_all
  have "c \<in> set (us_filtered s) \<union> L" if c: "(c, k) \<in> watch_spec a (us_sessions s) (watching (us_sessions s))" for c k
  proof (cases "(c, k) \<in> watching (us_sessions s)")
    case True
    then show ?thesis using sessions(3) by (auto simp: watched_by_def)
  next
    case False
    with watch_spec_watchers [OF c] obtain e wid sid where a: "a = Watches e c wid sid" by blast
    then show ?thesis using sessions(2) by (simp add: client_op_def)
  qed
  then show ?case using sessions(3) m by (auto simp: us_ok_def watched_by_def badge_def)
next
  case (event s L order ev)
  then show ?case using us_ok_hub_sends [of "ws_requireAuth cfg" s order ev] by (simp add: watched_by_def)
next
  case (heartbeat s L e status uptime)
  then show ?case using us_ok_heartbeat [of "ws_requireAuth cfg" s e status uptime] by (simp add: watched_by_def)
next
  case (stop s L)
  then show ?case using us_ok_Stop [of "ws_requireAuth cfg" s] by (simp add: watched_by_def)
qed

text \<open>
  C39: over all sequences of connections, messages, events, heartbeats and departures, the server sends to and keeps a
  focus for connected clients only, each was let in with a session or access token where that is required, and whoever
  watches a session is connected or left without being subscribed to a workspace.
\<close>

theorem clients_accounted_for:
  assumes "us_reach cfg s L"
  shows "set (us_clients s) \<subseteq> set (us_filtered s) \<and> set (us_hub s) \<subseteq> set (us_filtered s) \<and>
    (\<forall>c. mget (sessionFocus s) c \<noteq> None \<longrightarrow> c \<in> set (us_filtered s)) \<and>
    (\<forall>c \<in> set (us_filtered s). \<exists>x. GetFilteredSubscriber c s = Some x \<and> uc_id (inner x) = c \<and>
      (ws_requireAuth cfg \<longrightarrow> (\<exists>p. authPayload (inner x) = Some p \<and> p_type p \<in> {TokenTypeSession, TokenTypeAccess}))) \<and>
    (\<forall>(c, k) \<in> watching (us_sessions s). c \<in> set (us_filtered s) \<union> L)"
proof -
  have ok: "us_ok (ws_requireAuth cfg) s" and w: "watched_by s L" using us_reach_ok [OF assms] by simp_all
  have "\<exists>x. GetFilteredSubscriber c s = Some x \<and> uc_id (inner x) = c \<and>
      (ws_requireAuth cfg \<longrightarrow> (\<exists>p. authPayload (inner x) = Some p \<and> p_type p \<in> {TokenTypeSession, TokenTypeAccess}))"
    if "c \<in> set (us_filtered s)" for c
    using ok that by (auto simp: us_ok_def badge_def may_talk_def GetFilteredSubscriber_def)
  with ok w show ?thesis by (simp add: us_ok_def watched_by_def)
qed

lemma gone_publishes:
  "us_published (client_gone e c s) = us_published s @
    (case mget (sessionFocus s) c of
       None \<Rightarrow> []
     | Some f \<Rightarrow>
         (let others = viewers (sv_order_focus e) c (fo_workspace f) (fo_session f) (client_gone e c s)
          in if others = [] then [] else [NewSessionLeftEvent (sv_now e) c (fo_workspace f) (fo_session f) (Some others)]))"
proof -
  have focus: "sessionFocus (client_gone e c s) = mdel c (sessionFocus s)"
    by (simp add: client_gone_def removeClient_def clearClientFocus_def GetFilteredSubscriber_def Let_def split: option.split)
  have v: "viewers order c wid sid t = viewers order c wid sid t'" if "sessionFocus t = sessionFocus t'" for order wid sid and t t' :: unified_server
    using that by (simp add: viewers_def)
  show ?thesis
  proof (cases "mget (sessionFocus s) c")
    case None
    then show ?thesis by (simp add: client_gone_def removeClient_def clearClientFocus_def GetFilteredSubscriber_def Let_def)
  next
    case (Some f)
    let ?o = "viewers (sv_order_focus e) c (fo_workspace f) (fo_session f) (client_gone e c s)"
    have o: "viewers (sv_order_focus e) c (fo_workspace f) (fo_session f) t = ?o" if "sessionFocus t = mdel c (sessionFocus s)" for t
      using that focus by (simp add: viewers_def)
    show ?thesis
      unfolding focus Some
      by (simp add: client_gone_def removeClient_def clearClientFocus_def GetFilteredSubscriber_def Let_def Some emitSessionLeft_def o
          publish_event_def viewers_def)
  qed
qed

text \<open>
  C40: a client that leaves is gone from every table of the server and the hub, those who view the same session are told,
  and the sessions it watched are released; but not if it was subscribed to no workspace: its streams then go on.
\<close>

theorem leaving_client_released:
  assumes reach: "us_reach cfg s L" and c: "c \<in> set (us_filtered s)"
    and order: "valid_order (sv_order_workspaces e) (subscribed_to c s)"
  defines "s' \<equiv> client_gone e c s"
  shows "GetClient c s' = None \<and> GetFilteredSubscriber c s' = None \<and> c \<notin> set (us_hub s') \<and> mget (sessionFocus s') c = None \<and>
    us_published s' = us_published s @
      (case mget (sessionFocus s) c of
         None \<Rightarrow> []
       | Some f \<Rightarrow>
           (let others = viewers (sv_order_focus e) c (fo_workspace f) (fo_session f) s'
            in if others = [] then [] else [NewSessionLeftEvent (sv_now e) c (fo_workspace f) (fo_session f) (Some others)])) \<and>
    watching (us_sessions s') =
      (if subscribed_to c s = [] then watching (us_sessions s) else {(d, k) \<in> watching (us_sessions s). d \<noteq> c})"
proof -
  have ok: "us_ok (ws_requireAuth cfg) s" using us_reach_ok [OF reach] by simp
  from us_ok_leaves [OF ok refl, of e c]
  have left: "us_ok (ws_requireAuth cfg) s'" "c \<notin> set (us_filtered s')" "mget (sessionFocus s') c = None" by (simp_all add: s'_def)
  then have "c \<notin> set (us_hub s')" "c \<notin> set (us_clients s')" by (auto simp: us_ok_def)
  moreover have "us_published s' = us_published s @
      (case mget (sessionFocus s) c of
         None \<Rightarrow> []
       | Some f \<Rightarrow>
           (let others = viewers (sv_order_focus e) c (fo_workspace f) (fo_session f) s'
            in if others = [] then [] else [NewSessionLeftEvent (sv_now e) c (fo_workspace f) (fo_session f) (Some others)]))"
    unfolding s'_def by (rule gone_publishes)
  ultimately show ?thesis
    using left gone_watches [OF ok c order] by (simp add: GetClient_def GetFilteredSubscriber_def s'_def)
qed

section \<open>A server\<close>

definition open_settings :: ws_settings where
  "open_settings = \<lparr>ws_requireSecure = False, ws_requireAuth = False, ws_tokens = None, ws_checker = None, ws_proxies = [], ws_keyExtractor = None\<rparr>"

definition closed_settings :: ws_settings where
  "closed_settings = open_settings\<lparr>ws_requireAuth := True\<rparr>"

definition upgrade_request :: http_request where
  "upgrade_request = \<lparr>http_request.Method = ''GET'', Path = ''/ws'', RemoteAddr = ''10.0.0.7:5'', Header = [], has_TLS = False\<rparr>"

lemma settings_simps [simp]:
  "ws_requireSecure open_settings = False" "ws_requireAuth open_settings = False" "ws_checker open_settings = None"
  "ws_requireSecure closed_settings = False" "ws_requireAuth closed_settings = True" "ws_tokens closed_settings = None"
  by (simp_all add: open_settings_def closed_settings_def)

definition phone_connected :: unified_server where
  "phone_connected = snd (HandleWebSocket open_settings False True 0 ''phone'' upgrade_request (NewServer demo_manager))"

definition phone_watches :: unified_server where
  "phone_watches =
     phone_connected\<lparr>us_sessions := watch_run1 (Watches demo_session_env ''phone'' ''w'' ''s'') (us_sessions phone_connected)\<rparr>"

lemma open_upgrade: "unified_checkOrigin None upgrade_request"
  by (simp add: unified_checkOrigin_def header_Get_def upgrade_request_def)

theorem websocket_admits_exactly_witness:
  "fst (HandleWebSocket open_settings False True 0 ''phone'' upgrade_request (NewServer demo_manager)) = Ws_connected \<and>
   fst (HandleWebSocket closed_settings False True 0 ''phone'' upgrade_request (NewServer demo_manager)) =
     Ws_refused (http_Error ''Unauthorized'' 401)"
  using websocket_admits_exactly [of open_settings False True 0 "''phone''" upgrade_request "NewServer demo_manager"]
    websocket_admits_exactly [of closed_settings False True 0 "''phone''" upgrade_request "NewServer demo_manager"] open_upgrade
  by auto

lemma phone_connected_eq:
  "us_filtered phone_connected = [''phone'']" "us_sessions phone_connected = demo_manager" "subscribed_to ''phone'' phone_connected = []"
  using open_upgrade
  by (simp_all add: phone_connected_def HandleWebSocket_def open_settings_def connect_client_def NewServer_def subscribed_to_def
      NewFilteredSubscriber_def NewUnifiedClient_def)

lemma phone_reach: "us_reach open_settings phone_watches {}"
  unfolding phone_watches_def
proof (rule us_reach.sessions)
  show "us_reach open_settings phone_connected {}" unfolding phone_connected_def
    by (rule us_reach.connect [OF us_reach.start]) (simp_all add: demo_manager_def NewManager_def NewServer_def)
qed (simp add: client_op_def phone_connected_eq)

lemma phone_watching: "watching (us_sessions phone_watches) = {(''phone'', (''w'', ''s''))}"
proof -
  have "watch_ok demo_manager" "watching demo_manager = {}"
    by (simp_all add: watch_ok_def watching_def client_watches_def stream_feeds_def demo_manager_def NewManager_def)
  moreover have "fst (WatchWorkspaceSession demo_session_env ''phone'' ''w'' ''s'' demo_manager) =
      Inr \<lparr>wi_Workspace = ''w'', wi_Session = ''s'', Watching = True\<rparr>" by code_simp
  moreover have "resolveSessionID ''s'' demo_manager = ''s''" by code_simp
  ultimately show ?thesis
    using watch_step_refines [of demo_manager "Watches demo_session_env ''phone'' ''w'' ''s''"]
    by (simp add: phone_watches_def phone_connected_eq)
qed

theorem clients_accounted_for_witness: "''phone'' \<in> set (us_filtered phone_watches) \<union> {}"
  using clients_accounted_for [OF phone_reach] phone_watching by blast

text \<open>The phone has left, and its session is still streamed to it.\<close>

theorem leaving_client_released_witness:
  "GetClient ''phone'' (client_gone \<lparr>sv_session = demo_session_env, sv_git = True, sv_now = 0, sv_order_workspaces = [], sv_order_focus = []\<rparr>
       ''phone'' phone_watches) = None \<and>
   watching (us_sessions (client_gone \<lparr>sv_session = demo_session_env, sv_git = True, sv_now = 0, sv_order_workspaces = [], sv_order_focus = []\<rparr>
       ''phone'' phone_watches)) = {(''phone'', (''w'', ''s''))}"
proof -
  have sub: "subscribed_to ''phone'' phone_watches = []"
    using phone_connected_eq(3) by (simp add: subscribed_to_def phone_watches_def)
  have c: "''phone'' \<in> set (us_filtered phone_watches)" by (simp add: phone_watches_def phone_connected_eq)
  show ?thesis
    using leaving_client_released [OF phone_reach c,
        of "\<lparr>sv_session = demo_session_env, sv_git = True, sv_now = 0, sv_order_workspaces = [], sv_order_focus = []\<rparr>"]
    by (simp add: sub valid_order_def phone_watching)
qed

section \<open>What subscriptions count\<close>

text \<open>
  Subscribing twice to a workspace counts twice for its git watcher, but the filter remembers it once: when the client
  leaves, the count goes down by one and the watcher stays.
\<close>

lemma subscribed_twice_keeps_watcher:
  assumes "git_ok m" "mget (session_manager.workspaces m) w = Some p" "is_git_repo e p" "count_of w m = 0"
  shows "w \<in> set (gitWatchers (StopGitWatcher w (snd (StartGitWatcher True e w (snd (StartGitWatcher True e w m))))))"
proof -
  have c: "count_of v (x\<lparr>gitWatchers := ws\<rparr>) = count_of v x" for v x ws by (simp add: count_of_def)
  have n: "w \<notin> set (gitWatchers m)" using assms(1,4) by (simp add: git_ok_def)
  have s: "snd (StartGitWatcher True e w m) = (set_count w 1 m)\<lparr>gitWatchers := w # gitWatchers m\<rparr>"
    using n assms(2-4) by (simp add: StartGitWatcher_def Let_def GetWorkspace_def)
  show ?thesis unfolding s by (simp add: StartGitWatcher_def StopGitWatcher_def Let_def c)
qed

lemma subscribed_twice_listed_once:
  "mget (filtered.workspaces (SubscribeWorkspace w (SubscribeWorkspace w x))) = mget (filtered.workspaces (SubscribeWorkspace w x))"
  by (rule ext) (simp add: SubscribeWorkspace_def)

text \<open>An unsubscription counts whether the client was subscribed or not: a stranger ends the watcher of the only subscriber.\<close>

lemma stranger_stops_watcher:
  assumes "workspace_param env params = Inr w" "calling_filter ctx s = Inr x" "count_of w (us_sessions s) = 1"
  shows "w \<notin> set (gitWatchers (us_sessions (snd (rpc_Unsubscribe env e ctx params s))))"
  using assms by (simp add: rpc_Unsubscribe_def returns_def StopGitWatcher_def Let_def)

end
