(* ===== verification/Spec2Isabelle.thy ===== *)
theory Spec2Isabelle
  imports Auth_Handler Permission_Bridge Rpc_Dispatcher Hub Rate_Limiter Task_System Image_Handler Jsonl_Reader Diff_Truncate File_Watcher Session_Lifecycle Origin_Check Workspace_Manager Unified_Server
begin

text \<open>
  A verification library for the cdev daemon (\<open>src/internal\<close>, Go): a process on a developer's machine that
  runs Claude Code in the workspaces of the machine and lets a phone watch and steer it over HTTP and
  WebSocket.

  \<^bold>\<open>The program.\<close> A client pairs by a token (\<open>security\<close>, \<open>server/http/auth.go\<close>), which the owner of the
  machine may have to approve; every later request passes the rate limiter and the authentication middleware
  (\<open>server/http\<close>). Commands arrive as JSON-RPC messages (\<open>rpc/message\<close>, \<open>rpc/handler\<close>); what happens on
  the machine is published as events (\<open>domain/events\<close>) through the hub (\<open>hub\<close>) to the clients, each behind a
  filter. Claude runs in sessions (\<open>session\<close>), whose files are read as lines of JSON (\<open>adapters/jsonl\<close>) and
  watched on behalf of clients; file changes come from a debounced watcher (\<open>adapters/watcher\<close>), diffs from git
  (\<open>adapters/git\<close>), images for prompts from a store (\<open>services/imagestorage\<close>). A hook of Claude asks for
  permission before it uses a tool, over RPC or at an HTTP endpoint: the request waits until the phone answers, and
  answers are remembered as patterns (\<open>permission\<close>, \<open>rpc/handler/methods/permission.go\<close>,
  \<open>server/http/hooks.go\<close>). The workspaces are kept in a file (\<open>workspace\<close>, \<open>config\<close>); clients are connected over
  WebSockets (\<open>server/unified\<close>). Tasks (\<open>domain/task\<close>) come in by signed webhooks
  (\<open>server/http/tasks.go\<close>), are kept in a database (\<open>adapters/taskstore\<close>) and executed by agents in worktrees
  of their own (\<open>agent\<close>).

  \<^bold>\<open>How the code is modelled.\<close> Definitions bear the names of the Go functions, with a prefix where a name
  occurs twice; the state of a type is a record with its fields. Go maps are association lists with the
  order of iteration as an argument where it shows; strings are lists of bytes; times are integers of
  nanoseconds; integers are unbounded but where the width decides (digests, addresses and the bits of text). An
  \<open>error\<close> is the left part of a sum, an index out of range is \<open>None\<close>. What comes from outside (clock, random
  bytes, operating system, database, git, the processes of Claude) is an argument, so that a theorem holds for every
  answer. A method that holds one lock throughout is one step; where a lock is released between two stretches, or
  a goroutine waits, each stretch is a step and the theorems range over their interleavings.

  \<^bold>\<open>The theories.\<close>
  \<^item> \<open>Cdev_Prelude\<close>, \<open>Go_Strings\<close>, \<open>Go_Path\<close>, \<open>Go_JSON\<close>, \<open>Go_Encoding\<close>, \<open>Go_Net\<close>: what the code uses of
    Go's library (maps and times, strings, \<open>filepath\<close> with \<open>Match\<close>, \<open>encoding/json\<close>, base64 and
    HMAC-SHA256, addresses), with the contracts \<open>go_map\<close>, \<open>taken_once\<close> and \<open>codec\<close>.
  \<^item> \<open>Token\<close>, \<open>Auth_Registry\<close>, \<open>Pairing_Approval\<close> (\<open>security/token.go\<close>, \<open>auth_registry.go\<close>,
    \<open>pairing_approval.go\<close>), \<open>Client_Address\<close> (\<open>security/network.go\<close>), \<open>Http_Common\<close>, \<open>Auth_Handler\<close>
    (\<open>server/http/auth.go\<close>, the middleware of \<open>server.go\<close>), \<open>Rate_Limiter\<close> (\<open>server/http/middleware\<close>):
    which tokens validate, that pairing and refresh tokens work once, that tokens are given only
    after a local approval, what a revocation ends, what the middleware lets through, and that the limiter
    allows what a specification over the history of requests allows.
  \<^item> \<open>Permission_Pattern\<close>, \<open>Permission_Memory\<close> (\<open>permission\<close>), \<open>Permission_Service\<close>
    (\<open>rpc/handler/methods/permission.go\<close>), \<open>Hooks_Handler\<close> (\<open>server/http/hooks.go\<close>), and \<open>Permission_Bridge\<close>, which
    interleaves the two over one memory: what a remembered pattern covers, the memory as a bounded map per session,
    and that nothing is allowed which the phone did not allow, but for a Claude that bypasses permissions.
  \<^item> \<open>Rpc_Message\<close>, \<open>Rpc_Dispatcher\<close> (\<open>rpc/message\<close>, \<open>rpc/handler/registry.go\<close>, \<open>dispatcher.go\<close>): round trips of
    messages, and the answering discipline of single messages and batches.
  \<^item> \<open>Events\<close>, \<open>Hub\<close> (\<open>domain/events\<close>, \<open>hub\<close>): the JSON of events; bounds of the hub and delivery without
    gaps, over the locale \<open>subscriber\<close>.
  \<^item> \<open>Task\<close>, \<open>Task_Store\<close>, \<open>Agent_Worktree\<close>, \<open>Agent_Result\<close>, \<open>Task_Spawner\<close>, \<open>Task_Handler\<close>
    (\<open>domain/task\<close>, \<open>adapters/taskstore\<close>, \<open>agent\<close>, \<open>server/http/tasks.go\<close>) and \<open>Task_System\<close>, which composes them:
    the life of a task over all interleavings of endpoints and executions; worktree names and results of git that read
    back.
  \<^item> \<open>Image_Storage\<close>, \<open>Image_Handler\<close> (\<open>services/imagestorage\<close>, \<open>server/http/images.go\<close>): the invariant of
    the index and the files, limits, accepted paths, the answers of the endpoints.
  \<^item> \<open>Jsonl_Reader\<close>, \<open>Diff_Truncate\<close>, \<open>File_Watcher\<close> (\<open>adapters/jsonl\<close>, \<open>adapters/git/diff_truncate.go\<close>,
    \<open>adapters/watcher\<close>): reading line by line against the list of lines, the longest valid cut, no change lost
    by the debouncer.
  \<^item> \<open>Session_Identity\<close>, \<open>Session_Watch\<close>, \<open>Session_Lifecycle\<close> (\<open>session\<close>, \<open>gitutil\<close>, \<open>pathutil\<close>): identifiers and
    aliases, watchers as a relation, the table of sessions over all sequences of operations.
  \<^item> \<open>Go_Url\<close>, \<open>Origin_Check\<close> (\<open>security/origin.go\<close>, the CORS middleware of \<open>server/http/server.go\<close>): what
    \<open>url.Parse\<close> makes of an address, and exactly which origins are accepted.
  \<^item> \<open>Config\<close>, \<open>Workspace_Config\<close> (\<open>config\<close>): what holds of every configuration and every file of workspaces that
    loads, and when repaired settings are valid.
  \<^item> \<open>Git_Tracker_Manager\<close>, \<open>Workspace_Manager\<close> (\<open>workspace\<close>): trackers that fit the workspaces they are handed out
    for, and a file that agrees with memory over additions, removals and updates.
  \<^item> \<open>Unified_Client\<close>, \<open>Unified_Server\<close> (\<open>server/common\<close>, \<open>server/unified\<close>, \<open>rpc/handler/methods/subscription.go\<close>,
    \<open>client.go\<close>): events as notifications in the queue of a client, who is admitted, what the server, the hub, the
    focus and the watches know of a client, and what is left of one that is gone.
  \<^bold>\<open>Bounds and fuel.\<close> The JSON parser has fuel twice the length of its input and one more, and every call
  consumes input, so it never runs out. All other recursion terminates by a measure: the loops over strings by their length,
  the resolution of aliases by the aliases not yet seen. The constants are those of the code: 256 events in the
  queue of the hub, 1024 texts in that of a client, 4096 bytes in the buffer of the line reader, the limits of images
  and patterns.

  \<^bold>\<open>Not modelled.\<close> Socket and process I/O (\<open>server/websocket\<close>, the pumps of \<open>server/unified\<close>, \<open>rpc/transport\<close>, \<open>adapters/claude/manager.go\<close>,
  \<open>adapters/live\<close>), SQL on SQLite beyond the tasks (\<open>adapters/repository\<close>, \<open>adapters/sessioncache\<close>), the running of git,
  wiring and command line (\<open>app\<close>, \<open>cmd\<close>), generated documentation (\<open>api\<close>), installation scripts and QR images, log
  messages. Texts of errors are kept where a client or a branch of the code reads them. Of
  Go's scheduler only what the locks leave open is modelled, no data race.

  Where the code does other than it means to, the theorem states what it does; the lemmas
  \<open>renames_mispaired\<close>, \<open>ignored_root_watches_nothing\<close>, \<open>taken_id_strands_session\<close>, \<open>restart_strands_process\<close>,
  \<open>concurrent_exchanges_both_succeed\<close>, \<open>rejected_task_never_runs\<close>, \<open>taken_name_loses_workspaces\<close> and
  \<open>leaving_client_released\<close> are of this kind.
\<close>

end
